(* ===== verification/Prelude.thy ===== *)
theory Prelude
  imports Main "HOL-Library.Word"
begin

text \<open>
  Shared vocabulary of the development: bytes and fixed-width unsigned arithmetic, the
  state-and-exception computations in which the stateful classes are written, the
  little-endian image of an unsigned integer in memory, and the list lemmas the
  components share.
\<close>

section \<open>Hint collections\<close>

named_theorems sx_simps \<open>unfolding rules of the state-and-exception computations\<close>
named_theorems bytes_simps \<open>lengths and contents of byte images\<close>

section \<open>Bytes and unsigned integers of a fixed width\<close>

type_synonym byte = "8 word"

text \<open>
  The sources keep sizes and positions in \<open>uint64_t\<close> and block numbers in
  \<open>uint32_t\<close>. They are natural numbers here, with the wrap-around of every addition,
  subtraction and narrowing written out.
\<close>

definition u64_max :: nat where
  "u64_max = 2 ^ 64 - 1"

definition add64 :: "nat \<Rightarrow> nat \<Rightarrow> nat" where
  "add64 a b = (a + b) mod 2 ^ 64"

definition sub64 :: "nat \<Rightarrow> nat \<Rightarrow> nat" where
  "sub64 a b = (a + (2 ^ 64 - b mod 2 ^ 64)) mod 2 ^ 64"

definition mul64 :: "nat \<Rightarrow> nat \<Rightarrow> nat" where
  "mul64 a b = (a * b) mod 2 ^ 64"

definition to_u32 :: "nat \<Rightarrow> nat" where
  "to_u32 a = a mod 2 ^ 32"

definition add32 :: "nat \<Rightarrow> nat \<Rightarrow> nat" where
  "add32 a b = (a + b) mod 2 ^ 32"

lemma add64_small [simp]: "a + b < 2 ^ 64 \<Longrightarrow> add64 a b = a + b"
  by (simp add: add64_def)

lemma sub64_small [simp]: "b \<le> a \<Longrightarrow> a < 2 ^ 64 \<Longrightarrow> sub64 a b = a - b"
proof -
  assume *: "b \<le> a" "a < 2 ^ 64"
  then have "a + (2 ^ 64 - b mod 2 ^ 64) = (a - b) + 2 ^ 64" by simp
  then have "sub64 a b = (a - b) mod 2 ^ 64"
    unfolding sub64_def by (simp only: mod_add_self2)
  also have "\<dots> = a - b" using * by (intro mod_less) simp
  finally show ?thesis .
qed

lemma mul64_small [simp]: "a * b < 2 ^ 64 \<Longrightarrow> mul64 a b = a * b"
  by (simp add: mul64_def)

lemma to_u32_small [simp]: "a < 2 ^ 32 \<Longrightarrow> to_u32 a = a"
  by (simp add: to_u32_def)

lemma add32_small [simp]: "a + b < 2 ^ 32 \<Longrightarrow> add32 a b = a + b"
  by (simp add: add32_def)

lemma to_u32_bound [simp]: "to_u32 a < 2 ^ 32"
  by (simp add: to_u32_def)

lemma add32_bound [simp]: "add32 a b < 2 ^ 32"
  by (simp add: add32_def)

section \<open>Little-endian images of integers\<close>

text \<open>
  \<open>memcpy\<close> of an integer, and a read or write of \<open>sizeof(uint32_t)\<close> or
  \<open>sizeof(uint64_t)\<close> bytes through a cast pointer, move the machine's representation.
  The supported targets are little-endian.
\<close>

primrec le_bytes :: "nat \<Rightarrow> nat \<Rightarrow> byte list" where
  "le_bytes 0 n = []"
| "le_bytes (Suc k) n = word_of_nat (n mod 256) # le_bytes k (n div 256)"

primrec le_value :: "byte list \<Rightarrow> nat" where
  "le_value [] = 0"
| "le_value (b # bs) = unat b + 256 * le_value bs"

lemma length_le_bytes [simp, bytes_simps]: "length (le_bytes k n) = k"
  by (induction k arbitrary: n) simp_all

lemma unat_byte_of_nat [simp]: "unat (word_of_nat (n mod 256) :: byte) = n mod 256"
  by (simp add: unat_of_nat)

lemma le_value_le_bytes: "le_value (le_bytes k n) = n mod 256 ^ k"
proof (induction k arbitrary: n)
  case 0
  then show ?case by simp
next
  case (Suc k)
  have "n mod 256 ^ Suc k = n mod 256 + 256 * (n div 256 mod 256 ^ k)"
    by (simp add: mod_mult2_eq)
  then show ?case by (simp only: le_bytes.simps le_value.simps Suc unat_byte_of_nat)
qed

lemma le_value_le_bytes4 [simp]: "n < 2 ^ 32 \<Longrightarrow> le_value (le_bytes 4 n) = n"
  by (simp add: le_value_le_bytes)

lemma le_value_le_bytes8 [simp]: "n < 2 ^ 64 \<Longrightarrow> le_value (le_bytes 8 n) = n"
  by (simp add: le_value_le_bytes)

lemma le_value_bound: "le_value bs < 256 ^ length bs"
proof (induction bs)
  case Nil
  then show ?case by simp
next
  case (Cons b bs)
  have "unat b < 256" using unsigned_less [of b] by simp
  with Cons show ?case by simp
qed

lemma le_bytes_inject:
  assumes "le_bytes k m = le_bytes k n" and "m < 256 ^ k" and "n < 256 ^ k"
  shows "m = n"
proof -
  have "m mod 256 ^ k = n mod 256 ^ k"
    using assms(1) by (metis le_value_le_bytes)
  then show ?thesis using assms(2,3) by (simp only: mod_less)
qed

section \<open>Computations with a state and exceptions\<close>

text \<open>
  A method that may throw is a function from the object's state to its outcome, an
  exception or a value, and the state it leaves behind. The state is returned in both
  cases, because a C++ exception does not undo the writes made before it.
\<close>

type_synonym ('e, 's, 'a) sx = "'s \<Rightarrow> ('e + 'a) \<times> 's"

definition ret :: "'a \<Rightarrow> ('e, 's, 'a) sx" where
  "ret x s = (Inr x, s)"

definition throw :: "'e \<Rightarrow> ('e, 's, 'a) sx" where
  "throw e s = (Inl e, s)"

definition bnd :: "('e, 's, 'a) sx \<Rightarrow> ('a \<Rightarrow> ('e, 's, 'b) sx) \<Rightarrow> ('e, 's, 'b) sx" where
  "bnd m f s = (case m s of (Inl e, t) \<Rightarrow> (Inl e, t) | (Inr x, t) \<Rightarrow> f x t)"

definition seqx :: "('e, 's, unit) sx \<Rightarrow> ('e, 's, 'b) sx \<Rightarrow> ('e, 's, 'b) sx" where
  "seqx m n = bnd m (\<lambda>_. n)"

definition gets :: "('s \<Rightarrow> 'a) \<Rightarrow> ('e, 's, 'a) sx" where
  "gets f s = (Inr (f s), s)"

definition modify :: "('s \<Rightarrow> 's) \<Rightarrow> ('e, 's, unit) sx" where
  "modify f s = (Inr (), f s)"

definition guardx :: "bool \<Rightarrow> 'e \<Rightarrow> ('e, 's, unit) sx" where
  "guardx b e s = (if b then Inr () else Inl e, s)"

definition catchx :: "('e, 's, 'a) sx \<Rightarrow> ('e \<Rightarrow> ('e, 's, 'a) sx) \<Rightarrow> ('e, 's, 'a) sx" where
  "catchx m h s = (case m s of (Inl e, t) \<Rightarrow> h e t | (Inr x, t) \<Rightarrow> (Inr x, t))"

definition liftE :: "'e + 'a \<Rightarrow> ('e, 's, 'a) sx" where
  "liftE r s = (r, s)"

text \<open>A method of a part, run on the whole that owns the part.\<close>

definition zoom :: "('s \<Rightarrow> 't) \<Rightarrow> ('t \<Rightarrow> 's \<Rightarrow> 's) \<Rightarrow> ('e, 't, 'a) sx \<Rightarrow> ('e, 's, 'a) sx" where
  "zoom g p m s = (case m (g s) of (r, t) \<Rightarrow> (r, p t s))"

lemma ret_app [sx_simps]: "ret x s = (Inr x, s)" by (simp add: ret_def)
lemma throw_app [sx_simps]: "throw e s = (Inl e, s)" by (simp add: throw_def)
lemma gets_app [sx_simps]: "gets f s = (Inr (f s), s)" by (simp add: gets_def)
lemma modify_app [sx_simps]: "modify f s = (Inr (), f s)" by (simp add: modify_def)
lemma liftE_app [sx_simps]: "liftE r s = (r, s)" by (simp add: liftE_def)

lemma guardx_app [sx_simps]: "guardx b e s = (if b then Inr () else Inl e, s)"
  by (simp add: guardx_def)

lemma bnd_app [sx_simps]:
  "bnd m f s = (case m s of (Inl e, t) \<Rightarrow> (Inl e, t) | (Inr x, t) \<Rightarrow> f x t)"
  by (simp add: bnd_def)

lemma seqx_app [sx_simps]:
  "seqx m n s = (case m s of (Inl e, t) \<Rightarrow> (Inl e, t) | (Inr u, t) \<Rightarrow> n t)"
  by (simp add: seqx_def bnd_def)

lemma catchx_app [sx_simps]:
  "catchx m h s = (case m s of (Inl e, t) \<Rightarrow> h e t | (Inr x, t) \<Rightarrow> (Inr x, t))"
  by (simp add: catchx_def)

lemma zoom_app [sx_simps]: "zoom g p m s = (case m (g s) of (r, t) \<Rightarrow> (r, p t s))"
  by (simp add: zoom_def)

lemma bnd_cases:
  assumes "bnd m f s = (r, t)"
  obtains (err) e where "m s = (Inl e, t)" and "r = Inl e"
    | (val) x u where "m s = (Inr x, u)" and "f x u = (r, t)"
  using assms by (auto simp: bnd_def split: prod.splits sum.splits)

text \<open>Sequencing outcomes without a state.\<close>

definition bindE :: "'e + 'a \<Rightarrow> ('a \<Rightarrow> 'e + 'b) \<Rightarrow> 'e + 'b" where
  "bindE m f = (case m of Inl e \<Rightarrow> Inl e | Inr x \<Rightarrow> f x)"

lemma bindE_Inr [simp]: "bindE (Inr x) f = f x" by (simp add: bindE_def)
lemma bindE_Inl [simp]: "bindE (Inl e) f = Inl e" by (simp add: bindE_def)

lemma bindE_eq_Inr: "bindE m f = Inr y \<longleftrightarrow> (\<exists>x. m = Inr x \<and> f x = Inr y)"
  by (cases m) simp_all

lemma bindE_eq_Inl: "bindE m f = Inl e \<longleftrightarrow> m = Inl e \<or> (\<exists>x. m = Inr x \<and> f x = Inl e)"
  by (cases m) simp_all

section \<open>Lists of bytes\<close>

text \<open>Bytes stored into a buffer from an offset on; a store past the end extends it.\<close>

definition put_at :: "'a list \<Rightarrow> nat \<Rightarrow> 'a list \<Rightarrow> 'a list" where
  "put_at xs off ys = take off xs @ ys @ drop (off + length ys) xs"

lemma length_put_at [simp, bytes_simps]:
  "off + length ys \<le> length xs \<Longrightarrow> length (put_at xs off ys) = length xs"
  by (simp add: put_at_def)

lemma length_put_at_max: "off \<le> length xs \<Longrightarrow> length (put_at xs off ys) = max (length xs) (off + length ys)"
  by (simp add: put_at_def)

lemma put_at_end: "put_at xs (length xs) ys = xs @ ys"
  by (simp add: put_at_def)

lemma take_drop_put_at: "off \<le> length xs \<Longrightarrow> take (length ys) (drop off (put_at xs off ys)) = ys"
  by (simp add: put_at_def)

lemma take_put_at_0: "take (length ys) (put_at xs 0 ys) = ys"
  by (simp add: put_at_def)

lemma put_at_Nil [simp]: "put_at xs off [] = xs"
  by (simp add: put_at_def)

lemma take_put_at_end:
  "off + length ys \<le> length xs \<Longrightarrow>
   take (off + length ys) (put_at xs off ys) = take off xs @ ys"
  by (simp add: put_at_def)

lemma div16_bound: "(n::nat) < 16 * (n div 16) + 16"
  using mod_less_divisor [of 16 n] mult_div_mod_eq [of 16 n] by linarith

lemma take_drop_split: "m \<le> n \<Longrightarrow> take n xs = take m xs @ take (n - m) (drop m xs)"
  by (metis add_diff_inverse_nat leD take_add)

lemma take_chunks:
  assumes "k \<le> n"
  shows "take k xs @ take (n - length (take k xs)) (drop (length (take k xs)) xs) = take n xs"
proof (cases "k \<le> length xs")
  case True
  then have "length (take k xs) = k" by simp
  then show ?thesis using take_drop_split [OF assms, of xs] by simp
next
  case False
  then show ?thesis using assms by simp
qed

lemma take_drop_append_next:
  "take a (drop off xs) @ take b (drop (off + a) xs) = take (a + b) (drop off xs)"
  by (simp add: take_add add.commute)

end
