(* ===== verification/Base64.thy ===== *)
theory Base64
  imports Prelude
begin

text \<open>
  The base64 codec of the key storage
  (\<open>sdk/rmscrypto_sdk/Platform/KeyStorage/base64.cpp\<close>): the encoder that turns a fresh
  AES key into the string kept by the key store, the decoder that turns it back, and the
  proof that decoding inverts encoding for every byte string.
\<close>

unbundle bit_operations_syntax

section \<open>The alphabet\<close>

definition base64_chars :: string where
  "base64_chars =
     ''ABCDEFGHIJKLMNOPQRSTUVWXYZ'' @
     ''abcdefghijklmnopqrstuvwxyz'' @
     ''0123456789+/''"

definition isalnum :: "char \<Rightarrow> bool" where
  "isalnum c \<longleftrightarrow>
     (let n = (of_char c :: nat)
      in (48 \<le> n \<and> n \<le> 57) \<or> (65 \<le> n \<and> n \<le> 90) \<or> (97 \<le> n \<and> n \<le> 122))"

definition is_base64 :: "char \<Rightarrow> bool" where
  "is_base64 c \<longleftrightarrow> isalnum c \<or> c = CHR ''+'' \<or> c = CHR ''/''"

primrec find_from :: "char \<Rightarrow> string \<Rightarrow> nat \<Rightarrow> nat option" where
  "find_from c [] i = None"
| "find_from c (x # xs) i = (if x = c then Some i else find_from c xs (Suc i))"

text \<open>
  \<open>static_cast<unsigned char>(base64_chars.find(c))\<close>: a character outside the alphabet
  gives \<open>npos\<close>, whose low byte is 255.
\<close>

definition find_code :: "char \<Rightarrow> byte" where
  "find_code c = (case find_from c base64_chars 0 of None \<Rightarrow> 255 | Some i \<Rightarrow> word_of_nat i)"

section \<open>Encoding\<close>

text \<open>Four six-bit groups of a full \<open>char_array_3\<close>.\<close>

definition encode_quad :: "byte \<Rightarrow> byte \<Rightarrow> byte \<Rightarrow> byte list" where
  "encode_quad a b c =
     [drop_bit 2 (a AND 0xfc),
      push_bit 4 (a AND 0x03) + drop_bit 4 (b AND 0xf0),
      push_bit 2 (b AND 0x0f) + drop_bit 6 (c AND 0xc0),
      c AND 0x3f]"

definition code_char :: "byte \<Rightarrow> char" where
  "code_char q = base64_chars ! unat q"

text \<open>The part after the loop: \<open>char_array_3\<close> holds \<open>i\<close> bytes, the rest is zeroed.\<close>

definition encode_tail :: "byte list \<Rightarrow> string" where
  "encode_tail buf =
     (if buf = [] then []
      else let i = length buf;
               a = buf @ replicate (3 - i) 0
           in map code_char (take (i + 1) (encode_quad (a ! 0) (a ! 1) (a ! 2)))
              @ replicate (3 - i) (CHR ''=''))"

fun encode_loop :: "byte list \<Rightarrow> byte list \<Rightarrow> string" where
  "encode_loop buf [] = encode_tail buf"
| "encode_loop buf (b # bs) =
     (let buf' = buf @ [b]
      in if length buf' = 3
         then map code_char (encode_quad (buf' ! 0) (buf' ! 1) (buf' ! 2)) @ encode_loop [] bs
         else encode_loop buf' bs)"

definition base64_encode :: "byte list \<Rightarrow> string" where
  "base64_encode bs = encode_loop [] bs"

section \<open>Decoding\<close>

definition decode_triple :: "byte \<Rightarrow> byte \<Rightarrow> byte \<Rightarrow> byte \<Rightarrow> byte list" where
  "decode_triple p q r s =
     [push_bit 2 p + drop_bit 4 (q AND 0x30),
      push_bit 4 (q AND 0xf) + drop_bit 2 (r AND 0x3c),
      push_bit 6 (r AND 0x3) + s]"

text \<open>
  After the loop: \<open>i\<close> pending characters, the rest of \<open>char_array_4\<close> is set to
  NUL before it is looked up.
\<close>

definition decode_tail :: "string \<Rightarrow> byte list" where
  "decode_tail buf =
     (if buf = [] then []
      else let i = length buf;
               a = map find_code (buf @ replicate (4 - i) (CHR 0x00))
           in take (i - 1) (decode_triple (a ! 0) (a ! 1) (a ! 2) (a ! 3)))"

fun decode_loop :: "string \<Rightarrow> string \<Rightarrow> byte list" where
  "decode_loop buf [] = decode_tail buf"
| "decode_loop buf (c # cs) =
     (if c = CHR ''='' \<or> \<not> is_base64 c then decode_tail buf
      else let buf' = buf @ [c]
           in if length buf' = 4
              then let a = map find_code buf'
                   in decode_triple (a ! 0) (a ! 1) (a ! 2) (a ! 3) @ decode_loop [] cs
              else decode_loop buf' cs)"

definition base64_decode :: "string \<Rightarrow> byte list" where
  "base64_decode s = decode_loop [] s"

section \<open>Six-bit groups\<close>

lemma byte_masks:
  "(0xfc::byte) = push_bit 2 (mask 6)" "(0x03::byte) = mask 2"
  "(0xf0::byte) = push_bit 4 (mask 4)" "(0x30::byte) = push_bit 4 (mask 2)"
  "(0x0f::byte) = mask 4" "(0x3c::byte) = push_bit 2 (mask 4)"
  "(0xc0::byte) = push_bit 6 (mask 2)" "(0x3f::byte) = mask 6"
  by (simp_all add: mask_eq_exp_minus_1 push_bit_eq_mult)

lemma group1_or:
  "push_bit 4 (a AND 0x03) + drop_bit 4 (b AND 0xf0) =
   push_bit 4 (a AND 0x03) OR (drop_bit 4 (b AND 0xf0) :: byte)"
  by (rule disjunctive_add_eq_or, rule bit_word_eqI) (auto simp: bit_simps byte_masks)

lemma group2_or:
  "push_bit 2 (b AND 0x0f) + drop_bit 6 (c AND 0xc0) =
   push_bit 2 (b AND 0x0f) OR (drop_bit 6 (c AND 0xc0) :: byte)"
  by (rule disjunctive_add_eq_or, rule bit_word_eqI) (auto simp: bit_simps byte_masks)

lemma less_64I: "q AND mask 6 = q \<Longrightarrow> (q::byte) < 64"
  using and_mask_less_size [of 6 q] by (simp add: word_size)

lemma shifted_index:
  "Suc (Suc (n - 2)) = (if n < 2 then 2 else n)" "4 + (n - 4) = (if n < 4 then 4 else n)"
  "6 + (n - 6) = (if n < 6 then 6 else (n::nat))"
  by auto

lemma encode_quad_less: "q \<in> set (encode_quad a b c) \<Longrightarrow> q < 64"
  unfolding encode_quad_def group1_or group2_or
  by (auto intro!: less_64I bit_word_eqI simp: bit_simps byte_masks simp flip: mask_numeral)

lemma decode_byte0:
  "push_bit 2 (drop_bit 2 (a AND 0xfc)) +
   drop_bit 4 ((push_bit 4 (a AND 0x03) + drop_bit 4 (b AND 0xf0)) AND 0x30) = (a::byte)"
proof -
  have "push_bit 2 (drop_bit 2 (a AND 0xfc)) +
      drop_bit 4 ((push_bit 4 (a AND 0x03) + drop_bit 4 (b AND 0xf0)) AND 0x30) =
    push_bit 2 (drop_bit 2 (a AND 0xfc)) OR
      drop_bit 4 ((push_bit 4 (a AND 0x03) OR drop_bit 4 (b AND 0xf0)) AND 0x30)"
    unfolding group1_or
    by (rule disjunctive_add_eq_or, rule bit_word_eqI) (auto simp: bit_simps byte_masks)
  also have "\<dots> = a"
    by (rule bit_word_eqI) (auto simp: bit_simps byte_masks shifted_index)
  finally show ?thesis .
qed

lemma decode_byte1:
  "push_bit 4 ((push_bit 4 (a AND 0x03) + drop_bit 4 (b AND 0xf0)) AND 0xf) +
   drop_bit 2 ((push_bit 2 (b AND 0x0f) + drop_bit 6 (c AND 0xc0)) AND 0x3c) = (b::byte)"
proof -
  have "push_bit 4 ((push_bit 4 (a AND 0x03) + drop_bit 4 (b AND 0xf0)) AND 0xf) +
      drop_bit 2 ((push_bit 2 (b AND 0x0f) + drop_bit 6 (c AND 0xc0)) AND 0x3c) =
    push_bit 4 ((push_bit 4 (a AND 0x03) OR drop_bit 4 (b AND 0xf0)) AND 0xf) OR
      drop_bit 2 ((push_bit 2 (b AND 0x0f) OR drop_bit 6 (c AND 0xc0)) AND 0x3c)"
    unfolding group1_or group2_or
    by (rule disjunctive_add_eq_or, rule bit_word_eqI) (auto simp: bit_simps byte_masks)
  also have "\<dots> = b"
    by (rule bit_word_eqI) (auto simp: bit_simps byte_masks shifted_index)
  finally show ?thesis .
qed

lemma decode_byte2:
  "push_bit 6 ((push_bit 2 (b AND 0x0f) + drop_bit 6 (c AND 0xc0)) AND 0x3) +
   (c AND 0x3f) = (c::byte)"
proof -
  have "push_bit 6 ((push_bit 2 (b AND 0x0f) + drop_bit 6 (c AND 0xc0)) AND 0x3) +
      (c AND 0x3f) =
    push_bit 6 ((push_bit 2 (b AND 0x0f) OR drop_bit 6 (c AND 0xc0)) AND 0x3) OR
      (c AND 0x3f)"
    unfolding group2_or
    by (rule disjunctive_add_eq_or, rule bit_word_eqI) (auto simp: bit_simps byte_masks)
  also have "\<dots> = c"
    by (rule bit_word_eqI) (auto simp: bit_simps byte_masks shifted_index)
  finally show ?thesis .
qed

section \<open>The alphabet is a bijection on six-bit codes\<close>

lemma alphabet_codes:
  "list_all (\<lambda>i. find_code (base64_chars ! i) = word_of_nat i \<and>
     is_base64 (base64_chars ! i) \<and> base64_chars ! i \<noteq> CHR ''='') [0..<64]"
  by code_simp

lemma code_char_facts:
  assumes "q < 64"
  shows "find_code (code_char q) = q" "is_base64 (code_char q)" "code_char q \<noteq> CHR ''=''"
proof -
  from assms have "unat q < 64" by unat_arith
  with alphabet_codes have "find_code (base64_chars ! unat q) = word_of_nat (unat q) \<and>
      is_base64 (base64_chars ! unat q) \<and> base64_chars ! unat q \<noteq> CHR ''=''"
    by (auto simp: list_all_iff)
  then show "find_code (code_char q) = q" "is_base64 (code_char q)" "code_char q \<noteq> CHR ''=''"
    by (simp_all add: code_char_def)
qed

section \<open>Decoding inverts encoding\<close>

lemma encode_loop_triple:
  "encode_loop [] (a # b # c # bs) = map code_char (encode_quad a b c) @ encode_loop [] bs"
  by (simp add: Let_def)

lemma decode_loop_quad:
  assumes "\<forall>q \<in> {p, q, r, s}. q < 64"
  shows "decode_loop [] (code_char p # code_char q # code_char r # code_char s # cs) =
    decode_triple p q r s @ decode_loop [] cs"
  using assms by (simp add: Let_def code_char_facts)

lemma encode_quad_codes: "\<exists>p q r s. encode_quad a b c = [p, q, r, s] \<and> (\<forall>x \<in> {p, q, r, s}. x < 64)"
  using encode_quad_less [of _ a b c] by (auto simp: encode_quad_def)

lemma decode_encode_triple:
  assumes "encode_quad a b c = [p, q, r, s]"
  shows "decode_triple p q r s = [a, b, c]"
proof -
  have "p = drop_bit 2 (a AND 0xfc)" and "q = push_bit 4 (a AND 0x03) + drop_bit 4 (b AND 0xf0)"
    and "r = push_bit 2 (b AND 0x0f) + drop_bit 6 (c AND 0xc0)" and "s = c AND 0x3f"
    using assms by (simp_all only: encode_quad_def list.inject)
  then show ?thesis
    by (simp only: decode_triple_def decode_byte0 decode_byte1 decode_byte2)
qed

lemma roundtrip_triple:
  "decode_loop [] (map code_char (encode_quad a b c) @ cs) = [a, b, c] @ decode_loop [] cs"
proof -
  obtain p q r s where e: "encode_quad a b c = [p, q, r, s]"
    and less: "\<forall>x \<in> {p, q, r, s}. x < 64"
    using encode_quad_codes by blast
  have "decode_loop [] (map code_char (encode_quad a b c) @ cs) =
      decode_triple p q r s @ decode_loop [] cs"
    unfolding e using decode_loop_quad [OF less] by simp
  then show ?thesis by (simp only: decode_encode_triple [OF e])
qed

lemma roundtrip_one: "decode_loop [] (encode_tail [a]) = [a]"
proof -
  obtain p q r s where e: "encode_quad a 0 0 = [p, q, r, s]"
    and less: "\<forall>x \<in> {p, q, r, s}. x < 64"
    using encode_quad_codes by blast
  have "encode_tail [a] = [code_char p, code_char q, CHR ''='', CHR ''='']"
    by (simp add: encode_tail_def Let_def numeral_eq_Suc e)
  moreover have "[push_bit 2 p + drop_bit 4 (q AND 0x30)] = [a]"
    using decode_encode_triple [OF e] by (simp add: decode_triple_def)
  ultimately show ?thesis
    using less by (simp add: Let_def code_char_facts decode_tail_def decode_triple_def)
qed

lemma roundtrip_two: "decode_loop [] (encode_tail [a, b]) = [a, b]"
proof -
  obtain p q r s where e: "encode_quad a b 0 = [p, q, r, s]"
    and less: "\<forall>x \<in> {p, q, r, s}. x < 64"
    using encode_quad_codes by blast
  have "encode_tail [a, b] = [code_char p, code_char q, code_char r, CHR ''='']"
    by (simp add: encode_tail_def Let_def numeral_eq_Suc e)
  moreover have "take 2 (decode_triple p q r s) = [a, b]"
    using decode_encode_triple [OF e] by (simp add: numeral_eq_Suc)
  then have "push_bit 2 p + drop_bit 4 (q AND 0x30) = a"
    and "push_bit 4 (q AND 0xf) + drop_bit 2 (r AND 0x3c) = b"
    by (simp_all add: decode_triple_def numeral_eq_Suc)
  ultimately show ?thesis
    using less by (simp add: Let_def code_char_facts decode_tail_def decode_triple_def numeral_eq_Suc)
qed

lemma decode_loop_encode_loop: "decode_loop [] (encode_loop [] bs) = bs"
proof (induction bs rule: length_induct)
  case (1 bs)
  consider "bs = []" | a where "bs = [a]" | a b where "bs = [a, b]"
    | a b c cs where "bs = a # b # c # cs"
    by (metis list.exhaust)
  then show ?case
  proof cases
    case 1
    then show ?thesis by (simp add: encode_tail_def decode_tail_def)
  next
    case 2
    then show ?thesis using roundtrip_one by simp
  next
    case 3
    then show ?thesis using roundtrip_two by simp
  next
    case (4 a b c cs)
    with "1.IH" have "decode_loop [] (encode_loop [] cs) = cs" by simp
    then show ?thesis using roundtrip_triple 4 by (simp only: encode_loop_triple append_Cons append_Nil)
  qed
qed

text \<open>
  Decoding an encoded key gives the key back, whatever its bytes and its length
  (the three padding cases included).
\<close>

theorem base64_decode_encode: "base64_decode (base64_encode bs) = bs"
  by (simp add: base64_decode_def base64_encode_def decode_loop_encode_loop)

end
