(* ===== verification/Exceptions.thy ===== *)
theory Exceptions
  imports Prelude
begin

text \<open>
  The exception classes of the two SDK layers:
  \<open>sdk/rmscrypto_sdk/CryptoAPI/RMSCryptoExceptions.h\<close> (constructors without a prefix)
  and \<open>sdk/rms_sdk/ModernAPI/RMSExceptions.h\<close> (prefix \<open>Rms\<close>). Each constructor
  function below is one class constructor of the sources and fills the type, the error
  code, the reason and the truncated message the way that class does. Undefined behaviour
  of a mutex (relocking by the owner, unlocking by a non-owner) and of a null pointer are
  outcomes of their own;
  \<open>StdTypeError\<close> is the JSON library's exception for a value of another type and
  \<open>StdRangeError\<close> is \<open>std::out_of_range\<close>;
  \<open>StdException\<close> is what \<open>catch (exception& e) { throw e; }\<close> makes of any exception,
  and \<open>NoReturn\<close> says that the fuel of a recursion is used up.
\<close>

section \<open>The crypto layer\<close>

datatype CryptoExceptionTypes = LogicError | IOError

datatype CryptoErrorTypes =
    InvalidArgument
  | NullPointer
  | OperationUnavailable
  | Insufficientbuffer
  | NotImplemented
  | SecretKeyException
  | UnknownError

record RMSCryptoException =
  ce_type :: CryptoExceptionTypes
  ce_error :: CryptoErrorTypes
  ce_message :: string
  ce_code :: "int option"

text \<open>\<open>CopyMessage\<close> keeps at most 254 characters and a terminating NUL.\<close>

definition MAX_EXCEPTION_MESSAGE_LENGTH :: nat where
  "MAX_EXCEPTION_MESSAGE_LENGTH = 255"

definition CopyMessage :: "string \<Rightarrow> string" where
  "CopyMessage msg = take (min (length msg) (MAX_EXCEPTION_MESSAGE_LENGTH - 1)) msg"

definition mkRMSCryptoException ::
  "CryptoExceptionTypes \<Rightarrow> CryptoErrorTypes \<Rightarrow> string \<Rightarrow> RMSCryptoException" where
  "mkRMSCryptoException t e msg =
     \<lparr>ce_type = t, ce_error = e, ce_message = CopyMessage msg, ce_code = None\<rparr>"

section \<open>The RMS layer\<close>

datatype RmsErrorTypes =
    RmsInvalidArgument
  | RmsNullPointer
  | RmsNotFound
  | RmsNetworkError
  | RmsCryptoError
  | RmsStreamError
  | RmsPFileError
  | RmsRightsError

datatype PFileReason = NotPFile | NotSupportedVersion | BadArguments

datatype NetworkReason =
    ServerError
  | UserNotConsented
  | ServiceNotAvailable
  | OnPremNotSupported
  | InvalidPL
  | ServiceDisabled
  | DeviceRejected
  | NeedsOnline
  | CancelledByUser

datatype RmsReason = NoReason | PFileR PFileReason | NetworkR NetworkReason

text \<open>\<open>RMSException::ExceptionTypes\<close> has the one value \<open>LogicError\<close>.\<close>

record RMSException =
  re_error :: RmsErrorTypes
  re_message :: string
  re_reason :: RmsReason

definition mkRMSException :: "RmsErrorTypes \<Rightarrow> string \<Rightarrow> RmsReason \<Rightarrow> RMSException" where
  "mkRMSException e msg r =
     \<lparr>re_error = e, re_message = CopyMessage msg, re_reason = r\<rparr>"

section \<open>Everything a method can end with other than a value\<close>

datatype exn =
    Crypto RMSCryptoException
  | Rms RMSException
  | StdRuntimeError string
  | StdException
  | StdTypeError
  | StdRangeError
  | MutexRelocked
  | MutexNotOwned
  | NullDereference
  | NoReturn

definition RMSCryptoIOException :: "CryptoErrorTypes \<Rightarrow> string \<Rightarrow> exn" where
  "RMSCryptoIOException e msg = Crypto (mkRMSCryptoException IOError e msg)"

definition RMSCryptoIOKeyException :: "string \<Rightarrow> int \<Rightarrow> exn" where
  "RMSCryptoIOKeyException msg code =
     Crypto ((mkRMSCryptoException IOError SecretKeyException msg)\<lparr>ce_code := Some code\<rparr>)"

definition RMSCryptoInvalidArgumentException :: "string \<Rightarrow> exn" where
  "RMSCryptoInvalidArgumentException msg =
     Crypto (mkRMSCryptoException LogicError InvalidArgument msg)"

definition RMSCryptoNullPointerException :: "string \<Rightarrow> exn" where
  "RMSCryptoNullPointerException msg =
     Crypto (mkRMSCryptoException LogicError NullPointer msg)"

definition RMSCryptoInsufficientBufferException :: "string \<Rightarrow> exn" where
  "RMSCryptoInsufficientBufferException msg =
     Crypto (mkRMSCryptoException LogicError NullPointer msg)"

definition RMSCryptoNotImplementedException :: "string \<Rightarrow> exn" where
  "RMSCryptoNotImplementedException msg =
     Crypto (mkRMSCryptoException LogicError NotImplemented msg)"

definition RMSInvalidArgumentException :: "string \<Rightarrow> exn" where
  "RMSInvalidArgumentException msg = Rms (mkRMSException RmsInvalidArgument msg NoReason)"

definition RMSNullPointerException :: "string \<Rightarrow> exn" where
  "RMSNullPointerException msg = Rms (mkRMSException RmsNullPointer msg NoReason)"

definition RMSNotFoundException :: "string \<Rightarrow> exn" where
  "RMSNotFoundException msg = Rms (mkRMSException RmsNullPointer msg NoReason)"

definition RMSNetworkException :: "string \<Rightarrow> NetworkReason \<Rightarrow> exn" where
  "RMSNetworkException msg r = Rms (mkRMSException RmsNetworkError msg (NetworkR r))"

definition RMSCryptographyException :: "string \<Rightarrow> exn" where
  "RMSCryptographyException msg = Rms (mkRMSException RmsNetworkError msg NoReason)"

definition RMSStreamException :: "string \<Rightarrow> exn" where
  "RMSStreamException msg = Rms (mkRMSException RmsStreamError msg NoReason)"

definition RMSPFileException :: "string \<Rightarrow> PFileReason \<Rightarrow> exn" where
  "RMSPFileException msg r = Rms (mkRMSException RmsPFileError msg (PFileR r))"

definition RMSRightsException :: "string \<Rightarrow> exn" where
  "RMSRightsException msg = Rms (mkRMSException RmsPFileError msg NoReason)"

lemmas crypto_exn_defs =
  RMSCryptoIOException_def RMSCryptoIOKeyException_def RMSCryptoInvalidArgumentException_def
  RMSCryptoNullPointerException_def RMSCryptoInsufficientBufferException_def
  RMSCryptoNotImplementedException_def mkRMSCryptoException_def

lemmas rms_exn_defs =
  RMSInvalidArgumentException_def RMSNullPointerException_def RMSNotFoundException_def
  RMSNetworkException_def RMSCryptographyException_def RMSStreamException_def
  RMSPFileException_def RMSRightsException_def mkRMSException_def

section \<open>What a catch clause sees\<close>

fun is_crypto :: "exn \<Rightarrow> bool" where
  "is_crypto (Crypto e) = True"
| "is_crypto _ = False"

fun is_rms :: "exn \<Rightarrow> bool" where
  "is_rms (Rms e) = True"
| "is_rms _ = False"

text \<open>What \<open>catch (exception& e)\<close> sees.\<close>

fun is_std :: "exn \<Rightarrow> bool" where
  "is_std (Crypto e) = True"
| "is_std (Rms e) = True"
| "is_std (StdRuntimeError m) = True"
| "is_std StdException = True"
| "is_std StdTypeError = True"
| "is_std StdRangeError = True"
| "is_std _ = False"

lemma length_CopyMessage: "length (CopyMessage msg) < MAX_EXCEPTION_MESSAGE_LENGTH"
  by (simp add: CopyMessage_def MAX_EXCEPTION_MESSAGE_LENGTH_def)

text \<open>
  The error codes that \<open>error()\<close> reports cannot tell these classes apart: an
  insufficient buffer is reported as a null pointer, a missing object as a null pointer, a
  cryptographic failure as a network failure and a rights failure as a pfile failure.
\<close>

theorem error_codes_conflated:
  "RMSCryptoInsufficientBufferException m = RMSCryptoNullPointerException m \<and>
   RMSNotFoundException m = RMSNullPointerException m \<and>
   (\<exists>e f. RMSCryptographyException m = Rms e \<and> RMSNetworkException m r = Rms f \<and>
      re_error e = RmsNetworkError \<and> re_error e = re_error f) \<and>
   (\<exists>e f. RMSRightsException m = Rms e \<and> RMSPFileException m p = Rms f \<and>
      re_error e = RmsPFileError \<and> re_error e = re_error f)"
  by (simp add: crypto_exn_defs rms_exn_defs)

end
