(* ===== verification/EvpCipher.thy ===== *)
theory EvpCipher
  imports Exceptions
begin

text \<open>
  An AES key object of the platform layer
  (\<open>sdk/rmscrypto_sdk/Platform/Crypto/AESCryptoKey.cpp\<close> and \<open>CryptoEngine.cpp\<close>).
  The cipher itself is OpenSSL's: \<open>evp\<close> is the part of its interface the code calls,
  an argument of every definition that reaches it. \<open>evp_ok\<close> states the documented
  behaviour of that interface which the proofs rely on, and \<open>xor_evp\<close> is a concrete
  function that satisfies it.
\<close>

section \<open>The OpenSSL interface\<close>

datatype cipher = EVP_aes_ecb nat | EVP_aes_cbc nat

text \<open>
  One context, initialised with cipher, key, initial vector, direction and padding, is
  given one \<open>EVP_CipherUpdate\<close> and at most one \<open>EVP_CipherFinal_ex\<close>. What each of
  the two calls delivers is a function of those arguments and the data; \<open>None\<close> is the
  return value 0.
\<close>

record evp =
  evp_iv_length :: "cipher \<Rightarrow> nat"
  evp_key_length :: "cipher \<Rightarrow> nat"
  evp_block_size :: "cipher \<Rightarrow> nat"
  evp_update ::
    "cipher \<Rightarrow> byte list \<Rightarrow> byte list option \<Rightarrow> bool \<Rightarrow> bool \<Rightarrow> byte list \<Rightarrow> byte list option"
  evp_final ::
    "cipher \<Rightarrow> byte list \<Rightarrow> byte list option \<Rightarrow> bool \<Rightarrow> bool \<Rightarrow> byte list \<Rightarrow> byte list option"

section \<open>Key objects\<close>

datatype CryptoAlgorithm =
    CRYPTO_ALGORITHM_AES_ECB
  | CRYPTO_ALGORITHM_AES_CBC
  | CRYPTO_ALGORITHM_AES_CBC_PKCS7

record AESCryptoKey =
  ak_key :: "byte list"
  ak_algorithm :: CryptoAlgorithm

definition AESCryptoKey_create :: "byte list \<Rightarrow> CryptoAlgorithm \<Rightarrow> exn + AESCryptoKey" where
  "AESCryptoKey_create key alg =
     (if length key = 0 then Inl (RMSCryptoInvalidArgumentException ''Invalid key length'')
      else Inr \<lparr>ak_key = key, ak_algorithm = alg\<rparr>)"

text \<open>\<open>CryptoEngine::CreateKey\<close>: the three enumerators are all it accepts.\<close>

definition CreateKey :: "byte list \<Rightarrow> CryptoAlgorithm \<Rightarrow> exn + AESCryptoKey" where
  "CreateKey key alg =
     (if alg = CRYPTO_ALGORITHM_AES_ECB \<or> alg = CRYPTO_ALGORITHM_AES_CBC \<or>
         alg = CRYPTO_ALGORITHM_AES_CBC_PKCS7
      then AESCryptoKey_create key alg
      else Inl (RMSCryptoInvalidArgumentException ''Invalid algorithm''))"

definition select_cipher :: "AESCryptoKey \<Rightarrow> exn + cipher" where
  "select_cipher k =
     (let n = length (ak_key k); bits = 8 * n
      in case ak_algorithm k of
        CRYPTO_ALGORITHM_AES_ECB \<Rightarrow>
          (if n = 16 \<or> n = 24 \<or> n = 32 then Inr (EVP_aes_ecb bits)
           else Inl (RMSCryptoInvalidArgumentException ''Invalid key length''))
      | _ \<Rightarrow>
          (if n = 16 \<or> n = 24 \<or> n = 32 then Inr (EVP_aes_cbc bits)
           else Inl (RMSCryptoInvalidArgumentException ''Invalid key length'')))"

text \<open>An initial vector of length 0 counts as no vector at all.\<close>

fun normalize_iv :: "byte list option \<Rightarrow> byte list option" where
  "normalize_iv (Some []) = None"
| "normalize_iv iv = iv"

lemma normalize_iv_16: "length v = 16 \<Longrightarrow> normalize_iv (Some v) = Some v"
  by (cases v) simp_all

text \<open>
  \<open>AESCryptoKey::TransformBlock\<close>. A null input buffer is \<open>None\<close>; the output
  buffer is given by whether its pointer is null and by its capacity \<open>cbOut\<close>; the
  initial vector is \<open>None\<close> for a null pointer. The result is the bytes stored at
  \<open>pbOut\<close>, whose number is the new value of \<open>cbOut\<close>.
\<close>

definition TransformBlock ::
  "evp \<Rightarrow> AESCryptoKey \<Rightarrow> bool \<Rightarrow> byte list option \<Rightarrow> bool \<Rightarrow> nat \<Rightarrow> byte list option
   \<Rightarrow> exn + byte list" where
  "TransformBlock lib k encrypt pbIn outNull cbOut pbIv =
     (case pbIn of
        None \<Rightarrow> Inl (RMSCryptoNullPointerException ''Null pointer pbIn exception'')
      | Some inp \<Rightarrow>
        if outNull then Inl (RMSCryptoNullPointerException ''Null pointer pbOut exception'')
        else
          let iv = normalize_iv pbIv;
              pad = (ak_algorithm k = CRYPTO_ALGORITHM_AES_CBC_PKCS7)
          in bindE (select_cipher k) (\<lambda>c.
            if (case iv of None \<Rightarrow> False | Some v \<Rightarrow> evp_iv_length lib c \<noteq> length v)
            then Inl (RMSCryptoInvalidArgumentException ''Invalid initial vector length'')
            else if evp_key_length lib c \<noteq> length (ak_key k)
            then Inl (RMSCryptoInvalidArgumentException ''Invalid key length'')
            else
              case evp_update lib c (ak_key k) iv encrypt pad inp of
                None \<Rightarrow> Inl (RMSCryptoIOException UnknownError ''Failed to transform data'')
              | Some out \<Rightarrow>
                if pad then
                  (if int cbOut - int (length out) < int (evp_block_size lib c)
                   then Inl (RMSCryptoInsufficientBufferException ''No enough buffer size'')
                   else
                     case evp_final lib c (ak_key k) iv encrypt pad inp of
                       None \<Rightarrow> Inl (RMSCryptoIOException UnknownError
                                  ''Failed to transform final block'')
                     | Some fin \<Rightarrow> Inr (out @ fin))
                else Inr out))"

definition AES_Encrypt ::
  "evp \<Rightarrow> AESCryptoKey \<Rightarrow> byte list option \<Rightarrow> bool \<Rightarrow> nat \<Rightarrow> byte list option \<Rightarrow> exn + byte list" where
  "AES_Encrypt lib k pbIn outNull cbOut pbIv = TransformBlock lib k True pbIn outNull cbOut pbIv"

definition AES_Decrypt ::
  "evp \<Rightarrow> AESCryptoKey \<Rightarrow> byte list option \<Rightarrow> bool \<Rightarrow> nat \<Rightarrow> byte list option \<Rightarrow> exn + byte list" where
  "AES_Decrypt lib k pbIn outNull cbOut pbIv = TransformBlock lib k False pbIn outNull cbOut pbIv"

section \<open>The documented behaviour relied on\<close>

definition valid_key :: "byte list \<Rightarrow> bool" where
  "valid_key key \<longleftrightarrow> length key = 16 \<or> length key = 24 \<or> length key = 32"

text \<open>Unpadded: whole blocks keep their length, and decryption inverts encryption.\<close>

definition evp_unpadded :: "evp \<Rightarrow> cipher \<Rightarrow> byte list option \<Rightarrow> bool" where
  "evp_unpadded lib c iv \<longleftrightarrow>
     (\<forall>key x. valid_key key \<and> length x mod 16 = 0 \<longrightarrow>
        (\<exists>y. evp_update lib c key iv True False x = Some y \<and> length y = length x \<and>
             evp_update lib c key iv False False y = Some x))"

text \<open>
  PKCS7: the update call of an encryption emits the whole blocks, the final call one more
  block; the update call of a decryption holds the last block back.
\<close>

definition evp_padded :: "evp \<Rightarrow> cipher \<Rightarrow> byte list option \<Rightarrow> bool" where
  "evp_padded lib c iv \<longleftrightarrow>
     (\<forall>key x. valid_key key \<longrightarrow>
        (\<exists>u v u' v'. evp_update lib c key iv True True x = Some u \<and>
             evp_final lib c key iv True True x = Some v \<and>
             length u = 16 * (length x div 16) \<and> length v = 16 \<and>
             evp_update lib c key iv False True (u @ v) = Some u' \<and>
             evp_final lib c key iv False True (u @ v) = Some v' \<and>
             length u' = length u \<and> u' @ v' = x))"

definition evp_ok :: "evp \<Rightarrow> bool" where
  "evp_ok lib \<longleftrightarrow>
     (\<forall>n. evp_iv_length lib (EVP_aes_ecb n) = 0 \<and> evp_iv_length lib (EVP_aes_cbc n) = 16 \<and>
          evp_key_length lib (EVP_aes_ecb (8 * n)) = n \<and>
          evp_key_length lib (EVP_aes_cbc (8 * n)) = n \<and>
          evp_block_size lib (EVP_aes_ecb n) = 16 \<and> evp_block_size lib (EVP_aes_cbc n) = 16) \<and>
     (\<forall>n. evp_unpadded lib (EVP_aes_ecb n) None) \<and>
     (\<forall>n iv. length iv = 16 \<longrightarrow>
          evp_unpadded lib (EVP_aes_cbc n) (Some iv) \<and> evp_padded lib (EVP_aes_cbc n) (Some iv))"

section \<open>A concrete library\<close>

text \<open>
  Every byte is combined with the first byte of the key by exclusive or, and padding is
  PKCS7's: a function that satisfies \<open>evp_ok\<close>, on which the witnesses evaluate.
\<close>

unbundle bit_operations_syntax

definition xor_key :: "byte list \<Rightarrow> byte list \<Rightarrow> byte list" where
  "xor_key key = map (\<lambda>b. b XOR hd key)"

definition pkcs7 :: "byte list \<Rightarrow> byte list" where
  "pkcs7 x = (let n = 16 - length x mod 16 in x @ replicate n (word_of_nat n))"

definition un_pkcs7 :: "byte list \<Rightarrow> byte list" where
  "un_pkcs7 x = take (length x - unat (last x)) x"

definition xor_evp :: evp where
  "xor_evp =
     \<lparr>evp_iv_length = (\<lambda>c. case c of EVP_aes_ecb n \<Rightarrow> 0 | EVP_aes_cbc n \<Rightarrow> 16),
      evp_key_length = (\<lambda>c. case c of EVP_aes_ecb n \<Rightarrow> n div 8 | EVP_aes_cbc n \<Rightarrow> n div 8),
      evp_block_size = (\<lambda>c. 16),
      evp_update = (\<lambda>c key iv enc pad x.
        if \<not> pad then (if length x mod 16 = 0 then Some (xor_key key x) else None)
        else if enc then Some (xor_key key (take (16 * (length x div 16)) x))
        else Some (xor_key key (take (length x - 16) x))),
      evp_final = (\<lambda>c key iv enc pad x.
        if enc then Some (xor_key key (drop (16 * (length x div 16)) (pkcs7 x)))
        else Some (un_pkcs7 (xor_key key (drop (length x - 16) x))))\<rparr>"

lemma xor_key_xor_key [simp]: "xor_key key (xor_key key x) = x"
  by (simp add: xor_key_def comp_def xor.assoc)

lemma length_xor_key [simp]: "length (xor_key key x) = length x"
  by (simp add: xor_key_def)

lemma length_pkcs7: "length (pkcs7 x) = 16 * (length x div 16) + 16"
proof -
  have "length x + (16 - length x mod 16) = 16 * (length x div 16) + 16"
    using mult_div_mod_eq [of 16 "length x"] mod_less_divisor [of 16 "length x"] by linarith
  then show ?thesis by (simp only: pkcs7_def Let_def length_append length_replicate)
qed

lemma un_pkcs7_append:
  assumes "0 < n" and "n < 256"
  shows "un_pkcs7 (x @ replicate n (word_of_nat n)) = x"
proof -
  have "unat (word_of_nat n :: byte) = n"
    using assms(2) by (simp add: unat_of_nat)
  moreover have "last (x @ replicate n (word_of_nat n)) = (word_of_nat n :: byte)"
    using assms(1) by (simp add: last_append)
  ultimately show ?thesis by (simp add: un_pkcs7_def)
qed

lemma un_pkcs7_last_block:
  "un_pkcs7 (drop (16 * (length x div 16)) (pkcs7 x)) = drop (16 * (length x div 16)) x"
proof -
  define n where "n = 16 - length x mod 16"
  have n: "0 < n" "n < 256"
    using mod_less_divisor [of 16 "length x"] by (simp_all add: n_def)
  have "16 * (length x div 16) \<le> length x" by simp
  then have "drop (16 * (length x div 16)) (pkcs7 x) =
      drop (16 * (length x div 16)) x @ replicate n (word_of_nat n)"
    by (simp only: pkcs7_def Let_def drop_append n_def) simp
  then show ?thesis using un_pkcs7_append [OF n] by (simp only:)
qed

lemma xor_evp_padded: "evp_padded xor_evp (EVP_aes_cbc n) (Some iv)"
  unfolding evp_padded_def
proof (intro allI impI)
  fix key x :: "byte list"
  let ?k = "16 * (length x div 16)"
  let ?u = "xor_key key (take ?k x)" and ?v = "xor_key key (drop ?k (pkcs7 x))"
  have "length ?v = 16" by (simp add: length_pkcs7)
  moreover have "length ?u = ?k" by simp
  ultimately have "evp_update xor_evp (EVP_aes_cbc n) key (Some iv) False True (?u @ ?v) =
      Some (take ?k x)"
    and "evp_final xor_evp (EVP_aes_cbc n) key (Some iv) False True (?u @ ?v) =
      Some (drop ?k x)"
    by (simp_all add: xor_evp_def un_pkcs7_last_block)
  moreover have "evp_update xor_evp (EVP_aes_cbc n) key (Some iv) True True x = Some ?u"
    and "evp_final xor_evp (EVP_aes_cbc n) key (Some iv) True True x = Some ?v"
    by (simp_all add: xor_evp_def)
  moreover note \<open>length ?v = 16\<close> \<open>length ?u = ?k\<close>
  moreover have "length (take ?k x) = length ?u" by simp
  moreover have "take ?k x @ drop ?k x = x" by simp
  ultimately show "\<exists>u v u' v'.
      evp_update xor_evp (EVP_aes_cbc n) key (Some iv) True True x = Some u \<and>
      evp_final xor_evp (EVP_aes_cbc n) key (Some iv) True True x = Some v \<and>
      length u = ?k \<and> length v = 16 \<and>
      evp_update xor_evp (EVP_aes_cbc n) key (Some iv) False True (u @ v) = Some u' \<and>
      evp_final xor_evp (EVP_aes_cbc n) key (Some iv) False True (u @ v) = Some v' \<and>
      length u' = length u \<and> u' @ v' = x"
    by blast
qed

lemma xor_evp_ok: "evp_ok xor_evp"
  unfolding evp_ok_def using xor_evp_padded
  by (auto simp: evp_unpadded_def xor_evp_def)

section \<open>Outcomes of a key's transformations\<close>

lemma select_cipher_valid:
  assumes "valid_key (ak_key k)"
  shows "select_cipher k =
    Inr (if ak_algorithm k = CRYPTO_ALGORITHM_AES_ECB then EVP_aes_ecb (8 * length (ak_key k))
         else EVP_aes_cbc (8 * length (ak_key k)))"
  using assms by (auto simp: select_cipher_def valid_key_def split: CryptoAlgorithm.split)

lemma TransformBlock_unpadded:
  assumes lib: "evp_ok lib" and key: "valid_key (ak_key k)" and len: "length x mod 16 = 0"
    and alg: "ak_algorithm k = CRYPTO_ALGORITHM_AES_ECB \<and> iv = None \<or>
       ak_algorithm k = CRYPTO_ALGORITHM_AES_CBC \<and> iv = Some v \<and> length v = 16"
  obtains y where "\<And>cb. TransformBlock lib k True (Some x) False cb iv = Inr y"
    and "length y = length x"
    and "\<And>cb. TransformBlock lib k False (Some y) False cb iv = Inr x"
proof -
  define c where "c = (if ak_algorithm k = CRYPTO_ALGORITHM_AES_ECB
      then EVP_aes_ecb (8 * length (ak_key k)) else EVP_aes_cbc (8 * length (ak_key k)))"
  have c: "select_cipher k = Inr c" using select_cipher_valid [OF key] by (simp add: c_def)
  have "evp_unpadded lib c iv"
    using alg lib by (auto simp: c_def evp_ok_def)
  then obtain y where y: "evp_update lib c (ak_key k) iv True False x = Some y"
      "length y = length x" "evp_update lib c (ak_key k) iv False False y = Some x"
    using key len unfolding evp_unpadded_def by metis
  have "evp_key_length lib c = length (ak_key k)"
    using lib by (simp add: c_def evp_ok_def)
  moreover have "normalize_iv iv = iv"
    and "case iv of None \<Rightarrow> True | Some w \<Rightarrow> evp_iv_length lib c = length w"
    using alg lib by (auto simp: c_def evp_ok_def normalize_iv_16)
  ultimately have "\<And>cb. TransformBlock lib k True (Some x) False cb iv = Inr y"
    and "\<And>cb. TransformBlock lib k False (Some y) False cb iv = Inr x"
    unfolding TransformBlock_def Let_def using c y alg by (auto split: option.splits)
  with that [of y] y show ?thesis by simp
qed

lemma evp_paddedE:
  assumes "evp_padded lib c iv" and "valid_key key"
  obtains u v u' v' where "evp_update lib c key iv True True x = Some u"
    and "evp_final lib c key iv True True x = Some v"
    and "length u = 16 * (length x div 16)" and "length v = 16"
    and "evp_update lib c key iv False True (u @ v) = Some u'"
    and "evp_final lib c key iv False True (u @ v) = Some v'"
    and "length u' = length u" and "u' @ v' = x"
  using assms(1) [unfolded evp_padded_def, rule_format, OF assms(2), of x]
  by (elim exE conjE) (rule that)

lemma TransformBlock_padded:
  assumes lib: "evp_ok lib" and key: "valid_key (ak_key k)" and v: "length v = 16"
    and alg: "ak_algorithm k = CRYPTO_ALGORITHM_AES_CBC_PKCS7"
  obtains y where "\<And>cb. 16 * (length x div 16) + 16 \<le> cb \<Longrightarrow>
       TransformBlock lib k True (Some x) False cb (Some v) = Inr y"
    and "length y = 16 * (length x div 16) + 16"
    and "\<And>cb. length y \<le> cb \<Longrightarrow>
       TransformBlock lib k False (Some y) False cb (Some v) = Inr x"
proof -
  define c where "c = EVP_aes_cbc (8 * length (ak_key k))"
  have c: "select_cipher k = Inr c" using select_cipher_valid [OF key] alg by (simp add: c_def)
  have "evp_padded lib c (Some v)" using v lib by (simp add: c_def evp_ok_def)
  then obtain u w u' w' where
      enc: "evp_update lib c (ak_key k) (Some v) True True x = Some u"
        "evp_final lib c (ak_key k) (Some v) True True x = Some w"
      and len: "length u = 16 * (length x div 16)" "length w = 16" "length u' = length u"
      and dec: "evp_update lib c (ak_key k) (Some v) False True (u @ w) = Some u'"
        "evp_final lib c (ak_key k) (Some v) False True (u @ w) = Some w'"
      and x: "u' @ w' = x"
    using key by (rule evp_paddedE)
  have lib_facts: "evp_key_length lib c = length (ak_key k)" "evp_iv_length lib c = 16"
      "evp_block_size lib c = 16"
    using lib by (simp_all add: c_def evp_ok_def)
  note iv = normalize_iv_16 [OF v]
  have "TransformBlock lib k True (Some x) False cb (Some v) = Inr (u @ w)"
    if "16 * (length x div 16) + 16 \<le> cb" for cb
  proof -
    have "\<not> int cb - int (length u) < 16" using that len by linarith
    then show ?thesis
      by (simp add: TransformBlock_def Let_def iv c lib_facts v alg enc del: of_nat_diff)
  qed
  moreover have "TransformBlock lib k False (Some (u @ w)) False cb (Some v) = Inr x"
    if "length (u @ w) \<le> cb" for cb
  proof -
    have "\<not> int cb - int (length u') < 16" using that len(2,3) by simp
    then show ?thesis
      by (simp add: TransformBlock_def Let_def iv c lib_facts v alg dec x del: of_nat_diff)
  qed
  ultimately show ?thesis using that [of "u @ w"] len(1,2) by simp
qed

text \<open>
  A key whose length is not 16, 24 or 32 bytes is accepted when it is created, and
  then every transformation with it fails with an invalid-argument exception.
\<close>

theorem odd_key_always_fails:
  assumes "key \<noteq> []" and "\<not> valid_key key"
  shows "\<exists>k. CreateKey key alg = Inr k \<and>
     TransformBlock lib k enc (Some x) False cb iv =
       Inl (RMSCryptoInvalidArgumentException ''Invalid key length'')"
  using assms
  by (cases alg)
    (auto simp: CreateKey_def AESCryptoKey_create_def TransformBlock_def select_cipher_def
      valid_key_def Let_def)

theorem odd_key_always_fails_witness:
  "\<exists>k. CreateKey (replicate 20 7) CRYPTO_ALGORITHM_AES_CBC = Inr k \<and>
     TransformBlock xor_evp k True (Some [1, 2, 3]) False 16 None =
       Inl (RMSCryptoInvalidArgumentException ''Invalid key length'')"
  by (rule odd_key_always_fails) (simp_all add: valid_key_def)

end
