(* ===== verification/CryptoProvider.thy ===== *)
theory CryptoProvider
  imports EvpCipher
begin

text \<open>
  The interface \<open>ICryptoProvider\<close>
  (\<open>sdk/rmscrypto_sdk/CryptoAPI/ICryptoProvider.h\<close>) as a table of virtual methods, the
  block-wise ciphertext a provider lays out in a stream, and the contract that the
  protected streams rely on, a locale that the providers interpret.
\<close>

section \<open>Constants and the method table\<close>

definition AES128_KEY_BYTE_LENGTH :: nat where "AES128_KEY_BYTE_LENGTH = 16"
definition AES128_BLOCK_SIZE :: nat where "AES128_BLOCK_SIZE = 16"
definition CBC4K_BLOCK_SIZE :: nat where "CBC4K_BLOCK_SIZE = 4096"
definition CBC512_BLOCK_SIZE :: nat where "CBC512_BLOCK_SIZE = 512"

lemmas crypto_consts =
  AES128_KEY_BYTE_LENGTH_def AES128_BLOCK_SIZE_def CBC4K_BLOCK_SIZE_def CBC512_BLOCK_SIZE_def

datatype CipherMode = CIPHER_MODE_CBC4K | CIPHER_MODE_ECB | CIPHER_MODE_CBC512NOPADDING

text \<open>
  The arguments of \<open>Encrypt\<close> and \<open>Decrypt\<close>: the input bytes (\<open>None\<close> for a null
  pointer; \<open>cbIn\<close> is their number), the number of the first block, whether the input
  is final, the capacity of the output buffer (\<open>None\<close> for a null pointer) and whether
  \<open>pcbOut\<close> is null. The result is what is stored at \<open>pbOut\<close> and in \<open>*pcbOut\<close>.
\<close>

type_synonym crypt_op =
  "byte list option \<Rightarrow> nat \<Rightarrow> bool \<Rightarrow> nat option \<Rightarrow> bool \<Rightarrow> exn + byte list \<times> nat"

record ICryptoProvider =
  cp_Encrypt :: crypt_op
  cp_Decrypt :: crypt_op
  cp_GetCipherTextSize :: "nat \<Rightarrow> exn + nat"
  cp_GetBlockSize :: nat
  cp_GetKey :: "byte list"

section \<open>Ciphertext laid out block by block\<close>

text \<open>
  Whole blocks of \<open>B\<close> bytes are encrypted by \<open>E\<close> under their number; what is left,
  fewer than \<open>B\<close> bytes and possibly none, is the final block and is encrypted by \<open>F\<close>.
\<close>

function cipher_text ::
  "nat \<Rightarrow> (nat \<Rightarrow> byte list \<Rightarrow> byte list) \<Rightarrow> (nat \<Rightarrow> byte list \<Rightarrow> byte list) \<Rightarrow> nat
   \<Rightarrow> byte list \<Rightarrow> byte list" where
  "cipher_text B E F n x =
     (if B = 0 \<or> length x < B then F n x
      else E n (take B x) @ cipher_text B E F (Suc n) (drop B x))"
  by pat_completeness auto
termination
  by (relation "measure (\<lambda>(B, E, F, n, x). length x)") auto

declare cipher_text.simps [simp del]

lemma cipher_text_short: "length x < B \<Longrightarrow> cipher_text B E F n x = F n x"
  by (simp add: cipher_text.simps)

lemma cipher_text_step:
  "0 < B \<Longrightarrow> B \<le> length x \<Longrightarrow>
   cipher_text B E F n x = E n (take B x) @ cipher_text B E F (Suc n) (drop B x)"
  by (simp add: cipher_text.simps)

text \<open>The whole blocks only.\<close>

primrec whole_blocks ::
  "nat \<Rightarrow> (nat \<Rightarrow> byte list \<Rightarrow> byte list) \<Rightarrow> nat \<Rightarrow> nat \<Rightarrow> byte list \<Rightarrow> byte list" where
  "whole_blocks B E n 0 x = []"
| "whole_blocks B E n (Suc k) x = E n (take B x) @ whole_blocks B E (Suc n) k (drop B x)"

lemma cipher_text_blocks:
  assumes "0 < B" and "k * B \<le> length x"
  shows "cipher_text B E F n x = whole_blocks B E n k x @ cipher_text B E F (n + k) (drop (k * B) x)"
  using assms(2)
proof (induction k arbitrary: n x)
  case 0
  then show ?case by simp
next
  case (Suc k)
  then have "B \<le> length x" and "k * B \<le> length (drop B x)" by auto
  with Suc.IH [of "drop B x" "Suc n"] show ?case
    by (simp add: cipher_text_step [OF assms(1)] add.commute)
qed

lemma whole_blocks_cong:
  assumes "\<And>i. i < k \<Longrightarrow> take B (drop (i * B) x) = take B (drop (i * B) y)"
  shows "whole_blocks B E n k x = whole_blocks B E n k y"
  using assms
proof (induction k arbitrary: n x y)
  case 0
  then show ?case by simp
next
  case (Suc k)
  have "take B x = take B y" using Suc.prems [of 0] by simp
  moreover have "take B (drop (i * B) (drop B x)) = take B (drop (i * B) (drop B y))" if "i < k" for i
    using Suc.prems [of "Suc i"] that by (simp add: add.commute)
  then have "whole_blocks B E (Suc n) k (drop B x) = whole_blocks B E (Suc n) k (drop B y)"
    by (rule Suc.IH)
  ultimately show ?case by simp
qed

lemma whole_blocks_snoc:
  "whole_blocks B E n (Suc k) x = whole_blocks B E n k x @ E (n + k) (take B (drop (k * B) x))"
proof (induction k arbitrary: n x)
  case 0
  then show ?case by simp
next
  case (Suc k)
  have "whole_blocks B E n (Suc (Suc k)) x =
      E n (take B x) @ whole_blocks B E (Suc n) (Suc k) (drop B x)"
    by (rule whole_blocks.simps)
  also have "\<dots> = E n (take B x) @ whole_blocks B E (Suc n) k (drop B x) @
      E (Suc n + k) (take B (drop (k * B) (drop B x)))"
    by (simp only: Suc.IH)
  finally show ?case by (simp add: add.commute)
qed

section \<open>The contract of a block provider\<close>

text \<open>
  \<open>E\<close> and \<open>F\<close> name the ciphertext of a whole and of a final block; the laws say that
  the provider's two operations compute and invert them. \<open>fin\<close> holds for the data
  lengths the provider can finish. The block counter has 32 bits.
\<close>

locale block_provider =
  fixes valid :: "'p \<Rightarrow> bool"
    and vtable :: "'p \<Rightarrow> ICryptoProvider"
    and B :: nat
    and E :: "'p \<Rightarrow> nat \<Rightarrow> byte list \<Rightarrow> byte list"
    and F :: "'p \<Rightarrow> nat \<Rightarrow> byte list \<Rightarrow> byte list"
    and fin :: "nat \<Rightarrow> bool"
  assumes B_pos: "0 < B" and B_bound: "B < 2 ^ 31"
    and fin_mod: "fin l \<Longrightarrow> fin (l mod B)"
    and fin_B: "fin B" and fin_0: "fin 0"
    and length_E: "valid p \<Longrightarrow> length x = B \<Longrightarrow> length (E p n x) = B"
    and length_F: "valid p \<Longrightarrow> length x < B \<Longrightarrow> fin (length x) \<Longrightarrow>
      length x \<le> length (F p n x) \<and> length (F p n x) \<le> B"
    and cipher_size: "valid p \<Longrightarrow> 0 < length x \<Longrightarrow> length x \<le> B \<Longrightarrow> fin (length x) \<Longrightarrow>
      \<exists>k. cp_GetCipherTextSize (vtable p) (length x) = Inr k \<and> k < 2 ^ 32 \<and>
        length (cipher_text B (E p) (F p) n x) \<le> k"
    and encrypt_block: "valid p \<Longrightarrow> length x = B \<Longrightarrow> B \<le> cap \<Longrightarrow> n < 2 ^ 32 \<Longrightarrow>
      cp_Encrypt (vtable p) (Some x) n False (Some cap) False = Inr (E p n x, B)"
    and encrypt_final: "valid p \<Longrightarrow> length x \<le> B \<Longrightarrow> fin (length x) \<Longrightarrow> n + 1 < 2 ^ 32 \<Longrightarrow>
      length (cipher_text B (E p) (F p) n x) \<le> cap \<Longrightarrow>
      cp_Encrypt (vtable p) (Some x) n True (Some cap) False =
        Inr (cipher_text B (E p) (F p) n x, length (cipher_text B (E p) (F p) n x))"
    and decrypt_block: "valid p \<Longrightarrow> length x = B \<Longrightarrow> B \<le> cap \<Longrightarrow> n < 2 ^ 32 \<Longrightarrow>
      cp_Decrypt (vtable p) (Some (E p n x)) n False (Some cap) False = Inr (x, B)"
    and decrypt_final: "valid p \<Longrightarrow> length x \<le> B \<Longrightarrow> fin (length x) \<Longrightarrow> n + 1 < 2 ^ 32 \<Longrightarrow>
      length (cipher_text B (E p) (F p) n x) \<le> B \<Longrightarrow> B \<le> cap \<Longrightarrow>
      cp_Decrypt (vtable p) (Some (cipher_text B (E p) (F p) n x)) n True (Some cap) False =
        Inr (x, length x)"
begin

abbreviation layout :: "'p \<Rightarrow> byte list \<Rightarrow> byte list" where
  "layout p x \<equiv> cipher_text B (E p) (F p) 0 x"

lemma length_whole_blocks:
  "valid p \<Longrightarrow> k * B \<le> length x \<Longrightarrow> length (whole_blocks B (E p) n k x) = k * B"
proof (induction k arbitrary: n x)
  case 0
  then show ?case by simp
next
  case (Suc k)
  then have "B \<le> length x" and "k * B \<le> length (drop B x)" by auto
  with Suc.IH [of "drop B x" "Suc n"] Suc.prems(1) show ?case
    by (simp add: length_E)
qed

lemma length_rest: "length (drop (length x div B * B) x) = length x mod B"
  by (simp add: minus_div_mult_eq_mod)

lemma layout_split:
  fixes x :: "byte list"
  defines "k \<equiv> length x div B"
  shows "layout p x = whole_blocks B (E p) 0 k x @ F p k (drop (k * B) x)"
proof -
  have k: "k * B \<le> length x" by (simp add: k_def)
  have "length (drop (k * B) x) < B"
    using B_pos by (simp only: k_def length_rest) simp
  then show ?thesis
    using cipher_text_blocks [OF B_pos k, of "E p" "F p" 0] by (simp add: cipher_text_short)
qed

text \<open>The ciphertext is as long as the plaintext or longer, by at most a block.\<close>

lemma length_layout:
  assumes p: "valid p" and f: "fin (length x)"
  shows "length x \<le> length (layout p x)" and "length (layout p x) \<le> (length x div B + 1) * B"
proof -
  let ?k = "length x div B" and ?r = "drop (length x div B * B) x"
  have "length (whole_blocks B (E p) 0 ?k x) = ?k * B"
    using p by (simp add: length_whole_blocks)
  moreover have "length ?r < B" "fin (length ?r)"
    using B_pos f fin_mod unfolding length_rest by simp_all
  then have "length ?r \<le> length (F p ?k ?r) \<and> length (F p ?k ?r) \<le> B"
    using p length_F by blast
  moreover have "length x = ?k * B + length ?r" by simp
  ultimately show "length x \<le> length (layout p x)" "length (layout p x) \<le> (?k + 1) * B"
    using layout_split [of p x] by auto
qed

text \<open>Random access: every block of the ciphertext is found at the block's position.\<close>

lemma layout_block:
  assumes p: "valid p" and k: "(k + 1) * B \<le> length x"
  shows "take B (drop (k * B) (layout p x)) = E p k (take B (drop (k * B) x))"
proof -
  have "layout p x = whole_blocks B (E p) 0 (Suc k) x @ cipher_text B (E p) (F p) (Suc k) (drop (Suc k * B) x)"
    using cipher_text_blocks [OF B_pos, of "Suc k" x "E p" "F p" 0] k by simp
  moreover have "length (whole_blocks B (E p) 0 k x) = k * B"
    using p k by (simp add: length_whole_blocks)
  moreover have "length (E p k (take B (drop (k * B) x))) = B"
    using p k by (simp add: length_E)
  ultimately show ?thesis by (simp only: whole_blocks_snoc) simp
qed

lemma layout_from_block:
  assumes p: "valid p" and k: "k * B \<le> length x"
  shows "drop (k * B) (layout p x) = cipher_text B (E p) (F p) k (drop (k * B) x)"
  using cipher_text_blocks [OF B_pos k, of "E p" "F p" 0] length_whole_blocks [OF p k, of 0] by simp

end

text \<open>A provider that pads: every length can be finished, and padding is never empty.\<close>

locale padded_provider = block_provider +
  assumes fin_all: "fin l"
    and F_longer: "valid p \<Longrightarrow> length x < B \<Longrightarrow> length x < length (F p n x)"
    and cipher_size_0: "valid p \<Longrightarrow>
      \<exists>k. cp_GetCipherTextSize (vtable p) 0 = Inr k \<and> k < 2 ^ 32 \<and> length (F p n []) \<le> k"
begin

lemma layout_longer:
  assumes p: "valid p"
  shows "length x < length (layout p x)"
proof -
  let ?k = "length x div B" and ?r = "drop (length x div B * B) x"
  have "length ?r < B" using B_pos unfolding length_rest by simp
  then have "length ?r < length (F p ?k ?r)" using p F_longer by blast
  moreover have "length (whole_blocks B (E p) 0 ?k x) = ?k * B"
    using p by (simp add: length_whole_blocks)
  moreover have "length x = ?k * B + length ?r" by simp
  ultimately show ?thesis using layout_split [of p x] by simp
qed

end

text \<open>A provider that keeps lengths, and so finishes whole cipher blocks only.\<close>

locale aligned_provider = block_provider +
  assumes fin_iff: "fin l \<longleftrightarrow> l mod 16 = 0"
    and F_same: "valid p \<Longrightarrow> length x < B \<Longrightarrow> fin (length x) \<Longrightarrow> length (F p n x) = length x"
begin

lemma layout_same:
  assumes p: "valid p" and f: "fin (length x)"
  shows "length (layout p x) = length x"
proof -
  let ?k = "length x div B" and ?r = "drop (length x div B * B) x"
  have "length ?r < B" "fin (length ?r)"
    using B_pos f fin_mod unfolding length_rest by simp_all
  then have "length (F p ?k ?r) = length ?r" using p F_same by blast
  moreover have "length (whole_blocks B (E p) 0 ?k x) = ?k * B"
    using p by (simp add: length_whole_blocks)
  moreover have "length x = ?k * B + length ?r" by simp
  ultimately show ?thesis using layout_split [of p x] by simp
qed

end

end
