(* ===== verification/Cbc4k.thy ===== *)
theory Cbc4k
  imports CryptoProvider
begin

text \<open>
  The provider of cipher mode CBC4K, the default of protected files
  (\<open>sdk/rmscrypto_sdk/Crypto/Cbc4kCryptoProvider.cpp\<close>): blocks of 4096 bytes, each
  encrypted on its own under an initial vector made from its number, and a final block
  with PKCS7 padding.
\<close>

section \<open>State and construction\<close>

record Cbc4kCryptoProvider =
  c4_lib :: evp
  c4_EcbKey :: AESCryptoKey
  c4_CbcKey :: AESCryptoKey
  c4_CbcPaddingKey :: AESCryptoKey
  c4_key :: "byte list"

definition Cbc4kCryptoProvider_create :: "evp \<Rightarrow> byte list \<Rightarrow> exn + Cbc4kCryptoProvider" where
  "Cbc4kCryptoProvider_create lib key =
     (if length key < AES128_KEY_BYTE_LENGTH
      then Inl (RMSCryptoInvalidArgumentException ''Invalid key size'')
      else
        bindE (CreateKey key CRYPTO_ALGORITHM_AES_ECB) (\<lambda>ecb.
        bindE (CreateKey key CRYPTO_ALGORITHM_AES_CBC) (\<lambda>cbc.
        bindE (CreateKey key CRYPTO_ALGORITHM_AES_CBC_PKCS7) (\<lambda>pad.
          Inr \<lparr>c4_lib = lib, c4_EcbKey = ecb, c4_CbcKey = cbc, c4_CbcPaddingKey = pad,
               c4_key = key\<rparr>))))"

section \<open>Blocks\<close>

definition cbc4k_GetPaddedSize :: "nat \<Rightarrow> nat" where
  "cbc4k_GetPaddedSize cbSize = to_u32 ((cbSize div AES128_BLOCK_SIZE + 1) * AES128_BLOCK_SIZE)"

definition cbc4k_GetCipherTextSize :: "nat \<Rightarrow> exn + nat" where
  "cbc4k_GetCipherTextSize n = Inr (mul64 (n div AES128_BLOCK_SIZE + 1) AES128_BLOCK_SIZE)"

text \<open>The initial vector is the encrypted block number, padded with zeros to 16 bytes.\<close>

definition cbc4k_iv_input :: "nat \<Rightarrow> byte list" where
  "cbc4k_iv_input blk = put_at (replicate AES128_KEY_BYTE_LENGTH 0) 0 (le_bytes 4 blk)"

definition cbc4k_GenerateIvForBlock :: "Cbc4kCryptoProvider \<Rightarrow> nat \<Rightarrow> exn + byte list" where
  "cbc4k_GenerateIvForBlock p blk =
     bindE (AES_Encrypt (c4_lib p) (c4_EcbKey p) (Some (cbc4k_iv_input blk)) False
              AES128_KEY_BYTE_LENGTH None)
       (\<lambda>out. Inr (put_at (replicate AES128_KEY_BYTE_LENGTH 0) 0 out))"

text \<open>The bytes stored at \<open>pbOut\<close>; the code returns their number.\<close>

definition cbc4k_EncryptBlock ::
  "Cbc4kCryptoProvider \<Rightarrow> byte list option \<Rightarrow> nat \<Rightarrow> bool \<Rightarrow> nat option \<Rightarrow> exn + byte list" where
  "cbc4k_EncryptBlock p pbIn blk isFinalBlock pbOut =
     (case pbIn of
        None \<Rightarrow> Inl (RMSCryptoNullPointerException ''Null pointer pbIn exception'')
      | Some inp \<Rightarrow>
       (case pbOut of
          None \<Rightarrow> Inl (RMSCryptoNullPointerException ''Null pointer pbOut exception'')
        | Some cbOut \<Rightarrow>
          if \<not> isFinalBlock \<and> CBC4K_BLOCK_SIZE \<noteq> length inp
          then Inl (RMSCryptoInvalidArgumentException ''Invalid aligment'')
          else
            bindE (cbc4k_GenerateIvForBlock p blk) (\<lambda>iv.
              if \<not> isFinalBlock
              then AES_Encrypt (c4_lib p) (c4_CbcKey p) (Some inp) False cbOut (Some iv)
              else AES_Encrypt (c4_lib p) (c4_CbcPaddingKey p) (Some inp) False cbOut (Some iv))))"

definition cbc4k_DecryptBlock ::
  "Cbc4kCryptoProvider \<Rightarrow> byte list option \<Rightarrow> nat \<Rightarrow> bool \<Rightarrow> nat option \<Rightarrow> exn + byte list" where
  "cbc4k_DecryptBlock p pbIn blk isFinalBlock pbOut =
     (case pbIn of
        None \<Rightarrow> Inl (RMSCryptoNullPointerException ''Null pointer pbIn exception'')
      | Some inp \<Rightarrow>
       (case pbOut of
          None \<Rightarrow> Inl (RMSCryptoNullPointerException ''Null pointer pbOut exception'')
        | Some cbOut \<Rightarrow>
          if \<not> isFinalBlock \<and> CBC4K_BLOCK_SIZE \<noteq> length inp
          then Inl (RMSCryptoInvalidArgumentException ''Block is not aligned'')
          else
            bindE (cbc4k_GenerateIvForBlock p blk) (\<lambda>iv.
              if \<not> isFinalBlock
              then AES_Decrypt (c4_lib p) (c4_CbcKey p) (Some inp) False cbOut (Some iv)
              else AES_Decrypt (c4_lib p) (c4_CbcPaddingKey p) (Some inp) False cbOut (Some iv))))"

section \<open>Encryption and decryption of a run of blocks\<close>

text \<open>
  The loops carry the unread input, the remaining capacity, the block number (which wraps
  at 32 bits), the bytes stored so far and \<open>cbResult\<close>.
\<close>

function cbc4k_encrypt_loop ::
  "Cbc4kCryptoProvider \<Rightarrow> byte list \<Rightarrow> nat \<Rightarrow> nat \<Rightarrow> byte list \<Rightarrow> nat
   \<Rightarrow> exn + byte list \<times> nat \<times> nat \<times> byte list \<times> nat" where
  "cbc4k_encrypt_loop p inp cbOut blk out cbResult =
     (if CBC4K_BLOCK_SIZE \<le> length inp then
        (if cbOut < CBC4K_BLOCK_SIZE
         then Inl (RMSCryptoInvalidArgumentException ''Invalid buffer size'')
         else
           (case cbc4k_EncryptBlock p (Some (take CBC4K_BLOCK_SIZE inp)) blk False (Some cbOut) of
              Inl e \<Rightarrow> Inl e
            | Inr y \<Rightarrow>
              cbc4k_encrypt_loop p (drop CBC4K_BLOCK_SIZE inp) (cbOut - CBC4K_BLOCK_SIZE)
                (add32 blk 1) (out @ y) (cbResult + CBC4K_BLOCK_SIZE)))
      else Inr (inp, cbOut, blk, out, cbResult))"
  by pat_completeness auto
termination
  by (relation "measure (\<lambda>(p, inp, cbOut, blk, out, r). length inp)")
    (auto simp: CBC4K_BLOCK_SIZE_def)

declare cbc4k_encrypt_loop.simps [simp del]

definition cbc4k_Encrypt :: "Cbc4kCryptoProvider \<Rightarrow> crypt_op" where
  "cbc4k_Encrypt p pbIn blk isFinal pbOut pcbOutNull =
     (case pbIn of
        None \<Rightarrow> Inl (RMSCryptoNullPointerException ''Null pointer pbIn exception'')
      | Some inp \<Rightarrow>
        if \<not> isFinal \<and> length inp mod CBC4K_BLOCK_SIZE \<noteq> 0
        then Inl (RMSCryptoInvalidArgumentException ''Block is not aligned'')
        else if pcbOutNull
        then Inl (RMSCryptoNullPointerException ''Null pointer pcbOut exception'')
        else
          let cbRequired = (if isFinal then cbc4k_GetPaddedSize (length inp) else length inp)
          in case pbOut of
               None \<Rightarrow> Inr ([], cbRequired)
             | Some cbOut \<Rightarrow>
               if cbOut < cbRequired
               then Inl (RMSCryptoInvalidArgumentException ''Invalid buffer size'')
               else
                 bindE (cbc4k_encrypt_loop p inp cbOut blk [] 0)
                   (\<lambda>(rest, cap, n, out, cbResult).
                     if \<not> isFinal \<and> rest \<noteq> []
                     then Inl (RMSCryptoInvalidArgumentException ''Invalid aligment'')
                     else if isFinal
                     then bindE (cbc4k_EncryptBlock p (Some rest) n True (Some cap))
                            (\<lambda>y. Inr (out @ y, cbResult + length y))
                     else Inr (out, cbResult)))"

function cbc4k_decrypt_loop ::
  "Cbc4kCryptoProvider \<Rightarrow> bool \<Rightarrow> byte list \<Rightarrow> nat \<Rightarrow> nat \<Rightarrow> byte list \<Rightarrow> nat
   \<Rightarrow> exn + byte list \<times> nat \<times> nat \<times> byte list \<times> nat" where
  "cbc4k_decrypt_loop p isFinal inp cbOut blk out cbResult =
     (if (if isFinal then CBC4K_BLOCK_SIZE < length inp else CBC4K_BLOCK_SIZE \<le> length inp) then
        (if cbOut < CBC4K_BLOCK_SIZE
         then Inl (RMSCryptoInsufficientBufferException ''Insufficient buffer'')
         else
           (case cbc4k_DecryptBlock p (Some (take CBC4K_BLOCK_SIZE inp)) blk False (Some cbOut) of
              Inl e \<Rightarrow> Inl e
            | Inr y \<Rightarrow>
              cbc4k_decrypt_loop p isFinal (drop CBC4K_BLOCK_SIZE inp) (cbOut - CBC4K_BLOCK_SIZE)
                (add32 blk 1) (out @ y) (cbResult + CBC4K_BLOCK_SIZE)))
      else Inr (inp, cbOut, blk, out, cbResult))"
  by pat_completeness auto
termination
  by (relation "measure (\<lambda>(p, f, inp, cbOut, blk, out, r). length inp)")
    (auto simp: CBC4K_BLOCK_SIZE_def split: if_splits)

declare cbc4k_decrypt_loop.simps [simp del]

definition cbc4k_Decrypt :: "Cbc4kCryptoProvider \<Rightarrow> crypt_op" where
  "cbc4k_Decrypt p pbIn blk isFinal pbOut pcbOutNull =
     (case pbIn of
        None \<Rightarrow> Inl (RMSCryptoNullPointerException ''Null pointer pbIn exception'')
      | Some inp \<Rightarrow>
        if \<not> isFinal \<and> length inp mod CBC4K_BLOCK_SIZE \<noteq> 0
        then Inl (RMSCryptoInvalidArgumentException ''Block is not aligned'')
        else if length inp mod AES128_BLOCK_SIZE \<noteq> 0
        then Inl (RMSCryptoInvalidArgumentException ''Block is not aligned'')
        else if pcbOutNull
        then Inl (RMSCryptoNullPointerException ''Null pointer pcbOut exception'')
        else
          case pbOut of
            None \<Rightarrow> Inr ([], length inp)
          | Some cbOut \<Rightarrow>
            if cbOut < length inp
            then Inl (RMSCryptoInsufficientBufferException ''Insufficient buffer'')
            else
              bindE (cbc4k_decrypt_loop p isFinal inp cbOut blk [] 0)
                (\<lambda>(rest, cap, n, out, cbResult).
                  if \<not> isFinal \<and> rest \<noteq> []
                  then Inl (RMSCryptoInvalidArgumentException ''Invalid aligment'')
                  else if isFinal
                  then
                    (if length rest < AES128_BLOCK_SIZE
                     then Inl (RMSCryptoInvalidArgumentException ''Invalid aligment'')
                     else
                       bindE (cbc4k_DecryptBlock p (Some rest) n True (Some cap))
                         (\<lambda>y. Inr (out @ y, cbResult + length y)))
                  else Inr (out, cbResult)))"

definition cbc4k_vtable :: "Cbc4kCryptoProvider \<Rightarrow> ICryptoProvider" where
  "cbc4k_vtable p =
     \<lparr>cp_Encrypt = cbc4k_Encrypt p, cp_Decrypt = cbc4k_Decrypt p,
      cp_GetCipherTextSize = cbc4k_GetCipherTextSize, cp_GetBlockSize = CBC4K_BLOCK_SIZE,
      cp_GetKey = c4_key p\<rparr>"

section \<open>A provider in working order\<close>

definition cbc4k_valid :: "Cbc4kCryptoProvider \<Rightarrow> bool" where
  "cbc4k_valid p \<longleftrightarrow>
     evp_ok (c4_lib p) \<and> valid_key (c4_key p) \<and>
     c4_EcbKey p = \<lparr>ak_key = c4_key p, ak_algorithm = CRYPTO_ALGORITHM_AES_ECB\<rparr> \<and>
     c4_CbcKey p = \<lparr>ak_key = c4_key p, ak_algorithm = CRYPTO_ALGORITHM_AES_CBC\<rparr> \<and>
     c4_CbcPaddingKey p = \<lparr>ak_key = c4_key p, ak_algorithm = CRYPTO_ALGORITHM_AES_CBC_PKCS7\<rparr>"

lemma cbc4k_create_valid:
  assumes "evp_ok lib" and "valid_key key"
  shows "\<exists>p. Cbc4kCryptoProvider_create lib key = Inr p \<and> cbc4k_valid p \<and>
    c4_key p = key \<and> c4_lib p = lib"
  using assms
  by (auto simp: Cbc4kCryptoProvider_create_def CreateKey_def AESCryptoKey_create_def
      cbc4k_valid_def valid_key_def crypto_consts)

text \<open>The ciphertext of one whole block and of one final block.\<close>

definition cbc4k_block :: "Cbc4kCryptoProvider \<Rightarrow> nat \<Rightarrow> byte list \<Rightarrow> byte list" where
  "cbc4k_block p n x =
     (case cbc4k_EncryptBlock p (Some x) n False (Some CBC4K_BLOCK_SIZE) of Inl e \<Rightarrow> [] | Inr y \<Rightarrow> y)"

definition cbc4k_final :: "Cbc4kCryptoProvider \<Rightarrow> nat \<Rightarrow> byte list \<Rightarrow> byte list" where
  "cbc4k_final p n x =
     (case cbc4k_EncryptBlock p (Some x) n True (Some (16 * (length x div 16) + 16)) of
        Inl e \<Rightarrow> [] | Inr y \<Rightarrow> y)"

section \<open>Single blocks\<close>

lemma length_iv_input: "length (cbc4k_iv_input n) = 16"
  by (simp add: cbc4k_iv_input_def AES128_KEY_BYTE_LENGTH_def put_at_def)

lemma iv_input_inject:
  assumes "cbc4k_iv_input m = cbc4k_iv_input n" and "m < 2 ^ 32" and "n < 2 ^ 32"
  shows "m = n"
proof -
  have "take 4 (cbc4k_iv_input k) = le_bytes 4 k" for k
    by (simp add: cbc4k_iv_input_def put_at_def)
  then have "le_bytes 4 m = le_bytes 4 n" using assms(1) by metis
  then show ?thesis using assms(2,3) by (intro le_bytes_inject [of 4 m n]) simp_all
qed

text \<open>The initial vector is produced, has 16 bytes and determines the block number.\<close>

lemma GenerateIv_ok:
  assumes "cbc4k_valid p"
  obtains iv where "cbc4k_GenerateIvForBlock p n = Inr iv" and "length iv = 16"
    and "TransformBlock (c4_lib p) (c4_EcbKey p) False (Some iv) False 16 None =
      Inr (cbc4k_iv_input n)"
proof -
  obtain y where "\<And>cb. TransformBlock (c4_lib p) (c4_EcbKey p) True (Some (cbc4k_iv_input n)) False cb None = Inr y"
    and y: "length y = length (cbc4k_iv_input n)"
    and "\<And>cb. TransformBlock (c4_lib p) (c4_EcbKey p) False (Some y) False cb None = Inr (cbc4k_iv_input n)"
    using assms
    by (elim TransformBlock_unpadded [of "c4_lib p" "c4_EcbKey p" "cbc4k_iv_input n" None "[]", rotated -1])
      (auto simp: cbc4k_valid_def length_iv_input)
  moreover have "put_at (replicate AES128_KEY_BYTE_LENGTH 0) 0 y = y"
    using y by (simp add: put_at_def AES128_KEY_BYTE_LENGTH_def length_iv_input)
  ultimately show ?thesis
    using that [of y]
    by (simp add: cbc4k_GenerateIvForBlock_def AES_Encrypt_def length_iv_input)
qed

lemma EncryptBlock_whole:
  assumes p: "cbc4k_valid p" and x: "length x = CBC4K_BLOCK_SIZE"
  shows "cbc4k_EncryptBlock p (Some x) n False (Some cb) = Inr (cbc4k_block p n x)"
    and "length (cbc4k_block p n x) = CBC4K_BLOCK_SIZE"
    and "cbc4k_DecryptBlock p (Some (cbc4k_block p n x)) n False (Some cb) = Inr x"
proof -
  obtain iv where iv: "cbc4k_GenerateIvForBlock p n = Inr iv" "length iv = 16"
    using GenerateIv_ok [OF p] .
  obtain y where y: "\<And>cb. TransformBlock (c4_lib p) (c4_CbcKey p) True (Some x) False cb (Some iv) = Inr y"
    and len: "length y = length x"
    and dec: "\<And>cb. TransformBlock (c4_lib p) (c4_CbcKey p) False (Some y) False cb (Some iv) = Inr x"
    using p x iv(2)
    by (elim TransformBlock_unpadded [of "c4_lib p" "c4_CbcKey p" x "Some iv" iv, rotated -1])
      (auto simp: cbc4k_valid_def CBC4K_BLOCK_SIZE_def)
  have enc: "cbc4k_EncryptBlock p (Some x) n False (Some c) = Inr y" for c
    using x iv y by (simp add: cbc4k_EncryptBlock_def AES_Encrypt_def)
  then have "cbc4k_block p n x = y" by (simp add: cbc4k_block_def)
  then show "cbc4k_EncryptBlock p (Some x) n False (Some cb) = Inr (cbc4k_block p n x)"
    "length (cbc4k_block p n x) = CBC4K_BLOCK_SIZE"
    "cbc4k_DecryptBlock p (Some (cbc4k_block p n x)) n False (Some cb) = Inr x"
    using enc len x iv dec by (simp_all add: cbc4k_DecryptBlock_def AES_Decrypt_def)
qed

lemma EncryptBlock_final:
  assumes p: "cbc4k_valid p"
  shows "16 * (length x div 16) + 16 \<le> cb \<Longrightarrow>
      cbc4k_EncryptBlock p (Some x) n True (Some cb) = Inr (cbc4k_final p n x)"
    and "length (cbc4k_final p n x) = 16 * (length x div 16) + 16"
    and "length (cbc4k_final p n x) \<le> cb \<Longrightarrow>
      cbc4k_DecryptBlock p (Some (cbc4k_final p n x)) n True (Some cb) = Inr x"
proof -
  obtain iv where iv: "cbc4k_GenerateIvForBlock p n = Inr iv" "length iv = 16"
    using GenerateIv_ok [OF p] .
  obtain y where y: "\<And>cb. 16 * (length x div 16) + 16 \<le> cb \<Longrightarrow>
        TransformBlock (c4_lib p) (c4_CbcPaddingKey p) True (Some x) False cb (Some iv) = Inr y"
    and len: "length y = 16 * (length x div 16) + 16"
    and dec: "\<And>cb. length y \<le> cb \<Longrightarrow>
        TransformBlock (c4_lib p) (c4_CbcPaddingKey p) False (Some y) False cb (Some iv) = Inr x"
    using p iv(2)
    by (elim TransformBlock_padded [of "c4_lib p" "c4_CbcPaddingKey p" iv x, rotated -1])
      (auto simp: cbc4k_valid_def)
  have enc: "cbc4k_EncryptBlock p (Some x) n True (Some c) = Inr y"
    if "16 * (length x div 16) + 16 \<le> c" for c
    using iv y that by (simp add: cbc4k_EncryptBlock_def AES_Encrypt_def)
  then have f: "cbc4k_final p n x = y" by (simp add: cbc4k_final_def)
  show "cbc4k_EncryptBlock p (Some x) n True (Some cb) = Inr (cbc4k_final p n x)"
    if "16 * (length x div 16) + 16 \<le> cb" using enc f that by simp
  show "length (cbc4k_final p n x) = 16 * (length x div 16) + 16" using f len by simp
  show "cbc4k_DecryptBlock p (Some (cbc4k_final p n x)) n True (Some cb) = Inr x"
    if "length (cbc4k_final p n x) \<le> cb"
    using f dec iv that by (simp add: cbc4k_DecryptBlock_def AES_Decrypt_def)
qed

section \<open>Runs of blocks\<close>

abbreviation cbc4k_text :: "Cbc4kCryptoProvider \<Rightarrow> nat \<Rightarrow> byte list \<Rightarrow> byte list" where
  "cbc4k_text p \<equiv> cipher_text CBC4K_BLOCK_SIZE (cbc4k_block p) (cbc4k_final p)"

lemma block_size_pos: "0 < CBC4K_BLOCK_SIZE"
  by (simp add: CBC4K_BLOCK_SIZE_def)

lemma encrypt_loop_run:
  assumes p: "cbc4k_valid p"
  shows "length x div CBC4K_BLOCK_SIZE = k \<Longrightarrow> k * CBC4K_BLOCK_SIZE \<le> cap \<Longrightarrow> n + k < 2 ^ 32 \<Longrightarrow>
    cbc4k_encrypt_loop p x cap n out r =
      Inr (drop (k * CBC4K_BLOCK_SIZE) x, cap - k * CBC4K_BLOCK_SIZE, n + k,
           out @ whole_blocks CBC4K_BLOCK_SIZE (cbc4k_block p) n k x, r + k * CBC4K_BLOCK_SIZE)"
proof (induction k arbitrary: x cap n out r)
  case 0
  then have "\<not> CBC4K_BLOCK_SIZE \<le> length x"
    using block_size_pos by (auto simp: div_eq_0_iff)
  then show ?case by (simp add: cbc4k_encrypt_loop.simps)
next
  case (Suc k)
  have "CBC4K_BLOCK_SIZE \<le> length x"
    using Suc.prems(1) block_size_pos by (metis div_less leI nat.distinct(1))
  moreover have "length (drop CBC4K_BLOCK_SIZE x) div CBC4K_BLOCK_SIZE = k"
    using Suc.prems(1) calculation block_size_pos by (simp add: div_if)
  moreover have "k * CBC4K_BLOCK_SIZE \<le> cap - CBC4K_BLOCK_SIZE" "CBC4K_BLOCK_SIZE \<le> cap"
    using Suc.prems(2) by simp_all
  moreover have "n + 1 + k < 2 ^ 32" "n + 1 < 2 ^ 32"
    using Suc.prems(3) by simp_all
  ultimately show ?case
    using Suc.IH [of "drop CBC4K_BLOCK_SIZE x" "cap - CBC4K_BLOCK_SIZE" "n + 1"
        "out @ cbc4k_block p n (take CBC4K_BLOCK_SIZE x)" "r + CBC4K_BLOCK_SIZE"]
    by (subst cbc4k_encrypt_loop.simps)
      (simp add: EncryptBlock_whole [OF p] add.commute)
qed

lemma padded_size: "length x + 16 < 2 ^ 32 \<Longrightarrow>
    cbc4k_GetPaddedSize (length x) = 16 * (length x div 16) + 16"
  by (simp add: cbc4k_GetPaddedSize_def AES128_BLOCK_SIZE_def)

lemma cbc4k_text_split:
  "cbc4k_text p n x =
     whole_blocks CBC4K_BLOCK_SIZE (cbc4k_block p) n (length x div CBC4K_BLOCK_SIZE) x @
     cbc4k_final p (n + length x div CBC4K_BLOCK_SIZE)
       (drop (length x div CBC4K_BLOCK_SIZE * CBC4K_BLOCK_SIZE) x)"
proof -
  have "length x mod CBC4K_BLOCK_SIZE < CBC4K_BLOCK_SIZE" using block_size_pos by simp
  then have "length (drop (length x div CBC4K_BLOCK_SIZE * CBC4K_BLOCK_SIZE) x) < CBC4K_BLOCK_SIZE"
    by (simp add: minus_div_mult_eq_mod)
  then show ?thesis
    using cipher_text_blocks [OF block_size_pos, of "length x div CBC4K_BLOCK_SIZE" x]
    by (simp add: cipher_text_short)
qed

lemma length_cbc4k_whole:
  assumes "cbc4k_valid p"
  shows "k * CBC4K_BLOCK_SIZE \<le> length x \<Longrightarrow>
    length (whole_blocks CBC4K_BLOCK_SIZE (cbc4k_block p) n k x) = k * CBC4K_BLOCK_SIZE"
proof (induction k arbitrary: n x)
  case 0
  then show ?case by simp
next
  case (Suc k)
  then have "CBC4K_BLOCK_SIZE \<le> length x"
    and "k * CBC4K_BLOCK_SIZE \<le> length (drop CBC4K_BLOCK_SIZE x)" by auto
  with Suc.IH [of "drop CBC4K_BLOCK_SIZE x" "Suc n"] assms show ?case
    by (simp add: EncryptBlock_whole)
qed

text \<open>Padding rounds the length up to the next multiple of 16, and never adds nothing.\<close>

lemma length_cbc4k_text:
  assumes "cbc4k_valid p"
  shows "length (cbc4k_text p n x) = 16 * (length x div 16) + 16"
proof -
  define k where "k = length x div CBC4K_BLOCK_SIZE"
  have k: "k * CBC4K_BLOCK_SIZE \<le> length x" by (simp add: k_def)
  have "length x = 256 * k * 16 + (length x - k * CBC4K_BLOCK_SIZE)"
    using k by (simp add: CBC4K_BLOCK_SIZE_def)
  then have "length x div 16 = 256 * k + (length x - k * CBC4K_BLOCK_SIZE) div 16"
    by (metis add.commute div_mult_self2 zero_neq_numeral mult.commute)
  moreover have "length (cbc4k_text p n x) =
      k * CBC4K_BLOCK_SIZE + (16 * (length (drop (k * CBC4K_BLOCK_SIZE) x) div 16) + 16)"
    using assms k by (simp add: cbc4k_text_split k_def [symmetric] length_cbc4k_whole EncryptBlock_final)
  ultimately show ?thesis
    by (simp add: CBC4K_BLOCK_SIZE_def)
qed

text \<open>A final encryption stores the block-wise ciphertext, whatever the input's length.\<close>

lemma Encrypt_final_text:
  assumes p: "cbc4k_valid p" and len: "length x + 16 < 2 ^ 32"
    and cap: "16 * (length x div 16) + 16 \<le> cap"
    and n: "n + length x div CBC4K_BLOCK_SIZE < 2 ^ 32"
  shows "cbc4k_Encrypt p (Some x) n True (Some cap) False =
    Inr (cbc4k_text p n x, length (cbc4k_text p n x))"
proof -
  define k where "k = length x div CBC4K_BLOCK_SIZE"
  let ?r = "drop (k * CBC4K_BLOCK_SIZE) x"
  have k: "k * CBC4K_BLOCK_SIZE \<le> length x" by (simp add: k_def)
  have kc: "k * CBC4K_BLOCK_SIZE \<le> cap" using k cap by simp
  have "length (cbc4k_text p n x) = k * CBC4K_BLOCK_SIZE + length (cbc4k_final p (n + k) ?r)"
    using k p cbc4k_text_split [of p n x] by (simp add: k_def [symmetric] length_cbc4k_whole)
  then have "k * CBC4K_BLOCK_SIZE + (16 * (length ?r div 16) + 16) \<le> cap"
    using cap p by (simp only: length_cbc4k_text EncryptBlock_final)
  then have "16 * (length ?r div 16) + 16 \<le> cap - k * CBC4K_BLOCK_SIZE" by simp
  then have "cbc4k_EncryptBlock p (Some ?r) (n + k) True (Some (cap - k * CBC4K_BLOCK_SIZE)) =
      Inr (cbc4k_final p (n + k) ?r)"
    by (rule EncryptBlock_final [OF p])
  moreover have "cbc4k_encrypt_loop p x cap n [] 0 =
      Inr (?r, cap - k * CBC4K_BLOCK_SIZE, n + k,
           [] @ whole_blocks CBC4K_BLOCK_SIZE (cbc4k_block p) n k x, 0 + k * CBC4K_BLOCK_SIZE)"
    using n kc by (intro encrypt_loop_run [OF p]) (simp_all add: k_def)
  ultimately show ?thesis
    using cap len k p
    by (simp add: cbc4k_Encrypt_def padded_size cbc4k_text_split [of p n x] k_def [symmetric]
        length_cbc4k_whole)
qed

text \<open>A non-final encryption of whole blocks.\<close>

lemma Encrypt_whole_text:
  assumes p: "cbc4k_valid p" and len: "length x = k * CBC4K_BLOCK_SIZE"
    and cap: "length x \<le> cap" and n: "n + k < 2 ^ 32"
  shows "cbc4k_Encrypt p (Some x) n False (Some cap) False =
    Inr (whole_blocks CBC4K_BLOCK_SIZE (cbc4k_block p) n k x, length x)"
proof -
  have "cbc4k_encrypt_loop p x cap n [] 0 =
      Inr (drop (k * CBC4K_BLOCK_SIZE) x, cap - k * CBC4K_BLOCK_SIZE, n + k,
           [] @ whole_blocks CBC4K_BLOCK_SIZE (cbc4k_block p) n k x, 0 + k * CBC4K_BLOCK_SIZE)"
    using n cap len block_size_pos by (intro encrypt_loop_run [OF p]) simp_all
  then show ?thesis using len cap by (simp add: cbc4k_Encrypt_def)
qed

lemma decrypt_loop_step:
  assumes "if final then CBC4K_BLOCK_SIZE < length inp else CBC4K_BLOCK_SIZE \<le> length inp"
    and "CBC4K_BLOCK_SIZE \<le> cap"
    and "cbc4k_DecryptBlock p (Some (take CBC4K_BLOCK_SIZE inp)) n False (Some cap) = Inr y"
  shows "cbc4k_decrypt_loop p final inp cap n out r =
    cbc4k_decrypt_loop p final (drop CBC4K_BLOCK_SIZE inp) (cap - CBC4K_BLOCK_SIZE) (add32 n 1)
      (out @ y) (r + CBC4K_BLOCK_SIZE)"
  using assms by (subst cbc4k_decrypt_loop.simps) (cases final, simp_all)

lemma decrypt_loop_run:
  assumes p: "cbc4k_valid p"
    and g: "if final then 0 < length g \<and> length g \<le> CBC4K_BLOCK_SIZE else g = []"
  shows "k * CBC4K_BLOCK_SIZE \<le> length x \<Longrightarrow> k * CBC4K_BLOCK_SIZE \<le> cap \<Longrightarrow> n + k < 2 ^ 32 \<Longrightarrow>
    cbc4k_decrypt_loop p final (whole_blocks CBC4K_BLOCK_SIZE (cbc4k_block p) n k x @ g) cap n out r =
      Inr (g, cap - k * CBC4K_BLOCK_SIZE, n + k, out @ take (k * CBC4K_BLOCK_SIZE) x,
           r + k * CBC4K_BLOCK_SIZE)"
proof (induction k arbitrary: x cap n out r)
  case 0
  have "\<not> (if final then CBC4K_BLOCK_SIZE < length g else CBC4K_BLOCK_SIZE \<le> length g)"
    using g block_size_pos by (auto split: if_splits)
  then show ?case by (simp add: cbc4k_decrypt_loop.simps)
next
  case (Suc k)
  let ?B = CBC4K_BLOCK_SIZE
  let ?e = "cbc4k_block p n (take ?B x)"
  let ?t = "whole_blocks ?B (cbc4k_block p) (Suc n) k (drop ?B x) @ g"
  have x: "?B \<le> length x" "k * ?B \<le> length (drop ?B x)" using Suc.prems(1) by auto
  then have e: "length ?e = ?B" using EncryptBlock_whole(2) [OF p] by simp
  have "if final then ?B < length (?e @ ?t) else ?B \<le> length (?e @ ?t)"
    using g e by (auto split: if_splits)
  moreover have "cbc4k_DecryptBlock p (Some (take ?B (?e @ ?t))) n False (Some cap) = Inr (take ?B x)"
    using EncryptBlock_whole(3) [OF p] x(1) e by simp
  moreover have "?B \<le> cap" using Suc.prems(2) by simp
  ultimately have "cbc4k_decrypt_loop p final (?e @ ?t) cap n out r =
      cbc4k_decrypt_loop p final (drop ?B (?e @ ?t)) (cap - ?B) (add32 n 1) (out @ take ?B x) (r + ?B)"
    by (intro decrypt_loop_step)
  moreover have "drop ?B (?e @ ?t) = ?t" "add32 n 1 = Suc n" using e Suc.prems(3) by simp_all
  moreover have "cbc4k_decrypt_loop p final ?t (cap - ?B) (Suc n) (out @ take ?B x) (r + ?B) =
      Inr (g, cap - ?B - k * ?B, Suc n + k, (out @ take ?B x) @ take (k * ?B) (drop ?B x),
           r + ?B + k * ?B)"
    using Suc.prems(2,3) x(2) by (intro Suc.IH) simp_all
  moreover have "take ?B x @ take (k * ?B) (drop ?B x) = take (Suc k * ?B) x"
    by (simp add: take_add)
  ultimately show ?case by simp
qed

lemma Decrypt_final_text:
  assumes p: "cbc4k_valid p" and cap: "length (cbc4k_text p n x) \<le> cap"
    and n: "n + length x div CBC4K_BLOCK_SIZE < 2 ^ 32"
  shows "cbc4k_Decrypt p (Some (cbc4k_text p n x)) n True (Some cap) False = Inr (x, length x)"
proof -
  define k where "k = length x div CBC4K_BLOCK_SIZE"
  let ?B = CBC4K_BLOCK_SIZE
  let ?r = "drop (k * ?B) x"
  let ?g = "cbc4k_final p (n + k) ?r"
  let ?w = "whole_blocks ?B (cbc4k_block p) n k x"
  have k: "k * ?B \<le> length x" by (simp add: k_def)
  have "length x mod ?B < ?B" using block_size_pos by simp
  then have "length ?r < ?B" by (simp add: k_def minus_div_mult_eq_mod)
  then have g: "16 \<le> length ?g" "length ?g \<le> ?B"
    using p by (simp_all add: EncryptBlock_final CBC4K_BLOCK_SIZE_def)
  have ct: "cbc4k_text p n x = ?w @ ?g" by (simp add: cbc4k_text_split k_def)
  have len: "length ?w = k * ?B" using p k by (simp add: length_cbc4k_whole)
  have "cbc4k_decrypt_loop p True (?w @ ?g) cap n [] 0 =
      Inr (?g, cap - k * ?B, n + k, [] @ take (k * ?B) x, 0 + k * ?B)"
  proof (rule decrypt_loop_run [OF p])
    show "if True then 0 < length ?g \<and> length ?g \<le> ?B else ?g = []" using g by auto
    show "k * ?B \<le> cap" using cap ct len by simp
  qed (use k n in \<open>simp_all add: k_def\<close>)
  moreover have "cbc4k_DecryptBlock p (Some ?g) (n + k) True (Some (cap - k * ?B)) = Inr ?r"
    using cap ct len by (intro EncryptBlock_final(3) [OF p]) simp
  moreover have "length (cbc4k_text p n x) mod 16 = 0"
    using p by (simp add: length_cbc4k_text)
  ultimately show ?thesis
    using cap g k unfolding cbc4k_Decrypt_def ct
    by (simp add: AES128_BLOCK_SIZE_def)
qed

lemma Decrypt_whole_text:
  assumes p: "cbc4k_valid p" and len: "length x = k * CBC4K_BLOCK_SIZE"
    and cap: "length x \<le> cap" and n: "n + k < 2 ^ 32"
  shows "cbc4k_Decrypt p (Some (whole_blocks CBC4K_BLOCK_SIZE (cbc4k_block p) n k x)) n False
      (Some cap) False = Inr (x, length x)"
proof -
  let ?w = "whole_blocks CBC4K_BLOCK_SIZE (cbc4k_block p) n k x"
  have w: "length ?w = k * CBC4K_BLOCK_SIZE" using p len by (simp add: length_cbc4k_whole)
  have "cbc4k_decrypt_loop p False (?w @ []) cap n [] 0 =
      Inr ([], cap - k * CBC4K_BLOCK_SIZE, n + k, [] @ take (k * CBC4K_BLOCK_SIZE) x,
           0 + k * CBC4K_BLOCK_SIZE)"
    using len cap n by (intro decrypt_loop_run [OF p]) simp_all
  moreover have "AES128_BLOCK_SIZE dvd k * CBC4K_BLOCK_SIZE"
    by (rule dvd_mult) (simp add: CBC4K_BLOCK_SIZE_def AES128_BLOCK_SIZE_def)
  then have "length ?w mod AES128_BLOCK_SIZE = 0" "length ?w mod CBC4K_BLOCK_SIZE = 0"
    using w by simp_all
  moreover have "\<not> cap < length ?w" "take (k * CBC4K_BLOCK_SIZE) x = x"
    using w len cap by simp_all
  ultimately show ?thesis
    unfolding cbc4k_Decrypt_def using len by simp
qed

lemma Encrypt_block_one:
  assumes "cbc4k_valid p" and "length x = CBC4K_BLOCK_SIZE" and "CBC4K_BLOCK_SIZE \<le> cap" and "n < 2 ^ 32"
  shows "cbc4k_Encrypt p (Some x) n False (Some cap) False = Inr (cbc4k_block p n x, CBC4K_BLOCK_SIZE)"
proof (cases "n + 1 < 2 ^ 32")
  case True
  then show ?thesis using Encrypt_whole_text [of p x 1 cap n] assms by simp
next
  case False
  have "cbc4k_encrypt_loop p x cap n [] 0 =
      Inr ([], cap - CBC4K_BLOCK_SIZE, add32 n 1, cbc4k_block p n x, CBC4K_BLOCK_SIZE)"
    using assms block_size_pos
    by (subst cbc4k_encrypt_loop.simps) (simp add: EncryptBlock_whole cbc4k_encrypt_loop.simps)
  then show ?thesis using assms by (simp add: cbc4k_Encrypt_def)
qed

lemma Decrypt_block_one:
  assumes "cbc4k_valid p" and "length x = CBC4K_BLOCK_SIZE" and "CBC4K_BLOCK_SIZE \<le> cap" and "n < 2 ^ 32"
  shows "cbc4k_Decrypt p (Some (cbc4k_block p n x)) n False (Some cap) False = Inr (x, CBC4K_BLOCK_SIZE)"
proof -
  have e: "length (cbc4k_block p n x) = CBC4K_BLOCK_SIZE" using assms by (simp add: EncryptBlock_whole)
  have "cbc4k_decrypt_loop p False (cbc4k_block p n x) cap n [] 0 =
      Inr ([], cap - CBC4K_BLOCK_SIZE, add32 n 1, x, CBC4K_BLOCK_SIZE)"
    using assms e block_size_pos
    by (subst cbc4k_decrypt_loop.simps) (simp add: EncryptBlock_whole cbc4k_decrypt_loop.simps)
  moreover have "CBC4K_BLOCK_SIZE mod AES128_BLOCK_SIZE = 0" by (simp add: crypto_consts)
  ultimately show ?thesis using assms e by (simp add: cbc4k_Decrypt_def)
qed

section \<open>The provider keeps the contract\<close>

interpretation cbc4k: padded_provider cbc4k_valid cbc4k_vtable CBC4K_BLOCK_SIZE cbc4k_block cbc4k_final
  "\<lambda>l. True"
proof
  show "0 < CBC4K_BLOCK_SIZE" "CBC4K_BLOCK_SIZE < 2 ^ 31"
    by (simp_all add: CBC4K_BLOCK_SIZE_def)
next
  fix p and n :: nat and x :: "byte list"
  assume "cbc4k_valid p" "length x = CBC4K_BLOCK_SIZE"
  then show "length (cbc4k_block p n x) = CBC4K_BLOCK_SIZE" by (rule EncryptBlock_whole)
next
  fix p and n :: nat and x :: "byte list"
  assume p: "cbc4k_valid p" and x: "length x < CBC4K_BLOCK_SIZE"
  show *: "length x < length (cbc4k_final p n x)"
    using p div16_bound [of "length x"] by (simp add: EncryptBlock_final)
  then show "length x \<le> length (cbc4k_final p n x) \<and> length (cbc4k_final p n x) \<le> CBC4K_BLOCK_SIZE"
    using p x less_mult_imp_div_less [of "length x" 256 16]
    by (simp add: EncryptBlock_final CBC4K_BLOCK_SIZE_def)
next
  fix p and n :: nat and x :: "byte list"
  assume "cbc4k_valid p" "length x \<le> CBC4K_BLOCK_SIZE"
  then show "\<exists>k. cp_GetCipherTextSize (cbc4k_vtable p) (length x) = Inr k \<and> k < 2 ^ 32 \<and>
      length (cbc4k_text p n x) \<le> k"
    using length_cbc4k_text [of p n x] less_mult_imp_div_less [of "length x" 257 16]
    by (simp add: cbc4k_vtable_def cbc4k_GetCipherTextSize_def crypto_consts mul64_def)
next
  fix p and n :: nat
  assume "cbc4k_valid p"
  then show "\<exists>k. cp_GetCipherTextSize (cbc4k_vtable p) 0 = Inr k \<and> k < 2 ^ 32 \<and>
      length (cbc4k_final p n []) \<le> k"
    by (simp add: cbc4k_vtable_def cbc4k_GetCipherTextSize_def EncryptBlock_final
        AES128_BLOCK_SIZE_def mul64_def)
next
  fix p and n cap :: nat and x :: "byte list"
  assume p: "cbc4k_valid p" and x: "length x = CBC4K_BLOCK_SIZE" "CBC4K_BLOCK_SIZE \<le> cap" "n < 2 ^ 32"
  show "cp_Encrypt (cbc4k_vtable p) (Some x) n False (Some cap) False =
      Inr (cbc4k_block p n x, CBC4K_BLOCK_SIZE)"
    using Encrypt_block_one [OF p x] by (simp add: cbc4k_vtable_def)
  show "cp_Decrypt (cbc4k_vtable p) (Some (cbc4k_block p n x)) n False (Some cap) False =
      Inr (x, CBC4K_BLOCK_SIZE)"
    using Decrypt_block_one [OF p x] by (simp add: cbc4k_vtable_def)
next
  fix p and n cap :: nat and x :: "byte list"
  assume p: "cbc4k_valid p" and x: "length x \<le> CBC4K_BLOCK_SIZE" and n: "n + 1 < 2 ^ 32"
  have len: "length x + 16 < 2 ^ 32" using x by (simp add: CBC4K_BLOCK_SIZE_def)
  have one: "length x div CBC4K_BLOCK_SIZE \<le> 1"
    using x block_size_pos by (metis div_le_mono div_self less_not_refl)
  show "cp_Encrypt (cbc4k_vtable p) (Some x) n True (Some cap) False =
      Inr (cbc4k_text p n x, length (cbc4k_text p n x))" if "length (cbc4k_text p n x) \<le> cap"
    using p n that len one by (simp add: cbc4k_vtable_def Encrypt_final_text length_cbc4k_text)
  show "cp_Decrypt (cbc4k_vtable p) (Some (cbc4k_text p n x)) n True (Some cap) False =
      Inr (x, length x)"
    if "length (cbc4k_text p n x) \<le> CBC4K_BLOCK_SIZE" "CBC4K_BLOCK_SIZE \<le> cap"
    using Decrypt_final_text [OF p, of n x cap] that one n by (simp add: cbc4k_vtable_def)
qed simp_all

section \<open>Properties\<close>

definition cbc4k_of :: "evp \<Rightarrow> byte list \<Rightarrow> Cbc4kCryptoProvider" where
  "cbc4k_of lib key =
     \<lparr>c4_lib = lib,
      c4_EcbKey = \<lparr>ak_key = key, ak_algorithm = CRYPTO_ALGORITHM_AES_ECB\<rparr>,
      c4_CbcKey = \<lparr>ak_key = key, ak_algorithm = CRYPTO_ALGORITHM_AES_CBC\<rparr>,
      c4_CbcPaddingKey = \<lparr>ak_key = key, ak_algorithm = CRYPTO_ALGORITHM_AES_CBC_PKCS7\<rparr>,
      c4_key = key\<rparr>"

lemma cbc4k_of_valid: "evp_ok lib \<Longrightarrow> valid_key key \<Longrightarrow> cbc4k_valid (cbc4k_of lib key)"
  by (simp add: cbc4k_valid_def cbc4k_of_def)

lemma cbc4k_create_of: "valid_key key \<Longrightarrow> Cbc4kCryptoProvider_create lib key = Inr (cbc4k_of lib key)"
  by (auto simp: Cbc4kCryptoProvider_create_def CreateKey_def AESCryptoKey_create_def
      cbc4k_of_def valid_key_def crypto_consts)

lemma valid_key_16: "valid_key (replicate 16 b)"
  by (simp add: valid_key_def)

text \<open>
  Decrypting what a final encryption stored gives the input back, for inputs of every
  length that fits the 32-bit size arithmetic, from any first block number, with output
  buffers of exactly the sizes the provider announces.
\<close>

theorem cbc4k_roundtrip:
  assumes "cbc4k_valid p" and "length x + 16 < 2 ^ 32"
    and "n + length x div CBC4K_BLOCK_SIZE < 2 ^ 32"
  shows "\<exists>c. cbc4k_Encrypt p (Some x) n True (Some (cbc4k_GetPaddedSize (length x))) False = Inr (c, length c) \<and>
    length c = cbc4k_GetPaddedSize (length x) \<and>
    cbc4k_Decrypt p (Some c) n True (Some (length c)) False = Inr (x, length x)"
  using assms Encrypt_final_text [of p x "cbc4k_GetPaddedSize (length x)" n]
    Decrypt_final_text [of p n x "length (cbc4k_text p n x)"]
  by (simp add: padded_size length_cbc4k_text)

theorem cbc4k_roundtrip_witness:
  "\<exists>c. cbc4k_Encrypt (cbc4k_of xor_evp (replicate 16 7)) (Some [1, 2, 3]) 5 True
       (Some (cbc4k_GetPaddedSize (length [1, 2, 3::byte]))) False = Inr (c, length c) \<and>
    length c = cbc4k_GetPaddedSize (length [1, 2, 3::byte]) \<and>
    cbc4k_Decrypt (cbc4k_of xor_evp (replicate 16 7)) (Some c) 5 True (Some (length c)) False =
      Inr ([1, 2, 3], length [1, 2, 3::byte])"
  by (rule cbc4k_roundtrip)
    (simp_all add: cbc4k_of_valid xor_evp_ok valid_key_16 CBC4K_BLOCK_SIZE_def)

text \<open>
  A stream may be encrypted piecewise. Whole blocks encrypted as a non-final run,
  followed by the rest as a final run under the next block number, store the same bytes as
  one final run over everything.
\<close>

theorem cbc4k_piecewise:
  assumes "cbc4k_valid p" and "length x = k * CBC4K_BLOCK_SIZE"
    and "length (x @ y) + 16 < 2 ^ 32" and "n + length (x @ y) div CBC4K_BLOCK_SIZE < 2 ^ 32"
    and "length (x @ y) + 16 \<le> cap"
  shows "\<exists>c d. cbc4k_Encrypt p (Some x) n False (Some cap) False = Inr (c, length c) \<and>
    cbc4k_Encrypt p (Some y) (n + k) True (Some cap) False = Inr (d, length d) \<and>
    cbc4k_Encrypt p (Some (x @ y)) n True (Some cap) False = Inr (c @ d, length (c @ d))"
proof -
  let ?B = CBC4K_BLOCK_SIZE
  have xy: "length (x @ y) div ?B = k + length y div ?B"
    using assms(2) block_size_pos by simp
  have "16 * (length z div 16) + 16 \<le> cap" if "length z \<le> length (x @ y)" for z :: "byte list"
    using that assms(5) by (meson add_le_mono1 le_trans times_div_less_eq_dividend)
  then have "cbc4k_Encrypt p (Some x) n False (Some cap) False =
        Inr (whole_blocks ?B (cbc4k_block p) n k x, length x)"
    and "cbc4k_Encrypt p (Some y) (n + k) True (Some cap) False =
        Inr (cbc4k_text p (n + k) y, length (cbc4k_text p (n + k) y))"
    and "cbc4k_Encrypt p (Some (x @ y)) n True (Some cap) False =
        Inr (cbc4k_text p n (x @ y), length (cbc4k_text p n (x @ y)))"
    using assms xy Encrypt_whole_text [OF assms(1,2), of cap n]
    by (simp_all add: Encrypt_final_text)
  moreover have "cbc4k_text p n (x @ y) = whole_blocks ?B (cbc4k_block p) n k (x @ y) @ cbc4k_text p (n + k) y"
    using cipher_text_blocks [OF block_size_pos, of k "x @ y" "cbc4k_block p" "cbc4k_final p" n] assms(2) by simp
  moreover have "whole_blocks ?B (cbc4k_block p) n k (x @ y) = whole_blocks ?B (cbc4k_block p) n k x"
  proof (rule whole_blocks_cong)
    fix i assume "i < k"
    then have "i * ?B + ?B \<le> length x" using assms(2) mult_le_mono1 [of "Suc i" k ?B] by simp
    then show "take ?B (drop (i * ?B) (x @ y)) = take ?B (drop (i * ?B) x)" by simp
  qed
  moreover have "length (whole_blocks ?B (cbc4k_block p) n k x) = length x"
    using assms(1,2) by (simp add: length_cbc4k_whole)
  ultimately show ?thesis by simp
qed

theorem cbc4k_piecewise_witness:
  "\<exists>c d. cbc4k_Encrypt (cbc4k_of xor_evp (replicate 16 7)) (Some (replicate 4096 1)) 0 False (Some 5000) False = Inr (c, length c) \<and>
    cbc4k_Encrypt (cbc4k_of xor_evp (replicate 16 7)) (Some [2, 3]) (0 + 1) True (Some 5000) False = Inr (d, length d) \<and>
    cbc4k_Encrypt (cbc4k_of xor_evp (replicate 16 7)) (Some (replicate 4096 1 @ [2, 3])) 0 True (Some 5000) False =
      Inr (c @ d, length (c @ d))"
  by (rule cbc4k_piecewise)
    (simp_all add: cbc4k_of_valid xor_evp_ok valid_key_16 CBC4K_BLOCK_SIZE_def)

text \<open>
  No two blocks of a stream share an initial vector: the vectors of two different
  32-bit block numbers differ.
\<close>

theorem cbc4k_iv_distinct:
  assumes "cbc4k_valid p" and "m < 2 ^ 32" and "n < 2 ^ 32" and "m \<noteq> n"
  shows "\<exists>v w. cbc4k_GenerateIvForBlock p m = Inr v \<and> cbc4k_GenerateIvForBlock p n = Inr w \<and>
    length v = 16 \<and> length w = 16 \<and> v \<noteq> w"
proof -
  obtain v where v: "cbc4k_GenerateIvForBlock p m = Inr v" "length v = 16"
    "TransformBlock (c4_lib p) (c4_EcbKey p) False (Some v) False 16 None = Inr (cbc4k_iv_input m)"
    using GenerateIv_ok [OF assms(1)] .
  obtain w where w: "cbc4k_GenerateIvForBlock p n = Inr w" "length w = 16"
    "TransformBlock (c4_lib p) (c4_EcbKey p) False (Some w) False 16 None = Inr (cbc4k_iv_input n)"
    using GenerateIv_ok [OF assms(1)] .
  have "v \<noteq> w" using v(3) w(3) iv_input_inject [of m n] assms(2-4) by auto
  with v w show ?thesis by blast
qed

theorem cbc4k_iv_distinct_witness:
  "\<exists>v w. cbc4k_GenerateIvForBlock (cbc4k_of xor_evp (replicate 16 7)) 0 = Inr v \<and>
    cbc4k_GenerateIvForBlock (cbc4k_of xor_evp (replicate 16 7)) 256 = Inr w \<and>
    length v = 16 \<and> length w = 16 \<and> v \<noteq> w"
  by (rule cbc4k_iv_distinct) (simp_all add: cbc4k_of_valid xor_evp_ok valid_key_16)

end
