(* ===== verification/Cbc512.thy ===== *)
theory Cbc512
  imports CryptoProvider
begin

text \<open>
  The provider of cipher mode CBC512NOPADDING
  (\<open>sdk/rmscrypto_sdk/Crypto/Cbc512NoPaddingCryptoProvider.cpp\<close>): blocks of 512
  bytes, each under an initial vector made from its byte offset, and a last block that is
  shorter but still a whole number of cipher blocks, because nothing is padded.
\<close>

section \<open>State and construction\<close>

record Cbc512NoPaddingCryptoProvider =
  c5_lib :: evp
  c5_EcbKey :: AESCryptoKey
  c5_CbcKey :: AESCryptoKey
  c5_key :: "byte list"

definition Cbc512NoPaddingCryptoProvider_create ::
  "evp \<Rightarrow> byte list \<Rightarrow> exn + Cbc512NoPaddingCryptoProvider" where
  "Cbc512NoPaddingCryptoProvider_create lib key =
     (if length key < AES128_KEY_BYTE_LENGTH
      then Inl (RMSCryptoInvalidArgumentException ''Invalid key size'')
      else
        bindE (CreateKey key CRYPTO_ALGORITHM_AES_ECB) (\<lambda>ecb.
        bindE (CreateKey key CRYPTO_ALGORITHM_AES_CBC) (\<lambda>cbc.
          Inr \<lparr>c5_lib = lib, c5_EcbKey = ecb, c5_CbcKey = cbc, c5_key = key\<rparr>)))"

section \<open>Blocks\<close>

definition cbc512_GetCipherTextSize :: "nat \<Rightarrow> exn + nat" where
  "cbc512_GetCipherTextSize n =
     (if n \<le> 0 \<or> n mod AES128_BLOCK_SIZE \<noteq> 0
      then Inl (RMSCryptoInvalidArgumentException ''Invalid argument'')
      else Inr n)"

definition cbc512_GetPaddedSize :: "nat \<Rightarrow> nat" where
  "cbc512_GetPaddedSize cbSize =
     (if cbSize \<le> 0 then 0
      else to_u32 (((cbSize - 1) div AES128_BLOCK_SIZE + 1) * AES128_BLOCK_SIZE))"

text \<open>The initial vector is the encrypted byte offset of the block, a 64-bit number.\<close>

definition cbc512_iv_input :: "nat \<Rightarrow> byte list" where
  "cbc512_iv_input blk =
     put_at (replicate AES128_KEY_BYTE_LENGTH 0) 0 (le_bytes 8 (mul64 blk CBC512_BLOCK_SIZE))"

definition cbc512_GenerateIvForBlock ::
  "Cbc512NoPaddingCryptoProvider \<Rightarrow> nat \<Rightarrow> exn + byte list" where
  "cbc512_GenerateIvForBlock p blk =
     bindE (AES_Encrypt (c5_lib p) (c5_EcbKey p) (Some (cbc512_iv_input blk)) False
              AES128_KEY_BYTE_LENGTH None)
       (\<lambda>out. Inr (put_at (replicate AES128_KEY_BYTE_LENGTH 0) 0 out))"

definition cbc512_EncryptBlock ::
  "Cbc512NoPaddingCryptoProvider \<Rightarrow> byte list option \<Rightarrow> nat \<Rightarrow> bool \<Rightarrow> nat option
   \<Rightarrow> exn + byte list" where
  "cbc512_EncryptBlock p pbIn blk isFinalBlock pbOut =
     (case pbIn of
        None \<Rightarrow> Inl (RMSCryptoNullPointerException ''Null pointer pbIn exception'')
      | Some inp \<Rightarrow>
       (case pbOut of
          None \<Rightarrow> Inl (RMSCryptoNullPointerException ''Null pointer pbOut exception'')
        | Some cbOut \<Rightarrow>
          if \<not> isFinalBlock \<and> CBC512_BLOCK_SIZE \<noteq> length inp
          then Inl (RMSCryptoInvalidArgumentException ''Invalid aligment'')
          else
            bindE (cbc512_GenerateIvForBlock p blk) (\<lambda>iv.
              AES_Encrypt (c5_lib p) (c5_CbcKey p) (Some inp) False cbOut (Some iv))))"

definition cbc512_DecryptBlock ::
  "Cbc512NoPaddingCryptoProvider \<Rightarrow> byte list option \<Rightarrow> nat \<Rightarrow> bool \<Rightarrow> nat option
   \<Rightarrow> exn + byte list" where
  "cbc512_DecryptBlock p pbIn blk isFinalBlock pbOut =
     (case pbIn of
        None \<Rightarrow> Inl (RMSCryptoNullPointerException ''Null pointer pbIn exception'')
      | Some inp \<Rightarrow>
       (case pbOut of
          None \<Rightarrow> Inl (RMSCryptoNullPointerException ''Null pointer pbOut exception'')
        | Some cbOut \<Rightarrow>
          if \<not> isFinalBlock \<and> CBC512_BLOCK_SIZE \<noteq> length inp
          then Inl (RMSCryptoInvalidArgumentException ''Block is not aligned'')
          else
            bindE (cbc512_GenerateIvForBlock p blk) (\<lambda>iv.
              AES_Decrypt (c5_lib p) (c5_CbcKey p) (Some inp) False cbOut (Some iv))))"

section \<open>Encryption and decryption of a run of blocks\<close>

text \<open>The last block, even a whole one, is left to the call after the loop.\<close>

function cbc512_encrypt_loop ::
  "Cbc512NoPaddingCryptoProvider \<Rightarrow> byte list \<Rightarrow> nat \<Rightarrow> nat \<Rightarrow> byte list \<Rightarrow> nat
   \<Rightarrow> exn + byte list \<times> nat \<times> nat \<times> byte list \<times> nat" where
  "cbc512_encrypt_loop p inp cbOut blk out cbResult =
     (if CBC512_BLOCK_SIZE < length inp then
        (if cbOut < CBC512_BLOCK_SIZE
         then Inl (RMSCryptoInvalidArgumentException ''Invalid buffer size'')
         else
           (case cbc512_EncryptBlock p (Some (take CBC512_BLOCK_SIZE inp)) blk False (Some cbOut) of
              Inl e \<Rightarrow> Inl e
            | Inr y \<Rightarrow>
              cbc512_encrypt_loop p (drop CBC512_BLOCK_SIZE inp) (cbOut - CBC512_BLOCK_SIZE)
                (add32 blk 1) (out @ y) (cbResult + CBC512_BLOCK_SIZE)))
      else Inr (inp, cbOut, blk, out, cbResult))"
  by pat_completeness auto
termination
  by (relation "measure (\<lambda>(p, inp, cbOut, blk, out, r). length inp)")
    (auto simp: CBC512_BLOCK_SIZE_def)

declare cbc512_encrypt_loop.simps [simp del]

definition cbc512_Encrypt :: "Cbc512NoPaddingCryptoProvider \<Rightarrow> crypt_op" where
  "cbc512_Encrypt p pbIn blk isFinal pbOut pcbOutNull =
     (case pbIn of
        None \<Rightarrow> Inl (RMSCryptoNullPointerException ''Null pointer pbIn exception'')
      | Some inp \<Rightarrow>
        if \<not> isFinal \<and> length inp mod CBC512_BLOCK_SIZE \<noteq> 0
        then Inl (RMSCryptoInvalidArgumentException ''Block is not aligned'')
        else if pcbOutNull
        then Inl (RMSCryptoNullPointerException ''Null pointer pcbOut exception'')
        else if length inp mod AES128_BLOCK_SIZE \<noteq> 0
        then Inl (RMSCryptoInvalidArgumentException ''Block is not aligned'')
        else
          case pbOut of
            None \<Rightarrow> Inr ([], length inp)
          | Some cbOut \<Rightarrow>
            bindE (cbc512_encrypt_loop p inp cbOut blk [] 0)
              (\<lambda>(rest, cap, n, out, cbResult).
                if \<not> isFinal \<and> CBC512_BLOCK_SIZE < length rest
                then Inl (RMSCryptoInvalidArgumentException ''Invalid aligment'')
                else
                  bindE (cbc512_EncryptBlock p (Some rest) n True (Some cap))
                    (\<lambda>y. Inr (out @ y, cbResult + length y))))"

function cbc512_decrypt_loop ::
  "Cbc512NoPaddingCryptoProvider \<Rightarrow> byte list \<Rightarrow> nat \<Rightarrow> nat \<Rightarrow> byte list \<Rightarrow> nat
   \<Rightarrow> exn + byte list \<times> nat \<times> nat \<times> byte list \<times> nat" where
  "cbc512_decrypt_loop p inp cbOut blk out cbResult =
     (if CBC512_BLOCK_SIZE \<le> length inp then
        (if cbOut < CBC512_BLOCK_SIZE
         then Inl (RMSCryptoInsufficientBufferException ''Insufficient buffer'')
         else
           (case cbc512_DecryptBlock p (Some (take CBC512_BLOCK_SIZE inp)) blk False (Some cbOut) of
              Inl e \<Rightarrow> Inl e
            | Inr y \<Rightarrow>
              cbc512_decrypt_loop p (drop CBC512_BLOCK_SIZE inp) (cbOut - CBC512_BLOCK_SIZE)
                (add32 blk 1) (out @ y) (cbResult + CBC512_BLOCK_SIZE)))
      else Inr (inp, cbOut, blk, out, cbResult))"
  by pat_completeness auto
termination
  by (relation "measure (\<lambda>(p, inp, cbOut, blk, out, r). length inp)")
    (auto simp: CBC512_BLOCK_SIZE_def)

declare cbc512_decrypt_loop.simps [simp del]

definition cbc512_Decrypt :: "Cbc512NoPaddingCryptoProvider \<Rightarrow> crypt_op" where
  "cbc512_Decrypt p pbIn blk isFinal pbOut pcbOutNull =
     (case pbIn of
        None \<Rightarrow> Inl (RMSCryptoNullPointerException ''Null pointer pbIn exception'')
      | Some inp \<Rightarrow>
        if \<not> isFinal \<and> length inp mod CBC512_BLOCK_SIZE \<noteq> 0
        then Inl (RMSCryptoInvalidArgumentException ''Block is not aligned'')
        else if length inp mod AES128_BLOCK_SIZE \<noteq> 0
        then Inl (RMSCryptoInvalidArgumentException ''Block is not aligned'')
        else if pcbOutNull
        then Inl (RMSCryptoNullPointerException ''Null pointer pcbOut exception'')
        else
          case pbOut of
            None \<Rightarrow> Inr ([], length inp)
          | Some cbOut \<Rightarrow>
            if cbOut < length inp
            then Inl (RMSCryptoInsufficientBufferException ''Insufficient buffer'')
            else
              bindE (cbc512_decrypt_loop p inp cbOut blk [] 0)
                (\<lambda>(rest, cap, n, out, cbResult).
                  if \<not> isFinal \<and> rest \<noteq> []
                  then Inl (RMSCryptoInvalidArgumentException ''Invalid aligment'')
                  else if isFinal \<and> 0 < length rest
                  then
                    (if length rest < AES128_BLOCK_SIZE
                     then Inl (RMSCryptoInsufficientBufferException ''Insufficient buffer'')
                     else
                       bindE (cbc512_DecryptBlock p (Some rest) n True (Some cap))
                         (\<lambda>y. Inr (out @ y, cbResult + length y)))
                  else Inr (out, cbResult)))"

definition cbc512_vtable :: "Cbc512NoPaddingCryptoProvider \<Rightarrow> ICryptoProvider" where
  "cbc512_vtable p =
     \<lparr>cp_Encrypt = cbc512_Encrypt p, cp_Decrypt = cbc512_Decrypt p,
      cp_GetCipherTextSize = cbc512_GetCipherTextSize, cp_GetBlockSize = CBC512_BLOCK_SIZE,
      cp_GetKey = c5_key p\<rparr>"

section \<open>A provider in working order\<close>

definition cbc512_valid :: "Cbc512NoPaddingCryptoProvider \<Rightarrow> bool" where
  "cbc512_valid p \<longleftrightarrow>
     evp_ok (c5_lib p) \<and> valid_key (c5_key p) \<and>
     c5_EcbKey p = \<lparr>ak_key = c5_key p, ak_algorithm = CRYPTO_ALGORITHM_AES_ECB\<rparr> \<and>
     c5_CbcKey p = \<lparr>ak_key = c5_key p, ak_algorithm = CRYPTO_ALGORITHM_AES_CBC\<rparr>"

definition cbc512_of :: "evp \<Rightarrow> byte list \<Rightarrow> Cbc512NoPaddingCryptoProvider" where
  "cbc512_of lib key =
     \<lparr>c5_lib = lib,
      c5_EcbKey = \<lparr>ak_key = key, ak_algorithm = CRYPTO_ALGORITHM_AES_ECB\<rparr>,
      c5_CbcKey = \<lparr>ak_key = key, ak_algorithm = CRYPTO_ALGORITHM_AES_CBC\<rparr>,
      c5_key = key\<rparr>"

lemma cbc512_of_valid: "evp_ok lib \<Longrightarrow> valid_key key \<Longrightarrow> cbc512_valid (cbc512_of lib key)"
  by (simp add: cbc512_valid_def cbc512_of_def)

lemma cbc512_create_of:
  "valid_key key \<Longrightarrow> Cbc512NoPaddingCryptoProvider_create lib key = Inr (cbc512_of lib key)"
  by (auto simp: Cbc512NoPaddingCryptoProvider_create_def CreateKey_def AESCryptoKey_create_def
      cbc512_of_def valid_key_def crypto_consts)

text \<open>The ciphertext of a block, whole or last.\<close>

definition cbc512_crypt :: "Cbc512NoPaddingCryptoProvider \<Rightarrow> nat \<Rightarrow> byte list \<Rightarrow> byte list" where
  "cbc512_crypt p n x =
     (case cbc512_EncryptBlock p (Some x) n True (Some (length x)) of Inl e \<Rightarrow> [] | Inr y \<Rightarrow> y)"

section \<open>Single blocks\<close>

lemma length_iv_input512: "length (cbc512_iv_input n) = 16"
  by (simp add: cbc512_iv_input_def AES128_KEY_BYTE_LENGTH_def put_at_def)

lemma GenerateIv512_ok:
  assumes "cbc512_valid p"
  obtains iv where "cbc512_GenerateIvForBlock p n = Inr iv" and "length iv = 16"
proof -
  obtain y where "\<And>cb. TransformBlock (c5_lib p) (c5_EcbKey p) True (Some (cbc512_iv_input n)) False cb None = Inr y"
    and y: "length y = length (cbc512_iv_input n)"
    and "\<And>cb. TransformBlock (c5_lib p) (c5_EcbKey p) False (Some y) False cb None = Inr (cbc512_iv_input n)"
    using assms
    by (elim TransformBlock_unpadded [of "c5_lib p" "c5_EcbKey p" "cbc512_iv_input n" None "[]", rotated -1])
      (auto simp: cbc512_valid_def length_iv_input512)
  moreover have "put_at (replicate AES128_KEY_BYTE_LENGTH 0) 0 y = y"
    using y by (simp add: put_at_def AES128_KEY_BYTE_LENGTH_def length_iv_input512)
  ultimately show ?thesis
    using that [of y]
    by (simp add: cbc512_GenerateIvForBlock_def AES_Encrypt_def length_iv_input512)
qed

text \<open>No capacity is looked at: the outcome is the same for every output buffer.\<close>

lemma Block512:
  assumes p: "cbc512_valid p" and x: "length x mod 16 = 0"
  shows "cbc512_EncryptBlock p (Some x) n True (Some cb) = Inr (cbc512_crypt p n x)"
    and "length x = CBC512_BLOCK_SIZE \<Longrightarrow>
      cbc512_EncryptBlock p (Some x) n False (Some cb) = Inr (cbc512_crypt p n x)"
    and "length (cbc512_crypt p n x) = length x"
    and "cbc512_DecryptBlock p (Some (cbc512_crypt p n x)) n True (Some cb) = Inr x"
    and "length x = CBC512_BLOCK_SIZE \<Longrightarrow>
      cbc512_DecryptBlock p (Some (cbc512_crypt p n x)) n False (Some cb) = Inr x"
proof -
  obtain iv where iv: "cbc512_GenerateIvForBlock p n = Inr iv" "length iv = 16"
    using GenerateIv512_ok [OF p] .
  obtain y where y: "\<And>cb. TransformBlock (c5_lib p) (c5_CbcKey p) True (Some x) False cb (Some iv) = Inr y"
    and len: "length y = length x"
    and dec: "\<And>cb. TransformBlock (c5_lib p) (c5_CbcKey p) False (Some y) False cb (Some iv) = Inr x"
    using p x iv(2)
    by (elim TransformBlock_unpadded [of "c5_lib p" "c5_CbcKey p" x "Some iv" iv, rotated -1])
      (auto simp: cbc512_valid_def)
  have enc: "cbc512_EncryptBlock p (Some x) n True (Some c) = Inr y" for c
    using iv y by (simp add: cbc512_EncryptBlock_def AES_Encrypt_def)
  then have "cbc512_crypt p n x = y" by (simp add: cbc512_crypt_def)
  then show "cbc512_EncryptBlock p (Some x) n True (Some cb) = Inr (cbc512_crypt p n x)"
    "length x = CBC512_BLOCK_SIZE \<Longrightarrow>
      cbc512_EncryptBlock p (Some x) n False (Some cb) = Inr (cbc512_crypt p n x)"
    "length (cbc512_crypt p n x) = length x"
    "cbc512_DecryptBlock p (Some (cbc512_crypt p n x)) n True (Some cb) = Inr x"
    "length x = CBC512_BLOCK_SIZE \<Longrightarrow>
      cbc512_DecryptBlock p (Some (cbc512_crypt p n x)) n False (Some cb) = Inr x"
    using enc len iv dec y
    by (simp_all add: cbc512_EncryptBlock_def cbc512_DecryptBlock_def AES_Encrypt_def AES_Decrypt_def)
qed

lemma crypt512_Nil: "cbc512_valid p \<Longrightarrow> cbc512_crypt p n [] = []"
  using Block512(3) [of p "[]" n] by simp

section \<open>Runs of blocks\<close>

abbreviation cbc512_text :: "Cbc512NoPaddingCryptoProvider \<Rightarrow> nat \<Rightarrow> byte list \<Rightarrow> byte list" where
  "cbc512_text p \<equiv> cipher_text CBC512_BLOCK_SIZE (cbc512_crypt p) (cbc512_crypt p)"

lemma text512_small:
  assumes "cbc512_valid p" and "length x \<le> CBC512_BLOCK_SIZE"
  shows "cbc512_text p n x = cbc512_crypt p n x"
proof (cases "length x = CBC512_BLOCK_SIZE")
  case True
  then show ?thesis
    using assms by (simp add: cipher_text_step cipher_text_short crypt512_Nil CBC512_BLOCK_SIZE_def)
qed (use assms in \<open>simp add: cipher_text_short\<close>)

lemma aligned_rest:
  assumes "length x mod 16 = 0"
  shows "length (drop CBC512_BLOCK_SIZE x) mod 16 = 0"
proof -
  obtain q where "length x = 16 * q" using assms by (metis mod_0_imp_dvd dvdE)
  then have "length (drop CBC512_BLOCK_SIZE x) = 16 * (q - 32)"
    by (simp add: CBC512_BLOCK_SIZE_def)
  then show ?thesis by simp
qed

lemma step_number:
  assumes "CBC512_BLOCK_SIZE < l"
  shows "(l - 1) div CBC512_BLOCK_SIZE = Suc ((l - CBC512_BLOCK_SIZE - 1) div CBC512_BLOCK_SIZE)"
proof -
  define m where "m = l - CBC512_BLOCK_SIZE - 1"
  have "l - 1 = m + CBC512_BLOCK_SIZE" using assms by (simp add: m_def)
  moreover have "(m + CBC512_BLOCK_SIZE) div CBC512_BLOCK_SIZE = Suc (m div CBC512_BLOCK_SIZE)"
    by (simp add: CBC512_BLOCK_SIZE_def)
  ultimately show ?thesis by (simp only: m_def)
qed

lemma encrypt512_step:
  assumes "CBC512_BLOCK_SIZE < length x" and "CBC512_BLOCK_SIZE \<le> cap"
    and "cbc512_EncryptBlock p (Some (take CBC512_BLOCK_SIZE x)) n False (Some cap) = Inr y"
  shows "cbc512_encrypt_loop p x cap n out r =
    cbc512_encrypt_loop p (drop CBC512_BLOCK_SIZE x) (cap - CBC512_BLOCK_SIZE) (add32 n 1)
      (out @ y) (r + CBC512_BLOCK_SIZE)"
  using assms by (subst cbc512_encrypt_loop.simps) simp

text \<open>
  The loop leaves at most a block, and the ciphertext of the input is what it stored
  followed by the ciphertext of that block under the number it left.
\<close>

lemma encrypt512_run:
  assumes p: "cbc512_valid p"
  shows "length x mod 16 = 0 \<Longrightarrow> (length x - 1) div CBC512_BLOCK_SIZE * CBC512_BLOCK_SIZE \<le> cap \<Longrightarrow>
    n + (length x - 1) div CBC512_BLOCK_SIZE < 2 ^ 32 \<Longrightarrow>
    \<exists>rest cap' n' out'.
      cbc512_encrypt_loop p x cap n out r = Inr (rest, cap', n', out @ out', r + length out') \<and>
      length rest \<le> CBC512_BLOCK_SIZE \<and> length rest mod 16 = 0 \<and>
      cbc512_text p n x = out' @ cbc512_crypt p n' rest \<and> length x = length out' + length rest"
proof (induction x arbitrary: cap n out r rule: measure_induct_rule [of length])
  case (less x)
  let ?B = CBC512_BLOCK_SIZE
  show ?case
  proof (cases "?B < length x")
    case False
    then show ?thesis
      using p less.prems by (simp add: cbc512_encrypt_loop.simps text512_small)
  next
    case True
    let ?e = "cbc512_crypt p n (take ?B x)"
    have blk: "cbc512_EncryptBlock p (Some (take ?B x)) n False (Some cap) = Inr ?e" "length ?e = ?B"
      using True by (simp_all add: Block512 [OF p] CBC512_BLOCK_SIZE_def)
    have num: "n + 1 < 2 ^ 32" "add32 n 1 = n + 1" "?B \<le> cap"
      using less.prems(2,3) step_number [OF True] by simp_all
    have "\<exists>rest cap' n' out'.
      cbc512_encrypt_loop p (drop ?B x) (cap - ?B) (n + 1) (out @ ?e) (r + ?B) =
        Inr (rest, cap', n', (out @ ?e) @ out', r + ?B + length out') \<and>
      length rest \<le> ?B \<and> length rest mod 16 = 0 \<and>
      cbc512_text p (n + 1) (drop ?B x) = out' @ cbc512_crypt p n' rest \<and>
      length (drop ?B x) = length out' + length rest"
    proof (rule less.IH)
      show "length (drop ?B x) mod 16 = 0" by (rule aligned_rest) (rule less.prems)
      show "(length (drop ?B x) - 1) div ?B * ?B \<le> cap - ?B"
        using less.prems(2) step_number [OF True] by (simp add: le_diff_conv2 num add.commute)
    qed (use True less.prems(3) step_number [OF True] in \<open>simp_all add: CBC512_BLOCK_SIZE_def\<close>)
    then obtain rest cap' n' out' where
      IH: "cbc512_encrypt_loop p (drop ?B x) (cap - ?B) (n + 1) (out @ ?e) (r + ?B) =
        Inr (rest, cap', n', (out @ ?e) @ out', r + ?B + length out')"
        "length rest \<le> ?B" "length rest mod 16 = 0"
        "cbc512_text p (n + 1) (drop ?B x) = out' @ cbc512_crypt p n' rest"
        "length (drop ?B x) = length out' + length rest"
      by (elim exE conjE)
    have "cbc512_encrypt_loop p x cap n out r = Inr (rest, cap', n', out @ (?e @ out'), r + length (?e @ out'))"
      using encrypt512_step [OF True num(3) blk(1)] IH(1) blk(2) num(2) by simp
    moreover have "cbc512_text p n x = (?e @ out') @ cbc512_crypt p n' rest"
      using IH(4) True by (simp add: cipher_text_step CBC512_BLOCK_SIZE_def)
    moreover have "length x = length (?e @ out') + length rest"
      using IH(5) blk(2) True by simp
    ultimately show ?thesis using IH(2,3)
      by (intro exI [of _ rest] exI [of _ cap'] exI [of _ n'] exI [of _ "?e @ out'"]) simp
  qed
qed

lemma Encrypt512_text:
  assumes p: "cbc512_valid p" and x: "length x mod 16 = 0" 
    and cap: "(length x - 1) div CBC512_BLOCK_SIZE * CBC512_BLOCK_SIZE \<le> cap"
    and n: "n + (length x - 1) div CBC512_BLOCK_SIZE < 2 ^ 32"
    and f: "final \<or> length x mod CBC512_BLOCK_SIZE = 0"
  shows "cbc512_Encrypt p (Some x) n final (Some cap) False = Inr (cbc512_text p n x, length x)"
proof -
  obtain rest cap' n' out' where
    "cbc512_encrypt_loop p x cap n [] 0 = Inr (rest, cap', n', [] @ out', 0 + length out')"
    "length rest \<le> CBC512_BLOCK_SIZE" "length rest mod 16 = 0"
    "cbc512_text p n x = out' @ cbc512_crypt p n' rest" "length x = length out' + length rest"
    using encrypt512_run [OF p x cap n, of "[]" 0] by (elim exE conjE)
  then show ?thesis
    using f x by (auto simp: cbc512_Encrypt_def Block512 [OF p] AES128_BLOCK_SIZE_def)
qed

lemma decrypt512_step:
  assumes "CBC512_BLOCK_SIZE \<le> length x" and "CBC512_BLOCK_SIZE \<le> cap"
    and "cbc512_DecryptBlock p (Some (take CBC512_BLOCK_SIZE x)) n False (Some cap) = Inr y"
  shows "cbc512_decrypt_loop p x cap n out r =
    cbc512_decrypt_loop p (drop CBC512_BLOCK_SIZE x) (cap - CBC512_BLOCK_SIZE) (add32 n 1)
      (out @ y) (r + CBC512_BLOCK_SIZE)"
  using assms by (subst cbc512_decrypt_loop.simps) simp

lemma length_text512:
  assumes p: "cbc512_valid p"
  shows "length x mod 16 = 0 \<Longrightarrow> length (cbc512_text p n x) = length x"
proof (induction x arbitrary: n rule: measure_induct_rule [of length])
  case (less x)
  show ?case
  proof (cases "CBC512_BLOCK_SIZE \<le> length x")
    case False
    then show ?thesis using less.prems by (simp add: cipher_text_short Block512 [OF p])
  next
    case True
    have "length (cbc512_text p (Suc n) (drop CBC512_BLOCK_SIZE x)) = length (drop CBC512_BLOCK_SIZE x)"
      using True by (intro less.IH aligned_rest less.prems) (simp add: CBC512_BLOCK_SIZE_def)
    moreover have "length (cbc512_crypt p n (take CBC512_BLOCK_SIZE x)) = CBC512_BLOCK_SIZE"
      using True by (simp add: Block512 [OF p] CBC512_BLOCK_SIZE_def)
    ultimately show ?thesis
      using True by (simp add: cipher_text_step CBC512_BLOCK_SIZE_def)
  qed
qed

text \<open>Decryption takes whole blocks while there are any; what is left is shorter.\<close>

lemma decrypt512_run:
  assumes p: "cbc512_valid p"
  shows "length x mod 16 = 0 \<Longrightarrow> length x \<le> cap \<Longrightarrow>
    n + (length x - 1) div CBC512_BLOCK_SIZE < 2 ^ 32 \<Longrightarrow>
    \<exists>rest cap' n' out'.
      cbc512_decrypt_loop p (cbc512_text p n x) cap n out r =
        Inr (cbc512_crypt p n' rest, cap', n', out @ out', r + length out') \<and>
      length rest < CBC512_BLOCK_SIZE \<and> length rest mod 16 = 0 \<and> x = out' @ rest \<and>
      length out' mod CBC512_BLOCK_SIZE = 0"
proof (induction x arbitrary: cap n out r rule: measure_induct_rule [of length])
  case (less x)
  let ?B = CBC512_BLOCK_SIZE
  show ?case
  proof (cases "?B \<le> length x")
    case False
    then show ?thesis
      using less.prems
      by (intro exI [of _ x] exI [of _ cap] exI [of _ n] exI [of _ "[]"])
        (simp add: cbc512_decrypt_loop.simps cipher_text_short Block512 [OF p])
  next
    case True
    let ?e = "cbc512_crypt p n (take ?B x)" and ?t = "cbc512_text p (Suc n) (drop ?B x)"
    have e: "cbc512_DecryptBlock p (Some ?e) n False (Some cap) = Inr (take ?B x)" "length ?e = ?B"
      using True by (simp_all add: Block512 [OF p] CBC512_BLOCK_SIZE_def)
    have ct: "cbc512_text p n x = ?e @ ?t"
      using True by (simp add: cipher_text_step CBC512_BLOCK_SIZE_def)
    have step: "cbc512_decrypt_loop p (?e @ ?t) cap n out r =
        cbc512_decrypt_loop p ?t (cap - ?B) (add32 n 1) (out @ take ?B x) (r + ?B)"
      using decrypt512_step [of "?e @ ?t" cap p n "take ?B x" out r] e True less.prems(2) by simp
    show ?thesis
    proof (cases "length x = ?B")
      case True
      then have "?t = []" using p by (simp add: cipher_text_short crypt512_Nil CBC512_BLOCK_SIZE_def)
      then have "cbc512_decrypt_loop p (?e @ ?t) cap n out r =
          Inr (cbc512_crypt p (add32 n 1) [], cap - ?B, add32 n 1, out @ x, r + length x)"
        using step True p
        by (simp add: cbc512_decrypt_loop.simps crypt512_Nil CBC512_BLOCK_SIZE_def)
      then show ?thesis
        unfolding ct using True
        by (intro exI [of _ "[]"] exI [of _ "cap - ?B"] exI [of _ "add32 n 1"] exI [of _ x])
          (simp add: CBC512_BLOCK_SIZE_def)
    next
      case False
      then have big: "?B < length x" using True by simp
      have num: "n + 1 < 2 ^ 32" "add32 n 1 = Suc n"
        using less.prems(3) step_number [OF big] by simp_all
      have "\<exists>rest cap' n' out'.
        cbc512_decrypt_loop p ?t (cap - ?B) (Suc n) (out @ take ?B x) (r + ?B) =
          Inr (cbc512_crypt p n' rest, cap', n', (out @ take ?B x) @ out', r + ?B + length out') \<and>
        length rest < ?B \<and> length rest mod 16 = 0 \<and> drop ?B x = out' @ rest \<and>
        length out' mod ?B = 0"
      proof (rule less.IH)
        show "length (drop ?B x) mod 16 = 0" by (rule aligned_rest) (rule less.prems)
      qed (use True less.prems(2,3) step_number [OF big] in \<open>simp_all add: CBC512_BLOCK_SIZE_def\<close>)
      then obtain rest cap' n' out' where IH:
        "cbc512_decrypt_loop p ?t (cap - ?B) (Suc n) (out @ take ?B x) (r + ?B) =
          Inr (cbc512_crypt p n' rest, cap', n', (out @ take ?B x) @ out', r + ?B + length out')"
        "length rest < ?B" "length rest mod 16 = 0" "drop ?B x = out' @ rest" "length out' mod ?B = 0"
        by (elim exE conjE)
      have "x = (take ?B x @ out') @ rest" using IH(4) by (metis append_assoc append_take_drop_id)
      moreover have "length (take ?B x @ out') mod ?B = 0" using IH(5) True by simp
      moreover have "cbc512_decrypt_loop p (?e @ ?t) cap n out r =
          Inr (cbc512_crypt p n' rest, cap', n', out @ (take ?B x @ out'), r + length (take ?B x @ out'))"
        using step num(2) IH(1) True by (simp add: add.assoc)
      ultimately show ?thesis unfolding ct using IH(2,3)
        by (intro exI [of _ rest] exI [of _ cap'] exI [of _ n'] exI [of _ "take ?B x @ out'"]) simp
    qed
  qed
qed

lemma Decrypt512_text:
  assumes p: "cbc512_valid p" and x: "length x mod 16 = 0" and cap: "length x \<le> cap"
    and n: "n + (length x - 1) div CBC512_BLOCK_SIZE < 2 ^ 32"
    and f: "final \<or> length x mod CBC512_BLOCK_SIZE = 0"
  shows "cbc512_Decrypt p (Some (cbc512_text p n x)) n final (Some cap) False = Inr (x, length x)"
proof -
  obtain rest cap' n' out' where run:
    "cbc512_decrypt_loop p (cbc512_text p n x) cap n [] 0 =
      Inr (cbc512_crypt p n' rest, cap', n', [] @ out', 0 + length out')"
    "length rest < CBC512_BLOCK_SIZE" "length rest mod 16 = 0" "x = out' @ rest"
    "length out' mod CBC512_BLOCK_SIZE = 0"
    using decrypt512_run [OF p x cap n, of "[]" 0] by (elim exE conjE)
  have rest: "rest = [] \<or> final \<and> 16 \<le> length rest"
  proof (cases "length rest = 0")
    case False
    then have "16 \<le> length rest" using run(3) by (metis linorder_not_less mod_less)
    moreover have "length x mod CBC512_BLOCK_SIZE = length rest"
      using run(2,4,5) by (metis add_0 length_append mod_add_left_eq mod_less)
    ultimately show ?thesis using False f by auto
  qed simp
  have "\<not> cap < length (cbc512_text p n x)" "length (cbc512_text p n x) mod 16 = 0"
    "final \<or> length (cbc512_text p n x) mod CBC512_BLOCK_SIZE = 0"
    using cap f x by (simp_all add: length_text512 [OF p x])
  note facts = this
  from rest show ?thesis
  proof
    assume "rest = []"
    then show ?thesis
      unfolding cbc512_Decrypt_def using facts run(1,4)
      by (simp add: AES128_BLOCK_SIZE_def crypt512_Nil [OF p])
  next
    assume r: "final \<and> 16 \<le> length rest"
    then have "length (cbc512_crypt p n' rest) \<noteq> 0" using run(3) by (simp only: Block512 [OF p]) auto
    then have "cbc512_crypt p n' rest \<noteq> []" by simp
    with r show ?thesis
      unfolding cbc512_Decrypt_def using facts run(1,3,4)
      by (simp add: AES128_BLOCK_SIZE_def Block512 [OF p])
  qed
qed

section \<open>The provider keeps the contract\<close>

interpretation cbc512: aligned_provider cbc512_valid cbc512_vtable CBC512_BLOCK_SIZE
  cbc512_crypt cbc512_crypt "\<lambda>l. l mod 16 = 0"
proof
  show "0 < CBC512_BLOCK_SIZE" "CBC512_BLOCK_SIZE < 2 ^ 31" "CBC512_BLOCK_SIZE mod 16 = 0"
    by (simp_all add: CBC512_BLOCK_SIZE_def)
next
  fix l :: nat
  assume "l mod 16 = 0"
  then show "l mod CBC512_BLOCK_SIZE mod 16 = 0"
    by (simp add: CBC512_BLOCK_SIZE_def mod_mod_cancel)
next
  fix p and n :: nat and x :: "byte list"
  assume "cbc512_valid p" "length x = CBC512_BLOCK_SIZE"
  then show "length (cbc512_crypt p n x) = CBC512_BLOCK_SIZE"
    by (simp add: Block512 CBC512_BLOCK_SIZE_def)
next
  fix p and n :: nat and x :: "byte list"
  assume "cbc512_valid p" "length x < CBC512_BLOCK_SIZE" "length x mod 16 = 0"
  then show "length x \<le> length (cbc512_crypt p n x) \<and> length (cbc512_crypt p n x) \<le> CBC512_BLOCK_SIZE"
    "length (cbc512_crypt p n x) = length x"
    by (simp_all add: Block512)
next
  fix p and n :: nat and x :: "byte list"
  assume "cbc512_valid p" "0 < length x" "length x \<le> CBC512_BLOCK_SIZE" "length x mod 16 = 0"
  moreover from this have "length x < 2 ^ 32" "length (cbc512_text p n x) = length x"
    by (simp_all only: length_text512) (simp add: CBC512_BLOCK_SIZE_def)
  ultimately show "\<exists>k. cp_GetCipherTextSize (cbc512_vtable p) (length x) = Inr k \<and> k < 2 ^ 32 \<and>
      length (cbc512_text p n x) \<le> k"
    by (simp add: cbc512_vtable_def cbc512_GetCipherTextSize_def AES128_BLOCK_SIZE_def)
next
  fix p and n cap :: nat and x :: "byte list"
  assume p: "cbc512_valid p" and x: "length x = CBC512_BLOCK_SIZE" "CBC512_BLOCK_SIZE \<le> cap" "n < 2 ^ 32"
  have m: "length x mod 16 = 0" "(length x - 1) div CBC512_BLOCK_SIZE = 0"
    using x(1) by (simp_all add: CBC512_BLOCK_SIZE_def)
  have t: "cbc512_text p n x = cbc512_crypt p n x" using p x(1) by (simp add: text512_small)
  show "cp_Encrypt (cbc512_vtable p) (Some x) n False (Some cap) False =
      Inr (cbc512_crypt p n x, CBC512_BLOCK_SIZE)"
    using Encrypt512_text [OF p m(1), of cap n False] m x t by (simp add: cbc512_vtable_def)
  show "cp_Decrypt (cbc512_vtable p) (Some (cbc512_crypt p n x)) n False (Some cap) False =
      Inr (x, CBC512_BLOCK_SIZE)"
    using Decrypt512_text [OF p m(1), of cap n False] m x t by (simp add: cbc512_vtable_def)
next
  fix p and n cap :: nat and x :: "byte list"
  assume p: "cbc512_valid p" and x: "length x \<le> CBC512_BLOCK_SIZE" "length x mod 16 = 0"
    and n: "n + 1 < 2 ^ 32"
  have m: "(length x - 1) div CBC512_BLOCK_SIZE = 0"
    using x(1) by (simp add: CBC512_BLOCK_SIZE_def)
  show "cp_Encrypt (cbc512_vtable p) (Some x) n True (Some cap) False =
      Inr (cbc512_text p n x, length (cbc512_text p n x))"
    using Encrypt512_text [OF p x(2), of cap n True] m n
    by (simp add: cbc512_vtable_def length_text512 [OF p x(2)])
  show "cp_Decrypt (cbc512_vtable p) (Some (cbc512_text p n x)) n True (Some cap) False =
      Inr (x, length x)" if "CBC512_BLOCK_SIZE \<le> cap"
    using Decrypt512_text [OF p x(2), of cap n True] m n x that by (simp add: cbc512_vtable_def)
qed simp_all

section \<open>Properties\<close>

text \<open>
  Encryption keeps the length of every input that is a whole number of 16-byte cipher
  blocks, and decryption gives the input back, for a final run over any such input and
  for a non-final run over whole 512-byte blocks.
\<close>

theorem cbc512_roundtrip:
  assumes "cbc512_valid p" and "length x mod 16 = 0"
    and "final \<or> length x mod CBC512_BLOCK_SIZE = 0"
    and "n + (length x - 1) div CBC512_BLOCK_SIZE < 2 ^ 32"
  shows "\<exists>c. cbc512_Encrypt p (Some x) n final (Some (length x)) False = Inr (c, length x) \<and>
    length c = length x \<and>
    cbc512_Decrypt p (Some c) n final (Some (length c)) False = Inr (x, length x)"
proof -
  have "(length x - 1) div CBC512_BLOCK_SIZE * CBC512_BLOCK_SIZE \<le> length x"
    by (meson diff_le_self div_times_less_eq_dividend le_trans)
  then show ?thesis
    using assms Encrypt512_text [of p x "length x" n final] Decrypt512_text [of p x "length x" n final]
    by (simp add: length_text512)
qed

theorem cbc512_roundtrip_witness:
  "\<exists>c. cbc512_Encrypt (cbc512_of xor_evp (replicate 16 7)) (Some (replicate 32 1)) 3 True
       (Some (length (replicate 32 (1::byte)))) False = Inr (c, length (replicate 32 (1::byte))) \<and>
    length c = length (replicate 32 (1::byte)) \<and>
    cbc512_Decrypt (cbc512_of xor_evp (replicate 16 7)) (Some c) 3 True (Some (length c)) False =
      Inr (replicate 32 1, length (replicate 32 (1::byte)))"
  by (rule cbc512_roundtrip)
    (simp_all add: cbc512_of_valid xor_evp_ok valid_key_def CBC512_BLOCK_SIZE_def)

text \<open>
  The encryption of the last block never looks at the capacity of the output buffer.
  For any input of at most one 512-byte block, a call that announces a buffer of any
  size, zero included, succeeds and stores as many bytes as the input has. Decryption
  with a buffer that is too small is refused.
\<close>

theorem cbc512_last_block_ignores_capacity:
  assumes "cbc512_valid p" and "x \<noteq> []" and "length x \<le> CBC512_BLOCK_SIZE"
    and "length x mod 16 = 0" and "n < 2 ^ 32" and "cap < length x"
  shows "\<exists>c. cbc512_Encrypt p (Some x) n True (Some cap) False = Inr (c, length c) \<and>
    cap < length c \<and>
    cbc512_Decrypt p (Some c) n True (Some cap) False =
      Inl (RMSCryptoInsufficientBufferException ''Insufficient buffer'')"
proof -
  have "(length x - 1) div CBC512_BLOCK_SIZE = 0"
    using assms(2,3) by (cases x) (simp_all add: CBC512_BLOCK_SIZE_def)
  then have "cbc512_Encrypt p (Some x) n True (Some cap) False = Inr (cbc512_text p n x, length x)"
    using assms by (intro Encrypt512_text) simp_all
  moreover have "length (cbc512_text p n x) = length x" using assms by (simp add: length_text512)
  ultimately show ?thesis
    using assms(4,6) by (simp add: cbc512_Decrypt_def AES128_BLOCK_SIZE_def)
qed

theorem cbc512_last_block_ignores_capacity_witness:
  "\<exists>c. cbc512_Encrypt (cbc512_of xor_evp (replicate 16 7)) (Some (replicate 16 1)) 0 True (Some 0) False =
      Inr (c, length c) \<and> 0 < length c \<and>
    cbc512_Decrypt (cbc512_of xor_evp (replicate 16 7)) (Some c) 0 True (Some 0) False =
      Inl (RMSCryptoInsufficientBufferException ''Insufficient buffer'')"
  by (rule cbc512_last_block_ignores_capacity)
    (simp_all add: cbc512_of_valid xor_evp_ok valid_key_def CBC512_BLOCK_SIZE_def)

end
