(* ===== verification/Ecb.thy ===== *)
theory Ecb
  imports CryptoProvider
begin

text \<open>
  The provider of cipher mode ECB (\<open>sdk/rmscrypto_sdk/Crypto/EcbCryptoProvider.cpp\<close>),
  used for documents protected before CBC was introduced: one key, no initial vector and no
  padding, so every input must be a whole number of cipher blocks.
\<close>

section \<open>State, construction and operations\<close>

record EcbCryptoProvider =
  ec_lib :: evp
  ec_Key :: AESCryptoKey
  ec_key :: "byte list"

definition EcbCryptoProvider_create :: "evp \<Rightarrow> byte list \<Rightarrow> exn + EcbCryptoProvider" where
  "EcbCryptoProvider_create lib key =
     bindE (CreateKey key CRYPTO_ALGORITHM_AES_ECB) (\<lambda>k.
       Inr \<lparr>ec_lib = lib, ec_Key = k, ec_key = key\<rparr>)"

text \<open>
  \<open>*pcbOut\<close> is set to the input's size before the capacity is checked. The key's
  \<open>Encrypt\<close> updates only the local \<open>cbOut\<close>.
\<close>

definition ecb_Encrypt :: "EcbCryptoProvider \<Rightarrow> crypt_op" where
  "ecb_Encrypt p pbIn blk isFinal pbOut pcbOutNull =
     (case pbIn of
        None \<Rightarrow> Inl (RMSCryptoNullPointerException ''Null pointer pbIn exception'')
      | Some inp \<Rightarrow>
        if length inp mod AES128_BLOCK_SIZE \<noteq> 0
        then Inl (RMSCryptoInvalidArgumentException ''Block is not aligned'')
        else if pcbOutNull
        then Inl (RMSCryptoNullPointerException ''Null pointer pcbOut exception'')
        else
          case pbOut of
            None \<Rightarrow> Inr ([], length inp)
          | Some cbOut \<Rightarrow>
            if cbOut < length inp
            then Inl (RMSCryptoInsufficientBufferException ''Insufficient buffer'')
            else
              bindE (AES_Encrypt (ec_lib p) (ec_Key p) (Some inp) False cbOut None)
                (\<lambda>y. Inr (y, length inp)))"

definition ecb_Decrypt :: "EcbCryptoProvider \<Rightarrow> crypt_op" where
  "ecb_Decrypt p pbIn blk isFinal pbOut pcbOutNull =
     (case pbIn of
        None \<Rightarrow> Inl (RMSCryptoNullPointerException ''Null pointer pbIn exception'')
      | Some inp \<Rightarrow>
        if length inp mod AES128_BLOCK_SIZE \<noteq> 0
        then Inl (RMSCryptoInvalidArgumentException ''Block is not aligned'')
        else if pcbOutNull
        then Inl (RMSCryptoNullPointerException ''Null pointer pcbOut exception'')
        else
          case pbOut of
            None \<Rightarrow> Inr ([], length inp)
          | Some cbOut \<Rightarrow>
            if cbOut < length inp
            then Inl (RMSCryptoInsufficientBufferException ''Insufficient buffer'')
            else
              bindE (AES_Decrypt (ec_lib p) (ec_Key p) (Some inp) False cbOut None)
                (\<lambda>y. Inr (y, length inp)))"

definition ecb_GetCipherTextSize :: "nat \<Rightarrow> exn + nat" where
  "ecb_GetCipherTextSize n = Inr n"

definition ecb_vtable :: "EcbCryptoProvider \<Rightarrow> ICryptoProvider" where
  "ecb_vtable p =
     \<lparr>cp_Encrypt = ecb_Encrypt p, cp_Decrypt = ecb_Decrypt p,
      cp_GetCipherTextSize = ecb_GetCipherTextSize, cp_GetBlockSize = AES128_BLOCK_SIZE,
      cp_GetKey = ec_key p\<rparr>"

section \<open>A provider in working order\<close>

definition ecb_valid :: "EcbCryptoProvider \<Rightarrow> bool" where
  "ecb_valid p \<longleftrightarrow>
     evp_ok (ec_lib p) \<and> valid_key (ec_key p) \<and>
     ec_Key p = \<lparr>ak_key = ec_key p, ak_algorithm = CRYPTO_ALGORITHM_AES_ECB\<rparr>"

definition ecb_of :: "evp \<Rightarrow> byte list \<Rightarrow> EcbCryptoProvider" where
  "ecb_of lib key =
     \<lparr>ec_lib = lib, ec_Key = \<lparr>ak_key = key, ak_algorithm = CRYPTO_ALGORITHM_AES_ECB\<rparr>, ec_key = key\<rparr>"

lemma ecb_of_valid: "evp_ok lib \<Longrightarrow> valid_key key \<Longrightarrow> ecb_valid (ecb_of lib key)"
  by (simp add: ecb_valid_def ecb_of_def)

lemma ecb_create_of: "valid_key key \<Longrightarrow> EcbCryptoProvider_create lib key = Inr (ecb_of lib key)"
  by (auto simp: EcbCryptoProvider_create_def CreateKey_def AESCryptoKey_create_def
      ecb_of_def valid_key_def)

text \<open>The ciphertext of any aligned input. The block number plays no part.\<close>

definition ecb_crypt :: "EcbCryptoProvider \<Rightarrow> nat \<Rightarrow> byte list \<Rightarrow> byte list" where
  "ecb_crypt p n x =
     (case AES_Encrypt (ec_lib p) (ec_Key p) (Some x) False (length x) None of
        Inl e \<Rightarrow> [] | Inr y \<Rightarrow> y)"

lemma ecb_ops:
  assumes p: "ecb_valid p" and x: "length x mod 16 = 0"
  shows "length x \<le> cap \<Longrightarrow>
      ecb_Encrypt p (Some x) n final (Some cap) False = Inr (ecb_crypt p m x, length x)"
    and "length (ecb_crypt p m x) = length x"
    and "length x \<le> cap \<Longrightarrow>
      ecb_Decrypt p (Some (ecb_crypt p m x)) n final (Some cap) False = Inr (x, length x)"
proof -
  obtain y where y: "\<And>cb. TransformBlock (ec_lib p) (ec_Key p) True (Some x) False cb None = Inr y"
    and len: "length y = length x"
    and dec: "\<And>cb. TransformBlock (ec_lib p) (ec_Key p) False (Some y) False cb None = Inr x"
    using p x
    by (elim TransformBlock_unpadded [of "ec_lib p" "ec_Key p" x None "[]", rotated -1])
      (auto simp: ecb_valid_def)
  then have c: "ecb_crypt p m x = y" by (simp add: ecb_crypt_def AES_Encrypt_def)
  show "ecb_Encrypt p (Some x) n final (Some cap) False = Inr (ecb_crypt p m x, length x)"
    if "length x \<le> cap"
    using that x c y by (simp add: ecb_Encrypt_def AES_Encrypt_def AES128_BLOCK_SIZE_def)
  show "length (ecb_crypt p m x) = length x" using c len by simp
  show "ecb_Decrypt p (Some (ecb_crypt p m x)) n final (Some cap) False = Inr (x, length x)"
    if "length x \<le> cap"
    using that x c len dec by (simp add: ecb_Decrypt_def AES_Decrypt_def AES128_BLOCK_SIZE_def)
qed

text \<open>The protected streams use this provider with blocks of 4096 bytes.\<close>

definition ECB_STREAM_BLOCK_SIZE :: nat where "ECB_STREAM_BLOCK_SIZE = 4096"

lemma ecb_text:
  assumes p: "ecb_valid p" and "length x \<le> ECB_STREAM_BLOCK_SIZE"
  shows "cipher_text ECB_STREAM_BLOCK_SIZE (ecb_crypt p) (ecb_crypt p) n x = ecb_crypt p n x"
proof (cases "length x = ECB_STREAM_BLOCK_SIZE")
  case True
  have "ecb_crypt p (Suc n) [] = []" using ecb_ops(2) [OF p, of "[]" "Suc n"] by simp
  with True show ?thesis by (simp add: cipher_text_step cipher_text_short ECB_STREAM_BLOCK_SIZE_def)
qed (use assms in \<open>simp add: cipher_text_short\<close>)

interpretation ecb: aligned_provider ecb_valid ecb_vtable ECB_STREAM_BLOCK_SIZE ecb_crypt ecb_crypt
  "\<lambda>l. l mod 16 = 0"
proof
  show "0 < ECB_STREAM_BLOCK_SIZE" "ECB_STREAM_BLOCK_SIZE < 2 ^ 31" "ECB_STREAM_BLOCK_SIZE mod 16 = 0"
    by (simp_all add: ECB_STREAM_BLOCK_SIZE_def)
next
  fix l :: nat
  assume "l mod 16 = 0"
  then show "l mod ECB_STREAM_BLOCK_SIZE mod 16 = 0"
    by (simp add: ECB_STREAM_BLOCK_SIZE_def mod_mod_cancel)
next
  fix p and n :: nat and x :: "byte list"
  assume "ecb_valid p" "length x = ECB_STREAM_BLOCK_SIZE"
  then show "length (ecb_crypt p n x) = ECB_STREAM_BLOCK_SIZE"
    using ecb_ops(2) [of p x n] by (simp add: ECB_STREAM_BLOCK_SIZE_def)
next
  fix p and n :: nat and x :: "byte list"
  assume "ecb_valid p" "length x < ECB_STREAM_BLOCK_SIZE" "length x mod 16 = 0"
  then show "length x \<le> length (ecb_crypt p n x) \<and> length (ecb_crypt p n x) \<le> ECB_STREAM_BLOCK_SIZE"
    "length (ecb_crypt p n x) = length x"
    by (simp_all add: ecb_ops(2))
next
  fix p and n :: nat and x :: "byte list"
  assume "ecb_valid p" "0 < length x" "length x \<le> ECB_STREAM_BLOCK_SIZE" "length x mod 16 = 0"
  then show "\<exists>k. cp_GetCipherTextSize (ecb_vtable p) (length x) = Inr k \<and> k < 2 ^ 32 \<and>
      length (cipher_text ECB_STREAM_BLOCK_SIZE (ecb_crypt p) (ecb_crypt p) n x) \<le> k"
    by (simp add: ecb_text ecb_ops(2) ecb_vtable_def ecb_GetCipherTextSize_def)
      (simp add: ECB_STREAM_BLOCK_SIZE_def)
next
  fix p and n cap :: nat and x :: "byte list"
  assume p: "ecb_valid p" and x: "length x = ECB_STREAM_BLOCK_SIZE" "ECB_STREAM_BLOCK_SIZE \<le> cap"
  then have "length x mod 16 = 0" by (simp add: ECB_STREAM_BLOCK_SIZE_def)
  with p x show "cp_Encrypt (ecb_vtable p) (Some x) n False (Some cap) False =
      Inr (ecb_crypt p n x, ECB_STREAM_BLOCK_SIZE)"
    "cp_Decrypt (ecb_vtable p) (Some (ecb_crypt p n x)) n False (Some cap) False =
      Inr (x, ECB_STREAM_BLOCK_SIZE)"
    by (simp_all add: ecb_vtable_def ecb_ops(1) [OF p, where m = n] ecb_ops(3) [OF p])
next
  fix p and n cap :: nat and x :: "byte list"
  assume p: "ecb_valid p" and x: "length x \<le> ECB_STREAM_BLOCK_SIZE" "length x mod 16 = 0"
  note text_is = ecb_text [OF p x(1)] and ops = ecb_ops [OF p x(2)]
  show "cp_Encrypt (ecb_vtable p) (Some x) n True (Some cap) False =
      Inr (cipher_text ECB_STREAM_BLOCK_SIZE (ecb_crypt p) (ecb_crypt p) n x,
           length (cipher_text ECB_STREAM_BLOCK_SIZE (ecb_crypt p) (ecb_crypt p) n x))"
    if "length (cipher_text ECB_STREAM_BLOCK_SIZE (ecb_crypt p) (ecb_crypt p) n x) \<le> cap"
    using that ops by (simp add: text_is ecb_vtable_def)
  show "cp_Decrypt (ecb_vtable p) (Some (cipher_text ECB_STREAM_BLOCK_SIZE (ecb_crypt p) (ecb_crypt p) n x)) n
      True (Some cap) False = Inr (x, length x)"
    if "ECB_STREAM_BLOCK_SIZE \<le> cap"
    using that x ops by (simp add: text_is ecb_vtable_def)
qed simp_all

section \<open>Properties\<close>

text \<open>
  An ECB encryption of whole cipher blocks keeps the length and needs no larger buffer
  than the input, and its ciphertext decrypts to the input whatever block number and final
  flag the two calls are given; a buffer one byte too short is refused.
\<close>

theorem ecb_roundtrip:
  assumes "ecb_valid p" and "length x mod 16 = 0" and "length x \<le> cap"
  shows "\<exists>c. ecb_Encrypt p (Some x) n f (Some cap) False = Inr (c, length x) \<and> length c = length x \<and>
    (\<forall>m g. ecb_Decrypt p (Some c) m g (Some cap) False = Inr (x, length x)) \<and>
    (x = [] \<or> ecb_Encrypt p (Some x) n f (Some (length x - 1)) False =
      Inl (RMSCryptoInsufficientBufferException ''Insufficient buffer''))"
proof -
  have "x = [] \<or> length x - 1 < length x" by (cases x) simp_all
  then have "x = [] \<or> ecb_Encrypt p (Some x) n f (Some (length x - 1)) False =
      Inl (RMSCryptoInsufficientBufferException ''Insufficient buffer'')"
    using assms(2) by (auto simp: ecb_Encrypt_def AES128_BLOCK_SIZE_def)
  then show ?thesis
    using ecb_ops [OF assms(1,2)] assms(3) by (intro exI [of _ "ecb_crypt p n x"]) simp
qed

theorem ecb_roundtrip_witness:
  "\<exists>c. ecb_Encrypt (ecb_of xor_evp (replicate 16 7)) (Some (replicate 16 1)) 0 True (Some 16) False =
      Inr (c, length (replicate 16 (1::byte))) \<and> length c = length (replicate 16 (1::byte)) \<and>
    (\<forall>m g. ecb_Decrypt (ecb_of xor_evp (replicate 16 7)) (Some c) m g (Some 16) False =
      Inr (replicate 16 1, length (replicate 16 (1::byte)))) \<and>
    (replicate 16 (1::byte) = [] \<or>
     ecb_Encrypt (ecb_of xor_evp (replicate 16 7)) (Some (replicate 16 1)) 0 True
        (Some (length (replicate 16 (1::byte)) - 1)) False =
      Inl (RMSCryptoInsufficientBufferException ''Insufficient buffer''))"
  by (rule ecb_roundtrip) (simp_all add: ecb_of_valid xor_evp_ok valid_key_def)

end
