(* ===== verification/IStream.thy ===== *)
theory IStream
  imports Exceptions
begin

text \<open>
  The interface \<open>IStream\<close> (\<open>sdk/rmscrypto_sdk/CryptoAPI/IStream.h\<close>) that
  every stream of the SDK implements, as a table of virtual methods over the stream's
  state, with the one method the interface itself defines, and the contract a
  random-access stream keeps towards its clients. An asynchronous method is modelled with
  the wait for its result: \<open>xAsync(..., std::launch::deferred).get()\<close>, the way the SDK
  calls it. Buffers are present and as long as the sizes passed with them.
\<close>

record 's IStream =
  is_ReadAsync :: "nat \<Rightarrow> nat \<Rightarrow> (exn, 's, byte list) sx"
  is_WriteAsync :: "byte list \<Rightarrow> nat \<Rightarrow> (exn, 's, nat) sx"
  is_FlushAsync :: "(exn, 's, bool) sx"
  is_Read :: "nat \<Rightarrow> (exn, 's, byte list) sx"
  is_Write :: "byte list \<Rightarrow> (exn, 's, nat) sx"
  is_Flush :: "(exn, 's, bool) sx"
  is_Clone :: "(exn, 's, 's) sx"
  is_Seek :: "nat \<Rightarrow> (exn, 's, unit) sx"
  is_CanRead :: "(exn, 's, bool) sx"
  is_CanWrite :: "(exn, 's, bool) sx"
  is_Position :: "(exn, 's, nat) sx"
  is_Size :: "(exn, 's, nat) sx"
  is_SetSize :: "nat \<Rightarrow> (exn, 's, unit) sx"

text \<open>
  \<open>Read(uint64_t)\<close> passes the size on as an \<open>int\<close>. A size that narrows to a
  negative number reads nothing.
\<close>

definition narrow_int :: "nat \<Rightarrow> nat" where
  "narrow_int n = (if n mod 2 ^ 32 < 2 ^ 31 then n mod 2 ^ 32 else 0)"

definition IStream_Read :: "'s IStream \<Rightarrow> nat \<Rightarrow> (exn, 's, byte list) sx" where
  "IStream_Read ops u64size =
     (if 0 < u64size then is_Read ops (narrow_int u64size) else ret [])"

lemma narrow_int_small [simp]: "n < 2 ^ 31 \<Longrightarrow> narrow_int n = n"
  by (simp add: narrow_int_def)

text \<open>A mutex held for the duration of a scope, released on a return and on a throw.\<close>

definition with_mutex ::
  "('s \<Rightarrow> bool) \<Rightarrow> (bool \<Rightarrow> 's \<Rightarrow> 's) \<Rightarrow> (exn, 's, 'a) sx \<Rightarrow> (exn, 's, 'a) sx" where
  "with_mutex held set_held m s =
     (if held s then (Inl MutexRelocked, s)
      else case m (set_held True s) of (r, t) \<Rightarrow> (r, set_held False t))"

lemma with_mutex_free [sx_simps]:
  "\<not> held s \<Longrightarrow> with_mutex held set_held m s = (case m (set_held True s) of (r, t) \<Rightarrow> (r, set_held False t))"
  by (simp add: with_mutex_def)

section \<open>The contract of a random-access stream\<close>

text \<open>
  \<open>cont\<close> is the stream's content, \<open>at s p\<close> says that the next sequential read or
  write is at offset \<open>p\<close>, and \<open>lim\<close> bounds the content's length. The laws are about
  reads that stay inside the content; a read past the end may put a stream out of order.
\<close>

locale random_access_stream =
  fixes ops :: "'s IStream"
    and inv :: "'s \<Rightarrow> bool"
    and cont :: "'s \<Rightarrow> byte list"
    and at :: "'s \<Rightarrow> nat \<Rightarrow> bool"
    and writable :: "'s \<Rightarrow> bool"
    and lim :: nat
  assumes lim_bound: "lim \<le> 2 ^ 31"
    and cont_bound: "inv s \<Longrightarrow> length (cont s) < lim"
    and size_law: "inv s \<Longrightarrow> \<exists>t. is_Size ops s = (Inr (length (cont s)), t) \<and>
      inv t \<and> cont t = cont s \<and> writable t = writable s"
    and seek_law: "inv s \<Longrightarrow> p \<le> length (cont s) \<Longrightarrow> \<exists>t. is_Seek ops p s = (Inr (), t) \<and>
      inv t \<and> cont t = cont s \<and> writable t = writable s \<and> at t p"
    and read_law: "inv s \<Longrightarrow> at s p \<Longrightarrow> p + n \<le> length (cont s) \<Longrightarrow>
      \<exists>t. is_Read ops n s = (Inr (take n (drop p (cont s))), t) \<and>
        inv t \<and> cont t = cont s \<and> writable t = writable s"
    and read_at_law: "inv s \<Longrightarrow> p + n \<le> length (cont s) \<Longrightarrow>
      \<exists>t. is_ReadAsync ops n p s = (Inr (take n (drop p (cont s))), t) \<and>
        inv t \<and> cont t = cont s \<and> writable t = writable s"
    and write_at_law: "inv s \<Longrightarrow> writable s \<Longrightarrow> p \<le> length (cont s) \<Longrightarrow> p + length d < lim \<Longrightarrow>
      \<exists>t. is_WriteAsync ops d p s = (Inr (length d), t) \<and>
        inv t \<and> cont t = put_at (cont s) p d \<and> writable t = writable s"
    and flush_law: "inv s \<Longrightarrow> \<exists>t. is_Flush ops s = (Inr True, t) \<and>
      inv t \<and> cont t = cont s \<and> writable t = writable s"
    and flush_async_law: "inv s \<Longrightarrow> \<exists>t. is_FlushAsync ops s = (Inr True, t) \<and>
      inv t \<and> cont t = cont s \<and> writable t = writable s"
    and position_law: "inv s \<Longrightarrow> at s p \<Longrightarrow> p \<le> length (cont s) \<Longrightarrow> is_Position ops s = (Inr p, s)"
    and can_read_law: "inv s \<Longrightarrow> is_CanRead ops s = (Inr True, s)"
    and can_write_law: "inv s \<Longrightarrow> is_CanWrite ops s = (Inr (writable s), s)"
begin

lemma read_vec_law:
  assumes "inv s" and "at s p" and "p + n \<le> length (cont s)" and "n < 2 ^ 31"
  shows "\<exists>t. IStream_Read ops n s = (Inr (take n (drop p (cont s))), t) \<and>
    inv t \<and> cont t = cont s \<and> writable t = writable s"
  using assms read_law [OF assms(1-3)] by (simp add: IStream_Read_def ret_app)

end

end
