(* ===== verification/StdStream.thy ===== *)
theory StdStream
  imports IStream
begin

text \<open>
  The adapter from a C++ standard stream to \<open>IStream\<close>
  (\<open>sdk/rmscrypto_sdk/CryptoAPI/StdStreamAdapter.cpp\<close>), over a model of
  \<open>std::stringstream\<close>: the buffer, the two positions, and the failure bit. The
  end-of-file bit is only ever set together with the failure bit here.
\<close>

section \<open>The standard stream\<close>

record stringstream =
  ss_buf :: "byte list"
  ss_g :: nat
  ss_p :: nat
  ss_fail :: bool

definition ss_clear :: "stringstream \<Rightarrow> stringstream" where
  "ss_clear s = s\<lparr>ss_fail := False\<rparr>"

text \<open>A position is an offset from the start; one outside the buffer is refused.\<close>

definition ss_seekg :: "int \<Rightarrow> stringstream \<Rightarrow> stringstream" where
  "ss_seekg pos s =
     (if ss_fail s then s
      else if 0 \<le> pos \<and> pos \<le> int (length (ss_buf s)) then s\<lparr>ss_g := nat pos\<rparr>
      else s\<lparr>ss_fail := True\<rparr>)"

definition ss_seekp :: "int \<Rightarrow> stringstream \<Rightarrow> stringstream" where
  "ss_seekp pos s =
     (if ss_fail s then s
      else if 0 \<le> pos \<and> pos \<le> int (length (ss_buf s)) then s\<lparr>ss_p := nat pos\<rparr>
      else s\<lparr>ss_fail := True\<rparr>)"

definition ss_seekg_end :: "stringstream \<Rightarrow> stringstream" where
  "ss_seekg_end s = ss_seekg (int (length (ss_buf s))) s"

definition ss_seekp_end :: "stringstream \<Rightarrow> stringstream" where
  "ss_seekp_end s = ss_seekp (int (length (ss_buf s))) s"

definition ss_tellg :: "stringstream \<Rightarrow> int" where
  "ss_tellg s = (if ss_fail s then -1 else int (ss_g s))"

definition ss_tellp :: "stringstream \<Rightarrow> int" where
  "ss_tellp s = (if ss_fail s then -1 else int (ss_p s))"

text \<open>The bytes extracted are what \<open>gcount()\<close> counts; a short read fails the stream.\<close>

definition ss_read :: "nat \<Rightarrow> stringstream \<Rightarrow> byte list \<times> stringstream" where
  "ss_read n s =
     (if ss_fail s then ([], s)
      else let d = take n (drop (ss_g s) (ss_buf s))
           in (d, s\<lparr>ss_g := ss_g s + length d, ss_fail := length d < n\<rparr>))"

definition ss_write :: "byte list \<Rightarrow> stringstream \<Rightarrow> stringstream" where
  "ss_write d s =
     (if ss_fail s then s
      else s\<lparr>ss_buf := put_at (ss_buf s) (ss_p s) d, ss_p := ss_p s + length d\<rparr>)"

section \<open>The adapter\<close>

text \<open>
  The two backing pointers point to one stream or are null: the constructors take an
  \<open>iostream\<close>, an \<open>ostream\<close> or an \<open>istream\<close>.
\<close>

record StdStreamAdapter =
  sa_locked :: bool
  sa_stream :: stringstream
  sa_in :: bool
  sa_out :: bool

definition StdStreamAdapter_io :: "stringstream \<Rightarrow> StdStreamAdapter" where
  "StdStreamAdapter_io s = \<lparr>sa_locked = False, sa_stream = s, sa_in = True, sa_out = True\<rparr>"

definition StdStreamAdapter_o :: "stringstream \<Rightarrow> StdStreamAdapter" where
  "StdStreamAdapter_o s = \<lparr>sa_locked = False, sa_stream = s, sa_in = False, sa_out = True\<rparr>"

definition StdStreamAdapter_i :: "stringstream \<Rightarrow> StdStreamAdapter" where
  "StdStreamAdapter_i s = \<lparr>sa_locked = False, sa_stream = s, sa_in = True, sa_out = False\<rparr>"

abbreviation sa_guard ::
  "(exn, StdStreamAdapter, 'a) sx \<Rightarrow> (exn, StdStreamAdapter, 'a) sx" where
  "sa_guard \<equiv> with_mutex sa_locked (\<lambda>b s. s\<lparr>sa_locked := b\<rparr>)"

abbreviation sa_do :: "(stringstream \<Rightarrow> stringstream) \<Rightarrow> (exn, StdStreamAdapter, unit) sx" where
  "sa_do f \<equiv> modify (\<lambda>s. s\<lparr>sa_stream := f (sa_stream s)\<rparr>)"

definition sa_unavailable :: exn where
  "sa_unavailable = RMSCryptoIOException OperationUnavailable ''Operation unavailable!''"

definition sa_ReadInternal :: "nat \<Rightarrow> (exn, StdStreamAdapter, byte list) sx" where
  "sa_ReadInternal cb =
     seqx (sa_do (\<lambda>st. if ss_fail st then ss_clear st else st))
      (\<lambda>s. case ss_read cb (sa_stream s) of (d, st) \<Rightarrow> (Inr d, s\<lparr>sa_stream := st\<rparr>))"

definition sa_WriteInternal :: "byte list \<Rightarrow> (exn, StdStreamAdapter, nat) sx" where
  "sa_WriteInternal d =
     seqx (sa_do (\<lambda>st. if ss_fail st then ss_clear st else st))
     (seqx (sa_do (ss_write d)) (ret (length d)))"

definition sa_ReadAsync :: "nat \<Rightarrow> nat \<Rightarrow> (exn, StdStreamAdapter, byte list) sx" where
  "sa_ReadAsync cb off =
     sa_guard
      (bnd (gets sa_in) (\<lambda>available.
        if available
        then seqx (sa_do (\<lambda>st. ss_seekg (int off) (ss_clear st))) (sa_ReadInternal cb)
        else throw sa_unavailable))"

definition sa_WriteAsync :: "byte list \<Rightarrow> nat \<Rightarrow> (exn, StdStreamAdapter, nat) sx" where
  "sa_WriteAsync d off =
     sa_guard
      (bnd (gets sa_out) (\<lambda>available.
        if available
        then seqx (sa_do (ss_seekp (int off))) (sa_WriteInternal d)
        else throw sa_unavailable))"

definition sa_Read :: "nat \<Rightarrow> (exn, StdStreamAdapter, byte list) sx" where
  "sa_Read cb =
     bnd (gets sa_in) (\<lambda>available.
       if available then sa_guard (sa_ReadInternal cb) else throw sa_unavailable)"

definition sa_Write :: "byte list \<Rightarrow> (exn, StdStreamAdapter, nat) sx" where
  "sa_Write d =
     bnd (gets sa_out) (\<lambda>available.
       if available then sa_guard (bnd (sa_WriteInternal d) (\<lambda>_. ret (length d)))
       else throw sa_unavailable)"

text \<open>\<open>flush\<close> leaves a string stream as it is.\<close>

definition sa_Flush :: "(exn, StdStreamAdapter, bool) sx" where
  "sa_Flush = sa_guard (ret True)"

definition sa_FlushAsync :: "(exn, StdStreamAdapter, bool) sx" where
  "sa_FlushAsync = sa_Flush"

definition sa_Clone :: "(exn, StdStreamAdapter, StdStreamAdapter) sx" where
  "sa_Clone = sa_guard (gets (\<lambda>s. s\<lparr>sa_locked := False\<rparr>))"

definition sa_Seek :: "nat \<Rightarrow> (exn, StdStreamAdapter, unit) sx" where
  "sa_Seek pos =
     sa_guard
      (seqx (bnd (gets sa_in) (\<lambda>i.
               if i then sa_do (\<lambda>st. ss_seekg (int pos) (ss_clear st)) else ret ()))
            (bnd (gets sa_out) (\<lambda>out.
               if out then sa_do (ss_seekp (int pos)) else ret ())))"

definition sa_CanRead :: "(exn, StdStreamAdapter, bool) sx" where
  "sa_CanRead = gets sa_in"

definition sa_CanWrite :: "(exn, StdStreamAdapter, bool) sx" where
  "sa_CanWrite = gets sa_out"

text \<open>A \<open>streampos\<close> stored in an \<open>int\<close> and returned as a \<open>uint64_t\<close>.\<close>

definition as_int :: "int \<Rightarrow> int" where
  "as_int v = (v + 2 ^ 31) mod 2 ^ 32 - 2 ^ 31"

definition as_u64 :: "int \<Rightarrow> nat" where
  "as_u64 v = nat (v mod 2 ^ 64)"

definition sa_Position :: "(exn, StdStreamAdapter, nat) sx" where
  "sa_Position =
     sa_guard (gets (\<lambda>s.
       let r = (if sa_in s then as_int (ss_tellg (sa_stream s)) else 0);
           r' = (if sa_out s then as_int (ss_tellp (sa_stream s)) else r)
       in as_u64 r'))"

text \<open>The end is sought to be told, and the position put back, on each side in turn.\<close>

definition ss_size_g :: "stringstream \<Rightarrow> int \<times> stringstream" where
  "ss_size_g st =
     (let a = ss_clear st; old = ss_tellg a; b = ss_seekg_end a
      in (as_int (ss_tellg b), ss_clear (ss_seekg old b)))"

definition ss_size_p :: "stringstream \<Rightarrow> int \<times> stringstream" where
  "ss_size_p st =
     (let a = ss_clear st; old = ss_tellp a; b = ss_seekp_end a
      in (as_int (ss_tellp b), ss_clear (ss_seekp old b)))"

definition sa_Size :: "(exn, StdStreamAdapter, nat) sx" where
  "sa_Size =
     sa_guard (\<lambda>s.
       let (r, st) = (if sa_in s then ss_size_g (sa_stream s) else (0, sa_stream s));
           (r', st') = (if sa_out s then ss_size_p st else (r, st))
       in (Inr (as_u64 r'), s\<lparr>sa_stream := st'\<rparr>))"

definition sa_SetSize :: "nat \<Rightarrow> (exn, StdStreamAdapter, unit) sx" where
  "sa_SetSize v = ret ()"

definition sa_vtable :: "StdStreamAdapter IStream" where
  "sa_vtable =
     \<lparr>is_ReadAsync = sa_ReadAsync, is_WriteAsync = sa_WriteAsync, is_FlushAsync = sa_FlushAsync,
      is_Read = sa_Read, is_Write = sa_Write, is_Flush = sa_Flush, is_Clone = sa_Clone,
      is_Seek = sa_Seek, is_CanRead = sa_CanRead, is_CanWrite = sa_CanWrite,
      is_Position = sa_Position, is_Size = sa_Size, is_SetSize = sa_SetSize\<rparr>"

section \<open>Invariant\<close>

text \<open>
  A readable adapter whose mutex is free and whose stream has not failed, with both
  positions inside the buffer and a buffer whose length an \<open>int\<close> can hold.
\<close>

definition sa_inv :: "StdStreamAdapter \<Rightarrow> bool" where
  "sa_inv s \<longleftrightarrow> \<not> sa_locked s \<and> sa_in s \<and> \<not> ss_fail (sa_stream s) \<and>
     ss_g (sa_stream s) \<le> length (ss_buf (sa_stream s)) \<and>
     ss_p (sa_stream s) \<le> length (ss_buf (sa_stream s)) \<and>
     length (ss_buf (sa_stream s)) < 2 ^ 31"

definition sa_cont :: "StdStreamAdapter \<Rightarrow> byte list" where
  "sa_cont s = ss_buf (sa_stream s)"

definition sa_at :: "StdStreamAdapter \<Rightarrow> nat \<Rightarrow> bool" where
  "sa_at s p \<longleftrightarrow> ss_g (sa_stream s) = p \<and> (sa_out s \<longrightarrow> ss_p (sa_stream s) = p)"

lemma as_int_small: "n < 2 ^ 31 \<Longrightarrow> as_int (int n) = int n"
  by (simp add: as_int_def)

lemma as_u64_small: "n < 2 ^ 64 \<Longrightarrow> as_u64 (int n) = n"
  by (simp add: as_u64_def)

lemmas ss_defs =
  ss_clear_def ss_seekg_def ss_seekp_def ss_seekg_end_def ss_seekp_end_def ss_tellg_def
  ss_tellp_def ss_read_def ss_write_def

lemma ss_size_laws:
  assumes "length (ss_buf st) < 2 ^ 31"
    and "ss_g st \<le> length (ss_buf st)" and "ss_p st \<le> length (ss_buf st)"
  shows "ss_size_g st = (int (length (ss_buf st)), st\<lparr>ss_fail := False\<rparr>)"
    and "ss_size_p st = (int (length (ss_buf st)), st\<lparr>ss_fail := False\<rparr>)"
  using assms by (simp_all add: ss_size_g_def ss_size_p_def ss_defs as_int_small Let_def)

interpretation std_stream: random_access_stream sa_vtable sa_inv sa_cont sa_at sa_out "2 ^ 31"
proof
  fix s :: StdStreamAdapter and p n :: nat and d :: "byte list"
  assume s: "sa_inv s"
  show "length (sa_cont s) < 2 ^ 31" using s by (simp add: sa_inv_def sa_cont_def)
  show "\<exists>t. is_Size sa_vtable s = (Inr (length (sa_cont s)), t) \<and>
      sa_inv t \<and> sa_cont t = sa_cont s \<and> sa_out t = sa_out s"
    using s ss_size_laws [of "sa_stream s"] ss_size_laws [of "(sa_stream s)\<lparr>ss_fail := False\<rparr>"]
    by (simp add: sa_vtable_def sa_Size_def sx_simps sa_inv_def sa_cont_def as_u64_small)
  show "is_CanRead sa_vtable s = (Inr True, s)" "is_CanWrite sa_vtable s = (Inr (sa_out s), s)"
    using s by (simp_all add: sa_vtable_def sa_CanRead_def sa_CanWrite_def sx_simps sa_inv_def)
  show "\<exists>t. is_Flush sa_vtable s = (Inr True, t) \<and> sa_inv t \<and> sa_cont t = sa_cont s \<and> sa_out t = sa_out s"
    "\<exists>t. is_FlushAsync sa_vtable s = (Inr True, t) \<and> sa_inv t \<and> sa_cont t = sa_cont s \<and> sa_out t = sa_out s"
    using s by (simp_all add: sa_vtable_def sa_Flush_def sa_FlushAsync_def sx_simps sa_inv_def sa_cont_def)
  show "\<exists>t. is_ReadAsync sa_vtable n p s = (Inr (take n (drop p (sa_cont s))), t) \<and>
      sa_inv t \<and> sa_cont t = sa_cont s \<and> sa_out t = sa_out s" if "p + n \<le> length (sa_cont s)"
    using s that
    by (simp add: sa_vtable_def sa_ReadAsync_def sa_ReadInternal_def sx_simps sa_inv_def sa_cont_def
        ss_defs Let_def)
  show "\<exists>t. is_Read sa_vtable n s = (Inr (take n (drop p (sa_cont s))), t) \<and>
      sa_inv t \<and> sa_cont t = sa_cont s \<and> sa_out t = sa_out s"
    if "sa_at s p" "p + n \<le> length (sa_cont s)"
    using s that
    by (simp add: sa_vtable_def sa_Read_def sa_ReadInternal_def sx_simps sa_inv_def sa_cont_def
        sa_at_def ss_defs Let_def)
  assume p: "p \<le> length (sa_cont s)"
  show "\<exists>t. is_Seek sa_vtable p s = (Inr (), t) \<and>
      sa_inv t \<and> sa_cont t = sa_cont s \<and> sa_out t = sa_out s \<and> sa_at t p"
    using s p by (simp add: sa_vtable_def sa_Seek_def sx_simps sa_inv_def sa_cont_def sa_at_def ss_defs)
  show "is_Position sa_vtable s = (Inr p, s)" if "sa_at s p"
    using s p that
    by (auto simp: sa_vtable_def sa_Position_def sx_simps sa_inv_def sa_cont_def sa_at_def ss_defs
        Let_def as_int_small as_u64_small)
  show "\<exists>t. is_WriteAsync sa_vtable d p s = (Inr (length d), t) \<and>
      sa_inv t \<and> sa_cont t = put_at (sa_cont s) p d \<and> sa_out t = sa_out s"
    if "sa_out s" "p + length d < 2 ^ 31"
    using s p that
    by (auto simp: sa_vtable_def sa_WriteAsync_def sa_WriteInternal_def sx_simps sa_inv_def sa_cont_def
        ss_defs Let_def length_put_at_max)
qed simp

section \<open>Properties\<close>

definition sample_adapter :: StdStreamAdapter where
  "sample_adapter = StdStreamAdapter_io \<lparr>ss_buf = [1, 2, 3, 4], ss_g = 0, ss_p = 4, ss_fail = False\<rparr>"

text \<open>
  Bytes written at an offset of a stream in working order are read back from that
  offset, the rest of the content stays, the content grows when the write runs past its
  end, and the reported size is the content's.
\<close>

theorem std_write_read:
  assumes "sa_inv s" and "sa_out s" and "p \<le> length (sa_cont s)" and "p + length d < 2 ^ 31"
  shows "\<exists>t u v. sa_WriteAsync d p s = (Inr (length d), t) \<and>
    sa_cont t = take p (sa_cont s) @ d @ drop (p + length d) (sa_cont s) \<and>
    sa_ReadAsync (length d) p t = (Inr d, u) \<and>
    sa_Size u = (Inr (max (length (sa_cont s)) (p + length d)), v)"
proof -
  obtain t where t: "sa_WriteAsync d p s = (Inr (length d), t)" "sa_inv t"
      "sa_cont t = put_at (sa_cont s) p d"
    using std_stream.write_at_law [OF assms] by (auto simp: sa_vtable_def)
  have len: "length (sa_cont t) = max (length (sa_cont s)) (p + length d)"
    using t(3) assms(3) by (simp add: length_put_at_max)
  obtain u where u: "sa_ReadAsync (length d) p t = (Inr d, u)" "sa_inv u" "sa_cont u = sa_cont t"
    using std_stream.read_at_law [OF t(2), of p "length d"] len assms(3) t(3)
    by (auto simp: sa_vtable_def take_drop_put_at)
  obtain v where "sa_Size u = (Inr (length (sa_cont u)), v)"
    using std_stream.size_law [OF u(2)] by (auto simp: sa_vtable_def)
  then show ?thesis using t u len by (simp add: put_at_def)
qed

theorem std_write_read_witness:
  "\<exists>t u v. sa_WriteAsync [9, 9] 3 sample_adapter = (Inr (length [9, 9::byte]), t) \<and>
    sa_cont t = take 3 (sa_cont sample_adapter) @ [9, 9] @ drop (3 + length [9, 9::byte]) (sa_cont sample_adapter) \<and>
    sa_ReadAsync (length [9, 9::byte]) 3 t = (Inr [9, 9], u) \<and>
    sa_Size u = (Inr (max (length (sa_cont sample_adapter)) (3 + length [9, 9::byte])), v)"
  by (rule std_write_read) (simp_all add: sample_adapter_def StdStreamAdapter_io_def sa_inv_def sa_cont_def)

text \<open>
  A read that runs past the end leaves the stream failed, and the next write at an
  offset seeks before it clears the failure: the seek has no effect and the bytes land at
  the put position left by whatever wrote last, not at the offset asked for.
\<close>

theorem std_write_after_short_read:
  assumes "sa_inv s" and "sa_out s" and "p \<le> length (sa_cont s)" and "length (sa_cont s) < p + n"
  shows "\<exists>t. bnd (sa_ReadAsync n p) (\<lambda>_. sa_WriteAsync d q) s = (Inr (length d), t) \<and>
    sa_cont t = put_at (sa_cont s) (ss_p (sa_stream s)) d"
proof -
  have "length (sa_cont s) - p < n" using assms(3,4) by simp
  then show ?thesis
    using assms
    by (simp add: sa_ReadAsync_def sa_ReadInternal_def sa_WriteAsync_def sa_WriteInternal_def
        sx_simps sa_inv_def sa_cont_def ss_defs Let_def)
qed

theorem std_write_after_short_read_witness:
  "\<exists>t. bnd (sa_ReadAsync 10 0) (\<lambda>_. sa_WriteAsync [9] 1) sample_adapter = (Inr (length [9::byte]), t) \<and>
    sa_cont t = put_at (sa_cont sample_adapter) (ss_p (sa_stream sample_adapter)) [9]"
  by (rule std_write_after_short_read)
    (simp_all add: sample_adapter_def StdStreamAdapter_io_def sa_inv_def sa_cont_def)

text \<open>
  Sizes are counted in an \<open>int\<close>. A stream of 2 GiB or more, below 4 GiB, reports a
  size within 2 GiB of the largest 64-bit number.
\<close>

lemma std_size_overflow:
  assumes "\<not> sa_locked s" and "sa_in s \<or> sa_out s"
    and "ss_g (sa_stream s) \<le> length (sa_cont s)" and "ss_p (sa_stream s) \<le> length (sa_cont s)"
    and "2 ^ 31 \<le> length (sa_cont s)" and "length (sa_cont s) < 2 ^ 32"
  shows "\<exists>t. sa_Size s = (Inr (2 ^ 64 - 2 ^ 32 + length (sa_cont s)), t)"
proof -
  let ?l = "length (sa_cont s)"
  have "(int ?l + 2 ^ 31) mod 2 ^ 32 = int ?l + 2 ^ 31 - 2 ^ 32"
    using assms(5,6) mod_pos_geq [of "2 ^ 32" "int ?l + 2 ^ 31"] by (simp add: mod_pos_pos_trivial)
  then have i: "as_int (int ?l) = int ?l - 2 ^ 32" by (simp add: as_int_def)
  have "(int ?l - 2 ^ 32) mod 2 ^ 64 = int ?l - 2 ^ 32 + 2 ^ 64"
    using assms(6) by (intro int_mod_pos_eq [where q = "-1"]) simp_all
  then have u: "as_u64 (int ?l - 2 ^ 32) = 2 ^ 64 - 2 ^ 32 + ?l"
    by (simp add: as_u64_def nat_add_distrib)
  have g: "fst (ss_size_g st) = as_int (int (length (ss_buf st)))"
    "snd (ss_size_g st) = st\<lparr>ss_fail := False\<rparr>"
    "fst (ss_size_p st) = as_int (int (length (ss_buf st)))"
    if "ss_g st \<le> length (ss_buf st)" "ss_p st \<le> length (ss_buf st)" for st
    using that by (simp_all add: ss_size_g_def ss_size_p_def ss_defs Let_def)
  show ?thesis
    using assms g [of "sa_stream s"] g [of "(sa_stream s)\<lparr>ss_fail := False\<rparr>"] i u
    by (auto simp: sa_Size_def sx_simps sa_cont_def split: prod.splits)
qed

lemma std_size_overflow_witness:
  "\<exists>t. sa_Size (StdStreamAdapter_io \<lparr>ss_buf = replicate (2 ^ 31) 0, ss_g = 0, ss_p = 0, ss_fail = False\<rparr>) =
    (Inr (2 ^ 64 - 2 ^ 32 + length (sa_cont (StdStreamAdapter_io
      \<lparr>ss_buf = replicate (2 ^ 31) 0, ss_g = 0, ss_p = 0, ss_fail = False\<rparr>))), t)"
  by (rule std_size_overflow) (simp_all add: StdStreamAdapter_io_def sa_cont_def)

end
