(* ===== verification/SimpleStream.thy ===== *)
theory SimpleStream
  imports CryptoProvider StdStream
begin

text \<open>
  \<open>SimpleProtectedStream\<close>
  (\<open>sdk/rmscrypto_sdk/CryptoAPI/SimpleProtectedStream.cpp\<close>): the stream that encrypts
  and decrypts whole runs of bytes between its caller and a backing stream, from a start
  offset on. Every method takes the stream's mutex, which is not recursive. The methods of
  the backing stream come as a table, so that the stream can sit on any other one.
\<close>

section \<open>State\<close>

text \<open>A null provider makes a plain-text stream.\<close>

record 's SimpleProtectedStream =
  sp_locked :: bool
  sp_provider :: "ICryptoProvider option"
  sp_backing :: 's
  sp_ContentStart :: nat
  sp_ContentSize :: nat

definition sp_back :: "(exn, 's, 'a) sx \<Rightarrow> (exn, 's SimpleProtectedStream, 'a) sx" where
  "sp_back = zoom sp_backing (\<lambda>b s. s\<lparr>sp_backing := b\<rparr>)"

definition sp_guard ::
  "(exn, 's SimpleProtectedStream, 'a) sx \<Rightarrow> (exn, 's SimpleProtectedStream, 'a) sx" where
  "sp_guard = with_mutex sp_locked (\<lambda>b s. s\<lparr>sp_locked := b\<rparr>)"

section \<open>Position\<close>

definition sp_SeekInternal :: "'s IStream \<Rightarrow> nat \<Rightarrow> (exn, 's SimpleProtectedStream, unit) sx" where
  "sp_SeekInternal ops u64Position =
     bnd (gets sp_ContentStart) (\<lambda>start. sp_back (is_Seek ops (add64 start u64Position)))"

definition sp_Seek :: "'s IStream \<Rightarrow> nat \<Rightarrow> (exn, 's SimpleProtectedStream, unit) sx" where
  "sp_Seek ops u64Position = sp_guard (sp_SeekInternal ops u64Position)"

definition sp_Position :: "'s IStream \<Rightarrow> (exn, 's SimpleProtectedStream, nat) sx" where
  "sp_Position ops =
     sp_guard (bnd (sp_back (is_Position ops)) (\<lambda>p. gets (\<lambda>s. sub64 p (sp_ContentStart s))))"

definition SimpleProtectedStream_create ::
  "'s IStream \<Rightarrow> ICryptoProvider option \<Rightarrow> 's option \<Rightarrow> nat \<Rightarrow> nat
   \<Rightarrow> exn + 's SimpleProtectedStream" where
  "SimpleProtectedStream_create ops prov pBackingStream u64ContentStart u64ContentSize =
     (case pBackingStream of
        None \<Rightarrow> Inl (RMSCryptoInvalidArgumentException ''Bad parameter'')
      | Some b0 \<Rightarrow>
        case is_Size ops b0 of
          (Inl e, b1) \<Rightarrow> Inl e
        | (Inr n1, b1) \<Rightarrow>
          if n1 < u64ContentStart then Inl (RMSCryptoInvalidArgumentException ''Bad parameter'')
          else
            case is_Size ops b1 of
              (Inl e, b2) \<Rightarrow> Inl e
            | (Inr n2, b2) \<Rightarrow>
              let s = \<lparr>sp_locked = False, sp_provider = prov, sp_backing = b2,
                       sp_ContentStart = u64ContentStart,
                       sp_ContentSize = min u64ContentSize (sub64 n2 u64ContentStart)\<rparr>
              in case sp_Seek ops 0 s of
                   (Inl e, t) \<Rightarrow> Inl e
                 | (Inr u, t) \<Rightarrow> Inr t)"

section \<open>Reading\<close>

text \<open>
  The bytes stored in the caller's buffer, and the number returned. The plain-text read
  goes to the backing stream at the offset itself, and its future is waited for after the
  mutex is released.
\<close>

definition sp_ReadInternalAsync ::
  "'s IStream \<Rightarrow> nat \<Rightarrow> nat \<Rightarrow> nat \<Rightarrow> bool
   \<Rightarrow> (exn, 's SimpleProtectedStream, byte list \<times> nat) sx" where
  "sp_ReadInternalAsync ops cbBuffer cbOffset u32StartingBlockNumber bIsFinal =
     bnd (gets sp_provider) (\<lambda>prov.
       case prov of
         None \<Rightarrow>
           bnd (sp_guard (gets (\<lambda>s. min cbBuffer (sub64 (sp_ContentSize s) cbOffset)))) (\<lambda>toReadSize.
           bnd (sp_back (is_ReadAsync ops toReadSize cbOffset)) (\<lambda>d. ret (d, length d)))
       | Some p \<Rightarrow>
           sp_guard
            (bnd (gets (\<lambda>s. min cbBuffer (sub64 (sp_ContentSize s) cbOffset))) (\<lambda>toRead.
             seqx (sp_SeekInternal ops cbOffset)
             (bnd (sp_back (IStream_Read ops toRead)) (\<lambda>cipherText.
               if 0 < length cipherText
               then liftE (cp_Decrypt p (Some cipherText) u32StartingBlockNumber bIsFinal
                             (Some (to_u32 cbBuffer)) False)
               else ret ([], 0))))))"

definition sp_ReadAsync ::
  "'s IStream \<Rightarrow> nat \<Rightarrow> nat \<Rightarrow> (exn, 's SimpleProtectedStream, byte list) sx" where
  "sp_ReadAsync ops cbBuffer cbOffset =
     bnd (sp_ReadInternalAsync ops cbBuffer cbOffset 0 False) (\<lambda>(d, n). ret (take n d))"

definition sp_Read :: "'s IStream \<Rightarrow> nat \<Rightarrow> (exn, 's SimpleProtectedStream, byte list) sx" where
  "sp_Read ops cbBuffer = bnd (sp_Position ops) (\<lambda>p. sp_ReadAsync ops cbBuffer p)"

section \<open>Writing\<close>

text \<open>
  The encrypted bytes are written from a vector of \<open>GetCipherTextSize\<close> bytes; only the
  \<open>cbOut\<close> bytes the provider reports are written. The content grows by the plain bytes.
\<close>

definition sp_cipher ::
  "ICryptoProvider option \<Rightarrow> byte list \<Rightarrow> nat \<Rightarrow> bool \<Rightarrow> exn + byte list" where
  "sp_cipher prov buffer startingBlockNumber isFinal =
     (case prov of
        None \<Rightarrow> Inr (take (to_u32 (length buffer)) buffer)
      | Some p \<Rightarrow>
        bindE (cp_GetCipherTextSize p (length buffer)) (\<lambda>encryptedSize.
        bindE (cp_Encrypt p (Some buffer) startingBlockNumber isFinal
                 (Some (to_u32 encryptedSize)) False) (\<lambda>(out, cbOut).
          Inr (take cbOut (put_at (replicate encryptedSize 0) 0 out)))))"

definition sp_WriteInternalAsync ::
  "'s IStream \<Rightarrow> byte list \<Rightarrow> nat \<Rightarrow> nat \<Rightarrow> bool \<Rightarrow> (exn, 's SimpleProtectedStream, nat) sx" where
  "sp_WriteInternalAsync ops buffer offset startingBlockNumber isFinal =
     sp_guard
      (bnd (gets sp_provider) (\<lambda>prov.
       bnd (liftE (sp_cipher prov buffer startingBlockNumber isFinal)) (\<lambda>cipherText.
       bnd (gets sp_ContentStart) (\<lambda>start.
       bnd (sp_back (is_WriteAsync ops cipherText (add64 offset start))) (\<lambda>u64Written.
       seqx (modify (\<lambda>s. s\<lparr>sp_ContentSize :=
               max (sp_ContentSize s) (add64 offset (length buffer))\<rparr>))
       (ret u64Written))))))"

definition sp_WriteAsync ::
  "'s IStream \<Rightarrow> byte list \<Rightarrow> nat \<Rightarrow> (exn, 's SimpleProtectedStream, nat) sx" where
  "sp_WriteAsync ops buffer cbOffset = sp_WriteInternalAsync ops buffer cbOffset 0 False"

definition sp_Write :: "'s IStream \<Rightarrow> byte list \<Rightarrow> (exn, 's SimpleProtectedStream, nat) sx" where
  "sp_Write ops buffer = bnd (sp_Position ops) (\<lambda>p. sp_WriteAsync ops buffer p)"

text \<open>The backing stream's flush runs when the future is waited for, without the mutex.\<close>

definition sp_FlushAsync :: "'s IStream \<Rightarrow> (exn, 's SimpleProtectedStream, bool) sx" where
  "sp_FlushAsync ops = seqx (sp_guard (ret ())) (sp_back (is_FlushAsync ops))"

definition sp_Flush :: "'s IStream \<Rightarrow> (exn, 's SimpleProtectedStream, bool) sx" where
  "sp_Flush ops = sp_FlushAsync ops"

section \<open>Size and capabilities\<close>

definition sp_Size :: "(exn, 's SimpleProtectedStream, nat) sx" where
  "sp_Size = sp_guard (gets sp_ContentSize)"

text \<open>
  A stream is taken to report at least one and at most the bytes it was asked to write,
  so the count of zeros left goes down.
\<close>

function sp_append_loop ::
  "'s IStream \<Rightarrow> nat \<Rightarrow> 's SimpleProtectedStream \<Rightarrow> (exn + unit) \<times> 's SimpleProtectedStream" where
  "sp_append_loop ops u64Count s =
     (if u64Count = 0 then (Inr (), s)
      else
        case bnd (sp_Position ops)
               (\<lambda>p. sp_WriteInternalAsync ops (replicate (min 4096 u64Count) 0) p 0 False) s of
          (Inl e, t) \<Rightarrow> (Inl e, t)
        | (Inr u64Written, t) \<Rightarrow>
          if u64Written = 0 then (Inl (RMSCryptoIOException UnknownError ''Write error''), t)
          else sp_append_loop ops (u64Count - u64Written) t)"
  by pat_completeness auto
termination
  by (relation "measure (\<lambda>(ops, n, s). n)") auto

definition sp_AppendZeros :: "'s IStream \<Rightarrow> nat \<Rightarrow> (exn, 's SimpleProtectedStream, unit) sx" where
  "sp_AppendZeros ops u64Count =
     bnd (sp_Position ops) (\<lambda>u64OriginalPosition.
     seqx
      (catchx
        (bnd (gets sp_ContentSize) (\<lambda>n. seqx (sp_SeekInternal ops n) (sp_append_loop ops u64Count)))
        (\<lambda>e. if is_crypto e then seqx (sp_Seek ops u64OriginalPosition) (throw e) else throw e))
      (sp_Seek ops u64OriginalPosition))"

definition sp_SetSize :: "'s IStream \<Rightarrow> nat \<Rightarrow> (exn, 's SimpleProtectedStream, unit) sx" where
  "sp_SetSize ops u64Value =
     sp_guard
      (bnd (gets sp_ContentSize) (\<lambda>n.
        if u64Value < n
        then seqx (modify (\<lambda>s. s\<lparr>sp_ContentSize := u64Value\<rparr>))
              (bnd (gets sp_ContentStart) (\<lambda>start. sp_back (is_SetSize ops (add64 start u64Value))))
        else if n < u64Value then sp_AppendZeros ops (u64Value - n)
        else ret ()))"

definition sp_CanRead :: "'s IStream \<Rightarrow> (exn, 's SimpleProtectedStream, bool) sx" where
  "sp_CanRead ops = sp_guard (sp_back (is_CanRead ops))"

definition sp_CanWrite :: "'s IStream \<Rightarrow> (exn, 's SimpleProtectedStream, bool) sx" where
  "sp_CanWrite ops = sp_guard (sp_back (is_CanWrite ops))"

definition sp_Clone :: "'s IStream \<Rightarrow> (exn, 's SimpleProtectedStream, 's SimpleProtectedStream) sx" where
  "sp_Clone ops =
     sp_guard
      (bnd (sp_back (is_Clone ops)) (\<lambda>b s.
        (SimpleProtectedStream_create ops (sp_provider s) (Some b) (sp_ContentStart s)
           (sp_ContentSize s), s)))"

definition sp_vtable :: "'s IStream \<Rightarrow> 's SimpleProtectedStream IStream" where
  "sp_vtable ops =
     \<lparr>is_ReadAsync = sp_ReadAsync ops, is_WriteAsync = sp_WriteAsync ops,
      is_FlushAsync = sp_FlushAsync ops, is_Read = sp_Read ops, is_Write = sp_Write ops,
      is_Flush = sp_Flush ops, is_Clone = sp_Clone ops, is_Seek = sp_Seek ops,
      is_CanRead = sp_CanRead ops, is_CanWrite = sp_CanWrite ops, is_Position = sp_Position ops,
      is_Size = sp_Size, is_SetSize = sp_SetSize ops\<rparr>"

lemma sp_unlock [simp]: "\<not> sp_locked s \<Longrightarrow> s\<lparr>sp_locked := False\<rparr> = s"
  by (cases s) simp

lemma sp_unlock_backing [simp]:
  "\<not> sp_locked s \<Longrightarrow> s\<lparr>sp_locked := False, sp_backing := b\<rparr> = s\<lparr>sp_backing := b\<rparr>"
  "\<not> sp_locked s \<Longrightarrow> s\<lparr>sp_locked := False, sp_backing := b, sp_ContentSize := n\<rparr> =
     s\<lparr>sp_backing := b, sp_ContentSize := n\<rparr>"
  by (cases s, simp)+

lemma sp_guard_free: "\<not> sp_locked s \<Longrightarrow>
    sp_guard m s = (case m (s\<lparr>sp_locked := True\<rparr>) of (r, t) \<Rightarrow> (r, t\<lparr>sp_locked := False\<rparr>))"
  by (simp add: sp_guard_def with_mutex_def)

lemma sp_guard_held: "sp_locked s \<Longrightarrow> sp_guard m s = (Inl MutexRelocked, s)"
  by (simp add: sp_guard_def with_mutex_def)

lemma sp_back_app: "sp_back m s = (case m (sp_backing s) of (r, b) \<Rightarrow> (r, s\<lparr>sp_backing := b\<rparr>))"
  by (simp add: sp_back_def zoom_app)

lemmas sp_run = sp_guard_free sp_back_app sx_simps

lemma sp_Size_free: "\<not> sp_locked s \<Longrightarrow> sp_Size s = (Inr (sp_ContentSize s), s)"
  by (simp add: sp_Size_def sp_run)

section \<open>Over a random-access stream\<close>

locale content_stream = random_access_stream ops inv cont at writable lim
  for ops :: "'s IStream" and inv cont at writable lim
begin

abbreviation same :: "'s \<Rightarrow> 's \<Rightarrow> bool" where
  "same b c \<equiv> inv c \<and> cont c = cont b \<and> writable c = writable b"

text \<open>The content window lies inside the backing stream, and nobody holds the mutex.\<close>

definition sp_inv :: "'s SimpleProtectedStream \<Rightarrow> bool" where
  "sp_inv s \<longleftrightarrow> \<not> sp_locked s \<and> inv (sp_backing s) \<and>
     sp_ContentStart s + sp_ContentSize s \<le> length (cont (sp_backing s))"

text \<open>The bytes of the window from an offset on.\<close>

definition window :: "'s SimpleProtectedStream \<Rightarrow> nat \<Rightarrow> nat \<Rightarrow> byte list" where
  "window s off n =
     take (min n (sp_ContentSize s - off)) (drop (sp_ContentStart s + off) (cont (sp_backing s)))"

lemma sp_inv_small:
  assumes "sp_inv s"
  shows "sp_ContentStart s + sp_ContentSize s < 2 ^ 31"
  using assms cont_bound [of "sp_backing s"] lim_bound by (simp add: sp_inv_def)

lemma sp_read_encrypted:
  assumes s: "sp_inv s" and p: "sp_provider s = Some p" and off: "off \<le> sp_ContentSize s"
    and cb: "cb < 2 ^ 31"
    and dec: "window s off cb \<noteq> [] \<Longrightarrow>
      cp_Decrypt p (Some (window s off cb)) blk final (Some cb) False = Inr (d, n)"
    and empty: "window s off cb = [] \<Longrightarrow> d = [] \<and> n = 0"
  shows "\<exists>b. sp_ReadInternalAsync ops cb off blk final s = (Inr (d, n), s\<lparr>sp_backing := b\<rparr>) \<and>
    same (sp_backing s) b"
proof -
  let ?start = "sp_ContentStart s" and ?n = "min cb (sp_ContentSize s - off)"
  have small: "?start + sp_ContentSize s < 2 ^ 31" by (rule sp_inv_small [OF s])
  have inside: "?start + off \<le> length (cont (sp_backing s))"
    "?start + off + ?n \<le> length (cont (sp_backing s))"
    using s off by (auto simp: sp_inv_def min_def)
  obtain b where b: "is_Seek ops (?start + off) (sp_backing s) = (Inr (), b)"
      "same (sp_backing s) b" "at b (?start + off)"
    using seek_law [OF _ inside(1)] s by (auto simp: sp_inv_def)
  have n: "?n < 2 ^ 31" using cb by simp
  obtain c where c: "IStream_Read ops ?n b = (Inr (window s off cb), c)" "same b c"
  proof -
    have same_cont: "cont b = cont (sp_backing s)" using b(2) by simp
    have "\<exists>t. IStream_Read ops ?n b = (Inr (take ?n (drop (?start + off) (cont b))), t) \<and> same b t"
      using b(2) inside(2) by (intro read_vec_law [OF _ b(3) _ n]) simp_all
    then show thesis
      using that unfolding window_def same_cont by blast
  qed
  have "add64 ?start off = ?start + off" "sub64 (sp_ContentSize s) off = sp_ContentSize s - off"
    using small off by simp_all
  moreover have "\<not> sp_locked s" using s by (simp add: sp_inv_def)
  moreover have "to_u32 cb = cb" using cb by simp
  ultimately have "sp_ReadInternalAsync ops cb off blk final s = (Inr (d, n), s\<lparr>sp_backing := c\<rparr>)"
    using b(1) c(1) p
    by (simp add: sp_ReadInternalAsync_def sp_SeekInternal_def sp_run, intro conjI impI)
      (erule dec, (drule empty, simp)+)
  then show ?thesis using b(2) c(2) by (intro exI [of _ c]) simp
qed

lemma sp_write:
  assumes s: "sp_inv s" and w: "writable (sp_backing s)" and off: "off \<le> sp_ContentSize s"
    and ct: "sp_cipher (sp_provider s) d blk final = Inr ct"
    and bound: "sp_ContentStart s + off + length ct < lim" "off + length d < 2 ^ 64"
  shows "\<exists>b. sp_WriteInternalAsync ops d off blk final s =
      (Inr (length ct), s\<lparr>sp_backing := b, sp_ContentSize := max (sp_ContentSize s) (off + length d)\<rparr>) \<and>
    inv b \<and> cont b = put_at (cont (sp_backing s)) (sp_ContentStart s + off) ct \<and>
    writable b = writable (sp_backing s)"
proof -
  let ?p = "sp_ContentStart s + off"
  have small: "sp_ContentStart s + sp_ContentSize s < 2 ^ 31" by (rule sp_inv_small [OF s])
  have "?p \<le> length (cont (sp_backing s))" using s off by (simp add: sp_inv_def)
  then obtain b where b: "is_WriteAsync ops ct ?p (sp_backing s) = (Inr (length ct), b)" "inv b"
      "cont b = put_at (cont (sp_backing s)) ?p ct" "writable b = writable (sp_backing s)"
    using write_at_law [of "sp_backing s" ?p ct] s w bound by (auto simp: sp_inv_def)
  have "add64 off (sp_ContentStart s) = ?p" "add64 off (length d) = off + length d"
    using small off bound(2) by (simp_all add: add.commute)
  moreover have "\<not> sp_locked s" using s by (simp add: sp_inv_def)
  ultimately have "sp_WriteInternalAsync ops d off blk final s =
      (Inr (length ct), s\<lparr>sp_backing := b, sp_ContentSize := max (sp_ContentSize s) (off + length d)\<rparr>)"
    using b(1) ct by (simp add: sp_WriteInternalAsync_def sp_run)
  then show ?thesis using b by blast
qed

lemma sp_flush:
  assumes "sp_inv s"
  shows "\<exists>b. sp_Flush ops s = (Inr True, s\<lparr>sp_backing := b\<rparr>) \<and> same (sp_backing s) b"
  using assms flush_async_law [of "sp_backing s"]
  by (auto simp: sp_Flush_def sp_FlushAsync_def sp_inv_def sp_run)

lemma sp_capabilities:
  assumes "sp_inv s"
  shows "sp_CanRead ops s = (Inr True, s)" and "sp_CanWrite ops s = (Inr (writable (sp_backing s)), s)"
  using assms can_read_law [of "sp_backing s"] can_write_law [of "sp_backing s"]
  by (simp_all add: sp_CanRead_def sp_CanWrite_def sp_inv_def sp_run)

lemma sp_create:
  assumes b: "inv b" and start: "start \<le> length (cont b)"
  shows "\<exists>s. SimpleProtectedStream_create ops prov (Some b) start n = Inr s \<and> sp_inv s \<and>
    sp_provider s = prov \<and> sp_ContentStart s = start \<and>
    sp_ContentSize s = min n (length (cont b) - start) \<and>
    cont (sp_backing s) = cont b \<and> writable (sp_backing s) = writable b"
proof -
  have small: "length (cont b) < 2 ^ 31" using cont_bound [OF b] lim_bound by simp
  obtain b1 where b1: "is_Size ops b = (Inr (length (cont b)), b1)" "same b b1"
    using size_law [OF b] by auto
  obtain b2 where b2: "is_Size ops b1 = (Inr (length (cont b)), b2)" "same b b2"
    using size_law [of b1] b1 by auto
  obtain b3 where b3: "is_Seek ops start b2 = (Inr (), b3)" "same b b3"
    using seek_law [of b2 start] b2 start by auto
  have "sub64 (length (cont b)) start = length (cont b) - start" "add64 start 0 = start"
    using small start by simp_all
  then show ?thesis
    using b1 b2 b3 start
    by (auto simp: SimpleProtectedStream_create_def sp_Seek_def sp_SeekInternal_def sp_run
        sp_inv_def Let_def)
qed

end

text \<open>A plain-text stream reads at the caller's offset and writes at the start plus it.\<close>

context content_stream
begin

lemma plain_write_read:
  assumes s: "sp_inv s" and w: "writable (sp_backing s)" and plain: "sp_provider s = None"
    and off: "off + length d \<le> sp_ContentSize s" and bound: "length (cont (sp_backing s)) < lim"
  shows "\<exists>t u. sp_WriteAsync ops d off s = (Inr (length d), t) \<and>
    cont (sp_backing t) = put_at (cont (sp_backing s)) (sp_ContentStart s + off) d \<and>
    sp_ReadAsync ops (length d) off t =
      (Inr (take (length d) (drop off (cont (sp_backing t)))), u)"
proof -
  let ?st = "sp_ContentStart s"
  have small: "?st + sp_ContentSize s < 2 ^ 31" by (rule sp_inv_small [OF s])
  have len: "length d < 2 ^ 32" using small off by simp
  then have ct: "sp_cipher (sp_provider s) d 0 False = Inr d"
    using plain by (simp add: sp_cipher_def)
  have in_lim: "?st + off + length d < lim"
    using s off bound by (simp add: sp_inv_def)
  have "\<exists>b. sp_WriteInternalAsync ops d off 0 False s =
      (Inr (length d), s\<lparr>sp_backing := b, sp_ContentSize := max (sp_ContentSize s) (off + length d)\<rparr>) \<and>
    inv b \<and> cont b = put_at (cont (sp_backing s)) (?st + off) d \<and> writable b = writable (sp_backing s)"
    using off small in_lim by (intro sp_write [OF s w _ ct]) simp_all
  then obtain b where
    b: "sp_WriteInternalAsync ops d off 0 False s =
      (Inr (length d), s\<lparr>sp_backing := b, sp_ContentSize := max (sp_ContentSize s) (off + length d)\<rparr>)"
      "inv b" "cont b = put_at (cont (sp_backing s)) (?st + off) d" by blast
  let ?t = "s\<lparr>sp_backing := b, sp_ContentSize := max (sp_ContentSize s) (off + length d)\<rparr>"
  have "?st + off \<le> length (cont (sp_backing s))" using s off by (simp add: sp_inv_def)
  then have "length (cont (sp_backing s)) \<le> length (cont b)"
    using b(3) by (simp add: length_put_at_max)
  then have "off + length d \<le> length (cont b)" using s off by (simp add: sp_inv_def)
  then obtain c where c: "is_ReadAsync ops (length d) off b =
      (Inr (take (length d) (drop off (cont b))), c)"
    using read_at_law [OF b(2)] by blast
  have "sp_ContentSize ?t = sp_ContentSize s" using off by simp
  moreover have "min (length d) (sub64 (sp_ContentSize s) off) = length d"
    using off small by simp
  ultimately have "sp_ReadInternalAsync ops (length d) off 0 False ?t =
      (Inr (take (length d) (drop off (cont b)), length (take (length d) (drop off (cont b)))),
       ?t\<lparr>sp_backing := c\<rparr>)"
    using c s plain by (simp add: sp_ReadInternalAsync_def sp_run sp_inv_def)
  then have "sp_ReadAsync ops (length d) off ?t =
      (Inr (take (length d) (drop off (cont (sp_backing ?t)))), ?t\<lparr>sp_backing := c\<rparr>)"
    by (simp add: sp_ReadAsync_def sp_run del: length_take take_take)
  then show ?thesis using b(1,3) by (auto simp: sp_WriteAsync_def)
qed

end

interpretation simple_std: content_stream sa_vtable sa_inv sa_cont sa_at sa_out "2 ^ 31"
  by unfold_locales

section \<open>Properties\<close>

text \<open>
  Growing a stream by setting its size never works. The method holds the stream's
  mutex when it appends zeros, and appending starts by asking for the position, which takes
  the mutex again: the calling thread waits for itself. Nothing has been written by then.
\<close>

theorem simple_grow_deadlocks:
  assumes "\<not> sp_locked s" and "sp_ContentSize s < n"
  shows "sp_SetSize ops n s = (Inl MutexRelocked, s)"
  using assms
  by (simp add: sp_SetSize_def sp_AppendZeros_def sp_Position_def sp_guard_free sp_guard_held sx_simps)

theorem simple_grow_deadlocks_witness:
  "sp_SetSize sa_vtable 10 \<lparr>sp_locked = False, sp_provider = None, sp_backing = sample_adapter,
      sp_ContentStart = 0, sp_ContentSize = 4\<rparr> =
    (Inl MutexRelocked, \<lparr>sp_locked = False, sp_provider = None, sp_backing = sample_adapter,
      sp_ContentStart = 0, sp_ContentSize = 4\<rparr>)"
  by (rule simple_grow_deadlocks) simp_all

text \<open>
  A plain-text stream that starts at offset \<open>k\<close> of its backing stream writes at
  \<open>k + off\<close> but reads at \<open>off\<close>: what a read returns is the backing content at the
  caller's offset, not the bytes just written there.
\<close>

lemma simple_plain_read_ignores_start:
  assumes "simple_std.sp_inv s" and "sa_out (sp_backing s)" and "sp_provider s = None"
    and "off + length d \<le> sp_ContentSize s"
  shows "\<exists>t u. sp_WriteAsync sa_vtable d off s = (Inr (length d), t) \<and>
    sa_cont (sp_backing t) = put_at (sa_cont (sp_backing s)) (sp_ContentStart s + off) d \<and>
    sp_ReadAsync sa_vtable (length d) off t =
      (Inr (take (length d) (drop off (sa_cont (sp_backing t)))), u)"
  using simple_std.plain_write_read [OF assms] std_stream.cont_bound [of "sp_backing s"] assms(1)
  by (simp add: simple_std.sp_inv_def)

lemma simple_plain_read_ignores_start_witness:
  "\<exists>t u. sp_WriteAsync sa_vtable [9] 1 \<lparr>sp_locked = False, sp_provider = None,
        sp_backing = sample_adapter, sp_ContentStart = 2, sp_ContentSize = 2\<rparr> = (Inr (length [9::byte]), t) \<and>
    sa_cont (sp_backing t) = put_at (sa_cont (sp_backing \<lparr>sp_locked = False, sp_provider = None,
        sp_backing = sample_adapter, sp_ContentStart = 2, sp_ContentSize = 2\<rparr>))
      (sp_ContentStart \<lparr>sp_locked = False, sp_provider = None,
        sp_backing = sample_adapter, sp_ContentStart = 2, sp_ContentSize = 2\<rparr> + 1) [9] \<and>
    sp_ReadAsync sa_vtable (length [9::byte]) 1 t =
      (Inr (take (length [9::byte]) (drop 1 (sa_cont (sp_backing t)))), u)"
  by (rule simple_plain_read_ignores_start)
    (simp_all add: simple_std.sp_inv_def sample_adapter_def StdStreamAdapter_io_def sa_inv_def sa_cont_def)

end
