(* ===== verification/CachedBlock.thy ===== *)
theory CachedBlock
  imports SimpleStream
begin

text \<open>
  \<open>CachedBlock\<close> (\<open>sdk/rmscrypto_sdk/CryptoAPI/CachedBlock.cpp\<close>): the one decrypted
  block that a block-based protected stream keeps, with the rules for when it is written
  back, for which block is the final one, and for the size of the stream while a write is
  pending.
\<close>

section \<open>State\<close>

text \<open>
  The cache starts at the largest 64-bit number while no block is loaded. \<open>cb_junk\<close> is
  the value of the local variable that \<open>RewriteFinalBlock\<close> leaves uninitialised.
\<close>

record 's CachedBlock =
  cb_Simple :: "'s SimpleProtectedStream"
  cb_BlockSize :: nat
  cb_CacheStart :: nat
  cb_CacheSize :: nat
  cb_cache :: "byte list"
  cb_FinalBlockHasBeenWritten :: bool
  cb_WritePending :: bool
  cb_junk :: byte

definition CachedBlock_create ::
  "byte \<Rightarrow> 's SimpleProtectedStream \<Rightarrow> nat \<Rightarrow> 's CachedBlock" where
  "CachedBlock_create junk pSimple u64BlockSize =
     \<lparr>cb_Simple = pSimple, cb_BlockSize = u64BlockSize, cb_CacheStart = u64_max,
      cb_CacheSize = 0, cb_cache = replicate u64BlockSize 0,
      cb_FinalBlockHasBeenWritten = False, cb_WritePending = False, cb_junk = junk\<rparr>"

definition cb_sp :: "(exn, 's SimpleProtectedStream, 'a) sx \<Rightarrow> (exn, 's CachedBlock, 'a) sx" where
  "cb_sp = zoom cb_Simple (\<lambda>t s. s\<lparr>cb_Simple := t\<rparr>)"

section \<open>Block numbers and the size\<close>

text \<open>
  \<open>CalculateBlockNumber\<close> asks \<open>GetSizeInternal\<close> for the size only when the final block
  has been written, and \<open>GetSizeInternal\<close> asks for a block number only when it has not;
  so the mutual recursion is unfolded once here, and \<open>CalculateBlockNumber_size\<close> states
  the equation of the code.
\<close>

definition cb_CalculateBlockNumber :: "nat \<Rightarrow> (exn, 's CachedBlock, nat) sx" where
  "cb_CalculateBlockNumber u64Position =
     bnd (gets (\<lambda>s. u64Position div cb_BlockSize s)) (\<lambda>n.
     bnd (gets cb_FinalBlockHasBeenWritten) (\<lambda>finalWritten.
       if finalWritten
       then bnd (cb_sp sp_Size) (\<lambda>total.
            bnd (gets (\<lambda>s. mul64 n (cb_BlockSize s))) (\<lambda>start.
              if start = total \<and> u64Position \<noteq> total \<and> 0 < n
              then ret (to_u32 (n - 1)) else ret (to_u32 n)))
       else ret (to_u32 n)))"

definition cb_GetSizeInternal :: "(exn, 's CachedBlock, nat) sx" where
  "cb_GetSizeInternal =
     bnd (gets (\<lambda>s. cb_WritePending s \<and> \<not> cb_FinalBlockHasBeenWritten s)) (\<lambda>cached.
       if cached
       then bnd (gets cb_CacheStart) (\<lambda>start.
            bnd (cb_CalculateBlockNumber start) (\<lambda>n.
              gets (\<lambda>s. add64 (mul64 n (cb_BlockSize s)) (cb_CacheSize s))))
       else cb_sp sp_Size)"

text \<open>Whether the block at an offset reaches the size of the encrypted stream.\<close>

definition cb_reaches_end :: "nat \<Rightarrow> (exn, 's CachedBlock, bool) sx" where
  "cb_reaches_end start =
     bnd (cb_sp sp_Size) (\<lambda>total. gets (\<lambda>s. total \<le> add64 start (cb_BlockSize s)))"

section \<open>Loading and writing back\<close>

definition cb_write_back :: "'s IStream \<Rightarrow> nat \<Rightarrow> (exn, 's CachedBlock, unit) sx" where
  "cb_write_back ops u64Position =
     bnd (gets cb_CacheStart) (\<lambda>start.
     bnd (cb_reaches_end start) (\<lambda>isLast.
     bnd (gets (\<lambda>s. isLast \<and> u64Position < add64 start (cb_BlockSize s))) (\<lambda>isFinal.
     bnd (cb_CalculateBlockNumber start) (\<lambda>n.
     bnd (gets (\<lambda>s. take (cb_CacheSize s) (cb_cache s))) (\<lambda>d.
     bnd (cb_sp (sp_WriteInternalAsync ops d start n isFinal)) (\<lambda>_.
     seqx (if isFinal then modify (\<lambda>s. s\<lparr>cb_FinalBlockHasBeenWritten := True\<rparr>) else ret ())
          (modify (\<lambda>s. s\<lparr>cb_WritePending := False\<rparr>))))))))"

definition cb_load :: "'s IStream \<Rightarrow> nat \<Rightarrow> (exn, 's CachedBlock, unit) sx" where
  "cb_load ops u32BlockNumber =
     seqx (modify (\<lambda>s. s\<lparr>cb_CacheStart := mul64 u32BlockNumber (cb_BlockSize s)\<rparr>))
     (bnd (gets cb_CacheStart) (\<lambda>start.
      bnd (cb_reaches_end start) (\<lambda>isFinal.
      bnd (gets cb_BlockSize) (\<lambda>B.
      bnd (cb_sp (sp_ReadInternalAsync ops B start u32BlockNumber isFinal)) (\<lambda>(d, n).
        modify (\<lambda>s. s\<lparr>cb_cache := put_at (cb_cache s) 0 d, cb_CacheSize := n\<rparr>))))))"

definition cb_UpdateBlock :: "'s IStream \<Rightarrow> nat \<Rightarrow> (exn, 's CachedBlock, unit) sx" where
  "cb_UpdateBlock ops u64Position =
     bnd (cb_CalculateBlockNumber u64Position) (\<lambda>u32BlockNumber.
     bnd (gets cb_CacheStart) (\<lambda>start.
     bnd (if start \<noteq> u64_max
          then bnd (cb_CalculateBlockNumber start) (\<lambda>n. ret (n = u32BlockNumber))
          else ret False) (\<lambda>upToDate.
       if upToDate then ret ()
       else
         seqx (bnd (gets cb_WritePending) (\<lambda>pending.
                 if pending then cb_write_back ops u64Position else ret ()))
              (cb_load ops u32BlockNumber))))"

section \<open>The cached bytes\<close>

definition cb_ReadFromBlock :: "nat \<Rightarrow> nat \<Rightarrow> 's CachedBlock \<Rightarrow> byte list" where
  "cb_ReadFromBlock u64Position u64Size s =
     (if cb_CacheStart s \<le> u64Position \<and> u64Position < add64 (cb_CacheStart s) (cb_CacheSize s)
      then let k = u64Position - cb_CacheStart s
           in take (min u64Size (cb_CacheSize s - k)) (drop k (cb_cache s))
      else [])"

definition cb_WriteToBlock :: "byte list \<Rightarrow> nat \<Rightarrow> (exn, 's CachedBlock, nat) sx" where
  "cb_WriteToBlock pbBuffer u64Position =
     bnd (gets (\<lambda>s. cb_CacheStart s \<le> u64Position \<and>
                    u64Position < add64 (cb_CacheStart s) (cb_BlockSize s))) (\<lambda>inside.
       if inside
       then
         bnd (gets (\<lambda>s. u64Position - cb_CacheStart s)) (\<lambda>k.
         bnd (gets (\<lambda>s. min (length pbBuffer) (cb_BlockSize s - k))) (\<lambda>n.
         seqx (if 0 < n then modify (\<lambda>s. s\<lparr>cb_WritePending := True\<rparr>) else ret ())
         (seqx (modify (\<lambda>s. s\<lparr>cb_cache := put_at (cb_cache s) k (take n pbBuffer),
                             cb_CacheSize := max (cb_CacheSize s) (k + n)\<rparr>))
         (bnd (gets cb_CacheStart) (\<lambda>start.
          bnd (cb_reaches_end start) (\<lambda>isFinal.
          seqx (if isFinal then modify (\<lambda>s. s\<lparr>cb_FinalBlockHasBeenWritten := False\<rparr>) else ret ())
               (ret n)))))))
       else ret 0)"

definition cb_RewriteFinalBlock :: "'s IStream \<Rightarrow> nat \<Rightarrow> (exn, 's CachedBlock, unit) sx" where
  "cb_RewriteFinalBlock ops newSize =
     (if newSize \<noteq> 0
      then
        seqx (cb_UpdateBlock ops (newSize - 1))
        (bnd (gets (\<lambda>s. case cb_ReadFromBlock (newSize - 1) 1 s of [] \<Rightarrow> cb_junk s | b # _ \<Rightarrow> b)) (\<lambda>b.
         seqx (modify (\<lambda>s. s\<lparr>cb_FinalBlockHasBeenWritten := False\<rparr>))
         (bnd (cb_WriteToBlock [b] (newSize - 1)) (\<lambda>_. ret ()))))
      else ret ())"

definition cb_Flush :: "'s IStream \<Rightarrow> (exn, 's CachedBlock, bool) sx" where
  "cb_Flush ops =
     bnd (gets (\<lambda>s. if cb_CacheStart s = u64_max then 0 else cb_CacheStart s)) (\<lambda>cacheStart.
     bnd (cb_reaches_end cacheStart) (\<lambda>isFinal.
     bnd (cb_CalculateBlockNumber cacheStart) (\<lambda>n.
     bnd (gets (\<lambda>s. take (cb_CacheSize s) (cb_cache s))) (\<lambda>d.
     bnd (cb_sp (sp_WriteInternalAsync ops d cacheStart n isFinal)) (\<lambda>_.
     seqx (if isFinal then modify (\<lambda>s. s\<lparr>cb_FinalBlockHasBeenWritten := True\<rparr>) else ret ())
     (seqx (modify (\<lambda>s. s\<lparr>cb_WritePending := False\<rparr>))
           (cb_sp (sp_Flush ops))))))))"

definition cb_SizeInternal :: "nat \<Rightarrow> (exn, 's CachedBlock, unit) sx" where
  "cb_SizeInternal u64Size =
     bnd (gets cb_CacheStart) (\<lambda>start.
     bnd (cb_CalculateBlockNumber start) (\<lambda>n.
     bnd (gets (\<lambda>s. mul64 n (cb_BlockSize s))) (\<lambda>u64BlockPosition.
       if u64Size < u64BlockPosition
       then throw (RMSCryptoInvalidArgumentException ''Invalid argument'')
       else modify (\<lambda>s. s\<lparr>cb_CacheSize := min (cb_CacheSize s) (u64Size - u64BlockPosition)\<rparr>))))"

section \<open>Symbolic execution\<close>

lemma cb_sp_app: "cb_sp m s = (case m (cb_Simple s) of (r, t) \<Rightarrow> (r, s\<lparr>cb_Simple := t\<rparr>))"
  by (simp add: cb_sp_def zoom_app)

lemmas cb_run = cb_sp_app sp_Size_free sx_simps

lemma cb_same_Simple [simp]: "s\<lparr>cb_Simple := cb_Simple s\<rparr> = s"
  by (cases s) simp

text \<open>The equation of the code for block numbers, with the call of \<open>GetSizeInternal\<close>.\<close>

lemma CalculateBlockNumber_size:
  "cb_CalculateBlockNumber pos s =
     (if cb_FinalBlockHasBeenWritten s
      then bnd cb_GetSizeInternal (\<lambda>total t.
             let n = pos div cb_BlockSize s
             in if mul64 n (cb_BlockSize s) = total \<and> pos \<noteq> total \<and> 0 < n
                then ret (to_u32 (n - 1)) t else ret (to_u32 n) t) s
      else ret (to_u32 (pos div cb_BlockSize s)) s)"
  by (auto simp: cb_CalculateBlockNumber_def cb_GetSizeInternal_def cb_run Let_def
      split: prod.splits sum.splits)

lemma CalculateBlockNumber_open:
  "\<not> cb_FinalBlockHasBeenWritten s \<Longrightarrow>
   cb_CalculateBlockNumber pos s = (Inr (to_u32 (pos div cb_BlockSize s)), s)"
  by (simp add: CalculateBlockNumber_size ret_app)

lemma reaches_end_free:
  "\<not> sp_locked (cb_Simple s) \<Longrightarrow>
   cb_reaches_end start s = (Inr (sp_ContentSize (cb_Simple s) \<le> add64 start (cb_BlockSize s)), s)"
  by (simp add: cb_reaches_end_def cb_run)

lemma GetSizeInternal_pending:
  assumes "cb_WritePending s" and "\<not> cb_FinalBlockHasBeenWritten s"
  shows "cb_GetSizeInternal s =
    (Inr (add64 (mul64 (to_u32 (cb_CacheStart s div cb_BlockSize s)) (cb_BlockSize s)) (cb_CacheSize s)), s)"
  using assms by (simp add: cb_GetSizeInternal_def CalculateBlockNumber_open sx_simps)

lemma GetSizeInternal_written:
  assumes "\<not> cb_WritePending s" and "\<not> sp_locked (cb_Simple s)"
  shows "cb_GetSizeInternal s = (Inr (sp_ContentSize (cb_Simple s)), s)"
  using assms by (simp add: cb_GetSizeInternal_def cb_run)

end
