(* ===== verification/BlockStream.thy ===== *)
theory BlockStream
  imports CachedBlock
begin

text \<open>
  \<open>BlockBasedProtectedStream\<close>
  (\<open>sdk/rmscrypto_sdk/CryptoAPI/BlockBasedProtectedStream.cpp\<close>): the random-access
  stream of plain bytes that callers see, kept as encrypted blocks in a backing stream
  through one cached block.
\<close>

section \<open>State\<close>

text \<open>The cached block and the stream share one \<open>SimpleProtectedStream\<close>, kept in the block.\<close>

record 's BlockBasedProtectedStream =
  bs_locked :: bool
  bs_cb :: "'s CachedBlock"
  bs_Position :: nat
  bs_IsPositionValid :: bool
  bs_NewSize :: nat
  bs_IsPlainText :: bool

definition BlockBasedProtectedStream_Create ::
  "'s IStream \<Rightarrow> byte \<Rightarrow> ICryptoProvider option \<Rightarrow> 's option \<Rightarrow> nat \<Rightarrow> nat \<Rightarrow> nat
   \<Rightarrow> exn + 's BlockBasedProtectedStream" where
  "BlockBasedProtectedStream_Create ops junk prov backing u64ContentStart u64ContentSize u64BlockSize =
     bindE (SimpleProtectedStream_create ops prov backing u64ContentStart u64ContentSize) (\<lambda>sp.
       Inr \<lparr>bs_locked = False, bs_cb = CachedBlock_create junk sp u64BlockSize, bs_Position = 0,
            bs_IsPositionValid = True, bs_NewSize = 0, bs_IsPlainText = (prov = None)\<rparr>)"

definition bs_cached :: "(exn, 's CachedBlock, 'a) sx \<Rightarrow> (exn, 's BlockBasedProtectedStream, 'a) sx" where
  "bs_cached = zoom bs_cb (\<lambda>c s. s\<lparr>bs_cb := c\<rparr>)"

definition bs_simple ::
  "(exn, 's SimpleProtectedStream, 'a) sx \<Rightarrow> (exn, 's BlockBasedProtectedStream, 'a) sx" where
  "bs_simple m = bs_cached (cb_sp m)"

text \<open>The mutex, taken for a scope or by explicit calls.\<close>

definition bs_guard ::
  "(exn, 's BlockBasedProtectedStream, 'a) sx \<Rightarrow> (exn, 's BlockBasedProtectedStream, 'a) sx" where
  "bs_guard = with_mutex bs_locked (\<lambda>b s. s\<lparr>bs_locked := b\<rparr>)"

definition bs_lock :: "(exn, 's BlockBasedProtectedStream, unit) sx" where
  "bs_lock s = (if bs_locked s then (Inl MutexRelocked, s) else (Inr (), s\<lparr>bs_locked := True\<rparr>))"

definition bs_unlock :: "(exn, 's BlockBasedProtectedStream, unit) sx" where
  "bs_unlock s = (if bs_locked s then (Inr (), s\<lparr>bs_locked := False\<rparr>) else (Inl MutexNotOwned, s))"

section \<open>Size, position, capabilities\<close>

definition bs_SizeInner :: "(exn, 's BlockBasedProtectedStream, nat) sx" where
  "bs_SizeInner =
     bnd (gets bs_IsPlainText) (\<lambda>plain.
       if plain then bs_simple sp_Size else bs_cached cb_GetSizeInternal)"

definition bs_PositionInner :: "'s IStream \<Rightarrow> (exn, 's BlockBasedProtectedStream, nat) sx" where
  "bs_PositionInner ops =
     bnd (gets bs_IsPlainText) (\<lambda>plain.
       if plain then bs_simple (sp_Position ops) else gets bs_Position)"

definition bs_CanWriteInner :: "'s IStream \<Rightarrow> (exn, 's BlockBasedProtectedStream, bool) sx" where
  "bs_CanWriteInner ops = bs_simple (sp_CanWrite ops)"

definition bs_CanRead :: "'s IStream \<Rightarrow> (exn, 's BlockBasedProtectedStream, bool) sx" where
  "bs_CanRead ops = bs_guard (bs_simple (sp_CanRead ops))"

definition bs_CanWrite :: "'s IStream \<Rightarrow> (exn, 's BlockBasedProtectedStream, bool) sx" where
  "bs_CanWrite ops = bs_guard (bs_CanWriteInner ops)"

definition bs_Position_get :: "'s IStream \<Rightarrow> (exn, 's BlockBasedProtectedStream, nat) sx" where
  "bs_Position_get ops = bs_guard (bs_PositionInner ops)"

definition bs_Size :: "(exn, 's BlockBasedProtectedStream, nat) sx" where
  "bs_Size = bs_guard bs_SizeInner"

definition bs_SizeInternal :: "'s IStream \<Rightarrow> nat \<Rightarrow> (exn, 's BlockBasedProtectedStream, unit) sx" where
  "bs_SizeInternal ops n =
     seqx (bs_simple (sp_SetSize ops n))
     (seqx (modify (\<lambda>s. if n < bs_Position s then s\<lparr>bs_Position := sub64 n 1\<rparr> else s))
           (bs_cached (cb_SizeInternal n)))"

section \<open>The loops over blocks\<close>

text \<open>The write loop returns the number of bytes it could not place.\<close>

function bs_write_loop ::
  "'s IStream \<Rightarrow> byte list \<Rightarrow> 's BlockBasedProtectedStream
   \<Rightarrow> (exn + nat) \<times> 's BlockBasedProtectedStream" where
  "bs_write_loop ops buffer s =
     (if buffer = [] then (Inr 0, s)
      else
        case bnd (gets bs_Position) (\<lambda>pos.
               seqx (bs_cached (cb_UpdateBlock ops pos)) (bs_cached (cb_WriteToBlock buffer pos))) s of
          (Inl e, t) \<Rightarrow> (Inl e, t)
        | (Inr n, t) \<Rightarrow>
          if n = 0 then (Inr (length buffer), t)
          else bs_write_loop ops (drop n buffer) (t\<lparr>bs_Position := add64 (bs_Position t) n\<rparr>))"
  by pat_completeness auto
termination
  by (relation "measure (\<lambda>(ops, d, s). length d)") auto

text \<open>The read loop returns the bytes it stored.\<close>

function bs_read_loop ::
  "'s IStream \<Rightarrow> nat \<Rightarrow> 's BlockBasedProtectedStream
   \<Rightarrow> (exn + byte list) \<times> 's BlockBasedProtectedStream" where
  "bs_read_loop ops u64Size s =
     (if u64Size = 0 then (Inr [], s)
      else
        case bnd (gets bs_Position) (\<lambda>pos.
             bnd bs_SizeInner (\<lambda>total.
               if pos < total
               then seqx (bs_cached (cb_UpdateBlock ops pos))
                      (bs_cached (gets (cb_ReadFromBlock pos u64Size)))
               else ret [])) s of
          (Inl e, t) \<Rightarrow> (Inl e, t)
        | (Inr d, t) \<Rightarrow>
          if d = [] then (Inr [], t)
          else
            case bs_read_loop ops (u64Size - length d) (t\<lparr>bs_Position := add64 (bs_Position t) (length d)\<rparr>) of
              (Inl e, u) \<Rightarrow> (Inl e, u)
            | (Inr d', u) \<Rightarrow> (Inr (d @ d'), u))"
  by pat_completeness auto
termination
  by (relation "measure (\<lambda>(ops, n, s). n)") auto

declare bs_write_loop.simps [simp del] bs_read_loop.simps [simp del]

section \<open>Seeking, growing and shrinking\<close>

text \<open>
  A seek past the end of a writable stream grows it, growing writes zeros, and writing
  seeks. The functions in this cycle take the seek as an argument, and the seek itself
  closes the cycle, with fuel for its depth and for the rounds of the loop that writes
  zeros. The checks that precede the future of a write (\<open>bs_write_checks\<close>) and the
  future itself (\<open>bs_write_task\<close>) are apart, because \<open>WriteAsync\<close> catches what the
  former throw.
\<close>

definition bs_write_checks ::
  "'s IStream \<Rightarrow> bool \<Rightarrow> nat \<Rightarrow> bool \<Rightarrow> (exn, 's BlockBasedProtectedStream, unit) sx" where
  "bs_write_checks ops null cbBuffer fLockResources =
     seqx (guardx (\<not> (0 < cbBuffer \<and> null)) (RMSCryptoInvalidArgumentException ''Invalid argument''))
     (bnd (if fLockResources then bs_CanWrite ops else bs_CanWriteInner ops) (\<lambda>w.
      seqx (guardx w (RMSCryptoInvalidArgumentException ''Invalid operation''))
      (bnd (gets bs_IsPlainText) (\<lambda>plain.
        if plain \<and> fLockResources then seqx bs_lock bs_unlock else ret ()))))"

definition bs_write_task ::
  "(nat \<Rightarrow> (exn, 's BlockBasedProtectedStream, unit) sx) \<Rightarrow> 's IStream \<Rightarrow> byte list \<Rightarrow> nat \<Rightarrow> bool
   \<Rightarrow> (exn, 's BlockBasedProtectedStream, nat) sx" where
  "bs_write_task seek ops buffer off fNeedLock =
     bnd (gets bs_IsPlainText) (\<lambda>plain.
       if plain then bs_simple (sp_WriteAsync ops buffer off)
       else
         seqx (if fNeedLock then bs_lock else ret ())
         (bnd (gets bs_IsPositionValid) (\<lambda>valid.
           if \<not> valid then throw (RMSCryptoInvalidArgumentException ''Invalid operation'')
           else
             bnd (catchx (seqx (seek off) (bs_write_loop ops buffer))
                   (\<lambda>e. if is_crypto e then seqx (if fNeedLock then bs_unlock else ret ()) (throw e)
                        else throw e)) (\<lambda>sizeRemaining.
             seqx (if fNeedLock then bs_unlock else ret ())
                  (ret (length buffer - sizeRemaining))))))"

primrec bs_fill_loop ::
  "nat \<Rightarrow> (nat \<Rightarrow> (exn, 's BlockBasedProtectedStream, unit) sx) \<Rightarrow> 's IStream \<Rightarrow> nat
   \<Rightarrow> (exn, 's BlockBasedProtectedStream, unit) sx" where
  "bs_fill_loop 0 seek ops newSize = throw NoReturn"
| "bs_fill_loop (Suc f) seek ops newSize =
     bnd (bs_cached cb_GetSizeInternal) (\<lambda>total.
       if total < newSize
       then
         bnd (gets (\<lambda>s. min (newSize - total) (cb_BlockSize (bs_cb s)))) (\<lambda>toWrite.
         bnd (bs_PositionInner ops) (\<lambda>pos.
         seqx (bs_write_checks ops False toWrite False)
         (bnd (bs_write_task seek ops (replicate toWrite 0) pos False) (\<lambda>_.
           bs_fill_loop f seek ops newSize))))
       else ret ())"

definition bs_FillWithZeros ::
  "nat \<Rightarrow> (nat \<Rightarrow> (exn, 's BlockBasedProtectedStream, unit) sx) \<Rightarrow> 's IStream \<Rightarrow> nat
   \<Rightarrow> (exn, 's BlockBasedProtectedStream, unit) sx" where
  "bs_FillWithZeros f seek ops newSize =
     bnd (bs_cached cb_GetSizeInternal) (\<lambda>total.
     seqx (seek total) (bs_fill_loop f seek ops newSize))"

definition bs_ProcessSizeChangeRequest ::
  "nat \<Rightarrow> (nat \<Rightarrow> (exn, 's BlockBasedProtectedStream, unit) sx) \<Rightarrow> 's IStream
   \<Rightarrow> (exn, 's BlockBasedProtectedStream, unit) sx" where
  "bs_ProcessSizeChangeRequest f seek ops =
     bnd (bs_cached cb_GetSizeInternal) (\<lambda>oldSize.
     bnd (bs_PositionInner ops) (\<lambda>originalPosition.
     bnd (gets bs_NewSize) (\<lambda>newSize.
     seqx (if oldSize < newSize then bs_FillWithZeros f seek ops newSize
           else if newSize < oldSize
           then seqx (bs_cached (cb_RewriteFinalBlock ops newSize)) (bs_SizeInternal ops newSize)
           else ret ())
     (bnd bs_SizeInner (\<lambda>total. seek (min originalPosition total))))))"

definition bs_SetSizeInner ::
  "nat \<Rightarrow> (nat \<Rightarrow> (exn, 's BlockBasedProtectedStream, unit) sx) \<Rightarrow> 's IStream \<Rightarrow> nat
   \<Rightarrow> (exn, 's BlockBasedProtectedStream, unit) sx" where
  "bs_SetSizeInner f seek ops value =
     bnd bs_SizeInner (\<lambda>total.
       if total \<noteq> value
       then
         bnd (gets bs_IsPlainText) (\<lambda>plain.
           if plain then bs_simple (sp_SetSize ops value)
           else seqx (modify (\<lambda>s. s\<lparr>bs_NewSize := value\<rparr>)) (bs_ProcessSizeChangeRequest f seek ops))
       else ret ())"

primrec bs_SeekInternal ::
  "nat \<Rightarrow> 's IStream \<Rightarrow> nat \<Rightarrow> (exn, 's BlockBasedProtectedStream, unit) sx" where
  "bs_SeekInternal 0 ops u64Position = throw NoReturn"
| "bs_SeekInternal (Suc f) ops u64Position =
     bnd (gets bs_IsPlainText) (\<lambda>plain.
       if plain then bs_simple (sp_Seek ops u64Position)
       else
         bnd bs_SizeInner (\<lambda>total.
         bnd (if total < u64Position
              then bnd (bs_CanWriteInner ops) (\<lambda>w.
                     if w
                     then seqx (bs_SetSizeInner f (bs_SeekInternal f ops) ops u64Position) (ret True)
                     else ret False)
              else ret True) (\<lambda>ok.
           if ok
           then modify (\<lambda>s. s\<lparr>bs_IsPositionValid := True, bs_Position := u64Position\<rparr>)
           else modify (\<lambda>s. s\<lparr>bs_IsPositionValid := False\<rparr>))))"

section \<open>The methods\<close>

definition bs_ReadAsync ::
  "nat \<Rightarrow> 's IStream \<Rightarrow> bool \<Rightarrow> nat \<Rightarrow> nat \<Rightarrow> (exn, 's BlockBasedProtectedStream, byte list) sx" where
  "bs_ReadAsync f ops null cbBuffer cbOffset =
     seqx (guardx (\<not> (0 < cbBuffer \<and> null)) (RMSCryptoInvalidArgumentException ''Invalid argument''))
     (bnd (bs_CanRead ops) (\<lambda>r.
      seqx (guardx r (RMSCryptoInvalidArgumentException ''Invalid operation''))
      (bnd (bs_guard
             (bnd (gets bs_IsPlainText) (\<lambda>plain.
              bnd (gets bs_IsPositionValid) (\<lambda>valid.
                if plain then ret True
                else if \<not> valid then throw (RMSCryptoInvalidArgumentException ''Invalid operation'')
                else ret False)))) (\<lambda>plain.
        if plain then bs_simple (sp_ReadAsync ops cbBuffer cbOffset)
        else bs_guard (seqx (bs_SeekInternal f ops cbOffset) (bs_read_loop ops cbBuffer))))))"

definition bs_WriteAsync ::
  "nat \<Rightarrow> 's IStream \<Rightarrow> bool \<Rightarrow> byte list \<Rightarrow> nat \<Rightarrow> (exn, 's BlockBasedProtectedStream, nat) sx" where
  "bs_WriteAsync f ops null buffer cbOffset =
     seqx (catchx (bs_write_checks ops null (length buffer) True)
            (\<lambda>e. if is_std e then seqx bs_unlock (throw StdException) else throw e))
          (bs_write_task (bs_SeekInternal f ops) ops buffer cbOffset True)"

definition bs_FlushAsync :: "'s IStream \<Rightarrow> (exn, 's BlockBasedProtectedStream, bool) sx" where
  "bs_FlushAsync ops =
     bnd (gets bs_IsPlainText) (\<lambda>plain.
       if plain then seqx (bs_guard (ret ())) (bs_simple (sp_FlushAsync ops))
       else bs_guard (bs_cached (cb_Flush ops)))"

definition bs_Read :: "nat \<Rightarrow> 's IStream \<Rightarrow> nat \<Rightarrow> (exn, 's BlockBasedProtectedStream, byte list) sx" where
  "bs_Read f ops cbBuffer = bnd (bs_Position_get ops) (\<lambda>p. bs_ReadAsync f ops False cbBuffer p)"

definition bs_Write :: "nat \<Rightarrow> 's IStream \<Rightarrow> byte list \<Rightarrow> (exn, 's BlockBasedProtectedStream, nat) sx" where
  "bs_Write f ops buffer = bnd (bs_Position_get ops) (\<lambda>p. bs_WriteAsync f ops False buffer p)"

definition bs_Flush :: "'s IStream \<Rightarrow> (exn, 's BlockBasedProtectedStream, bool) sx" where
  "bs_Flush ops = bs_FlushAsync ops"

definition bs_Seek :: "nat \<Rightarrow> 's IStream \<Rightarrow> nat \<Rightarrow> (exn, 's BlockBasedProtectedStream, unit) sx" where
  "bs_Seek f ops u64Position = bs_guard (bs_SeekInternal f ops u64Position)"

definition bs_SetSize :: "nat \<Rightarrow> 's IStream \<Rightarrow> nat \<Rightarrow> (exn, 's BlockBasedProtectedStream, unit) sx" where
  "bs_SetSize f ops value =
     bnd (bs_CanWrite ops) (\<lambda>w.
     seqx (guardx w (RMSCryptoInvalidArgumentException ''Invalid operation''))
          (bs_guard (bs_SetSizeInner f (bs_SeekInternal f ops) ops value)))"

text \<open>The clone takes no lock of the stream it copies and starts with an empty cache.\<close>

definition bs_Clone ::
  "'s IStream \<Rightarrow> (exn, 's BlockBasedProtectedStream, 's BlockBasedProtectedStream) sx" where
  "bs_Clone ops =
     bnd (bs_simple (sp_Clone ops)) (\<lambda>sp.
     gets (\<lambda>s. \<lparr>bs_locked = False,
                bs_cb = CachedBlock_create (cb_junk (bs_cb s)) sp (cb_BlockSize (bs_cb s)),
                bs_Position = 0, bs_IsPositionValid = True, bs_NewSize = 0,
                bs_IsPlainText = bs_IsPlainText s\<rparr>))"

definition bs_vtable :: "nat \<Rightarrow> 's IStream \<Rightarrow> 's BlockBasedProtectedStream IStream" where
  "bs_vtable f ops =
     \<lparr>is_ReadAsync = bs_ReadAsync f ops False, is_WriteAsync = bs_WriteAsync f ops False,
      is_FlushAsync = bs_FlushAsync ops, is_Read = bs_Read f ops, is_Write = bs_Write f ops,
      is_Flush = bs_Flush ops, is_Clone = bs_Clone ops, is_Seek = bs_Seek f ops,
      is_CanRead = bs_CanRead ops, is_CanWrite = bs_CanWrite ops,
      is_Position = bs_Position_get ops, is_Size = bs_Size, is_SetSize = bs_SetSize f ops\<rparr>"

end
