(* ===== verification/StreamReading.thy ===== *)
theory StreamReading
  imports BlockStream
begin

text \<open>
  Random-access reading of protected content, proved once for every provider that keeps the
  contract \<open>block_provider\<close> over every backing stream that keeps the contract
  \<open>random_access_stream\<close>: a stream opened over the block-wise ciphertext of a text
  returns the slices of the text.
\<close>

lemma bs_cached_app: "bs_cached m s = (case m (bs_cb s) of (r, c) \<Rightarrow> (r, s\<lparr>bs_cb := c\<rparr>))"
  by (simp add: bs_cached_def zoom_app)

lemma bs_simple_app:
  "bs_simple m s = (case m (cb_Simple (bs_cb s)) of
     (r, t) \<Rightarrow> (r, s\<lparr>bs_cb := (bs_cb s)\<lparr>cb_Simple := t\<rparr>\<rparr>))"
  by (simp add: bs_simple_def bs_cached_app cb_sp_app split: prod.splits)

lemma bs_guard_free: "\<not> bs_locked s \<Longrightarrow>
    bs_guard m s = (case m (s\<lparr>bs_locked := True\<rparr>) of (r, t) \<Rightarrow> (r, t\<lparr>bs_locked := False\<rparr>))"
  by (simp add: bs_guard_def with_mutex_def)

lemma bs_guard_held: "bs_locked s \<Longrightarrow> bs_guard m s = (Inl MutexRelocked, s)"
  by (simp add: bs_guard_def with_mutex_def)

lemma bs_same_cb [simp]: "s\<lparr>bs_cb := bs_cb s\<rparr> = s"
  by (cases s) simp

lemma bs_unlocked_same [simp]: "\<not> bs_locked s \<Longrightarrow> s\<lparr>bs_locked := False\<rparr> = s"
  by (cases s) simp

lemmas bs_run = bs_cached_app bs_simple_app bs_guard_free sp_Size_free sx_simps

abbreviation read_round ::
  "'s IStream \<Rightarrow> nat \<Rightarrow> (exn, 's BlockBasedProtectedStream, byte list) sx" where
  "read_round ops n \<equiv>
     bnd (gets bs_Position) (\<lambda>pos. bnd bs_SizeInner (\<lambda>total.
       if pos < total
       then seqx (bs_cached (cb_UpdateBlock ops pos)) (bs_cached (gets (cb_ReadFromBlock pos n)))
       else ret []))"

lemma read_loop_step:
  assumes "0 < n" and "read_round ops n s = (Inr d, t)" and "d \<noteq> []"
    and "add64 (bs_Position t) (length d) = q"
    and "bs_read_loop ops (n - length d) (t\<lparr>bs_Position := q\<rparr>) = (Inr d', u)"
  shows "bs_read_loop ops n s = (Inr (d @ d'), u)"
  using assms by (subst bs_read_loop.simps) simp

lemma read_loop_stop:
  assumes "read_round ops n s = (Inr [], t)" and "0 < n"
  shows "bs_read_loop ops n s = (Inr [], t)"
  using assms by (subst bs_read_loop.simps) simp

text \<open>A client that reads pieces, each given by its offset and its length.\<close>

primrec read_script ::
  "nat \<Rightarrow> 's IStream \<Rightarrow> (nat \<times> nat) list \<Rightarrow> (exn, 's BlockBasedProtectedStream, byte list list) sx" where
  "read_script f ops [] = ret []"
| "read_script f ops (r # rs) =
     bnd (bs_ReadAsync f ops False (snd r) (fst r)) (\<lambda>d.
     bnd (read_script f ops rs) (\<lambda>ds. ret (d # ds)))"

locale protected_content =
  block_provider valid vtable B E F fin + content_stream ops inv cont at writable lim
  for valid :: "'p \<Rightarrow> bool" and vtable :: "'p \<Rightarrow> ICryptoProvider" and B E F fin
    and ops :: "'s IStream" and inv cont at writable lim
begin

text \<open>
  The state of a cached block through which \<open>layout p P\<close> is read: nothing is pending,
  and the cache is empty or holds one whole block of the text.
\<close>

definition reader :: "'p \<Rightarrow> byte list \<Rightarrow> 's CachedBlock \<Rightarrow> bool" where
  "reader p P c \<longleftrightarrow>
     valid p \<and> fin (length P) \<and> sp_inv (cb_Simple c) \<and>
     sp_provider (cb_Simple c) = Some (vtable p) \<and>
     sp_ContentSize (cb_Simple c) = length (layout p P) \<and>
     take (length (layout p P)) (drop (sp_ContentStart (cb_Simple c)) (cont (sp_backing (cb_Simple c)))) =
       layout p P \<and>
     cb_BlockSize c = B \<and> \<not> cb_WritePending c \<and> \<not> cb_FinalBlockHasBeenWritten c \<and>
     length (cb_cache c) = B \<and>
     (cb_CacheStart c = u64_max \<or>
      (\<exists>j. cb_CacheStart c = j * B \<and> j * B < length (layout p P) \<and>
         cb_CacheSize c = length (take B (drop (j * B) P)) \<and>
         take (cb_CacheSize c) (cb_cache c) = take B (drop (j * B) P)))"

lemma reader_cached:
  assumes "reader p P c" and "cb_CacheStart c \<noteq> u64_max"
  obtains j where "cb_CacheStart c = j * B" and "j * B < length (layout p P)"
    and "cb_CacheSize c = length (take B (drop (j * B) P))"
    and "take (cb_CacheSize c) (cb_cache c) = take B (drop (j * B) P)"
  using assms unfolding reader_def by blast

lemma reader_small:
  assumes "reader p P c"
  shows "length (layout p P) < 2 ^ 31" and "length P \<le> length (layout p P)"
  using assms sp_inv_small [of "cb_Simple c"] length_layout(1) [of p P]
  by (simp_all add: reader_def)

text \<open>What is read of a block before decryption, and what decryption makes of it.\<close>

lemma reader_window:
  assumes "reader p P c" and "off \<le> length (layout p P)"
  shows "window (cb_Simple c) off n = take n (drop off (layout p P))"
proof -
  let ?L = "layout p P" and ?c = "drop (sp_ContentStart (cb_Simple c)) (cont (sp_backing (cb_Simple c)))"
  have "take (min n (length ?L - off)) (drop off ?c) = take n (take (length ?L - off) (drop off ?c))"
    by simp
  also have "take (length ?L - off) (drop off ?c) = drop off (take (length ?L) ?c)"
    by (simp add: drop_take)
  finally show ?thesis
    using assms by (simp add: window_def reader_def add.commute)
qed

lemma block_number_bound:
  assumes "j * B < n" and "n < 2 ^ 31"
  shows "j < 2 ^ 31" and "j + 1 < 2 ^ 32"
proof -
  have "j * 1 \<le> j * B" using B_pos by (intro mult_le_mono2) simp
  then have *: "j < 2 ^ 31" using assms by linarith
  then show "j < 2 ^ 31" "j + 1 < 2 ^ 32" by simp_all
qed

lemma decrypt_layout_block:
  assumes p: "valid p" and f: "fin (length P)" and small: "length (layout p P) < 2 ^ 31"
    and j: "j * B < length (layout p P)"
  defines "final \<equiv> length (layout p P) \<le> j * B + B"
  shows "cp_Decrypt (vtable p) (Some (take B (drop (j * B) (layout p P)))) j final (Some B) False =
    Inr (take B (drop (j * B) P), length (take B (drop (j * B) P)))"
proof -
  let ?L = "layout p P"
  have n: "j < 2 ^ 32" "j + 1 < 2 ^ 32" using block_number_bound [OF j small] by simp_all
  have LP: "length P \<le> length ?L" "length ?L \<le> (length P div B + 1) * B"
    using length_layout [OF p f] by simp_all
  show ?thesis
  proof (cases final)
    case False
    then have "(j + 1) * B < length ?L" by (simp add: final_def)
    then have "(j + 1) * B < (length P div B + 1) * B" using LP(2) by linarith
    then have "j + 1 < length P div B + 1" by (simp only: mult_less_cancel2)
    then have "j + 1 \<le> length P div B" by simp
    then have "(j + 1) * B \<le> length P"
      by (meson div_times_less_eq_dividend le_trans mult_le_mono1)
    then have "take B (drop (j * B) ?L) = E p j (take B (drop (j * B) P))"
      and len: "length (take B (drop (j * B) P)) = B"
      using layout_block [OF p] by simp_all
    then show ?thesis
      using False decrypt_block [OF p len _ n(1)] by simp
  next
    case True
    have "j * B < (length P div B + 1) * B" using j LP(2) by linarith
    then have "j < length P div B + 1" by (simp only: mult_less_cancel2)
    then have "j \<le> length P div B" by simp
    then have jP: "j * B \<le> length P"
      by (meson div_times_less_eq_dividend le_trans mult_le_mono1)
    let ?r = "drop (j * B) P"
    have L: "drop (j * B) ?L = cipher_text B (E p) (F p) j ?r"
      by (rule layout_from_block [OF p jP])
    have r: "length ?r \<le> B" using True LP(1) by (simp add: final_def)
    have "fin (length ?r)"
    proof (cases "length ?r = B")
      case False
      then have "length ?r < B" using r by simp
      then have "length P mod B = length ?r"
        using jP by (metis length_drop mod_less mod_mult_self3 le_add_diff_inverse)
      then show ?thesis using fin_mod [OF f] by simp
    qed (simp add: fin_B)
    moreover have "length (drop (j * B) ?L) \<le> B" using True by (simp add: final_def)
    ultimately show ?thesis
      using True decrypt_final [OF p r _ n(2), of B] L r by simp
  qed
qed

lemma update_reader:
  assumes c: "reader p P c" and pos: "pos < length (layout p P)"
  shows "\<exists>c'. cb_UpdateBlock ops pos c = (Inr (), c') \<and> reader p P c' \<and>
    cb_CacheStart c' = pos div B * B \<and>
    writable (sp_backing (cb_Simple c')) = writable (sp_backing (cb_Simple c))"
proof -
  let ?L = "layout p P" and ?j = "pos div B"
  let ?x = "take B (drop (?j * B) P)"
  have small: "length ?L < 2 ^ 31" "length P \<le> length ?L" using reader_small [OF c] by simp_all
  have jB: "?j * B \<le> pos" by simp
  then have j: "?j * B < length ?L" using pos by linarith
  have n: "?j < 2 ^ 31" using block_number_bound [OF j small(1)] by simp
  have u32: "to_u32 ?j = ?j" and mul: "mul64 ?j B = ?j * B" and add: "add64 (?j * B) B = ?j * B + B"
    using n j small B_bound by simp_all
  have blk: "cb_CalculateBlockNumber pos c = (Inr ?j, c)"
    using c u32 by (simp add: CalculateBlockNumber_open reader_def)
  have loaded: "\<exists>c'. cb_load ops ?j c = (Inr (), c') \<and> reader p P c' \<and> cb_CacheStart c' = ?j * B \<and>
    writable (sp_backing (cb_Simple c')) = writable (sp_backing (cb_Simple c))"
  proof -
    let ?d = "c\<lparr>cb_CacheStart := ?j * B\<rparr>"
    let ?fin = "length ?L \<le> ?j * B + B"
    have free: "\<not> sp_locked (cb_Simple c)" using c by (simp add: reader_def sp_inv_def)
    have "\<exists>b. sp_ReadInternalAsync ops B (?j * B) ?j ?fin (cb_Simple c) =
        (Inr (?x, length ?x), (cb_Simple c)\<lparr>sp_backing := b\<rparr>) \<and> same (sp_backing (cb_Simple c)) b"
    proof (rule sp_read_encrypted)
      show "sp_inv (cb_Simple c)" "sp_provider (cb_Simple c) = Some (vtable p)"
        "?j * B \<le> sp_ContentSize (cb_Simple c)" "B < 2 ^ 31"
        using c j B_bound by (simp_all add: reader_def)
      have w: "window (cb_Simple c) (?j * B) B = take B (drop (?j * B) ?L)"
        using j by (intro reader_window [OF c]) simp
      show "cp_Decrypt (vtable p) (Some (window (cb_Simple c) (?j * B) B)) ?j ?fin (Some B) False =
          Inr (?x, length ?x)"
        unfolding w using c small j by (intro decrypt_layout_block) (simp_all add: reader_def)
      show "?x = [] \<and> length ?x = 0" if "window (cb_Simple c) (?j * B) B = []"
        using that j B_pos unfolding w by simp
    qed
    then obtain b where b: "sp_ReadInternalAsync ops B (?j * B) ?j ?fin (cb_Simple c) =
        (Inr (?x, length ?x), (cb_Simple c)\<lparr>sp_backing := b\<rparr>)" "same (sp_backing (cb_Simple c)) b"
      by (elim exE) (rule that, erule conjunct1, erule conjunct2)
    let ?c' = "?d\<lparr>cb_Simple := (cb_Simple c)\<lparr>sp_backing := b\<rparr>, cb_cache := put_at (cb_cache c) 0 ?x,
      cb_CacheSize := length ?x\<rparr>"
    have "cb_BlockSize c = B" "sp_ContentSize (cb_Simple c) = length ?L" using c by (simp_all add: reader_def)
    then have "cb_load ops ?j c = (Inr (), ?c')"
      using b(1) free mul add by (simp add: cb_load_def reaches_end_free cb_run)
    moreover have "length ?x \<le> B" by simp
    then have "reader p P ?c'"
      using c b(2) j unfolding reader_def
      by (intro conjI disjI2 exI [of _ ?j])
        (simp_all add: sp_inv_def take_put_at_0 del: length_take)
    moreover have "cb_CacheStart ?c' = ?j * B" by simp
    moreover have "writable (sp_backing (cb_Simple ?c')) = writable (sp_backing (cb_Simple c))"
      using b(2) by simp
    ultimately show ?thesis by (intro exI [of _ ?c']) simp
  qed
  show ?thesis
  proof (cases "cb_CacheStart c = u64_max")
    case True
    then have "cb_UpdateBlock ops pos c = cb_load ops ?j c"
      using blk c by (simp add: cb_UpdateBlock_def sx_simps reader_def)
    then show ?thesis using loaded by simp
  next
    case False
    then obtain i where i: "cb_CacheStart c = i * B" "i * B < length ?L"
      using reader_cached [OF c] False by blast
    have "to_u32 (i * B div B) = i"
      using block_number_bound [OF i(2) small(1)] B_pos by simp
    then have "cb_CalculateBlockNumber (i * B) c = (Inr i, c)"
      using c by (simp add: CalculateBlockNumber_open reader_def)
    then have "cb_UpdateBlock ops pos c = (if i = ?j then (Inr (), c) else cb_load ops ?j c)"
      using False blk c i(1) by (simp add: cb_UpdateBlock_def sx_simps reader_def)
    then show ?thesis using loaded c i(1) by (cases "i = ?j") simp_all
  qed
qed

text \<open>The read loop delivers the text from the position on.\<close>

lemma read_from_block:
  assumes c: "reader p P c" and start: "cb_CacheStart c = pos div B * B" and pos: "pos < length (layout p P)"
  shows "cb_ReadFromBlock pos n c = take (min n (B - pos mod B)) (drop pos P)"
proof -
  let ?j = "pos div B"
  have small: "length (layout p P) < 2 ^ 31" using reader_small [OF c] by simp
  have "cb_CacheStart c < 2 ^ 31"
    using pos small start div_times_less_eq_dividend [of pos B] by linarith
  then have "cb_CacheStart c \<noteq> u64_max" by (simp add: u64_max_def)
  then obtain i where i: "cb_CacheStart c = i * B" "cb_CacheSize c = length (take B (drop (i * B) P))"
    "take (cb_CacheSize c) (cb_cache c) = take B (drop (i * B) P)"
    using reader_cached [OF c] by blast
  have "i * B = ?j * B" by (rule trans [OF i(1) [symmetric] start])
  then have size: "cb_CacheSize c = length (take B (drop (?j * B) P))"
    and cache: "take (cb_CacheSize c) (cb_cache c) = take B (drop (?j * B) P)"
    using i(2,3) by (simp_all only: \<open>i * B = ?j * B\<close>)
  have k: "pos - ?j * B = pos mod B" "pos = ?j * B + pos mod B" "pos mod B < B"
    using B_pos by (simp_all add: minus_div_mult_eq_mod)
  have "?j * B + B < 2 ^ 31 + 2 ^ 31"
    using pos small B_bound div_times_less_eq_dividend [of pos B] by linarith
  then have jB: "?j * B + B < 2 ^ 64" by simp
  have sz: "cb_CacheSize c \<le> B" by (simp add: size)
  have add: "add64 (cb_CacheStart c) (cb_CacheSize c) = ?j * B + cb_CacheSize c"
    using start sz jB by simp
  show ?thesis
  proof (cases "pos < length P")
    case True
    then have inside: "pos < ?j * B + cb_CacheSize c" using k by (simp add: size)
    have "take (min n (cb_CacheSize c - pos mod B)) (drop (pos mod B) (cb_cache c)) =
        take n (drop (pos mod B) (take (cb_CacheSize c) (cb_cache c)))"
      by (simp add: drop_take min.commute)
    also have "\<dots> = take n (drop (pos mod B) (take B (drop (?j * B) P)))"
      by (simp only: cache)
    also have "\<dots> = take n (take (B - pos mod B) (drop pos P))"
      using k(2) by (simp add: drop_take add.commute)
    finally show ?thesis
      using inside start add k(1) div_times_less_eq_dividend [of pos B]
      by (simp add: cb_ReadFromBlock_def Let_def)
  next
    case False
    moreover have "cb_CacheSize c \<le> length P - ?j * B" by (simp add: size)
    moreover have "?j * B \<le> pos" by simp
    ultimately have "\<not> pos < ?j * B + cb_CacheSize c" by linarith
    then show ?thesis using False add start by (simp add: cb_ReadFromBlock_def)
  qed
qed

lemma read_size:
  assumes "reader p P (bs_cb s)" and "\<not> bs_IsPlainText s"
  shows "bs_SizeInner s = (Inr (length (layout p P)), s)"
  using assms by (simp add: bs_SizeInner_def bs_run GetSizeInternal_written reader_def sp_inv_def)

text \<open>What a read leaves as it was.\<close>

definition bs_frame :: "'s BlockBasedProtectedStream \<Rightarrow> 's BlockBasedProtectedStream \<Rightarrow> bool" where
  "bs_frame s t \<longleftrightarrow> bs_locked t = bs_locked s \<and> bs_IsPositionValid t = bs_IsPositionValid s \<and>
     bs_IsPlainText t = bs_IsPlainText s \<and>
     writable (sp_backing (cb_Simple (bs_cb t))) = writable (sp_backing (cb_Simple (bs_cb s)))"

lemma read_loop:
  assumes "reader p P (bs_cb s)" and "\<not> bs_IsPlainText s"
  shows "\<exists>t. bs_read_loop ops n s = (Inr (take n (drop (bs_Position s) P)), t) \<and>
    reader p P (bs_cb t) \<and> bs_frame s t \<and>
    bs_Position t = bs_Position s + length (take n (drop (bs_Position s) P))"
  using assms
proof (induction n arbitrary: s rule: less_induct)
  case (less n)
  let ?pos = "bs_Position s" and ?L = "layout p P"
  note c = less.prems(1) and plain = less.prems(2)
  have small: "length ?L < 2 ^ 31" "length P \<le> length ?L" using reader_small [OF c] by simp_all
  note total = read_size [OF c plain]
  show ?case
  proof (cases "n = 0 \<or> \<not> ?pos < length ?L")
    case True
    then have "take n (drop ?pos P) = []" using small by auto
    moreover have "bs_read_loop ops n s = (Inr [], s)"
      using True total by (subst bs_read_loop.simps) (auto simp: sx_simps)
    ultimately show ?thesis using c by (intro exI [of _ s]) (auto simp: bs_frame_def)
  next
    case False
    then have n: "0 < n" and pos: "?pos < length ?L" by simp_all
    obtain c' where c': "cb_UpdateBlock ops ?pos (bs_cb s) = (Inr (), c')" "reader p P c'"
        "cb_CacheStart c' = ?pos div B * B"
        "writable (sp_backing (cb_Simple c')) = writable (sp_backing (cb_Simple (bs_cb s)))"
      using update_reader [OF c pos] by (elim exE conjE)
    let ?d = "take (min n (B - ?pos mod B)) (drop ?pos P)"
    have d: "cb_ReadFromBlock ?pos n c' = ?d" by (rule read_from_block [OF c'(2,3) pos])
    let ?t = "s\<lparr>bs_cb := c'\<rparr>"
    have step: "read_round ops n s = (Inr ?d, ?t)"
      using pos total c'(1) d by (simp add: bs_run)
    show ?thesis
    proof (cases "?d = []")
      case True
      have "0 < min n (B - ?pos mod B)" using B_pos n by simp
      then have "drop ?pos P = []" using True by (metis less_irrefl take_eq_Nil)
      then have "take n (drop ?pos P) = []" by simp
      moreover have "bs_read_loop ops n s = (Inr [], ?t)"
        using step unfolding True by (rule read_loop_stop [OF _ n])
      ultimately show ?thesis using c'(2,4) by (intro exI [of _ ?t]) (auto simp: bs_frame_def)
    next
      case False
      let ?u = "?t\<lparr>bs_Position := ?pos + length ?d\<rparr>"
      have "length ?d \<le> length P - ?pos" by simp
      then have "?pos + length ?d < 2 ^ 31" using small pos by linarith
      then have "?pos + length ?d < 2 ^ 64" by simp
      then have add: "add64 (bs_Position ?t) (length ?d) = ?pos + length ?d" by (simp del: length_take)
      have less_n: "n - length ?d < n" using False n by (cases ?d) simp_all
      have r: "reader p P (bs_cb ?u)" and np: "\<not> bs_IsPlainText ?u" using c'(2) plain by simp_all
      obtain v where v: "bs_read_loop ops (n - length ?d) ?u =
          (Inr (take (n - length ?d) (drop (bs_Position ?u) P)), v)" "reader p P (bs_cb v)" "bs_frame ?u v"
          "bs_Position v = bs_Position ?u + length (take (n - length ?d) (drop (bs_Position ?u) P))"
        using less.IH [OF less_n r np] by (elim exE conjE)
      have whole: "?d @ take (n - length ?d) (drop (?pos + length ?d) P) = take n (drop ?pos P)"
        using take_chunks [of "min n (B - ?pos mod B)" n "drop ?pos P"]
        by (simp add: add.commute)
      have "bs_read_loop ops n s = (Inr (?d @ take (n - length ?d) (drop (?pos + length ?d) P)), v)"
        using v(1) by (intro read_loop_step [OF n step False add]) simp
      moreover have "bs_frame s v" using v(3) c'(4) by (simp add: bs_frame_def)
      moreover have "bs_Position v = ?pos + length (?d @ take (n - length ?d) (drop (?pos + length ?d) P))"
      proof -
        have "bs_Position ?u = ?pos + length ?d" by (simp del: length_take)
        then show ?thesis using v(4) by (simp only: length_append add.assoc)
      qed
      ultimately show ?thesis using v(2) unfolding whole by (intro exI [of _ v]) simp
    qed
  qed
qed

text \<open>Opening a stream over protected content, and reading from an offset.\<close>

definition bs_reader :: "'p \<Rightarrow> byte list \<Rightarrow> 's BlockBasedProtectedStream \<Rightarrow> bool" where
  "bs_reader p P s \<longleftrightarrow> reader p P (bs_cb s) \<and> \<not> bs_IsPlainText s \<and> bs_IsPositionValid s \<and> \<not> bs_locked s"

lemma create_reader:
  assumes p: "valid p" and f: "fin (length P)" and b: "inv b"
    and c: "cont b = pre @ layout p P @ post"
    and n: "min n (length (layout p P @ post)) = length (layout p P)"
  shows "\<exists>s. BlockBasedProtectedStream_Create ops junk (Some (vtable p)) (Some b) (length pre) n B = Inr s \<and>
    bs_reader p P s \<and> bs_Position s = 0 \<and>
    writable (sp_backing (cb_Simple (bs_cb s))) = writable b"
proof -
  obtain sp where sp: "SimpleProtectedStream_create ops (Some (vtable p)) (Some b) (length pre) n = Inr sp"
    "sp_inv sp" "sp_provider sp = Some (vtable p)" "sp_ContentStart sp = length pre"
    "sp_ContentSize sp = min n (length (cont b) - length pre)" "cont (sp_backing sp) = cont b"
    "writable (sp_backing sp) = writable b"
    using sp_create [OF b, of "length pre" "Some (vtable p)" n] c by auto
  have "sp_ContentSize sp = length (layout p P)" using sp(5) n c by simp
  then have "reader p P (CachedBlock_create junk sp B)"
    using sp p f c by (simp add: reader_def CachedBlock_create_def)
  then show ?thesis
    using sp(1,7) by (simp add: BlockBasedProtectedStream_Create_def bs_reader_def CachedBlock_create_def)
qed

lemma seek_reader:
  assumes s: "bs_reader p P (s\<lparr>bs_locked := False\<rparr>)" and off: "off \<le> length (layout p P)"
  shows "bs_SeekInternal (Suc f) ops off s = (Inr (), s\<lparr>bs_IsPositionValid := True, bs_Position := off\<rparr>)"
proof -
  have "bs_SizeInner s = (Inr (length (layout p P)), s)"
    using s by (intro read_size) (simp_all add: bs_reader_def)
  then show ?thesis using s off by (simp add: bs_reader_def sx_simps)
qed

lemma read_at_reader:
  assumes s: "bs_reader p P s" and off: "off \<le> length (layout p P)"
  shows "\<exists>t. bs_ReadAsync (Suc f) ops False n off s = (Inr (take n (drop off P)), t) \<and> bs_reader p P t \<and>
    bs_Position t = off + length (take n (drop off P)) \<and>
    writable (sp_backing (cb_Simple (bs_cb t))) = writable (sp_backing (cb_Simple (bs_cb s)))"
proof -
  have free: "\<not> bs_locked s" "\<not> bs_IsPlainText s" "bs_IsPositionValid s"
    using s by (simp_all add: bs_reader_def)
  let ?s = "s\<lparr>bs_locked := True\<rparr>"
  let ?u = "?s\<lparr>bs_IsPositionValid := True, bs_Position := off\<rparr>"
  have seek: "bs_SeekInternal (Suc f) ops off ?s = (Inr (), ?u)"
    using s by (intro seek_reader [OF _ off]) (simp add: bs_reader_def)
  have r: "reader p P (bs_cb ?u)" and plain: "\<not> bs_IsPlainText ?u"
    using s by (simp_all add: bs_reader_def)
  obtain t where t: "bs_read_loop ops n ?u = (Inr (take n (drop (bs_Position ?u) P)), t)"
      "reader p P (bs_cb t)" "bs_frame ?u t"
      "bs_Position t = bs_Position ?u + length (take n (drop (bs_Position ?u) P))"
    using read_loop [OF r plain, of n] by (elim exE conjE)
  have "sp_CanRead ops (cb_Simple (bs_cb s)) = (Inr True, cb_Simple (bs_cb s))"
    using s by (intro sp_capabilities) (simp add: bs_reader_def reader_def)
  then have "bs_CanRead ops s = (Inr True, s)"
    using free by (simp add: bs_CanRead_def bs_run)
  then have "bs_ReadAsync (Suc f) ops False n off s = (Inr (take n (drop off P)), t\<lparr>bs_locked := False\<rparr>)"
    using free seek t(1)
    by (simp add: bs_ReadAsync_def bs_guard_free sx_simps del: bs_SeekInternal.simps)
  moreover have "bs_reader p P (t\<lparr>bs_locked := False\<rparr>)"
    using t(2,3) free by (simp add: bs_reader_def bs_frame_def)
  moreover have "writable (sp_backing (cb_Simple (bs_cb t))) = writable (sp_backing (cb_Simple (bs_cb s)))"
    using t(3) by (simp add: bs_frame_def)
  ultimately show ?thesis using t(4) by (intro exI [of _ "t\<lparr>bs_locked := False\<rparr>"]) simp
qed

text \<open>Any sequence of reads, each from its own offset, delivers its slices.\<close>

lemma read_script_reader:
  assumes "bs_reader p P s" and "\<forall>r \<in> set rs. fst r \<le> length P"
  shows "\<exists>t. read_script (Suc f) ops rs s = (Inr (map (\<lambda>(off, n). take n (drop off P)) rs), t) \<and> bs_reader p P t"
  using assms
proof (induction rs arbitrary: s)
  case Nil
  then show ?case by (simp add: sx_simps)
next
  case (Cons r rs)
  obtain off n where r: "r = (off, n)" by (cases r)
  have "off \<le> length (layout p P)"
    using Cons.prems r reader_small [of p P "bs_cb s"] by (simp add: bs_reader_def)
  then obtain t where t: "bs_ReadAsync (Suc f) ops False n off s = (Inr (take n (drop off P)), t)" "bs_reader p P t"
    using read_at_reader [OF Cons.prems(1), of off f n] by blast
  obtain u where "read_script (Suc f) ops rs t = (Inr (map (\<lambda>(off, n). take n (drop off P)) rs), u)" "bs_reader p P u"
    using Cons.IH [OF t(2)] Cons.prems(2) by auto
  then show ?case using t r by (simp add: sx_simps)
qed

end

end
