(* ===== verification/StreamWriting.thy ===== *)
theory StreamWriting
  imports StreamReading
begin

text \<open>
  Sequential writing through a block-based protected stream, proved for every provider and
  every backing stream that keep their contracts: the chunks a caller writes, followed by a
  flush, leave the block-wise ciphertext of their concatenation in the backing stream.
\<close>

abbreviation write_round ::
  "'s IStream \<Rightarrow> byte list \<Rightarrow> (exn, 's BlockBasedProtectedStream, nat) sx" where
  "write_round ops d \<equiv>
     bnd (gets bs_Position) (\<lambda>pos.
       seqx (bs_cached (cb_UpdateBlock ops pos)) (bs_cached (cb_WriteToBlock d pos)))"

lemma write_loop_step:
  assumes "d \<noteq> []" and "write_round ops d s = (Inr n, t)" and "0 < n"
    and "add64 (bs_Position t) n = q"
  shows "bs_write_loop ops d s = bs_write_loop ops (drop n d) (t\<lparr>bs_Position := q\<rparr>)"
  using assms by (subst bs_write_loop.simps) simp

text \<open>A client that writes chunks one after the other, and flushes.\<close>

primrec write_script ::
  "nat \<Rightarrow> 's IStream \<Rightarrow> byte list list \<Rightarrow> (exn, 's BlockBasedProtectedStream, bool) sx" where
  "write_script f ops [] = bs_Flush ops"
| "write_script f ops (d # ds) = bnd (bs_Write f ops d) (\<lambda>_. write_script f ops ds)"

context protected_content
begin

text \<open>
  The state after \<open>Q\<close> has been written behind \<open>pre\<close>: whole blocks are in the backing
  stream, and the last block, never empty and possibly whole, is pending in the cache.
\<close>

definition writer :: "'p \<Rightarrow> byte list \<Rightarrow> byte list \<Rightarrow> 's CachedBlock \<Rightarrow> bool" where
  "writer p pre Q c \<longleftrightarrow>
     valid p \<and> sp_inv (cb_Simple c) \<and> sp_provider (cb_Simple c) = Some (vtable p) \<and>
     writable (sp_backing (cb_Simple c)) \<and> sp_ContentStart (cb_Simple c) = length pre \<and>
     cb_BlockSize c = B \<and> \<not> cb_FinalBlockHasBeenWritten c \<and> length (cb_cache c) = B \<and>
     (if Q = []
      then cb_CacheStart c = u64_max \<and> cb_CacheSize c = 0 \<and> \<not> cb_WritePending c \<and>
        sp_ContentSize (cb_Simple c) = 0 \<and> cont (sp_backing (cb_Simple c)) = pre
      else cb_WritePending c \<and>
        (\<exists>j. cb_CacheStart c = j * B \<and> sp_ContentSize (cb_Simple c) = j * B \<and>
           j * B < length Q \<and> length Q \<le> j * B + B \<and> cb_CacheSize c = length Q - j * B \<and>
           take (cb_CacheSize c) (cb_cache c) = drop (j * B) Q \<and>
           cont (sp_backing (cb_Simple c)) = pre @ whole_blocks B (E p) 0 j Q))"

lemma writer_pending:
  assumes "writer p pre Q c" and "Q \<noteq> []"
  obtains j where "cb_WritePending c" and "cb_CacheStart c = j * B"
    and "sp_ContentSize (cb_Simple c) = j * B" and "j * B < length Q" and "length Q \<le> j * B + B"
    and "cb_CacheSize c = length Q - j * B" and "take (cb_CacheSize c) (cb_cache c) = drop (j * B) Q"
    and "cont (sp_backing (cb_Simple c)) = pre @ whole_blocks B (E p) 0 j Q"
  using assms unfolding writer_def by auto

lemma writer_fields:
  assumes "writer p pre Q c"
  shows "valid p" and "sp_inv (cb_Simple c)" and "sp_provider (cb_Simple c) = Some (vtable p)"
    and "writable (sp_backing (cb_Simple c))" and "sp_ContentStart (cb_Simple c) = length pre"
    and "cb_BlockSize c = B" and "\<not> cb_FinalBlockHasBeenWritten c" and "length (cb_cache c) = B"
    and "\<not> sp_locked (cb_Simple c)"
  using assms by (simp_all add: writer_def sp_inv_def)

text \<open>The ciphertext of a whole block, and of a last block, as the stream computes it.\<close>

lemma cipher_whole:
  assumes p: "valid p" and x: "length x = B" and n: "n < 2 ^ 32"
  shows "sp_cipher (Some (vtable p)) x n False = Inr (E p n x)"
proof -
  have e: "length (E p n x) = B" using length_E [OF p x] .
  obtain k where k: "cp_GetCipherTextSize (vtable p) (length x) = Inr k" "k < 2 ^ 32"
      "length (cipher_text B (E p) (F p) n x) \<le> k"
    using cipher_size [OF p, of x n] x B_pos fin_B by auto
  have "cipher_text B (E p) (F p) n x = E p n x @ cipher_text B (E p) (F p) (Suc n) []"
    using B_pos x by (simp add: cipher_text_step)
  then have "B \<le> k" using k(3) e by simp
  then have "cp_Encrypt (vtable p) (Some x) n False (Some k) False = Inr (E p n x, B)"
    by (intro encrypt_block p x n)
  then show ?thesis using k(1,2) e \<open>B \<le> k\<close> x by (simp add: sp_cipher_def put_at_def)
qed

lemma cipher_last:
  assumes p: "valid p" and x: "length x \<le> B" and f: "fin (length x)" and n: "n + 1 < 2 ^ 32"
    and k: "cp_GetCipherTextSize (vtable p) (length x) = Inr k" "k < 2 ^ 32"
      "length (cipher_text B (E p) (F p) n x) \<le> k"
  shows "sp_cipher (Some (vtable p)) x n True = Inr (cipher_text B (E p) (F p) n x)"
  using encrypt_final [OF p x f n k(3)] k by (simp add: sp_cipher_def put_at_def)

lemma writer_size:
  assumes c: "writer p pre Q c" and small: "length Q < 2 ^ 31"
  shows "cb_GetSizeInternal c = (Inr (length Q), c)"
proof (cases "Q = []")
  case True
  then show ?thesis using c by (simp add: GetSizeInternal_written writer_def sp_inv_def)
next
  case False
  obtain j where j: "cb_WritePending c" "cb_CacheStart c = j * B" "j * B < length Q"
      "length Q \<le> j * B + B" "cb_CacheSize c = length Q - j * B"
    using writer_pending [OF c False] by metis
  have n: "j < 2 ^ 31" using block_number_bound [OF j(3) small] by simp
  then have "to_u32 (j * B div B) = j" using B_pos by simp
  moreover have "mul64 j B = j * B" using j(3) small by simp
  moreover have "add64 (j * B) (length Q - j * B) = length Q" using j(3) small by simp
  ultimately show ?thesis
    using writer_fields [OF c] j by (simp add: GetSizeInternal_pending)
qed

text \<open>
  Loading the block that starts at the end of the content reads nothing, whatever the
  cache held before.
\<close>

lemma load_at_end:
  assumes s: "sp_inv (cb_Simple c)" and prov: "sp_provider (cb_Simple c) = Some p"
    and B: "cb_BlockSize c = B" and len: "length (cb_cache c) = B"
    and size_j: "sp_ContentSize (cb_Simple c) = j * B"
  shows "\<exists>b. cb_load ops j c = (Inr (), c\<lparr>cb_CacheStart := j * B, cb_CacheSize := 0,
      cb_Simple := (cb_Simple c)\<lparr>sp_backing := b\<rparr>\<rparr>) \<and> same (sp_backing (cb_Simple c)) b"
proof -
  have small: "j * B < 2 ^ 31" using sp_inv_small [OF s] size_j by simp
  have "\<exists>b. sp_ReadInternalAsync ops B (j * B) j (j * B \<le> j * B + B) (cb_Simple c) =
      (Inr ([], 0), (cb_Simple c)\<lparr>sp_backing := b\<rparr>) \<and> same (sp_backing (cb_Simple c)) b"
    using size_j B_bound by (intro sp_read_encrypted [OF s prov]) (simp_all add: window_def)
  then obtain b where b: "sp_ReadInternalAsync ops B (j * B) j (j * B \<le> j * B + B) (cb_Simple c) =
      (Inr ([], 0), (cb_Simple c)\<lparr>sp_backing := b\<rparr>)" "same (sp_backing (cb_Simple c)) b"
    by (elim exE) (rule that, erule conjunct1, erule conjunct2)
  have sums: "mul64 j B = j * B" "add64 (j * B) B = j * B + B" using small B_bound by simp_all
  have "\<not> sp_locked (cb_Simple c)" using s by (simp add: sp_inv_def)
  then have "cb_load ops j c = (Inr (), c\<lparr>cb_CacheStart := j * B, cb_CacheSize := 0,
      cb_Simple := (cb_Simple c)\<lparr>sp_backing := b\<rparr>\<rparr>)"
    using b(1) sums B size_j by (simp add: cb_load_def reaches_end_free cb_run)
  then show ?thesis using b(2) by (intro exI [of _ b]) simp
qed

text \<open>The block that the next byte goes to is in the cache, and everything before it is stored.\<close>

definition ready :: "'p \<Rightarrow> byte list \<Rightarrow> byte list \<Rightarrow> nat \<Rightarrow> 's CachedBlock \<Rightarrow> bool" where
  "ready p pre Q j c \<longleftrightarrow>
     valid p \<and> sp_inv (cb_Simple c) \<and> sp_provider (cb_Simple c) = Some (vtable p) \<and>
     writable (sp_backing (cb_Simple c)) \<and> sp_ContentStart (cb_Simple c) = length pre \<and>
     cb_BlockSize c = B \<and> \<not> cb_FinalBlockHasBeenWritten c \<and> length (cb_cache c) = B \<and>
     cb_CacheStart c = j * B \<and> sp_ContentSize (cb_Simple c) = j * B \<and>
     j * B \<le> length Q \<and> length Q < j * B + B \<and> cb_CacheSize c = length Q - j * B \<and>
     take (cb_CacheSize c) (cb_cache c) = drop (j * B) Q \<and>
     cont (sp_backing (cb_Simple c)) = pre @ whole_blocks B (E p) 0 j Q"

lemma write_back_whole:
  assumes c: "writer p pre Q c" and Q: "length Q = j * B + B" "cb_CacheStart c = j * B"
    and small: "length pre + length Q < lim"
  shows "\<exists>b. cb_write_back ops (length Q) c = (Inr (), c\<lparr>cb_WritePending := False,
      cb_Simple := (cb_Simple c)\<lparr>sp_backing := b, sp_ContentSize := j * B + B\<rparr>\<rparr>) \<and>
    inv b \<and> writable b \<and> cont b = pre @ whole_blocks B (E p) 0 (Suc j) Q"
proof -
  let ?sp = "cb_Simple c"
  have "Q \<noteq> []" using Q(1) B_pos by auto
  then obtain i where "i * B = j * B" and i: "sp_ContentSize ?sp = i * B" "cb_CacheSize c = length Q - i * B"
      "take (cb_CacheSize c) (cb_cache c) = drop (i * B) Q"
      "cont (sp_backing ?sp) = pre @ whole_blocks B (E p) 0 i Q"
    using writer_pending [OF c] Q(2) by metis
  then have "i = j" using B_pos by simp
  note i = i [unfolded this]
  note fields = writer_fields [OF c]
  have Q31: "length Q < 2 ^ 31" using small lim_bound by linarith
  have n: "j < 2 ^ 31" by (rule block_number_bound [of j "length Q"]) (use Q(1) B_pos Q31 in simp_all)
  let ?x = "drop (j * B) Q"
  have x: "length ?x = B" using Q(1) by simp
  have ct: "sp_cipher (sp_provider ?sp) ?x j False = Inr (E p j ?x)"
    using cipher_whole [OF fields(1) x, of j] n fields(3) by simp
  have e: "length (E p j ?x) = B" using length_E [OF fields(1) x] .
  have len: "length (whole_blocks B (E p) 0 j Q) = j * B"
    using Q(1) fields(1) by (intro length_whole_blocks) simp_all
  have "\<exists>b. sp_WriteInternalAsync ops ?x (j * B) j False ?sp =
      (Inr (length (E p j ?x)), ?sp\<lparr>sp_backing := b, sp_ContentSize := max (sp_ContentSize ?sp) (j * B + length ?x)\<rparr>) \<and>
    inv b \<and> cont b = put_at (cont (sp_backing ?sp)) (sp_ContentStart ?sp + j * B) (E p j ?x) \<and>
    writable b = writable (sp_backing ?sp)"
    using fields i(1) ct e small Q(1) x Q31 by (intro sp_write) simp_all
  then obtain b where b: "sp_WriteInternalAsync ops ?x (j * B) j False ?sp =
      (Inr B, ?sp\<lparr>sp_backing := b, sp_ContentSize := j * B + B\<rparr>)"
    "inv b" "writable b" "cont b = put_at (pre @ whole_blocks B (E p) 0 j Q) (length pre + j * B) (E p j ?x)"
    using e x i fields by auto
  have "cont b = pre @ whole_blocks B (E p) 0 (Suc j) Q"
    using b(4) len x put_at_end [of "pre @ whole_blocks B (E p) 0 j Q"]
    by (simp only: whole_blocks_snoc) simp
  moreover have "cb_write_back ops (length Q) c = (Inr (), c\<lparr>cb_WritePending := False,
      cb_Simple := ?sp\<lparr>sp_backing := b, sp_ContentSize := j * B + B\<rparr>\<rparr>)"
  proof -
    have "to_u32 (j * B div B) = j" using n B_pos by simp
    then have num: "cb_CalculateBlockNumber (j * B) c = (Inr j, c)"
      using fields by (simp add: CalculateBlockNumber_open)
    have sum: "add64 (j * B) B = length Q" using Q(1) Q31 by simp
    have "take (cb_CacheSize c) (cb_cache c) = ?x" by (rule i)
    then show ?thesis
      using fields Q num sum i(1) b(1)
      by (simp add: cb_write_back_def reaches_end_free cb_run)
  qed
  ultimately show ?thesis using b(2,3) by (intro exI [of _ b]) simp
qed

lemma update_writer:
  assumes c: "writer p pre Q c" and small: "length pre + length Q < lim"
  shows "\<exists>j c'. cb_UpdateBlock ops (length Q) c = (Inr (), c') \<and> ready p pre Q j c'"
proof -
  note fields = writer_fields [OF c]
  have Q31: "length Q < 2 ^ 31" using small lim_bound by linarith
  have num: "cb_CalculateBlockNumber (length Q) c = (Inr (length Q div B), c)"
  proof -
    have "length Q div B < 2 ^ 31" using Q31 div_le_dividend [of "length Q" B] by linarith
    then show ?thesis using fields by (simp add: CalculateBlockNumber_open)
  qed
  show ?thesis
  proof (cases "Q = []")
    case True
    then have start: "cb_CacheStart c = u64_max" "\<not> cb_WritePending c" "sp_ContentSize (cb_Simple c) = 0 * B"
      "cont (sp_backing (cb_Simple c)) = pre"
      using c by (simp_all add: writer_def)
    obtain b where b: "cb_load ops 0 c = (Inr (), c\<lparr>cb_CacheStart := 0 * B, cb_CacheSize := 0,
        cb_Simple := (cb_Simple c)\<lparr>sp_backing := b\<rparr>\<rparr>)" "same (sp_backing (cb_Simple c)) b"
      using load_at_end [OF fields(2,3,6,8) start(3)] by (elim exE) (rule that, erule conjunct1, erule conjunct2)
    let ?c' = "c\<lparr>cb_CacheStart := 0 * B, cb_CacheSize := 0, cb_Simple := (cb_Simple c)\<lparr>sp_backing := b\<rparr>\<rparr>"
    have "cb_UpdateBlock ops (length Q) c = (Inr (), ?c')"
      using True num start b(1) by (simp add: cb_UpdateBlock_def sx_simps)
    moreover have "ready p pre Q 0 ?c'"
      using True fields start b(2) B_pos by (simp add: ready_def sp_inv_def)
    ultimately show ?thesis by (intro exI [of _ 0] exI [of _ ?c']) simp
  next
    case False
    obtain j where j: "cb_WritePending c" "cb_CacheStart c = j * B"
      "sp_ContentSize (cb_Simple c) = j * B" "j * B < length Q" "length Q \<le> j * B + B"
      "cb_CacheSize c = length Q - j * B" "take (cb_CacheSize c) (cb_cache c) = drop (j * B) Q"
      "cont (sp_backing (cb_Simple c)) = pre @ whole_blocks B (E p) 0 j Q"
      by (rule writer_pending [OF c False])
    have n: "j < 2 ^ 31" using block_number_bound [OF j(4) Q31] by simp
    then have jB: "to_u32 (j * B div B) = j" using B_pos by simp
    have "j * B < 2 ^ 31" using j(4) Q31 by linarith
    then have open_block: "cb_CacheStart c \<noteq> u64_max" using j(2) by (simp add: u64_max_def)
    have numj: "cb_CalculateBlockNumber (j * B) c = (Inr j, c)"
      using fields jB by (simp add: CalculateBlockNumber_open)
    show ?thesis
    proof (cases "length Q < j * B + B")
      case True
      have "length Q div B = j"
        using True j(4) by (intro div_nat_eqI) (simp_all add: mult.commute)
      then have "cb_UpdateBlock ops (length Q) c = (Inr (), c)"
        using num numj j(2) open_block by (simp add: cb_UpdateBlock_def sx_simps)
      moreover have "ready p pre Q j c"
        using True fields j by (simp add: ready_def)
      ultimately show ?thesis by (intro exI [of _ j] exI [of _ c]) simp
    next
      case False
      then have Q: "length Q = j * B + B" using j(5) by simp
      then have "length Q div B = Suc j" using B_pos by simp
      note num = num [unfolded this]
      obtain b where b: "cb_write_back ops (length Q) c = (Inr (), c\<lparr>cb_WritePending := False,
          cb_Simple := (cb_Simple c)\<lparr>sp_backing := b, sp_ContentSize := j * B + B\<rparr>\<rparr>)"
        "inv b" "writable b" "cont b = pre @ whole_blocks B (E p) 0 (Suc j) Q"
        using write_back_whole [OF c Q j(2) small] by (elim exE conjE)
      let ?c1 = "c\<lparr>cb_WritePending := False,
          cb_Simple := (cb_Simple c)\<lparr>sp_backing := b, sp_ContentSize := j * B + B\<rparr>\<rparr>"
      have len: "length (whole_blocks B (E p) 0 (Suc j) Q) = Suc j * B"
        using Q fields(1) by (intro length_whole_blocks) simp_all
      have "sp_inv (cb_Simple ?c1)" using fields b(2,4) len by (simp add: sp_inv_def del: whole_blocks.simps)
      then obtain d where d: "cb_load ops (Suc j) ?c1 = (Inr (), ?c1\<lparr>cb_CacheStart := Suc j * B,
          cb_CacheSize := 0, cb_Simple := (cb_Simple ?c1)\<lparr>sp_backing := d\<rparr>\<rparr>)"
        "same (sp_backing (cb_Simple ?c1)) d"
        using load_at_end [of ?c1 "vtable p" "Suc j"] fields
        by (auto simp: add.commute simp del: whole_blocks.simps)
      let ?c' = "?c1\<lparr>cb_CacheStart := Suc j * B, cb_CacheSize := 0,
          cb_Simple := (cb_Simple ?c1)\<lparr>sp_backing := d\<rparr>\<rparr>"
      have "cb_UpdateBlock ops (length Q) c = (Inr (), ?c')"
        using num numj j(1,2) open_block b(1) d(1)
        by (simp add: cb_UpdateBlock_def sx_simps)
      moreover have "ready p pre Q (Suc j) ?c'"
        using fields Q b d(2) len B_pos by (simp add: ready_def sp_inv_def add.commute del: whole_blocks.simps)
      ultimately show ?thesis by (intro exI [of _ "Suc j"] exI [of _ ?c']) simp
    qed
  qed
qed

text \<open>The bytes that fit into the block are stored and become pending.\<close>

lemma write_ready:
  assumes c: "ready p pre Q j c" and d: "d \<noteq> []" and small: "length Q < 2 ^ 31"
  shows "\<exists>n c'. cb_WriteToBlock d (length Q) c = (Inr n, c') \<and> 0 < n \<and> n \<le> length d \<and>
    writer p pre (Q @ take n d) c'"
proof -
  let ?k = "length Q - j * B" and ?n = "min (length d) (B - (length Q - j * B))"
  have fields: "valid p" "sp_inv (cb_Simple c)" "sp_provider (cb_Simple c) = Some (vtable p)"
    "writable (sp_backing (cb_Simple c))" "sp_ContentStart (cb_Simple c) = length pre"
    "cb_BlockSize c = B" "\<not> cb_FinalBlockHasBeenWritten c" "length (cb_cache c) = B"
    "cb_CacheStart c = j * B" "sp_ContentSize (cb_Simple c) = j * B"
    "j * B \<le> length Q" "length Q < j * B + B" "cb_CacheSize c = ?k"
    "take (cb_CacheSize c) (cb_cache c) = drop (j * B) Q"
    "cont (sp_backing (cb_Simple c)) = pre @ whole_blocks B (E p) 0 j Q"
    using c unfolding ready_def by blast+
  have free: "\<not> sp_locked (cb_Simple c)" using fields(2) by (simp add: sp_inv_def)
  define n where "n = ?n"
  have n: "0 < n" using d fields(11,12) by (cases d) (simp_all add: n_def)
  have nd: "n \<le> length d" and room: "?k + n \<le> B" using fields(11,12) by (simp_all add: n_def)
  have "j * B + B < 2 ^ 31 + 2 ^ 31" using fields(11) small B_bound by linarith
  then have sum: "add64 (j * B) B = j * B + B" by simp
  have kn: "max ?k (?k + n) = ?k + n" by simp
  let ?c' = "c\<lparr>cb_WritePending := True, cb_cache := put_at (cb_cache c) ?k (take n d),
      cb_CacheSize := ?k + n\<rparr>"
  have "cb_WriteToBlock d (length Q) c = (Inr n, ?c')"
    using fields free n sum kn by (simp add: cb_WriteToBlock_def reaches_end_free cb_run n_def)
  moreover have "writer p pre (Q @ take n d) ?c'"
  proof -
    have ne: "Q @ take n d \<noteq> []" using n d by simp
    have len: "length (Q @ take n d) = length Q + n" using nd by simp
    have "take (?k + n) (put_at (cb_cache c) ?k (take n d)) = take ?k (cb_cache c) @ take n d"
      using room fields(8) nd take_put_at_end [of ?k "take n d" "cb_cache c"] by simp
    also have "take ?k (cb_cache c) = drop (j * B) Q" using fields(13,14) by simp
    finally have cache: "take (?k + n) (put_at (cb_cache c) ?k (take n d)) = drop (j * B) (Q @ take n d)"
      using fields(11) by simp
    have whole: "whole_blocks B (E p) 0 j (Q @ take n d) = whole_blocks B (E p) 0 j Q"
    proof (rule whole_blocks_cong)
      fix i assume "i < j"
      then have "Suc i * B \<le> j * B" by (intro mult_le_mono1) simp
      then have "i * B + B \<le> length Q" using fields(11) by simp
      then show "take B (drop (i * B) (Q @ take n d)) = take B (drop (i * B) Q)" by simp
    qed
    have buf: "length (put_at (cb_cache c) ?k (take n d)) = B"
      using room fields(8) nd by simp
    have size_Q: "?k + n = length (Q @ take n d) - j * B" using len fields(11) by simp
    show ?thesis
      unfolding writer_def if_not_P [OF ne] using fields n cache whole len room buf size_Q
      by (intro conjI exI [of _ j]) (simp_all del: length_append)
  qed
  ultimately show ?thesis using n nd by (intro exI [of _ n] exI [of _ ?c']) simp
qed

definition bs_writer :: "'p \<Rightarrow> byte list \<Rightarrow> byte list \<Rightarrow> 's BlockBasedProtectedStream \<Rightarrow> bool" where
  "bs_writer p pre Q s \<longleftrightarrow> writer p pre Q (bs_cb s) \<and> bs_Position s = length Q \<and>
     \<not> bs_IsPlainText s \<and> bs_IsPositionValid s"

lemma write_loop:
  assumes "bs_writer p pre Q s" and "length pre + length (Q @ d) < lim"
  shows "\<exists>t. bs_write_loop ops d s = (Inr 0, t) \<and> bs_writer p pre (Q @ d) t \<and> bs_locked t = bs_locked s"
  using assms
proof (induction d arbitrary: Q s rule: measure_induct_rule [of length])
  case (less d)
  show ?case
  proof (cases "d = []")
    case True
    then show ?thesis using less.prems by (simp add: bs_write_loop.simps)
  next
    case False
    have c: "writer p pre Q (bs_cb s)" and pos: "bs_Position s = length Q"
      using less.prems(1) by (simp_all add: bs_writer_def)
    have small: "length pre + length Q < lim" "length Q < 2 ^ 31"
      using less.prems(2) lim_bound by auto
    obtain j c1 where c1: "cb_UpdateBlock ops (length Q) (bs_cb s) = (Inr (), c1)" "ready p pre Q j c1"
      using update_writer [OF c small(1)] by (elim exE conjE)
    obtain n c2 where c2: "cb_WriteToBlock d (length Q) c1 = (Inr n, c2)" "0 < n" "n \<le> length d"
        "writer p pre (Q @ take n d) c2"
      using write_ready [OF c1(2) False small(2)] by (elim exE conjE)
    let ?t = "s\<lparr>bs_cb := c2\<rparr>" and ?q = "length Q + n"
    have round: "write_round ops d s = (Inr n, ?t)"
      using c1(1) c2(1) pos by (simp add: bs_cached_app sx_simps)
    have "length Q + n < 2 ^ 31"
      using less.prems(2) lim_bound c2(3) by simp
    then have q: "add64 (bs_Position ?t) n = ?q" using pos by simp
    have "bs_writer p pre (Q @ take n d) (?t\<lparr>bs_Position := ?q\<rparr>)"
      using less.prems(1) c2(3,4) by (simp add: bs_writer_def)
    moreover have "length (drop n d) < length d" using c2(2) False by (cases d) simp_all
    moreover have "length pre + length ((Q @ take n d) @ drop n d) < lim" using less.prems(2) by simp
    ultimately obtain v where v: "bs_write_loop ops (drop n d) (?t\<lparr>bs_Position := ?q\<rparr>) = (Inr 0, v)"
        "bs_writer p pre ((Q @ take n d) @ drop n d) v" "bs_locked v = bs_locked (?t\<lparr>bs_Position := ?q\<rparr>)"
      using less.IH by blast
    have "bs_write_loop ops d s = (Inr 0, v)"
      using write_loop_step [OF False round c2(2) q] v(1) by simp
    then show ?thesis using v(2,3) by (intro exI [of _ v]) simp
  qed
qed

lemma bs_write:
  assumes s: "bs_writer p pre Q s" and free: "\<not> bs_locked s"
    and bound: "length pre + length (Q @ d) < lim"
  shows "\<exists>t. bs_Write (Suc f) ops d s = (Inr (length d), t) \<and> bs_writer p pre (Q @ d) t \<and> \<not> bs_locked t"
proof -
  have c: "writer p pre Q (bs_cb s)" and pos: "bs_Position s = length Q" and np: "\<not> bs_IsPlainText s"
    and valid_pos: "bs_IsPositionValid s"
    using s by (simp_all add: bs_writer_def)
  note fields = writer_fields [OF c]
  have small: "length Q < 2 ^ 31" using bound lim_bound by simp
  have "sp_CanWrite ops (cb_Simple (bs_cb s)) = (Inr True, cb_Simple (bs_cb s))"
    using sp_capabilities(2) [OF fields(2)] fields(4) by simp
  then have can: "bs_CanWrite ops s = (Inr True, s)"
    using free by (simp add: bs_CanWrite_def bs_CanWriteInner_def bs_run)
  let ?s = "s\<lparr>bs_locked := True\<rparr>"
  have total: "bs_SizeInner ?s = (Inr (length Q), ?s)"
    using writer_size [OF c small] np by (simp add: bs_SizeInner_def bs_run)
  have seek: "bs_SeekInternal (Suc f) ops (length Q) ?s = (Inr (), ?s)"
  proof -
    have "?s\<lparr>bs_IsPositionValid := True, bs_Position := length Q\<rparr> = ?s"
      using pos valid_pos by (cases s) simp
    then show ?thesis using total np by (simp add: sx_simps)
  qed
  have "bs_writer p pre Q ?s" using s by (simp add: bs_writer_def)
  then obtain t where t: "bs_write_loop ops d ?s = (Inr 0, t)" "bs_writer p pre (Q @ d) t" "bs_locked t"
    using write_loop [OF _ bound] by fastforce
  have "bs_Position_get ops s = (Inr (length Q), s)"
    using free np pos by (simp add: bs_Position_get_def bs_PositionInner_def bs_run)
  moreover have "bs_write_checks ops False (length d) True s = (Inr (), s)"
    using can np by (simp add: bs_write_checks_def sx_simps)
  moreover have "bs_write_task (bs_SeekInternal (Suc f) ops) ops d (length Q) True s =
      (Inr (length d), t\<lparr>bs_locked := False\<rparr>)"
    using np free valid_pos seek t(1,3)
    by (simp add: bs_write_task_def bs_lock_def bs_unlock_def sx_simps del: bs_SeekInternal.simps)
  ultimately have "bs_Write (Suc f) ops d s = (Inr (length d), t\<lparr>bs_locked := False\<rparr>)"
    by (simp add: bs_Write_def bs_WriteAsync_def sx_simps del: bs_SeekInternal.simps)
  moreover have "bs_writer p pre (Q @ d) (t\<lparr>bs_locked := False\<rparr>)" using t(2) by (simp add: bs_writer_def)
  ultimately show ?thesis by (intro exI [of _ "t\<lparr>bs_locked := False\<rparr>"]) simp
qed

text \<open>
  A flush finishes the last block. An empty text can be finished by a provider that pads.
\<close>

lemma writer_last_block:
  assumes c: "writer p pre Q c" and small: "length Q < 2 ^ 31"
  obtains j where "(if cb_CacheStart c = u64_max then 0 else cb_CacheStart c) = j * B"
    and "sp_ContentSize (cb_Simple c) = j * B" and "j * B \<le> length Q" and "length Q \<le> j * B + B"
    and "take (cb_CacheSize c) (cb_cache c) = drop (j * B) Q" and "j < 2 ^ 31"
    and "cont (sp_backing (cb_Simple c)) = pre @ whole_blocks B (E p) 0 j Q"
proof (cases "Q = []")
  case True
  then show ?thesis using c that [of 0] by (simp add: writer_def)
next
  case False
  obtain j where j: "cb_WritePending c" "cb_CacheStart c = j * B"
    "sp_ContentSize (cb_Simple c) = j * B" "j * B < length Q" "length Q \<le> j * B + B"
    "cb_CacheSize c = length Q - j * B" "take (cb_CacheSize c) (cb_cache c) = drop (j * B) Q"
    "cont (sp_backing (cb_Simple c)) = pre @ whole_blocks B (E p) 0 j Q"
    by (rule writer_pending [OF c False])
  have "j * B < 2 ^ 31" using j(4) small by linarith
  then have "cb_CacheStart c \<noteq> u64_max" using j(2) by (simp add: u64_max_def)
  then show ?thesis using that [of j] j block_number_bound [OF j(4) small] by simp
qed

lemma fin_rest:
  assumes "fin (length Q)" and "j * B \<le> length Q" and "length Q \<le> j * B + B"
  shows "fin (length (drop (j * B) Q))"
proof (cases "length Q = j * B + B")
  case False
  then have "length Q mod B = length Q - j * B"
    using assms(2,3) by (metis add_diff_cancel_left' add_le_cancel_left le_add_diff_inverse le_neq_implies_less
        mod_less mod_mult_self3 nat_add_left_cancel_less)
  then show ?thesis using fin_mod [OF assms(1)] by simp
qed (simp add: fin_B)

lemma flush_writer:
  assumes c: "writer p pre Q c" and f: "fin (length Q)" and bound: "length pre + length Q + B < lim"
    and empty: "Q = [] \<Longrightarrow> \<exists>k. cp_GetCipherTextSize (vtable p) 0 = Inr k \<and> k < 2 ^ 32 \<and> length (F p 0 []) \<le> k"
  shows "\<exists>c'. cb_Flush ops c = (Inr True, c') \<and> cont (sp_backing (cb_Simple c')) = pre @ layout p Q \<and>
    inv (sp_backing (cb_Simple c')) \<and>
    c' = c\<lparr>cb_Simple := (cb_Simple c)\<lparr>sp_backing := sp_backing (cb_Simple c'), sp_ContentSize := length Q\<rparr>,
      cb_FinalBlockHasBeenWritten := True, cb_WritePending := False\<rparr>"
proof -
  note fields = writer_fields [OF c]
  let ?sp = "cb_Simple c"
  have Q31: "length Q < 2 ^ 31" using bound lim_bound by simp
  obtain j where start: "(if cb_CacheStart c = u64_max then 0 else cb_CacheStart c) = j * B"
    and size_j: "sp_ContentSize ?sp = j * B" and j: "j * B \<le> length Q" "length Q \<le> j * B + B"
    and cache: "take (cb_CacheSize c) (cb_cache c) = drop (j * B) Q" and n: "j < 2 ^ 31"
    and stored: "cont (sp_backing ?sp) = pre @ whole_blocks B (E p) 0 j Q"
    by (rule writer_last_block [OF c Q31])
  let ?r = "drop (j * B) Q" and ?ct = "cipher_text B (E p) (F p) j (drop (j * B) Q)"
  have r: "length ?r \<le> B" using j by simp
  have fr: "fin (length ?r)" by (rule fin_rest [OF f j])
  have layout_is: "layout p Q = whole_blocks B (E p) 0 j Q @ ?ct"
    using cipher_text_blocks [OF B_pos j(1), of "E p" "F p" 0] by simp
  have len: "length (whole_blocks B (E p) 0 j Q) = j * B" by (rule length_whole_blocks [OF fields(1) j(1)])
  have "length (layout p Q) \<le> length Q div B * B + B"
    using length_layout(2) [OF fields(1) f] by simp
  then have "length (layout p Q) \<le> length Q + B"
    using div_times_less_eq_dividend [of "length Q" B] by linarith
  then have ct_bound: "length pre + j * B + length ?ct < lim" using bound len layout_is by simp
  have "\<exists>k. cp_GetCipherTextSize (vtable p) (length ?r) = Inr k \<and> k < 2 ^ 32 \<and> length ?ct \<le> k"
  proof (cases "?r = []")
    case True
    then have "Q = [] \<or> length Q = j * B" using j by simp
    show ?thesis
    proof (cases "Q = []")
      case True
      then have "j = 0" using j B_pos by simp
      then show ?thesis using empty True B_pos by (simp add: cipher_text_short)
    next
      case False
      then have "j * B < length Q" using c size_j by (auto simp: writer_def)
      then show ?thesis using True by simp
    qed
  next
    case False
    then show ?thesis using cipher_size [OF fields(1) _ r fr, of j] by simp
  qed
  then obtain k where k: "cp_GetCipherTextSize (vtable p) (length ?r) = Inr k" "k < 2 ^ 32" "length ?ct \<le> k"
    by (elim exE conjE)
  have "j + 1 < 2 ^ 32" using n by simp
  then have ct: "sp_cipher (sp_provider ?sp) ?r j True = Inr ?ct"
    using cipher_last [OF fields(1) r fr _ k] fields(3) by simp
  have jr: "j * B + length ?r = length Q" using j by simp
  have "\<exists>b. sp_WriteInternalAsync ops ?r (j * B) j True ?sp =
      (Inr (length ?ct), ?sp\<lparr>sp_backing := b, sp_ContentSize := max (sp_ContentSize ?sp) (j * B + length ?r)\<rparr>) \<and>
    inv b \<and> cont b = put_at (cont (sp_backing ?sp)) (sp_ContentStart ?sp + j * B) ?ct \<and>
    writable b = writable (sp_backing ?sp)"
    using size_j fields(5) ct_bound jr Q31
    by (intro sp_write [OF fields(2) fields(4) _ ct]) (simp_all del: length_drop)
  then obtain b where b: "sp_WriteInternalAsync ops ?r (j * B) j True ?sp =
      (Inr (length ?ct), ?sp\<lparr>sp_backing := b, sp_ContentSize := length Q\<rparr>)" "inv b"
    "cont b = put_at (pre @ whole_blocks B (E p) 0 j Q) (length pre + j * B) ?ct"
    using size_j jr j(1) stored fields(5) by (auto simp: max_def simp del: length_drop)
  have cb: "cont b = pre @ layout p Q"
    using b(3) len put_at_end [of "pre @ whole_blocks B (E p) 0 j Q" ?ct] layout_is by simp
  let ?sp' = "?sp\<lparr>sp_backing := b, sp_ContentSize := length Q\<rparr>"
  have "length Q \<le> length (layout p Q)" by (rule length_layout(1) [OF fields(1) f])
  then have "sp_inv ?sp'" using fields b(2) cb by (simp add: sp_inv_def)
  then obtain d where d: "sp_Flush ops ?sp' = (Inr True, ?sp'\<lparr>sp_backing := d\<rparr>)" "inv d" "cont d = cont b"
    using sp_flush [of ?sp'] by auto
  have num: "cb_CalculateBlockNumber (j * B) c = (Inr j, c)"
    using fields n B_pos by (simp add: CalculateBlockNumber_open)
  have reach: "j * B \<le> add64 (j * B) B"
  proof -
    have "j * B + B < 2 ^ 31 + 2 ^ 31" using j Q31 B_bound by linarith
    then show ?thesis by simp
  qed
  have "cb_Flush ops c = (Inr True, c\<lparr>cb_Simple := ?sp'\<lparr>sp_backing := d\<rparr>,
      cb_FinalBlockHasBeenWritten := True, cb_WritePending := False\<rparr>)"
    unfolding cb_Flush_def
    using start fields size_j reach num cache b(1) d(1)
    by (simp add: reaches_end_free cb_run)
  then show ?thesis using d(2,3) cb
    by (intro exI [of _ "c\<lparr>cb_Simple := ?sp'\<lparr>sp_backing := d\<rparr>,
      cb_FinalBlockHasBeenWritten := True, cb_WritePending := False\<rparr>"])
      (simp del: CachedBlock.surjective)
qed

lemma create_writer:
  assumes p: "valid p" and b: "inv b" and w: "writable b"
  shows "\<exists>s. BlockBasedProtectedStream_Create ops junk (Some (vtable p)) (Some b) (length (cont b)) n B = Inr s \<and>
    bs_writer p (cont b) [] s \<and> \<not> bs_locked s"
proof -
  obtain sp where sp: "SimpleProtectedStream_create ops (Some (vtable p)) (Some b) (length (cont b)) n = Inr sp"
    "sp_inv sp" "sp_provider sp = Some (vtable p)" "sp_ContentStart sp = length (cont b)"
    "sp_ContentSize sp = min n (length (cont b) - length (cont b))" "cont (sp_backing sp) = cont b"
    "writable (sp_backing sp) = writable b"
    using sp_create [OF b, of "length (cont b)" "Some (vtable p)" n] by auto
  have "writer p (cont b) [] (CachedBlock_create junk sp B)"
    using sp p w by (simp add: writer_def CachedBlock_create_def)
  then show ?thesis
    using sp(1) by (simp add: BlockBasedProtectedStream_Create_def bs_writer_def)
qed

lemma bs_flush:
  assumes s: "bs_writer p pre Q s" and free: "\<not> bs_locked s" and f: "fin (length Q)"
    and bound: "length pre + length Q + B < lim"
    and empty: "Q = [] \<Longrightarrow> \<exists>k. cp_GetCipherTextSize (vtable p) 0 = Inr k \<and> k < 2 ^ 32 \<and> length (F p 0 []) \<le> k"
  shows "\<exists>t. bs_Flush ops s = (Inr True, t) \<and> inv (sp_backing (cb_Simple (bs_cb t))) \<and>
    cont (sp_backing (cb_Simple (bs_cb t))) = pre @ layout p Q"
proof -
  have c: "writer p pre Q (bs_cb s)" and np: "\<not> bs_IsPlainText s" using s by (simp_all add: bs_writer_def)
  obtain c' where c': "cb_Flush ops (bs_cb s) = (Inr True, c')"
      "cont (sp_backing (cb_Simple c')) = pre @ layout p Q" "inv (sp_backing (cb_Simple c'))"
    using flush_writer [OF c f bound] empty by blast
  then have "bs_Flush ops s = (Inr True, s\<lparr>bs_cb := c'\<rparr>)"
    using np free by (simp add: bs_Flush_def bs_FlushAsync_def bs_guard_free bs_cached_app sx_simps)
  then show ?thesis using c'(2,3) by simp
qed

lemma write_script_writer:
  assumes "bs_writer p pre Q s" and "\<not> bs_locked s" and "fin (length (Q @ concat ds))"
    and "length pre + length (Q @ concat ds) + B < lim"
    and "Q @ concat ds = [] \<Longrightarrow>
      \<exists>k. cp_GetCipherTextSize (vtable p) 0 = Inr k \<and> k < 2 ^ 32 \<and> length (F p 0 []) \<le> k"
  shows "\<exists>t. write_script (Suc f) ops ds s = (Inr True, t) \<and> inv (sp_backing (cb_Simple (bs_cb t))) \<and>
    cont (sp_backing (cb_Simple (bs_cb t))) = pre @ layout p (Q @ concat ds)"
  using assms
proof (induction ds arbitrary: Q s)
  case Nil
  then show ?case using bs_flush [of p pre Q s] by simp
next
  case (Cons d ds)
  have "length pre + length (Q @ d) < lim" using Cons.prems(4) by simp
  then obtain t where t: "bs_Write (Suc f) ops d s = (Inr (length d), t)" "bs_writer p pre (Q @ d) t"
      "\<not> bs_locked t"
    using bs_write [OF Cons.prems(1,2), of d f] by blast
  show ?case
    using Cons.IH [OF t(2,3)] Cons.prems(3-5) t(1) by (simp add: sx_simps)
qed

text \<open>What is written from the end of a backing stream and flushed is read from there.\<close>

lemma write_then_read:
  assumes p: "valid p" and b: "inv b" "writable b" and f: "fin (length (concat ds))"
    and bound: "length (cont b) + length (concat ds) + B < lim"
    and empty: "concat ds = [] \<Longrightarrow>
      \<exists>k. cp_GetCipherTextSize (vtable p) 0 = Inr k \<and> k < 2 ^ 32 \<and> length (F p 0 []) \<le> k"
    and rs: "\<forall>r \<in> set rs. fst r \<le> length (concat ds)"
  shows "\<exists>s t u v. BlockBasedProtectedStream_Create ops junk (Some (vtable p)) (Some b) (length (cont b)) n B = Inr s \<and>
    write_script (Suc g) ops ds s = (Inr True, t) \<and>
    cont (sp_backing (cb_Simple (bs_cb t))) = cont b @ layout p (concat ds) \<and>
    BlockBasedProtectedStream_Create ops junk (Some (vtable p)) (Some (sp_backing (cb_Simple (bs_cb t))))
      (length (cont b)) u64_max B = Inr u \<and>
    read_script (Suc g) ops rs u = (Inr (map (\<lambda>(off, n). take n (drop off (concat ds))) rs), v)"
proof -
  obtain s where s: "BlockBasedProtectedStream_Create ops junk (Some (vtable p)) (Some b) (length (cont b)) n B = Inr s"
      "bs_writer p (cont b) [] s" "\<not> bs_locked s"
    using create_writer [OF p b, of junk n] by (elim exE conjE)
  have "\<exists>t. write_script (Suc g) ops ds s = (Inr True, t) \<and> inv (sp_backing (cb_Simple (bs_cb t))) \<and>
      cont (sp_backing (cb_Simple (bs_cb t))) = cont b @ layout p ([] @ concat ds)"
    using f bound empty by (intro write_script_writer [OF s(2,3)]) simp_all
  then obtain t where t: "write_script (Suc g) ops ds s = (Inr True, t)" "inv (sp_backing (cb_Simple (bs_cb t)))"
      "cont (sp_backing (cb_Simple (bs_cb t))) = cont b @ layout p (concat ds) @ []"
    by auto
  have "length (layout p (concat ds)) < 2 ^ 31"
    using cont_bound [OF t(2)] t(3) lim_bound by simp
  then have "min u64_max (length (layout p (concat ds) @ [])) = length (layout p (concat ds))" by (simp add: u64_max_def)
  then obtain u where u: "BlockBasedProtectedStream_Create ops junk (Some (vtable p)) (Some (sp_backing (cb_Simple (bs_cb t))))
      (length (cont b)) u64_max B = Inr u" "bs_reader p (concat ds) u"
    using create_reader [OF p f t(2,3)] by blast
  obtain v where "read_script (Suc g) ops rs u = (Inr (map (\<lambda>(off, n). take n (drop off (concat ds))) rs), v)"
    using read_script_reader [OF u(2) rs, of g] by (elim exE conjE)
  with s(1) t(1,3) u(1) show ?thesis by (intro exI conjI) simp_all
qed

end

end
