(* ===== verification/StreamProperties.thy ===== *)
theory StreamProperties
  imports StreamWriting Cbc4k Cbc512 Ecb
begin

text \<open>
  The block-based protected stream with the providers of the SDK over the adapter of a
  standard stream: the interpretations of \<open>protected_content\<close>, and the properties of
  reading, of writing and of the two together.
\<close>

interpretation cbc4k_content: protected_content cbc4k_valid cbc4k_vtable CBC4K_BLOCK_SIZE
  cbc4k_block cbc4k_final "\<lambda>l. True" sa_vtable sa_inv sa_cont sa_at sa_out "2 ^ 31"
  by unfold_locales

interpretation cbc512_content: protected_content cbc512_valid cbc512_vtable CBC512_BLOCK_SIZE
  cbc512_crypt cbc512_crypt "\<lambda>l. l mod 16 = 0" sa_vtable sa_inv sa_cont sa_at sa_out "2 ^ 31"
  by unfold_locales

interpretation ecb_content: protected_content ecb_valid ecb_vtable ECB_STREAM_BLOCK_SIZE
  ecb_crypt ecb_crypt "\<lambda>l. l mod 16 = 0" sa_vtable sa_inv sa_cont sa_at sa_out "2 ^ 31"
  by unfold_locales

text \<open>The bytes of the backing stream behind a protected stream.\<close>

definition stored :: "StdStreamAdapter BlockBasedProtectedStream \<Rightarrow> byte list" where
  "stored s = sa_cont (sp_backing (cb_Simple (bs_cb s)))"

abbreviation slices :: "byte list \<Rightarrow> (nat \<times> nat) list \<Rightarrow> byte list list" where
  "slices P rs \<equiv> map (\<lambda>(off, n). take n (drop off P)) rs"

text \<open>
  C3: random access to a protected file. Take any text encrypted by one call of the CBC4K
  provider and stored behind a header. A stream opened at the end of the header returns,
  for every sequence of reads from offsets inside the text, exactly the slices of the text,
  each cut off at its end, and no read fails.
\<close>

theorem cbc4k_random_access:
  assumes "cbc4k_valid p" and "cbc4k_Encrypt p (Some P) 0 True (Some cap) False = Inr (ct, n)"
    and "length P + 16 < 2 ^ 32" and "16 * (length P div 16) + 16 \<le> cap"
    and "sa_inv b" and "sa_cont b = pre @ ct" and "\<forall>r \<in> set rs. fst r \<le> length P"
  shows "\<exists>s t. BlockBasedProtectedStream_Create sa_vtable junk (Some (cbc4k_vtable p)) (Some b)
        (length pre) u64_max CBC4K_BLOCK_SIZE = Inr s \<and>
    read_script (Suc f) sa_vtable rs s = (Inr (slices P rs), t)"
proof -
  have "length P div CBC4K_BLOCK_SIZE < 2 ^ 32"
    using assms(3) div_le_dividend [of "length P" CBC4K_BLOCK_SIZE] by linarith
  then have ct: "ct = cbc4k_text p 0 P"
    using Encrypt_final_text [OF assms(1,3,4), of 0] assms(2) by simp
  have "length ct < 2 ^ 31" using std_stream.cont_bound [OF assms(5)] assms(6) by simp
  then have "min u64_max (length (ct @ [])) = length ct" by (simp add: u64_max_def)
  then obtain s where s: "BlockBasedProtectedStream_Create sa_vtable junk (Some (cbc4k_vtable p)) (Some b)
        (length pre) u64_max CBC4K_BLOCK_SIZE = Inr s" "cbc4k_content.bs_reader p P s"
    using cbc4k_content.create_reader [OF assms(1) TrueI assms(5), of pre P "[]" u64_max junk] assms(6) ct by auto
  then show ?thesis
    using cbc4k_content.read_script_reader [OF s(2) assms(7), of f] by auto
qed

definition sample_key :: Cbc4kCryptoProvider where
  "sample_key = cbc4k_of xor_evp (replicate 16 7)"

lemma sample_key_valid: "cbc4k_valid sample_key"
  by (simp add: sample_key_def cbc4k_of_valid xor_evp_ok valid_key_16)

lemma sample_text:
  "cbc4k_Encrypt sample_key (Some [1, 2, 3]) 0 True (Some 16) False =
     Inr (cbc4k_text sample_key 0 [1, 2, 3], length (cbc4k_text sample_key 0 [1, 2, 3]))"
  by (rule Encrypt_final_text) (simp_all add: sample_key_valid CBC4K_BLOCK_SIZE_def)

theorem cbc4k_random_access_witness:
  "\<exists>s t. BlockBasedProtectedStream_Create sa_vtable 0 (Some (cbc4k_vtable sample_key))
        (Some (StdStreamAdapter_io \<lparr>ss_buf = [9] @ cbc4k_text sample_key 0 [1, 2, 3], ss_g = 0, ss_p = 0,
           ss_fail = False\<rparr>))
        (length [9::byte]) u64_max CBC4K_BLOCK_SIZE = Inr s \<and>
    read_script (Suc 0) sa_vtable [(1, 5), (0, 2)] s = (Inr (slices [1, 2, 3] [(1, 5), (0, 2)]), t)"
  by (rule cbc4k_random_access [where cap = 16 and n = "length (cbc4k_text sample_key 0 [1, 2, 3])"])
    (simp_all add: sample_key_valid sample_text length_cbc4k_text [OF sample_key_valid]
      StdStreamAdapter_io_def sa_inv_def sa_cont_def)

text \<open>
  C4: what a protected stream writes. Chunks of any sizes written one after the other into
  a stream opened at the end of a writable backing stream, followed by a flush, leave
  behind the old content exactly the bytes that one call of the CBC4K provider makes of the
  chunks' concatenation; however the caller cut the text, the file is the same.
\<close>

theorem cbc4k_chunked_write:
  assumes "cbc4k_valid p" and "sa_inv b" and "sa_out b"
    and "length (sa_cont b) + length (concat ds) + CBC4K_BLOCK_SIZE < 2 ^ 31"
    and "16 * (length (concat ds) div 16) + 16 \<le> cap"
  shows "\<exists>s t ct. BlockBasedProtectedStream_Create sa_vtable junk (Some (cbc4k_vtable p)) (Some b)
        (length (sa_cont b)) n CBC4K_BLOCK_SIZE = Inr s \<and>
    write_script (Suc f) sa_vtable ds s = (Inr True, t) \<and>
    cbc4k_Encrypt p (Some (concat ds)) 0 True (Some cap) False = Inr (ct, length ct) \<and>
    stored t = sa_cont b @ ct"
proof -
  obtain s where s: "BlockBasedProtectedStream_Create sa_vtable junk (Some (cbc4k_vtable p)) (Some b)
        (length (sa_cont b)) n CBC4K_BLOCK_SIZE = Inr s" "cbc4k_content.bs_writer p (sa_cont b) [] s"
      "\<not> bs_locked s"
    using cbc4k_content.create_writer [OF assms(1-3), of junk n] by (elim exE conjE)
  have "\<exists>t. write_script (Suc f) sa_vtable ds s = (Inr True, t) \<and>
      sa_inv (sp_backing (cb_Simple (bs_cb t))) \<and>
      sa_cont (sp_backing (cb_Simple (bs_cb t))) = sa_cont b @ cbc4k_text p 0 ([] @ concat ds)"
    using cbc4k.cipher_size_0 [OF assms(1), of 0] assms(4)
    by (intro cbc4k_content.write_script_writer [OF s(2,3)]) simp_all
  then obtain t where t: "write_script (Suc f) sa_vtable ds s = (Inr True, t)"
      "stored t = sa_cont b @ cbc4k_text p 0 (concat ds)"
    by (auto simp: stored_def)
  have "length (concat ds) < 2 ^ 31" using assms(4) by linarith
  then have "length (concat ds) + 16 < 2 ^ 32" and "length (concat ds) div CBC4K_BLOCK_SIZE < 2 ^ 31"
    using div_le_dividend [of "length (concat ds)" CBC4K_BLOCK_SIZE] by (simp, linarith)
  then have "cbc4k_Encrypt p (Some (concat ds)) 0 True (Some cap) False =
      Inr (cbc4k_text p 0 (concat ds), length (cbc4k_text p 0 (concat ds)))"
    using Encrypt_final_text [OF assms(1) _ assms(5)] by simp
  with s(1) t show ?thesis by (intro exI conjI)
qed

definition sample_file :: StdStreamAdapter where
  "sample_file = StdStreamAdapter_io \<lparr>ss_buf = [9], ss_g = 0, ss_p = 0, ss_fail = False\<rparr>"

lemma sample_file_facts: "sa_inv sample_file" "sa_out sample_file" "sa_cont sample_file = [9]"
  by (simp_all add: sample_file_def StdStreamAdapter_io_def sa_inv_def sa_cont_def)

theorem cbc4k_chunked_write_witness:
  "\<exists>s t ct. BlockBasedProtectedStream_Create sa_vtable 0 (Some (cbc4k_vtable sample_key))
        (Some sample_file) (length (sa_cont sample_file)) 0 CBC4K_BLOCK_SIZE = Inr s \<and>
    write_script (Suc 0) sa_vtable [[1, 2], [], [3]] s = (Inr True, t) \<and>
    cbc4k_Encrypt sample_key (Some (concat [[1, 2], [], [3]])) 0 True (Some 16) False = Inr (ct, length ct) \<and>
    stored t = sa_cont sample_file @ ct"
  by (rule cbc4k_chunked_write)
    (simp_all add: sample_key_valid sample_file_facts CBC4K_BLOCK_SIZE_def)

text \<open>
  C2: the round trip of a protected file. After any chunks have been written behind a
  header and flushed, a stream opened at the same place over the backing stream returns
  the slices of the chunks' concatenation for every sequence of reads.
\<close>

theorem cbc4k_write_then_read:
  assumes "cbc4k_valid p" and "sa_inv b" and "sa_out b"
    and "length (sa_cont b) + length (concat ds) + CBC4K_BLOCK_SIZE < 2 ^ 31"
    and "\<forall>r \<in> set rs. fst r \<le> length (concat ds)"
  shows "\<exists>s t u v. BlockBasedProtectedStream_Create sa_vtable junk (Some (cbc4k_vtable p)) (Some b)
        (length (sa_cont b)) n CBC4K_BLOCK_SIZE = Inr s \<and>
    write_script (Suc f) sa_vtable ds s = (Inr True, t) \<and>
    BlockBasedProtectedStream_Create sa_vtable junk (Some (cbc4k_vtable p))
        (Some (sp_backing (cb_Simple (bs_cb t)))) (length (sa_cont b)) u64_max CBC4K_BLOCK_SIZE = Inr u \<and>
    read_script (Suc f) sa_vtable rs u = (Inr (slices (concat ds) rs), v)"
  using cbc4k_content.write_then_read [OF assms(1-3) TrueI assms(4) _ assms(5), of junk n f]
    cbc4k.cipher_size_0 [OF assms(1), of 0] by auto

theorem cbc4k_write_then_read_witness:
  "\<exists>s t u v. BlockBasedProtectedStream_Create sa_vtable 0 (Some (cbc4k_vtable sample_key))
        (Some sample_file) (length (sa_cont sample_file)) 0 CBC4K_BLOCK_SIZE = Inr s \<and>
    write_script (Suc 0) sa_vtable [[1, 2], [3]] s = (Inr True, t) \<and>
    BlockBasedProtectedStream_Create sa_vtable 0 (Some (cbc4k_vtable sample_key))
        (Some (sp_backing (cb_Simple (bs_cb t)))) (length (sa_cont sample_file)) u64_max CBC4K_BLOCK_SIZE = Inr u \<and>
    read_script (Suc 0) sa_vtable [(1, 1), (3, 4)] u = (Inr (slices (concat [[1, 2], [3]]) [(1, 1), (3, 4)]), v)"
  by (rule cbc4k_write_then_read)
    (simp_all add: sample_key_valid sample_file_facts CBC4K_BLOCK_SIZE_def)

text \<open>
  C5: the same round trip without padding, in mode CBC512NOPADDING, for a text that is not
  empty and whose length is a multiple of 16; here the content of the backing stream grows
  by exactly the length of the text.
\<close>

theorem cbc512_write_then_read:
  assumes "cbc512_valid p" and "sa_inv b" and "sa_out b"
    and "length (sa_cont b) + length (concat ds) + CBC512_BLOCK_SIZE < 2 ^ 31"
    and "concat ds \<noteq> []" and "length (concat ds) mod 16 = 0"
    and "\<forall>r \<in> set rs. fst r \<le> length (concat ds)"
  shows "\<exists>s t u v. BlockBasedProtectedStream_Create sa_vtable junk (Some (cbc512_vtable p)) (Some b)
        (length (sa_cont b)) n CBC512_BLOCK_SIZE = Inr s \<and>
    write_script (Suc f) sa_vtable ds s = (Inr True, t) \<and>
    length (stored t) = length (sa_cont b) + length (concat ds) \<and>
    BlockBasedProtectedStream_Create sa_vtable junk (Some (cbc512_vtable p))
        (Some (sp_backing (cb_Simple (bs_cb t)))) (length (sa_cont b)) u64_max CBC512_BLOCK_SIZE = Inr u \<and>
    read_script (Suc f) sa_vtable rs u = (Inr (slices (concat ds) rs), v)"
  using cbc512_content.write_then_read [OF assms(1-3,6,4) _ assms(7), of junk n f] assms(5)
    length_text512 [OF assms(1,6)] by (fastforce simp: stored_def)

theorem cbc512_write_then_read_witness:
  "\<exists>s t u v. BlockBasedProtectedStream_Create sa_vtable 0
        (Some (cbc512_vtable (cbc512_of xor_evp (replicate 16 7)))) (Some sample_file)
        (length (sa_cont sample_file)) 0 CBC512_BLOCK_SIZE = Inr s \<and>
    write_script (Suc 0) sa_vtable [replicate 10 1, replicate 6 2] s = (Inr True, t) \<and>
    length (stored t) = length (sa_cont sample_file) + length (concat [replicate 10 (1::byte), replicate 6 2]) \<and>
    BlockBasedProtectedStream_Create sa_vtable 0 (Some (cbc512_vtable (cbc512_of xor_evp (replicate 16 7))))
        (Some (sp_backing (cb_Simple (bs_cb t)))) (length (sa_cont sample_file)) u64_max CBC512_BLOCK_SIZE = Inr u \<and>
    read_script (Suc 0) sa_vtable [(8, 4)] u = (Inr (slices (concat [replicate 10 1, replicate 6 2]) [(8, 4)]), v)"
  by (rule cbc512_write_then_read)
    (simp_all add: cbc512_of_valid xor_evp_ok valid_key_16 sample_file_facts CBC512_BLOCK_SIZE_def)

end
