(* ===== verification/StreamEdges.thy ===== *)
theory StreamEdges
  imports StreamProperties
begin

text \<open>
  The edges of the block-based protected stream: writing to a stream that cannot be
  written, reading past the end, the size while a write is pending, and reading through
  the stream that has just been flushed.
\<close>

section \<open>Lemmas\<close>

context protected_content
begin

text \<open>A seek past the end of a stream that cannot be written marks the position invalid.\<close>

lemma seek_past_readonly:
  assumes s: "bs_reader p P (s\<lparr>bs_locked := False\<rparr>)" and ro: "\<not> writable (sp_backing (cb_Simple (bs_cb s)))"
    and off: "length (layout p P) < off"
  shows "bs_SeekInternal (Suc f) ops off s = (Inr (), s\<lparr>bs_IsPositionValid := False\<rparr>)"
proof -
  have total: "bs_SizeInner s = (Inr (length (layout p P)), s)"
    using s by (intro read_size) (simp_all add: bs_reader_def)
  have "sp_CanWrite ops (cb_Simple (bs_cb s)) = (Inr False, cb_Simple (bs_cb s))"
    using s ro sp_capabilities(2) [of "cb_Simple (bs_cb s)"] by (simp add: bs_reader_def reader_def)
  then have "bs_CanWriteInner ops s = (Inr False, s)"
    by (simp add: bs_CanWriteInner_def bs_run)
  then show ?thesis using total off s by (simp add: sx_simps bs_reader_def)
qed

lemma read_past_readonly:
  assumes s: "bs_reader p P s" and ro: "\<not> writable (sp_backing (cb_Simple (bs_cb s)))"
    and off: "length (layout p P) < off"
  shows "\<exists>t. bs_ReadAsync (Suc f) ops False n off s = (Inr (take n (drop (bs_Position s) P)), t) \<and>
    (\<forall>m q. bs_ReadAsync (Suc f) ops False m q t =
       (Inl (RMSCryptoInvalidArgumentException ''Invalid operation''), t))"
proof -
  have free: "\<not> bs_locked s" "\<not> bs_IsPlainText s" "bs_IsPositionValid s"
    using s by (simp_all add: bs_reader_def)
  let ?s = "s\<lparr>bs_locked := True\<rparr>"
  let ?u = "?s\<lparr>bs_IsPositionValid := False\<rparr>"
  have seek: "bs_SeekInternal (Suc f) ops off ?s = (Inr (), ?u)"
    using s ro by (intro seek_past_readonly [OF _ _ off]) (simp_all add: bs_reader_def)
  have r: "reader p P (bs_cb ?u)" and plain: "\<not> bs_IsPlainText ?u"
    using s by (simp_all add: bs_reader_def)
  obtain t where t: "bs_read_loop ops n ?u = (Inr (take n (drop (bs_Position ?u) P)), t)"
      "reader p P (bs_cb t)" "bs_frame ?u t"
    using read_loop [OF r plain, of n] by (elim exE conjE)
  have can: "bs_CanRead ops v = (Inr True, v)" if "reader p P (bs_cb v)" "\<not> bs_locked v" for v
  proof -
    have "sp_CanRead ops (cb_Simple (bs_cb v)) = (Inr True, cb_Simple (bs_cb v))"
      using that by (intro sp_capabilities) (simp add: reader_def)
    then show ?thesis using that(2) by (simp add: bs_CanRead_def bs_run)
  qed
  let ?t = "t\<lparr>bs_locked := False\<rparr>"
  have "bs_CanRead ops s = (Inr True, s)" using s by (intro can) (simp_all add: bs_reader_def)
  then have "bs_ReadAsync (Suc f) ops False n off s = (Inr (take n (drop (bs_Position s) P)), ?t)"
    using free seek t(1)
    by (simp add: bs_ReadAsync_def bs_guard_free sx_simps del: bs_SeekInternal.simps)
  moreover have "bs_ReadAsync (Suc f) ops False m q ?t =
      (Inl (RMSCryptoInvalidArgumentException ''Invalid operation''), ?t)" for m q
  proof -
    have "bs_CanRead ops ?t = (Inr True, ?t)" using t(2) by (intro can) simp_all
    moreover have "\<not> bs_IsPositionValid ?t" "\<not> bs_IsPlainText ?t"
      using t(3) free by (simp_all add: bs_frame_def)
    ultimately show ?thesis
      by (simp add: bs_ReadAsync_def bs_guard_free sx_simps del: bs_SeekInternal.simps)
  qed
  ultimately show ?thesis by (intro exI [of _ ?t]) simp
qed

text \<open>One byte written into a block that is not the last.\<close>

lemma write_into_block:
  assumes s: "bs_reader p P s" and w: "writable (sp_backing (cb_Simple (bs_cb s)))"
    and off: "(off div B + 1) * B < length (layout p P)"
  shows "\<exists>t. bs_WriteAsync (Suc f) ops False [b] off s = (Inr 1, t) \<and>
    bs_Size t = (Inr ((off div B + 1) * B), t)"
proof -
  let ?j = "off div B" and ?L = "layout p P"
  have free: "\<not> bs_locked s" "\<not> bs_IsPlainText s" "bs_IsPositionValid s" and r: "reader p P (bs_cb s)"
    using s by (simp_all add: bs_reader_def)
  have L31: "length ?L < 2 ^ 31" using reader_small [OF r] by simp
  have k: "off = ?j * B + off mod B" "off mod B < B" "?j * B \<le> off" using B_pos by simp_all
  have "(?j + 1) * B = ?j * B + B" by simp
  then have offL: "off < length ?L" using off k(1,2) by linarith
  have can: "bs_CanWrite ops s = (Inr True, s)"
  proof -
    have "sp_CanWrite ops (cb_Simple (bs_cb s)) = (Inr True, cb_Simple (bs_cb s))"
      using sp_capabilities(2) [of "cb_Simple (bs_cb s)"] r w by (simp add: reader_def)
    then show ?thesis using free by (simp add: bs_CanWrite_def bs_CanWriteInner_def bs_run)
  qed
  let ?s = "s\<lparr>bs_locked := True\<rparr>"
  let ?u = "?s\<lparr>bs_IsPositionValid := True, bs_Position := off\<rparr>"
  have seek: "bs_SeekInternal (Suc f) ops off ?s = (Inr (), ?u)"
    using s offL by (intro seek_reader [of p P]) (simp_all add: bs_reader_def)
  obtain c where c: "cb_UpdateBlock ops off (bs_cb s) = (Inr (), c)" "reader p P c" "cb_CacheStart c = ?j * B"
    using update_reader [OF r offL] by blast
  have jL: "?j * B < 2 ^ 31" using k(3) offL L31 by linarith
  then have "cb_CacheStart c \<noteq> u64_max" using c(3) by (simp add: u64_max_def)
  then obtain i where i: "cb_CacheStart c = i * B" "cb_CacheSize c = length (take B (drop (i * B) P))"
    using reader_cached [OF c(2)] by metis
  have "i * B = ?j * B" by (rule trans [OF i(1) [symmetric] c(3)])
  then have cs: "cb_CacheSize c = length (take B (drop (?j * B) P))" using i(2) by (simp only:)
  have P: "(?j + 1) * B \<le> length P"
  proof -
    have "length ?L \<le> (length P div B + 1) * B"
      using c(2) by (intro length_layout(2)) (simp_all add: reader_def)
    then have "(?j + 1) * B < (length P div B + 1) * B" using off by linarith
    then have "?j + 1 < length P div B + 1" by (simp only: mult_less_cancel2)
    then have "?j + 1 \<le> length P div B" by simp
    then show ?thesis by (meson div_times_less_eq_dividend le_trans mult_le_mono1)
  qed
  then have size_B: "cb_CacheSize c = B" using cs by simp
  have fields: "\<not> sp_locked (cb_Simple c)" "cb_BlockSize c = B" "sp_ContentSize (cb_Simple c) = length ?L"
    "\<not> cb_FinalBlockHasBeenWritten c"
    using c(2) by (simp_all add: reader_def sp_inv_def)
  have sum: "add64 (?j * B) B = ?j * B + B"
  proof -
    have "?j * B + B < 2 ^ 31 + 2 ^ 31" using jL B_bound by linarith
    then show ?thesis by simp
  qed
  let ?c = "c\<lparr>cb_WritePending := True, cb_cache := put_at (cb_cache c) (off mod B) [b]\<rparr>"
  have kk: "off - ?j * B = off mod B" by (simp add: minus_div_mult_eq_mod)
  have one: "min 1 (B - off mod B) = 1" "max B (off mod B + 1) = B" using k(2) by simp_all
  have not_last: "\<not> length ?L \<le> ?j * B + B" using off by simp
  have inside: "off < ?j * B + B" using k by linarith
  have store: "cb_WriteToBlock [b] off c = (Inr 1, ?c\<lparr>cb_CacheSize := B\<rparr>)"
    using fields sum c(3) size_B kk one k(3) inside not_last
    by (simp add: cb_WriteToBlock_def reaches_end_free cb_run) (rule k(2))
  let ?t = "?u\<lparr>bs_cb := ?c\<lparr>cb_CacheSize := B\<rparr>, bs_Position := off + 1\<rparr>"
  have "add64 off 1 = off + 1" using offL L31 by simp
  moreover have "write_round ops [b] ?u = (Inr 1, ?u\<lparr>bs_cb := ?c\<lparr>cb_CacheSize := B\<rparr>\<rparr>)"
    using c(1) store by (simp add: bs_cached_app sx_simps)
  ultimately have "bs_write_loop ops [b] ?u = bs_write_loop ops [] ?t"
    using write_loop_step [of "[b]" ops ?u 1 "?u\<lparr>bs_cb := ?c\<lparr>cb_CacheSize := B\<rparr>\<rparr>" "off + 1"] by simp
  then have loop: "bs_write_loop ops [b] ?u = (Inr 0, ?t)" by (simp add: bs_write_loop.simps)
  let ?v = "?t\<lparr>bs_locked := False\<rparr>"
  have "bs_write_checks ops False 1 True s = (Inr (), s)"
    using can free by (simp add: bs_write_checks_def sx_simps)
  moreover have "bs_write_task (bs_SeekInternal (Suc f) ops) ops [b] off True s = (Inr 1, ?v)"
    using free seek loop
    by (simp add: bs_write_task_def bs_lock_def bs_unlock_def sx_simps del: bs_SeekInternal.simps)
  ultimately have "bs_WriteAsync (Suc f) ops False [b] off s = (Inr 1, ?v)"
    by (simp add: bs_WriteAsync_def sx_simps del: bs_SeekInternal.simps)
  moreover have "bs_Size ?v = (Inr ((?j + 1) * B), ?v)"
  proof -
    have "?j < 2 ^ 31" by (rule block_number_bound [OF _ L31]) (use off in simp)
    then have "to_u32 (?j * B div B) = ?j" using B_pos by simp
    moreover have "mul64 ?j B = ?j * B" using jL by simp
    ultimately have "cb_GetSizeInternal (?c\<lparr>cb_CacheSize := B\<rparr>) =
        (Inr (?j * B + B), ?c\<lparr>cb_CacheSize := B\<rparr>)"
      using fields c(3) sum by (simp add: GetSizeInternal_pending)
    then show ?thesis
      using free by (simp add: bs_Size_def bs_SizeInner_def bs_guard_free bs_cached_app sx_simps add.commute)
  qed
  ultimately show ?thesis by (intro exI [of _ ?v]) simp
qed

end

section \<open>Properties\<close>

text \<open>
  A write to a stream that cannot be written, or with a null buffer, does not end in
  the exception the code throws: \<open>WriteAsync\<close> catches it and unlocks the stream's mutex,
  which nobody holds.
\<close>

theorem readonly_write_unlocks_free_mutex:
  assumes "\<not> bs_locked s"
    and "sp_CanWrite ops (cb_Simple (bs_cb s)) = (Inr False, cb_Simple (bs_cb s)) \<or> null \<and> d \<noteq> []"
  shows "bs_WriteAsync f ops null d off s = (Inl MutexNotOwned, s)"
proof -
  have "bs_unlock s = (Inl MutexNotOwned, s)" using assms(1) by (simp add: bs_unlock_def)
  then show ?thesis
    using assms
    by (auto simp: bs_WriteAsync_def bs_write_checks_def bs_CanWrite_def bs_CanWriteInner_def bs_run
        RMSCryptoInvalidArgumentException_def)
qed

theorem readonly_write_unlocks_free_mutex_witness:
  "bs_WriteAsync 1 sa_vtable True [7] 0
      \<lparr>bs_locked = False, bs_cb = CachedBlock_create 0 \<lparr>sp_locked = False, sp_provider = None,
         sp_backing = sample_file, sp_ContentStart = 0, sp_ContentSize = 1\<rparr> 16,
       bs_Position = 0, bs_IsPositionValid = True, bs_NewSize = 0, bs_IsPlainText = True\<rparr> =
    (Inl MutexNotOwned, \<lparr>bs_locked = False, bs_cb = CachedBlock_create 0 \<lparr>sp_locked = False, sp_provider = None,
         sp_backing = sample_file, sp_ContentStart = 0, sp_ContentSize = 1\<rparr> 16,
       bs_Position = 0, bs_IsPositionValid = True, bs_NewSize = 0, bs_IsPlainText = True\<rparr>)"
  by (rule readonly_write_unlocks_free_mutex) simp_all

text \<open>
  Reading past the end of a stream that cannot be written. The read does not fail and
  does not come back empty: it delivers the bytes that follow the previous read, as if no
  offset had been given. From then on every read fails, whatever its offset.
\<close>

theorem cbc4k_read_past_end:
  assumes "cbc4k_valid p" and "sa_inv b" and "\<not> sa_out b"
    and "sa_cont b = pre @ cbc4k_text p 0 P"
    and "off \<le> length P" and "length (cbc4k_text p 0 P) < past"
  shows "\<exists>s t u. BlockBasedProtectedStream_Create sa_vtable junk (Some (cbc4k_vtable p)) (Some b)
        (length pre) u64_max CBC4K_BLOCK_SIZE = Inr s \<and>
    bs_ReadAsync (Suc f) sa_vtable False n off s = (Inr (take n (drop off P)), t) \<and>
    bs_ReadAsync (Suc f) sa_vtable False k past t =
      (Inr (take k (drop (off + length (take n (drop off P))) P)), u) \<and>
    (\<forall>m q. bs_ReadAsync (Suc f) sa_vtable False m q u =
       (Inl (RMSCryptoInvalidArgumentException ''Invalid operation''), u))"
proof -
  have "length (cbc4k_text p 0 P) < 2 ^ 31" using std_stream.cont_bound [OF assms(2)] assms(4) by simp
  then have "min u64_max (length (cbc4k_text p 0 P @ [])) = length (cbc4k_text p 0 P)"
    by (simp add: u64_max_def)
  then obtain s where s: "BlockBasedProtectedStream_Create sa_vtable junk (Some (cbc4k_vtable p)) (Some b)
        (length pre) u64_max CBC4K_BLOCK_SIZE = Inr s" "cbc4k_content.bs_reader p P s"
      "sa_out (sp_backing (cb_Simple (bs_cb s))) = sa_out b"
    using cbc4k_content.create_reader [OF assms(1) TrueI assms(2), of pre P "[]" u64_max junk] assms(4) by auto
  have "off \<le> length (cbc4k_text p 0 P)"
    using cbc4k.length_layout(1) [OF assms(1) TrueI, of P] assms(5) by simp
  then obtain t where t: "bs_ReadAsync (Suc f) sa_vtable False n off s = (Inr (take n (drop off P)), t)"
      "cbc4k_content.bs_reader p P t" "bs_Position t = off + length (take n (drop off P))"
      "sa_out (sp_backing (cb_Simple (bs_cb t))) = sa_out (sp_backing (cb_Simple (bs_cb s)))"
    using cbc4k_content.read_at_reader [OF s(2), of off f n] by blast
  obtain u where "bs_ReadAsync (Suc f) sa_vtable False k past t = (Inr (take k (drop (bs_Position t) P)), u)"
      "\<forall>m q. bs_ReadAsync (Suc f) sa_vtable False m q u =
       (Inl (RMSCryptoInvalidArgumentException ''Invalid operation''), u)"
    using cbc4k_content.read_past_readonly [OF t(2) _ assms(6), of f k] t(4) s(3) assms(3) by blast
  with s(1) t(1,3) show ?thesis by (intro exI conjI) simp_all
qed

theorem cbc4k_read_past_end_witness:
  "\<exists>s t u. BlockBasedProtectedStream_Create sa_vtable 0 (Some (cbc4k_vtable sample_key))
        (Some (StdStreamAdapter_i \<lparr>ss_buf = [9] @ cbc4k_text sample_key 0 [1, 2, 3], ss_g = 0, ss_p = 0,
           ss_fail = False\<rparr>)) (length [9::byte]) u64_max CBC4K_BLOCK_SIZE = Inr s \<and>
    bs_ReadAsync (Suc 0) sa_vtable False 1 1 s = (Inr (take 1 (drop 1 [1, 2, 3])), t) \<and>
    bs_ReadAsync (Suc 0) sa_vtable False 8 100 t =
      (Inr (take 8 (drop (1 + length (take 1 (drop 1 [1, 2, 3::byte]))) [1, 2, 3])), u) \<and>
    (\<forall>m q. bs_ReadAsync (Suc 0) sa_vtable False m q u =
       (Inl (RMSCryptoInvalidArgumentException ''Invalid operation''), u))"
  by (rule cbc4k_read_past_end)
    (simp_all add: sample_key_valid length_cbc4k_text [OF sample_key_valid]
      StdStreamAdapter_i_def sa_inv_def sa_cont_def)

text \<open>
  A write that touches a block other than the last makes the stream look shorter. As
  long as the block is pending, the size reported ends with that block, although the
  encrypted content behind it is still there.
\<close>

theorem cbc4k_pending_write_shrinks_size:
  assumes "cbc4k_valid p" and "sa_inv b" and "sa_out b"
    and "sa_cont b = pre @ cbc4k_text p 0 P"
    and "(off div CBC4K_BLOCK_SIZE + 1) * CBC4K_BLOCK_SIZE < length (cbc4k_text p 0 P)"
  shows "\<exists>s t. BlockBasedProtectedStream_Create sa_vtable junk (Some (cbc4k_vtable p)) (Some b)
        (length pre) u64_max CBC4K_BLOCK_SIZE = Inr s \<and>
    bs_Size s = (Inr (length (cbc4k_text p 0 P)), s) \<and>
    bs_WriteAsync (Suc f) sa_vtable False [v] off s = (Inr 1, t) \<and>
    bs_Size t = (Inr ((off div CBC4K_BLOCK_SIZE + 1) * CBC4K_BLOCK_SIZE), t)"
proof -
  have "length (cbc4k_text p 0 P) < 2 ^ 31" using std_stream.cont_bound [OF assms(2)] assms(4) by simp
  then have "min u64_max (length (cbc4k_text p 0 P @ [])) = length (cbc4k_text p 0 P)"
    by (simp add: u64_max_def)
  then obtain s where s: "BlockBasedProtectedStream_Create sa_vtable junk (Some (cbc4k_vtable p)) (Some b)
        (length pre) u64_max CBC4K_BLOCK_SIZE = Inr s" "cbc4k_content.bs_reader p P s"
      "sa_out (sp_backing (cb_Simple (bs_cb s))) = sa_out b"
    using cbc4k_content.create_reader [OF assms(1) TrueI assms(2), of pre P "[]" u64_max junk] assms(4) by auto
  have "bs_SizeInner (s\<lparr>bs_locked := True\<rparr>) = (Inr (length (cbc4k_text p 0 P)), s\<lparr>bs_locked := True\<rparr>)"
    using s(2) by (intro cbc4k_content.read_size) (simp_all add: cbc4k_content.bs_reader_def)
  moreover have "\<not> bs_locked s" using s(2) by (simp add: cbc4k_content.bs_reader_def)
  ultimately have "bs_Size s = (Inr (length (cbc4k_text p 0 P)), s)"
    by (simp add: bs_Size_def bs_guard_free)
  moreover obtain t where "bs_WriteAsync (Suc f) sa_vtable False [v] off s = (Inr 1, t)"
      "bs_Size t = (Inr ((off div CBC4K_BLOCK_SIZE + 1) * CBC4K_BLOCK_SIZE), t)"
    using cbc4k_content.write_into_block [OF s(2) _ assms(5), of f v] s(3) assms(3) by blast
  ultimately show ?thesis using s(1) by (intro exI conjI)
qed

theorem cbc4k_pending_write_shrinks_size_witness:
  "\<exists>s t. BlockBasedProtectedStream_Create sa_vtable 0 (Some (cbc4k_vtable sample_key))
        (Some (StdStreamAdapter_io \<lparr>ss_buf = [] @ cbc4k_text sample_key 0 (replicate 5000 1), ss_g = 0, ss_p = 0,
           ss_fail = False\<rparr>)) (length ([]::byte list)) u64_max CBC4K_BLOCK_SIZE = Inr s \<and>
    bs_Size s = (Inr (length (cbc4k_text sample_key 0 (replicate 5000 1))), s) \<and>
    bs_WriteAsync (Suc 0) sa_vtable False [7] 10 s = (Inr 1, t) \<and>
    bs_Size t = (Inr ((10 div CBC4K_BLOCK_SIZE + 1) * CBC4K_BLOCK_SIZE), t)"
proof (rule cbc4k_pending_write_shrinks_size)
  show "(10 div CBC4K_BLOCK_SIZE + 1) * CBC4K_BLOCK_SIZE < length (cbc4k_text sample_key 0 (replicate 5000 1))"
    by (simp only: length_cbc4k_text [OF sample_key_valid]) (simp add: CBC4K_BLOCK_SIZE_def)
qed (simp_all add: sample_key_valid length_cbc4k_text [OF sample_key_valid]
      StdStreamAdapter_io_def sa_inv_def sa_cont_def)

end
