(* ===== verification/DeviceStream.thy ===== *)
theory DeviceStream
  imports StreamProperties
begin

text \<open>
  The stream over a data stream of the application (\<open>rms_sdk/ModernAPI/ext/QTStreamImpl.h\<close>), a
  class template: the data stream and its device are a parameter. A protected stream over it keeps
  its promises for every device that keeps those of Qt.
\<close>

section \<open>The device\<close>

text \<open>
  \<open>'d\<close> is a data stream with its device. Reading and writing go on at the position; the result
  of \<open>seek\<close> is not used. A device here does not fail in the middle: it reads what there is and
  writes what it takes.
\<close>

record 'd data_stream =
  ds_pos :: "'d \<Rightarrow> nat"
  ds_seek :: "int \<Rightarrow> 'd \<Rightarrow> 'd"
  ds_size :: "'d \<Rightarrow> nat"
  ds_openMode :: "'d \<Rightarrow> nat"
  ds_readRawData :: "nat \<Rightarrow> 'd \<Rightarrow> byte list \<times> 'd"
  ds_writeRawData :: "byte list \<Rightarrow> 'd \<Rightarrow> nat \<times> 'd"

definition as_int64 :: "nat \<Rightarrow> int" where
  "as_int64 n = (int n + 2 ^ 63) mod 2 ^ 64 - 2 ^ 63"

lemma as_int64_small: "n < 2 ^ 63 \<Longrightarrow> as_int64 n = int n"
  by (simp add: as_int64_def)

text \<open>Sizes are narrowed to an \<open>int\<close>; one that gets negative reads or writes nothing.\<close>

definition sm_canRead :: "'d data_stream \<Rightarrow> 'd \<Rightarrow> bool" where
  "sm_canRead T d \<longleftrightarrow> odd (ds_openMode T d)"

definition sm_canWrite :: "'d data_stream \<Rightarrow> 'd \<Rightarrow> bool" where
  "sm_canWrite T d \<longleftrightarrow> odd (ds_openMode T d div 2)"

definition sm_read :: "'d data_stream \<Rightarrow> nat \<Rightarrow> 'd \<Rightarrow> byte list \<times> 'd" where
  "sm_read T sz = ds_readRawData T (narrow_int sz)"

definition sm_write :: "'d data_stream \<Rightarrow> byte list \<Rightarrow> 'd \<Rightarrow> nat \<times> 'd" where
  "sm_write T buff = ds_writeRawData T (take (narrow_int (length buff)) buff)"

section \<open>The stream\<close>

record 'd StreamImpl =
  si_locked :: bool
  si_stream :: 'd

definition StreamImpl_Create :: "'d \<Rightarrow> 'd StreamImpl" where
  "StreamImpl_Create d = \<lparr>si_locked = False, si_stream = d\<rparr>"

abbreviation si_guard :: "(exn, 'd StreamImpl, 'a) sx \<Rightarrow> (exn, 'd StreamImpl, 'a) sx" where
  "si_guard \<equiv> with_mutex si_locked (\<lambda>b s. s\<lparr>si_locked := b\<rparr>)"

definition si_run :: "('d \<Rightarrow> 'a \<times> 'd) \<Rightarrow> (exn, 'd StreamImpl, 'a) sx" where
  "si_run f s = (case f (si_stream s) of (x, d) \<Rightarrow> (Inr x, s\<lparr>si_stream := d\<rparr>))"

abbreviation si_seek :: "'d data_stream \<Rightarrow> int \<Rightarrow> (exn, 'd StreamImpl, unit) sx" where
  "si_seek T pos \<equiv> si_run (\<lambda>d. ((), ds_seek T pos d))"

definition si_ReadAsync :: "'d data_stream \<Rightarrow> nat \<Rightarrow> nat \<Rightarrow> (exn, 'd StreamImpl, byte list) sx" where
  "si_ReadAsync T cbBuffer cbOffset = si_guard (seqx (si_seek T (int cbOffset)) (si_run (sm_read T cbBuffer)))"

definition si_WriteAsync :: "'d data_stream \<Rightarrow> byte list \<Rightarrow> nat \<Rightarrow> (exn, 'd StreamImpl, nat) sx" where
  "si_WriteAsync T cpbBuffer cbOffset = si_guard (seqx (si_seek T (int cbOffset)) (si_run (sm_write T cpbBuffer)))"

definition si_Read :: "'d data_stream \<Rightarrow> nat \<Rightarrow> (exn, 'd StreamImpl, byte list) sx" where
  "si_Read T cbBuffer = si_guard (si_run (sm_read T cbBuffer))"

definition si_Write :: "'d data_stream \<Rightarrow> byte list \<Rightarrow> (exn, 'd StreamImpl, nat) sx" where
  "si_Write T cpbBuffer = si_guard (si_run (sm_write T cpbBuffer))"

definition si_Seek :: "'d data_stream \<Rightarrow> nat \<Rightarrow> (exn, 'd StreamImpl, unit) sx" where
  "si_Seek T u64Position = si_guard (si_seek T (as_int64 u64Position))"

text \<open>A clone is a new stream over the same device.\<close>

definition si_Clone :: "'d data_stream \<Rightarrow> (exn, 'd StreamImpl, 'd StreamImpl) sx" where
  "si_Clone T = si_guard (gets (\<lambda>s. StreamImpl_Create (si_stream s)))"

definition si_vtable :: "'d data_stream \<Rightarrow> 'd StreamImpl IStream" where
  "si_vtable T =
     \<lparr>is_ReadAsync = si_ReadAsync T, is_WriteAsync = si_WriteAsync T, is_FlushAsync = ret True,
      is_Read = si_Read T, is_Write = si_Write T, is_Flush = ret True, is_Clone = si_Clone T,
      is_Seek = si_Seek T, is_CanRead = gets (\<lambda>s. sm_canRead T (si_stream s)),
      is_CanWrite = gets (\<lambda>s. sm_canWrite T (si_stream s)),
      is_Position = si_guard (gets (\<lambda>s. ds_pos T (si_stream s))),
      is_Size = si_guard (gets (\<lambda>s. ds_size T (si_stream s))), is_SetSize = (\<lambda>v. ret ())\<rparr>"

section \<open>What a device promises\<close>

text \<open>
  \<open>ok\<close> are the devices in order and \<open>data\<close> is their content, shorter than 2 GiB. A device is open
  for reading and keeps its mode; it seeks inside its content, and reads and writes whole
  buffers there, growing at its end.
\<close>

definition device_ok :: "'d data_stream \<Rightarrow> ('d \<Rightarrow> bool) \<Rightarrow> ('d \<Rightarrow> byte list) \<Rightarrow> bool" where
  "device_ok T ok data \<longleftrightarrow>
     (\<forall>d. ok d \<longrightarrow> length (data d) < 2 ^ 31 \<and> ds_size T d = length (data d) \<and> odd (ds_openMode T d)) \<and>
     (\<forall>d p. ok d \<longrightarrow> p \<le> length (data d) \<longrightarrow>
        ok (ds_seek T (int p) d) \<and> data (ds_seek T (int p) d) = data d \<and> ds_pos T (ds_seek T (int p) d) = p \<and>
        ds_openMode T (ds_seek T (int p) d) = ds_openMode T d) \<and>
     (\<forall>d n. ok d \<longrightarrow> ds_pos T d + n \<le> length (data d) \<longrightarrow>
        (\<exists>d'. ds_readRawData T n d = (take n (drop (ds_pos T d) (data d)), d') \<and>
           ok d' \<and> data d' = data d \<and> ds_openMode T d' = ds_openMode T d)) \<and>
     (\<forall>d x. ok d \<longrightarrow> odd (ds_openMode T d div 2) \<longrightarrow> ds_pos T d \<le> length (data d) \<longrightarrow> ds_pos T d + length x < 2 ^ 31 \<longrightarrow>
        (\<exists>d'. ds_writeRawData T x d = (length x, d') \<and>
           ok d' \<and> data d' = put_at (data d) (ds_pos T d) x \<and> ds_openMode T d' = ds_openMode T d))"

definition si_inv :: "'d data_stream \<Rightarrow> ('d \<Rightarrow> bool) \<Rightarrow> ('d \<Rightarrow> byte list) \<Rightarrow> 'd StreamImpl \<Rightarrow> bool" where
  "si_inv T ok data s \<longleftrightarrow> device_ok T ok data \<and> \<not> si_locked s \<and> ok (si_stream s)"

lemma device_facts:
  assumes "si_inv T ok data s"
  shows "length (data (si_stream s)) < 2 ^ 31" "ds_size T (si_stream s) = length (data (si_stream s))"
    "odd (ds_openMode T (si_stream s))" "\<not> si_locked s"
  using assms by (auto simp: si_inv_def device_ok_def)

lemma device_seek:
  assumes "si_inv T ok data s" and "p \<le> length (data (si_stream s))"
  obtains d where "d = ds_seek T (int p) (si_stream s)" and "si_inv T ok data (s\<lparr>si_stream := d\<rparr>)"
    and "data d = data (si_stream s)" and "ds_pos T d = p" and "ds_openMode T d = ds_openMode T (si_stream s)"
  using assms by (auto simp: si_inv_def device_ok_def)

lemma device_read:
  assumes "si_inv T ok data s" and "ds_pos T (si_stream s) + n \<le> length (data (si_stream s))"
  obtains d where "ds_readRawData T n (si_stream s) = (take n (drop (ds_pos T (si_stream s)) (data (si_stream s))), d)"
    and "si_inv T ok data (s\<lparr>si_stream := d\<rparr>)" and "data d = data (si_stream s)"
    and "ds_openMode T d = ds_openMode T (si_stream s)"
proof -
  have "\<exists>d. ds_readRawData T n (si_stream s) = (take n (drop (ds_pos T (si_stream s)) (data (si_stream s))), d) \<and>
      ok d \<and> data d = data (si_stream s) \<and> ds_openMode T d = ds_openMode T (si_stream s)"
    using assms unfolding si_inv_def device_ok_def by blast
  then show thesis using that assms(1) by (auto simp: si_inv_def)
qed

lemma device_write:
  assumes "si_inv T ok data s" and "sm_canWrite T (si_stream s)"
    and "ds_pos T (si_stream s) \<le> length (data (si_stream s))" and "ds_pos T (si_stream s) + length x < 2 ^ 31"
  obtains d where "ds_writeRawData T x (si_stream s) = (length x, d)"
    and "si_inv T ok data (s\<lparr>si_stream := d\<rparr>)" and "data d = put_at (data (si_stream s)) (ds_pos T (si_stream s)) x"
    and "ds_openMode T d = ds_openMode T (si_stream s)"
proof -
  have "\<exists>d. ds_writeRawData T x (si_stream s) = (length x, d) \<and> ok d \<and>
      data d = put_at (data (si_stream s)) (ds_pos T (si_stream s)) x \<and> ds_openMode T d = ds_openMode T (si_stream s)"
    using assms unfolding si_inv_def device_ok_def sm_canWrite_def by blast
  then show thesis using that assms(1) by (auto simp: si_inv_def)
qed

lemma mutex_restored: "\<not> si_locked s \<Longrightarrow> s\<lparr>si_locked := True, si_stream := d, si_locked := False\<rparr> = s\<lparr>si_stream := d\<rparr>"
  "\<not> si_locked s \<Longrightarrow> s\<lparr>si_stream := d, si_locked := False\<rparr> = s\<lparr>si_stream := d\<rparr>"
  "\<not> si_locked s \<Longrightarrow> s\<lparr>si_locked := False\<rparr> = s"
  by (cases s; simp)+

interpretation device_stream: random_access_stream "si_vtable T" "si_inv T ok data" "\<lambda>s. data (si_stream s)"
    "\<lambda>s p. ds_pos T (si_stream s) = p" "\<lambda>s. sm_canWrite T (si_stream s)" "2 ^ 31" for T :: "'d data_stream" and ok data
proof
  fix s :: "'d StreamImpl" and p n :: nat and x :: "byte list"
  assume s: "si_inv T ok data s"
  note facts = device_facts [OF s]
  let ?c = "data (si_stream s)"
  show "length ?c < 2 ^ 31" by (rule facts)
  show "\<exists>t. is_Size (si_vtable T) s = (Inr (length ?c), t) \<and> si_inv T ok data t \<and> data (si_stream t) = ?c \<and>
      sm_canWrite T (si_stream t) = sm_canWrite T (si_stream s)"
    using s facts by (simp add: si_vtable_def sx_simps mutex_restored)
  show "is_CanRead (si_vtable T) s = (Inr True, s)" "is_CanWrite (si_vtable T) s = (Inr (sm_canWrite T (si_stream s)), s)"
    using facts by (simp_all add: si_vtable_def sx_simps sm_canRead_def)
  show "\<exists>t. is_Flush (si_vtable T) s = (Inr True, t) \<and> si_inv T ok data t \<and> data (si_stream t) = ?c \<and>
      sm_canWrite T (si_stream t) = sm_canWrite T (si_stream s)"
    "\<exists>t. is_FlushAsync (si_vtable T) s = (Inr True, t) \<and> si_inv T ok data t \<and> data (si_stream t) = ?c \<and>
      sm_canWrite T (si_stream t) = sm_canWrite T (si_stream s)"
    using s by (simp_all add: si_vtable_def sx_simps)
  show "is_Position (si_vtable T) s = (Inr p, s)" if "ds_pos T (si_stream s) = p"
    using that facts by (simp add: si_vtable_def sx_simps mutex_restored)
  show "\<exists>t. is_Seek (si_vtable T) p s = (Inr (), t) \<and> si_inv T ok data t \<and> data (si_stream t) = ?c \<and>
      sm_canWrite T (si_stream t) = sm_canWrite T (si_stream s) \<and> ds_pos T (si_stream t) = p" if le: "p \<le> length ?c"
  proof -
    obtain d where d: "d = ds_seek T (int p) (si_stream s)" "si_inv T ok data (s\<lparr>si_stream := d\<rparr>)" "data d = ?c"
      "ds_pos T d = p" "ds_openMode T d = ds_openMode T (si_stream s)"
      by (rule device_seek [OF s le])
    have "as_int64 p = int p" using le facts(1) by (simp add: as_int64_small)
    then have "is_Seek (si_vtable T) p s = (Inr (), s\<lparr>si_stream := d\<rparr>)"
      using facts(4) d(1) by (simp add: si_vtable_def si_Seek_def si_run_def sx_simps mutex_restored)
    then show ?thesis using d(2-5) by (simp add: sm_canWrite_def)
  qed
  show "\<exists>t. is_Read (si_vtable T) n s = (Inr (take n (drop p ?c)), t) \<and> si_inv T ok data t \<and> data (si_stream t) = ?c \<and>
      sm_canWrite T (si_stream t) = sm_canWrite T (si_stream s)" if at: "ds_pos T (si_stream s) = p" "p + n \<le> length ?c"
  proof -
    obtain d where d: "ds_readRawData T n (si_stream s) = (take n (drop p ?c), d)" "si_inv T ok data (s\<lparr>si_stream := d\<rparr>)"
      "data d = ?c" "ds_openMode T d = ds_openMode T (si_stream s)"
      using device_read [OF s, of n] at by blast
    have "is_Read (si_vtable T) n s = (Inr (take n (drop p ?c)), s\<lparr>si_stream := d\<rparr>)"
      using at facts(1,4) d(1) by (simp add: si_vtable_def si_Read_def si_run_def sm_read_def sx_simps mutex_restored)
    then show ?thesis using d(2-4) by (simp add: sm_canWrite_def)
  qed
  show "\<exists>t. is_ReadAsync (si_vtable T) n p s = (Inr (take n (drop p ?c)), t) \<and> si_inv T ok data t \<and> data (si_stream t) = ?c \<and>
      sm_canWrite T (si_stream t) = sm_canWrite T (si_stream s)" if le: "p + n \<le> length ?c"
  proof -
    obtain d where d: "d = ds_seek T (int p) (si_stream s)" "si_inv T ok data (s\<lparr>si_stream := d\<rparr>)" "data d = ?c"
      "ds_pos T d = p" "ds_openMode T d = ds_openMode T (si_stream s)"
      using device_seek [OF s, of p] le by (metis add_leD1)
    then obtain e where e: "ds_readRawData T n d = (take n (drop p ?c), e)" "si_inv T ok data (s\<lparr>si_stream := e\<rparr>)"
      "data e = ?c" "ds_openMode T e = ds_openMode T d"
      using device_read [OF d(2), of n] le d(3,4) by (simp, blast)
    have "is_ReadAsync (si_vtable T) n p s = (Inr (take n (drop p ?c)), s\<lparr>si_stream := e\<rparr>)"
      using le facts(1,4) e(1) d(1) by (simp add: si_vtable_def si_ReadAsync_def si_run_def sm_read_def sx_simps mutex_restored)
    then show ?thesis using e(2-4) d(5) by (simp add: sm_canWrite_def)
  qed
  show "\<exists>t. is_WriteAsync (si_vtable T) x p s = (Inr (length x), t) \<and> si_inv T ok data t \<and>
      data (si_stream t) = put_at ?c p x \<and> sm_canWrite T (si_stream t) = sm_canWrite T (si_stream s)"
    if w: "sm_canWrite T (si_stream s)" "p \<le> length ?c" "p + length x < 2 ^ 31"
  proof -
    obtain d where d: "d = ds_seek T (int p) (si_stream s)" "si_inv T ok data (s\<lparr>si_stream := d\<rparr>)" "data d = ?c"
      "ds_pos T d = p" "ds_openMode T d = ds_openMode T (si_stream s)"
      by (rule device_seek [OF s w(2)])
    then obtain e where e: "ds_writeRawData T x d = (length x, e)" "si_inv T ok data (s\<lparr>si_stream := e\<rparr>)"
      "data e = put_at ?c p x" "ds_openMode T e = ds_openMode T d"
      using device_write [OF d(2), of x] w d(3,4,5) by (simp add: sm_canWrite_def, blast)
    have "is_WriteAsync (si_vtable T) x p s = (Inr (length x), s\<lparr>si_stream := e\<rparr>)"
      using w(3) facts(1,4) e(1) d(1) by (simp add: si_vtable_def si_WriteAsync_def si_run_def sm_write_def sx_simps mutex_restored)
    then show ?thesis using e(2-4) d(5) by (simp add: sm_canWrite_def)
  qed
qed simp

section \<open>Protected streams over a device\<close>

interpretation device_content: protected_content cbc4k_valid cbc4k_vtable CBC4K_BLOCK_SIZE cbc4k_block cbc4k_final "\<lambda>l. True"
    "si_vtable T" "si_inv T ok data" "\<lambda>s. data (si_stream s)" "\<lambda>s p. ds_pos T (si_stream s) = p"
    "\<lambda>s. sm_canWrite T (si_stream s)" "2 ^ 31" for T :: "'d data_stream" and ok data
  by unfold_locales

text \<open>
  C24: A protected stream over the data stream of an application: chunks of any sizes that are
  written behind what the device holds and flushed are stored encrypted behind it, and are read
  back from any offset through the same device.
\<close>

theorem device_write_then_read:
  assumes "cbc4k_valid p" and "device_ok T ok data" and "ok d" and "sm_canWrite T d"
    and "length (data d) + length (concat ds) + CBC4K_BLOCK_SIZE < 2 ^ 31"
    and "\<forall>r \<in> set rs. fst r \<le> length (concat ds)"
  shows "\<exists>s t u v. BlockBasedProtectedStream_Create (si_vtable T) junk (Some (cbc4k_vtable p)) (Some (StreamImpl_Create d))
        (length (data d)) n CBC4K_BLOCK_SIZE = Inr s \<and>
    write_script (Suc f) (si_vtable T) ds s = (Inr True, t) \<and>
    data (si_stream (sp_backing (cb_Simple (bs_cb t)))) = data d @ cbc4k_text p 0 (concat ds) \<and>
    BlockBasedProtectedStream_Create (si_vtable T) junk (Some (cbc4k_vtable p)) (Some (sp_backing (cb_Simple (bs_cb t))))
        (length (data d)) u64_max CBC4K_BLOCK_SIZE = Inr u \<and>
    read_script (Suc f) (si_vtable T) rs u = (Inr (slices (concat ds) rs), v)"
proof -
  have "si_inv T ok data (StreamImpl_Create d)" using assms(2,3) by (simp add: si_inv_def StreamImpl_Create_def)
  then show ?thesis
    using device_content.write_then_read [of p T ok data "StreamImpl_Create d" ds rs junk n f] assms(1,4-6)
      cbc4k.cipher_size_0 [OF assms(1), of 0]
    by (simp add: StreamImpl_Create_def)
qed

text \<open>A device in memory.\<close>

record memory_device =
  md_data :: "byte list"
  md_pos :: nat
  md_mode :: nat

definition memory_stream :: "memory_device data_stream" where
  "memory_stream =
     \<lparr>ds_pos = md_pos, ds_seek = (\<lambda>p d. d\<lparr>md_pos := nat p\<rparr>), ds_size = (\<lambda>d. length (md_data d)), ds_openMode = md_mode,
      ds_readRawData = (\<lambda>n d. let x = take n (drop (md_pos d) (md_data d)) in (x, d\<lparr>md_pos := md_pos d + length x\<rparr>)),
      ds_writeRawData = (\<lambda>x d. (length x, d\<lparr>md_data := put_at (md_data d) (md_pos d) x, md_pos := md_pos d + length x\<rparr>))\<rparr>"

definition memory_device_ok :: "memory_device \<Rightarrow> bool" where
  "memory_device_ok d \<longleftrightarrow> length (md_data d) < 2 ^ 31 \<and> odd (md_mode d)"

lemma memory_stream_ok: "device_ok memory_stream memory_device_ok md_data"
  by (auto simp: device_ok_def memory_stream_def memory_device_ok_def Let_def length_put_at_max)

theorem device_write_then_read_witness:
  "\<exists>s t u v. BlockBasedProtectedStream_Create (si_vtable memory_stream) 0 (Some (cbc4k_vtable sample_key))
        (Some (StreamImpl_Create \<lparr>md_data = [9], md_pos = 0, md_mode = 3\<rparr>)) (length [9 :: byte]) 0 CBC4K_BLOCK_SIZE = Inr s \<and>
    write_script (Suc 0) (si_vtable memory_stream) [[1, 2], [3]] s = (Inr True, t) \<and>
    md_data (si_stream (sp_backing (cb_Simple (bs_cb t)))) = [9] @ cbc4k_text sample_key 0 (concat [[1, 2], [3]]) \<and>
    BlockBasedProtectedStream_Create (si_vtable memory_stream) 0 (Some (cbc4k_vtable sample_key))
        (Some (sp_backing (cb_Simple (bs_cb t)))) (length [9 :: byte]) u64_max CBC4K_BLOCK_SIZE = Inr u \<and>
    read_script (Suc 0) (si_vtable memory_stream) [(1, 1), (3, 4)] u = (Inr (slices (concat [[1, 2], [3]]) [(1, 1), (3, 4)]), v)"
  using device_write_then_read [OF sample_key_valid memory_stream_ok,
      of "\<lparr>md_data = [9], md_pos = 0, md_mode = 3\<rparr>" "[[1, 2], [3]]" "[(1, 1), (3, 4)]" 0 0 0]
  by (simp add: memory_device_ok_def sm_canWrite_def memory_stream_def CBC4K_BLOCK_SIZE_def)

end
