(* ===== verification/StdStrings.thy ===== *)
theory StdStrings
  imports Prelude
begin

text \<open>
  What the two libraries use of \<open>std::string\<close>, beside lists: \<open>getline\<close>, \<open>find\<close>,
  \<open>replace\<close>, and the casts between characters and bytes.
\<close>

text \<open>\<open>getline\<close> until the stream is at its end.\<close>

function getlines :: "char \<Rightarrow> string \<Rightarrow> string list" where
  "getlines delim src =
     (if src = [] then []
      else takeWhile (\<lambda>c. c \<noteq> delim) src # getlines delim (tl (dropWhile (\<lambda>c. c \<noteq> delim) src)))"
  by pat_completeness auto
termination
proof (relation "measure (\<lambda>(d, s). length s)")
  fix delim and src :: string
  assume "src \<noteq> []"
  then have "0 < length src" by simp
  moreover have "length (dropWhile (\<lambda>c. c \<noteq> delim) src) \<le> length src"
    by (rule length_dropWhile_le)
  moreover have "length (tl (dropWhile (\<lambda>c. c \<noteq> delim) src)) = length (dropWhile (\<lambda>c. c \<noteq> delim) src) - 1"
    by (rule length_tl)
  ultimately have "length (tl (dropWhile (\<lambda>c. c \<noteq> delim) src)) < length src"
    by linarith
  then show "((delim, tl (dropWhile (\<lambda>c. c \<noteq> delim) src)), delim, src) \<in> measure (\<lambda>(d, s). length s)"
    by simp
qed simp

declare getlines.simps [simp del]

lemma getlines_at:
  "src \<noteq> [] \<Longrightarrow> getlines d src = takeWhile (\<lambda>c. c \<noteq> d) src # getlines d (tl (dropWhile (\<lambda>c. c \<noteq> d) src))"
  by (subst getlines.simps) simp

lemma getlines_nil [simp]: "getlines d [] = []"
  by (subst getlines.simps) simp

lemma getlines_last: "x \<noteq> [] \<Longrightarrow> d \<notin> set x \<Longrightarrow> getlines d x = [x]"
proof -
  assume a: "x \<noteq> []" "d \<notin> set x"
  then have t: "takeWhile (\<lambda>c. c \<noteq> d) x = x" "dropWhile (\<lambda>c. c \<noteq> d) x = []" by auto
  show ?thesis by (simp only: getlines_at [OF a(1)] t) simp
qed

lemma getlines_delim: "d \<notin> set x \<Longrightarrow> getlines d (x @ d # r) = x # getlines d r"
proof -
  assume a: "d \<notin> set x"
  then have t: "takeWhile (\<lambda>c. c \<noteq> d) (x @ d # r) = x" "dropWhile (\<lambda>c. c \<noteq> d) (x @ d # r) = d # r"
    by (subst takeWhile_append2 dropWhile_append2; auto)+
  have n: "x @ d # r \<noteq> []" by simp
  show ?thesis by (simp only: getlines_at [OF n] t) simp
qed

text \<open>\<open>find\<close>: the first place, at or after an offset, where the pattern stands.\<close>

primrec find_at :: "string \<Rightarrow> string \<Rightarrow> nat option" where
  "find_at pat [] = (if pat = [] then Some 0 else None)"
| "find_at pat (c # r) =
     (if take (length pat) (c # r) = pat then Some 0 else map_option Suc (find_at pat r))"

definition find_str :: "string \<Rightarrow> string \<Rightarrow> nat \<Rightarrow> nat option" where
  "find_str pat src offset =
     (if length src < offset then None else map_option (\<lambda>i. offset + i) (find_at pat (drop offset src)))"

definition replace_at :: "string \<Rightarrow> nat \<Rightarrow> nat \<Rightarrow> string \<Rightarrow> string" where
  "replace_at src pos len to = take pos src @ to @ drop (pos + len) src"

definition string_bytes :: "string \<Rightarrow> byte list" where
  "string_bytes s = map (\<lambda>c. word_of_nat (of_char c)) s"

definition bytes_string :: "byte list \<Rightarrow> string" where
  "bytes_string bs = map (\<lambda>b. char_of (unat b)) bs"

lemma bytes_string_of_string [simp]: "bytes_string (string_bytes s) = s"
proof -
  have "unat (word_of_nat (of_char c) :: byte) = of_char c" for c :: char
    using of_char_mod_256 [of c, where ?'a = nat] by (simp only: unat_of_nat) simp
  then show ?thesis by (simp add: bytes_string_def string_bytes_def comp_def)
qed

lemma length_string_bytes [simp]: "length (string_bytes s) = length s"
  by (simp add: string_bytes_def)

lemma length_bytes_string [simp]: "length (bytes_string s) = length s"
  by (simp add: bytes_string_def)

lemma find_at_char: "find_at [c] s = (if c \<in> set s then Some (length (takeWhile (\<lambda>d. d \<noteq> c) s)) else None)"
  by (induction s) auto

lemma find_char:
  "find_str [c] s 0 = (if c \<in> set s then Some (length (takeWhile (\<lambda>d. d \<noteq> c) s)) else None)"
  by (simp add: find_str_def find_at_char option.map_ident)

end
