(* ===== verification/PFile.thy ===== *)
theory PFile
  imports IStream StdStrings
begin

text \<open>
  The header of a protected file (\<open>sdk/rms_sdk/PFile\<close>): the record, its reader and its
  writer, as computations over the methods of any \<open>IStream\<close>. Integers are moved as the
  little-endian images they have in memory. An integer the reader declares without an
  initial value keeps the bytes that a short read does not overwrite; those bytes are the
  parameter \<open>uninit\<close>.
\<close>

section \<open>The header\<close>

record PfileHeader =
  ph_PublishingLicense :: "byte list"
  ph_FileExtension :: string
  ph_ContentStartPosition :: nat
  ph_OriginalFileSize :: nat
  ph_Metadata :: "byte list"
  ph_MajorVersion :: nat
  ph_MinorVersion :: nat
  ph_CleartextRedirectionHeader :: string

definition MIN_SUPPORTED_MJVERSION_FOR_READING :: nat where
  "MIN_SUPPORTED_MJVERSION_FOR_READING = 2"

definition MAX_SUPPORTED_MJVERSION_FOR_READING :: nat where
  "MAX_SUPPORTED_MJVERSION_FOR_READING = 3"

definition MJVERSION_FOR_WRITING :: nat where
  "MJVERSION_FOR_WRITING = 3"

definition MNVERSION_FOR_WRITING :: nat where
  "MNVERSION_FOR_WRITING = 0"

definition MaxMajorVerionsCBC4KIsForced :: nat where
  "MaxMajorVerionsCBC4KIsForced = 2"

definition ExpectedPreamble :: "byte list" where
  "ExpectedPreamble = [0x2E, 0x70, 0x66, 0x69, 0x6C, 0x65]"

section \<open>The reader\<close>

record uninit =
  un_majorVersion :: "byte list"
  un_minorVersion :: "byte list"
  un_redirectHeaderLength :: "byte list"
  un_headerSize :: "byte list"

definition uninit_ok :: "uninit \<Rightarrow> bool" where
  "uninit_ok un \<longleftrightarrow> length (un_majorVersion un) = 4 \<and> length (un_minorVersion un) = 4 \<and>
     length (un_redirectHeaderLength un) = 4 \<and> length (un_headerSize un) = 4"

definition pfile_error :: "string \<Rightarrow> PFileReason \<Rightarrow> exn" where
  "pfile_error msg r = RMSPFileException msg r"

text \<open>\<open>stream->Read(reinterpret_cast<uint8_t *>(&v), sizeof(v))\<close>, where \<open>v\<close> has the image given.\<close>

definition read_uint :: "'s IStream \<Rightarrow> byte list \<Rightarrow> (exn, 's, nat) sx" where
  "read_uint ops img =
     bnd (is_Read ops (length img)) (\<lambda>d. ret (le_value (put_at img 0 d)))"

definition pr_ReadBytes :: "'s IStream \<Rightarrow> byte list \<Rightarrow> nat \<Rightarrow> (exn, 's, byte list) sx" where
  "pr_ReadBytes ops dst len =
     (if len = 0 then ret dst
      else bnd (is_Size ops) (\<lambda>sz.
        if sz < len then throw (pfile_error ''Bad block length'' BadArguments)
        else bnd (is_Read ops len) (\<lambda>d. ret (dst @ put_at (replicate len 0) 0 d))))"

definition pr_ReadAtOffset :: "'s IStream \<Rightarrow> byte list \<Rightarrow> nat \<Rightarrow> nat \<Rightarrow> (exn, 's, byte list) sx" where
  "pr_ReadAtOffset ops dst offset len = seqx (is_Seek ops offset) (pr_ReadBytes ops dst len)"

definition pr_CheckPreamble :: "'s IStream \<Rightarrow> (exn, 's, unit) sx" where
  "pr_CheckPreamble ops =
     bnd (pr_ReadBytes ops [] (length ExpectedPreamble)) (\<lambda>pr.
       if length pr \<noteq> length ExpectedPreamble
       then throw (pfile_error ''Invalid pfile preambule'' NotPFile)
       else if list_all (\<lambda>i. pr ! i = ExpectedPreamble ! i) [0..<length pr] then ret ()
       else throw (pfile_error ''Invalid pfile preambule'' NotPFile))"

definition pr_ReadVersionNumber :: "'s IStream \<Rightarrow> uninit \<Rightarrow> (exn, 's, nat \<times> nat) sx" where
  "pr_ReadVersionNumber ops un =
     bnd (read_uint ops (un_majorVersion un)) (\<lambda>majorVersion.
     bnd (read_uint ops (un_minorVersion un)) (\<lambda>minorVersion.
       if 256 \<le> majorVersion \<or> 256 \<le> minorVersion
       then throw (pfile_error ''Invalid pfile version'' NotPFile)
       else if MAX_SUPPORTED_MJVERSION_FOR_READING < majorVersion \<or>
          majorVersion < MIN_SUPPORTED_MJVERSION_FOR_READING
       then throw (pfile_error ''This version is not supported'' NotSupportedVersion)
       else ret (majorVersion, minorVersion)))"

definition pr_ReadCleartextRedirectionHeader :: "'s IStream \<Rightarrow> uninit \<Rightarrow> (exn, 's, string) sx" where
  "pr_ReadCleartextRedirectionHeader ops un =
     bnd (read_uint ops (un_redirectHeaderLength un)) (\<lambda>redirectHeaderLength.
     bnd (pr_ReadBytes ops [] redirectHeaderLength) (\<lambda>redirectHeader.
       if length redirectHeader \<noteq> redirectHeaderLength
       then throw (pfile_error ''Bad redirect header'' BadArguments)
       else ret (bytes_string redirectHeader)))"

definition pr_ReadExtension :: "'s IStream \<Rightarrow> nat \<Rightarrow> nat \<Rightarrow> (exn, 's, string) sx" where
  "pr_ReadExtension ops offset len =
     bnd (is_Size ops) (\<lambda>sz.
       if sz \<le> offset then throw (pfile_error ''Bad extension'' BadArguments)
       else bnd (pr_ReadAtOffset ops [] offset len) (\<lambda>ext. ret (bytes_string ext)))"

text \<open>The versions whose header has the original size and the metadata.\<close>

definition has_metadata :: "nat \<Rightarrow> nat \<Rightarrow> bool" where
  "has_metadata majorVersion minorVersion \<longleftrightarrow>
     (majorVersion = 2 \<and> 1 \<le> minorVersion) \<or> 2 < majorVersion"

definition pr_metadata_fields :: "'s IStream \<Rightarrow> (exn, 's, nat \<times> nat \<times> nat) sx" where
  "pr_metadata_fields ops =
     bnd (read_uint ops (le_bytes 8 0)) (\<lambda>originalFileSize.
     bnd (read_uint ops (le_bytes 4 0)) (\<lambda>metadataOffset.
     bnd (read_uint ops (le_bytes 4 0)) (\<lambda>metadataLength.
       ret (originalFileSize, metadataOffset, metadataLength))))"

definition pr_parts ::
  "'s IStream \<Rightarrow> nat \<Rightarrow> nat \<Rightarrow> string \<Rightarrow> nat \<Rightarrow> nat \<Rightarrow> nat \<Rightarrow> nat \<Rightarrow> nat \<Rightarrow> nat \<times> nat \<times> nat \<Rightarrow>
   nat \<Rightarrow> (exn, 's, PfileHeader) sx" where
  "pr_parts ops majorVersion minorVersion redirect extensionOffset extensionLength plOffset plLength
      contentOffset extra endOfHeader =
     (case extra of (originalFileSize, metadataOffset, metadataLength) \<Rightarrow>
       if contentOffset < endOfHeader then throw (pfile_error ''Bad content offset'' BadArguments)
       else bnd (pr_ReadExtension ops extensionOffset extensionLength) (\<lambda>extension.
         bnd (pr_ReadAtOffset ops [] plOffset plLength) (\<lambda>publishingLicense.
         bnd (if has_metadata majorVersion minorVersion
              then pr_ReadAtOffset ops [] metadataOffset metadataLength else ret []) (\<lambda>metadata.
           ret \<lparr>ph_PublishingLicense = publishingLicense, ph_FileExtension = extension,
                ph_ContentStartPosition = contentOffset, ph_OriginalFileSize = originalFileSize,
                ph_Metadata = metadata, ph_MajorVersion = majorVersion,
                ph_MinorVersion = minorVersion, ph_CleartextRedirectionHeader = redirect\<rparr>))))"

definition pr_ReadHeader ::
  "'s IStream \<Rightarrow> uninit \<Rightarrow> nat \<Rightarrow> nat \<Rightarrow> string \<Rightarrow> (exn, 's, PfileHeader) sx" where
  "pr_ReadHeader ops un majorVersion minorVersion redirect =
     bnd (read_uint ops (un_headerSize un)) (\<lambda>headerSize.
     bnd (read_uint ops (le_bytes 4 0)) (\<lambda>extensionOffset.
     bnd (read_uint ops (le_bytes 4 0)) (\<lambda>extensionLength.
     bnd (read_uint ops (le_bytes 4 0)) (\<lambda>plOffset.
     bnd (read_uint ops (le_bytes 4 0)) (\<lambda>plLength.
     bnd (read_uint ops (le_bytes 4 0)) (\<lambda>contentOffset.
       if has_metadata majorVersion minorVersion
       then bnd (pr_metadata_fields ops) (\<lambda>(originalFileSize, metadataOffset, metadataLength).
         pr_parts ops majorVersion minorVersion redirect extensionOffset extensionLength plOffset
           plLength contentOffset (originalFileSize, metadataOffset, metadataLength)
           (add32 metadataOffset metadataLength))
       else pr_parts ops majorVersion minorVersion redirect extensionOffset extensionLength plOffset
           plLength contentOffset (0, 0, 0) (add32 plOffset plLength)))))))"

definition PfileHeaderReader_Read :: "'s IStream \<Rightarrow> uninit \<Rightarrow> (exn, 's, PfileHeader) sx" where
  "PfileHeaderReader_Read ops un =
     seqx (pr_CheckPreamble ops)
      (bnd (pr_ReadVersionNumber ops un) (\<lambda>version.
       bnd (pr_ReadCleartextRedirectionHeader ops un) (\<lambda>redirect.
         pr_ReadHeader ops un (fst version) (snd version) redirect)))"

section \<open>The writer\<close>

definition write_bytes :: "'s IStream \<Rightarrow> byte list \<Rightarrow> (exn, 's, unit) sx" where
  "write_bytes ops d = bnd (is_Write ops d) (\<lambda>_. ret ())"

definition pw_WritePreamble :: "'s IStream \<Rightarrow> (exn, 's, nat) sx" where
  "pw_WritePreamble ops =
     seqx (write_bytes ops [0x2E, 0x70, 0x66, 0x69, 0x6C, 0x65]) (ret 6)"

definition pw_WriteVersionNumber :: "'s IStream \<Rightarrow> PfileHeader \<Rightarrow> (exn, 's, nat) sx" where
  "pw_WriteVersionNumber ops h =
     seqx (write_bytes ops (le_bytes 4 (ph_MajorVersion h)))
     (seqx (write_bytes ops (le_bytes 4 (ph_MinorVersion h))) (ret (2 * 4)))"

definition pw_WriteCleartextRedirection :: "'s IStream \<Rightarrow> PfileHeader \<Rightarrow> (exn, 's, nat) sx" where
  "pw_WriteCleartextRedirection ops h =
     (let cts = to_u32 (length (ph_CleartextRedirectionHeader h))
      in seqx (write_bytes ops (le_bytes 4 cts))
        (seqx (write_bytes ops (string_bytes (ph_CleartextRedirectionHeader h)))
          (ret (add32 cts 4))))"

definition pw_WriteHeader :: "'s IStream \<Rightarrow> PfileHeader \<Rightarrow> nat \<Rightarrow> (exn, 's, unit) sx" where
  "pw_WriteHeader ops h headerOffset =
     (let headerSize = 8 * 4 + 8;
          extensionOffset = add32 (to_u32 headerOffset) headerSize;
          extensionLength = to_u32 (length (ph_FileExtension h));
          plOffset = add32 extensionOffset extensionLength;
          plLength = to_u32 (length (ph_PublishingLicense h));
          originalFileSize = ph_OriginalFileSize h;
          metadataOffset = add32 plOffset plLength;
          metadataLength = to_u32 (length (ph_Metadata h));
          contentOffset = add32 metadataOffset metadataLength
      in seqx (write_bytes ops (le_bytes 4 headerSize))
        (seqx (write_bytes ops (le_bytes 4 extensionOffset))
        (seqx (write_bytes ops (le_bytes 4 extensionLength))
        (seqx (write_bytes ops (le_bytes 4 plOffset))
        (seqx (write_bytes ops (le_bytes 4 plLength))
        (seqx (write_bytes ops (le_bytes 4 contentOffset))
        (seqx (write_bytes ops (le_bytes 8 originalFileSize))
        (seqx (write_bytes ops (le_bytes 4 metadataOffset))
              (write_bytes ops (le_bytes 4 metadataLength))))))))))"

definition pw_WriteExtension :: "'s IStream \<Rightarrow> PfileHeader \<Rightarrow> (exn, 's, unit) sx" where
  "pw_WriteExtension ops h =
     (if ph_FileExtension h = [] then ret () else write_bytes ops (string_bytes (ph_FileExtension h)))"

definition pw_WritePublishingLicense :: "'s IStream \<Rightarrow> PfileHeader \<Rightarrow> (exn, 's, unit) sx" where
  "pw_WritePublishingLicense ops h = write_bytes ops (ph_PublishingLicense h)"

definition pw_WriteMetadata :: "'s IStream \<Rightarrow> PfileHeader \<Rightarrow> (exn, 's, unit) sx" where
  "pw_WriteMetadata ops h = write_bytes ops (ph_Metadata h)"

definition PfileHeaderWriter_Write :: "'s IStream \<Rightarrow> PfileHeader \<Rightarrow> (exn, 's, nat) sx" where
  "PfileHeaderWriter_Write ops h =
     bnd (pw_WritePreamble ops) (\<lambda>preamble.
     bnd (pw_WriteVersionNumber ops h) (\<lambda>version.
     bnd (pw_WriteCleartextRedirection ops h) (\<lambda>redirect.
       seqx (pw_WriteHeader ops h (add32 (add32 preamble version) redirect))
      (seqx (pw_WriteExtension ops h)
      (seqx (pw_WritePublishingLicense ops h)
      (seqx (pw_WriteMetadata ops h) (is_Size ops)))))))"

definition crlf :: string where
  "crlf = [CHR 0x0D, CHR 0x0A]"

definition CleartextRedirectHeader :: string where
  "CleartextRedirectHeader =
     crlf @ crlf @ crlf @ ''This file uses Microsoft Information Protection solutions.'' @ crlf @
     ''Open it using an application that supports protected files.'' @ crlf @ crlf @
     ''You can download Microsoft's protected file viewer from: http://go.microsoft.com/fwlink/?LinkId=280381 '' @ crlf @
     ''Learn more about Information Protection solutions at http://www.microsoft.com/rms '' @ crlf @ crlf @
     ''Do not change this file in any way -- doing so will result in data loss.'' @ crlf @ crlf"

lemma length_CleartextRedirectHeader: "length CleartextRedirectHeader = 396"
  by (simp add: CleartextRedirectHeader_def crlf_def)

end
