(* ===== verification/SequentialStream.thy ===== *)
theory SequentialStream
  imports StdStream
begin

text \<open>
  Two contracts for clients that move through a stream sequentially, and the adapter of a
  standard stream as an instance of both. A reader may run past the end: it gets what is
  left, and the stream stays usable. A writer appends at the end.
\<close>

section \<open>Reading in sequence\<close>

text \<open>
  \<open>rd s p\<close> says that the next read is at offset \<open>p\<close>. A seek past the end leaves the
  stream somewhere inside its content.
\<close>

locale readable_stream =
  fixes ops :: "'s IStream"
    and good :: "'s \<Rightarrow> bool"
    and cont :: "'s \<Rightarrow> byte list"
    and rd :: "'s \<Rightarrow> nat \<Rightarrow> bool"
    and lim :: nat
  assumes lim_32: "lim \<le> 2 ^ 32"
    and cont_lim: "good s \<Longrightarrow> length (cont s) < lim"
    and rd_inside: "good s \<Longrightarrow> rd s p \<Longrightarrow> p \<le> length (cont s)"
    and rd_size: "good s \<Longrightarrow> rd s p \<Longrightarrow>
      \<exists>t. is_Size ops s = (Inr (length (cont s)), t) \<and> good t \<and> cont t = cont s \<and> rd t p"
    and rd_seek: "good s \<Longrightarrow> p \<le> length (cont s) \<Longrightarrow>
      \<exists>t. is_Seek ops p s = (Inr (), t) \<and> good t \<and> cont t = cont s \<and> rd t p"
    and rd_seek_past: "good s \<Longrightarrow> rd s q \<Longrightarrow> length (cont s) < p \<Longrightarrow>
      \<exists>t q. is_Seek ops p s = (Inr (), t) \<and> good t \<and> cont t = cont s \<and> rd t q"
    and rd_read: "good s \<Longrightarrow> rd s p \<Longrightarrow>
      \<exists>t. is_Read ops n s = (Inr (take n (drop p (cont s))), t) \<and> good t \<and> cont t = cont s \<and>
        rd t (min (p + n) (length (cont s)))"
begin

text \<open>
  \<open>runs c p m Q\<close>: over content \<open>c\<close> from offset \<open>p\<close> the computation \<open>m\<close> leaves the content
  as it is and ends with an outcome \<open>r\<close> at an offset \<open>q\<close> such that \<open>Q r q\<close>.
\<close>

definition runs :: "byte list \<Rightarrow> nat \<Rightarrow> (exn, 's, 'a) sx \<Rightarrow> (exn + 'a \<Rightarrow> nat \<Rightarrow> bool) \<Rightarrow> bool" where
  "runs c p m Q \<longleftrightarrow> (\<forall>s. good s \<and> cont s = c \<and> rd s p \<longrightarrow>
     (\<exists>r t q. m s = (r, t) \<and> good t \<and> cont t = c \<and> rd t q \<and> Q r q))"

lemma runs_ret: "Q (Inr v) p \<Longrightarrow> runs c p (ret v) Q"
  by (auto simp: runs_def ret_app)

lemma runs_throw: "Q (Inl e) p \<Longrightarrow> runs c p (throw e) Q"
  by (auto simp: runs_def throw_app)

lemma runs_weaken: "runs c p m Q \<Longrightarrow> (\<And>r q. Q r q \<Longrightarrow> R r q) \<Longrightarrow> runs c p m R"
  by (fastforce simp: runs_def)

lemma runs_bnd:
  assumes m: "runs c p m (\<lambda>r q. case r of Inl e \<Rightarrow> Q (Inl e) q | Inr x \<Rightarrow> runs c q (f x) Q)"
  shows "runs c p (bnd m f) Q"
  unfolding runs_def
proof (intro allI impI)
  fix s assume s: "good s \<and> cont s = c \<and> rd s p"
  then obtain r t q where t: "m s = (r, t)" "good t" "cont t = c" "rd t q"
      "case r of Inl e \<Rightarrow> Q (Inl e) q | Inr x \<Rightarrow> runs c q (f x) Q"
    using m by (auto simp: runs_def)
  show "\<exists>r t q. bnd m f s = (r, t) \<and> good t \<and> cont t = c \<and> rd t q \<and> Q r q"
  proof (cases r)
    case (Inl e)
    then show ?thesis using t by (intro exI [of _ "Inl e"] exI [of _ t] exI [of _ q]) (simp add: bnd_app)
  next
    case (Inr x)
    then show ?thesis using t by (simp add: runs_def bnd_app)
  qed
qed

lemma runs_seqx:
  "runs c p m (\<lambda>r q. case r of Inl e \<Rightarrow> Q (Inl e) q | Inr x \<Rightarrow> runs c q n Q) \<Longrightarrow> runs c p (seqx m n) Q"
  unfolding seqx_def by (rule runs_bnd)

lemma runs_Read:
  "Q (Inr (take n (drop p c))) (min (p + n) (length c)) \<Longrightarrow> runs c p (is_Read ops n) Q"
  unfolding runs_def using rd_read by fastforce

lemma runs_Size: "Q (Inr (length c)) p \<Longrightarrow> runs c p (is_Size ops) Q"
  unfolding runs_def using rd_size by fastforce

lemma runs_Seek:
  "(q \<le> length c \<Longrightarrow> Q (Inr ()) q) \<Longrightarrow> (\<And>k. length c < q \<Longrightarrow> k \<le> length c \<Longrightarrow> Q (Inr ()) k) \<Longrightarrow>
   runs c p (is_Seek ops q) Q"
  unfolding runs_def
proof (intro allI impI)
  fix s
  assume Q: "q \<le> length c \<Longrightarrow> Q (Inr ()) q" "\<And>k. length c < q \<Longrightarrow> k \<le> length c \<Longrightarrow> Q (Inr ()) k"
    and s: "good s \<and> cont s = c \<and> rd s p"
  show "\<exists>r t q'. is_Seek ops q s = (r, t) \<and> good t \<and> cont t = c \<and> rd t q' \<and> Q r q'"
  proof (cases "q \<le> length c")
    case True
    then show ?thesis using rd_seek [of s q] s Q(1) by auto
  next
    case False
    then obtain t k where "is_Seek ops q s = (Inr (), t)" "good t" "cont t = c" "rd t k"
      using rd_seek_past [of s p q] s by auto
    then show ?thesis using Q(2) [of k] rd_inside [of t k] False by auto
  qed
qed

lemma runs_start: "good s \<Longrightarrow> rd s p \<Longrightarrow> runs (cont s) p m Q \<Longrightarrow>
  \<exists>r t q. m s = (r, t) \<and> good t \<and> cont t = cont s \<and> rd t q \<and> Q r q"
  by (simp add: runs_def)

end

section \<open>Writing in sequence\<close>

text \<open>\<open>wr s\<close> says that the next write is at the end of the content.\<close>

locale appendable_stream =
  fixes ops :: "'s IStream"
    and good :: "'s \<Rightarrow> bool"
    and cont :: "'s \<Rightarrow> byte list"
    and wr :: "'s \<Rightarrow> bool"
    and lim :: nat
  assumes append_lim: "lim \<le> 2 ^ 32"
    and append_write: "good s \<Longrightarrow> wr s \<Longrightarrow> length (cont s) + length d < lim \<Longrightarrow>
      \<exists>t. is_Write ops d s = (Inr (length d), t) \<and> good t \<and> cont t = cont s @ d \<and> wr t"
    and append_size: "good s \<Longrightarrow> wr s \<Longrightarrow>
      \<exists>t. is_Size ops s = (Inr (length (cont s)), t) \<and> good t \<and> cont t = cont s \<and> wr t"
begin

text \<open>\<open>adds c m v d\<close>: over content \<open>c\<close> the computation \<open>m\<close> returns \<open>v\<close> and appends \<open>d\<close>.\<close>

definition adds :: "byte list \<Rightarrow> (exn, 's, 'a) sx \<Rightarrow> 'a \<Rightarrow> byte list \<Rightarrow> bool" where
  "adds c m v d \<longleftrightarrow> (\<forall>s. good s \<and> cont s = c \<and> wr s \<and> length c + length d < lim \<longrightarrow>
     (\<exists>t. m s = (Inr v, t) \<and> good t \<and> cont t = c @ d \<and> wr t))"

lemma adds_ret: "adds c (ret v) v []"
  by (simp add: adds_def ret_app)

lemma adds_bnd:
  assumes "adds c m v d" and "adds (c @ d) (f v) w e"
  shows "adds c (bnd m f) w (d @ e)"
  unfolding adds_def
proof (intro allI impI)
  fix s assume s: "good s \<and> cont s = c \<and> wr s \<and> length c + length (d @ e) < lim"
  then obtain t where t: "m s = (Inr v, t)" "good t" "cont t = c @ d" "wr t"
    using assms(1) by (auto simp: adds_def)
  then obtain u where "f v t = (Inr w, u)" "good u" "cont u = (c @ d) @ e" "wr u"
    using assms(2) s by (auto simp: adds_def)
  with t show "\<exists>t. bnd m f s = (Inr w, t) \<and> good t \<and> cont t = c @ d @ e \<and> wr t"
    by (simp add: bnd_app)
qed

lemma adds_seqx: "adds c m () d \<Longrightarrow> adds (c @ d) n w e \<Longrightarrow> adds c (seqx m n) w (d @ e)"
  unfolding seqx_def by (rule adds_bnd)

lemma adds_Write: "adds c (is_Write ops d) (length d) d"
  unfolding adds_def using append_write by fastforce

lemma adds_Size: "adds c (is_Size ops) (length c) []"
  unfolding adds_def using append_size by fastforce

lemma adds_start: "adds (cont s) m v d \<Longrightarrow> good s \<Longrightarrow> wr s \<Longrightarrow> length (cont s) + length d < lim \<Longrightarrow>
  \<exists>t. m s = (Inr v, t) \<and> good t \<and> cont t = cont s @ d \<and> wr t"
  by (simp add: adds_def)

end

section \<open>The adapter of a standard stream\<close>

text \<open>What a read past the end leaves behind: the failure bit may be set.\<close>

definition sa_good :: "StdStreamAdapter \<Rightarrow> bool" where
  "sa_good s \<longleftrightarrow> \<not> sa_locked s \<and> sa_in s \<and>
     ss_g (sa_stream s) \<le> length (ss_buf (sa_stream s)) \<and>
     ss_p (sa_stream s) \<le> length (ss_buf (sa_stream s)) \<and>
     length (ss_buf (sa_stream s)) < 2 ^ 31"

definition sa_rd :: "StdStreamAdapter \<Rightarrow> nat \<Rightarrow> bool" where
  "sa_rd s p \<longleftrightarrow> ss_g (sa_stream s) = p"

definition sa_append :: "StdStreamAdapter \<Rightarrow> bool" where
  "sa_append s \<longleftrightarrow> sa_out s \<and> ss_p (sa_stream s) = length (ss_buf (sa_stream s))"

lemma sa_good_inv: "sa_inv s \<Longrightarrow> sa_good s"
  by (simp add: sa_good_def sa_inv_def)

interpretation std_reader: readable_stream sa_vtable sa_good sa_cont sa_rd "2 ^ 31"
proof
  fix s :: StdStreamAdapter and p q n :: nat
  assume s: "sa_good s"
  show "length (sa_cont s) < 2 ^ 31" using s by (simp add: sa_good_def sa_cont_def)
  show "p \<le> length (sa_cont s)" if "sa_rd s p"
    using s that by (simp add: sa_good_def sa_cont_def sa_rd_def)
  show "\<exists>t. is_Size sa_vtable s = (Inr (length (sa_cont s)), t) \<and> sa_good t \<and> sa_cont t = sa_cont s \<and> sa_rd t p"
    if "sa_rd s p"
    using s that ss_size_laws [of "sa_stream s"] ss_size_laws [of "(sa_stream s)\<lparr>ss_fail := False\<rparr>"]
    by (simp add: sa_vtable_def sa_Size_def sx_simps sa_good_def sa_cont_def sa_rd_def as_u64_small)
  show "\<exists>t. is_Seek sa_vtable p s = (Inr (), t) \<and> sa_good t \<and> sa_cont t = sa_cont s \<and> sa_rd t p"
    if "p \<le> length (sa_cont s)"
    using s that by (simp add: sa_vtable_def sa_Seek_def sx_simps sa_good_def sa_cont_def sa_rd_def ss_defs)
  show "\<exists>t q. is_Seek sa_vtable p s = (Inr (), t) \<and> sa_good t \<and> sa_cont t = sa_cont s \<and> sa_rd t q"
    if "length (sa_cont s) < p"
    using s that by (simp add: sa_vtable_def sa_Seek_def sx_simps sa_good_def sa_cont_def sa_rd_def ss_defs)
  show "\<exists>t. is_Read sa_vtable n s = (Inr (take n (drop p (sa_cont s))), t) \<and> sa_good t \<and>
      sa_cont t = sa_cont s \<and> sa_rd t (min (p + n) (length (sa_cont s)))" if "sa_rd s p"
    using s that
    by (auto simp: sa_vtable_def sa_Read_def sa_ReadInternal_def sx_simps sa_good_def sa_cont_def
        sa_rd_def ss_defs Let_def)
qed simp

interpretation std_appender: appendable_stream sa_vtable sa_inv sa_cont sa_append "2 ^ 31"
proof
  fix s :: StdStreamAdapter and d :: "byte list"
  assume s: "sa_inv s" "sa_append s"
  show "\<exists>t. is_Write sa_vtable d s = (Inr (length d), t) \<and> sa_inv t \<and> sa_cont t = sa_cont s @ d \<and> sa_append t"
    if "length (sa_cont s) + length d < 2 ^ 31"
    using s that
    by (simp add: sa_vtable_def sa_Write_def sa_WriteInternal_def sx_simps sa_inv_def sa_cont_def
        sa_append_def ss_defs Let_def put_at_end)
  show "\<exists>t. is_Size sa_vtable s = (Inr (length (sa_cont s)), t) \<and> sa_inv t \<and> sa_cont t = sa_cont s \<and> sa_append t"
    using s ss_size_laws [of "sa_stream s"] ss_size_laws [of "(sa_stream s)\<lparr>ss_fail := False\<rparr>"]
    by (simp add: sa_vtable_def sa_Size_def sx_simps sa_inv_def sa_cont_def sa_append_def as_u64_small)
qed simp

end
