(* ===== verification/PFileProperties.thy ===== *)
theory PFileProperties
  imports PFile SequentialStream
begin

text \<open>
  The properties of the header's reader and writer: the bytes the writer produces, the
  round trip through the reader, the outcome of the reader over any bytes at all, and what
  the check of the content offset does not catch. The lemmas are over the contracts of
  \<open>SequentialStream\<close>, the properties over the adapter of a standard stream.
\<close>

section \<open>What the writer writes\<close>

definition pfile_prefix :: "PfileHeader \<Rightarrow> byte list" where
  "pfile_prefix h =
     ExpectedPreamble @ le_bytes 4 (ph_MajorVersion h) @ le_bytes 4 (ph_MinorVersion h) @
     le_bytes 4 (length (ph_CleartextRedirectionHeader h)) @ string_bytes (ph_CleartextRedirectionHeader h)"

definition pfile_fields :: "PfileHeader \<Rightarrow> byte list" where
  "pfile_fields h =
     (let ext = length (pfile_prefix h) + 40;
          pl = ext + length (ph_FileExtension h);
          md = pl + length (ph_PublishingLicense h)
      in le_bytes 4 40 @ le_bytes 4 ext @ le_bytes 4 (length (ph_FileExtension h)) @
         le_bytes 4 pl @ le_bytes 4 (length (ph_PublishingLicense h)) @
         le_bytes 4 (md + length (ph_Metadata h)) @ le_bytes 8 (ph_OriginalFileSize h) @
         le_bytes 4 md @ le_bytes 4 (length (ph_Metadata h)))"

definition pfile_image :: "PfileHeader \<Rightarrow> byte list" where
  "pfile_image h =
     pfile_prefix h @ pfile_fields h @ string_bytes (ph_FileExtension h) @
     ph_PublishingLicense h @ ph_Metadata h"

lemma length_pfile_prefix: "length (pfile_prefix h) = 18 + length (ph_CleartextRedirectionHeader h)"
  by (simp add: pfile_prefix_def ExpectedPreamble_def)

lemma length_pfile_fields: "length (pfile_fields h) = 40"
  by (simp add: pfile_fields_def Let_def)

lemma length_pfile_image:
  "length (pfile_image h) = 58 + length (ph_CleartextRedirectionHeader h) + length (ph_FileExtension h) +
     length (ph_PublishingLicense h) + length (ph_Metadata h)"
  by (simp add: pfile_image_def length_pfile_prefix length_pfile_fields)

context appendable_stream
begin

lemma adds_bytes: "adds c (write_bytes ops d) () d"
  using adds_bnd [OF adds_Write adds_ret] by (simp add: write_bytes_def)

lemma adds_preamble: "adds c (pw_WritePreamble ops) 6 ExpectedPreamble"
  using adds_seqx [OF adds_bytes adds_ret, of c ExpectedPreamble "6::nat"]
  by (simp add: pw_WritePreamble_def ExpectedPreamble_def)

lemma adds_version:
  "adds c (pw_WriteVersionNumber ops h) 8 (le_bytes 4 (ph_MajorVersion h) @ le_bytes 4 (ph_MinorVersion h))"
  using adds_seqx [OF adds_bytes adds_seqx [OF adds_bytes adds_ret]]
  by (simp add: pw_WriteVersionNumber_def)

lemma adds_redirect:
  "length (ph_CleartextRedirectionHeader h) + 4 < 2 ^ 32 \<Longrightarrow>
   adds c (pw_WriteCleartextRedirection ops h) (length (ph_CleartextRedirectionHeader h) + 4)
     (le_bytes 4 (length (ph_CleartextRedirectionHeader h)) @ string_bytes (ph_CleartextRedirectionHeader h))"
  using adds_seqx [OF adds_bytes adds_seqx [OF adds_bytes adds_ret]]
  by (simp add: pw_WriteCleartextRedirection_def Let_def)

lemma adds_fields:
  assumes "length (pfile_image h) < 2 ^ 32"
  shows "adds c (pw_WriteHeader ops h (length (pfile_prefix h))) () (pfile_fields h)"
proof -
  have small: "58 + length (ph_CleartextRedirectionHeader h) + length (ph_FileExtension h) +
     length (ph_PublishingLicense h) + length (ph_Metadata h) < 2 ^ 32"
    using assms by (simp only: length_pfile_image)
  show ?thesis
    using small unfolding pw_WriteHeader_def pfile_fields_def Let_def
    by (simp add: length_pfile_prefix) (intro adds_seqx adds_bytes)
qed

lemma adds_extension: "adds c (pw_WriteExtension ops h) () (string_bytes (ph_FileExtension h))"
  using adds_ret [of c "()"] adds_bytes by (simp add: pw_WriteExtension_def string_bytes_def)

lemma adds_pfile:
  assumes "length (pfile_image h) < 2 ^ 32"
  shows "adds c (PfileHeaderWriter_Write ops h) (length c + length (pfile_image h)) (pfile_image h)"
proof -
  let ?r = "length (ph_CleartextRedirectionHeader h)"
  let ?v = "le_bytes 4 (ph_MajorVersion h) @ le_bytes 4 (ph_MinorVersion h)"
  let ?t = "le_bytes 4 ?r @ string_bytes (ph_CleartextRedirectionHeader h)"
  have "58 + ?r + length (ph_FileExtension h) + length (ph_PublishingLicense h) + length (ph_Metadata h) < 2 ^ 32"
    using assms by (simp only: length_pfile_image)
  then have pos: "add32 (add32 6 8) (?r + 4) = length (pfile_prefix h)" and r: "?r + 4 < 2 ^ 32"
    by (simp_all add: length_pfile_prefix)
  have tail: "adds d (seqx (pw_WriteHeader ops h (length (pfile_prefix h))) (seqx (pw_WriteExtension ops h)
      (seqx (pw_WritePublishingLicense ops h) (seqx (pw_WriteMetadata ops h) (is_Size ops)))))
      (length (d @ pfile_fields h @ string_bytes (ph_FileExtension h) @ ph_PublishingLicense h @ ph_Metadata h))
      (pfile_fields h @ string_bytes (ph_FileExtension h) @ ph_PublishingLicense h @ ph_Metadata h @ [])" for d
    using adds_seqx [OF adds_fields [OF assms] adds_seqx [OF adds_extension adds_seqx [OF adds_bytes
        adds_seqx [OF adds_bytes adds_Size]]]]
    by (simp add: pw_WritePublishingLicense_def pw_WriteMetadata_def)
  have "adds c (PfileHeaderWriter_Write ops h)
      (length ((((c @ ExpectedPreamble) @ ?v) @ ?t) @ pfile_fields h @ string_bytes (ph_FileExtension h) @
        ph_PublishingLicense h @ ph_Metadata h))
      (ExpectedPreamble @ ?v @ ?t @
        pfile_fields h @ string_bytes (ph_FileExtension h) @ ph_PublishingLicense h @ ph_Metadata h @ [])"
    unfolding PfileHeaderWriter_Write_def
    by (intro adds_bnd [OF adds_preamble] adds_bnd [OF adds_version] adds_bnd [OF adds_redirect [OF r]])
      (simp only: pos tail)
  then show ?thesis by (simp add: pfile_image_def pfile_prefix_def add.assoc)
qed

end

section \<open>What the reader reads\<close>

definition has_part :: "byte list \<Rightarrow> nat \<Rightarrow> byte list \<Rightarrow> bool" where
  "has_part c q d \<longleftrightarrow> q \<le> length c \<and> (\<exists>post. drop q c = d @ post)"

context readable_stream
begin

text \<open>Reads whose bytes are there, described by what is left of the content.\<close>

lemma runs_uint:
  assumes "drop p c = le_bytes (length img) n @ post" and "n < 256 ^ length img"
    and "drop (p + length img) c = post \<Longrightarrow> Q (Inr n) (p + length img)"
  shows "runs c p (read_uint ops img) Q"
proof -
  have "length (drop p c) = length img + length post" using assms(1) by simp
  then have len: "p + length img \<le> length c \<or> length img = 0"
    by (cases "p \<le> length c") auto
  have "drop (p + length img) c = drop (length img) (drop p c)" by (simp add: add.commute)
  then have post: "drop (p + length img) c = post" using assms(1) by simp
  have n: "le_value (le_bytes (length img) n) = n" using assms(2) by (simp add: le_value_le_bytes)
  have d: "take (length img) (drop p c) = le_bytes (length img) n" using assms(1) by simp
  show ?thesis
  proof (cases "p + length img \<le> length c")
    case True
    then have "min (p + length img) (length c) = p + length img" by simp
    moreover have "put_at img 0 (le_bytes (length img) n) = le_bytes (length img) n"
      by (simp add: put_at_def)
    ultimately show ?thesis
      unfolding read_uint_def using assms(3) [OF post] n d
      by (intro runs_bnd runs_Read) (simp add: runs_ret)
  next
    case False
    then have "img = []" "length c < p" using len by simp_all
    then show ?thesis
      unfolding runs_def using rd_inside by fastforce
  qed
qed

lemma runs_ReadBytes:
  assumes "drop p c = d @ post" and "drop (p + length d) c = post \<Longrightarrow> Q (Inr (dst @ d)) (p + length d)"
  shows "runs c p (pr_ReadBytes ops dst (length d)) Q"
proof (cases "d = []")
  case True
  then show ?thesis using assms by (simp add: pr_ReadBytes_def runs_ret)
next
  case False
  have "length (drop p c) = length d + length post" using assms(1) by simp
  then have len: "p + length d \<le> length c" using False by (cases "p \<le> length c") simp_all
  have "drop (p + length d) c = drop (length d) (drop p c)" by (simp add: add.commute)
  then have "drop (p + length d) c = post" using assms(1) by simp
  moreover have "take (length d) (drop p c) = d" using assms(1) by simp
  moreover have "put_at (replicate (length d) 0) 0 d = d" by (simp add: put_at_def)
  moreover have "min (p + length d) (length c) = p + length d" using len by simp
  ultimately have "runs c p (bnd (is_Read ops (length d))
      (\<lambda>e. ret (dst @ put_at (replicate (length d) 0) 0 e))) Q"
    using assms(2) by (intro runs_bnd runs_Read) (simp add: runs_ret)
  then have "runs c p (bnd (is_Size ops) (\<lambda>sz.
      if sz < length d then throw (pfile_error ''Bad block length'' BadArguments)
      else bnd (is_Read ops (length d)) (\<lambda>e. ret (dst @ put_at (replicate (length d) 0) 0 e)))) Q"
    using len by (intro runs_bnd [OF runs_Size]) simp
  then show ?thesis using False by (simp add: pr_ReadBytes_def)
qed

lemma runs_ReadAtOffset:
  assumes "drop q c = d @ post" and "q \<le> length c" and "Q (Inr (dst @ d)) (q + length d)"
  shows "runs c p (pr_ReadAtOffset ops dst q (length d)) Q"
  unfolding pr_ReadAtOffset_def
  by (intro runs_seqx runs_Seek)
    (use assms(2) in \<open>simp_all add: runs_ReadBytes [OF assms(1)] assms(3)\<close>)

lemma runs_CheckPreamble:
  assumes "drop p c = ExpectedPreamble @ post"
    and "drop (p + 6) c = post \<Longrightarrow> Q (Inr ()) (p + 6)"
  shows "runs c p (pr_CheckPreamble ops) Q"
proof -
  have six: "length ExpectedPreamble = 6" by (simp add: ExpectedPreamble_def)
  show ?thesis
    unfolding pr_CheckPreamble_def
    by (intro runs_bnd runs_ReadBytes [OF assms(1)])
      (use assms(2) six in \<open>simp add: runs_ret list_all_iff\<close>)
qed

lemma runs_Extension:
  assumes "drop q c = string_bytes e @ post" and "q < length c" and "Q (Inr e) (q + length e)"
  shows "runs c p (pr_ReadExtension ops q (length e)) Q"
proof -
  have "runs c p (pr_ReadAtOffset ops [] q (length (string_bytes e)))
      (\<lambda>r k. case r of Inl x \<Rightarrow> Q (Inl x) k | Inr x \<Rightarrow> runs c k (ret (bytes_string x)) Q)"
    using assms(2,3) by (intro runs_ReadAtOffset [OF assms(1)]) (simp_all add: runs_ret)
  then have "runs c p (bnd (pr_ReadAtOffset ops [] q (length e)) (\<lambda>x. ret (bytes_string x))) Q"
    by (intro runs_bnd) simp
  then show ?thesis
    unfolding pr_ReadExtension_def using assms(2) by (intro runs_bnd [OF runs_Size]) simp
qed

lemma runs_uint_bnd:
  assumes "drop p c = le_bytes k n @ post" and "length img = k" and "n < 256 ^ k"
    and "drop (p + k) c = post \<Longrightarrow> runs c (p + k) (f n) Q"
  shows "runs c p (bnd (read_uint ops img) f) Q"
  using assms by (intro runs_bnd runs_uint [where n = n and post = post]) simp_all

lemma runs_version:
  assumes "drop p c = le_bytes 4 mj @ le_bytes 4 mn @ post" and "2 \<le> mj" and "mj \<le> 3" and "mn < 256"
    and "uninit_ok un" and Q: "drop (p + 8) c = post \<Longrightarrow> Q (Inr (mj, mn)) (p + 8)"
  shows "runs c p (pr_ReadVersionNumber ops un) Q"
proof -
  have un: "length (un_majorVersion un) = 4" "length (un_minorVersion un) = 4"
    using assms(5) by (simp_all add: uninit_ok_def)
  have Q': "drop (8 + p) c = post \<Longrightarrow> Q (Inr (mj, mn)) (8 + p)" using Q by (simp add: add.commute)
  note range = MAX_SUPPORTED_MJVERSION_FOR_READING_def MIN_SUPPORTED_MJVERSION_FOR_READING_def
  show ?thesis
    unfolding pr_ReadVersionNumber_def
    by (rule runs_uint_bnd [OF assms(1) un(1)], use assms(3) in simp, erule runs_uint_bnd [OF _ un(2)])
      (use assms(2-4) Q' in \<open>simp_all add: runs_ret range\<close>)
qed

lemma runs_redirect:
  assumes "drop p c = le_bytes 4 (length r) @ string_bytes r @ post" and "length r < 2 ^ 32"
    and "uninit_ok un" and Q: "drop (p + 4 + length r) c = post \<Longrightarrow> Q (Inr r) (p + 4 + length r)"
  shows "runs c p (pr_ReadCleartextRedirectionHeader ops un) Q"
proof -
  have un: "length (un_redirectHeaderLength un) = 4" using assms(3) by (simp add: uninit_ok_def)
  show ?thesis
    unfolding pr_ReadCleartextRedirectionHeader_def
  proof (rule runs_uint_bnd [OF assms(1) un])
    assume d: "drop (p + 4) c = string_bytes r @ post"
    show "runs c (p + 4) (bnd (pr_ReadBytes ops [] (length r)) (\<lambda>redirectHeader.
       if length redirectHeader \<noteq> length r then throw (pfile_error ''Bad redirect header'' BadArguments)
       else ret (bytes_string redirectHeader))) Q"
      by (intro runs_bnd runs_ReadBytes [where d = "string_bytes r" and dst = "[]" and post = post, simplified])
        (use d Q in \<open>simp_all add: runs_ret\<close>)
  qed (use assms(2) in simp)
qed

text \<open>The parts of the header and the header as a whole.\<close>

lemma runs_part:
  assumes "has_part c q d" and "\<And>k. Q (Inr d) k"
  shows "runs c p (pr_ReadAtOffset ops [] q (length d)) Q"
proof -
  obtain post where "q \<le> length c" "drop q c = d @ post"
    using assms(1) by (auto simp: has_part_def)
  then show ?thesis using assms(2) by (intro runs_ReadAtOffset [where dst = "[]", simplified])
qed

lemma runs_parts:
  assumes "has_part c eo (string_bytes (ph_FileExtension h))" and "eo < length c"
    and "has_part c po (ph_PublishingLicense h)" and "has_part c mo (ph_Metadata h)"
    and "has_metadata (ph_MajorVersion h) (ph_MinorVersion h)"
    and "eoh \<le> ph_ContentStartPosition h"
    and Q: "\<And>k. Q (Inr h) k"
  shows "runs c p (pr_parts ops (ph_MajorVersion h) (ph_MinorVersion h) (ph_CleartextRedirectionHeader h)
      eo (length (ph_FileExtension h)) po (length (ph_PublishingLicense h)) (ph_ContentStartPosition h)
      (ph_OriginalFileSize h, mo, length (ph_Metadata h)) eoh) Q"
proof -
  obtain post where e: "drop eo c = string_bytes (ph_FileExtension h) @ post"
    using assms(1) by (auto simp: has_part_def)
  have md: "runs c q (pr_ReadAtOffset ops [] mo (length (ph_Metadata h)))
    (\<lambda>r q. case r of Inl e \<Rightarrow> Q (Inl e) q | Inr x \<Rightarrow> runs c q (ret (h\<lparr>ph_Metadata := x\<rparr>)) Q)" for q
    by (rule runs_part [OF assms(4)]) (simp add: runs_ret Q)
  have "runs c q (bnd (pr_ReadAtOffset ops [] po (length (ph_PublishingLicense h))) (\<lambda>pl.
      bnd (pr_ReadAtOffset ops [] mo (length (ph_Metadata h)))
        (\<lambda>x. ret (h\<lparr>ph_PublishingLicense := pl, ph_Metadata := x\<rparr>)))) Q" for q
    by (rule runs_bnd, rule runs_part [OF assms(3)]) (simp add: runs_bnd [OF md])
  then have "runs c p (bnd (pr_ReadExtension ops eo (length (ph_FileExtension h))) (\<lambda>ext.
      bnd (pr_ReadAtOffset ops [] po (length (ph_PublishingLicense h))) (\<lambda>pl.
      bnd (pr_ReadAtOffset ops [] mo (length (ph_Metadata h)))
        (\<lambda>x. ret (h\<lparr>ph_FileExtension := ext, ph_PublishingLicense := pl, ph_Metadata := x\<rparr>))))) Q"
    by (intro runs_bnd runs_Extension [OF e assms(2)]) simp
  moreover have "h\<lparr>ph_FileExtension := ext, ph_PublishingLicense := pl, ph_Metadata := x\<rparr> =
      \<lparr>ph_PublishingLicense = pl, ph_FileExtension = ext,
       ph_ContentStartPosition = ph_ContentStartPosition h, ph_OriginalFileSize = ph_OriginalFileSize h,
       ph_Metadata = x, ph_MajorVersion = ph_MajorVersion h, ph_MinorVersion = ph_MinorVersion h,
       ph_CleartextRedirectionHeader = ph_CleartextRedirectionHeader h\<rparr>" for ext pl x
    by simp
  ultimately show ?thesis
    using assms(5,6) by (simp add: pr_parts_def)
qed

lemma runs_metadata:
  assumes "drop p c = le_bytes 8 os @ le_bytes 4 mo @ le_bytes 4 ml @ post"
    and "os < 2 ^ 64" and "mo < 2 ^ 32" and "ml < 2 ^ 32" and "\<And>k. Q (Inr (os, mo, ml)) k"
  shows "runs c p (pr_metadata_fields ops) Q"
proof -
  note step = runs_uint_bnd [OF _ length_le_bytes]
  show ?thesis
    unfolding pr_metadata_fields_def
    by (rule step [OF assms(1)], use assms(2) in simp, (erule step, use assms(3,4) in simp)+)
      (simp add: runs_ret assms(5))
qed

lemma runs_fields:
  assumes "drop p c = le_bytes 4 hs @ le_bytes 4 eo @ le_bytes 4 el @ le_bytes 4 po @ le_bytes 4 pl @
      le_bytes 4 co @ le_bytes 8 os @ le_bytes 4 mo @ le_bytes 4 ml @ post"
    and "hs < 2 ^ 32" and "eo < 2 ^ 32" and "el < 2 ^ 32" and "po < 2 ^ 32" and "pl < 2 ^ 32"
    and "co < 2 ^ 32" and "os < 2 ^ 64" and "mo < 2 ^ 32" and "ml < 2 ^ 32"
    and "has_metadata mj mn" and "uninit_ok un"
    and tail: "\<And>q. runs c q (pr_parts ops mj mn r eo el po pl co (os, mo, ml) (add32 mo ml)) Q"
  shows "runs c p (pr_ReadHeader ops un mj mn r) Q"
proof -
  have un: "length (un_headerSize un) = 4" using assms(12) by (simp add: uninit_ok_def)
  note step = runs_uint_bnd [OF _ length_le_bytes]
  have md: "runs c q (bnd (pr_metadata_fields ops) (\<lambda>(originalFileSize, metadataOffset, metadataLength).
      pr_parts ops mj mn r eo el po pl co (originalFileSize, metadataOffset, metadataLength)
        (add32 metadataOffset metadataLength))) Q"
    if "drop q c = le_bytes 8 os @ le_bytes 4 mo @ le_bytes 4 ml @ post" for q
    by (rule runs_bnd, rule runs_metadata [OF that assms(8-10)]) (simp add: tail)
  show ?thesis
    unfolding pr_ReadHeader_def
    by (rule runs_uint_bnd [OF assms(1) un], use assms(2) in simp,
        (erule step, use assms(3-7) in simp)+)
      (use assms(11) in \<open>simp add: md\<close>)
qed

lemma runs_front:
  assumes c: "c = ExpectedPreamble @ le_bytes 4 mj @ le_bytes 4 mn @ le_bytes 4 (length r) @ string_bytes r @ post"
    and "2 \<le> mj" and "mj \<le> 3" and "mn < 256" and "length r < 2 ^ 32" and "uninit_ok un"
    and header: "\<And>q. drop q c = post \<Longrightarrow> runs c q (pr_ReadHeader ops un mj mn r) Q"
  shows "runs c 0 (PfileHeaderReader_Read ops un) Q"
proof -
  let ?rd = "le_bytes 4 (length r) @ string_bytes r @ post"
  let ?vn = "le_bytes 4 mj @ le_bytes 4 mn @ ?rd"
  have redirect: "runs c q (bnd (pr_ReadCleartextRedirectionHeader ops un) (pr_ReadHeader ops un mj mn)) Q"
    if "drop q c = ?rd" for q
    by (rule runs_bnd, rule runs_redirect [OF that assms(5,6)]) (simp add: header)
  have version: "runs c q (bnd (pr_ReadVersionNumber ops un) (\<lambda>version.
      bnd (pr_ReadCleartextRedirectionHeader ops un)
        (pr_ReadHeader ops un (fst version) (snd version)))) Q" if "drop q c = ?vn" for q
    by (rule runs_bnd, rule runs_version [OF that assms(2-4,6)]) (simp add: redirect)
  have all: "drop 0 c = ExpectedPreamble @ ?vn" by (simp add: c)
  show ?thesis
    unfolding PfileHeaderReader_Read_def
    by (rule runs_seqx, rule runs_CheckPreamble [OF all], simp only: sum.case, rule version)
qed

lemma runs_pfile:
  assumes c: "c = pfile_image h @ rest" and lim: "length c < 2 ^ 32"
    and "has_metadata (ph_MajorVersion h) (ph_MinorVersion h)" and "ph_MajorVersion h \<le> 3"
    and "ph_MinorVersion h < 256" and "ph_OriginalFileSize h < 2 ^ 64" and "uninit_ok un"
    and more: "length (pfile_prefix h) + 40 < length c"
    and Q: "\<And>k. Q (Inr (h\<lparr>ph_ContentStartPosition := length (pfile_image h)\<rparr>)) k"
  shows "runs c 0 (PfileHeaderReader_Read ops un) Q"
proof -
  let ?h = "h\<lparr>ph_ContentStartPosition := length (pfile_image h)\<rparr>"
  let ?r = "ph_CleartextRedirectionHeader h" and ?x = "ph_FileExtension h"
  let ?ext = "length (pfile_prefix h) + 40"
  let ?pl = "?ext + length ?x"
  let ?md = "?pl + length (ph_PublishingLicense h)"
  let ?parts = "string_bytes ?x @ ph_PublishingLicense h @ ph_Metadata h @ rest"
  have ext: "?ext = length (pfile_prefix h @ pfile_fields h)" by (simp add: length_pfile_fields)
  have c1: "c = (pfile_prefix h @ pfile_fields h) @ ?parts" by (simp add: c pfile_image_def)
  have d: "drop ?ext c = ?parts" unfolding ext c1 by (simp only: append_eq_conv_conj [THEN iffD1] drop_append) simp
  have has: "has_part c (?ext + length xs) ys" if "?parts = xs @ ys @ zs" for xs ys zs :: "byte list"
  proof -
    have "drop (?ext + length xs) c = drop (length xs) (drop ?ext c)" by (simp add: add.commute)
    also have "\<dots> = ys @ zs" unfolding d that by simp
    finally have e: "drop (?ext + length xs) c = ys @ zs" .
    moreover have "length c = ?ext + length (xs @ ys @ zs)" using c1 ext that by (metis length_append)
    ultimately show ?thesis by (auto simp: has_part_def)
  qed
  have parts: "has_part c ?ext (string_bytes ?x)" "has_part c ?pl (ph_PublishingLicense h)"
    "has_part c ?md (ph_Metadata h)"
    using has [of "[]" "string_bytes ?x"] has [of "string_bytes ?x" "ph_PublishingLicense h"]
      has [of "string_bytes ?x @ ph_PublishingLicense h" "ph_Metadata h"] by (simp_all add: add.assoc)
  have len: "length c = ?md + length (ph_Metadata h) + length rest"
    "length (pfile_image h) = ?md + length (ph_Metadata h)"
    unfolding c length_append length_pfile_image length_pfile_prefix by simp_all
  have md32: "?md + length (ph_Metadata h) < 2 ^ 32" using lim len(1) by linarith
  have range: "2 \<le> ph_MajorVersion h" using assms(3) by (auto simp: has_metadata_def)
  have small: "length ?x < 2 ^ 32" "length (ph_PublishingLicense h) < 2 ^ 32" "?ext < 2 ^ 32"
    "length (ph_Metadata h) < 2 ^ 32" "?pl < 2 ^ 32" "?md < 2 ^ 32" "length ?r < 2 ^ 32"
    using md32 unfolding length_pfile_prefix by simp_all
  have tail: "runs c q (pr_parts ops (ph_MajorVersion h) (ph_MinorVersion h) ?r ?ext (length ?x) ?pl
      (length (ph_PublishingLicense h)) (?md + length (ph_Metadata h))
      (ph_OriginalFileSize h, ?md, length (ph_Metadata h)) (add32 ?md (length (ph_Metadata h)))) Q" for q
    using runs_parts [where h = ?h and c = c and Q = Q and p = q and eo = ?ext and po = ?pl and mo = ?md]
      parts more assms(3) len(2) md32 Q by simp
  have fields: "pfile_fields h @ ?parts = le_bytes 4 40 @ le_bytes 4 ?ext @ le_bytes 4 (length ?x) @
      le_bytes 4 ?pl @ le_bytes 4 (length (ph_PublishingLicense h)) @
      le_bytes 4 (?md + length (ph_Metadata h)) @ le_bytes 8 (ph_OriginalFileSize h) @ le_bytes 4 ?md @
      le_bytes 4 (length (ph_Metadata h)) @ ?parts"
    by (simp add: pfile_fields_def Let_def)
  show ?thesis
  proof (rule runs_front)
    show "c = ExpectedPreamble @ le_bytes 4 (ph_MajorVersion h) @ le_bytes 4 (ph_MinorVersion h) @
        le_bytes 4 (length ?r) @ string_bytes ?r @ pfile_fields h @ ?parts"
      unfolding c1 pfile_prefix_def by simp
    fix q assume "drop q c = pfile_fields h @ ?parts"
    then show "runs c q (pr_ReadHeader ops un (ph_MajorVersion h) (ph_MinorVersion h) ?r) Q"
      unfolding fields
      by (rule runs_fields [OF _ _ small(3,1,5,2) md32 assms(6) small(6,4) assms(3,7) tail]) simp_all
  qed (use range assms(4,5,7) small(7) in simp_all)
qed

text \<open>A part asked for at an offset past the end is read from somewhere else.\<close>

lemma runs_ReadBytes_any:
  assumes "n \<le> length c" and "\<And>d k. length d = n \<Longrightarrow> Q (Inr (dst @ d)) k"
  shows "runs c p (pr_ReadBytes ops dst n) Q"
proof (cases "n = 0")
  case True
  then show ?thesis using assms(2) [of "[]"] by (simp add: pr_ReadBytes_def runs_ret)
next
  case False
  have "runs c p (bnd (is_Read ops n) (\<lambda>d. ret (dst @ put_at (replicate n 0) 0 d))) Q"
    by (intro runs_bnd runs_Read) (simp add: runs_ret assms(2))
  then show ?thesis
    unfolding pr_ReadBytes_def using False assms(1) by (simp add: runs_bnd [OF runs_Size])
qed

lemma runs_ReadAtOffset_any:
  assumes "n \<le> length c" and "\<And>d k. length d = n \<Longrightarrow> Q (Inr (dst @ d)) k"
  shows "runs c p (pr_ReadAtOffset ops dst q n) Q"
  unfolding pr_ReadAtOffset_def
  by (intro runs_seqx runs_Seek; simp only: sum.case; rule runs_ReadBytes_any) (use assms in blast)+

end

section \<open>Any bytes at all\<close>

definition pfile_outcome :: "('a \<Rightarrow> bool) \<Rightarrow> exn + 'a \<Rightarrow> bool" where
  "pfile_outcome P r = (case r of Inl e \<Rightarrow> (\<exists>msg reason. e = pfile_error msg reason) | Inr x \<Rightarrow> P x)"

definition version_ok :: "nat \<times> nat \<Rightarrow> bool" where
  "version_ok v \<longleftrightarrow> fst v \<in> {2, 3} \<and> snd v < 256"

definition header_ok :: "byte list \<Rightarrow> PfileHeader \<Rightarrow> bool" where
  "header_ok c h \<longleftrightarrow> version_ok (ph_MajorVersion h, ph_MinorVersion h) \<and>
     ph_ContentStartPosition h < 2 ^ 32 \<and> ph_OriginalFileSize h < 2 ^ 64 \<and>
     length (ph_FileExtension h) \<le> length c \<and> length (ph_PublishingLicense h) \<le> length c \<and>
     length (ph_Metadata h) \<le> length c \<and> length (ph_CleartextRedirectionHeader h) \<le> length c"

context readable_stream
begin

text \<open>\<open>safe c m P\<close>: from any offset, \<open>m\<close> fails with a pfile exception or its result satisfies \<open>P\<close>.\<close>

definition safe :: "byte list \<Rightarrow> (exn, 's, 'a) sx \<Rightarrow> ('a \<Rightarrow> bool) \<Rightarrow> bool" where
  "safe c m P \<longleftrightarrow> (\<forall>p. runs c p m (\<lambda>r q. pfile_outcome P r))"

lemma safe_ret: "P v \<Longrightarrow> safe c (ret v) P"
  by (simp add: safe_def runs_ret pfile_outcome_def)

lemma safe_throw: "safe c (throw (pfile_error msg reason)) P"
  unfolding safe_def pfile_outcome_def by (intro allI runs_throw) auto

lemma safe_bnd:
  assumes "safe c m P" and "\<And>x. P x \<Longrightarrow> safe c (f x) R"
  shows "safe c (bnd m f) R"
  unfolding safe_def
proof
  fix p
  have "runs c p m (\<lambda>r q. pfile_outcome P r)" using assms(1) by (simp add: safe_def)
  then show "runs c p (bnd m f) (\<lambda>r q. pfile_outcome R r)"
    by (intro runs_bnd, elim runs_weaken)
      (use assms(2) in \<open>auto simp: pfile_outcome_def safe_def split: sum.splits\<close>)
qed

lemma safe_seqx: "safe c m P \<Longrightarrow> safe c n R \<Longrightarrow> safe c (seqx m n) R"
  unfolding seqx_def by (rule safe_bnd)

lemma safe_weaken: "safe c m P \<Longrightarrow> (\<And>x. P x \<Longrightarrow> R x) \<Longrightarrow> safe c m R"
  unfolding safe_def
  by (intro allI, erule allE, erule runs_weaken) (auto simp: pfile_outcome_def split: sum.splits)

lemma safe_Size: "safe c (is_Size ops) (\<lambda>n. n = length c)"
  by (simp add: safe_def runs_Size pfile_outcome_def)

lemma safe_Seek: "safe c (is_Seek ops q) (\<lambda>u. True)"
  by (simp add: safe_def runs_Seek pfile_outcome_def)

lemma safe_Read: "safe c (is_Read ops n) (\<lambda>d. length d \<le> n)"
  by (simp add: safe_def runs_Read pfile_outcome_def)

lemma safe_uint: "safe c (read_uint ops img) (\<lambda>n. n < 256 ^ length img)"
  unfolding read_uint_def
proof (rule safe_bnd [OF safe_Read], rule safe_ret)
  fix d :: "byte list" assume "length d \<le> length img"
  then have "length (put_at img 0 d) = length img" by simp
  then show "le_value (put_at img 0 d) < 256 ^ length img" using le_value_bound by metis
qed

lemma safe_ReadBytes: "safe c (pr_ReadBytes ops dst n) (\<lambda>d. length d = length dst + n \<and> n \<le> length c)"
proof (cases "n = 0")
  case True
  then show ?thesis by (simp add: pr_ReadBytes_def safe_ret)
next
  case False
  have "safe c (bnd (is_Read ops n) (\<lambda>d. ret (dst @ put_at (replicate n 0) 0 d)))
      (\<lambda>d. length d = length dst + n)"
    by (rule safe_bnd [OF safe_Read], rule safe_ret) simp
  then have "safe c (bnd (is_Size ops) (\<lambda>sz. if sz < n then throw (pfile_error ''Bad block length'' BadArguments)
      else bnd (is_Read ops n) (\<lambda>d. ret (dst @ put_at (replicate n 0) 0 d))))
      (\<lambda>d. length d = length dst + n \<and> n \<le> length c)"
    by (intro safe_bnd [OF safe_Size]) (auto simp: safe_throw elim: safe_weaken)
  then show ?thesis using False by (simp add: pr_ReadBytes_def)
qed

lemma safe_ReadAtOffset:
  "safe c (pr_ReadAtOffset ops dst q n) (\<lambda>d. length d = length dst + n \<and> n \<le> length c)"
  unfolding pr_ReadAtOffset_def by (rule safe_seqx [OF safe_Seek safe_ReadBytes])

lemma safe_CheckPreamble: "safe c (pr_CheckPreamble ops) (\<lambda>u. True)"
  unfolding pr_CheckPreamble_def
  by (rule safe_bnd [OF safe_ReadBytes]) (simp add: safe_ret safe_throw)

lemma safe_version: "safe c (pr_ReadVersionNumber ops un) version_ok"
  unfolding pr_ReadVersionNumber_def
  by (intro safe_bnd [OF safe_uint] safe_bnd [OF safe_uint])
    (auto simp: safe_throw version_ok_def MAX_SUPPORTED_MJVERSION_FOR_READING_def
      MIN_SUPPORTED_MJVERSION_FOR_READING_def intro!: safe_ret)

lemma safe_redirect: "safe c (pr_ReadCleartextRedirectionHeader ops un) (\<lambda>r. length r \<le> length c)"
  unfolding pr_ReadCleartextRedirectionHeader_def
  by (intro safe_bnd [OF safe_uint] safe_bnd [OF safe_ReadBytes]) (auto intro: safe_ret)

lemma safe_Extension: "safe c (pr_ReadExtension ops q n) (\<lambda>e. length e \<le> length c)"
  unfolding pr_ReadExtension_def
  by (rule safe_bnd [OF safe_Size])
    (auto simp: safe_throw intro!: safe_bnd [OF safe_ReadAtOffset] safe_ret)

lemma safe_parts:
  assumes "version_ok (mj, mn)" and "length r \<le> length c" and "co < 2 ^ 32" and "fst x < 2 ^ 64"
  shows "safe c (pr_parts ops mj mn r eo el po pl co x eoh) (header_ok c)"
proof -
  have md: "safe c (if has_metadata mj mn then pr_ReadAtOffset ops [] mo ml else ret []) (\<lambda>d. length d \<le> length c)"
    for mo ml
    using safe_ReadAtOffset [of c "[]" mo ml] by (auto elim: safe_weaken intro: safe_ret)
  obtain os mo ml where x: "x = (os, mo, ml)" by (cases x)
  show ?thesis
    unfolding pr_parts_def x prod.case
    by (cases "co < eoh", simp add: safe_throw, simp only: if_False)
      (intro safe_bnd [OF safe_Extension] safe_bnd [OF safe_ReadAtOffset] safe_bnd [OF md] safe_ret,
        use assms x in \<open>auto simp: header_ok_def\<close>)
qed

lemma safe_header:
  assumes "version_ok (mj, mn)" and "length r \<le> length c"
  shows "safe c (pr_ReadHeader ops un mj mn r) (header_ok c)"
proof -
  have x: "safe c (pr_metadata_fields ops) (\<lambda>x. fst x < 2 ^ 64)"
    unfolding pr_metadata_fields_def
    by (intro safe_bnd [OF safe_uint] safe_ret) simp
  note uint = safe_bnd [OF safe_uint]
  show ?thesis
    unfolding pr_ReadHeader_def
    by (rule uint, rule uint, rule uint, rule uint, rule uint, rule uint)
      (auto intro!: safe_bnd [OF x] safe_parts assms)
qed

lemma safe_pfile: "safe c (PfileHeaderReader_Read ops un) (header_ok c)"
  unfolding PfileHeaderReader_Read_def
  by (intro safe_seqx [OF safe_CheckPreamble] safe_bnd [OF safe_version] safe_bnd [OF safe_redirect]
      safe_header) simp_all

end

section \<open>Properties\<close>

text \<open>
  C14: the header of a protected file survives. The writer, on an empty stream, leaves
  exactly the header's image and reports its length; a reader at the start of any stream
  that holds this image followed by more bytes returns the header written, with the length
  of the image as the content's start.
\<close>

theorem pfile_write_read:
  assumes "sa_inv s" and "sa_out s" and "sa_cont s = []" and "length (pfile_image h) < 2 ^ 31"
    and "has_metadata (ph_MajorVersion h) (ph_MinorVersion h)" and "ph_MajorVersion h \<le> 3"
    and "ph_MinorVersion h < 256" and "ph_OriginalFileSize h < 2 ^ 64" and "uninit_ok un"
    and "sa_good b" and "sa_rd b 0" and "sa_cont b = pfile_image h @ rest" and "rest \<noteq> []"
  shows "\<exists>t u. PfileHeaderWriter_Write sa_vtable h s = (Inr (length (pfile_image h)), t) \<and>
    sa_cont t = pfile_image h \<and>
    PfileHeaderReader_Read sa_vtable un b =
      (Inr (h\<lparr>ph_ContentStartPosition := length (pfile_image h)\<rparr>), u)"
proof -
  have "sa_append s" using assms(1-3) by (simp add: sa_append_def sa_inv_def sa_cont_def)
  then obtain t where t: "PfileHeaderWriter_Write sa_vtable h s = (Inr (length (pfile_image h)), t)"
      "sa_cont t = pfile_image h"
    using std_appender.adds_start [OF std_appender.adds_pfile, of h s] assms(1,3,4) by auto
  have "length (pfile_prefix h) + 40 < length (sa_cont b)"
    using assms(12,13) by (simp add: length_pfile_image length_pfile_prefix)
  moreover have "length (sa_cont b) < 2 ^ 32" using std_reader.cont_lim [OF assms(10)] by simp
  ultimately have "std_reader.runs (sa_cont b) 0 (PfileHeaderReader_Read sa_vtable un)
      (\<lambda>r k. r = Inr (h\<lparr>ph_ContentStartPosition := length (pfile_image h)\<rparr>))"
    using assms(5-9) by (intro std_reader.runs_pfile [OF assms(12)]) simp_all
  then obtain u where "PfileHeaderReader_Read sa_vtable un b =
      (Inr (h\<lparr>ph_ContentStartPosition := length (pfile_image h)\<rparr>), u)"
    using std_reader.runs_start [OF assms(10,11)] by blast
  with t show ?thesis by blast
qed

definition sample_header :: PfileHeader where
  "sample_header = \<lparr>ph_PublishingLicense = [1, 2, 3], ph_FileExtension = ''.txt'', ph_ContentStartPosition = 0,
     ph_OriginalFileSize = 5, ph_Metadata = [4], ph_MajorVersion = 3, ph_MinorVersion = 0,
     ph_CleartextRedirectionHeader = ''see rms''\<rparr>"

lemma sample_header_image: "length (pfile_image sample_header) = 73"
  by (simp add: length_pfile_image sample_header_def)

definition sample_uninit :: uninit where
  "sample_uninit = \<lparr>un_majorVersion = [1, 2, 3, 4], un_minorVersion = [1, 2, 3, 4],
     un_redirectHeaderLength = [1, 2, 3, 4], un_headerSize = [1, 2, 3, 4]\<rparr>"

lemma sample_uninit_ok: "uninit_ok sample_uninit"
  by (simp add: sample_uninit_def uninit_ok_def)

abbreviation stream_of :: "byte list \<Rightarrow> StdStreamAdapter" where
  "stream_of d \<equiv> StdStreamAdapter_io \<lparr>ss_buf = d, ss_g = 0, ss_p = 0, ss_fail = False\<rparr>"

lemma stream_of_facts:
  "length d < 2 ^ 31 \<Longrightarrow> sa_inv (stream_of d)" "length d < 2 ^ 31 \<Longrightarrow> sa_good (stream_of d)"
  "sa_out (stream_of d)" "sa_cont (stream_of d) = d" "sa_rd (stream_of d) 0"
  by (simp_all add: StdStreamAdapter_io_def sa_inv_def sa_good_def sa_cont_def sa_rd_def)

theorem pfile_write_read_witness:
  "\<exists>t u. PfileHeaderWriter_Write sa_vtable sample_header (stream_of []) =
      (Inr (length (pfile_image sample_header)), t) \<and>
    sa_cont t = pfile_image sample_header \<and>
    PfileHeaderReader_Read sa_vtable sample_uninit (stream_of (pfile_image sample_header @ [9])) =
      (Inr (sample_header\<lparr>ph_ContentStartPosition := length (pfile_image sample_header)\<rparr>), u)"
  by (rule pfile_write_read [where rest = "[9]"])
    (simp_all add: stream_of_facts sample_uninit_ok sample_header_image, simp_all add: sample_header_def has_metadata_def)

text \<open>
  C15: the reader is total. Over any bytes, from any offset, whatever its uninitialised
  variables hold, it returns a header or throws a pfile exception and leaves the bytes as
  they are; a header it returns has a supported version and parts no longer than the
  stream.
\<close>

theorem pfile_read_total:
  assumes "sa_good b" and "sa_rd b p"
  shows "\<exists>r u. PfileHeaderReader_Read sa_vtable un b = (r, u) \<and> sa_cont u = sa_cont b \<and>
    pfile_outcome (header_ok (sa_cont b)) r"
  using std_reader.runs_start [OF assms std_reader.safe_pfile [unfolded std_reader.safe_def, rule_format], of un]
  by blast

theorem pfile_read_total_witness:
  "\<exists>r u. PfileHeaderReader_Read sa_vtable sample_uninit (stream_of [46, 112]) = (r, u) \<and>
    sa_cont u = sa_cont (stream_of [46, 112]) \<and> pfile_outcome (header_ok (sa_cont (stream_of [46, 112]))) r"
  by (rule pfile_read_total [where p = 0]) (simp_all add: stream_of_facts)

text \<open>
  The check of the content's start adds offset and length in 32 bits. Metadata whose
  offset and length add up to \<open>2 ^ 32\<close> makes the end of the header zero, and then every
  content offset is accepted: one inside the header, or one far past the end of the file.
\<close>

theorem pfile_offset_check_wraps:
  assumes "sa_good b" and "sa_rd b 0" and "uninit_ok un" and "co < 2 ^ 32" and "mn < 256"
    and "0 < ml" and "ml \<le> length (sa_cont b)"
    and "sa_cont b = ExpectedPreamble @ le_bytes 4 3 @ le_bytes 4 mn @ le_bytes 4 0 @
      le_bytes 4 40 @ le_bytes 4 0 @ le_bytes 4 0 @ le_bytes 4 0 @ le_bytes 4 0 @ le_bytes 4 co @
      le_bytes 8 0 @ le_bytes 4 (2 ^ 32 - ml) @ le_bytes 4 ml @ post"
  shows "\<exists>h u. PfileHeaderReader_Read sa_vtable un b = (Inr h, u) \<and> ph_ContentStartPosition h = co"
proof -
  let ?c = "sa_cont b"
  let ?Q = "\<lambda>r (k::nat). \<exists>h. r = Inr h \<and> ph_ContentStartPosition h = co"
  have lim: "length ?c < 2 ^ 32" using std_reader.cont_lim [OF assms(1)] by simp
  have ml: "ml < 2 ^ 32" "2 ^ 32 - ml < 2 ^ 32" using assms(6,7) lim by simp_all
  have "2 ^ 32 - ml + ml = 2 ^ 32" using ml(1) by simp
  then have wrap: "add32 (2 ^ 32 - ml) ml = 0" by (simp only: add32_def mod_self)
  have ne: "sa_cont b \<noteq> []" using assms(6,7) by auto
  have md: "has_metadata 3 mn" by (simp add: has_metadata_def)
  have "has_part ?c 0 []" by (simp add: has_part_def)
  note empty = std_reader.runs_part [OF this, simplified]
  have "drop 0 ?c = string_bytes [] @ ?c" by (simp add: string_bytes_def)
  note ext = std_reader.runs_Extension [OF this, simplified]
  have "std_reader.runs ?c q (pr_parts sa_vtable 3 mn [] 0 0 0 0 co (0, 2 ^ 32 - ml, ml) (add32 (2 ^ 32 - ml) ml)) ?Q" for q
    unfolding pr_parts_def prod.case wrap less_nat_zero_code if_False if_P [OF md]
    by (rule std_reader.runs_bnd, rule ext, rule ne, simp only: sum.case,
        rule std_reader.runs_bnd, rule empty, simp only: sum.case,
        rule std_reader.runs_bnd, rule std_reader.runs_ReadAtOffset_any [OF assms(7)],
        simp add: std_reader.runs_ret)
  then have header: "std_reader.runs ?c q (pr_ReadHeader sa_vtable un 3 mn []) ?Q"
    if "drop q ?c = le_bytes 4 40 @ le_bytes 4 0 @ le_bytes 4 0 @ le_bytes 4 0 @ le_bytes 4 0 @
      le_bytes 4 co @ le_bytes 8 0 @ le_bytes 4 (2 ^ 32 - ml) @ le_bytes 4 ml @ post" for q
    by (intro std_reader.runs_fields [OF that]) (use ml md assms(3,4) in simp_all)
  have c: "?c = ExpectedPreamble @ le_bytes 4 3 @ le_bytes 4 mn @ le_bytes 4 (length []) @ string_bytes [] @
      le_bytes 4 40 @ le_bytes 4 0 @ le_bytes 4 0 @ le_bytes 4 0 @ le_bytes 4 0 @ le_bytes 4 co @
      le_bytes 8 0 @ le_bytes 4 (2 ^ 32 - ml) @ le_bytes 4 ml @ post"
    unfolding assms(8) by (simp add: string_bytes_def)
  have "std_reader.runs ?c 0 (PfileHeaderReader_Read sa_vtable un) ?Q"
    by (rule std_reader.runs_front [OF c _ _ assms(5) _ assms(3) header]) simp_all
  then show ?thesis using std_reader.runs_start [OF assms(1,2)] by blast
qed

definition wrapping_file :: "byte list" where
  "wrapping_file = ExpectedPreamble @ le_bytes 4 3 @ le_bytes 4 0 @ le_bytes 4 0 @
      le_bytes 4 40 @ le_bytes 4 0 @ le_bytes 4 0 @ le_bytes 4 0 @ le_bytes 4 0 @ le_bytes 4 1000000 @
      le_bytes 8 0 @ le_bytes 4 (2 ^ 32 - 1) @ le_bytes 4 1 @ []"

theorem pfile_offset_check_wraps_witness:
  "\<exists>h u. PfileHeaderReader_Read sa_vtable sample_uninit (stream_of wrapping_file) = (Inr h, u) \<and>
    ph_ContentStartPosition h = 1000000"
proof -
  have "length wrapping_file = 58" by (simp add: wrapping_file_def ExpectedPreamble_def)
  then show ?thesis
    by (intro pfile_offset_check_wraps [where ml = 1 and mn = 0 and post = "[]"])
      (simp_all add: stream_of_facts sample_uninit_ok, simp add: wrapping_file_def)
qed

end
