(* ===== verification/Tools.thy ===== *)
theory Tools
  imports Exceptions
begin

text \<open>
  Helpers the RMS layer shares: C strings and case-insensitive comparison, points in time,
  and the base64 conversions of \<open>sdk/rms_sdk/Common/tools.cpp\<close>, whose codec is
  OpenSSL's and therefore a parameter.
\<close>

section \<open>C strings\<close>

text \<open>\<open>c_str()\<close> handed to a C function ends at the first NUL.\<close>

definition c_str :: "string \<Rightarrow> string" where
  "c_str s = takeWhile (\<lambda>c. c \<noteq> CHR 0x00) s"

lemma c_str_id: "CHR 0x00 \<notin> set y \<Longrightarrow> c_str y = y"
  by (induction y) (auto simp: c_str_def)

definition to_lower :: "char \<Rightarrow> char" where
  "to_lower c = (let n = of_char c :: nat in if 65 \<le> n \<and> n \<le> 90 then char_of (n + 32) else c)"

definition to_lower_string :: "string \<Rightarrow> string" where
  "to_lower_string s = map to_lower s"

text \<open>\<open>0 == _stricmp(a.c_str(), b.c_str())\<close>\<close>

definition stricmp_eq :: "string \<Rightarrow> string \<Rightarrow> bool" where
  "stricmp_eq a b \<longleftrightarrow> map to_lower (c_str a) = map to_lower (c_str b)"

lemma stricmp_eq_refl [simp]: "stricmp_eq a a"
  by (simp add: stricmp_eq_def)

lemma stricmp_eq_sym: "stricmp_eq a b \<longleftrightarrow> stricmp_eq b a"
  by (auto simp: stricmp_eq_def)

lemma stricmp_eq_trans: "stricmp_eq a b \<Longrightarrow> stricmp_eq b c \<Longrightarrow> stricmp_eq a c"
  by (simp add: stricmp_eq_def)

section \<open>Points in time\<close>

text \<open>
  A \<open>time_point\<close> of the system clock is the number of nanoseconds since the epoch. A
  \<open>duration_cast\<close> to a coarser unit and the division of integers truncate towards zero.
\<close>

type_synonym time_point = int

definition trunc_div :: "int \<Rightarrow> int \<Rightarrow> int" where
  "trunc_div n d = (if 0 \<le> n then n div d else - (- n div d))"

definition to_time_t :: "time_point \<Rightarrow> int" where
  "to_time_t t = trunc_div t 1000000000"

definition epoch :: time_point where
  "epoch = 0"

lemma trunc_div_nonneg: "0 \<le> n \<Longrightarrow> trunc_div n d = n div d"
  by (simp add: trunc_div_def)

lemma trunc_div_neg: "n < 0 \<Longrightarrow> trunc_div n d = - (- n div d)"
  by (simp add: trunc_div_def)

lemma trunc_div_minus: "trunc_div (- n) d = - trunc_div n d"
  by (cases "n = 0") (auto simp: trunc_div_def)

section \<open>Base64 through OpenSSL\<close>

text \<open>
  \<open>EVP_DecodeBlock\<close> returns the bytes it writes, or fails. \<open>ConvertBase64ToBytes\<close>
  allocates a buffer of \<open>decoded_size\<close> bytes for them; what it returns is the bytes
  without the padding. What is written behind the buffer is the subject of a property.
\<close>

definition EQUALS :: byte where
  "EQUALS = 0x3D"

definition base64_padding :: "byte list \<Rightarrow> nat" where
  "base64_padding s =
     (if 2 \<le> length s
      then (if s ! (length s - 1) = EQUALS then 1 else 0) + (if s ! (length s - 2) = EQUALS then 1 else 0)
      else 0)"

definition decoded_size :: "byte list \<Rightarrow> nat" where
  "decoded_size s = length s * 3 div 4 - base64_padding s"

definition ConvertBase64ToBytes ::
  "(byte list \<Rightarrow> byte list option) \<Rightarrow> byte list \<Rightarrow> exn + byte list" where
  "ConvertBase64ToBytes EVP_DecodeBlock base64str =
     (case EVP_DecodeBlock base64str of
        None \<Rightarrow> Inl (StdRuntimeError ''Base64 decoding failed.'')
      | Some d \<Rightarrow> Inr (take (length d - base64_padding base64str) d))"

definition ConvertBytesToBase64 ::
  "(byte list \<Rightarrow> byte list option) \<Rightarrow> byte list \<Rightarrow> exn + byte list" where
  "ConvertBytesToBase64 EVP_EncodeBlock bytes =
     (case EVP_EncodeBlock bytes of
        None \<Rightarrow> Inl (StdRuntimeError ''Base64 encoding failed.'')
      | Some e \<Rightarrow> Inr e)"

text \<open>The documented size of a decoded block: three bytes for each group of four.\<close>

definition decode_block_ok :: "(byte list \<Rightarrow> byte list option) \<Rightarrow> bool" where
  "decode_block_ok dec \<longleftrightarrow> (\<forall>s d. dec s = Some d \<longrightarrow> length s mod 4 = 0 \<and> length d = 3 * (length s div 4))"

definition zero_decode :: "byte list \<Rightarrow> byte list option" where
  "zero_decode s = (if length s mod 4 = 0 then Some (replicate (3 * (length s div 4)) 0) else None)"

lemma zero_decode_ok: "decode_block_ok zero_decode"
  by (simp add: decode_block_ok_def zero_decode_def)

text \<open>
  Whenever the text ends in padding, the decoder writes past the end of the buffer that
  was allocated for it, by exactly the padding: by two bytes for a key of 16 bytes.
\<close>

theorem base64_buffer_overrun:
  assumes "decode_block_ok dec" and "dec s = Some d" and "s \<noteq> []"
  shows "length d = decoded_size s + base64_padding s"
proof -
  have "length s mod 4 = 0" "length d = 3 * (length s div 4)"
    using assms(1,2) by (auto simp: decode_block_ok_def)
  then obtain k where k: "length s = 4 * k" and d: "length d = 3 * k" by (auto elim: dvdE simp: mod_eq_0_iff_dvd)
  have "0 < k" using k assms(3) by (cases k) auto
  moreover have "base64_padding s \<le> 2" by (simp add: base64_padding_def)
  ultimately have "base64_padding s \<le> 3 * k" by linarith
  then show ?thesis using k d by (simp add: decoded_size_def)
qed

theorem base64_buffer_overrun_witness:
  "length (replicate 3 (0::byte)) = decoded_size [0x51, 0x51, 0x3D, 0x3D] + base64_padding [0x51, 0x51, 0x3D, 0x3D] \<and>
   base64_padding [0x51, 0x51, 0x3D, 0x3D] = 2"
  using base64_buffer_overrun [OF zero_decode_ok, of "[0x51, 0x51, 0x3D, 0x3D]" "replicate 3 0"]
  by (simp add: zero_decode_def base64_padding_def EQUALS_def)

end
