(* ===== verification/CryptoAPI.thy ===== *)
theory CryptoAPI
  imports Base64 StreamProperties Tools
begin

text \<open>
  The factory functions of the crypto layer
  (\<open>sdk/rmscrypto_sdk/CryptoAPI/CryptoAPI.cpp\<close>) and the key storage of the POSIX build
  (\<open>Platform/KeyStorage/KeyStoragePosix.cpp\<close>). The keyring (libsecret) and the random
  number generator (OpenSSL) are outside the repository: the keyring is a table of
  functions, and the outcome of the call of \<open>RAND_bytes\<close>, its return code and the bytes it
  leaves in the buffer, is an argument.
\<close>

section \<open>The key storage\<close>

record 'k IKeyStorage =
  ks_RemoveKey :: "string \<Rightarrow> (exn, 'k, unit) sx"
  ks_StoreKey :: "string \<Rightarrow> string \<Rightarrow> (exn, 'k, unit) sx"
  ks_LookupKey :: "string \<Rightarrow> (exn, 'k, string option) sx"

text \<open>
  A call of libsecret returns whether it succeeded, or the password found, and the error it
  reports, if any: a message and a code.
\<close>

type_synonym gerror = "(string \<times> int) option"

record 'k libsecret =
  secret_password_clear_sync :: "string \<Rightarrow> 'k \<Rightarrow> (bool \<times> gerror) \<times> 'k"
  secret_password_store_sync :: "string \<Rightarrow> string \<Rightarrow> 'k \<Rightarrow> (bool \<times> gerror) \<times> 'k"
  secret_password_lookup_sync :: "string \<Rightarrow> 'k \<Rightarrow> (string option \<times> gerror) \<times> 'k"

definition ProcessError :: "string \<times> int \<Rightarrow> exn" where
  "ProcessError e = RMSCryptoIOKeyException (fst e) (snd e)"

definition posix_RemoveKey :: "'k libsecret \<Rightarrow> string \<Rightarrow> (exn, 'k, unit) sx" where
  "posix_RemoveKey sec csKeyWrapper k =
     (case secret_password_clear_sync sec (c_str csKeyWrapper) k of ((removed, err), k') \<Rightarrow>
       (case err of Some e \<Rightarrow> if \<not> removed then (Inl (ProcessError e), k') else (Inr (), k')
        | None \<Rightarrow> (Inr (), k')))"

definition posix_StoreKey :: "'k libsecret \<Rightarrow> string \<Rightarrow> string \<Rightarrow> (exn, 'k, unit) sx" where
  "posix_StoreKey sec csKeyWrapper csKey k =
     (case secret_password_store_sync sec (c_str csKeyWrapper) (c_str csKey) k of ((succeeded, err), k') \<Rightarrow>
       (case err of Some e \<Rightarrow> if \<not> succeeded then (Inl (ProcessError e), k') else (Inr (), k')
        | None \<Rightarrow> (Inr (), k')))"

definition posix_LookupKey :: "'k libsecret \<Rightarrow> string \<Rightarrow> (exn, 'k, string option) sx" where
  "posix_LookupKey sec csKeyWrapper k =
     (case secret_password_lookup_sync sec (c_str csKeyWrapper) k of ((password, err), k') \<Rightarrow>
       (case err of Some e \<Rightarrow> (Inl (ProcessError e), k') | None \<Rightarrow> (Inr password, k')))"

definition IKeyStorage_Create :: "'k libsecret \<Rightarrow> 'k IKeyStorage" where
  "IKeyStorage_Create sec =
     \<lparr>ks_RemoveKey = posix_RemoveKey sec, ks_StoreKey = posix_StoreKey sec, ks_LookupKey = posix_LookupKey sec\<rparr>"

section \<open>Providers and streams\<close>

definition CreateCryptoProvider :: "evp \<Rightarrow> CipherMode \<Rightarrow> byte list \<Rightarrow> exn + ICryptoProvider" where
  "CreateCryptoProvider lib cipherMode key =
     (case cipherMode of
        CIPHER_MODE_CBC4K \<Rightarrow> bindE (Cbc4kCryptoProvider_create lib key) (\<lambda>p. Inr (cbc4k_vtable p))
      | CIPHER_MODE_ECB \<Rightarrow> bindE (EcbCryptoProvider_create lib key) (\<lambda>p. Inr (ecb_vtable p))
      | CIPHER_MODE_CBC512NOPADDING \<Rightarrow>
          bindE (Cbc512NoPaddingCryptoProvider_create lib key) (\<lambda>p. Inr (cbc512_vtable p)))"

definition CreateCryptoStream ::
  "evp \<Rightarrow> 's IStream \<Rightarrow> byte \<Rightarrow> CipherMode \<Rightarrow> byte list \<Rightarrow> 's \<Rightarrow> exn + 's BlockBasedProtectedStream" where
  "CreateCryptoStream lib ops junk cipherMode key backingStream =
     bindE (CreateCryptoProvider lib cipherMode key) (\<lambda>pCryptoProvider.
       let nProtectedStreamBlockSize = (if cp_GetBlockSize pCryptoProvider = 512 then 512 else 4096)
       in BlockBasedProtectedStream_Create ops junk (Some pCryptoProvider) (Some backingStream) 0 u64_max
            nProtectedStreamBlockSize)"

text \<open>\<open>rnd\<close> is the outcome of \<open>RAND_bytes\<close> on a buffer of 16 zeros.\<close>

definition CreateCryptoStreamWithAutoKey ::
  "'k IKeyStorage \<Rightarrow> int \<times> byte list \<Rightarrow> evp \<Rightarrow> 's IStream \<Rightarrow> byte \<Rightarrow> CipherMode \<Rightarrow> string \<Rightarrow> 's \<Rightarrow>
   (exn, 'k, 's BlockBasedProtectedStream option) sx" where
  "CreateCryptoStreamWithAutoKey ks rnd lib ops junk cipherMode csKeyName backingStream =
     bnd (ks_LookupKey ks csKeyName) (\<lambda>found.
     bnd (if found = None \<or> found = Some [] then
            if fst rnd \<noteq> 0
            then seqx (ks_StoreKey ks csKeyName (base64_encode (snd rnd))) (ks_LookupKey ks csKeyName)
            else ret found
          else ret found) (\<lambda>r.
       case r of
         None \<Rightarrow> ret None
       | Some s \<Rightarrow>
           if s = [] then ret None
           else bnd (liftE (CreateCryptoStream lib ops junk cipherMode (base64_decode s) backingStream))
             (\<lambda>st. ret (Some st))))"

text \<open>
  Both functions own the stream they work on; what they return comes from its last state.
  A null stream is dereferenced.
\<close>

definition on_stream ::
  "('t \<Rightarrow> exn + 'a) \<Rightarrow> 't option \<Rightarrow> (exn, 'k, 'a) sx" where
  "on_stream f so = (case so of None \<Rightarrow> throw NullDereference | Some st \<Rightarrow> liftE (f st))"

definition empty_stringstream :: stringstream where
  "empty_stringstream = \<lparr>ss_buf = [], ss_g = 0, ss_p = 0, ss_fail = False\<rparr>"

definition EncryptWithAutoKey ::
  "nat \<Rightarrow> 'k IKeyStorage \<Rightarrow> int \<times> byte list \<Rightarrow> evp \<Rightarrow> byte \<Rightarrow> byte list \<Rightarrow> CipherMode \<Rightarrow> string \<Rightarrow>
   (exn, 'k, byte list) sx" where
  "EncryptWithAutoKey f ks rnd lib junk pbIn cipherMode csKeyName =
     bnd (CreateCryptoStreamWithAutoKey ks rnd lib sa_vtable junk cipherMode csKeyName
            (StdStreamAdapter_io empty_stringstream))
      (on_stream (\<lambda>st. fst (bnd (bs_Write f sa_vtable pbIn) (\<lambda>_.
         bnd (bs_Flush sa_vtable) (\<lambda>_. gets stored)) st)))"

definition DecryptWithAutoKey ::
  "nat \<Rightarrow> 'k IKeyStorage \<Rightarrow> int \<times> byte list \<Rightarrow> evp \<Rightarrow> byte \<Rightarrow> byte list \<Rightarrow> CipherMode \<Rightarrow> string \<Rightarrow>
   (exn, 'k, byte list) sx" where
  "DecryptWithAutoKey f ks rnd lib junk cbIn cipherMode csKeyName =
     bnd (CreateCryptoStreamWithAutoKey ks rnd lib sa_vtable junk cipherMode csKeyName
            (StdStreamAdapter_io (ss_write cbIn empty_stringstream)))
      (on_stream (\<lambda>st. fst (IStream_Read (bs_vtable f sa_vtable) (length cbIn) st)))"

section \<open>Lemmas\<close>

text \<open>A keyring that works: what is stored is found, under its own name.\<close>

definition secret_ok :: "'k libsecret \<Rightarrow> ('k \<Rightarrow> string \<Rightarrow> string option) \<Rightarrow> bool" where
  "secret_ok sec view \<longleftrightarrow>
     (\<forall>n v k. \<exists>k'. secret_password_store_sync sec n v k = ((True, None), k') \<and>
        view k' = (view k)(n \<mapsto> v)) \<and>
     (\<forall>n k. \<exists>k'. secret_password_lookup_sync sec n k = ((view k n, None), k') \<and> view k' = view k)"

definition memory_keyring :: "(string \<Rightarrow> string option) libsecret" where
  "memory_keyring =
     \<lparr>secret_password_clear_sync = \<lambda>n k. ((k n \<noteq> None, None), k(n := None)),
      secret_password_store_sync = \<lambda>n v k. ((True, None), k(n \<mapsto> v)),
      secret_password_lookup_sync = \<lambda>n k. ((k n, None), k)\<rparr>"

lemma memory_keyring_ok: "secret_ok memory_keyring (\<lambda>k. k)"
  by (simp add: secret_ok_def memory_keyring_def)

text \<open>The storage hands on the texts up to their first NUL.\<close>

lemma posix_store:
  assumes "secret_ok sec view"
  shows "\<exists>k'. ks_StoreKey (IKeyStorage_Create sec) n v k = (Inr (), k') \<and> view k' = (view k)(c_str n \<mapsto> c_str v)"
proof -
  obtain k' where "secret_password_store_sync sec (c_str n) (c_str v) k = ((True, None), k')" "view k' = (view k)(c_str n \<mapsto> c_str v)"
    using assms unfolding secret_ok_def by metis
  then show ?thesis by (simp add: IKeyStorage_Create_def posix_StoreKey_def)
qed

lemma posix_lookup:
  assumes "secret_ok sec view"
  shows "\<exists>k'. ks_LookupKey (IKeyStorage_Create sec) n k = (Inr (view k (c_str n)), k') \<and> view k' = view k"
proof -
  obtain k' where "secret_password_lookup_sync sec (c_str n) k = ((view k (c_str n), None), k')" "view k' = view k"
    using assms unfolding secret_ok_def by metis
  then show ?thesis by (simp add: IKeyStorage_Create_def posix_LookupKey_def)
qed

lemma decode_encoded_key: "base64_decode (base64_encode key) = key"
  by (simp add: base64_decode_def base64_encode_def decode_loop_encode_loop)

lemma base64_encode_nonempty:
  assumes "bs \<noteq> []"
  shows "base64_encode bs \<noteq> []"
proof
  assume "base64_encode bs = []"
  then have "base64_decode [] = bs" using decode_encoded_key [of bs] by simp
  then show False using assms by (simp add: base64_decode_def decode_tail_def)
qed

lemma encoded_chars: "c \<in> set (encode_loop [] bs) \<Longrightarrow> is_base64 c \<or> c = CHR ''=''"
proof (induction bs rule: length_induct)
  case (1 bs)
  have codes: "c \<in> code_char ` set (encode_quad x y z) \<Longrightarrow> is_base64 c" for x y z
    using encode_quad_less by (auto simp: code_char_facts)
  consider "bs = []" | x where "bs = [x]" | x y where "bs = [x, y]" | x y z t where "bs = x # y # z # t"
    by (metis list.exhaust)
  then show ?case
  proof cases
    case 4
    then have "c \<in> code_char ` set (encode_quad x y z) \<or> c \<in> set (encode_loop [] t)"
      using 1(2) encode_loop_triple [of x y z t] by auto
    moreover have "length t < length bs" using 4 by simp
    ultimately show ?thesis using 1(1) codes by blast
  next
    case 2
    then show ?thesis using 1(2) codes [of x 0 0] by (auto simp: encode_tail_def Let_def numeral_eq_Suc dest: in_set_takeD)
  next
    case 3
    then show ?thesis using 1(2) codes [of x y 0] by (auto simp: encode_tail_def Let_def numeral_eq_Suc dest: in_set_takeD)
  qed (use 1(2) in \<open>simp add: encode_tail_def\<close>)
qed

lemma encoded_no_zero: "CHR 0x00 \<notin> set (base64_encode bs)"
proof -
  have "\<not> is_base64 (CHR 0x00)" "CHR 0x00 \<noteq> CHR ''=''" by code_simp+
  then show ?thesis using encoded_chars unfolding base64_encode_def by blast
qed

text \<open>The key the storage holds after the lookup, or after a new key has been stored.\<close>

definition key_after :: "string option \<Rightarrow> int \<times> byte list \<Rightarrow> string option" where
  "key_after found rnd =
     (if (found = None \<or> found = Some []) \<and> fst rnd \<noteq> 0 then Some (base64_encode (snd rnd)) else found)"

lemma cbc4k_stream:
  "valid_key key \<Longrightarrow> CreateCryptoStream lib ops junk CIPHER_MODE_CBC4K key b =
     BlockBasedProtectedStream_Create ops junk (Some (cbc4k_vtable (cbc4k_of lib key))) (Some b) 0 u64_max
       CBC4K_BLOCK_SIZE"
  by (simp add: CreateCryptoStream_def CreateCryptoProvider_def cbc4k_create_of cbc4k_vtable_def
      CBC4K_BLOCK_SIZE_def)

text \<open>A whole text written into, and read from, a stream of its own.\<close>

lemma write_whole:
  assumes p: "cbc4k_valid p" and b: "sa_inv b" "sa_out b" "sa_cont b = []"
    and P: "length P + CBC4K_BLOCK_SIZE < 2 ^ 31"
  shows "\<exists>s. BlockBasedProtectedStream_Create sa_vtable junk (Some (cbc4k_vtable p)) (Some b) 0 n
      CBC4K_BLOCK_SIZE = Inr s \<and>
    fst (bnd (bs_Write (Suc f) sa_vtable P) (\<lambda>_. bnd (bs_Flush sa_vtable) (\<lambda>_. gets stored)) s) =
      Inr (cbc4k_text p 0 P)"
proof -
  obtain s where s: "BlockBasedProtectedStream_Create sa_vtable junk (Some (cbc4k_vtable p)) (Some b)
        0 n CBC4K_BLOCK_SIZE = Inr s" "cbc4k_content.bs_writer p [] [] s" "\<not> bs_locked s"
    using cbc4k_content.create_writer [OF p b(1,2), of junk n] b(3) by auto
  have "\<exists>t. write_script (Suc f) sa_vtable [P] s = (Inr True, t) \<and>
      sa_inv (sp_backing (cb_Simple (bs_cb t))) \<and>
      sa_cont (sp_backing (cb_Simple (bs_cb t))) = [] @ cbc4k_text p 0 ([] @ concat [P])"
    using cbc4k.cipher_size_0 [OF p, of 0] P
    by (intro cbc4k_content.write_script_writer [OF s(2,3)]) simp_all
  then obtain t where t: "bnd (bs_Write (Suc f) sa_vtable P) (\<lambda>_. bs_Flush sa_vtable) s = (Inr True, t)"
      "stored t = cbc4k_text p 0 P"
    by (auto simp: stored_def)
  then obtain x u where u: "bs_Write (Suc f) sa_vtable P s = (Inr x, u)" "bs_Flush sa_vtable u = (Inr True, t)"
    by (auto elim: bnd_cases)
  then show ?thesis using s(1) t(2) by (simp add: sx_simps)
qed

lemma read_whole:
  assumes p: "cbc4k_valid p" and b: "sa_inv b" "sa_cont b = cbc4k_text p 0 P"
  shows "\<exists>s. BlockBasedProtectedStream_Create sa_vtable junk (Some (cbc4k_vtable p)) (Some b) 0 u64_max
      CBC4K_BLOCK_SIZE = Inr s \<and>
    fst (IStream_Read (bs_vtable (Suc f) sa_vtable) (length (cbc4k_text p 0 P)) s) = Inr P"
proof -
  let ?c = "cbc4k_text p 0 P"
  have len: "length ?c < 2 ^ 31" using std_stream.cont_bound [OF b(1)] b(2) by simp
  then have "min u64_max (length (?c @ [])) = length ?c" by (simp add: u64_max_def)
  then obtain s where s: "BlockBasedProtectedStream_Create sa_vtable junk (Some (cbc4k_vtable p)) (Some b)
        0 u64_max CBC4K_BLOCK_SIZE = Inr s" "cbc4k_content.bs_reader p P s" "bs_Position s = 0"
    using cbc4k_content.create_reader [OF p TrueI b(1), of "[]" P "[]" u64_max junk] b(2) by auto
  have more: "length P < length ?c" using length_cbc4k_text [OF p, of 0 P] div16_bound [of "length P"] by simp
  obtain t where t: "bs_ReadAsync (Suc f) sa_vtable False (length ?c) 0 s = (Inr (take (length ?c) (drop 0 P)), t)"
    using cbc4k_content.read_at_reader [OF s(2), of 0 f "length ?c"] by auto
  have "\<not> bs_locked s" "\<not> bs_IsPlainText s" using s(2) by (simp_all add: cbc4k_content.bs_reader_def)
  then have "bs_Position_get sa_vtable s = (Inr 0, s)"
    using s(3) by (simp add: bs_Position_get_def bs_PositionInner_def bs_guard_free sx_simps)
  moreover have "0 < length ?c" using more by linarith
  ultimately have "fst (IStream_Read (bs_vtable (Suc f) sa_vtable) (length ?c) s) = Inr P"
    using t len more by (simp add: IStream_Read_def bs_vtable_def bs_Read_def sx_simps)
  with s(1) show ?thesis by blast
qed

text \<open>
  The interface of a key storage to the functions that use stored keys: what is stored under a
  name is found under it, and the other names keep their keys. \<open>works\<close> is what the storage
  itself relies on; a storage may take only some names and keys.
\<close>

locale key_storage =
  fixes ks :: "'k IKeyStorage" and works :: bool and name_ok :: "string \<Rightarrow> bool" and key_ok :: "string \<Rightarrow> bool"
    and view :: "'k \<Rightarrow> string \<Rightarrow> string option"
  assumes store_law: "works \<Longrightarrow> name_ok n \<Longrightarrow> key_ok v \<Longrightarrow>
      \<exists>k'. ks_StoreKey ks n v k = (Inr (), k') \<and> view k' = (view k)(n \<mapsto> v)"
    and lookup_law: "works \<Longrightarrow> name_ok n \<Longrightarrow> \<exists>k'. ks_LookupKey ks n k = (Inr (view k n), k') \<and> view k' = view k"

context key_storage
begin

lemma auto_key_stream:
  assumes works and "name_ok n" and key: "key_after (view k n) rnd = Some (base64_encode key)" "key \<noteq> []"
    and fits: "key_ok (base64_encode key)" and st: "CreateCryptoStream lib ops junk mode key b = Inr st"
  shows "\<exists>k'. CreateCryptoStreamWithAutoKey ks rnd lib ops junk mode n b k = (Inr (Some st), k') \<and>
    view k' n = Some (base64_encode key)"
proof -
  obtain k1 where k1: "ks_LookupKey ks n k = (Inr (view k n), k1)" "view k1 = view k"
    using lookup_law [OF assms(1,2)] by metis
  have ne: "base64_encode key \<noteq> []" using base64_encode_nonempty [OF key(2)] .
  have dec: "base64_decode (base64_encode key) = key" by (rule decode_encoded_key)
  show ?thesis
  proof (cases "(view k n = None \<or> view k n = Some []) \<and> fst rnd \<noteq> 0")
    case True
    then have r: "base64_encode (snd rnd) = base64_encode key" using key(1) by (simp add: key_after_def)
    obtain k2 where k2: "ks_StoreKey ks n (base64_encode key) k1 = (Inr (), k2)"
        "view k2 = (view k1)(n \<mapsto> base64_encode key)" using store_law [OF assms(1,2) fits] by metis
    obtain k3 where k3: "ks_LookupKey ks n k2 = (Inr (view k2 n), k3)" "view k3 = view k2"
      using lookup_law [OF assms(1,2)] by metis
    show ?thesis
      using True k1 k2 k3 r st ne dec by (simp add: CreateCryptoStreamWithAutoKey_def sx_simps)
  next
    case False
    then have "view k n = Some (base64_encode key)" using key(1) by (auto simp: key_after_def)
    then show ?thesis
      using k1 st ne dec by (simp add: CreateCryptoStreamWithAutoKey_def sx_simps)
  qed
qed

text \<open>What a call encrypts under a named key, and what a call with the same key makes of it.\<close>

lemma encrypt_auto_key:
  assumes "evp_ok lib" and works and "valid_key key" and "name_ok name" and "key_ok (base64_encode key)"
    and "key_after (view k name) rnd = Some (base64_encode key)"
    and "length P + CBC4K_BLOCK_SIZE < 2 ^ 31"
  shows "\<exists>k1. EncryptWithAutoKey (Suc f) ks rnd lib junk P CIPHER_MODE_CBC4K name k =
      (Inr (cbc4k_text (cbc4k_of lib key) 0 P), k1) \<and> view k1 name = Some (base64_encode key)"
proof -
  let ?p = "cbc4k_of lib key"
  have p: "cbc4k_valid ?p" using assms(1,3) by (rule cbc4k_of_valid)
  have key: "key \<noteq> []" using assms(3) by (auto simp: valid_key_def)
  obtain s where s: "CreateCryptoStream lib sa_vtable junk CIPHER_MODE_CBC4K key
        (StdStreamAdapter_io empty_stringstream) = Inr s"
      "fst (bnd (bs_Write (Suc f) sa_vtable P) (\<lambda>_. bnd (bs_Flush sa_vtable) (\<lambda>_. gets stored)) s) =
        Inr (cbc4k_text ?p 0 P)"
    using write_whole [OF p, of "StdStreamAdapter_io empty_stringstream" P junk u64_max f] assms(7)
    by (auto simp: cbc4k_stream [OF assms(3)] StdStreamAdapter_io_def empty_stringstream_def sa_inv_def sa_cont_def)
  obtain k1 where "CreateCryptoStreamWithAutoKey ks rnd lib sa_vtable junk CIPHER_MODE_CBC4K
        name (StdStreamAdapter_io empty_stringstream) k = (Inr (Some s), k1)" "view k1 name = Some (base64_encode key)"
    using auto_key_stream [OF assms(2,4,6) key assms(5) s(1)] by blast
  with s(2) show ?thesis by (simp add: EncryptWithAutoKey_def on_stream_def bnd_app liftE_app)
qed

lemma decrypt_auto_key:
  assumes "evp_ok lib" and works and "valid_key key" and "name_ok name" and "key_ok (base64_encode key)"
    and "view k name = Some (base64_encode key)" and "length P + 2 * CBC4K_BLOCK_SIZE < 2 ^ 31"
  shows "\<exists>k1. DecryptWithAutoKey (Suc f) ks rnd lib junk (cbc4k_text (cbc4k_of lib key) 0 P)
      CIPHER_MODE_CBC4K name k = (Inr P, k1)"
proof -
  let ?p = "cbc4k_of lib key"
  let ?c = "cbc4k_text ?p 0 P"
  have p: "cbc4k_valid ?p" using assms(1,3) by (rule cbc4k_of_valid)
  have key: "key \<noteq> []" using assms(3) by (auto simp: valid_key_def)
  have "length ?c < 2 ^ 31"
    using length_cbc4k_text [OF p, of 0 P] assms(7) mult_div_mod_eq [of 16 "length P"]
    by (simp add: CBC4K_BLOCK_SIZE_def)
  then obtain t where t: "CreateCryptoStream lib sa_vtable junk CIPHER_MODE_CBC4K key
        (StdStreamAdapter_io (ss_write ?c empty_stringstream)) = Inr t"
      "fst (IStream_Read (bs_vtable (Suc f) sa_vtable) (length ?c) t) = Inr P"
    using read_whole [OF p, of "StdStreamAdapter_io (ss_write ?c empty_stringstream)" P junk f]
    by (auto simp: cbc4k_stream [OF assms(3)] StdStreamAdapter_io_def empty_stringstream_def sa_inv_def sa_cont_def
        ss_write_def put_at_def)
  have "key_after (view k name) rnd = Some (base64_encode key)"
    using assms(6) base64_encode_nonempty [OF key] by (simp add: key_after_def)
  then obtain k2 where "CreateCryptoStreamWithAutoKey ks rnd lib sa_vtable junk
        CIPHER_MODE_CBC4K name (StdStreamAdapter_io (ss_write ?c empty_stringstream)) k = (Inr (Some t), k2)"
    using auto_key_stream [OF assms(2,4) _ key assms(5) t(1)] by blast
  with t(2) show ?thesis by (simp add: DecryptWithAutoKey_def on_stream_def bnd_app liftE_app)
qed

lemma auto_key_both:
  assumes "evp_ok lib" and works and "valid_key key" and "name_ok name" and "key_ok (base64_encode key)"
    and "key_after (view k name) rnd = Some (base64_encode key)"
    and "length P + 2 * CBC4K_BLOCK_SIZE < 2 ^ 31"
  shows "\<exists>c k1 k2.
    EncryptWithAutoKey (Suc f) ks rnd lib junk P CIPHER_MODE_CBC4K name k = (Inr c, k1) \<and>
    DecryptWithAutoKey (Suc f) ks rnd' lib junk' c CIPHER_MODE_CBC4K name k1 = (Inr P, k2)"
proof -
  obtain k1 where k1: "EncryptWithAutoKey (Suc f) ks rnd lib junk P CIPHER_MODE_CBC4K name k =
      (Inr (cbc4k_text (cbc4k_of lib key) 0 P), k1)" "view k1 name = Some (base64_encode key)"
    using encrypt_auto_key [OF assms(1-6), of P] assms(7) by fastforce
  moreover obtain k2 where "DecryptWithAutoKey (Suc f) ks rnd' lib junk'
      (cbc4k_text (cbc4k_of lib key) 0 P) CIPHER_MODE_CBC4K name k1 = (Inr P, k2)"
    using decrypt_auto_key [OF assms(1-5) k1(2) assms(7)] by blast
  ultimately show ?thesis by blast
qed

end

interpretation posix_keys: key_storage "IKeyStorage_Create sec" "secret_ok sec view" "\<lambda>n. CHR 0x00 \<notin> set n" "\<lambda>v. CHR 0x00 \<notin> set v" view
  for sec view
proof
  fix n v :: string and k
  show "secret_ok sec view \<Longrightarrow> CHR 0x00 \<notin> set n \<Longrightarrow> CHR 0x00 \<notin> set v \<Longrightarrow>
      \<exists>k'. ks_StoreKey (IKeyStorage_Create sec) n v k = (Inr (), k') \<and> view k' = (view k)(n \<mapsto> v)"
    using posix_store [of sec view n v k] by (simp add: c_str_id)
  show "secret_ok sec view \<Longrightarrow> CHR 0x00 \<notin> set n \<Longrightarrow>
      \<exists>k'. ks_LookupKey (IKeyStorage_Create sec) n k = (Inr (view k n), k') \<and> view k' = view k"
    using posix_lookup [of sec view n k] by (simp add: c_str_id)
qed

lemmas encrypt_auto_key = posix_keys.encrypt_auto_key [OF _ _ _ _ encoded_no_zero]
lemmas decrypt_auto_key = posix_keys.decrypt_auto_key [OF _ _ _ _ encoded_no_zero]

text \<open>A name stands for what it is up to its first NUL.\<close>

lemma c_str_no_zero: "CHR 0x00 \<notin> set (c_str s)"
  by (auto simp: c_str_def dest: set_takeWhileD)

lemma posix_name_stream:
  "CreateCryptoStreamWithAutoKey (IKeyStorage_Create sec) rnd lib ops junk mode name =
     CreateCryptoStreamWithAutoKey (IKeyStorage_Create sec) rnd lib ops junk mode (c_str name)"
proof -
  have "ks_LookupKey (IKeyStorage_Create sec) name = ks_LookupKey (IKeyStorage_Create sec) (c_str name)"
    "ks_StoreKey (IKeyStorage_Create sec) name = ks_StoreKey (IKeyStorage_Create sec) (c_str name)"
    by (simp_all add: IKeyStorage_Create_def posix_LookupKey_def posix_StoreKey_def fun_eq_iff c_str_id [OF c_str_no_zero])
  then show ?thesis by (intro ext) (simp only: CreateCryptoStreamWithAutoKey_def)
qed

lemma posix_name:
  "EncryptWithAutoKey f (IKeyStorage_Create sec) rnd lib junk P mode name =
     EncryptWithAutoKey f (IKeyStorage_Create sec) rnd lib junk P mode (c_str name)"
  "DecryptWithAutoKey f (IKeyStorage_Create sec) rnd lib junk C mode name =
     DecryptWithAutoKey f (IKeyStorage_Create sec) rnd lib junk C mode (c_str name)"
  by (simp_all only: EncryptWithAutoKey_def DecryptWithAutoKey_def posix_name_stream [where name = name])

section \<open>Properties\<close>

text \<open>
  C18: what one call encrypts under a named key, a later call with the same name decrypts,
  whether the key was in the key storage before or had to be made up: the key goes through
  the random number generator, the base64 codec and the keyring, the text through the
  stream, the padding and the cipher.
\<close>

theorem auto_key_roundtrip:
  assumes "evp_ok lib" and "secret_ok sec view" and "valid_key key"
    and "key_after (view k (c_str name)) rnd = Some (base64_encode key)"
    and "length P + 2 * CBC4K_BLOCK_SIZE < 2 ^ 31"
  shows "\<exists>c k1 k2.
    EncryptWithAutoKey (Suc f) (IKeyStorage_Create sec) rnd lib junk P CIPHER_MODE_CBC4K name k = (Inr c, k1) \<and>
    DecryptWithAutoKey (Suc f) (IKeyStorage_Create sec) rnd' lib junk' c CIPHER_MODE_CBC4K name k1 = (Inr P, k2)"
  unfolding posix_name [where name = name]
  by (rule posix_keys.auto_key_both [OF assms(1-3) c_str_no_zero encoded_no_zero assms(4-5)])

theorem auto_key_roundtrip_witness:
  "\<exists>c k1 k2.
    EncryptWithAutoKey (Suc 0) (IKeyStorage_Create memory_keyring) (1, replicate 16 7) xor_evp 0 [1, 2, 3]
      CIPHER_MODE_CBC4K ''default'' Map.empty = (Inr c, k1) \<and>
    DecryptWithAutoKey (Suc 0) (IKeyStorage_Create memory_keyring) (0, []) xor_evp 0 c
      CIPHER_MODE_CBC4K ''default'' k1 = (Inr [1, 2, 3], k2)"
  by (rule auto_key_roundtrip [OF xor_evp_ok memory_keyring_ok valid_key_16])
    (simp_all add: key_after_def CBC4K_BLOCK_SIZE_def c_str_def)

text \<open>
  The two failures of the random number generator. A return code of 0 leaves the
  caller without a stream, which it dereferences; a return code of -1 passes the test
  \<open>!= 0\<close>, and the key of 16 zeros that the buffer was filled with is stored and used.
\<close>

theorem rand_failure:
  assumes "secret_ok sec view" and "view k (c_str name) = None"
  shows "(\<exists>k1. EncryptWithAutoKey f (IKeyStorage_Create sec) (0, zeros) lib junk P mode name k =
      (Inl NullDereference, k1)) \<and>
    (\<exists>r k1. EncryptWithAutoKey f (IKeyStorage_Create sec) (-1, replicate 16 0) lib junk P mode name k = (r, k1) \<and>
      view k1 (c_str name) = Some (base64_encode (replicate 16 0)))"
proof -
  obtain k1 where k1: "ks_LookupKey (IKeyStorage_Create sec) name k = (Inr None, k1)" "view k1 = view k"
    using posix_lookup [OF assms(1), of name k] assms(2) by auto
  obtain k2 where k2: "ks_StoreKey (IKeyStorage_Create sec) name (base64_encode (replicate 16 0)) k1 = (Inr (), k2)"
      "view k2 = (view k1)(c_str name \<mapsto> base64_encode (replicate 16 0))" using posix_store [OF assms(1)] c_str_id [OF encoded_no_zero] by metis
  obtain k3 where k3: "ks_LookupKey (IKeyStorage_Create sec) name k2 = (Inr (view k2 (c_str name)), k3)" "view k3 = view k2"
    using posix_lookup [OF assms(1)] by metis
  show ?thesis
    using k1 k2 k3
    by (auto simp: EncryptWithAutoKey_def CreateCryptoStreamWithAutoKey_def on_stream_def sx_simps
        split: sum.split option.split)
qed

theorem rand_failure_witness:
  "(\<exists>k1. EncryptWithAutoKey 1 (IKeyStorage_Create memory_keyring) (0, replicate 16 0) xor_evp 0 [1]
      CIPHER_MODE_CBC4K ''default'' Map.empty = (Inl NullDereference, k1)) \<and>
    (\<exists>r k1. EncryptWithAutoKey 1 (IKeyStorage_Create memory_keyring) (-1, replicate 16 0) xor_evp 0 [1]
      CIPHER_MODE_CBC4K ''default'' Map.empty = (r, k1) \<and>
      k1 ''default'' = Some (base64_encode (replicate 16 0)))"
proof -
  have n: "c_str ''default'' = ''default''" by (simp add: c_str_def)
  show ?thesis
    by (rule rand_failure [OF memory_keyring_ok, where name = "''default''", unfolded n]) simp
qed

end
