(* ===== verification/KeyTable.thy ===== *)
theory KeyTable
  imports CryptoAPI Tools
begin

text \<open>
  The key storage of the Windows build (\<open>Platform/KeyStorage/KeyStorageWindows.cpp\<close> and
  \<open>StorageAccessWindows.cpp\<close>): one table of a database file, reached by statements of SQL that
  are put together from texts, and the key storage of the macOS build (\<open>KeyStorageOSX.cpp\<close>).
  SQLite and the calls of Windows are parameters.
\<close>

section \<open>Statements\<close>

definition TableName :: string where "TableName = ''MSIPCKeyStorage''"
definition KeyWrapperColumn :: string where "KeyWrapperColumn = ''csKeyWrapper''"
definition KeyColumn :: string where "KeyColumn = ''csKey''"

abbreviation quote_sign :: string where "quote_sign \<equiv> [CHR 0x27]"

definition CreateTableQuery :: "string \<Rightarrow> string" where
  "CreateTableQuery table =
     ''CREATE TABLE IF NOT EXISTS '' @ table @ '' ('' @ KeyWrapperColumn @ '' STRING PRIMARY KEY, '' @ KeyColumn @ '' STRING);''"

definition StoreQuery :: "string \<Rightarrow> string \<Rightarrow> string \<Rightarrow> string" where
  "StoreQuery keyWrapper key table =
     ''INSERT OR REPLACE INTO '' @ table @ '' VALUES('' @ quote_sign @ keyWrapper @ quote_sign @ '','' @ quote_sign @ key @
     quote_sign @ '');''"

definition LookupQuery :: "string \<Rightarrow> string \<Rightarrow> string" where
  "LookupQuery keyWrapper table =
     ''SELECT '' @ KeyColumn @ '' FROM '' @ table @ '' WHERE '' @ KeyWrapperColumn @ ''='' @ quote_sign @ keyWrapper @ quote_sign @ '';''"

definition RemoveQuery :: "string \<Rightarrow> string \<Rightarrow> string" where
  "RemoveQuery keyWrapper table =
     ''DELETE FROM '' @ table @ '' WHERE '' @ KeyWrapperColumn @ ''='' @ quote_sign @ keyWrapper @ quote_sign @ '';''"

section \<open>The database\<close>

text \<open>
  A call of SQLite gives its return code; \<open>sqlite3_get_table\<close> also the numbers of rows and
  columns and the cells, the names of the columns first. \<open>'d\<close> is the database file.
\<close>

record 'd sqlite =
  sqlite3_open16 :: "string \<Rightarrow> 'd \<Rightarrow> int \<times> 'd"
  sqlite3_exec :: "string \<Rightarrow> 'd \<Rightarrow> int \<times> 'd"
  sqlite3_get_table :: "string \<Rightarrow> 'd \<Rightarrow> (int \<times> int \<times> int \<times> string option list) \<times> 'd"

text \<open>
  Windows: the size and the value of the variable \<open>%localappdata%\<close>, whether a directory could be
  created, the last error and its text, and what the code of an exception that is made from a
  message only is left at.
\<close>

record windows =
  win_size :: nat
  win_value :: "string option"
  win_CreateDirectory :: "string \<Rightarrow> bool"
  win_GetLastError :: nat
  win_error_text :: string
  win_junk_code :: int

definition ERROR_ALREADY_EXISTS :: nat where "ERROR_ALREADY_EXISTS = 183"

definition GetLastWin32ErrorAsString :: "windows \<Rightarrow> string" where
  "GetLastWin32ErrorAsString wn = (if win_GetLastError wn = 0 then [] else win_error_text wn)"

record 'd key_db =
  kd_made :: bool  \<comment> \<open>whether the one instance has been constructed\<close>
  kd_db :: 'd

definition ErrorHandler :: "windows \<Rightarrow> int \<Rightarrow> string \<Rightarrow> exn + unit" where
  "ErrorHandler wn returnCode errorOp =
     (if returnCode \<noteq> 0
      then Inl (RMSCryptoIOKeyException (''StorageAccessWindows failure in operation '' @ errorOp) (win_junk_code wn))
      else Inr ())"

definition CreateLocalStorage :: "windows \<Rightarrow> exn + string" where
  "CreateLocalStorage wn =
     (if win_size wn = 0 then Inl (RMSCryptoIOKeyException (c_str (GetLastWin32ErrorAsString wn)) (win_junk_code wn))
      else case win_value wn of
             None \<Rightarrow> Inl (RMSCryptoIOKeyException (c_str (GetLastWin32ErrorAsString wn)) (win_junk_code wn))
           | Some v \<Rightarrow>
               (let lpBuffer = take (win_size wn - 1) (v @ replicate (win_size wn) (CHR 0x00));
                    directory = lpBuffer @ [CHR 0x5C] @ ''Microsoft'' @ [CHR 0x5C] @ ''RMSLocalStorage''
                in if \<not> win_CreateDirectory wn (c_str directory) \<and> win_GetLastError wn \<noteq> ERROR_ALREADY_EXISTS
                   then Inl (RMSCryptoIOKeyException (c_str (GetLastWin32ErrorAsString wn)) (win_junk_code wn))
                   else Inr directory))"

definition on_db :: "('d \<Rightarrow> 'a \<times> 'd) \<Rightarrow> (exn, 'd key_db, 'a) sx" where
  "on_db f s = (case f (kd_db s) of (x, d) \<Rightarrow> (Inr x, s\<lparr>kd_db := d\<rparr>))"

text \<open>The instance is constructed by the first call; a constructor that throws is tried again.\<close>

definition StorageAccessWindows_Instance :: "'d sqlite \<Rightarrow> windows \<Rightarrow> (exn, 'd key_db, unit) sx" where
  "StorageAccessWindows_Instance sq wn =
     bnd (gets kd_made) (\<lambda>made.
       if made then ret ()
       else bnd (liftE (CreateLocalStorage wn)) (\<lambda>directory.
            bnd (on_db (sqlite3_open16 sq (c_str (directory @ [CHR 0x5C] @ ''DefaultMSIPCKeyStorage.db'')))) (\<lambda>rc.
            bnd (liftE (ErrorHandler wn rc ''CreateTable'')) (\<lambda>_.
            bnd (on_db (sqlite3_exec sq (c_str (CreateTableQuery TableName)))) (\<lambda>rc.
            bnd (liftE (ErrorHandler wn rc ''CreateTable'')) (\<lambda>_. modify (\<lambda>s. s\<lparr>kd_made := True\<rparr>)))))))"

definition windows_StoreKey :: "'d sqlite \<Rightarrow> windows \<Rightarrow> string \<Rightarrow> string \<Rightarrow> (exn, 'd key_db, unit) sx" where
  "windows_StoreKey sq wn csKeyWrapper csKey =
     seqx (StorageAccessWindows_Instance sq wn)
       (bnd (on_db (sqlite3_exec sq (c_str (StoreQuery csKeyWrapper csKey TableName)))) (\<lambda>rc. liftE (ErrorHandler wn rc ''Store'')))"

text \<open>A cell that is null is copied into a text: a null pointer is followed.\<close>

definition windows_LookupKey :: "'d sqlite \<Rightarrow> windows \<Rightarrow> string \<Rightarrow> (exn, 'd key_db, string option) sx" where
  "windows_LookupKey sq wn csKeyWrapper =
     seqx (StorageAccessWindows_Instance sq wn)
       (bnd (on_db (sqlite3_get_table sq (c_str (LookupQuery csKeyWrapper TableName)))) (\<lambda>(rc, rows, columns, results).
        seqx (liftE (ErrorHandler wn rc ''Lookup''))
          (if 1 \<le> rows \<and> 1 \<le> columns
           then (case results ! 1 of None \<Rightarrow> throw NullDereference | Some key \<Rightarrow> ret (Some key))
           else ret None)))"

definition windows_RemoveKey :: "'d sqlite \<Rightarrow> windows \<Rightarrow> string \<Rightarrow> (exn, 'd key_db, unit) sx" where
  "windows_RemoveKey sq wn csKeyWrapper =
     seqx (StorageAccessWindows_Instance sq wn)
       (bnd (on_db (sqlite3_exec sq (c_str (RemoveQuery csKeyWrapper TableName)))) (\<lambda>rc. liftE (ErrorHandler wn rc ''Remove'')))"

definition KeyStorageWindows :: "'d sqlite \<Rightarrow> windows \<Rightarrow> 'd key_db IKeyStorage" where
  "KeyStorageWindows sq wn =
     \<lparr>ks_RemoveKey = windows_RemoveKey sq wn, ks_StoreKey = windows_StoreKey sq wn, ks_LookupKey = windows_LookupKey sq wn\<rparr>"

text \<open>On macOS there is no key storage: making one throws, and so would its operations.\<close>

definition osx_error :: exn where
  "osx_error = RMSCryptoNotImplementedException ''Key storage for OSX is not implemented''"

definition KeyStorageOSX :: "'k IKeyStorage" where
  "KeyStorageOSX = \<lparr>ks_RemoveKey = (\<lambda>n. throw osx_error), ks_StoreKey = (\<lambda>n v. throw osx_error), ks_LookupKey = (\<lambda>n. throw osx_error)\<rparr>"

definition KeyStorageOSX_Create :: "exn + 'k IKeyStorage" where
  "KeyStorageOSX_Create = Inl (RMSCryptoNotImplementedException ''KeyStorage is not implemented on this platform'')"

section \<open>What SQLite promises\<close>

text \<open>
  A text between quotes is a literal if it has no quote in it, and ends at a zero. The columns are declared
  \<open>STRING\<close>, which SQLite takes for a numeric type: a text that reads as a number is stored as
  that number. A text with a character that no number has is kept as it is.
\<close>

definition number_chars :: string where "number_chars = ''0123456789+-.eE '' @ map char_of [9, 10, 11, 12, 13 :: nat]"

definition sql_text :: "string \<Rightarrow> bool" where
  "sql_text s \<longleftrightarrow> list_all (\<lambda>c. c \<noteq> CHR 0x27 \<and> c \<noteq> CHR 0x00) s \<and> list_ex (\<lambda>c. c \<notin> set number_chars) s"

text \<open>The statements that are used do what the language says, on the table \<open>view\<close>.\<close>

definition sqlite_ok :: "'d sqlite \<Rightarrow> ('d \<Rightarrow> string \<Rightarrow> string option) \<Rightarrow> bool" where
  "sqlite_ok sq view \<longleftrightarrow>
     (\<forall>f d. \<exists>d'. sqlite3_open16 sq f d = (0, d') \<and> view d' = view d) \<and>
     (\<forall>d. \<exists>d'. sqlite3_exec sq
        ''CREATE TABLE IF NOT EXISTS MSIPCKeyStorage (csKeyWrapper STRING PRIMARY KEY, csKey STRING);'' d = (0, d') \<and> view d' = view d) \<and>
     (\<forall>n v d. sql_text n \<longrightarrow> sql_text v \<longrightarrow> (\<exists>d'. sqlite3_exec sq (''INSERT OR REPLACE INTO MSIPCKeyStorage VALUES('' @
        quote_sign @ n @ quote_sign @ '','' @ quote_sign @ v @ quote_sign @ '');'') d = (0, d') \<and> view d' = (view d)(n \<mapsto> v))) \<and>
     (\<forall>n d. sql_text n \<longrightarrow> (\<exists>cells d'. sqlite3_get_table sq (''SELECT csKey FROM MSIPCKeyStorage WHERE csKeyWrapper='' @
        quote_sign @ n @ quote_sign @ '';'') d =
        (case view d n of None \<Rightarrow> (0, 0, 0, cells) | Some v \<Rightarrow> (0, 1, 1, [Some ''csKey'', Some v]), d') \<and> view d' = view d))"

definition windows_ok :: "windows \<Rightarrow> bool" where
  "windows_ok wn \<longleftrightarrow> win_size wn \<noteq> 0 \<and> win_value wn \<noteq> None \<and>
     (\<forall>p. win_CreateDirectory wn p \<or> win_GetLastError wn = ERROR_ALREADY_EXISTS)"

section \<open>The interface\<close>

lemma no_zero_literals:
  "CHR 0x00 \<notin> set (CreateTableQuery TableName)"
  "CHR 0x00 \<notin> set n \<Longrightarrow> CHR 0x00 \<notin> set v \<Longrightarrow> CHR 0x00 \<notin> set (StoreQuery n v TableName)"
  "CHR 0x00 \<notin> set n \<Longrightarrow> CHR 0x00 \<notin> set (LookupQuery n TableName)"
  by (simp_all add: CreateTableQuery_def StoreQuery_def LookupQuery_def TableName_def KeyWrapperColumn_def KeyColumn_def)

lemma sql_text_no_zero: "sql_text s \<Longrightarrow> CHR 0x00 \<notin> set s"
  by (auto simp: sql_text_def list_all_iff)

lemma instance_made:
  assumes "sqlite_ok sq view" and "windows_ok wn"
  shows "\<exists>s'. StorageAccessWindows_Instance sq wn s = (Inr (), s') \<and> view (kd_db s') = view (kd_db s)"
proof (cases "kd_made s")
  case True
  then show ?thesis by (simp add: StorageAccessWindows_Instance_def sx_simps)
next
  case False
  obtain dir where dir: "CreateLocalStorage wn = Inr dir"
    using assms(2) by (auto simp: CreateLocalStorage_def windows_ok_def Let_def split: option.split)
  let ?f = "c_str (dir @ [CHR 0x5C] @ ''DefaultMSIPCKeyStorage.db'')"
  obtain d1 where d1: "sqlite3_open16 sq ?f (kd_db s) = (0, d1)" "view d1 = view (kd_db s)"
    using assms(1) unfolding sqlite_ok_def by blast
  have q: "c_str (CreateTableQuery TableName) =
      ''CREATE TABLE IF NOT EXISTS MSIPCKeyStorage (csKeyWrapper STRING PRIMARY KEY, csKey STRING);''"
    unfolding c_str_id [OF no_zero_literals(1)]
    by (simp add: CreateTableQuery_def TableName_def KeyWrapperColumn_def KeyColumn_def)
  obtain d2 where d2: "sqlite3_exec sq (c_str (CreateTableQuery TableName)) d1 = (0, d2)" "view d2 = view d1"
    using assms(1) unfolding sqlite_ok_def q by blast
  show ?thesis
    using False d1 d2 by (simp add: StorageAccessWindows_Instance_def sx_simps dir on_db_def ErrorHandler_def)
qed

lemma windows_store:
  assumes "sqlite_ok sq view" and "windows_ok wn" and "sql_text n" and "sql_text v"
  shows "\<exists>s'. ks_StoreKey (KeyStorageWindows sq wn) n v s = (Inr (), s') \<and> view (kd_db s') = (view (kd_db s))(n \<mapsto> v)"
proof -
  obtain s1 where s1: "StorageAccessWindows_Instance sq wn s = (Inr (), s1)" "view (kd_db s1) = view (kd_db s)"
    using instance_made [OF assms(1,2)] by blast
  have q: "c_str (StoreQuery n v TableName) = ''INSERT OR REPLACE INTO MSIPCKeyStorage VALUES('' @
        quote_sign @ n @ quote_sign @ '','' @ quote_sign @ v @ quote_sign @ '');''"
    unfolding c_str_id [OF no_zero_literals(2) [OF assms(3,4) [THEN sql_text_no_zero]]] by (simp add: StoreQuery_def TableName_def)
  obtain d where d: "sqlite3_exec sq (c_str (StoreQuery n v TableName)) (kd_db s1) = (0, d)" "view d = (view (kd_db s1))(n \<mapsto> v)"
    using assms(1,3,4) unfolding sqlite_ok_def q by blast
  show ?thesis
    using s1 d by (simp add: KeyStorageWindows_def windows_StoreKey_def sx_simps on_db_def ErrorHandler_def)
qed

lemma windows_lookup:
  assumes "sqlite_ok sq view" and "windows_ok wn" and "sql_text n"
  shows "\<exists>s'. ks_LookupKey (KeyStorageWindows sq wn) n s = (Inr (view (kd_db s) n), s') \<and> view (kd_db s') = view (kd_db s)"
proof -
  obtain s1 where s1: "StorageAccessWindows_Instance sq wn s = (Inr (), s1)" "view (kd_db s1) = view (kd_db s)"
    using instance_made [OF assms(1,2)] by blast
  have q: "c_str (LookupQuery n TableName) = ''SELECT csKey FROM MSIPCKeyStorage WHERE csKeyWrapper='' @
        quote_sign @ n @ quote_sign @ '';''"
    unfolding c_str_id [OF no_zero_literals(3) [OF assms(3) [THEN sql_text_no_zero]]]
    by (simp add: LookupQuery_def TableName_def KeyWrapperColumn_def KeyColumn_def)
  obtain cells d where d: "sqlite3_get_table sq (c_str (LookupQuery n TableName)) (kd_db s1) =
      (case view (kd_db s1) n of None \<Rightarrow> (0, 0, 0, cells) | Some v \<Rightarrow> (0, 1, 1, [Some ''csKey'', Some v]), d)"
    "view d = view (kd_db s1)"
    using assms(1,3) unfolding sqlite_ok_def q by blast
  show ?thesis
    using s1 d by (cases "view (kd_db s1) n")
      (simp_all add: KeyStorageWindows_def windows_LookupKey_def sx_simps on_db_def ErrorHandler_def)
qed

interpretation windows_keys: key_storage "KeyStorageWindows sq wn" "sqlite_ok sq view \<and> windows_ok wn" sql_text sql_text
    "\<lambda>s. view (kd_db s)" for sq wn view
  by unfold_locales (simp_all add: windows_store windows_lookup)

section \<open>Properties\<close>

lemma encoded_padded: "length bs mod 3 \<noteq> 0 \<Longrightarrow> CHR ''='' \<in> set (encode_loop [] bs)"
proof (induction bs rule: length_induct)
  case (1 bs)
  consider "bs = []" | x where "bs = [x]" | x y where "bs = [x, y]" | x y z t where "bs = x # y # z # t"
    by (metis list.exhaust)
  then show ?case
  proof cases
    case 4
    then have "length t mod 3 \<noteq> 0" using 1(2) by (metis length_Cons add.commute add_Suc_right mod_add_self2 numeral_3_eq_3 plus_nat.add_0)
    then show ?thesis using 1(1) 4 encode_loop_triple [of x y z t] by simp
  qed (use 1(2) in \<open>simp_all add: encode_tail_def Let_def\<close>)
qed

lemma encoded_sql_text: "length key mod 3 \<noteq> 0 \<Longrightarrow> sql_text (base64_encode key)"
proof -
  assume k: "length key mod 3 \<noteq> 0"
  have "\<not> is_base64 (CHR 0x27)" "\<not> is_base64 (CHR 0x00)" "CHR ''='' \<notin> set number_chars" by code_simp+
  then show ?thesis
    using encoded_chars encoded_padded [OF k] unfolding sql_text_def base64_encode_def list_all_iff list_ex_iff by blast
qed

text \<open>
  C39: What one call encrypts under a named key, a later call with the same name decrypts, with the
  key in the table of the Windows build, found there or made up, if the name is one that a
  statement can hold.
\<close>

theorem windows_auto_key_roundtrip:
  assumes "evp_ok lib" and "sqlite_ok sq view" and "windows_ok wn" and "length key = 16" and "sql_text name"
    and "key_after (view (kd_db k) name) rnd = Some (base64_encode key)" and "length P + 2 * CBC4K_BLOCK_SIZE < 2 ^ 31"
  shows "\<exists>c k1 k2.
    EncryptWithAutoKey (Suc f) (KeyStorageWindows sq wn) rnd lib junk P CIPHER_MODE_CBC4K name k = (Inr c, k1) \<and>
    DecryptWithAutoKey (Suc f) (KeyStorageWindows sq wn) rnd' lib junk' c CIPHER_MODE_CBC4K name k1 = (Inr P, k2)"
proof -
  have key: "valid_key key" "sql_text (base64_encode key)" using assms(4) encoded_sql_text [of key] by (simp_all add: valid_key_def)
  show ?thesis
    by (rule windows_keys.auto_key_both [where view = view and key = key]) (use assms key in simp_all)
qed

text \<open>A name with a quote in it becomes part of the statement: this one removes every key.\<close>

lemma remove_injected:
  "RemoveQuery ([CHR 0x27] @ '' OR 1=1 OR csKeyWrapper='' @ [CHR 0x27]) TableName =
   ''DELETE FROM MSIPCKeyStorage WHERE csKeyWrapper='' @ [CHR 0x27, CHR 0x27] @ '' OR 1=1 OR csKeyWrapper='' @ [CHR 0x27, CHR 0x27] @ '';''"
  by (simp add: RemoveQuery_def TableName_def KeyWrapperColumn_def)

text \<open>A database in memory that reads the statements.\<close>

definition store_head :: string where
  "store_head = ''INSERT OR REPLACE INTO MSIPCKeyStorage VALUES('' @ quote_sign"

definition lookup_head :: string where
  "lookup_head = ''SELECT csKey FROM MSIPCKeyStorage WHERE csKeyWrapper='' @ quote_sign"

definition literal :: "string \<Rightarrow> string" where
  "literal q = takeWhile (\<lambda>c. c \<noteq> CHR 0x27) q"

definition memory_sqlite :: "(string \<Rightarrow> string option) sqlite" where
  "memory_sqlite =
     \<lparr>sqlite3_open16 = (\<lambda>f d. (0, d)),
      sqlite3_exec = (\<lambda>q d.
        if take (length store_head) q = store_head
        then (let r = drop (length store_head) q; n = literal r in (0, d(n \<mapsto> literal (drop (length n + 3) r))))
        else (0, d)),
      sqlite3_get_table = (\<lambda>q d.
        (case d (literal (drop (length lookup_head) q)) of
           None \<Rightarrow> (0, 0, 0, []) | Some v \<Rightarrow> (0, 1, 1, [Some ''csKey'', Some v]), d))\<rparr>"

definition sample_windows :: windows where
  "sample_windows = \<lparr>win_size = 4, win_value = Some ''C:?'', win_CreateDirectory = (\<lambda>p. True), win_GetLastError = 0,
     win_error_text = [], win_junk_code = 0\<rparr>"

lemma literal_quoted: "sql_text n \<Longrightarrow> literal (n @ CHR 0x27 # r) = n"
  unfolding literal_def sql_text_def list_all_iff by (subst takeWhile_append2) auto

lemma memory_sqlite_ok: "sqlite_ok memory_sqlite (\<lambda>d. d)"
proof -
  have c: "take (length store_head)
      ''CREATE TABLE IF NOT EXISTS MSIPCKeyStorage (csKeyWrapper STRING PRIMARY KEY, csKey STRING);'' \<noteq> store_head"
    by (simp add: store_head_def)
  have q: "''INSERT OR REPLACE INTO MSIPCKeyStorage VALUES('' @ quote_sign @ n @ quote_sign @ '','' @ quote_sign @ v @ quote_sign @ '');'' =
      store_head @ n @ CHR 0x27 # CHR '','' # CHR 0x27 # v @ CHR 0x27 # '');''" for n v
    by (simp add: store_head_def)
  have l: "''SELECT csKey FROM MSIPCKeyStorage WHERE csKeyWrapper='' @ quote_sign @ n @ quote_sign @ '';'' =
      lookup_head @ n @ CHR 0x27 # '';''" for n
    by (simp add: lookup_head_def)
  show ?thesis unfolding sqlite_ok_def q l
    by (intro conjI allI impI) (auto simp: c literal_quoted memory_sqlite_def Let_def split: option.split)
qed

lemma default_sql_text: "sql_text ''default''"
  by code_simp

theorem windows_auto_key_roundtrip_witness:
  "\<exists>c k1 k2.
    EncryptWithAutoKey (Suc 0) (KeyStorageWindows memory_sqlite sample_windows) (1, replicate 16 7) xor_evp 0 [1, 2, 3]
      CIPHER_MODE_CBC4K ''default'' \<lparr>kd_made = False, kd_db = Map.empty\<rparr> = (Inr c, k1) \<and>
    DecryptWithAutoKey (Suc 0) (KeyStorageWindows memory_sqlite sample_windows) (0, []) xor_evp 0 c
      CIPHER_MODE_CBC4K ''default'' k1 = (Inr [1, 2, 3], k2)"
  by (rule windows_auto_key_roundtrip [OF xor_evp_ok memory_sqlite_ok, where key = "replicate 16 7"])
    (simp_all add: key_after_def CBC4K_BLOCK_SIZE_def windows_ok_def sample_windows_def default_sql_text)

end
