(* ===== verification/RestObjects.thy ===== *)
theory RestObjects
  imports Tools
begin

text \<open>
  The data that the REST clients hand to the policies
  (\<open>sdk/rms_sdk/RestClients/RestObjects.h\<close>) and the application data maps of
  \<open>ModernAPI/PolicyDescriptor.h\<close>.
\<close>

type_synonym AppDataHashMap = "string \<Rightarrow> string option"

record UserRightsImpl =
  ur_users :: "string list"
  ur_rights :: "string list"

record UserRolesImpl =
  uo_users :: "string list"
  uo_roles :: "string list"

record KeyDetailsResponse =
  kd_value :: "byte list"
  kd_algorithm :: string
  kd_cipherMode :: string

record CustomPolicyResponse =
  cu_bIsNull :: bool
  cu_bAllowAuditedExtraction :: bool
  cu_userRightsList :: "UserRightsImpl list"
  cu_userRolesList :: "UserRolesImpl list"

record UsageRestrictionsResponse =
  us_accessStatus :: string
  us_id :: string
  us_name :: string
  us_description :: string
  us_referrer :: string
  us_owner :: string
  us_key :: KeyDetailsResponse
  us_rights :: "string list"
  us_roles :: "string list"
  us_issuedTo :: string
  us_ftContentValidUntil :: time_point
  us_ftLicenseValidUntil :: time_point
  us_contentValidUntil :: string
  us_licenseValidUntil :: string
  us_bAllowOfflineAccess :: bool
  us_bFromTemplate :: bool
  us_contentId :: string
  us_customPolicy :: CustomPolicyResponse
  us_signedApplicationData :: AppDataHashMap
  us_encryptedApplicationData :: AppDataHashMap

record PublishUsingTemplateRequest =
  pt_bPreferDeprecatedAlgorithms :: bool
  pt_bAllowAuditedExtraction :: bool
  pt_templateId :: string
  pt_signedApplicationData :: AppDataHashMap

record PublishCustomRequest =
  pc_bPreferDeprecatedAlgorithms :: bool
  pc_bAllowAuditedExtraction :: bool
  pc_wsReferralInfo :: string
  pc_name :: string
  pc_description :: string
  pc_language :: string
  pc_userRightsList :: "UserRightsImpl list"
  pc_userRolesList :: "UserRolesImpl list"
  pc_bAllowOfflineAccess :: bool
  pc_ftLicenseValidUntil :: time_point
  pc_signedApplicationData :: AppDataHashMap
  pc_encryptedApplicationData :: AppDataHashMap

record PublishResponse =
  pb_serializedLicense :: "byte list"
  pb_id :: string
  pb_name :: string
  pb_description :: string
  pb_referrer :: string
  pb_owner :: string
  pb_key :: KeyDetailsResponse
  pb_contentId :: string
  pb_signedApplicationData :: AppDataHashMap
  pb_encryptedApplicationData :: AppDataHashMap

end
