(* ===== verification/ProtectionPolicy.thy ===== *)
theory ProtectionPolicy
  imports RestObjects CryptoAPI
begin

text \<open>
  The protection policy (\<open>sdk/rms_sdk/Core/ProtectionPolicy.cpp\<close>): how a policy is filled
  from the answer of a service, its validity, its access check, and the list of the policies
  used most recently that is searched before a service is asked. The services, OpenSSL and
  the system clock are parameters; \<open>junk\<close> is the policy that the memory of a new one happens
  to hold, which the fields without an initialiser keep. The policies are immutable once
  they are shared, so the list holds them by value. Its mutex is taken by no two of the
  calls at once here and left out.
\<close>

section \<open>The policy\<close>

datatype AccessStatus =
    ACCESS_STATUS_ACCESS_GRANTED
  | ACCESS_STATUS_ACCESS_DENIED
  | ACCESS_STATUS_ACCESS_EXPIRED

record ProtectionPolicy =
  pp_accessStatus :: AccessStatus
  pp_id :: string
  pp_name :: string
  pp_description :: string
  pp_owner :: string
  pp_referrer :: string
  pp_issuedTo :: string
  pp_contentId :: string
  pp_requester :: string
  pp_ftValidityTimeFrom :: time_point
  pp_ftValidityTimeUntil :: time_point
  pp_bAllowOfflineAccess :: bool
  pp_bFromTemplate :: bool
  pp_rights :: "string list"
  pp_roles :: "string list"
  pp_publishLicense :: "byte list"
  pp_cipherMode :: CipherMode
  pp_pCryptoProvider :: "ICryptoProvider option"
  pp_bAllowAuditedExtraction :: bool
  pp_bHasUserRightsInformation :: bool
  pp_userRightsList :: "UserRightsImpl list"
  pp_userRolesList :: "UserRolesImpl list"
  pp_signedApplicationData :: AppDataHashMap
  pp_encryptedApplicationData :: AppDataHashMap

text \<open>
  The constructor sets three fields and the two times; strings, lists and maps start empty.
  The cipher mode and two flags have no initialiser.
\<close>

definition ProtectionPolicy_create :: "ProtectionPolicy \<Rightarrow> ProtectionPolicy" where
  "ProtectionPolicy_create junk = junk
     \<lparr>pp_accessStatus := ACCESS_STATUS_ACCESS_DENIED, pp_id := [], pp_name := [], pp_description := [],
      pp_owner := [], pp_referrer := [], pp_issuedTo := [], pp_contentId := [], pp_requester := [],
      pp_ftValidityTimeFrom := epoch, pp_ftValidityTimeUntil := epoch, pp_bAllowOfflineAccess := False,
      pp_bFromTemplate := False, pp_rights := [], pp_roles := [], pp_publishLicense := [],
      pp_pCryptoProvider := None, pp_userRightsList := [], pp_userRolesList := [],
      pp_signedApplicationData := Map.empty, pp_encryptedApplicationData := Map.empty\<rparr>"

definition MapAccessStatus :: "string \<Rightarrow> exn + AccessStatus" where
  "MapAccessStatus accessStatus =
     (if stricmp_eq ''AccessGranted'' accessStatus then Inr ACCESS_STATUS_ACCESS_GRANTED
      else if stricmp_eq ''AccessDenied'' accessStatus then Inr ACCESS_STATUS_ACCESS_DENIED
      else if stricmp_eq ''ContentExpired'' accessStatus then Inr ACCESS_STATUS_ACCESS_EXPIRED
      else Inl (RMSNetworkException
        (''Got an invalid AccessStatus ('' @ c_str accessStatus @ '') from the server.'') ServerError))"

definition MapCipherMode :: "string \<Rightarrow> exn + CipherMode" where
  "MapCipherMode cipherMode =
     (if stricmp_eq ''MICROSOFT.CBC4K'' cipherMode then Inr CIPHER_MODE_CBC4K
      else if stricmp_eq ''MICROSOFT.CBC512.NOPADDING'' cipherMode then Inr CIPHER_MODE_CBC512NOPADDING
      else if stricmp_eq ''MICROSOFT.ECB'' cipherMode then Inr CIPHER_MODE_ECB
      else Inl (RMSNetworkException
        (''Got an invalid CipherMode ('' @ c_str cipherMode @ '') from the server.'') ServerError))"

text \<open>
  What OpenSSL provides: the ciphers and the base64 decoder. The clause
  \<open>catch (exceptions::RMSException)\<close> sees the exceptions of the RMS layer only.
\<close>

record openssl =
  ossl_evp :: evp
  ossl_decode :: "byte list \<Rightarrow> byte list option"

definition bad_key_exn :: exn where
  "bad_key_exn = RMSNetworkException ''Got an invalid base64 as a key value from the server.'' ServerError"

definition pp_InitializeKey :: "openssl \<Rightarrow> KeyDetailsResponse \<Rightarrow> (exn, ProtectionPolicy, unit) sx" where
  "pp_InitializeKey lib response =
     (if kd_value response = []
      then throw (RMSInvalidArgumentException
        ''Got an invalid response from the server : access is granted but the key is empty.'')
      else catchx
        (bnd (liftE (ConvertBase64ToBytes (ossl_decode lib) (kd_value response))) (\<lambda>key.
         bnd (liftE (MapCipherMode (kd_cipherMode response))) (\<lambda>mode.
         seqx (modify (\<lambda>p. p\<lparr>pp_cipherMode := mode\<rparr>))
         (bnd (liftE (CreateCryptoProvider (ossl_evp lib) mode key)) (\<lambda>cp.
           modify (\<lambda>p. p\<lparr>pp_pCryptoProvider := Some cp\<rparr>))))))
        (\<lambda>e. throw (if is_rms e then bad_key_exn else e)))"

definition pp_ReinitilizeCryptoProvider :: "openssl \<Rightarrow> CipherMode \<Rightarrow> (exn, ProtectionPolicy, unit) sx" where
  "pp_ReinitilizeCryptoProvider lib cipherMode =
     bnd (gets pp_pCryptoProvider) (\<lambda>cp.
       case cp of None \<Rightarrow> throw NullDereference
       | Some c \<Rightarrow> seqx (modify (\<lambda>p. p\<lparr>pp_cipherMode := cipherMode\<rparr>))
          (bnd (liftE (CreateCryptoProvider (ossl_evp lib) cipherMode (cp_GetKey c))) (\<lambda>c'.
            modify (\<lambda>p. p\<lparr>pp_pCryptoProvider := Some c'\<rparr>))))"

section \<open>Validity\<close>

definition pp_InitializeValidityTime :: "time_point \<Rightarrow> time_point \<Rightarrow> ProtectionPolicy \<Rightarrow> ProtectionPolicy" where
  "pp_InitializeValidityTime now ftContentValidUntil p =
     (if 0 < to_time_t ftContentValidUntil
      then p\<lparr>pp_ftValidityTimeFrom := now, pp_ftValidityTimeUntil := ftContentValidUntil\<rparr>
      else p\<lparr>pp_ftValidityTimeFrom := epoch, pp_ftValidityTimeUntil := epoch\<rparr>)"

definition daysTo :: "time_point \<Rightarrow> time_point \<Rightarrow> int" where
  "daysTo l r = trunc_div (trunc_div (l - r) (3600 * 1000000000)) 24"

definition msecsTo :: "time_point \<Rightarrow> time_point \<Rightarrow> int" where
  "msecsTo l r = trunc_div (l - r) 1000000"

definition pp_InitializeIntervalTime :: "time_point \<Rightarrow> time_point \<Rightarrow> ProtectionPolicy \<Rightarrow> ProtectionPolicy" where
  "pp_InitializeIntervalTime now ftLicenseValidUntil p =
     (if 0 < to_time_t ftLicenseValidUntil \<and> daysTo (pp_ftValidityTimeUntil p) ftLicenseValidUntil \<noteq> 0 \<and>
         daysTo ftLicenseValidUntil now \<le> 0
      then p\<lparr>pp_bAllowOfflineAccess := False\<rparr> else p)"

text \<open>The number of milliseconds is returned as a \<open>uint64_t\<close>.\<close>

definition pp_GetValidityTimeDuration :: "ProtectionPolicy \<Rightarrow> nat" where
  "pp_GetValidityTimeDuration p =
     nat (msecsTo (pp_ftValidityTimeFrom p) (pp_ftValidityTimeUntil p) mod 2 ^ 64)"

section \<open>Filling a policy\<close>

definition pp_fill :: "UsageRestrictionsResponse \<Rightarrow> ProtectionPolicy \<Rightarrow> ProtectionPolicy" where
  "pp_fill r p = p
     \<lparr>pp_id := us_id r, pp_name := us_name r, pp_description := us_description r, pp_owner := us_owner r,
      pp_referrer := us_referrer r, pp_rights := us_rights r, pp_issuedTo := us_issuedTo r,
      pp_contentId := us_contentId r, pp_bAllowOfflineAccess := us_bAllowOfflineAccess r,
      pp_bFromTemplate := us_bFromTemplate r\<rparr>"

definition pp_fill_custom :: "UsageRestrictionsResponse \<Rightarrow> ProtectionPolicy \<Rightarrow> ProtectionPolicy" where
  "pp_fill_custom r p =
     (let q = (if us_roles r \<noteq> [] then p\<lparr>pp_roles := us_roles r\<rparr> else p);
          c = us_customPolicy r;
          u = (if \<not> cu_bIsNull c
               then q\<lparr>pp_userRightsList := pp_userRightsList q @ cu_userRightsList c,
                      pp_bHasUserRightsInformation := True,
                      pp_userRolesList := pp_userRolesList q @ cu_userRolesList c\<rparr>
               else q\<lparr>pp_userRightsList := [], pp_userRolesList := [], pp_bHasUserRightsInformation := False\<rparr>)
      in u\<lparr>pp_signedApplicationData := us_signedApplicationData r,
           pp_encryptedApplicationData := us_encryptedApplicationData r\<rparr>)"

text \<open>The clock is read twice: \<open>now\<close> and then \<open>now'\<close>.\<close>

definition pp_Initialize ::
  "openssl \<Rightarrow> time_point \<Rightarrow> time_point \<Rightarrow> byte list \<Rightarrow> UsageRestrictionsResponse \<Rightarrow>
   (exn, ProtectionPolicy, unit) sx" where
  "pp_Initialize lib now now' pbPublishLicense response =
     bnd (liftE (MapAccessStatus (us_accessStatus response))) (\<lambda>status.
     seqx (modify (\<lambda>p. pp_fill response (p\<lparr>pp_accessStatus := status\<rparr>)))
     (seqx (modify (\<lambda>p. pp_InitializeIntervalTime now' (us_ftLicenseValidUntil response)
        (pp_InitializeValidityTime now (us_ftContentValidUntil response) p)))
     (seqx (modify (pp_fill_custom response))
     (seqx (if status = ACCESS_STATUS_ACCESS_GRANTED then pp_InitializeKey lib (us_key response) else ret ())
       (modify (\<lambda>p. p\<lparr>pp_publishLicense := pbPublishLicense\<rparr>))))))"

definition pp_InitializePublished ::
  "openssl \<Rightarrow> PublishResponse \<Rightarrow> bool \<Rightarrow> bool \<Rightarrow> AppDataHashMap \<Rightarrow> AppDataHashMap \<Rightarrow>
   (exn, ProtectionPolicy, unit) sx" where
  "pp_InitializePublished lib r bAllowAuditedExtraction bAllowOfflineAccess signedData encryptedData =
     seqx (modify (\<lambda>p. p
       \<lparr>pp_accessStatus := ACCESS_STATUS_ACCESS_GRANTED, pp_id := pb_id r, pp_name := pb_name r,
        pp_description := pb_description r, pp_owner := pb_owner r, pp_referrer := pb_referrer r,
        pp_rights := [''OWNER''], pp_issuedTo := pb_owner r, pp_contentId := pb_contentId r,
        pp_ftValidityTimeFrom := epoch, pp_ftValidityTimeUntil := epoch,
        pp_bAllowOfflineAccess := bAllowOfflineAccess,
        pp_bAllowAuditedExtraction := bAllowAuditedExtraction\<rparr>))
     (seqx (pp_InitializeKey lib (pb_key r))
       (modify (\<lambda>p. p\<lparr>pp_publishLicense := pb_serializedLicense r,
          pp_signedApplicationData := signedData, pp_encryptedApplicationData := encryptedData\<rparr>)))"

section \<open>Questions to a policy\<close>

definition pp_AccessCheck :: "ProtectionPolicy \<Rightarrow> string \<Rightarrow> bool" where
  "pp_AccessCheck p right =
     list_ex (\<lambda>grantedRight. stricmp_eq ''OWNER'' grantedRight \<or> stricmp_eq right grantedRight) (pp_rights p)"

definition pp_IsIssuedToOwner :: "ProtectionPolicy \<Rightarrow> bool" where
  "pp_IsIssuedToOwner p = stricmp_eq (pp_owner p) (pp_issuedTo p)"

definition pp_IsAdhoc :: "ProtectionPolicy \<Rightarrow> bool" where
  "pp_IsAdhoc p = (\<not> pp_bFromTemplate p)"

end
