(* ===== verification/PolicyCache.thy ===== *)
theory PolicyCache
  imports ProtectionPolicy
begin

text \<open>
  The list of the policies used most recently and the two ways to get a policy
  (\<open>sdk/rms_sdk/Core/ProtectionPolicy.cpp\<close>): \<open>Acquire\<close>, which asks the list and then the
  usage restrictions service, and \<open>Create\<close>, which publishes a new one. The services are
  functions from a request to an answer or an exception.
\<close>

section \<open>The list\<close>

type_synonym PolicyCache = "ProtectionPolicy list option"

definition policy_matches :: "byte list \<Rightarrow> string \<Rightarrow> ProtectionPolicy \<Rightarrow> bool" where
  "policy_matches pl requester p \<longleftrightarrow> pp_publishLicense p = pl \<and>
     (requester \<noteq> [] \<longrightarrow> to_lower_string requester = to_lower_string (pp_requester p))"

definition GetCachedProtectionPolicy ::
  "byte list option \<Rightarrow> string \<Rightarrow> (exn, PolicyCache, ProtectionPolicy) sx" where
  "GetCachedProtectionPolicy pbPublishLicense requester c =
     (case pbPublishLicense of
        None \<Rightarrow> (Inl (RMSNullPointerException ''NULL pointer exception''), c)
      | Some pl \<Rightarrow>
          (case c of
             None \<Rightarrow> (Inl (RMSNotFoundException ''No cached policy found''), c)
           | Some ps \<Rightarrow>
               (case dropWhile (\<lambda>p. \<not> policy_matches pl requester p) ps of
                  [] \<Rightarrow> (Inl (RMSNotFoundException ''No cached policy found''), c)
                | p # after \<Rightarrow>
                    (Inr p, Some (p # takeWhile (\<lambda>p. \<not> policy_matches pl requester p) ps @ after)))))"

definition dwMaxCacheEntries :: nat where
  "dwMaxCacheEntries = 32"

definition AddProtectionPolicyToCache :: "ProtectionPolicy \<Rightarrow> PolicyCache \<Rightarrow> PolicyCache" where
  "AddProtectionPolicyToCache p c =
     (let ps = p # (case c of None \<Rightarrow> [] | Some l \<Rightarrow> l)
      in Some (if dwMaxCacheEntries < length ps then butlast ps else ps))"

section \<open>Acquiring a policy\<close>

definition RESPONSE_CACHE_INMEMORY :: nat where
  "RESPONSE_CACHE_INMEMORY = 1"

definition in_memory :: "nat \<Rightarrow> bool" where
  "in_memory cacheMask \<longleftrightarrow> cacheMask div RESPONSE_CACHE_INMEMORY mod 2 = 1"

definition pp_Acquire ::
  "openssl \<Rightarrow> time_point \<Rightarrow> time_point \<Rightarrow> ProtectionPolicy \<Rightarrow>
   (byte list \<Rightarrow> string \<Rightarrow> bool \<Rightarrow> nat \<Rightarrow> exn + UsageRestrictionsResponse) \<Rightarrow>
   byte list option \<Rightarrow> string \<Rightarrow> bool \<Rightarrow> nat \<Rightarrow> (exn, PolicyCache, ProtectionPolicy) sx" where
  "pp_Acquire lib now now' junk client pbPublishLicense email bOffline cacheMask =
     (case pbPublishLicense of
        None \<Rightarrow> throw (RMSNullPointerException ''pbPublishLicense is null pointer'')
      | Some pl \<Rightarrow>
          catchx (GetCachedProtectionPolicy (Some pl) email)
            (\<lambda>e. if is_rms e
              then bnd (liftE (client pl email bOffline cacheMask)) (\<lambda>response.
                bnd (liftE (case pp_Initialize lib now now' pl response (ProtectionPolicy_create junk) of
                       (Inl x, p) \<Rightarrow> Inl x | (Inr u, p) \<Rightarrow> Inr (p\<lparr>pp_requester := email\<rparr>))) (\<lambda>policy.
                seqx (if in_memory cacheMask then modify (AddProtectionPolicyToCache policy) else ret ())
                  (ret policy)))
              else throw e))"

section \<open>Creating a policy\<close>

definition pp_CreateFromTemplate ::
  "openssl \<Rightarrow> ProtectionPolicy \<Rightarrow> (PublishUsingTemplateRequest \<Rightarrow> string \<Rightarrow> exn + PublishResponse) \<Rightarrow>
   bool \<Rightarrow> bool \<Rightarrow> string \<Rightarrow> string \<Rightarrow> AppDataHashMap \<Rightarrow> exn + ProtectionPolicy" where
  "pp_CreateFromTemplate lib junk publish bPreferDeprecatedAlgorithms bAllowAuditedExtraction templateId email
      signedAppData =
     bindE (publish \<lparr>pt_bPreferDeprecatedAlgorithms = bPreferDeprecatedAlgorithms,
              pt_bAllowAuditedExtraction = bAllowAuditedExtraction, pt_templateId = templateId,
              pt_signedApplicationData = signedAppData\<rparr> email) (\<lambda>response.
       case pp_InitializePublished lib response bAllowAuditedExtraction True
              (pb_signedApplicationData response) Map.empty (ProtectionPolicy_create junk) of
         (Inl x, p) \<Rightarrow> Inl x | (Inr u, p) \<Rightarrow> Inr p)"

record PolicyDescriptorImpl =
  pd_name :: string
  pd_description :: string
  pd_userRightsList :: "UserRightsImpl list"
  pd_userRolesList :: "UserRolesImpl list"
  pd_ftContentValidUntil :: time_point
  pd_bAllowOfflineAccess :: bool
  pd_referrer :: string
  pd_signedApplicationData :: AppDataHashMap
  pd_encryptedApplicationData :: AppDataHashMap

definition empty_args :: exn where
  "empty_args = RMSInvalidArgumentException ''Got an invalid response from the server : args are empty.''"

definition replace_char :: "char \<Rightarrow> char \<Rightarrow> string \<Rightarrow> string" where
  "replace_char a b s = map (\<lambda>c. if c = a then b else c) s"

definition custom_request ::
  "string \<Rightarrow> bool \<Rightarrow> bool \<Rightarrow> PolicyDescriptorImpl \<Rightarrow> exn + PublishCustomRequest" where
  "custom_request locale_name bPreferDeprecatedAlgorithms bAllowAuditedExtraction descriptor =
     (let request = \<lparr>pc_bPreferDeprecatedAlgorithms = bPreferDeprecatedAlgorithms,
            pc_bAllowAuditedExtraction = bAllowAuditedExtraction, pc_wsReferralInfo = pd_referrer descriptor,
            pc_name = pd_name descriptor, pc_description = pd_description descriptor,
            pc_language = replace_char (CHR ''_'') (CHR ''-'') locale_name,
            pc_userRightsList = [], pc_userRolesList = [],
            pc_bAllowOfflineAccess = pd_bAllowOfflineAccess descriptor,
            pc_ftLicenseValidUntil = pd_ftContentValidUntil descriptor,
            pc_signedApplicationData = pd_signedApplicationData descriptor,
            pc_encryptedApplicationData = pd_encryptedApplicationData descriptor\<rparr>
      in if pd_userRightsList descriptor \<noteq> []
         then if list_ex (\<lambda>r. ur_users r = [] \<or> ur_rights r = []) (pd_userRightsList descriptor) then Inl empty_args
              else Inr (request\<lparr>pc_userRightsList := pd_userRightsList descriptor\<rparr>)
         else if list_ex (\<lambda>r. uo_users r = [] \<or> uo_roles r = []) (pd_userRolesList descriptor) then Inl empty_args
              else Inr (request\<lparr>pc_userRolesList := pd_userRolesList descriptor\<rparr>))"

definition pp_CreateCustom ::
  "openssl \<Rightarrow> string \<Rightarrow> ProtectionPolicy \<Rightarrow> (PublishCustomRequest \<Rightarrow> string \<Rightarrow> exn + PublishResponse) \<Rightarrow>
   bool \<Rightarrow> bool \<Rightarrow> PolicyDescriptorImpl \<Rightarrow> string \<Rightarrow> (exn, PolicyCache, ProtectionPolicy) sx" where
  "pp_CreateCustom lib locale_name junk publish bPreferDeprecatedAlgorithms bAllowAuditedExtraction descriptor email =
     (if pd_userRightsList descriptor = [] \<and> pd_userRolesList descriptor = [] then throw empty_args
      else bnd (liftE (custom_request locale_name bPreferDeprecatedAlgorithms bAllowAuditedExtraction descriptor))
       (\<lambda>request.
        bnd (liftE (publish request email)) (\<lambda>response.
        bnd (liftE (case pp_InitializePublished lib response bAllowAuditedExtraction
                           (pd_bAllowOfflineAccess descriptor) (pc_signedApplicationData request)
                           (pc_encryptedApplicationData request) (ProtectionPolicy_create junk) of
               (Inl x, p) \<Rightarrow> Inl x | (Inr u, p) \<Rightarrow> Inr (p\<lparr>pp_requester := email\<rparr>))) (\<lambda>policy.
        seqx (modify (AddProtectionPolicyToCache policy)) (ret policy)))))"

section \<open>The list as a state machine\<close>

datatype CacheOp = LookUp "byte list option" string | Insert ProtectionPolicy

inductive cache_step :: "PolicyCache \<Rightarrow> CacheOp \<Rightarrow> PolicyCache \<Rightarrow> bool" where
  look_up: "GetCachedProtectionPolicy pl requester c = (r, c') \<Longrightarrow> cache_step c (LookUp pl requester) c'"
| insert_policy: "cache_step c (Insert p) (AddProtectionPolicyToCache p c)"

inductive cache_run :: "PolicyCache \<Rightarrow> CacheOp list \<Rightarrow> PolicyCache \<Rightarrow> bool" where
  done_: "cache_run c [] c"
| step: "cache_step c x d \<Longrightarrow> cache_run d xs e \<Longrightarrow> cache_run c (x # xs) e"

inductive_cases cache_stepE: "cache_step c x d"
inductive_simps cache_run_Nil [simp]: "cache_run c [] d"
inductive_simps cache_run_Cons: "cache_run c (x # xs) d"

definition entries :: "PolicyCache \<Rightarrow> ProtectionPolicy list" where
  "entries c = (case c of None \<Rightarrow> [] | Some ps \<Rightarrow> ps)"

text \<open>A lookup either leaves the list alone or moves the policy it finds to the front.\<close>

lemma lookup_entries:
  assumes "GetCachedProtectionPolicy pl requester c = (r, d)"
  obtains (same) "entries d = entries c"
    | (moved) p xs ys where "entries c = xs @ p # ys" "entries d = p # xs @ ys"
proof (cases "\<exists>l ps p after. pl = Some l \<and> c = Some ps \<and>
    dropWhile (\<lambda>p. \<not> policy_matches l requester p) ps = p # after")
  case True
  then obtain l ps p after where *: "pl = Some l" "c = Some ps"
      "dropWhile (\<lambda>p. \<not> policy_matches l requester p) ps = p # after" by blast
  let ?xs = "takeWhile (\<lambda>p. \<not> policy_matches l requester p) ps"
  have "?xs @ p # after = ps" using *(3) takeWhile_dropWhile_id [of "\<lambda>p. \<not> policy_matches l requester p" ps] by simp
  then show ?thesis
    using * assms by (intro moved [of ?xs p after]) (auto simp: GetCachedProtectionPolicy_def entries_def)
next
  case False
  then have "d = c"
    using assms by (auto simp: GetCachedProtectionPolicy_def split: option.splits list.splits)
  then show ?thesis by (intro same) simp
qed

definition bounded :: "PolicyCache \<Rightarrow> bool" where
  "bounded c \<longleftrightarrow> length (entries c) \<le> dwMaxCacheEntries"

lemma insert_bounded:
  "bounded c \<Longrightarrow> entries (AddProtectionPolicyToCache p c) = take dwMaxCacheEntries (p # entries c)"
proof -
  assume b: "bounded c"
  let ?ps = "p # entries c"
  have "entries (AddProtectionPolicyToCache p c) = (if dwMaxCacheEntries < length ?ps then butlast ?ps else ?ps)"
    by (cases c) (simp_all add: AddProtectionPolicyToCache_def entries_def Let_def)
  moreover have "length ?ps \<le> Suc dwMaxCacheEntries" using b by (simp add: bounded_def)
  ultimately show ?thesis
    by (cases "length (entries c) = dwMaxCacheEntries") (auto simp: butlast_conv_take)
qed

lemma step_bounded: "cache_step c x d \<Longrightarrow> bounded c \<Longrightarrow> bounded d"
proof (induction rule: cache_step.induct)
  case (look_up pl requester c r c')
  from look_up.hyps show ?case
    by (cases rule: lookup_entries) (use look_up.prems in \<open>simp_all add: bounded_def\<close>)
next
  case (insert_policy c p)
  then show ?case by (simp add: bounded_def [of "AddProtectionPolicyToCache p c"] insert_bounded)
qed

lemma step_entries:
  "cache_step c x d \<Longrightarrow> bounded c \<Longrightarrow>
   set (entries d) \<subseteq> set (entries c) \<union> (case x of Insert p \<Rightarrow> {p} | LookUp pl r \<Rightarrow> {})"
proof (induction rule: cache_step.induct)
  case (look_up pl requester c r c')
  from look_up.hyps show ?case by (cases rule: lookup_entries) auto
next
  case (insert_policy c p)
  then show ?case using set_take_subset [of dwMaxCacheEntries "p # entries c"] by (simp add: insert_bounded)
qed

text \<open>One operation moves a policy back by at most one place, and drops it only from the last.\<close>

lemma step_index:
  assumes "cache_step c x d" and "bounded c" and "i < length (entries c)" and "Suc i < dwMaxCacheEntries"
  shows "\<exists>j \<le> Suc i. j < length (entries d) \<and> entries d ! j = entries c ! i"
  using assms
proof (induction rule: cache_step.induct)
  case (look_up pl requester c r c')
  from look_up.hyps show ?case
  proof (cases rule: lookup_entries)
    case same
    then show ?thesis using look_up.prems by (intro exI [of _ i]) simp
  next
    case (moved p xs ys)
    consider "i < length xs" | "i = length xs" | "length xs < i" by linarith
    then show ?thesis
    proof cases
      case 1
      then show ?thesis using moved look_up.prems by (intro exI [of _ "Suc i"]) (simp add: nth_append)
    next
      case 2
      then show ?thesis using moved look_up.prems by (intro exI [of _ 0]) simp
    next
      case 3
      then obtain k where "i = length xs + Suc k" using less_imp_Suc_add by fastforce
      then show ?thesis using moved look_up.prems by (intro exI [of _ i]) (simp add: nth_append)
    qed
  qed
next
  case (insert_policy c p)
  then show ?case by (intro exI [of _ "Suc i"]) (simp add: insert_bounded)
qed

lemma run_bounded: "cache_run c xs d \<Longrightarrow> bounded c \<Longrightarrow> bounded d"
  by (induction rule: cache_run.induct) (auto intro: step_bounded)

lemma run_index:
  assumes "cache_run c xs d" and "bounded c" and "i < length (entries c)" and "i + length xs < dwMaxCacheEntries"
  shows "\<exists>j \<le> i + length xs. j < length (entries d) \<and> entries d ! j = entries c ! i"
  using assms
proof (induction arbitrary: i rule: cache_run.induct)
  case (done_ c)
  then show ?case by auto
next
  case (step c x d xs e)
  obtain j where j: "j \<le> Suc i" "j < length (entries d)" "entries d ! j = entries c ! i"
    using step_index [OF step.hyps(1) step.prems(1,2)] step.prems(3) by auto
  then have "j + length xs < dwMaxCacheEntries" using step.prems(3) by simp
  then obtain k where "k \<le> j + length xs" "k < length (entries e)" "entries e ! k = entries c ! i"
    using step.IH [OF step_bounded [OF step.hyps(1) step.prems(1)] j(2)] j(3) by auto
  then show ?case using j(1) by (intro exI [of _ k]) simp
qed

text \<open>The look-up answers with the first policy that matches.\<close>

lemma lookup_finds:
  assumes "j < length ps" and "policy_matches pl requester (ps ! j)"
  shows "\<exists>i \<le> j. \<exists>d. GetCachedProtectionPolicy (Some pl) requester (Some ps) = (Inr (ps ! i), d) \<and>
    policy_matches pl requester (ps ! i) \<and> (\<forall>m < i. \<not> policy_matches pl requester (ps ! m))"
proof -
  let ?P = "\<lambda>p. \<not> policy_matches pl requester p"
  define front where "front = takeWhile ?P ps"
  have front: "\<not> policy_matches pl requester (front ! m)" if "m < length front" for m
    using nth_mem [OF that] unfolding front_def by (auto dest: set_takeWhileD)
  obtain q after where q: "dropWhile ?P ps = q # after"
    using assms nth_mem [OF assms(1)] by (cases "dropWhile ?P ps") (auto simp: dropWhile_eq_Nil_conv)
  then have ps: "ps = front @ q # after" unfolding front_def by (metis takeWhile_dropWhile_id)
  have "policy_matches pl requester q" using q hd_dropWhile [of ?P ps] by simp
  moreover have "length front \<le> j" using front [of j] assms(2) ps by (metis nth_append not_le_imp_less)
  moreover have "\<forall>m < length front. \<not> policy_matches pl requester (ps ! m)" using front ps by (simp add: nth_append)
  ultimately show ?thesis
    using q ps by (intro exI [of _ "length front"]) (simp add: GetCachedProtectionPolicy_def)
qed

section \<open>Properties\<close>

text \<open>
  C37: whatever sequence of lookups and insertions the list has gone through since the
  start, it holds at most 32 policies, and none that was not inserted.
\<close>

theorem policy_cache_invariant:
  assumes "cache_run None ops c"
  shows "length (entries c) \<le> dwMaxCacheEntries \<and> Insert ` set (entries c) \<subseteq> set ops"
proof -
  have "bounded d \<and> set (entries d) \<subseteq> set (entries c) \<union> {p. Insert p \<in> set xs}"
    if "cache_run c xs d" "bounded c" for c xs d
    using that
  proof (induction rule: cache_run.induct)
    case (step c x d xs e)
    have "set (entries d) \<subseteq> set (entries c) \<union> {p. Insert p \<in> set (x # xs)}"
      using step_entries [OF step.hyps(1) step.prems] by (cases x) auto
    then show ?case using step.IH [OF step_bounded [OF step.hyps(1) step.prems]] by auto
  qed simp
  from this [OF assms] show ?thesis by (auto simp: bounded_def entries_def)
qed

definition sample_policy :: ProtectionPolicy where
  "sample_policy =
     \<lparr>pp_accessStatus = ACCESS_STATUS_ACCESS_GRANTED, pp_id = ''1'', pp_name = ''n'', pp_description = [],
      pp_owner = ''Ann@x.org'', pp_referrer = [], pp_issuedTo = ''ann@X.ORG'', pp_contentId = ''c'',
      pp_requester = ''Ann@x.org'', pp_ftValidityTimeFrom = 0, pp_ftValidityTimeUntil = 0,
      pp_bAllowOfflineAccess = True, pp_bFromTemplate = False, pp_rights = [''VIEW''], pp_roles = [],
      pp_publishLicense = [1, 2], pp_cipherMode = CIPHER_MODE_CBC4K, pp_pCryptoProvider = None,
      pp_bAllowAuditedExtraction = False, pp_bHasUserRightsInformation = True, pp_userRightsList = [],
      pp_userRolesList = [], pp_signedApplicationData = Map.empty, pp_encryptedApplicationData = Map.empty\<rparr>"

lemma sample_run:
  "cache_run None [Insert sample_policy, LookUp (Some [1, 2]) ''ANN@x.org''] (Some [sample_policy])"
proof -
  have "AddProtectionPolicyToCache sample_policy None = Some [sample_policy]"
    by (simp add: AddProtectionPolicyToCache_def dwMaxCacheEntries_def)
  then have "cache_step None (Insert sample_policy) (Some [sample_policy])" by (metis insert_policy)
  moreover have "GetCachedProtectionPolicy (Some [1, 2]) ''ANN@x.org'' (Some [sample_policy]) =
      (Inr sample_policy, Some [sample_policy])"
    by (simp add: GetCachedProtectionPolicy_def policy_matches_def sample_policy_def to_lower_string_def to_lower_def
        Let_def char_of_def bit_0)
  then have "cache_step (Some [sample_policy]) (LookUp (Some [1, 2]) ''ANN@x.org'') (Some [sample_policy])"
    by (rule look_up)
  ultimately show ?thesis by (blast intro: cache_run.intros)
qed

theorem policy_cache_invariant_witness:
  "length (entries (Some [sample_policy])) \<le> dwMaxCacheEntries \<and>
   Insert ` set (entries (Some [sample_policy])) \<subseteq>
      set [Insert sample_policy, LookUp (Some [1, 2]) ''ANN@x.org'']"
  by (rule policy_cache_invariant [OF sample_run])

text \<open>
  C27: the list keeps what was used recently. A policy inserted into a list in order is still
  in the list after any 31 further operations, no further from its front than there were
  operations since, and a look-up under its license and its requester, letter case aside, is
  answered: with it, or with a policy that stands before it and matches as well, and then with
  the first of these.
\<close>

theorem policy_cache_retention:
  assumes "bounded c" and "cache_run c (Insert p # ops) d" and "length ops < dwMaxCacheEntries"
    and "requester \<noteq> [] \<longrightarrow> to_lower_string requester = to_lower_string (pp_requester p)"
  shows "\<exists>j \<le> length ops. j < length (entries d) \<and> entries d ! j = p \<and>
    (\<exists>i \<le> j. \<exists>e. GetCachedProtectionPolicy (Some (pp_publishLicense p)) requester d = (Inr (entries d ! i), e) \<and>
       policy_matches (pp_publishLicense p) requester (entries d ! i) \<and>
       (\<forall>m < i. \<not> policy_matches (pp_publishLicense p) requester (entries d ! m)))"
proof -
  let ?c = "AddProtectionPolicyToCache p c"
  have run: "cache_run ?c ops d"
    using assms(2) by (auto simp: cache_run_Cons elim: cache_stepE)
  have "entries ?c ! 0 = p" "0 < length (entries ?c)"
    using insert_bounded [OF assms(1), of p] by (simp_all add: dwMaxCacheEntries_def)
  moreover have "bounded ?c" using step_bounded [OF insert_policy assms(1)] .
  ultimately obtain j where j: "j \<le> length ops" "j < length (entries d)" "entries d ! j = p"
    using run_index [OF run, of 0] assms(3) by auto
  then obtain ps where d: "d = Some ps" "entries d = ps" by (cases d) (auto simp: entries_def)
  have "policy_matches (pp_publishLicense p) requester (ps ! j)"
    using j(3) d(2) assms(4) by (simp add: policy_matches_def)
  then obtain i e where "i \<le> j" "GetCachedProtectionPolicy (Some (pp_publishLicense p)) requester d = (Inr (entries d ! i), e)"
    "policy_matches (pp_publishLicense p) requester (entries d ! i)"
    "\<forall>m < i. \<not> policy_matches (pp_publishLicense p) requester (entries d ! m)"
    using lookup_finds [of j ps "pp_publishLicense p" requester] j(2) unfolding d(2) d(1) [symmetric] by blast
  then show ?thesis using j by blast
qed

theorem policy_cache_retention_witness:
  "\<exists>j \<le> length [LookUp (Some [1, 2]) ''ANN@x.org'']. j < length (entries (Some [sample_policy])) \<and>
    entries (Some [sample_policy]) ! j = sample_policy \<and>
    (\<exists>i \<le> j. \<exists>e. GetCachedProtectionPolicy (Some (pp_publishLicense sample_policy)) ''ann@X.org'' (Some [sample_policy]) =
         (Inr (entries (Some [sample_policy]) ! i), e) \<and>
       policy_matches (pp_publishLicense sample_policy) ''ann@X.org'' (entries (Some [sample_policy]) ! i) \<and>
       (\<forall>m < i. \<not> policy_matches (pp_publishLicense sample_policy) ''ann@X.org'' (entries (Some [sample_policy]) ! m)))"
  by (rule policy_cache_retention [OF _ sample_run])
    (simp_all add: bounded_def entries_def dwMaxCacheEntries_def sample_policy_def to_lower_string_def to_lower_def Let_def char_of_def bit_0)

end
