(* ===== verification/UserPolicy.thy ===== *)
theory UserPolicy
  imports PolicyCache
begin

text \<open>
  What applications see of a policy (\<open>sdk/rms_sdk/ModernAPI\<close>): the policy descriptor
  (\<open>PolicyDescriptor.cpp\<close>), the template descriptor (\<open>TemplateDescriptor.cpp\<close>) and the
  user policy (\<open>UserPolicy.cpp\<close>), which is acquired for a license or created from a
  template or a descriptor.
\<close>

section \<open>Descriptors\<close>

record PolicyDescriptor =
  de_name :: string
  de_description :: string
  de_userRightsList :: "UserRightsImpl list"
  de_userRolesList :: "UserRolesImpl list"
  de_contentValidUntil :: time_point
  de_bAllowOfflineAccess :: bool
  de_referrer :: "string option"
  de_encryptedAppData :: AppDataHashMap
  de_signedAppData :: AppDataHashMap

definition invalid_item :: exn where
  "invalid_item = RMSInvalidArgumentException ''Invalid item''"

definition ValidateInputRefObjectCollection :: "string list \<Rightarrow> exn + unit" where
  "ValidateInputRefObjectCollection items = (if list_ex (\<lambda>i. i = []) items then Inl invalid_item else Inr ())"

definition UserRoles_create :: "string list \<Rightarrow> string list \<Rightarrow> exn + UserRolesImpl" where
  "UserRoles_create users roles =
     bindE (ValidateInputRefObjectCollection users) (\<lambda>_.
     bindE (ValidateInputRefObjectCollection roles) (\<lambda>_.
       Inr \<lparr>uo_users = users, uo_roles = roles\<rparr>))"

primrec ValidateUserRightsList :: "UserRightsImpl list \<Rightarrow> exn + unit" where
  "ValidateUserRightsList [] = Inr ()"
| "ValidateUserRightsList (r # rs) =
     bindE (ValidateInputRefObjectCollection (ur_users r)) (\<lambda>_.
     bindE (ValidateInputRefObjectCollection (ur_rights r)) (\<lambda>_. ValidateUserRightsList rs))"

primrec ValidateUserRolesList :: "UserRolesImpl list \<Rightarrow> exn + unit" where
  "ValidateUserRolesList [] = Inr ()"
| "ValidateUserRolesList (r # rs) =
     bindE (ValidateInputRefObjectCollection (uo_users r)) (\<lambda>_.
     bindE (ValidateInputRefObjectCollection (uo_roles r)) (\<lambda>_. ValidateUserRolesList rs))"

definition empty_descriptor :: PolicyDescriptor where
  "empty_descriptor =
     \<lparr>de_name = [], de_description = [], de_userRightsList = [], de_userRolesList = [],
      de_contentValidUntil = epoch, de_bAllowOfflineAccess = True, de_referrer = None,
      de_encryptedAppData = Map.empty, de_signedAppData = Map.empty\<rparr>"

definition PolicyDescriptor_rights :: "UserRightsImpl list \<Rightarrow> exn + PolicyDescriptor" where
  "PolicyDescriptor_rights l =
     bindE (ValidateUserRightsList l) (\<lambda>_. Inr (empty_descriptor\<lparr>de_userRightsList := l\<rparr>))"

definition PolicyDescriptor_roles :: "UserRolesImpl list \<Rightarrow> exn + PolicyDescriptor" where
  "PolicyDescriptor_roles l =
     bindE (ValidateUserRolesList l) (\<lambda>_. Inr (empty_descriptor\<lparr>de_userRolesList := l\<rparr>))"

text \<open>A \<open>uint64_t\<close> that becomes the number of a \<open>std::chrono::milliseconds\<close>.\<close>

definition as_i64 :: "nat \<Rightarrow> int" where
  "as_i64 n = (int n + 2 ^ 63) mod 2 ^ 64 - 2 ^ 63"

primrec user_roles :: "UserRolesImpl list \<Rightarrow> exn + UserRolesImpl list" where
  "user_roles [] = Inr []"
| "user_roles (r # rs) =
     bindE (UserRoles_create (uo_users r) (uo_roles r)) (\<lambda>u. bindE (user_roles rs) (\<lambda>us. Inr (u # us)))"

definition descriptor_valid_until :: "ProtectionPolicy \<Rightarrow> time_point" where
  "descriptor_valid_until policy =
     (let timeFrom = pp_ftValidityTimeFrom policy; dur = pp_GetValidityTimeDuration policy
      in if 0 < to_time_t timeFrom \<and> dur \<noteq> 0 then timeFrom + as_i64 dur * 1000000 else epoch)"

definition PolicyDescriptor_policy :: "ProtectionPolicy \<Rightarrow> exn + PolicyDescriptor" where
  "PolicyDescriptor_policy policy =
     (if \<not> pp_IsAdhoc policy then Inl (RMSInvalidArgumentException ''Invalid policy argument'')
      else
        let d = empty_descriptor
              \<lparr>de_name := pp_name policy, de_description := pp_description policy,
               de_bAllowOfflineAccess := pp_bAllowOfflineAccess policy,
               de_referrer := Some (pp_referrer policy),
               de_contentValidUntil := descriptor_valid_until policy\<rparr>
        in if pp_bHasUserRightsInformation policy
           then bindE (user_roles (pp_userRolesList policy)) (\<lambda>roles.
             Inr (d\<lparr>de_userRightsList := pp_userRightsList policy, de_userRolesList := roles\<rparr>))
           else Inr d)"

record TemplateDescriptor =
  td_id :: string
  td_name :: string
  td_description :: string

definition TemplateDescriptor_policy :: "ProtectionPolicy \<Rightarrow> exn + TemplateDescriptor" where
  "TemplateDescriptor_policy policy =
     (if pp_IsAdhoc policy then Inl (RMSInvalidArgumentException ''Invalid policy'')
      else Inr \<lparr>td_id = pp_id policy, td_name = pp_name policy, td_description = pp_description policy\<rparr>)"

section \<open>User policies\<close>

record UserPolicy =
  up_pImpl :: ProtectionPolicy
  up_policyDescriptor :: "PolicyDescriptor option"
  up_templateDescriptor :: "TemplateDescriptor option"

definition UserPolicy_create :: "ProtectionPolicy \<Rightarrow> exn + UserPolicy" where
  "UserPolicy_create p =
     (if pp_IsAdhoc p
      then bindE (PolicyDescriptor_policy p) (\<lambda>d.
        Inr \<lparr>up_pImpl = p, up_policyDescriptor = Some d, up_templateDescriptor = None\<rparr>)
      else bindE (TemplateDescriptor_policy p) (\<lambda>t.
        Inr \<lparr>up_pImpl = p, up_policyDescriptor = None, up_templateDescriptor = Some t\<rparr>))"

datatype GetUserPolicyResultStatus = Success | NoRights | Expired

record GetUserPolicyResult =
  gr_Status :: GetUserPolicyResultStatus
  gr_Referrer :: string
  gr_Policy :: "UserPolicy option"

text \<open>The options are bit masks.\<close>

definition POL_OfflineOnly :: nat where "POL_OfflineOnly = 1"
definition USER_AllowAuditedExtraction :: nat where "USER_AllowAuditedExtraction = 1"
definition USER_PreferDeprecatedAlgorithms :: nat where "USER_PreferDeprecatedAlgorithms = 2"

definition has_flag :: "nat \<Rightarrow> nat \<Rightarrow> bool" where
  "has_flag options f \<longleftrightarrow> options div f mod 2 = 1"

definition UserPolicy_Acquire ::
  "openssl \<Rightarrow> time_point \<Rightarrow> time_point \<Rightarrow> ProtectionPolicy \<Rightarrow>
   (byte list \<Rightarrow> string \<Rightarrow> bool \<Rightarrow> nat \<Rightarrow> exn + UsageRestrictionsResponse) \<Rightarrow>
   byte list \<Rightarrow> string \<Rightarrow> nat \<Rightarrow> nat \<Rightarrow> (exn, PolicyCache, GetUserPolicyResult) sx" where
  "UserPolicy_Acquire lib now now' junk client serializedPolicy userId options cacheMask =
     bnd (pp_Acquire lib now now' junk client (Some serializedPolicy) userId (has_flag options POL_OfflineOnly)
            cacheMask) (\<lambda>pImpl.
       case pp_accessStatus pImpl of
         ACCESS_STATUS_ACCESS_GRANTED \<Rightarrow>
           bnd (liftE (UserPolicy_create pImpl)) (\<lambda>u.
             ret \<lparr>gr_Status = Success, gr_Referrer = pp_referrer pImpl, gr_Policy = Some u\<rparr>)
       | ACCESS_STATUS_ACCESS_DENIED \<Rightarrow>
           ret \<lparr>gr_Status = NoRights, gr_Referrer = pp_referrer pImpl, gr_Policy = None\<rparr>
       | ACCESS_STATUS_ACCESS_EXPIRED \<Rightarrow>
           ret \<lparr>gr_Status = Expired, gr_Referrer = pp_referrer pImpl, gr_Policy = None\<rparr>)"

definition UserPolicy_CreateFromTemplateDescriptor ::
  "openssl \<Rightarrow> ProtectionPolicy \<Rightarrow> (PublishUsingTemplateRequest \<Rightarrow> string \<Rightarrow> exn + PublishResponse) \<Rightarrow>
   TemplateDescriptor \<Rightarrow> string \<Rightarrow> nat \<Rightarrow> AppDataHashMap \<Rightarrow> exn + UserPolicy" where
  "UserPolicy_CreateFromTemplateDescriptor lib junk publish templateDescriptor userId options signedAppData =
     bindE (pp_CreateFromTemplate lib junk publish (has_flag options USER_PreferDeprecatedAlgorithms)
              (has_flag options USER_AllowAuditedExtraction) (td_id templateDescriptor) userId signedAppData)
       UserPolicy_create"

definition descriptor_impl :: "PolicyDescriptor \<Rightarrow> PolicyDescriptorImpl" where
  "descriptor_impl d =
     \<lparr>pd_name = de_name d, pd_description = de_description d,
      pd_userRightsList = de_userRightsList d,
      pd_userRolesList = (if de_userRightsList d \<noteq> [] then [] else de_userRolesList d),
      pd_ftContentValidUntil = de_contentValidUntil d, pd_bAllowOfflineAccess = de_bAllowOfflineAccess d,
      pd_referrer = (case de_referrer d of None \<Rightarrow> [] | Some r \<Rightarrow> r),
      pd_signedApplicationData = de_signedAppData d, pd_encryptedApplicationData = de_encryptedAppData d\<rparr>"

definition UserPolicy_Create ::
  "openssl \<Rightarrow> string \<Rightarrow> ProtectionPolicy \<Rightarrow> (PublishCustomRequest \<Rightarrow> string \<Rightarrow> exn + PublishResponse) \<Rightarrow>
   PolicyDescriptor \<Rightarrow> string \<Rightarrow> nat \<Rightarrow> (exn, PolicyCache, UserPolicy) sx" where
  "UserPolicy_Create lib locale_name junk publish policyDescriptor userId options =
     bnd (pp_CreateCustom lib locale_name junk publish (has_flag options USER_PreferDeprecatedAlgorithms)
            (has_flag options USER_AllowAuditedExtraction) (descriptor_impl policyDescriptor) userId) (\<lambda>pImpl.
     bnd (liftE (UserPolicy_create pImpl)) (\<lambda>result.
       ret (result\<lparr>up_policyDescriptor :=
         map_option (\<lambda>d. d\<lparr>de_contentValidUntil := de_contentValidUntil policyDescriptor\<rparr>)
           (up_policyDescriptor result)\<rparr>)))"

datatype UserPolicyType = TemplateBased | Custom

definition UserPolicy_Type :: "UserPolicy \<Rightarrow> UserPolicyType" where
  "UserPolicy_Type u = (if pp_IsAdhoc (up_pImpl u) then Custom else TemplateBased)"

definition UserPolicy_AccessCheck :: "UserPolicy \<Rightarrow> string \<Rightarrow> bool" where
  "UserPolicy_AccessCheck u right = pp_AccessCheck (up_pImpl u) right"

definition UserPolicy_IsAuditedExtractAllowed :: "UserPolicy \<Rightarrow> bool" where
  "UserPolicy_IsAuditedExtractAllowed u = pp_AccessCheck (up_pImpl u) ''AUDITEDEXTRACT''"

definition UserPolicy_IsIssuedToOwner :: "UserPolicy \<Rightarrow> bool" where
  "UserPolicy_IsIssuedToOwner u = pp_IsIssuedToOwner (up_pImpl u)"

definition UserPolicy_DoesUseDeprecatedAlgorithms :: "UserPolicy \<Rightarrow> bool" where
  "UserPolicy_DoesUseDeprecatedAlgorithms u = (pp_cipherMode (up_pImpl u) = CIPHER_MODE_ECB)"

definition UserPolicy_Name :: "UserPolicy \<Rightarrow> string" where "UserPolicy_Name u = pp_name (up_pImpl u)"
definition UserPolicy_Description :: "UserPolicy \<Rightarrow> string" where "UserPolicy_Description u = pp_description (up_pImpl u)"
definition UserPolicy_Owner :: "UserPolicy \<Rightarrow> string" where "UserPolicy_Owner u = pp_owner (up_pImpl u)"
definition UserPolicy_IssuedTo :: "UserPolicy \<Rightarrow> string" where "UserPolicy_IssuedTo u = pp_issuedTo (up_pImpl u)"
definition UserPolicy_ContentId :: "UserPolicy \<Rightarrow> string" where "UserPolicy_ContentId u = pp_contentId (up_pImpl u)"

text \<open>The data of the application is copied entry by entry.\<close>

definition UserPolicy_EncryptedAppData :: "UserPolicy \<Rightarrow> AppDataHashMap" where
  "UserPolicy_EncryptedAppData u = pp_encryptedApplicationData (up_pImpl u)"

definition UserPolicy_SignedAppData :: "UserPolicy \<Rightarrow> AppDataHashMap" where
  "UserPolicy_SignedAppData u = pp_signedApplicationData (up_pImpl u)"

definition UserPolicy_ContentValidUntil :: "UserPolicy \<Rightarrow> time_point" where
  "UserPolicy_ContentValidUntil u = pp_ftValidityTimeUntil (up_pImpl u)"

definition UserPolicy_SerializedPolicy :: "UserPolicy \<Rightarrow> byte list" where
  "UserPolicy_SerializedPolicy u = pp_publishLicense (up_pImpl u)"

end
