(* ===== verification/PolicyProperties.thy ===== *)
theory PolicyProperties
  imports UserPolicy
begin

text \<open>
  Properties of the policies: acquiring the same license again, the errors of a bad key, the
  validity an application is told, and what a policy made from a template says of itself.
\<close>

section \<open>Lemmas\<close>

lemma Initialize_license:
  "pp_Initialize lib now now' pl response p = (Inr u, q) \<Longrightarrow> pp_publishLicense q = pl"
  by (auto simp: pp_Initialize_def sx_simps split: sum.splits prod.splits if_splits)

lemma lookup_front:
  "policy_matches pl requester p \<Longrightarrow>
   GetCachedProtectionPolicy (Some pl) requester (Some (p # ps)) = (Inr p, Some (p # ps))"
  by (simp add: GetCachedProtectionPolicy_def)

lemma lookup_hit:
  assumes "GetCachedProtectionPolicy (Some pl) requester c = (Inr p, d)"
  shows "policy_matches pl requester p \<and> (\<exists>ps. d = Some (p # ps))"
proof (cases c)
  case None
  then show ?thesis using assms by (simp add: GetCachedProtectionPolicy_def)
next
  case (Some ps)
  show ?thesis
  proof (cases "dropWhile (\<lambda>p. \<not> policy_matches pl requester p) ps")
    case Nil
    then show ?thesis
      using assms Some by (simp add: GetCachedProtectionPolicy_def del: dropWhile_eq_Nil_conv)
  next
    case (Cons q after)
    then have "policy_matches pl requester q"
      using hd_dropWhile [of "\<lambda>p. \<not> policy_matches pl requester p" ps] by simp
    then show ?thesis using assms Some Cons by (auto simp: GetCachedProtectionPolicy_def)
  qed
qed

lemma lookup_miss:
  "GetCachedProtectionPolicy (Some pl) requester c = (Inl e, d) \<Longrightarrow> is_rms e \<and> d = c"
  by (auto simp: GetCachedProtectionPolicy_def rms_exn_defs split: option.splits list.splits)

lemma insert_front: "\<exists>ps. AddProtectionPolicyToCache p c = Some (p # ps)"
  by (cases c) (auto simp: AddProtectionPolicyToCache_def dwMaxCacheEntries_def Let_def)

lemma matches_same:
  assumes "policy_matches pl email p" and "email' \<noteq> [] \<longrightarrow> to_lower_string email' = to_lower_string email"
  shows "policy_matches pl email' p"
  using assms by (cases email) (auto simp: policy_matches_def to_lower_string_def)

lemma Acquire_front:
  assumes "pp_Acquire lib now now' junk client (Some pl) email off flags c = (Inr p, d)" and "in_memory flags"
  shows "policy_matches pl email p \<and> (\<exists>ps. d = Some (p # ps))"
proof -
  obtain r c1 where r: "GetCachedProtectionPolicy (Some pl) email c = (r, c1)" by fastforce
  show ?thesis
  proof (cases r)
    case (Inr q)
    then have "q = p" "d = c1" using assms(1) r by (simp_all add: pp_Acquire_def sx_simps)
    then show ?thesis using lookup_hit [of pl email c q c1] r Inr by simp
  next
    case (Inl e)
    then have e: "is_rms e" "c1 = c" using lookup_miss r by blast+
    obtain response where s: "client pl email off flags = Inr response"
      using assms(1) r Inl e by (cases "client pl email off flags") (simp_all add: pp_Acquire_def sx_simps)
    obtain x q where i: "pp_Initialize lib now now' pl response (ProtectionPolicy_create junk) = (x, q)" by fastforce
    obtain u where x: "x = Inr u"
      using assms(1) r Inl e s i by (cases x) (simp_all add: pp_Acquire_def sx_simps)
    have "p = q\<lparr>pp_requester := email\<rparr>" "d = AddProtectionPolicyToCache p c"
      using assms r Inl e s i x by (auto simp: pp_Acquire_def sx_simps)
    moreover have "pp_publishLicense q = pl" using Initialize_license i x by blast
    ultimately show ?thesis using insert_front [of p c] by (simp add: policy_matches_def)
  qed
qed

lemma InitializeKey_template: "pp_InitializeKey lib r p = (x, q) \<Longrightarrow> pp_bFromTemplate q = pp_bFromTemplate p"
  by (auto simp: pp_InitializeKey_def sx_simps split: sum.splits prod.splits if_splits)

lemma InitializePublished_template:
  assumes "pp_InitializePublished lib r a o' s e p = (x, q)"
  shows "pp_bFromTemplate q = pp_bFromTemplate p"
  using assms InitializeKey_template
  by (fastforce simp: pp_InitializePublished_def sx_simps split: sum.splits prod.splits)

lemma msecsTo_later:
  assumes "now \<le> until"
  shows "msecsTo now until = - ((until - now) div 1000000)"
proof (cases "now = until")
  case True
  then show ?thesis by (simp add: msecsTo_def trunc_div_def)
next
  case False
  then have "now - until < 0" "- (now - until) = until - now" using assms by simp_all
  then show ?thesis by (simp only: msecsTo_def trunc_div_neg)
qed

section \<open>Properties\<close>

text \<open>
  C36: After a policy has been acquired with the in-memory cache on, acquiring the license
  again, under the same user name in any letter case, gives the same policy, whatever the
  services would answer now, and changes nothing.
\<close>

theorem acquire_again:
  assumes "pp_Acquire lib now now' junk client (Some pl) email off flags c = (Inr p, d)" and "in_memory flags"
    and "email' \<noteq> [] \<longrightarrow> to_lower_string email' = to_lower_string email"
  shows "pp_Acquire lib later later' junk' client' (Some pl) email' off' flags' d = (Inr p, d)"
proof -
  obtain ps where "policy_matches pl email p" "d = Some (p # ps)"
    using Acquire_front [OF assms(1,2)] by blast
  then have "GetCachedProtectionPolicy (Some pl) email' d = (Inr p, d)"
    using matches_same [OF _ assms(3)] by (simp add: lookup_front)
  then show ?thesis by (simp add: pp_Acquire_def sx_simps)
qed

definition sample_response :: UsageRestrictionsResponse where
  "sample_response =
     \<lparr>us_accessStatus = ''accessdenied'', us_id = ''1'', us_name = ''n'', us_description = [], us_referrer = [],
      us_owner = ''ann@x.org'', us_key = \<lparr>kd_value = [], kd_algorithm = [], kd_cipherMode = []\<rparr>,
      us_rights = [], us_roles = [], us_issuedTo = [], us_ftContentValidUntil = 0, us_ftLicenseValidUntil = 0,
      us_contentValidUntil = [], us_licenseValidUntil = [], us_bAllowOfflineAccess = False,
      us_bFromTemplate = True, us_contentId = [],
      us_customPolicy = \<lparr>cu_bIsNull = True, cu_bAllowAuditedExtraction = False, cu_userRightsList = [],
        cu_userRolesList = []\<rparr>, us_signedApplicationData = Map.empty, us_encryptedApplicationData = Map.empty\<rparr>"

definition sample_openssl :: openssl where
  "sample_openssl = \<lparr>ossl_evp = xor_evp, ossl_decode = zero_decode\<rparr>"

lemma sample_acquire:
  "\<exists>p d. pp_Acquire sample_openssl 5 6 sample_policy (\<lambda>pl e o' m. Inr sample_response) (Some [7]) ''bo'' False 1
      None = (Inr p, d)"
proof -
  have "MapAccessStatus ''accessdenied'' = Inr ACCESS_STATUS_ACCESS_DENIED"
    by (simp add: MapAccessStatus_def stricmp_eq_def c_str_def to_lower_def Let_def char_of_def bit_0)
  then show ?thesis
    by (simp add: pp_Acquire_def GetCachedProtectionPolicy_def pp_Initialize_def sx_simps sample_response_def
        rms_exn_defs)
qed

theorem acquire_again_witness:
  "\<exists>p d. pp_Acquire sample_openssl 5 6 sample_policy (\<lambda>pl e o' m. Inr sample_response) (Some [7]) ''bo'' False 1
      None = (Inr p, d) \<and>
    pp_Acquire sample_openssl 50 60 sample_policy (\<lambda>pl e o' m. Inl StdException) (Some [7]) ''Bo'' True 0 d =
      (Inr p, d)"
proof -
  obtain p d where *: "pp_Acquire sample_openssl 5 6 sample_policy (\<lambda>pl e o' m. Inr sample_response) (Some [7])
      ''bo'' False 1 None = (Inr p, d)" using sample_acquire by blast
  have "pp_Acquire sample_openssl 50 60 sample_policy (\<lambda>pl e o' m. Inl StdException) (Some [7]) ''Bo'' True 0 d =
      (Inr p, d)"
    by (rule acquire_again [OF *])
      (simp_all add: in_memory_def RESPONSE_CACHE_INMEMORY_def to_lower_string_def to_lower_def Let_def char_of_def bit_0)
  with * show ?thesis by blast
qed

text \<open>
  The exception "invalid base64" is thrown for the wrong failure. A key that is not
  base64 ends in an exception of the standard library that the clause does not catch; a
  cipher mode that is not known ends in the exception about base64.
\<close>

theorem key_errors_swapped:
  assumes "kd_value r \<noteq> []"
  shows "(ossl_decode lib (kd_value r) = None \<longrightarrow>
      pp_InitializeKey lib r p = (Inl (StdRuntimeError ''Base64 decoding failed.''), p)) \<and>
    (ossl_decode lib (kd_value r) \<noteq> None \<and> (\<exists>e. MapCipherMode (kd_cipherMode r) = Inl e) \<longrightarrow>
      pp_InitializeKey lib r p = (Inl bad_key_exn, p))"
proof -
  have "is_rms e" if "MapCipherMode m = Inl e" for m e
    using that by (auto simp: MapCipherMode_def rms_exn_defs split: if_splits)
  then show ?thesis
    using assms by (auto simp: pp_InitializeKey_def ConvertBase64ToBytes_def sx_simps)
qed

theorem key_errors_swapped_witness:
  "pp_InitializeKey sample_openssl \<lparr>kd_value = [0x41], kd_algorithm = [], kd_cipherMode = ''MICROSOFT.CBC4K''\<rparr>
      sample_policy = (Inl (StdRuntimeError ''Base64 decoding failed.''), sample_policy) \<and>
   pp_InitializeKey sample_openssl \<lparr>kd_value = [0x41, 0x41, 0x41, 0x41], kd_algorithm = [], kd_cipherMode = ''XTS''\<rparr>
      sample_policy = (Inl bad_key_exn, sample_policy)"
proof -
  have "\<exists>e. MapCipherMode ''XTS'' = Inl e"
    by (simp add: MapCipherMode_def stricmp_eq_def c_str_def to_lower_def Let_def char_of_def bit_0)
  then show ?thesis
    using key_errors_swapped [of "\<lparr>kd_value = [0x41], kd_algorithm = [], kd_cipherMode = ''MICROSOFT.CBC4K''\<rparr>"
        sample_openssl sample_policy]
      key_errors_swapped [of "\<lparr>kd_value = [0x41, 0x41, 0x41, 0x41], kd_algorithm = [], kd_cipherMode = ''XTS''\<rparr>"
        sample_openssl sample_policy]
    by (simp add: sample_openssl_def zero_decode_def)
qed

text \<open>
  The content's validity as the descriptor of an acquired policy reports it. The
  duration is computed with its ends exchanged, so a content that is valid until some time
  from now is reported as having been valid until as long before now.
\<close>

theorem validity_mirrored:
  assumes "pp_bFromTemplate p = False" and "pp_bHasUserRightsInformation p = False"
    and "1000000000 \<le> now" and "now + 1000000 \<le> until" and "until < 2 ^ 63"
  shows "\<exists>d. PolicyDescriptor_policy (pp_InitializeValidityTime now until p) = Inr d \<and>
    de_contentValidUntil d = now - (until - now) div 1000000 * 1000000 \<and> de_contentValidUntil d < now"
proof -
  let ?k = "(until - now) div 1000000"
  let ?q = "pp_InitializeValidityTime now until p"
  have k: "1 \<le> ?k" using assms(4) pos_imp_zdiv_pos_iff [of 1000000 "until - now"] by simp
  have "until - now = 1000000 * ?k + (until - now) mod 1000000" by simp
  moreover have "0 \<le> (until - now) mod 1000000" by simp
  ultimately have "?k \<le> until - now" using k by linarith
  then have k63: "?k < 2 ^ 63" using assms(3,5) by linarith
  have "0 < to_time_t until"
    using assms(3,4) by (simp add: to_time_t_def trunc_div_nonneg pos_imp_zdiv_pos_iff)
  then have q: "pp_ftValidityTimeFrom ?q = now" "pp_ftValidityTimeUntil ?q = until"
      "pp_bFromTemplate ?q = False" "pp_bHasUserRightsInformation ?q = False"
    using assms(1,2) by (simp_all add: pp_InitializeValidityTime_def)
  have m: "(- ?k) mod 2 ^ 64 = 2 ^ 64 - ?k"
    using k k63 by (intro int_mod_pos_eq [where q = "-1"]) simp_all
  have dur: "int (pp_GetValidityTimeDuration ?q) = 2 ^ 64 - ?k"
  proof -
    have "msecsTo now until = - ?k" using assms(4) by (intro msecsTo_later) simp
    then have "pp_GetValidityTimeDuration ?q = nat (2 ^ 64 - ?k)"
      by (simp only: pp_GetValidityTimeDuration_def q m)
    then show ?thesis using k63 by simp
  qed
  have "(2 ^ 64 - ?k + 2 ^ 63) mod 2 ^ 64 = 2 ^ 63 - ?k"
    using k k63 by (intro int_mod_pos_eq [where q = 1]) simp_all
  then have i64: "as_i64 (pp_GetValidityTimeDuration ?q) = - ?k" unfolding as_i64_def dur by simp
  have "pp_GetValidityTimeDuration ?q \<noteq> 0"
  proof
    assume "pp_GetValidityTimeDuration ?q = 0"
    then have "2 ^ 64 - ?k = 0" using dur by simp
    then show False using k63 by simp
  qed
  moreover have "0 < to_time_t now"
    using assms(3) by (simp add: to_time_t_def trunc_div_nonneg pos_imp_zdiv_pos_iff)
  ultimately have "descriptor_valid_until ?q = now - ?k * 1000000"
    by (simp add: descriptor_valid_until_def q i64)
  moreover have "now - ?k * 1000000 < now" using k by simp
  ultimately show ?thesis
    using q by (simp add: PolicyDescriptor_policy_def pp_IsAdhoc_def)
qed

theorem validity_mirrored_witness:
  "\<exists>d. PolicyDescriptor_policy (pp_InitializeValidityTime 1000000000000 1003600000000
        (sample_policy\<lparr>pp_bHasUserRightsInformation := False\<rparr>)) = Inr d \<and>
    de_contentValidUntil d = 1000000000000 - (1003600000000 - 1000000000000) div 1000000 * 1000000 \<and>
    de_contentValidUntil d < 1000000000000"
  by (rule validity_mirrored) (simp_all add: sample_policy_def)

text \<open>
  A policy that has been created from a template says that it is custom and has no
  template descriptor, because nothing on that way records the template.
\<close>

theorem template_policy_is_custom:
  assumes "UserPolicy_CreateFromTemplateDescriptor lib junk publish t userId options signedAppData = Inr u"
  shows "UserPolicy_Type u = Custom \<and> up_templateDescriptor u = None \<and> up_policyDescriptor u \<noteq> None"
proof -
  obtain p where p: "pp_CreateFromTemplate lib junk publish (has_flag options USER_PreferDeprecatedAlgorithms)
      (has_flag options USER_AllowAuditedExtraction) (td_id t) userId signedAppData = Inr p"
      "UserPolicy_create p = Inr u"
    using assms by (auto simp: UserPolicy_CreateFromTemplateDescriptor_def bindE_eq_Inr)
  from p(1) obtain response where
    "(case pp_InitializePublished lib response (has_flag options USER_AllowAuditedExtraction) True
        (pb_signedApplicationData response) Map.empty (ProtectionPolicy_create junk) of
       (Inl x, q) \<Rightarrow> Inl x | (Inr u, q) \<Rightarrow> Inr q) = Inr p"
    unfolding pp_CreateFromTemplate_def bindE_eq_Inr by (elim exE conjE)
  moreover obtain x q where i: "pp_InitializePublished lib response (has_flag options USER_AllowAuditedExtraction)
      True (pb_signedApplicationData response) Map.empty (ProtectionPolicy_create junk) = (x, q)" by fastforce
  ultimately have "q = p" by (cases x) simp_all
  then have "pp_bFromTemplate p = False"
    using InitializePublished_template [OF i] by (simp add: ProtectionPolicy_create_def)
  then show ?thesis
    using p(2) by (auto simp: UserPolicy_create_def pp_IsAdhoc_def UserPolicy_Type_def bindE_eq_Inr)
qed

definition sample_published :: PublishResponse where
  "sample_published =
     \<lparr>pb_serializedLicense = [1], pb_id = ''1'', pb_name = ''t'', pb_description = [], pb_referrer = [],
      pb_owner = ''ann'', pb_key = \<lparr>kd_value = replicate 22 0x41 @ [0x3D, 0x3D], kd_algorithm = [],
        kd_cipherMode = ''MICROSOFT.CBC4K''\<rparr>, pb_contentId = [], pb_signedApplicationData = Map.empty,
      pb_encryptedApplicationData = Map.empty\<rparr>"

lemma sample_key_init:
  "pp_InitializeKey sample_openssl (pb_key sample_published) p =
     (Inr (), p\<lparr>pp_cipherMode := CIPHER_MODE_CBC4K,
        pp_pCryptoProvider := Some (cbc4k_vtable (cbc4k_of xor_evp (replicate 16 0)))\<rparr>)"
proof -
  let ?s = "replicate 22 0x41 @ [0x3D, 0x3D::byte]"
  have pad: "base64_padding ?s = 2" by (simp add: base64_padding_def EQUALS_def nth_append)
  have "zero_decode ?s = Some (replicate 18 0)" by (simp add: zero_decode_def)
  then have "ConvertBase64ToBytes zero_decode ?s = Inr (replicate 16 0)"
    by (simp only: ConvertBase64ToBytes_def pad) simp
  moreover have "MapCipherMode ''MICROSOFT.CBC4K'' = Inr CIPHER_MODE_CBC4K" by (simp add: MapCipherMode_def)
  moreover have "CreateCryptoProvider xor_evp CIPHER_MODE_CBC4K (replicate 16 0) =
      Inr (cbc4k_vtable (cbc4k_of xor_evp (replicate 16 0)))"
    by (simp add: CreateCryptoProvider_def cbc4k_create_of valid_key_def del: replicate.simps)
  ultimately show ?thesis
    by (simp add: pp_InitializeKey_def sx_simps sample_published_def sample_openssl_def
        del: replicate.simps)
qed

lemma sample_template_policy:
  "\<exists>u. UserPolicy_CreateFromTemplateDescriptor sample_openssl (sample_policy\<lparr>pp_bHasUserRightsInformation := False\<rparr>)
     (\<lambda>r e. Inr sample_published) \<lparr>td_id = ''7'', td_name = ''t'', td_description = []\<rparr> ''ann'' 0 Map.empty = Inr u"
proof -
  let ?p = "ProtectionPolicy_create (sample_policy\<lparr>pp_bHasUserRightsInformation := False\<rparr>)"
  have "\<exists>q. pp_InitializePublished sample_openssl sample_published False True
      (pb_signedApplicationData sample_published) Map.empty ?p = (Inr (), q) \<and>
      pp_bHasUserRightsInformation q = pp_bHasUserRightsInformation ?p \<and> pp_bFromTemplate q = pp_bFromTemplate ?p"
    by (simp add: pp_InitializePublished_def seqx_app modify_app sample_key_init)
  then obtain q where q: "pp_InitializePublished sample_openssl sample_published False True
      (pb_signedApplicationData sample_published) Map.empty ?p = (Inr (), q)"
      "\<not> pp_bHasUserRightsInformation q" "\<not> pp_bFromTemplate q"
    by (auto simp: ProtectionPolicy_create_def)
  have "UserPolicy_create q \<noteq> Inl e" for e
    using q(2,3) by (simp add: UserPolicy_create_def PolicyDescriptor_policy_def pp_IsAdhoc_def)
  then obtain u where "UserPolicy_create q = Inr u" by (cases "UserPolicy_create q") auto
  then show ?thesis
    by (simp add: UserPolicy_CreateFromTemplateDescriptor_def pp_CreateFromTemplate_def has_flag_def q(1))
qed

theorem template_policy_is_custom_witness:
  "\<exists>u. UserPolicy_CreateFromTemplateDescriptor sample_openssl (sample_policy\<lparr>pp_bHasUserRightsInformation := False\<rparr>)
     (\<lambda>r e. Inr sample_published) \<lparr>td_id = ''7'', td_name = ''t'', td_description = []\<rparr> ''ann'' 0 Map.empty = Inr u \<and>
    UserPolicy_Type u = Custom \<and> up_templateDescriptor u = None \<and> up_policyDescriptor u \<noteq> None"
  using sample_template_policy template_policy_is_custom by blast

end
