(* ===== verification/ProtectedFile.thy ===== *)
theory ProtectedFile
  imports UserPolicy PFileProperties
begin

text \<open>
  The streams an application works with: the protected file
  (\<open>sdk/rms_sdk/ModernAPI/ProtectedFileStream.cpp\<close>), a header with the license followed by
  the encrypted content, and the custom protected stream (\<open>CustomProtectedStream.cpp\<close>),
  encrypted content at a place the application keeps. Both hold a block-based protected
  stream and hand every method of \<open>IStream\<close> on to it. A policy is shared by everyone who
  has a pointer to it, and opening a file may change it: it is part of the state here, and
  so is the list of recently used policies, which may hold the same policy. The stream an
  application passes and its clone stand for the same bytes; what is written through the
  clone is found in the protected stream.
\<close>

section \<open>Streams that hand everything on\<close>

definition delegating :: "('s \<Rightarrow> 't) \<Rightarrow> ('t \<Rightarrow> 's \<Rightarrow> 's) \<Rightarrow> 't IStream \<Rightarrow> 's IStream" where
  "delegating g p ops =
     \<lparr>is_ReadAsync = \<lambda>n off. zoom g p (is_ReadAsync ops n off),
      is_WriteAsync = \<lambda>d off. zoom g p (is_WriteAsync ops d off),
      is_FlushAsync = zoom g p (is_FlushAsync ops),
      is_Read = \<lambda>n. zoom g p (is_Read ops n),
      is_Write = \<lambda>d. zoom g p (is_Write ops d),
      is_Flush = zoom g p (is_Flush ops),
      is_Clone = bnd (zoom g p (is_Clone ops)) (\<lambda>i. gets (p i)),
      is_Seek = \<lambda>q. zoom g p (is_Seek ops q),
      is_CanRead = zoom g p (is_CanRead ops),
      is_CanWrite = zoom g p (is_CanWrite ops),
      is_Position = zoom g p (is_Position ops),
      is_Size = zoom g p (is_Size ops),
      is_SetSize = \<lambda>v. zoom g p (is_SetSize ops v)\<rparr>"

section \<open>The protected file\<close>

record 's ProtectedFileStream =
  pf_policy :: UserPolicy
  pf_originalFileExtension :: string
  pf_pImpl :: "'s BlockBasedProtectedStream"

abbreviation pf_impl :: "(exn, 's BlockBasedProtectedStream, 'a) sx \<Rightarrow> (exn, 's ProtectedFileStream, 'a) sx" where
  "pf_impl \<equiv> zoom pf_pImpl (\<lambda>i s. s\<lparr>pf_pImpl := i\<rparr>)"

definition pf_vtable :: "nat \<Rightarrow> 's IStream \<Rightarrow> 's ProtectedFileStream IStream" where
  "pf_vtable f ops = delegating pf_pImpl (\<lambda>i s. s\<lparr>pf_pImpl := i\<rparr>) (bs_vtable f ops)"

text \<open>The state of opening: the stream that was passed and the policy, which may be null.\<close>

abbreviation on_backing :: "(exn, 's, 'a) sx \<Rightarrow> (exn, 's \<times> 'u, 'a) sx" where
  "on_backing \<equiv> zoom fst (\<lambda>b s. (b, snd s))"

abbreviation on_policy :: "(exn, ProtectionPolicy, 'a) sx \<Rightarrow> (exn, 's \<times> UserPolicy option, 'a) sx" where
  "on_policy \<equiv> zoom (\<lambda>s. up_pImpl (the (snd s)))
     (\<lambda>p s. (fst s, map_option (\<lambda>u. u\<lparr>up_pImpl := p\<rparr>) (snd s)))"

definition protected_block_size :: "ICryptoProvider \<Rightarrow> nat" where
  "protected_block_size c = (if cp_GetBlockSize c = 512 then 512 else 4096)"

definition CreateProtectedFileStream ::
  "openssl \<Rightarrow> 's IStream \<Rightarrow> byte \<Rightarrow> PfileHeader option \<Rightarrow>
   (exn, 's \<times> UserPolicy option, 's ProtectedFileStream) sx" where
  "CreateProtectedFileStream lib ops junk pHeader =
     bnd (on_backing (is_Clone ops)) (\<lambda>pBackingStreamImpl.
     bnd (gets snd) (\<lambda>policy.
       case (policy, pHeader) of
         (Some u, Some h) \<Rightarrow>
           seqx (if pp_cipherMode (up_pImpl u) = CIPHER_MODE_ECB \<and>
                    ph_MajorVersion h \<le> MaxMajorVerionsCBC4KIsForced
                 then on_policy (pp_ReinitilizeCryptoProvider lib CIPHER_MODE_CBC4K) else ret ())
           (bnd (on_policy (gets pp_pCryptoProvider)) (\<lambda>pCryptoProvider.
             case pCryptoProvider of
               None \<Rightarrow> throw NullDereference
             | Some c \<Rightarrow>
                 if protected_block_size c mod cp_GetBlockSize c \<noteq> 0
                 then throw (RMSStreamException ''Invalid block size'')
                 else bnd (on_backing (is_Size ops)) (\<lambda>sz.
                   bnd (liftE (BlockBasedProtectedStream_Create ops junk (Some c) (Some pBackingStreamImpl)
                     (ph_ContentStartPosition h) (sub64 sz (ph_ContentStartPosition h))
                     (protected_block_size c))) (\<lambda>pImpl.
                   gets (\<lambda>s. \<lparr>pf_policy = the (snd s), pf_originalFileExtension = ph_FileExtension h,
                     pf_pImpl = pImpl\<rparr>)))))
       | _ \<Rightarrow> throw NullDereference))"

text \<open>The header \<open>Create\<close> writes: 454 is what the header takes besides its three parts.\<close>

definition new_header :: "byte list \<Rightarrow> string \<Rightarrow> PfileHeader" where
  "new_header publishingLicense ext =
     \<lparr>ph_PublishingLicense = publishingLicense, ph_FileExtension = ext,
      ph_ContentStartPosition = to_u32 (length ext + length publishingLicense + 0 + 454),
      ph_OriginalFileSize = u64_max, ph_Metadata = [],
      ph_MajorVersion = MJVERSION_FOR_WRITING, ph_MinorVersion = MNVERSION_FOR_WRITING,
      ph_CleartextRedirectionHeader = CleartextRedirectHeader\<rparr>"

definition file_extension :: "string \<Rightarrow> string" where
  "file_extension originalFileExtension =
     (if originalFileExtension = [] then ''.pfile'' else originalFileExtension)"

definition ProtectedFileStream_Create ::
  "openssl \<Rightarrow> 's IStream \<Rightarrow> byte \<Rightarrow> string \<Rightarrow> (exn, 's \<times> UserPolicy option, 's ProtectedFileStream) sx" where
  "ProtectedFileStream_Create lib ops junk originalFileExtension =
     bnd (gets snd) (\<lambda>policy.
       case policy of
         None \<Rightarrow> CreateProtectedFileStream lib ops junk None
       | Some u \<Rightarrow>
           let h = new_header (pp_publishLicense (up_pImpl u)) (file_extension originalFileExtension)
           in seqx (bnd (on_backing (PfileHeaderWriter_Write ops h)) (\<lambda>_. ret ()))
             (seqx (bnd (on_backing (is_Flush ops)) (\<lambda>_. ret ()))
               (CreateProtectedFileStream lib ops junk (Some h))))"

section \<open>Opening a protected file\<close>

record 's GetProtectedFileStreamResult =
  gs_status :: GetUserPolicyResultStatus
  gs_referrer :: "string option"
  gs_stream :: "'s ProtectedFileStream option"

definition is_not_pfile :: "exn \<Rightarrow> bool" where
  "is_not_pfile e = (case e of Rms r \<Rightarrow> re_error r = RmsPFileError \<and> re_reason r = PFileR NotPFile | _ \<Rightarrow> False)"

text \<open>
  A policy that was just acquired is the first of the list when the list holds it, and then
  what opening does to it is seen there too.
\<close>

definition shared_policy :: "byte list \<Rightarrow> string \<Rightarrow> ProtectionPolicy \<Rightarrow> PolicyCache \<Rightarrow> PolicyCache" where
  "shared_policy pl userId p c =
     (case c of
        Some (q # qs) \<Rightarrow> if policy_matches pl userId q then Some (p # qs) else c
      | _ \<Rightarrow> c)"

definition open_with_policy ::
  "openssl \<Rightarrow> 's IStream \<Rightarrow> byte \<Rightarrow> string \<Rightarrow> PfileHeader \<Rightarrow> UserPolicy \<Rightarrow>
   (exn, 's \<times> PolicyCache, 's ProtectedFileStream) sx" where
  "open_with_policy lib ops junk userId h u s =
     (case CreateProtectedFileStream lib ops junk (Some h) (fst s, Some u) of
        (r, (b, u')) \<Rightarrow> (r, (b, shared_policy (ph_PublishingLicense h) userId (up_pImpl (the u')) (snd s))))"

definition ProtectedFileStream_Acquire ::
  "openssl \<Rightarrow> 's IStream \<Rightarrow> byte \<Rightarrow> uninit \<Rightarrow> time_point \<Rightarrow> time_point \<Rightarrow> ProtectionPolicy \<Rightarrow>
   (byte list \<Rightarrow> string \<Rightarrow> bool \<Rightarrow> nat \<Rightarrow> exn + UsageRestrictionsResponse) \<Rightarrow> string \<Rightarrow> nat \<Rightarrow> nat \<Rightarrow>
   (exn, 's \<times> PolicyCache, 's GetProtectedFileStreamResult) sx" where
  "ProtectedFileStream_Acquire lib ops junk un now now' junkp client userId options cacheMask =
     bnd (catchx (bnd (on_backing (PfileHeaderReader_Read ops un)) (\<lambda>h. ret (Some h)))
           (\<lambda>e. if is_rms e \<and> is_not_pfile e then ret None else throw e)) (\<lambda>header.
       case header of
         None \<Rightarrow> ret \<lparr>gs_status = Success, gs_referrer = None, gs_stream = None\<rparr>
       | Some h \<Rightarrow>
           bnd (zoom snd (\<lambda>c s. (fst s, c))
             (UserPolicy_Acquire lib now now' junkp client (ph_PublishingLicense h) userId options cacheMask))
             (\<lambda>r. case (if gr_Status r = Success then gr_Policy r else None) of
                None \<Rightarrow> ret \<lparr>gs_status = gr_Status r, gs_referrer = Some (gr_Referrer r), gs_stream = None\<rparr>
              | Some u \<Rightarrow> bnd (open_with_policy lib ops junk userId h u) (\<lambda>g.
                  ret \<lparr>gs_status = gr_Status r, gs_referrer = Some (gr_Referrer r), gs_stream = Some g\<rparr>)))"

section \<open>The custom protected stream\<close>

record 's CustomProtectedStream =
  cs_pImpl :: "'s BlockBasedProtectedStream"

abbreviation cs_impl :: "(exn, 's BlockBasedProtectedStream, 'a) sx \<Rightarrow> (exn, 's CustomProtectedStream, 'a) sx" where
  "cs_impl \<equiv> zoom cs_pImpl (\<lambda>i s. s\<lparr>cs_pImpl := i\<rparr>)"

definition cs_vtable :: "nat \<Rightarrow> 's IStream \<Rightarrow> 's CustomProtectedStream IStream" where
  "cs_vtable f ops = delegating cs_pImpl (\<lambda>i s. s\<lparr>cs_pImpl := i\<rparr>) (bs_vtable f ops)"

definition CustomProtectedStream_Create ::
  "'s IStream \<Rightarrow> byte \<Rightarrow> UserPolicy option \<Rightarrow> 's option \<Rightarrow> nat \<Rightarrow> nat \<Rightarrow> exn + 's CustomProtectedStream" where
  "CustomProtectedStream_Create ops junk policy stream contentStartPosition contentSize =
     (case policy of
        None \<Rightarrow> Inl (RMSInvalidArgumentException ''Invalid policy argument'')
      | Some u \<Rightarrow>
          (case pp_pCryptoProvider (up_pImpl u) of
             None \<Rightarrow> Inl NullDereference
           | Some c \<Rightarrow>
               if protected_block_size c mod cp_GetBlockSize c \<noteq> 0
               then Inl (RMSCryptographyException ''Invalid block size'')
               else bindE (BlockBasedProtectedStream_Create ops junk (Some c) stream contentStartPosition
                      contentSize (protected_block_size c)) (\<lambda>i. Inr \<lparr>cs_pImpl = i\<rparr>)))"

definition CustomProtectedStream_GetEncryptedContentLength :: "UserPolicy option \<Rightarrow> nat \<Rightarrow> exn + nat" where
  "CustomProtectedStream_GetEncryptedContentLength policy contentLength =
     (case policy of
        None \<Rightarrow> Inl (RMSNullPointerException ''Invalid policy argument'')
      | Some u \<Rightarrow>
          (case pp_pCryptoProvider (up_pImpl u) of
             None \<Rightarrow> Inl NullDereference
           | Some c \<Rightarrow> cp_GetCipherTextSize c contentLength))"

end
