(* ===== verification/ProtectedFileProperties.thy ===== *)
theory ProtectedFileProperties
  imports ProtectedFile PolicyProperties
begin

text \<open>
  Properties of protected files: what \<open>Create\<close> writes and \<open>Acquire\<close> reads back, the length
  a custom protected stream takes, and what opening an old file does to a shared policy.
\<close>

section \<open>Lemmas\<close>

text \<open>The header of a new file and its length, which \<open>Create\<close> computes from the number 454.\<close>

lemma length_new_header:
  "length (pfile_image (new_header pl ext)) = 454 + length ext + length pl"
  by (simp add: length_pfile_image new_header_def length_CleartextRedirectHeader)

lemma start_new_header:
  "454 + length ext + length pl < 2 ^ 32 \<Longrightarrow>
   ph_ContentStartPosition (new_header pl ext) = length (pfile_image (new_header pl ext))"
  by (simp add: length_new_header) (simp add: new_header_def)

lemma new_header_start:
  assumes "454 + length ext + length pl < 2 ^ 32"
  shows "(new_header pl ext)\<lparr>ph_ContentStartPosition := length (pfile_image (new_header pl ext))\<rparr> = new_header pl ext"
  by (subst start_new_header [OF assms, symmetric]) simp

lemma version_new_header:
  "has_metadata (ph_MajorVersion (new_header pl ext)) (ph_MinorVersion (new_header pl ext))"
  "ph_MajorVersion (new_header pl ext) = 3" "ph_MinorVersion (new_header pl ext) < 256"
  "ph_OriginalFileSize (new_header pl ext) < 2 ^ 64"
  by (simp_all add: new_header_def has_metadata_def MJVERSION_FOR_WRITING_def MNVERSION_FOR_WRITING_def u64_max_def)

text \<open>
  Opening a stream asks for the size first, which clears the failure bit that reading the
  header may have set.
\<close>

definition cleared :: "StdStreamAdapter \<Rightarrow> StdStreamAdapter" where
  "cleared b = b\<lparr>sa_stream := ss_clear (sa_stream b)\<rparr>"

lemma cleared_facts:
  assumes "sa_good b"
  shows "sa_inv (cleared b)" and "sa_cont (cleared b) = sa_cont b" and "is_Size sa_vtable (cleared b) = is_Size sa_vtable b"
  using assms
  by (simp_all add: cleared_def sa_good_def sa_inv_def sa_cont_def ss_clear_def sa_vtable_def sa_Size_def
      sx_simps ss_size_g_def)

lemma create_cleared:
  assumes "sa_good b"
  shows "BlockBasedProtectedStream_Create sa_vtable junk prov (Some b) start n B =
    BlockBasedProtectedStream_Create sa_vtable junk prov (Some (cleared b)) start n B"
  by (simp add: BlockBasedProtectedStream_Create_def SimpleProtectedStream_create_def cleared_facts [OF assms])

lemma size_good:
  assumes "sa_good b"
  shows "\<exists>t. is_Size sa_vtable b = (Inr (length (sa_cont b)), t) \<and> sa_good t \<and> sa_cont t = sa_cont b"
  using std_reader.rd_size [OF assms, of "ss_g (sa_stream b)"] by (auto simp: sa_rd_def)

lemma clone_good: "sa_good b \<Longrightarrow> is_Clone sa_vtable b = (Inr b, b)"
  by (cases b) (simp add: sa_good_def sa_vtable_def sa_Clone_def sx_simps)

text \<open>A policy that is in working order for mode CBC4K.\<close>

definition cbc4k_policy :: "ProtectionPolicy \<Rightarrow> Cbc4kCryptoProvider \<Rightarrow> bool" where
  "cbc4k_policy q p \<longleftrightarrow> cbc4k_valid p \<and> pp_cipherMode q = CIPHER_MODE_CBC4K \<and>
     pp_pCryptoProvider q = Some (cbc4k_vtable p)"

lemma protected_block_size_cbc4k [simp]:
  "protected_block_size (cbc4k_vtable p) = CBC4K_BLOCK_SIZE" "cp_GetBlockSize (cbc4k_vtable p) = CBC4K_BLOCK_SIZE"
  by (simp_all add: protected_block_size_def cbc4k_vtable_def CBC4K_BLOCK_SIZE_def)

lemma open_cbc4k:
  assumes b: "sa_good b" and q: "cbc4k_policy (up_pImpl u) p"
    and i: "BlockBasedProtectedStream_Create sa_vtable junk (Some (cbc4k_vtable p)) (Some b)
      (ph_ContentStartPosition h) (sub64 (length (sa_cont b)) (ph_ContentStartPosition h)) CBC4K_BLOCK_SIZE = Inr i"
  shows "\<exists>t. CreateProtectedFileStream lib sa_vtable junk (Some h) (b, Some u) =
    (Inr \<lparr>pf_policy = u, pf_originalFileExtension = ph_FileExtension h, pf_pImpl = i\<rparr>, (t, Some u))"
proof -
  obtain t where t: "is_Size sa_vtable b = (Inr (length (sa_cont b)), t)" using size_good [OF b] by auto
  have "u\<lparr>up_pImpl := up_pImpl u\<rparr> = u" by simp
  then show ?thesis
    using q i by (simp add: CreateProtectedFileStream_def clone_good [OF b] t sx_simps cbc4k_policy_def)
qed

lemma create_file:
  fixes ext :: string and w :: UserPolicy
  defines "h \<equiv> new_header (pp_publishLicense (up_pImpl w)) (file_extension ext)"
  assumes s: "sa_inv s" "sa_out s" "sa_cont s = []" and q: "cbc4k_policy (up_pImpl w) p"
    and len: "length (pfile_image h) < 2 ^ 31"
  shows "\<exists>g t. ProtectedFileStream_Create lib sa_vtable junk ext (s, Some w) = (Inr g, t) \<and>
    cbc4k_content.bs_writer p (pfile_image h) [] (pf_pImpl g) \<and> \<not> bs_locked (pf_pImpl g) \<and>
    pf_originalFileExtension g = file_extension ext"
proof -
  have "sa_append s" using s by (simp add: sa_append_def sa_inv_def sa_cont_def)
  then obtain b where b: "PfileHeaderWriter_Write sa_vtable h s = (Inr (length (pfile_image h)), b)"
      "sa_inv b" "sa_cont b = pfile_image h" "sa_append b"
    using std_appender.adds_start [OF std_appender.adds_pfile, of h s] s len by auto
  have start: "ph_ContentStartPosition h = length (sa_cont b)"
    unfolding b(3) h_def using len by (intro start_new_header) (simp add: h_def length_new_header)
  have v: "cbc4k_valid p" using q by (simp add: cbc4k_policy_def)
  have "sa_out b" using b(4) by (simp add: sa_append_def)
  from cbc4k_content.create_writer [OF v b(2) this]
  obtain i where i: "BlockBasedProtectedStream_Create sa_vtable junk (Some (cbc4k_vtable p)) (Some b)
        (ph_ContentStartPosition h) (sub64 (length (sa_cont b)) (ph_ContentStartPosition h)) CBC4K_BLOCK_SIZE = Inr i"
      "cbc4k_content.bs_writer p (sa_cont b) [] i" "\<not> bs_locked i"
    unfolding start by blast
  obtain t where "CreateProtectedFileStream lib sa_vtable junk (Some h) (b, Some w) =
      (Inr \<lparr>pf_policy = w, pf_originalFileExtension = ph_FileExtension h, pf_pImpl = i\<rparr>, (t, Some w))"
    using open_cbc4k [OF sa_good_inv [OF b(2)] q i(1)] by blast
  moreover have "is_Flush sa_vtable b = (Inr True, b)"
    using b(2) by (cases b) (simp add: sa_inv_def sa_vtable_def sa_Flush_def sx_simps)
  moreover have "ph_FileExtension h = file_extension ext" by (simp add: h_def new_header_def)
  ultimately show ?thesis
    using i(2,3) b(1,3) by (simp add: ProtectedFileStream_Create_def h_def Let_def sx_simps)
qed

lemma acquire_file:
  assumes b: "sa_good b" "sa_rd b 0" "sa_cont b = pfile_image (new_header pl ext) @ cbc4k_text p 0 P"
    and acq: "UserPolicy_Acquire lib now now' junkp client pl userId options cacheMask c =
      (Inr \<lparr>gr_Status = Success, gr_Referrer = r, gr_Policy = Some u\<rparr>, d)"
    and q: "cbc4k_policy (up_pImpl u) p" and un: "uninit_ok un"
  shows "\<exists>g t. ProtectedFileStream_Acquire lib sa_vtable junk un now now' junkp client userId options cacheMask
      (b, c) = (Inr \<lparr>gs_status = Success, gs_referrer = Some r, gs_stream = Some g\<rparr>, t) \<and>
    cbc4k_content.bs_reader p P (pf_pImpl g) \<and> pf_originalFileExtension g = ext"
proof -
  let ?h = "new_header pl ext"
  have v: "cbc4k_valid p" using q by (simp add: cbc4k_policy_def)
  have lim: "length (sa_cont b) < 2 ^ 31" using std_reader.cont_lim [OF b(1)] .
  then have len: "454 + length ext + length pl < 2 ^ 32" and total: "length (cbc4k_text p 0 P) < 2 ^ 31"
    by (simp_all add: b(3) length_new_header)
  have more: "length (pfile_prefix ?h) + 40 < length (sa_cont b)"
    by (simp add: b(3) length_pfile_image length_pfile_prefix length_cbc4k_text [OF v])
  have "std_reader.runs (sa_cont b) 0 (PfileHeaderReader_Read sa_vtable un) (\<lambda>r k. r = Inr ?h)"
    using lim version_new_header [of pl ext] un more
    by (intro std_reader.runs_pfile [OF b(3)]) (simp_all add: new_header_start [OF len])
  then obtain b1 where b1: "PfileHeaderReader_Read sa_vtable un b = (Inr ?h, b1)" "sa_good b1" "sa_cont b1 = sa_cont b"
    using std_reader.runs_start [OF b(1,2)] by blast
  note ready = cleared_facts [OF b1(2)]
  have start: "ph_ContentStartPosition ?h = length (pfile_image ?h)" by (rule start_new_header [OF len])
  have n: "sub64 (length (sa_cont b1)) (ph_ContentStartPosition ?h) = length (cbc4k_text p 0 P)"
    using lim by (simp add: start b1(3) b(3))
  have c: "sa_cont (cleared b1) = pfile_image ?h @ cbc4k_text p 0 P @ []" by (simp add: ready b1(3) b(3))
  have m: "min (length (cbc4k_text p 0 P)) (length (cbc4k_text p 0 P @ [])) = length (cbc4k_text p 0 P)" by simp
  from cbc4k_content.create_reader [OF v TrueI ready(1) c m]
  obtain i where i: "BlockBasedProtectedStream_Create sa_vtable junk (Some (cbc4k_vtable p)) (Some b1)
        (ph_ContentStartPosition ?h) (sub64 (length (sa_cont b1)) (ph_ContentStartPosition ?h)) CBC4K_BLOCK_SIZE = Inr i"
      "cbc4k_content.bs_reader p P i"
    unfolding create_cleared [OF b1(2)] start [symmetric] n [symmetric] by blast
  have e: "ph_FileExtension ?h = ext" "ph_PublishingLicense ?h = pl" by (simp_all add: new_header_def)
  obtain t where "CreateProtectedFileStream lib sa_vtable junk (Some ?h) (b1, Some u) =
      (Inr \<lparr>pf_policy = u, pf_originalFileExtension = ext, pf_pImpl = i\<rparr>, (t, Some u))"
    using open_cbc4k [OF b1(2) q i(1), unfolded e] by blast
  then show ?thesis
    using i(2) b1(1) acq
    by (simp add: ProtectedFileStream_Acquire_def open_with_policy_def sx_simps e)
qed

section \<open>Properties\<close>

text \<open>
  C1: the round trip of a protected file, from the application's calls to the application's
  calls. A file is created over an empty stream with a policy in mode CBC4K, chunks of any
  sizes are written and flushed. Whoever acquires the file from the bytes stored, and is
  granted a policy with the same key, gets a stream with the original extension, whose
  reads from any offsets inside the text are the slices of what was written.
\<close>

theorem protected_file_roundtrip:
  assumes "sa_inv s" and "sa_out s" and "sa_cont s = []" and "cbc4k_policy (up_pImpl w) p"
    and "454 + length (file_extension ext) + length (pp_publishLicense (up_pImpl w)) + length (concat ds) +
      CBC4K_BLOCK_SIZE < 2 ^ 31"
    and "UserPolicy_Acquire lib now now' junkp client (pp_publishLicense (up_pImpl w)) userId options cacheMask c =
      (Inr \<lparr>gr_Status = Success, gr_Referrer = r, gr_Policy = Some u\<rparr>, d)"
    and "cbc4k_policy (up_pImpl u) p" and "uninit_ok un" and "\<forall>q \<in> set rs. fst q \<le> length (concat ds)"
  shows "\<exists>g t g' h t' h'. ProtectedFileStream_Create lib sa_vtable junk ext (s, Some w) = (Inr g, t) \<and>
    pf_impl (write_script (Suc f) sa_vtable ds) g = (Inr True, g') \<and>
    ProtectedFileStream_Acquire lib sa_vtable junk un now now' junkp client userId options cacheMask
      (stream_of (stored (pf_pImpl g')), c) =
        (Inr \<lparr>gs_status = Success, gs_referrer = Some r, gs_stream = Some h\<rparr>, t') \<and>
    pf_originalFileExtension h = file_extension ext \<and>
    pf_impl (read_script (Suc f) sa_vtable rs) h = (Inr (slices (concat ds) rs), h')"
proof -
  let ?h = "new_header (pp_publishLicense (up_pImpl w)) (file_extension ext)"
  have v: "cbc4k_valid p" using assms(4) by (simp add: cbc4k_policy_def)
  have len: "length (pfile_image ?h) < 2 ^ 31"
    and bound: "length (pfile_image ?h) + length ([] @ concat ds) + CBC4K_BLOCK_SIZE < 2 ^ 31"
    using assms(5) by (simp_all add: length_new_header)
  obtain g t where g: "ProtectedFileStream_Create lib sa_vtable junk ext (s, Some w) = (Inr g, t)"
      "cbc4k_content.bs_writer p (pfile_image ?h) [] (pf_pImpl g)" "\<not> bs_locked (pf_pImpl g)"
    using create_file [OF assms(1-4) len] by blast
  have "\<exists>i. write_script (Suc f) sa_vtable ds (pf_pImpl g) = (Inr True, i) \<and>
      sa_inv (sp_backing (cb_Simple (bs_cb i))) \<and>
      sa_cont (sp_backing (cb_Simple (bs_cb i))) = pfile_image ?h @ cbc4k_text p 0 ([] @ concat ds)"
    using cbc4k.cipher_size_0 [OF v, of 0] bound
    by (intro cbc4k_content.write_script_writer [OF g(2,3)]) simp_all
  then obtain i where i: "write_script (Suc f) sa_vtable ds (pf_pImpl g) = (Inr True, i)"
      "sa_inv (sp_backing (cb_Simple (bs_cb i)))" "stored i = pfile_image ?h @ cbc4k_text p 0 (concat ds)"
    unfolding stored_def append_Nil by blast
  have small: "length (stored i) < 2 ^ 31" using std_stream.cont_bound [OF i(2)] by (simp only: stored_def)
  have b: "sa_good (stream_of (stored i))" "sa_rd (stream_of (stored i)) 0"
      "sa_cont (stream_of (stored i)) = pfile_image ?h @ cbc4k_text p 0 (concat ds)"
    unfolding i(3) [symmetric] using small by (simp_all only: stream_of_facts)
  obtain h t' where h: "ProtectedFileStream_Acquire lib sa_vtable junk un now now' junkp client userId options cacheMask
      (stream_of (stored i), c) = (Inr \<lparr>gs_status = Success, gs_referrer = Some r, gs_stream = Some h\<rparr>, t')"
      "cbc4k_content.bs_reader p (concat ds) (pf_pImpl h)" "pf_originalFileExtension h = file_extension ext"
    using acquire_file [OF b assms(6-8)] by blast
  obtain j where "read_script (Suc f) sa_vtable rs (pf_pImpl h) = (Inr (slices (concat ds) rs), j)"
    using cbc4k_content.read_script_reader [OF h(2) assms(9), of f] by (elim exE conjE)
  then have "pf_impl (read_script (Suc f) sa_vtable rs) h = (Inr (slices (concat ds) rs), h\<lparr>pf_pImpl := j\<rparr>)"
    by (simp add: zoom_app)
  moreover have "pf_impl (write_script (Suc f) sa_vtable ds) g = (Inr True, g\<lparr>pf_pImpl := i\<rparr>)"
    using i(1) by (simp add: zoom_app)
  moreover have "pf_pImpl (g\<lparr>pf_pImpl := i\<rparr>) = i" by simp
  ultimately show ?thesis using g(1) h(1,3) by metis
qed

definition sample_key0 :: Cbc4kCryptoProvider where
  "sample_key0 = cbc4k_of xor_evp (replicate 16 0)"

definition granted_response :: UsageRestrictionsResponse where
  "granted_response = sample_response\<lparr>us_accessStatus := ''accessgranted'', us_key := pb_key sample_published\<rparr>"

definition sample_user_policy :: UserPolicy where
  "sample_user_policy = \<lparr>up_pImpl = sample_policy\<lparr>pp_pCryptoProvider := Some (cbc4k_vtable sample_key0)\<rparr>,
     up_policyDescriptor = None, up_templateDescriptor = None\<rparr>"

lemma sample_key0_valid: "cbc4k_valid sample_key0"
  by (simp add: sample_key0_def cbc4k_of_valid xor_evp_ok valid_key_16)

lemma sample_user_policy_cbc4k: "cbc4k_policy (up_pImpl sample_user_policy) sample_key0"
  by (simp add: sample_user_policy_def cbc4k_policy_def sample_key0_valid sample_policy_def)

lemma sample_license: "pp_publishLicense (up_pImpl sample_user_policy) = [1, 2]"
  by (simp add: sample_user_policy_def sample_policy_def)

lemma sample_granted:
  "\<exists>u d. UserPolicy_Acquire sample_openssl 5 6 sample_policy (\<lambda>pl e o' m. Inr granted_response) [1, 2] ''bo'' 0 0 None =
     (Inr \<lparr>gr_Status = Success, gr_Referrer = [], gr_Policy = Some u\<rparr>, d) \<and> cbc4k_policy (up_pImpl u) sample_key0"
proof -
  have "MapAccessStatus ''accessgranted'' = Inr ACCESS_STATUS_ACCESS_GRANTED"
    by (simp add: MapAccessStatus_def stricmp_eq_def c_str_def to_lower_def Let_def char_of_def bit_0)
  then show ?thesis
    using sample_key0_valid
    by (simp add: UserPolicy_Acquire_def pp_Acquire_def GetCachedProtectionPolicy_def pp_Initialize_def sx_simps
        granted_response_def sample_key_init rms_exn_defs pp_fill_def pp_fill_custom_def sample_response_def
        pp_InitializeIntervalTime_def pp_InitializeValidityTime_def in_memory_def UserPolicy_create_def pp_IsAdhoc_def
        TemplateDescriptor_policy_def cbc4k_policy_def sample_key0_def to_time_t_def trunc_div_def
        ProtectionPolicy_create_def RESPONSE_CACHE_INMEMORY_def
        del: replicate.simps)
qed

theorem protected_file_roundtrip_witness:
  "\<exists>u g t g' h t' h'. ProtectedFileStream_Create sample_openssl sa_vtable 0 ''.txt'' (stream_of [], Some sample_user_policy) =
      (Inr g, t) \<and>
    pf_impl (write_script (Suc 0) sa_vtable [[1, 2], [3]]) g = (Inr True, g') \<and>
    ProtectedFileStream_Acquire sample_openssl sa_vtable 0 sample_uninit 5 6 sample_policy (\<lambda>pl e o' m. Inr granted_response)
      ''bo'' 0 0 (stream_of (stored (pf_pImpl g')), None) =
        (Inr \<lparr>gs_status = Success, gs_referrer = Some [], gs_stream = Some h\<rparr>, t') \<and>
    pf_originalFileExtension h = file_extension ''.txt'' \<and>
    pf_impl (read_script (Suc 0) sa_vtable [(1, 5)]) h = (Inr (slices (concat [[1, 2], [3]]) [(1, 5)]), h')"
proof -
  obtain u d where "UserPolicy_Acquire sample_openssl 5 6 sample_policy (\<lambda>pl e o' m. Inr granted_response)
      (pp_publishLicense (up_pImpl sample_user_policy)) ''bo'' 0 0 None =
     (Inr \<lparr>gr_Status = Success, gr_Referrer = [], gr_Policy = Some u\<rparr>, d)" "cbc4k_policy (up_pImpl u) sample_key0"
    using sample_granted unfolding sample_license by blast
  from protected_file_roundtrip [OF _ _ _ sample_user_policy_cbc4k _ this sample_uninit_ok, where ds = "[[1, 2], [3]]"
      and s = "stream_of []" and ext = "''.txt''" and rs = "[(1, 5)]"]
  show ?thesis by (simp add: stream_of_facts sample_license file_extension_def CBC4K_BLOCK_SIZE_def)
qed

text \<open>
  C20: the number an application is told before it writes is the number of bytes that are
  written. In mode CBC4K a custom protected stream over the end of a backing stream, given
  chunks of any sizes and a flush, makes the backing stream longer by exactly
  \<open>GetEncryptedContentLength\<close> of the text's length.
\<close>

theorem custom_stream_length:
  assumes "cbc4k_policy (up_pImpl u) p" and "sa_inv b" and "sa_out b"
    and "length (sa_cont b) + length (concat ds) + CBC4K_BLOCK_SIZE < 2 ^ 31"
  shows "\<exists>g t n. CustomProtectedStream_Create sa_vtable junk (Some u) (Some b) (length (sa_cont b)) m = Inr g \<and>
    cs_impl (write_script (Suc f) sa_vtable ds) g = (Inr True, t) \<and>
    CustomProtectedStream_GetEncryptedContentLength (Some u) (length (concat ds)) = Inr n \<and>
    length (stored (cs_pImpl t)) = length (sa_cont b) + n"
proof -
  have v: "cbc4k_valid p" and cp: "pp_pCryptoProvider (up_pImpl u) = Some (cbc4k_vtable p)"
    using assms(1) by (simp_all add: cbc4k_policy_def)
  obtain i where i: "BlockBasedProtectedStream_Create sa_vtable junk (Some (cbc4k_vtable p)) (Some b)
        (length (sa_cont b)) m CBC4K_BLOCK_SIZE = Inr i" "cbc4k_content.bs_writer p (sa_cont b) [] i" "\<not> bs_locked i"
    using cbc4k_content.create_writer [OF v assms(2,3), of junk m] by (elim exE conjE)
  have "\<exists>t. write_script (Suc f) sa_vtable ds i = (Inr True, t) \<and>
      sa_inv (sp_backing (cb_Simple (bs_cb t))) \<and>
      sa_cont (sp_backing (cb_Simple (bs_cb t))) = sa_cont b @ cbc4k_text p 0 ([] @ concat ds)"
    using cbc4k.cipher_size_0 [OF v, of 0] assms(4)
    by (intro cbc4k_content.write_script_writer [OF i(2,3)]) simp_all
  then obtain t where t: "write_script (Suc f) sa_vtable ds i = (Inr True, t)"
      "stored t = sa_cont b @ cbc4k_text p 0 (concat ds)"
    by (auto simp: stored_def)
  have "cp_GetCipherTextSize (cbc4k_vtable p) (length (concat ds)) = Inr (length (cbc4k_text p 0 (concat ds)))"
    using assms(4) div_le_dividend [of "length (concat ds)" 16]
    by (simp add: cbc4k_vtable_def cbc4k_GetCipherTextSize_def length_cbc4k_text [OF v] AES128_BLOCK_SIZE_def mul64_def
        del: div_le_dividend)
  with t i(1) cp show ?thesis
    by (simp add: CustomProtectedStream_Create_def CustomProtectedStream_GetEncryptedContentLength_def zoom_app
        CBC4K_BLOCK_SIZE_def)
qed

theorem custom_stream_length_witness:
  "\<exists>g t n. CustomProtectedStream_Create sa_vtable 0 (Some sample_user_policy) (Some sample_file)
      (length (sa_cont sample_file)) 0 = Inr g \<and>
    cs_impl (write_script (Suc 0) sa_vtable [[1, 2], [3]]) g = (Inr True, t) \<and>
    CustomProtectedStream_GetEncryptedContentLength (Some sample_user_policy) (length (concat [[1::byte, 2], [3]])) = Inr n \<and>
    length (stored (cs_pImpl t)) = length (sa_cont sample_file) + n"
  by (rule custom_stream_length [OF sample_user_policy_cbc4k])
    (simp_all add: sample_file_facts CBC4K_BLOCK_SIZE_def)

text \<open>
  Opening a file of an old version changes a policy that others hold. When the list
  holds a granted policy in mode ECB for the file's license, then after \<open>Acquire\<close> of a file
  of version 2, whatever it returns, the policy in the list is in mode CBC4K; a custom
  protected stream that is made from it next encrypts in another mode than one made
  before.
\<close>

theorem old_file_changes_shared_policy:
  assumes "PfileHeaderReader_Read ops un b = (Inr h, b1)" and "is_Clone ops b1 = (Inr b2, b3)"
    and "ph_MajorVersion h \<le> MaxMajorVerionsCBC4KIsForced"
    and "policy_matches (ph_PublishingLicense h) userId q" and "pp_cipherMode q = CIPHER_MODE_ECB"
    and "pp_accessStatus q = ACCESS_STATUS_ACCESS_GRANTED" and "pp_pCryptoProvider q = Some cp"
    and "UserPolicy_create q = Inr u"
  shows "\<exists>r b' q'. ProtectedFileStream_Acquire lib ops junk un now now' junkp client userId options cacheMask
      (b, Some (q # qs)) = (r, (b', Some (q' # qs))) \<and> pp_cipherMode q' = CIPHER_MODE_CBC4K"
proof -
  let ?c = "CreateProtectedFileStream lib ops junk (Some h) (b1, Some u)"
  have up: "up_pImpl u = q" using assms(8) by (auto simp: UserPolicy_create_def bindE_eq_Inr split: if_splits)
  have "UserPolicy_Acquire lib now now' junkp client (ph_PublishingLicense h) userId options cacheMask (Some (q # qs)) =
      (Inr \<lparr>gr_Status = Success, gr_Referrer = pp_referrer q, gr_Policy = Some u\<rparr>, Some (q # qs))"
    using assms(4,6,8) by (simp add: UserPolicy_Acquire_def pp_Acquire_def lookup_front sx_simps)
  moreover have "\<exists>u'. snd (snd ?c) = Some u' \<and> pp_cipherMode (up_pImpl u') = CIPHER_MODE_CBC4K"
    using assms(2,3,5,7) up
    by (auto simp: CreateProtectedFileStream_def pp_ReinitilizeCryptoProvider_def sx_simps
        split: sum.split prod.split option.split)
  then obtain r b' u' where "?c = (r, (b', Some u'))" "pp_cipherMode (up_pImpl u') = CIPHER_MODE_CBC4K"
    by (metis prod.collapse)
  ultimately show ?thesis using assms(1,4)
    by (cases r) (simp_all add: ProtectedFileStream_Acquire_def open_with_policy_def shared_policy_def sx_simps)
qed

definition old_header :: PfileHeader where
  "old_header = sample_header\<lparr>ph_PublishingLicense := [1, 2], ph_MajorVersion := 2, ph_MinorVersion := 1\<rparr>"

definition ecb_policy :: ProtectionPolicy where
  "ecb_policy = sample_policy\<lparr>pp_cipherMode := CIPHER_MODE_ECB, pp_pCryptoProvider := Some (cbc4k_vtable sample_key0)\<rparr>"

lemma read_old_header:
  "\<exists>b1. PfileHeaderReader_Read sa_vtable sample_uninit (stream_of (pfile_image old_header @ [9])) =
     (Inr (old_header\<lparr>ph_ContentStartPosition := length (pfile_image old_header)\<rparr>), b1) \<and> sa_good b1"
proof -
  let ?c = "pfile_image old_header @ [9]"
  have len: "length (pfile_image old_header) = 72"
    by (simp add: length_pfile_image old_header_def sample_header_def)
  then have b: "sa_good (stream_of ?c)" "sa_rd (stream_of ?c) 0" "sa_cont (stream_of ?c) = ?c"
    by (simp_all add: stream_of_facts)
  have "length (pfile_prefix old_header) + 40 < length ?c"
    by (simp add: len length_pfile_prefix) (simp add: old_header_def sample_header_def)
  then have "std_reader.runs ?c 0 (PfileHeaderReader_Read sa_vtable sample_uninit)
      (\<lambda>r k. r = Inr (old_header\<lparr>ph_ContentStartPosition := length (pfile_image old_header)\<rparr>))"
    by (intro std_reader.runs_pfile [OF refl])
      (simp_all add: len sample_uninit_ok, simp_all add: old_header_def sample_header_def has_metadata_def)
  from std_reader.runs_start [OF b(1,2), unfolded b(3), OF this] show ?thesis by blast
qed

theorem old_file_changes_shared_policy_witness:
  "\<exists>r b' q'. ProtectedFileStream_Acquire sample_openssl sa_vtable 0 sample_uninit 5 6 sample_policy
      (\<lambda>pl e o' m. Inl StdException) [] 0 0 (stream_of (pfile_image old_header @ [9]), Some [ecb_policy]) =
      (r, (b', Some [q'])) \<and> pp_cipherMode q' = CIPHER_MODE_CBC4K"
proof -
  obtain b1 where b1: "PfileHeaderReader_Read sa_vtable sample_uninit (stream_of (pfile_image old_header @ [9])) =
     (Inr (old_header\<lparr>ph_ContentStartPosition := length (pfile_image old_header)\<rparr>), b1)" "sa_good b1"
    using read_old_header by blast
  have "\<exists>u. UserPolicy_create ecb_policy = Inr u"
    by (simp add: ecb_policy_def sample_policy_def UserPolicy_create_def pp_IsAdhoc_def PolicyDescriptor_policy_def Let_def)
  then obtain u where "UserPolicy_create ecb_policy = Inr u" by blast
  from old_file_changes_shared_policy [OF b1(1) clone_good [OF b1(2)] _ _ _ _ _ this, where qs = "[]"]
  show ?thesis
    by (simp add: old_header_def ecb_policy_def sample_policy_def MaxMajorVerionsCBC4KIsForced_def policy_matches_def)
qed

end
