(* ===== verification/IniFile.thy ===== *)
theory IniFile
  imports Tools StdStream "HOL-Library.Char_ord" "HOL-Library.List_Lexorder"
begin

text \<open>
  The settings file (\<open>sdk/rmsutils/IniFile.h\<close>): a map from paths to values that is read
  from a text file and written back when it has changed. The file is its content, or
  \<open>None\<close> when it cannot be opened; \<open>char\<close> is signed, as on the platforms the library is
  built for.
\<close>

section \<open>Characters\<close>

abbreviation nl :: char where "nl \<equiv> CHR 0x0A"
abbreviation backslash :: char where "backslash \<equiv> CHR 0x5C"
abbreviation percent :: char where "percent \<equiv> CHR 0x25"

definition ascii :: "char \<Rightarrow> bool" where
  "ascii c \<longleftrightarrow> (of_char c :: nat) < 128"

definition isspace :: "char \<Rightarrow> bool" where
  "isspace c \<longleftrightarrow> c \<in> set [CHR '' '', CHR 0x09, CHR 0x0A, CHR 0x0B, CHR 0x0C, CHR 0x0D]"

definition hex_value :: "char \<Rightarrow> nat option" where
  "hex_value c =
     (let n = of_char c in
      if 48 \<le> n \<and> n \<le> 57 then Some (n - 48)
      else if 97 \<le> n \<and> n \<le> 102 then Some (n - 87)
      else if 65 \<le> n \<and> n \<le> 70 then Some (n - 55)
      else None)"

definition isxdigit :: "char \<Rightarrow> bool" where
  "isxdigit c \<longleftrightarrow> hex_value c \<noteq> None"

definition hex_digit :: "nat \<Rightarrow> char" where
  "hex_digit n = char_of (if n < 10 then 48 + n else 87 + n)"

section \<open>The coding of paths\<close>

record NameCoder =
  nc_first :: char
  nc_state :: nat
  nc_out :: string

definition NameCoder_create :: NameCoder where
  "NameCoder_create = \<lparr>nc_first = CHR 0x00, nc_state = 0, nc_out = []\<rparr>"

text \<open>\<open>sscanf\<close> with \<open>%x\<close> over two hexadecimal digits.\<close>

definition nc_decode :: "char \<Rightarrow> NameCoder \<Rightarrow> NameCoder" where
  "nc_decode c0 s =
     (let c = (if c0 = CHR ''/'' then backslash else c0) in
      if nc_state s = 0 then
        (if c \<noteq> percent then s\<lparr>nc_out := nc_out s @ [c]\<rparr> else s\<lparr>nc_state := 1\<rparr>)
      else if nc_state s = 1 then
        (if \<not> isxdigit c then s\<lparr>nc_out := nc_out s @ [percent, c], nc_state := 0\<rparr>
         else s\<lparr>nc_first := c, nc_state := 2\<rparr>)
      else
        (case (hex_value (nc_first s), hex_value c) of
           (Some a, Some b) \<Rightarrow> s\<lparr>nc_state := 0, nc_out := nc_out s @ [char_of (16 * a + b)]\<rparr>
         | _ \<Rightarrow> s\<lparr>nc_state := 0, nc_out := nc_out s @ [percent, nc_first s, c]\<rparr>))"

definition nc_decode_finish :: "NameCoder \<Rightarrow> string" where
  "nc_decode_finish s =
     (if nc_state s = 1 then nc_out s @ [percent]
      else if nc_state s = 2 then nc_out s @ [percent, nc_first s]
      else nc_out s)"

text \<open>
  \<open>snprintf\<close> with \<open>%02x\<close> of a negative \<open>char\<close> gives eight digits, of which the first two
  are taken.
\<close>

definition nc_encode :: "char \<Rightarrow> string" where
  "nc_encode c =
     (let n = of_char c in
      if (97 \<le> n \<and> n \<le> 122) \<or> (65 \<le> n \<and> n \<le> 90) \<or> (48 \<le> n \<and> n \<le> 57) \<or> c = CHR ''-'' \<or> c = CHR ''_''
      then [c]
      else if n < 128 then [percent, hex_digit (n div 16), hex_digit (n mod 16)]
      else [percent, CHR ''f'', CHR ''f''])"

definition decodePath :: "string \<Rightarrow> string" where
  "decodePath name = nc_decode_finish (fold nc_decode name NameCoder_create)"

definition encodePath :: "string \<Rightarrow> string" where
  "encodePath name = concat (map nc_encode name)"

definition decodeUserPath :: "string \<Rightarrow> string" where
  "decodeUserPath name =
     (let path = map (\<lambda>c. if c = CHR ''/'' then backslash else c) name
      in if backslash \<in> set path then path else ''General'' @ [backslash] @ path)"

section \<open>The map\<close>

text \<open>A \<open>std::map\<close> is the list of its entries in the order of the keys.\<close>

type_synonym kv_map = "(string \<times> string) list"

fun kv_set :: "string \<Rightarrow> string \<Rightarrow> kv_map \<Rightarrow> kv_map" where
  "kv_set k v [] = [(k, v)]"
| "kv_set k v ((k', v') # xs) =
     (if k = k' then (k, v) # xs else if k < k' then (k, v) # (k', v') # xs else (k', v') # kv_set k v xs)"

definition kv_sorted :: "kv_map \<Rightarrow> bool" where
  "kv_sorted xs \<longleftrightarrow> sorted_wrt (<) (map fst xs)"

section \<open>Writing the file\<close>

fun save_from :: "string \<Rightarrow> kv_map \<Rightarrow> string" where
  "save_from current_group [] = []"
| "save_from current_group ((key, val) # xs) =
     (let grp = encodePath (takeWhile (\<lambda>c. c \<noteq> backslash) key);
          subpath = encodePath (tl (dropWhile (\<lambda>c. c \<noteq> backslash) key));
          header = (if current_group \<noteq> grp
                    then (if current_group \<noteq> [] then [nl] else []) @ ''['' @ grp @ '']'' @ [nl] else [])
      in header @ subpath @ '' = '' @ val @ [nl] @ save_from grp xs)"

definition ini_save :: "kv_map \<Rightarrow> string" where
  "ini_save xs = save_from [] xs"

section \<open>Reading the file\<close>

definition trim :: "string \<Rightarrow> string" where
  "trim str =
     (let beg = length (takeWhile isspace str); fin = length (dropWhile isspace (rev str))
      in take (fin - beg) (drop beg str))"

record IniParser =
  ip_group :: string
  ip_kv :: kv_map
  ip_line :: string

definition Parser_parse :: "string \<Rightarrow> IniParser \<Rightarrow> IniParser" where
  "Parser_parse input p =
     (let line = trim input in
      if line = [] then p
      else if line ! 0 = CHR ''['' then
        (if CHR '']'' \<notin> set (tl line) then p
         else let g = trim (takeWhile (\<lambda>c. c \<noteq> CHR '']'') (tl line))
              in p\<lparr>ip_group := (if g = [] then ''General'' else g)\<rparr>)
      else if CHR ''='' \<notin> set line then p
      else
        let key = trim (takeWhile (\<lambda>c. c \<noteq> CHR ''='') line);
            val = trim (tl (dropWhile (\<lambda>c. c \<noteq> CHR ''='') line))
        in p\<lparr>ip_kv := kv_set (decodePath (ip_group p @ [backslash] @ key)) val (ip_kv p)\<rparr>)"

text \<open>The inner loop over one buffer, and the outer loop over the pieces that \<open>fread\<close> returns.\<close>

function feed :: "string \<Rightarrow> IniParser \<Rightarrow> IniParser" where
  "feed buff p =
     (let q = p\<lparr>ip_line := ip_line p @ takeWhile (\<lambda>c. c \<noteq> nl) buff\<rparr>
      in case dropWhile (\<lambda>c. c \<noteq> nl) buff of
           [] \<Rightarrow> q
         | c # rest \<Rightarrow> feed rest ((Parser_parse (ip_line q) q)\<lparr>ip_line := []\<rparr>))"
  by pat_completeness auto
termination
proof (relation "measure (\<lambda>(b, p). length b)", simp)
  fix buff :: string and p x c rest
  assume "dropWhile (\<lambda>c. c \<noteq> nl) buff = c # rest"
  then show "((rest, (Parser_parse (ip_line x) x)\<lparr>ip_line := []\<rparr>), buff, p) \<in> measure (\<lambda>(b, p). length b)"
    using length_dropWhile_le [of "\<lambda>c. c \<noteq> nl" buff] by simp
qed

declare feed.simps [simp del]

definition buff_size :: nat where
  "buff_size = 1024"

function load_loop :: "string \<Rightarrow> IniParser \<Rightarrow> IniParser" where
  "load_loop file p = (if file = [] then p else load_loop (drop buff_size file) (feed (take buff_size file) p))"
  by pat_completeness auto
termination
  by (relation "measure (\<lambda>(f, p). length f)") (auto simp: buff_size_def)

declare load_loop.simps [simp del]

definition ini_load :: "string option \<Rightarrow> kv_map" where
  "ini_load file =
     (case file of
        None \<Rightarrow> []
      | Some content \<Rightarrow> ip_kv (load_loop content \<lparr>ip_group = ''General'', ip_kv = [], ip_line = []\<rparr>))"

section \<open>The object\<close>

record IniFile =
  ini_updated :: bool
  ini_kv_map :: kv_map
  ini_current_group :: string

definition IniFile_create :: "string option \<Rightarrow> IniFile" where
  "IniFile_create file = \<lparr>ini_updated = False, ini_kv_map = ini_load file, ini_current_group = []\<rparr>"

text \<open>The file after the destructor; \<open>can_write\<close> says whether it can be opened for writing.\<close>

definition IniFile_destroy :: "bool \<Rightarrow> IniFile \<Rightarrow> string option \<Rightarrow> string option" where
  "IniFile_destroy can_write s file = (if ini_updated s \<and> can_write then Some (ini_save (ini_kv_map s)) else file)"

definition ini_beginGroup :: "string \<Rightarrow> IniFile \<Rightarrow> IniFile" where
  "ini_beginGroup grp s = s\<lparr>ini_current_group := decodeUserPath grp\<rparr>"

definition ini_endGroup :: "IniFile \<Rightarrow> IniFile" where
  "ini_endGroup s = s\<lparr>ini_current_group := []\<rparr>"

definition ini_setValue :: "string \<Rightarrow> string \<Rightarrow> IniFile \<Rightarrow> IniFile" where
  "ini_setValue key val s =
     s\<lparr>ini_kv_map := kv_set (decodeUserPath key) val (ini_kv_map s), ini_updated := True\<rparr>"

definition ini_getValue :: "string \<Rightarrow> string \<Rightarrow> IniFile \<Rightarrow> string" where
  "ini_getValue key default_value s =
     (case map_of (ini_kv_map s) (decodeUserPath key) of Some v \<Rightarrow> v | None \<Rightarrow> default_value)"

text \<open>
  \<open>strtol\<close> in base 10: white space, a sign, digits; the value is clamped to a \<open>long\<close>. Without
  digits nothing is consumed.
\<close>

definition isdigit :: "char \<Rightarrow> bool" where
  "isdigit c \<longleftrightarrow> 48 \<le> (of_char c :: nat) \<and> (of_char c :: nat) \<le> 57"

definition digits_value :: "string \<Rightarrow> nat" where
  "digits_value ds = fold (\<lambda>c n. 10 * n + (of_char c - 48)) ds 0"

definition strtol :: "string \<Rightarrow> int \<times> string" where
  "strtol str =
     (let s = dropWhile isspace str;
          neg = (s \<noteq> [] \<and> s ! 0 = CHR ''-'');
          t = (if s \<noteq> [] \<and> (s ! 0 = CHR ''-'' \<or> s ! 0 = CHR ''+'') then tl s else s);
          ds = takeWhile isdigit t;
          v = int (digits_value ds)
      in if ds = [] then (0, str)
         else (max (- (2 ^ 63)) (min (2 ^ 63 - 1) (if neg then - v else v)), dropWhile isdigit t))"

definition ini_getBool :: "string \<Rightarrow> bool \<Rightarrow> IniFile \<Rightarrow> bool" where
  "ini_getBool key default_value s =
     (let val = ini_getValue key [] s in
      if val = [] then default_value
      else case strtol (c_str val) of (lval, endptr) \<Rightarrow>
        if endptr = [] then lval \<noteq> 0 else \<not> stricmp_eq val ''false'')"

definition ini_getInt :: "string \<Rightarrow> int \<Rightarrow> IniFile \<Rightarrow> int" where
  "ini_getInt key default_value s =
     (let val = ini_getValue key [] s in
      if val = [] then default_value
      else case strtol (c_str val) of (lval, endptr) \<Rightarrow> if endptr = [] then as_int lval else default_value)"

text \<open>What a string stream prints for an \<open>int\<close> and a \<open>bool\<close>.\<close>

fun show_nat :: "nat \<Rightarrow> string" where
  "show_nat n = (if n < 10 then [char_of (48 + n)] else show_nat (n div 10) @ [char_of (48 + n mod 10)])"

declare show_nat.simps [simp del]

definition show_int :: "int \<Rightarrow> string" where
  "show_int n = (if n < 0 then ''-'' @ show_nat (nat (- n)) else show_nat (nat n))"

definition show_bool :: "bool \<Rightarrow> string" where
  "show_bool b = (if b then ''1'' else ''0'')"

section \<open>The local settings\<close>

text \<open>
  \<open>LocalSettingsQt\<close> (\<open>rms_sdk/Platform/Settings/LocalSettingsQt.cpp\<close>). Every caller creates
  the object anew and destroys it after one call.
\<close>

definition settings_key :: "string \<Rightarrow> string \<Rightarrow> string" where
  "settings_key container name = (if container = [] then name else container @ ''/'' @ name)"

definition GetString :: "string \<Rightarrow> string \<Rightarrow> string \<Rightarrow> IniFile \<Rightarrow> string" where
  "GetString container name defaultValue s = ini_getValue (settings_key container name) defaultValue s"

definition GetBool :: "string \<Rightarrow> string \<Rightarrow> bool \<Rightarrow> IniFile \<Rightarrow> bool" where
  "GetBool container name bDefaultValue s = ini_getBool (settings_key container name) bDefaultValue s"

definition SetBool :: "string \<Rightarrow> string \<Rightarrow> bool \<Rightarrow> IniFile \<Rightarrow> IniFile" where
  "SetBool container name bValue s = ini_setValue (settings_key container name) (show_bool bValue) s"

definition GetInt :: "string \<Rightarrow> string \<Rightarrow> int \<Rightarrow> IniFile \<Rightarrow> int" where
  "GetInt container name nDefaultValue s = ini_getInt (settings_key container name) nDefaultValue s"

definition SetInt :: "string \<Rightarrow> string \<Rightarrow> int \<Rightarrow> IniFile \<Rightarrow> IniFile" where
  "SetInt container name nValue s = ini_setValue (settings_key container name) (show_int nValue) s"

text \<open>One setting is written by an object of its own, which is then destroyed.\<close>

definition set_int_in_file :: "string \<Rightarrow> string \<Rightarrow> int \<Rightarrow> string option \<Rightarrow> string option" where
  "set_int_in_file container name n f = IniFile_destroy True (SetInt container name n (IniFile_create f)) f"

end
