(* ===== verification/IniProperties.thy ===== *)
theory IniProperties
  imports IniFile
begin

text \<open>
  The settings file: reading it in pieces does not change what is read, and a map written to
  a file is read back from it, key by key, when the keys are ASCII.
\<close>

section \<open>The coding of paths\<close>

lemma hex_value_digit: "n < 16 \<Longrightarrow> hex_value (hex_digit n) = Some n"
  by (simp add: hex_value_def hex_digit_def Let_def)

lemma of_char_neq: "of_char c \<noteq> (of_char d :: nat) \<Longrightarrow> c \<noteq> d"
  by auto

lemma decode_encode_char:
  assumes "ascii c" and "nc_state s = 0"
  shows "nc_state (fold nc_decode (nc_encode c) s) = 0 \<and>
    nc_out (fold nc_decode (nc_encode c) s) = nc_out s @ [c]"
proof -
  let ?n = "of_char c :: nat"
  let ?a = "hex_digit (?n div 16)" and ?b = "hex_digit (?n mod 16)"
  have n: "?n < 128" using assms(1) by (simp add: ascii_def)
  then have h: "hex_value ?a = Some (?n div 16)" "hex_value ?b = Some (?n mod 16)"
    by (simp_all add: hex_value_digit)
  have slash: "hex_value (CHR ''/'') = None" "hex_value percent = None"
    by (simp_all add: hex_value_def Let_def)
  have ne: "?a \<noteq> CHR ''/''" "?b \<noteq> CHR ''/''" using h slash by auto
  have whole: "char_of (16 * (?n div 16) + ?n mod 16) = c" by simp
  show ?thesis
  proof (cases "nc_encode c = [c]")
    case True
    then have "c \<noteq> CHR ''/''" "c \<noteq> percent" by (auto simp: nc_encode_def Let_def split: if_splits)
    then show ?thesis using True assms(2) by (simp add: nc_decode_def)
  next
    case False
    then have e: "nc_encode c = [percent, ?a, ?b]" using n by (simp add: nc_encode_def Let_def split: if_splits)
    show ?thesis
      using assms(2) h ne whole by (simp add: e nc_decode_def isxdigit_def Let_def)
  qed
qed

lemma encode_not_ascii: "\<not> ascii c \<Longrightarrow> nc_encode c = ''%ff''"
  by (simp add: nc_encode_def ascii_def Let_def) auto

lemma decode_encode_fold:
  "\<forall>c \<in> set x. ascii c \<Longrightarrow> nc_state s = 0 \<Longrightarrow>
   nc_state (fold nc_decode (encodePath x) s) = 0 \<and> nc_out (fold nc_decode (encodePath x) s) = nc_out s @ x"
proof (induction x arbitrary: s)
  case (Cons c x)
  have "nc_state (fold nc_decode (nc_encode c) s) = 0" "nc_out (fold nc_decode (nc_encode c) s) = nc_out s @ [c]"
    using decode_encode_char [of c s] Cons.prems by simp_all
  then show ?case using Cons.IH [of "fold nc_decode (nc_encode c) s"] Cons.prems(1) by (simp add: encodePath_def)
qed (simp add: encodePath_def)

lemma decode_encoded_path:
  assumes "\<forall>c \<in> set g. ascii c" and "\<forall>c \<in> set x. ascii c"
  shows "decodePath (encodePath g @ [backslash] @ encodePath x) = g @ backslash # x"
proof -
  let ?s = "fold nc_decode (encodePath g) NameCoder_create"
  have s: "nc_state ?s = 0" "nc_out ?s = g"
    using decode_encode_fold [OF assms(1), of NameCoder_create] by (simp_all add: NameCoder_create_def)
  then have "nc_state (nc_decode backslash ?s) = 0" "nc_out (nc_decode backslash ?s) = g @ [backslash]"
    by (simp_all add: nc_decode_def)
  then show ?thesis
    using decode_encode_fold [OF assms(2), of "nc_decode backslash ?s"] by (simp add: decodePath_def nc_decode_finish_def)
qed

text \<open>The characters of a coded path: none that the parser looks for.\<close>

definition plain :: "string \<Rightarrow> bool" where
  "plain x \<longleftrightarrow> (\<forall>c \<in> set x. \<not> isspace c \<and> c \<notin> set [CHR ''='', CHR ''['', CHR '']'', nl, backslash])"

lemma hex_digit_plain:
  assumes "n < 16"
  shows "plain [hex_digit n]"
proof -
  have "\<not> isspace c \<and> c \<notin> set [CHR ''='', CHR ''['', CHR '']'', nl, backslash]" if "hex_value c \<noteq> None" for c
    using that by (auto simp: isspace_def hex_value_def Let_def)
  then show ?thesis using hex_value_digit [OF assms] by (simp add: plain_def)
qed

lemma encode_plain: "plain (nc_encode c)"
proof -
  have "plain [percent, CHR ''f'', CHR ''f'']" by (simp add: plain_def isspace_def)
  moreover have "plain [percent, hex_digit (of_char c div 16), hex_digit (of_char c mod 16)]" if "of_char c < (128::nat)"
    using that hex_digit_plain [of "of_char c div 16"] hex_digit_plain [of "of_char c mod 16"]
    by (simp add: plain_def isspace_def)
  moreover have "plain [c]"
    if "(97 \<le> n \<and> n \<le> 122) \<or> (65 \<le> n \<and> n \<le> 90) \<or> (48 \<le> n \<and> n \<le> 57) \<or> c = CHR ''-'' \<or> c = CHR ''_''"
      "n = of_char c" for n :: nat
    using that by (auto simp: plain_def isspace_def)
  ultimately show ?thesis by (simp add: nc_encode_def Let_def)
qed

lemma encodePath_plain: "plain (encodePath x)"
  using encode_plain by (auto simp: encodePath_def plain_def)

lemma encodePath_nonempty: "x \<noteq> [] \<Longrightarrow> encodePath x \<noteq> []"
  by (cases x) (auto simp: encodePath_def nc_encode_def Let_def)

section \<open>Trimming\<close>

definition trimmed :: "string \<Rightarrow> bool" where
  "trimmed s \<longleftrightarrow> s = [] \<or> (\<not> isspace (hd s) \<and> \<not> isspace (last s))"

lemma trim_between:
  assumes "list_all isspace xs" and "list_all isspace ys" and "trimmed s"
  shows "trim (xs @ s @ ys) = s"
proof (cases "s = []")
  case True
  have "dropWhile isspace (rev (xs @ ys)) = []" using assms(1,2) by (auto simp: list_all_iff)
  then show ?thesis using True by (simp add: trim_def del: rev_append dropWhile_eq_Nil_conv)
next
  case False
  then have "takeWhile isspace (xs @ s @ ys) = xs"
    using assms(1,3) by (cases s) (simp_all add: trimmed_def takeWhile_append list_all_iff)
  moreover have "dropWhile isspace (rev (xs @ s @ ys)) = rev (xs @ s)"
  proof -
    have "\<not> isspace (hd (rev s))" using False assms(3) by (simp add: trimmed_def hd_rev)
    then have "dropWhile isspace (rev s @ rev xs) = rev s @ rev xs"
      using False by (cases "rev s") simp_all
    then show ?thesis using assms(2) by (simp add: dropWhile_append list_all_iff)
  qed
  ultimately show ?thesis by (simp add: trim_def)
qed

lemmas trim_id = trim_between [of "[]" "[]", simplified]

lemma plain_trimmed: "plain x \<Longrightarrow> trimmed x"
  by (cases x rule: rev_cases) (auto simp: plain_def trimmed_def hd_append)

section \<open>Lines\<close>

lemma takeWhile_until: "c \<notin> set x \<Longrightarrow> takeWhile (\<lambda>d. d \<noteq> c) (x @ c # y) = x"
  by (induction x) auto

lemma dropWhile_until: "c \<notin> set x \<Longrightarrow> dropWhile (\<lambda>d. d \<noteq> c) (x @ c # y) = c # y"
  by (induction x) auto

lemma parse_entry:
  assumes e: "plain e" and v: "trimmed v"
  shows "Parser_parse (e @ '' = '' @ v) p =
    p\<lparr>ip_kv := kv_set (decodePath (ip_group p @ [backslash] @ e)) v (ip_kv p)\<rparr>"
proof -
  have sp: "isspace (CHR '' '')" "\<not> isspace (CHR ''='')" by (simp_all add: isspace_def)
  define a where "a = (if e = [] then [] else e @ '' '')"
  define b where "b = (if v = [] then [] else '' '' @ v)"
  have t: "trim (e @ CHR '' '' # CHR ''='' # CHR '' '' # v) = a @ CHR ''='' # b"
  proof -
    have "trimmed (a @ ''='' @ b)"
      using v plain_trimmed [OF e] by (auto simp: trimmed_def a_def b_def sp hd_append)
    then have "trim ((if e = [] then '' '' else []) @ (a @ ''='' @ b) @ (if v = [] then '' '' else [])) = a @ ''='' @ b"
      by (intro trim_between) (simp_all add: sp)
    moreover have "(if e = [] then '' '' else []) @ (a @ ''='' @ b) @ (if v = [] then '' '' else []) = e @ '' = '' @ v"
      by (simp add: a_def b_def)
    ultimately show ?thesis by simp
  qed
  have eq: "CHR ''='' \<notin> set a" using e by (auto simp: a_def plain_def)
  have key: "trim a = e"
    using trim_between [of "[]" "'' ''" e] plain_trimmed [OF e] trim_id [of "[]"]
    by (simp add: a_def sp trimmed_def)
  have val: "trim b = v"
    using trim_between [of "'' ''" "[]" v] v trim_id [of "[]"] by (simp add: b_def sp trimmed_def)
  have first: "(a @ ''='' @ b) ! 0 \<noteq> CHR ''[''"
    using e by (cases e) (auto simp: a_def plain_def)
  have "takeWhile (\<lambda>c. c \<noteq> CHR ''='') (a @ CHR ''='' # b) = a"
       "dropWhile (\<lambda>c. c \<noteq> CHR ''='') (a @ CHR ''='' # b) = CHR ''='' # b"
    using takeWhile_until [OF eq] dropWhile_until [OF eq] by simp_all
  then show ?thesis
    using first by (simp add: Parser_parse_def t key val Let_def)
qed

lemma parse_header:
  assumes "plain g" and "g \<noteq> []"
  shows "Parser_parse (''['' @ g @ '']'') p = p\<lparr>ip_group := g\<rparr>"
proof -
  have "trimmed (''['' @ g @ '']'')" by (simp add: trimmed_def isspace_def)
  then have "trim (''['' @ g @ '']'') = ''['' @ g @ '']''" by (rule trim_id)
  moreover have "takeWhile (\<lambda>c. c \<noteq> CHR '']'') (g @ '']'') = g"
    using assms(1) by (intro takeWhile_until) (auto simp: plain_def)
  ultimately show ?thesis
    using assms plain_trimmed [OF assms(1)] trim_id [of g] by (simp add: Parser_parse_def Let_def)
qed

lemma parse_blank: "Parser_parse [] p = p"
  by (simp add: Parser_parse_def trim_def)

section \<open>The loops\<close>

lemma feed_line:
  assumes "nl \<notin> set l"
  shows "feed (l @ nl # rest) p = feed rest ((Parser_parse (ip_line p @ l) (p\<lparr>ip_line := ip_line p @ l\<rparr>))\<lparr>ip_line := []\<rparr>)"
  by (subst feed.simps) (simp add: takeWhile_until [OF assms] dropWhile_until [OF assms])

lemma feed_open:
  assumes "nl \<notin> set l"
  shows "feed l p = p\<lparr>ip_line := ip_line p @ l\<rparr>"
proof -
  have "takeWhile (\<lambda>c. c \<noteq> nl) l = l" "dropWhile (\<lambda>c. c \<noteq> nl) l = []"
    using assms by (auto simp: takeWhile_eq_all_conv dropWhile_eq_Nil_conv)
  then show ?thesis by (subst feed.simps) (simp only: Let_def list.case)
qed

lemma Parser_parse_line: "Parser_parse l (p\<lparr>ip_line := x\<rparr>) = (Parser_parse l p)\<lparr>ip_line := x\<rparr>"
  by (simp add: Parser_parse_def Let_def)

lemma feed_append: "feed (a @ b) p = feed b (feed a p)"
proof (induction "length a" arbitrary: a p rule: less_induct)
  case less
  show ?case
  proof (cases "nl \<in> set a")
    case True
    then obtain l r where a: "a = l @ nl # r" "nl \<notin> set l" using split_list_first by metis
    then show ?thesis using less [of r] by (simp add: feed_line)
  next
    case False
    then have t: "takeWhile (\<lambda>c. c \<noteq> nl) (a @ b) = a @ takeWhile (\<lambda>c. c \<noteq> nl) b"
        "dropWhile (\<lambda>c. c \<noteq> nl) (a @ b) = dropWhile (\<lambda>c. c \<noteq> nl) b"
      by (auto intro: takeWhile_append2 dropWhile_append2)
    have "feed (a @ b) p = feed b (p\<lparr>ip_line := ip_line p @ a\<rparr>)"
      by (subst (1 2) feed.simps) (simp add: t Let_def)
    then show ?thesis by (simp add: feed_open [OF False])
  qed
qed

lemma load_pieces: "load_loop f p = feed f p"
proof (induction "length f" arbitrary: f p rule: less_induct)
  case less
  show ?case
  proof (cases "f = []")
    case True
    then show ?thesis by (simp add: load_loop.simps feed_open)
  next
    case False
    then have "load_loop (drop buff_size f) (feed (take buff_size f) p) =
        feed (drop buff_size f) (feed (take buff_size f) p)"
      by (intro less) (simp add: buff_size_def)
    then show ?thesis using False
      by (subst load_loop.simps) (simp add: feed_append [symmetric])
  qed
qed

section \<open>The map\<close>

lemma kv_set_last: "\<forall>x \<in> set xs. fst x < k \<Longrightarrow> kv_set k v xs = xs @ [(k, v)]"
  by (induction k v xs rule: kv_set.induct) auto

lemma kv_set_keys: "set (map fst (kv_set k v xs)) = insert k (set (map fst xs))"
  by (induction k v xs rule: kv_set.induct) auto

lemma kv_sorted_Cons: "kv_sorted ((k, v) # xs) \<longleftrightarrow> (\<forall>x \<in> set (map fst xs). k < x) \<and> kv_sorted xs"
  by (simp add: kv_sorted_def)

lemma kv_sorted_set: "kv_sorted xs \<Longrightarrow> kv_sorted (kv_set k v xs)"
proof (induction k v xs rule: kv_set.induct)
  case (2 k v k' v' xs)
  then show ?case
    using kv_set_keys [of k v xs] by (auto simp: kv_sorted_Cons simp del: set_map dest: less_trans)
qed (simp add: kv_sorted_def)

lemma map_of_kv_set: "kv_sorted xs \<Longrightarrow> map_of (kv_set k v xs) = (map_of xs)(k \<mapsto> v)"
proof (induction k v xs rule: kv_set.induct)
  case (2 k v k' v' xs)
  then show ?case by (auto simp: kv_sorted_Cons fun_upd_twist)
qed simp

lemma fold_kv_set:
  "kv_sorted (acc @ xs) \<Longrightarrow> fold (\<lambda>(k, v). kv_set k v) xs acc = acc @ xs"
proof (induction xs arbitrary: acc)
  case (Cons x xs)
  obtain k v where x: "x = (k, v)" by (cases x)
  have "\<forall>y \<in> set acc. fst y < k"
    using Cons.prems by (auto simp: kv_sorted_def sorted_wrt_append x)
  then show ?case using Cons.IH [of "acc @ [(k, v)]"] Cons.prems by (simp add: x kv_set_last)
qed simp

section \<open>Writing and reading back\<close>

definition ini_entry_ok :: "string \<times> string \<Rightarrow> bool" where
  "ini_entry_ok e \<longleftrightarrow> backslash \<in> set (fst e) \<and> hd (fst e) \<noteq> backslash \<and> (\<forall>c \<in> set (fst e). ascii c) \<and>
     trimmed (snd e) \<and> nl \<notin> set (snd e)"

lemma feed_header:
  assumes "plain g" and "g \<noteq> []" and "ip_line p = []" and "cg \<noteq> [] \<longrightarrow> ip_group p = cg"
  shows "feed ((if cg \<noteq> g then (if cg \<noteq> [] then [nl] else []) @ ''['' @ g @ '']'' @ [nl] else []) @ rest) p =
    feed rest (p\<lparr>ip_group := g\<rparr>)"
proof -
  have same: "p\<lparr>ip_group := g, ip_line := []\<rparr> = p\<lparr>ip_group := g\<rparr>" using assms(3) by (cases p) simp
  have "nl \<notin> set (''['' @ g @ '']'')" using assms(1) by (auto simp: plain_def)
  from feed_line [OF this, of rest p]
  have "feed ((''['' @ g @ '']'') @ nl # rest) p = feed rest (p\<lparr>ip_group := g\<rparr>)"
    using assms(3) parse_header [OF assms(1,2), of p] by (simp add: Parser_parse_line same)
  moreover have "feed (nl # r) p = feed r p" for r
  proof -
    have p: "p\<lparr>ip_line := []\<rparr> = p" using assms(3) by (cases p) simp
    show ?thesis using feed_line [of "[]" r p] assms(3) by (simp add: parse_blank p)
  qed
  ultimately show ?thesis using assms(2,4) by auto
qed

lemma feed_saved:
  assumes "list_all ini_entry_ok xs" and "ip_line p = []" and "cg \<noteq> [] \<longrightarrow> ip_group p = cg"
  shows "ip_kv (feed (save_from cg xs) p) = fold (\<lambda>(k, v). kv_set k v) xs (ip_kv p)"
  using assms
proof (induction xs arbitrary: cg p)
  case Nil
  then show ?case by (simp add: feed_open)
next
  case (Cons x xs)
  obtain k v where x: "x = (k, v)" by (cases x)
  then have ok: "ini_entry_ok (k, v)" using Cons.prems(1) by simp
  obtain g s where k: "k = g @ backslash # s" "backslash \<notin> set g"
    using ok split_list_first [of backslash k] by (auto simp: ini_entry_ok_def)
  let ?g = "encodePath g" and ?s = "encodePath s"
  have g: "g \<noteq> []" using ok k(1) by (auto simp: ini_entry_ok_def)
  have ascii: "\<forall>c \<in> set g. ascii c" "\<forall>c \<in> set s. ascii c"
    and v: "trimmed v" "nl \<notin> set v" using ok k(1) by (simp_all add: ini_entry_ok_def)
  let ?q = "p\<lparr>ip_group := ?g\<rparr>"
  have line: "nl \<notin> set (?s @ '' = '' @ v)" using v(2) encodePath_plain [of s] by (auto simp: plain_def)
  have key: "decodePath (ip_group ?q @ [backslash] @ ?s) = k"
    using decode_encoded_path [OF ascii] k(1) by simp
  have entry: "feed ((?s @ '' = '' @ v) @ nl # save_from ?g xs) ?q =
      feed (save_from ?g xs) (?q\<lparr>ip_kv := kv_set k v (ip_kv p), ip_line := []\<rparr>)"
    using feed_line [OF line, of "save_from ?g xs" ?q] Cons.prems(2) parse_entry [OF encodePath_plain [of s] v(1), of ?q] key
    by (simp add: Parser_parse_line)
  have IH: "ip_kv (feed (save_from ?g xs) (?q\<lparr>ip_kv := kv_set k v (ip_kv p), ip_line := []\<rparr>)) =
      fold (\<lambda>(k, v). kv_set k v) xs (kv_set k v (ip_kv p))"
    using Cons.IH [of "?q\<lparr>ip_kv := kv_set k v (ip_kv p), ip_line := []\<rparr>" ?g] Cons.prems(1) by simp
  have "save_from cg ((k, v) # xs) =
      (if cg \<noteq> ?g then (if cg \<noteq> [] then [nl] else []) @ ''['' @ ?g @ '']'' @ [nl] else []) @
        (?s @ '' = '' @ v) @ nl # save_from ?g xs"
    by (simp add: Let_def k takeWhile_until dropWhile_until)
  then show ?case
    using feed_header [OF encodePath_plain [of g] encodePath_nonempty [OF g] Cons.prems(2,3)] entry IH
    by (simp only: x fold.simps comp_def prod.case)
qed

lemma load_saved:
  assumes "kv_sorted xs" and "list_all ini_entry_ok xs"
  shows "ini_load (Some (ini_save xs)) = xs"
  using feed_saved [OF assms(2)] fold_kv_set [of "[]" xs] assms(1)
  by (simp add: ini_load_def ini_save_def load_pieces)

lemma Parser_parse_sorted: "kv_sorted (ip_kv p) \<Longrightarrow> kv_sorted (ip_kv (Parser_parse l p))"
  by (simp add: Parser_parse_def Let_def kv_sorted_set)

lemma feed_sorted: "kv_sorted (ip_kv p) \<Longrightarrow> kv_sorted (ip_kv (feed f p))"
proof (induction f p rule: feed.induct)
  case (1 f p)
  show ?case
  proof (cases "dropWhile (\<lambda>c. c \<noteq> nl) f")
    case Nil
    then show ?thesis using "1.prems" by (subst feed.simps) (simp add: Let_def del: dropWhile_eq_Nil_conv)
  next
    case (Cons c rest)
    then show ?thesis
      using "1.IH" [OF refl Cons] "1.prems" by (subst feed.simps) (simp add: Let_def Parser_parse_sorted)
  qed
qed

lemma load_sorted: "kv_sorted (ini_load f)"
proof (cases f)
  case (Some content)
  then show ?thesis
    using feed_sorted [of "\<lparr>ip_group = ''General'', ip_kv = [], ip_line = []\<rparr>" content]
    by (simp add: ini_load_def load_pieces kv_sorted_def)
qed (simp add: ini_load_def kv_sorted_def)

section \<open>Numbers\<close>

lemma digit_char:
  "n < 10 \<Longrightarrow> isdigit (char_of (48 + n)) \<and> of_char (char_of (48 + n) :: char) - 48 = n \<and>
    (char_of (48 + n) :: char) \<noteq> CHR ''-'' \<and> (char_of (48 + n) :: char) \<noteq> CHR ''+'' \<and>
    \<not> isspace (char_of (48 + n)) \<and> (char_of (48 + n) :: char) \<noteq> CHR 0x00 \<and> (char_of (48 + n) :: char) \<noteq> nl"
  for n :: nat
proof -
  assume n: "n < 10"
  define c :: char where "c = char_of (48 + n)"
  have c: "of_char c = 48 + n" using n by (simp add: c_def)
  have "isdigit c" using c n by (simp add: isdigit_def)
  moreover have "\<not> isspace c" "c \<noteq> CHR ''-''" "c \<noteq> CHR ''+''" "c \<noteq> CHR 0x00" "c \<noteq> nl"
    using c by (auto simp: isspace_def)
  ultimately show ?thesis using c by (simp add: c_def [symmetric])
qed

lemma digits_value_snoc: "digits_value (ds @ [c]) = 10 * digits_value ds + (of_char c - 48)"
  by (simp add: digits_value_def)

text \<open>The characters a number is printed with.\<close>

definition number_char :: "char \<Rightarrow> bool" where
  "number_char c \<longleftrightarrow> isdigit c \<and> c \<noteq> CHR ''-'' \<and> c \<noteq> CHR ''+'' \<and> \<not> isspace c \<and> c \<noteq> CHR 0x00 \<and> c \<noteq> nl"

lemma show_nat_digits: "show_nat n \<noteq> [] \<and> list_all number_char (show_nat n) \<and> digits_value (show_nat n) = n"
proof (induction n rule: show_nat.induct)
  case (1 n)
  show ?case
  proof (cases "n < 10")
    case True
    then have "show_nat n = [char_of (48 + n)]" by (subst show_nat.simps) simp
    then show ?thesis using digit_char [OF True] by (simp add: number_char_def digits_value_def)
  next
    case False
    then have "show_nat n = show_nat (n div 10) @ [char_of (48 + n mod 10)]" by (subst show_nat.simps) simp
    then show ?thesis
      using "1.IH" [OF False] digit_char [of "n mod 10"] by (simp add: number_char_def digits_value_snoc)
  qed
qed

lemma number_takeWhile:
  assumes "list_all number_char ds"
  shows "takeWhile isdigit ds = ds" and "dropWhile isdigit ds = []" and "dropWhile isspace ds = ds"
  using assms by (induction ds) (auto simp: number_char_def)

lemma strtol_show_int:
  assumes "- (2 ^ 63) \<le> n" and "n < 2 ^ 63"
  shows "strtol (show_int n) = (n, [])"
proof (cases "n < 0")
  case True
  define ds where "ds = show_nat (nat (- n))"
  have ds: "ds \<noteq> []" "list_all number_char ds" "digits_value ds = nat (- n)"
    using show_nat_digits [of "nat (- n)"] by (simp_all add: ds_def)
  have "show_int n = CHR ''-'' # ds" using True by (simp add: show_int_def ds_def)
  moreover have "\<not> isspace (CHR ''-'')" by (simp add: isspace_def)
  ultimately show ?thesis
    using ds True assms by (simp add: strtol_def Let_def number_takeWhile [OF ds(2)])
next
  case False
  define ds where "ds = show_nat (nat n)"
  have ds: "ds \<noteq> []" "list_all number_char ds" "digits_value ds = nat n"
    using show_nat_digits [of "nat n"] by (simp_all add: ds_def)
  have "ds ! 0 \<noteq> CHR ''-''" "ds ! 0 \<noteq> CHR ''+''"
    using ds(1,2) by (cases ds; simp add: number_char_def)+
  moreover have "show_int n = ds" using False by (simp add: show_int_def ds_def)
  ultimately show ?thesis
    using ds False assms by (simp add: strtol_def Let_def number_takeWhile [OF ds(2)])
qed

lemma show_int_text: "show_int n \<noteq> []" "c_str (show_int n) = show_int n" "trimmed (show_int n)" "nl \<notin> set (show_int n)"
proof -
  define ds where "ds = show_nat (nat \<bar>n\<bar>)"
  have ds: "ds \<noteq> []" "list_all number_char ds" using show_nat_digits by (simp_all add: ds_def)
  have s: "show_int n = (if n < 0 then [CHR ''-''] else []) @ ds" by (simp add: show_int_def ds_def)
  have no: "\<not> isspace (CHR ''-'')" by (simp add: isspace_def)
  show "show_int n \<noteq> []" using ds by (simp add: s)
  have "takeWhile (\<lambda>c. c \<noteq> CHR 0x00) ds = ds" using ds(2) by (auto simp: list_all_iff number_char_def)
  then show "c_str (show_int n) = show_int n" by (auto simp: s c_str_def)
  have "\<not> isspace (hd ds)" "\<not> isspace (last ds)"
    using ds by (auto simp: list_all_iff number_char_def)
  then show "trimmed (show_int n)" using ds(1) no by (simp add: s trimmed_def)
  show "nl \<notin> set (show_int n)" using ds(2) by (auto simp: s list_all_iff number_char_def)
qed

section \<open>Settings that outlive the object\<close>

definition settings_ok :: "string option \<Rightarrow> bool" where
  "settings_ok f \<longleftrightarrow> list_all ini_entry_ok (ini_load f)"

definition path_ok :: "string \<Rightarrow> bool" where
  "path_ok k \<longleftrightarrow> backslash \<in> set k \<and> hd k \<noteq> backslash \<and> (\<forall>c \<in> set k. ascii c)"

lemma set_kv_set: "set (kv_set k v xs) \<subseteq> insert (k, v) (set xs)"
  by (induction k v xs rule: kv_set.induct) auto

lemma set_int_map:
  assumes "settings_ok f" and "path_ok (decodeUserPath (settings_key container name))"
  shows "settings_ok (set_int_in_file container name n f)"
    and "map_of (ini_load (set_int_in_file container name n f)) =
      (map_of (ini_load f))(decodeUserPath (settings_key container name) \<mapsto> show_int n)"
proof -
  let ?k = "decodeUserPath (settings_key container name)"
  let ?xs = "kv_set ?k (show_int n) (ini_load f)"
  have f: "set_int_in_file container name n f = Some (ini_save ?xs)"
    by (simp add: set_int_in_file_def IniFile_destroy_def SetInt_def ini_setValue_def IniFile_create_def)
  have ok: "list_all ini_entry_ok ?xs"
    using assms set_kv_set [of ?k "show_int n" "ini_load f"] show_int_text(3,4) [of n]
    by (auto simp: list_all_iff settings_ok_def path_ok_def ini_entry_ok_def)
  have l: "ini_load (Some (ini_save ?xs)) = ?xs" by (rule load_saved [OF kv_sorted_set [OF load_sorted] ok])
  show "settings_ok (set_int_in_file container name n f)" using ok by (simp add: f settings_ok_def l)
  show "map_of (ini_load (set_int_in_file container name n f)) = (map_of (ini_load f))(?k \<mapsto> show_int n)"
    by (simp add: f l map_of_kv_set [OF load_sorted])
qed

lemma get_int_map:
  "GetInt container name d (IniFile_create f) =
     (case map_of (ini_load f) (decodeUserPath (settings_key container name)) of
        None \<Rightarrow> d
      | Some val \<Rightarrow> if val = [] then d
          else case strtol (c_str val) of (lval, e) \<Rightarrow> if e = [] then as_int lval else d)"
  by (simp add: GetInt_def ini_getInt_def ini_getValue_def IniFile_create_def Let_def split: option.split)

lemma get_set_int:
  assumes "settings_ok f" and "path_ok (decodeUserPath (settings_key container name))"
    and "- (2 ^ 31) \<le> n" and "n < 2 ^ 31"
  shows "GetInt container name d (IniFile_create (set_int_in_file container name n f)) = n"
proof -
  have "strtol (c_str (show_int n)) = (n, [])"
    using assms(3,4) by (simp add: show_int_text strtol_show_int)
  then show ?thesis
    using assms(3,4) by (simp add: get_int_map set_int_map(2) [OF assms(1,2)] show_int_text as_int_def)
qed

section \<open>Properties\<close>

text \<open>
  What is saved is loaded. A map whose paths have a section and are ASCII, and whose
  values are trimmed lines, is the same after it has been written to the file and read
  back, whatever its size in relation to the 1024 bytes read at a time.
\<close>

theorem ini_save_load:
  assumes "kv_sorted xs" and "list_all ini_entry_ok xs"
  shows "ini_load (Some (ini_save xs)) = xs"
  by (rule load_saved [OF assms])

definition sample_settings :: kv_map where
  "sample_settings =
     [(''A'' @ [backslash] @ ''a b/[x'', ''1 = 2''), (''A'' @ [backslash] @ ''b'', []), (''B'' @ [backslash] @ [], ''v'')]"

lemma sample_settings_ok: "kv_sorted sample_settings" "list_all ini_entry_ok sample_settings"
  by (simp_all add: sample_settings_def kv_sorted_def less_char_def ini_entry_ok_def ascii_def trimmed_def isspace_def)

theorem ini_save_load_witness: "ini_load (Some (ini_save sample_settings)) = sample_settings"
  by (rule ini_save_load [OF sample_settings_ok])

text \<open>
  A number that one object writes to the settings file is what every later object reads
  from it, and all other settings keep their values.
\<close>

lemma settings_persist:
  assumes "settings_ok f" and "path_ok (decodeUserPath (settings_key container name))"
    and "- (2 ^ 31) \<le> n" and "n < 2 ^ 31"
    and "decodeUserPath (settings_key container' name') \<noteq> decodeUserPath (settings_key container name)"
  shows "GetInt container name d (IniFile_create (set_int_in_file container name n f)) = n \<and>
    GetString container' name' e (IniFile_create (set_int_in_file container name n f)) =
      GetString container' name' e (IniFile_create f)"
  using get_set_int [OF assms(1-4)] assms(5)
  by (simp add: GetString_def ini_getValue_def IniFile_create_def set_int_map(2) [OF assms(1,2)])

end
