(* ===== verification/DateTime.thy ===== *)
theory DateTime
  imports IniProperties
begin

text \<open>
  Points in time of the RMS layer (\<open>sdk/rmsutils/DateTime.h\<close>). The calendar of the C
  library is modelled for a time zone \<open>tz\<close>, the seconds by which local time is ahead of
  UTC, without summer time; \<open>time(0)\<close> is the parameter \<open>now\<close>.
\<close>

section \<open>The calendar\<close>

record tm =
  tm_year :: int
  tm_mon :: int
  tm_mday :: int
  tm_hour :: int
  tm_min :: int
  tm_sec :: int

definition zero_tm :: tm where
  "zero_tm = \<lparr>tm_year = 0, tm_mon = 0, tm_mday = 0, tm_hour = 0, tm_min = 0, tm_sec = 0\<rparr>"

definition leap :: "int \<Rightarrow> bool" where
  "leap y \<longleftrightarrow> y mod 4 = 0 \<and> (y mod 100 \<noteq> 0 \<or> y mod 400 = 0)"

text \<open>Days from 1970-01-01 to the first of a month; months count from 0 and may be any number.\<close>

definition days_before_year :: "int \<Rightarrow> int" where
  "days_before_year y = 365 * (y - 1) + (y - 1) div 4 - (y - 1) div 100 + (y - 1) div 400 - 719162"

definition days_before_month :: "int \<Rightarrow> int \<Rightarrow> int" where
  "days_before_month y m =
     [0, 31, 59, 90, 120, 151, 181, 212, 243, 273, 304, 334] ! nat m + (if 1 < m \<and> leap y then 1 else 0)"

definition days_from_civil :: "int \<Rightarrow> int \<Rightarrow> int \<Rightarrow> int" where
  "days_from_civil y m d =
     days_before_year (y + m div 12) + days_before_month (y + m div 12) (m mod 12) + d - 1"

definition mktime :: "int \<Rightarrow> tm \<Rightarrow> int" where
  "mktime tz t =
     86400 * days_from_civil (tm_year t + 1900) (tm_mon t) (tm_mday t) +
     3600 * tm_hour t + 60 * tm_min t + tm_sec t - tz"

text \<open>The inverse, over eras of 400 years that start on the first of March.\<close>

definition gmtime :: "int \<Rightarrow> tm" where
  "gmtime t =
     (let days = t div 86400; secs = t mod 86400;
          z = days + 719468; era = z div 146097; doe = z mod 146097;
          yoe = (doe - doe div 1460 + doe div 36524 - doe div 146096) div 365;
          doy = doe - (365 * yoe + yoe div 4 - yoe div 100);
          mp = (5 * doy + 2) div 153;
          m = (if mp < 10 then mp + 2 else mp - 10)
      in \<lparr>tm_year = yoe + era * 400 + (if m \<le> 1 then 1 else 0) - 1900, tm_mon = m,
          tm_mday = doy - (153 * mp + 2) div 5 + 1,
          tm_hour = secs div 3600, tm_min = secs mod 3600 div 60, tm_sec = secs mod 60\<rparr>)"

definition localtime :: "int \<Rightarrow> int \<Rightarrow> tm" where
  "localtime tz t = gmtime (t + tz)"

section \<open>The class\<close>

record DateTime =
  dt_time :: int
  dt_gmt_off :: int

definition get_gmt_off :: "int \<Rightarrow> int" where
  "get_gmt_off tz = - mktime tz (gmtime 0)"

definition currentDateTime :: "int \<Rightarrow> DateTime" where
  "currentDateTime now = \<lparr>dt_time = now, dt_gmt_off = 0\<rparr>"

definition currentDateTimeUtc :: "int \<Rightarrow> int \<Rightarrow> DateTime" where
  "currentDateTimeUtc tz now = \<lparr>dt_time = now, dt_gmt_off = get_gmt_off tz\<rparr>"

definition DateTime_civil :: "int \<Rightarrow> int \<Rightarrow> int \<Rightarrow> int \<Rightarrow> int \<Rightarrow> DateTime" where
  "DateTime_civil tz year month day gmt_off =
     \<lparr>dt_time = mktime tz (zero_tm\<lparr>tm_year := year - 1900, tm_mon := month, tm_mday := day\<rparr>),
      dt_gmt_off = gmt_off\<rparr>"

definition DateTime_msecsTo :: "DateTime \<Rightarrow> DateTime \<Rightarrow> int" where
  "DateTime_msecsTo d other = (dt_time other - dt_time d) * 1000000"

definition isNull :: "DateTime \<Rightarrow> bool" where
  "isNull d = False"

definition toLocalTime :: "DateTime \<Rightarrow> DateTime" where
  "toLocalTime d = d\<lparr>dt_gmt_off := 0\<rparr>"

definition toUTC :: "int \<Rightarrow> DateTime \<Rightarrow> DateTime" where
  "toUTC tz d = d\<lparr>dt_gmt_off := get_gmt_off tz\<rparr>"

definition addSecs :: "int \<Rightarrow> DateTime \<Rightarrow> DateTime" where
  "addSecs s d = d\<lparr>dt_time := dt_time d + s\<rparr>"

definition addMSecs :: "int \<Rightarrow> DateTime \<Rightarrow> DateTime" where
  "addMSecs msecs d = d\<lparr>dt_time := dt_time d + trunc_div msecs 1000000\<rparr>"

definition addDays :: "int \<Rightarrow> DateTime \<Rightarrow> DateTime" where
  "addDays ndays d = d\<lparr>dt_time := dt_time d + ndays * 24 * 3600\<rparr>"

definition addMonths :: "int \<Rightarrow> int \<Rightarrow> DateTime \<Rightarrow> DateTime" where
  "addMonths tz nmonths d =
     (let t = localtime tz (dt_time d);
          q = trunc_div (tm_mon t + nmonths) 12;
          t' = t\<lparr>tm_year := tm_year t + q,
                 tm_mon := tm_mon t + (tm_mon t + nmonths - 12 * q)\<rparr>
      in d\<lparr>dt_time := mktime tz t'\<rparr>)"

definition addYears :: "int \<Rightarrow> int \<Rightarrow> DateTime \<Rightarrow> DateTime" where
  "addYears tz nyears d =
     (let t = localtime tz (dt_time d)
      in d\<lparr>dt_time := mktime tz (t\<lparr>tm_year := tm_year t + nyears\<rparr>)\<rparr>)"

definition later :: "DateTime \<Rightarrow> DateTime \<Rightarrow> bool" where
  "later a b \<longleftrightarrow> dt_time b < dt_time a"

section \<open>Text\<close>

definition two_digits :: "int \<Rightarrow> string" where
  "two_digits n = [char_of (48 + nat n div 10), char_of (48 + nat n mod 10)]"

text \<open>The conversions of \<open>strftime\<close> that the format of the class uses.\<close>

fun strftime :: "string \<Rightarrow> tm \<Rightarrow> string" where
  "strftime [] t = []"
| "strftime [c] t = [c]"
| "strftime (c # d # f) t =
     (if c \<noteq> percent then c # strftime (d # f) t
      else if d = CHR ''T'' then
        two_digits (tm_hour t) @ '':'' @ two_digits (tm_min t) @ '':'' @ two_digits (tm_sec t) @ strftime f t
      else if d = CHR ''m'' then two_digits (tm_mon t + 1) @ strftime f t
      else if d = CHR ''d'' then two_digits (tm_mday t) @ strftime f t
      else if d = CHR ''H'' then two_digits (tm_hour t) @ strftime f t
      else if d = CHR ''M'' then two_digits (tm_min t) @ strftime f t
      else if d = CHR ''S'' then two_digits (tm_sec t) @ strftime f t
      else c # d # strftime f t)"

definition format_map :: "(char \<times> string list) list" where
  "format_map =
     [(CHR ''y'', [''y'', ''%y'', ''%yy'', ''%Y'']), (CHR ''d'', [''%e'', ''%d'', ''%a'']),
      (CHR ''M'', [''M'', ''%m'', ''%b'']), (CHR ''H'', [''%k'', ''%H'']), (CHR ''m'', [''m'', ''%M'']),
      (CHR ''s'', [''s'', ''%S'']), (CHR ''z'', [''z'', ''zz'', []])]"

text \<open>
  The number of equal letters at the start, at most four, as the code compares them; a run
  with no entry of its length takes the last entry of its letter.
\<close>

definition format_len :: "string \<Rightarrow> nat" where
  "format_len f = min 4 (length (takeWhile (\<lambda>c. c = hd f) f))"

function to_cstd_format :: "string \<Rightarrow> string" where
  "to_cstd_format [] = []"
| "to_cstd_format (c # f) =
     (if c = percent then
        (case f of [] \<Rightarrow> [percent] | d # g \<Rightarrow> percent # d # to_cstd_format g)
      else case map_of format_map c of
        None \<Rightarrow> c # to_cstd_format f
      | Some es \<Rightarrow>
          let len = min (format_len (c # f)) (length es)
          in es ! (len - 1) @ to_cstd_format (drop (len - 1) f))"
  by pat_completeness auto
termination
  by (relation "measure length") (auto simp: le_imp_less_Suc)

definition toString_format :: "int \<Rightarrow> string \<Rightarrow> DateTime \<Rightarrow> string" where
  "toString_format tz format d = strftime (to_cstd_format format) (localtime tz (dt_time d - dt_gmt_off d))"

definition toString :: "int \<Rightarrow> DateTime \<Rightarrow> string" where
  "toString tz d = toString_format tz ''%T-%m-%dT%H:%M:%SZ'' d"

text \<open>
  \<open>sscanf\<close> with \<open>%d-%d-%dT%d:%d:%d\<close>: the numbers until the first conversion or literal
  that does not match; the fields that are not reached stay 0.
\<close>

definition scan_int :: "string \<Rightarrow> (int \<times> string) option" where
  "scan_int s =
     (let t = dropWhile isspace s;
          neg = (t \<noteq> [] \<and> t ! 0 = CHR ''-'');
          u = (if t \<noteq> [] \<and> (t ! 0 = CHR ''-'' \<or> t ! 0 = CHR ''+'') then tl t else t);
          ds = takeWhile isdigit u;
          v = int (digits_value ds)
      in if ds = [] then None else Some (if neg then - v else v, dropWhile isdigit u))"

fun scan_fields :: "string \<Rightarrow> string \<Rightarrow> int list" where
  "scan_fields [] s = (case scan_int s of None \<Rightarrow> [] | Some (v, r) \<Rightarrow> [v])"
| "scan_fields (l # ls) s =
     (case scan_int s of
        None \<Rightarrow> []
      | Some (v, r) \<Rightarrow> v # (case r of c # r' \<Rightarrow> if c = l then scan_fields ls r' else [] | [] \<Rightarrow> []))"

definition scan_tm :: "string \<Rightarrow> tm" where
  "scan_tm s =
     (let v = (\<lambda>i. let fs = scan_fields ''--T::'' s in if i < length fs then fs ! i else 0)
      in \<lparr>tm_year = v 0, tm_mon = v 1, tm_mday = v 2, tm_hour = v 3, tm_min = v 4, tm_sec = v 5\<rparr>)"

definition fromString :: "int \<Rightarrow> string \<Rightarrow> DateTime" where
  "fromString tz str = \<lparr>dt_time = mktime tz (scan_tm str), dt_gmt_off = 0\<rparr>"

section \<open>Conversions of the tools\<close>

definition timeToString :: "int \<Rightarrow> DateTime \<Rightarrow> string" where
  "timeToString tz dateTime = (if \<not> isNull dateTime then toString tz dateTime else [])"

definition TIME_CONVERSION_MS_TO_100NS :: int where "TIME_CONVERSION_MS_TO_100NS = 10000"

definition timeToWinFileTime :: "int \<Rightarrow> DateTime \<Rightarrow> nat" where
  "timeToWinFileTime tz dateTime =
     (let origin = DateTime_civil tz 1601 1 1 0
      in nat (TIME_CONVERSION_MS_TO_100NS * DateTime_msecsTo origin dateTime mod 2 ^ 64))"

text \<open>
  The months count from 0 and the milliseconds are microseconds: it counts units of a tenth of a
  nanosecond, from the first of February, and wraps around after less than 60 years.
\<close>

lemma win_file_time_value:
  "int (timeToWinFileTime tz d) = 10 ^ 10 * (dt_time d + tz + 11644473600 - 31 * 86400) mod 2 ^ 64"
proof -
  have "dt_time (DateTime_civil tz 1601 1 1 0) = - 11644473600 + 31 * 86400 - tz"
    by (simp add: DateTime_civil_def mktime_def days_from_civil_def days_before_year_def days_before_month_def zero_tm_def)
  then have "10000 * DateTime_msecsTo (DateTime_civil tz 1601 1 1 0) d = 10 ^ 10 * (dt_time d + tz + 11644473600 - 31 * 86400)"
    by (simp add: DateTime_msecsTo_def)
  then show ?thesis
    by (simp add: timeToWinFileTime_def Let_def TIME_CONVERSION_MS_TO_100NS_def)
qed

end
