(* ===== verification/RestClientCache.thy ===== *)
theory RestClientCache
  imports DateTime CryptoAPI PFile
begin

text \<open>
  The cache of service responses on disk (\<open>rms_sdk/RestClients/RestClientCache.cpp\<close>) with the
  file system helpers it uses (\<open>rms_sdk/Platform/Filesystem/FileSystemQt.cpp\<close>,
  \<open>rmsutils/RMSDir.h\<close>) and its settings. A file name without a slash can be created in any
  folder that exists; the names the cache makes are such names. The clock, the home folder,
  SHA-256, the base64 encoder of OpenSSL, the keyring and the random numbers are parameters.
\<close>

section \<open>Files and folders\<close>

record 'k world =
  w_files :: "(string \<times> byte list) list"
  w_dirs :: "string list"
  w_settings :: "string option"
  w_locked :: bool
  w_keys :: 'k

text \<open>What \<open>std::filesystem\<close> does with a path.\<close>

definition dir_name :: "string \<Rightarrow> string" where
  "dir_name p = (if p \<noteq> [] \<and> last p = CHR ''/'' then butlast p else p)"

definition base_name :: "string \<Rightarrow> string" where
  "base_name p = rev (takeWhile (\<lambda>c. c \<noteq> CHR ''/'') (rev p))"

definition folder_of :: "string \<Rightarrow> string" where
  "folder_of p = rev (tl (dropWhile (\<lambda>c. c \<noteq> CHR ''/'') (rev p)))"

definition path_extension :: "string \<Rightarrow> string" where
  "path_extension p =
     (let b = base_name p; e = rev (takeWhile (\<lambda>c. c \<noteq> CHR ''.'') (rev b))
      in if b = ''.'' \<or> b = ''..'' \<or> CHR ''.'' \<notin> set b \<or> length e + 1 = length b then [] else CHR ''.'' # e)"

definition is_dir :: "string \<Rightarrow> 'k world \<Rightarrow> bool" where
  "is_dir p w \<longleftrightarrow> dir_name p \<in> set (w_dirs w)"

definition mkpath :: "string \<Rightarrow> 'k world \<Rightarrow> 'k world" where
  "mkpath p w =
     (let d = dir_name p
      in w\<lparr>w_dirs := w_dirs w @ [take i d. i \<leftarrow> [1..<length d], d ! i = CHR ''/''] @ [d]\<rparr>)"

definition entryList :: "string \<Rightarrow> string list \<Rightarrow> (exn, 'k world, string list) sx" where
  "entryList path filters w =
     (if is_dir path w
      then (Inr [p. (p, c) \<leftarrow> w_files w, folder_of p = dir_name path, path_extension p \<in> set filters], w)
      else (Inl StdException, w))"

definition QueryLocalStorageFiles :: "string \<Rightarrow> string \<Rightarrow> (exn, 'k world, string list) sx" where
  "QueryLocalStorageFiles folder pattern = entryList folder [c_str pattern]"

definition CreateDirectory :: "string \<Rightarrow> (exn, 'k world, unit) sx" where
  "CreateDirectory dirPath =
     modify (\<lambda>w. if is_dir dirPath w \<or> map_of (w_files w) dirPath \<noteq> None then w else mkpath dirPath w)"

definition DeleteLocalStorageFile :: "string \<Rightarrow> (exn, 'k world, unit) sx" where
  "DeleteLocalStorageFile p = modify (\<lambda>w. w\<lparr>w_files := filter (\<lambda>f. fst f \<noteq> p) (w_files w)\<rparr>)"

definition write_file :: "string \<Rightarrow> byte list \<Rightarrow> 'k world \<Rightarrow> 'k world" where
  "write_file p d w = w\<lparr>w_files := filter (\<lambda>f. fst f \<noteq> p) (w_files w) @ [(p, d)]\<rparr>"

section \<open>Names\<close>

record 'k cache_env =
  ce_home :: string
  ce_hash :: "byte list \<Rightarrow> byte list"
  ce_encode :: "byte list \<Rightarrow> byte list option"
  ce_tz :: int
  ce_now :: int
  ce_ks :: "'k IKeyStorage"
  ce_rnd :: "int \<times> byte list"
  ce_lib :: evp
  ce_junk :: byte
  ce_fuel :: nat

definition cacheFolderName :: "'k cache_env \<Rightarrow> string" where
  "cacheFolderName env = ce_home env @ ''/.ms-ad/''"

definition ReplaceNotAllowedCharactersInBase64 :: "byte list \<Rightarrow> byte list" where
  "ReplaceNotAllowedCharactersInBase64 = map (\<lambda>b. if b = 0x2F \<or> b = 0x2B then 0x2D else b)"

definition ReplaceNotAllowedCharactersInDateTime :: "string \<Rightarrow> string" where
  "ReplaceNotAllowedCharactersInDateTime = map (\<lambda>c. if c = CHR '':'' then CHR ''_'' else c)"

definition ReplaceBackNotAllowedCharactersInDateTime :: "string \<Rightarrow> string" where
  "ReplaceBackNotAllowedCharactersInDateTime = map (\<lambda>c. if c = CHR ''_'' then CHR '':'' else c)"

definition ReplaceNotAllowedCharactersInEmail :: "string \<Rightarrow> string" where
  "ReplaceNotAllowedCharactersInEmail = map (\<lambda>c.
     if c = CHR ''|'' then CHR '',''
     else if c = CHR ''*'' then CHR '';''
     else if c = CHR ''?'' then CHR ''[''
     else if c = CHR ''/'' then CHR '']'' else c)"

definition HashKey :: "'k cache_env \<Rightarrow> byte list \<Rightarrow> exn + byte list" where
  "HashKey env key =
     bindE (ConvertBytesToBase64 (ce_encode env) (ce_hash env key)) (\<lambda>strBase64.
       Inr (ReplaceNotAllowedCharactersInBase64 strBase64))"

definition GetFileName ::
  "'k cache_env \<Rightarrow> string \<Rightarrow> string \<Rightarrow> byte list option \<Rightarrow> string \<Rightarrow> bool \<Rightarrow> bool \<Rightarrow> exn + string" where
  "GetFileName env cacheName tag pbKey expires pattern useHash =
     (let bTagPattern = (tag = [] \<and> pattern);
          tagMod = (if tag = [] then if pattern then ''*?'' else ''NULL'' else tag);
          expiresMod = (if expires = [] then if pattern then ''*?'' else ''0000-00-00T00:00Z'' else expires)
      in bindE (if useHash
                then (case pbKey of None \<Rightarrow> Inr ''*?'' | Some key \<Rightarrow>
                        bindE (HashKey env key) (\<lambda>h. Inr (bytes_string h)))
                else Inr ''NoHash'') (\<lambda>hashStr.
         Inr (cacheName @ ''-'' @ ReplaceNotAllowedCharactersInDateTime expiresMod @ ''='' @
           (if bTagPattern then tagMod else ReplaceNotAllowedCharactersInEmail tagMod) @ ''-'' @ hashStr)))"

definition bad_file_name :: exn where
  "bad_file_name = RMSInvalidArgumentException ''Bad fileName''"

definition GetExpiryTimeFromFileName :: "'k cache_env \<Rightarrow> string \<Rightarrow> string \<Rightarrow> exn + DateTime" where
  "GetExpiryTimeFromFileName env cacheName fileName =
     (if length fileName \<le> length cacheName + 1 then Inl bad_file_name
      else if CHR ''='' \<notin> set fileName then Inl bad_file_name
      else
        let nExpiresOffset = length cacheName + 1;
            expiresEnd = length (takeWhile (\<lambda>c. c \<noteq> CHR ''='') fileName);
            strExpires = (if nExpiresOffset \<le> expiresEnd
              then take (expiresEnd - nExpiresOffset) (drop nExpiresOffset fileName)
              else drop nExpiresOffset fileName)
        in Inr (fromString (ce_tz env) (c_str (ReplaceBackNotAllowedCharactersInDateTime strExpires))))"

section \<open>Deleting\<close>

definition catch_rms :: "(exn, 's, 'a) sx \<Rightarrow> (exn, 's, 'a) sx \<Rightarrow> (exn, 's, 'a) sx" where
  "catch_rms m h = catchx m (\<lambda>e. if is_rms e then h else throw e)"

definition DeleteCacheFile :: "'k cache_env \<Rightarrow> string \<Rightarrow> (exn, 'k world, unit) sx" where
  "DeleteCacheFile env fileName =
     catch_rms (DeleteLocalStorageFile (cacheFolderName env @ fileName)) (ret ())"

definition DeleteIfExpired :: "'k cache_env \<Rightarrow> string \<Rightarrow> string \<Rightarrow> (exn, 'k world, bool) sx" where
  "DeleteIfExpired env cacheName fileName =
     bnd (liftE (GetExpiryTimeFromFileName env cacheName fileName)) (\<lambda>expires.
       if isNull expires then ret False
       else if later (currentDateTime (ce_now env)) expires
       then seqx (DeleteCacheFile env fileName) (ret True)
       else ret False)"

section \<open>Settings\<close>

definition cacheSettingsContainerName :: string where
  "cacheSettingsContainerName = ''MSOPENTECHThin''"

definition defaultCleanupFrequency :: int where "defaultCleanupFrequency = 100"
definition defaultMaximumFiles :: int where "defaultMaximumFiles = 1000"

definition GetCacheSettingName :: "string \<Rightarrow> string \<Rightarrow> string" where
  "GetCacheSettingName cacheName setting = cacheName @ ''_'' @ setting"

definition settings_get :: "(IniFile \<Rightarrow> 'a) \<Rightarrow> (exn, 'k world, 'a) sx" where
  "settings_get f = gets (\<lambda>w. f (IniFile_create (w_settings w)))"

definition IsCacheLookupDisableTestHookOn :: "(exn, 'k world, bool) sx" where
  "IsCacheLookupDisableTestHookOn =
     settings_get (GetBool cacheSettingsContainerName ''TESTHOOK_IsCacheLookupDisabled'' False)"

definition GetCacheCleanupFrequency :: "string \<Rightarrow> (exn, 'k world, int) sx" where
  "GetCacheCleanupFrequency cacheName =
     settings_get (GetInt cacheSettingsContainerName (GetCacheSettingName cacheName ''CacheCleanupFrequency'')
       defaultCleanupFrequency)"

definition GetCacheCleanupCounter :: "string \<Rightarrow> (exn, 'k world, int) sx" where
  "GetCacheCleanupCounter cacheName =
     settings_get (GetInt cacheSettingsContainerName (GetCacheSettingName cacheName ''CacheCleanupCounter'')
       defaultCleanupFrequency)"

definition SetCacheCleanupCounter :: "string \<Rightarrow> int \<Rightarrow> (exn, 'k world, unit) sx" where
  "SetCacheCleanupCounter cacheName nCounter =
     modify (\<lambda>w. w\<lparr>w_settings := set_int_in_file cacheSettingsContainerName
       (GetCacheSettingName cacheName ''CacheCleanupCounter'') nCounter (w_settings w)\<rparr>)"

text \<open>The number becomes a \<open>size_t\<close>.\<close>

definition GetCacheMaximumFiles :: "string \<Rightarrow> (exn, 'k world, nat) sx" where
  "GetCacheMaximumFiles cacheName =
     bnd (settings_get (GetInt cacheSettingsContainerName (GetCacheSettingName cacheName ''CacheMaximumFiles'')
       defaultMaximumFiles)) (\<lambda>n. ret (as_u64 n))"

section \<open>Cleaning up\<close>

text \<open>
  The first loop: as many files as there are slots are looked at; one that is deleted
  frees its slot. What is left of the list is deleted by the second loop.
\<close>

fun cleanup_recent :: "'k cache_env \<Rightarrow> string \<Rightarrow> nat \<Rightarrow> string list \<Rightarrow> (exn, 'k world, string list) sx" where
  "cleanup_recent env cacheName slots [] = ret []"
| "cleanup_recent env cacheName slots (f # fs) =
     (if slots = 0 then ret (f # fs)
      else bnd (catch_rms (DeleteIfExpired env cacheName f) (ret False)) (\<lambda>deleted.
        cleanup_recent env cacheName (if deleted then slots else slots - 1) fs))"

fun cleanup_old :: "'k cache_env \<Rightarrow> string list \<Rightarrow> (exn, 'k world, unit) sx" where
  "cleanup_old env [] = ret ()"
| "cleanup_old env (f # fs) =
     seqx (catch_rms (DeleteCacheFile env (c_str f)) (ret ())) (cleanup_old env fs)"

definition cleanup_thread :: "'k cache_env \<Rightarrow> string \<Rightarrow> (exn, 'k world, unit) sx" where
  "cleanup_thread env cacheName =
     catch_rms
      (bnd (liftE (GetFileName env cacheName [] None [] True True)) (\<lambda>fileNamePattern.
       bnd (GetCacheMaximumFiles cacheName) (\<lambda>nMaximumFiles.
       bnd (QueryLocalStorageFiles cacheName fileNamePattern) (\<lambda>allFileNames.
       bnd (cleanup_recent env cacheName nMaximumFiles allFileNames) (cleanup_old env)))))
      (ret ())"

text \<open>
  The task of \<open>async\<close> takes the mutex, and its result is waited for at once. When the
  caller holds the mutex, neither of the two goes on.
\<close>

definition LaunchCleanup :: "'k cache_env \<Rightarrow> string \<Rightarrow> (exn, 'k world, unit) sx" where
  "LaunchCleanup env cacheName w =
     (if w_locked w then (Inl NoReturn, w)
      else with_mutex w_locked (\<lambda>b w. w\<lparr>w_locked := b\<rparr>) (cleanup_thread env cacheName) w)"

definition CleanupIfNeeded :: "'k cache_env \<Rightarrow> string \<Rightarrow> (exn, 'k world, unit) sx" where
  "CleanupIfNeeded env cacheName =
     catch_rms
      (bnd (GetCacheCleanupCounter cacheName) (\<lambda>nCleanupCounter.
        if nCleanupCounter \<le> 0
        then bnd (GetCacheCleanupFrequency cacheName) (\<lambda>n.
               seqx (SetCacheCleanupCounter cacheName n) (LaunchCleanup env cacheName))
        else SetCacheCleanupCounter cacheName (nCleanupCounter - 1)))
      (ret ())"

section \<open>Looking up\<close>

text \<open>
  A file that cannot be opened has the size -1 as far as its adapter can tell, and the
  buffer for that many bytes cannot be allocated.
\<close>

definition adapter_i :: "byte list \<Rightarrow> StdStreamAdapter" where
  "adapter_i d = StdStreamAdapter_i \<lparr>ss_buf = d, ss_g = 0, ss_p = 0, ss_fail = False\<rparr>"

definition read_all :: "'s IStream \<Rightarrow> 's \<Rightarrow> exn + byte list" where
  "read_all ops s = fst (bnd (is_Size ops) (IStream_Read ops) s)"

definition read_cached :: "'k cache_env \<Rightarrow> bool \<Rightarrow> string \<Rightarrow> (exn, 'k world, string option) sx" where
  "read_cached env encrypted filePath =
     bnd (gets (\<lambda>w. map_of (w_files w) filePath)) (\<lambda>content.
       if encrypted
       then bnd (zoom w_keys (\<lambda>k w. w\<lparr>w_keys := k\<rparr>)
              (CreateCryptoStreamWithAutoKey (ce_ks env) (ce_rnd env) (ce_lib env) sa_vtable (ce_junk env)
                CIPHER_MODE_CBC4K filePath (adapter_i (case content of None \<Rightarrow> [] | Some d \<Rightarrow> d)))) (\<lambda>so.
            case so of
              None \<Rightarrow> ret None
            | Some st \<Rightarrow>
                if content = None then throw StdException
                else bnd (liftE (read_all (bs_vtable (ce_fuel env) sa_vtable) st)) (\<lambda>d.
                  ret (Some (bytes_string d))))
       else case content of
              None \<Rightarrow> throw StdException
            | Some d \<Rightarrow> bnd (liftE (read_all sa_vtable (adapter_i d))) (\<lambda>d'. ret (Some (bytes_string d'))))"

fun lookup_files ::
  "'k cache_env \<Rightarrow> bool \<Rightarrow> string \<Rightarrow> string list \<Rightarrow> string list \<Rightarrow> (exn, 'k world, string list) sx" where
  "lookup_files env encrypted cacheName vResponses [] = ret vResponses"
| "lookup_files env encrypted cacheName vResponses (f # fs) =
     bnd (catchx
           (bnd (DeleteIfExpired env cacheName f) (\<lambda>deleted.
             if deleted then ret (Inr vResponses)
             else bnd (read_cached env encrypted (cacheFolderName env @ f)) (\<lambda>r.
               ret (Inr (vResponses @ (case r of None \<Rightarrow> [] | Some d \<Rightarrow> [d]))))))
           (\<lambda>e. if is_rms e then ret (Inr vResponses)
                else if is_crypto e then ret (Inl vResponses) else throw e)) (\<lambda>r.
       case r of Inl vs \<Rightarrow> ret vs | Inr vs \<Rightarrow> lookup_files env encrypted cacheName vs fs)"

abbreviation cache_guard :: "(exn, 'k world, 'a) sx \<Rightarrow> (exn, 'k world, 'a) sx" where
  "cache_guard \<equiv> with_mutex w_locked (\<lambda>b w. w\<lparr>w_locked := b\<rparr>)"

definition Lookup ::
  "'k cache_env \<Rightarrow> bool \<Rightarrow> string \<Rightarrow> string \<Rightarrow> byte list option \<Rightarrow> bool \<Rightarrow> (exn, 'k world, string list) sx" where
  "Lookup env encrypted cacheName tag pbKey useHash =
     bnd IsCacheLookupDisableTestHookOn (\<lambda>disabled.
       if disabled then ret []
       else cache_guard (catch_rms
         (bnd (liftE (GetFileName env cacheName tag pbKey [] True useHash)) (\<lambda>fileNamePattern.
          bnd (QueryLocalStorageFiles (cacheFolderName env) fileNamePattern)
            (lookup_files env encrypted cacheName [])))
         (ret [])))"

section \<open>Storing\<close>

definition store_bytes :: "'k cache_env \<Rightarrow> bool \<Rightarrow> string \<Rightarrow> byte list \<Rightarrow> (exn, 'k world, unit) sx" where
  "store_bytes env encrypted filePath d =
     seqx (modify (write_file filePath []))
      (if encrypted
       then bnd (zoom w_keys (\<lambda>k w. w\<lparr>w_keys := k\<rparr>)
              (CreateCryptoStreamWithAutoKey (ce_ks env) (ce_rnd env) (ce_lib env) sa_vtable (ce_junk env)
                CIPHER_MODE_CBC4K filePath (StdStreamAdapter_o empty_stringstream))) (\<lambda>so.
            case so of
              None \<Rightarrow> ret ()
            | Some st \<Rightarrow>
                (case bnd (bs_Write (ce_fuel env) sa_vtable d) (\<lambda>_. bs_Flush sa_vtable) st of
                   (r, st') \<Rightarrow> seqx (modify (write_file filePath (stored st')))
                     (bnd (liftE r) (\<lambda>_. ret ()))))
       else (case bnd (sa_Write d) (\<lambda>_. sa_Flush) (StdStreamAdapter_o empty_stringstream) of
               (r, a) \<Rightarrow> seqx (modify (write_file filePath (sa_cont a))) (bnd (liftE r) (\<lambda>_. ret ()))))"

definition Store ::
  "'k cache_env \<Rightarrow> bool \<Rightarrow> string \<Rightarrow> string \<Rightarrow> byte list option \<Rightarrow> string \<Rightarrow> byte list \<Rightarrow> bool \<Rightarrow>
   (exn, 'k world, unit) sx" where
  "Store env encrypted cacheName tag pbKey expires strResponse useHash =
     cache_guard (catchx
       (bnd (liftE (GetFileName env cacheName tag pbKey expires False useHash)) (\<lambda>fileName.
         seqx (CreateDirectory (cacheFolderName env))
        (seqx (store_bytes env encrypted (cacheFolderName env @ fileName) strResponse)
          (CleanupIfNeeded env cacheName))))
       (\<lambda>e. if is_rms e \<or> is_crypto e then ret () else throw e))"

section \<open>Service discovery\<close>

record ServiceDiscoveryDetails =
  sd_EndUserLicensesUrl :: string
  sd_TemplatesUrl :: string
  sd_PublishingLicensesUrl :: string
  sd_CloudDiagnosticsServerUrl :: string
  sd_PerformanceServerUrl :: string
  sd_Domain :: string
  sd_OriginalInput :: string
  sd_Ttl :: nat

definition LookupServiceDiscoveryDetails ::
  "'k cache_env \<Rightarrow> bool \<Rightarrow> string \<Rightarrow> (exn, 'k world, ServiceDiscoveryDetails option) sx" where
  "LookupServiceDiscoveryDetails env encrypted domain =
     bnd (Lookup env encrypted domain ''END_USER_LICENSES_UR'' None False) (\<lambda>endUserLicensesUrl.
     bnd (Lookup env encrypted domain ''PUBLISHING_LICENSES_UR'' None False) (\<lambda>publishingLicensesUrl.
     bnd (Lookup env encrypted domain ''TEMPLATES_UR'' None False) (\<lambda>templatesUrl.
     bnd (Lookup env encrypted domain ''CLOUD_DIAGNOSTICS_UR'' None False) (\<lambda>cloudDiagnosticsServerUrl.
     bnd (Lookup env encrypted domain ''PERFORMANCE_UR'' None False) (\<lambda>performanceServerUrl.
     bnd (Lookup env encrypted domain ''ORIGINAL_INPUT'' None False) (\<lambda>originalInput.
       if endUserLicensesUrl \<noteq> [] \<and> publishingLicensesUrl \<noteq> [] \<and> templatesUrl \<noteq> [] \<and>
          cloudDiagnosticsServerUrl \<noteq> [] \<and> performanceServerUrl \<noteq> [] \<and> originalInput \<noteq> []
       then ret (Some
         \<lparr>sd_EndUserLicensesUrl = hd endUserLicensesUrl, sd_TemplatesUrl = hd templatesUrl,
          sd_PublishingLicensesUrl = hd publishingLicensesUrl,
          sd_CloudDiagnosticsServerUrl = hd cloudDiagnosticsServerUrl,
          sd_PerformanceServerUrl = hd performanceServerUrl, sd_Domain = [],
          sd_OriginalInput = hd originalInput, sd_Ttl = 0\<rparr>)
       else ret None))))))"

definition StoreServiceDiscoveryDetails ::
  "'k cache_env \<Rightarrow> bool \<Rightarrow> string \<Rightarrow> ServiceDiscoveryDetails \<Rightarrow> string \<Rightarrow> (exn, 'k world, unit) sx" where
  "StoreServiceDiscoveryDetails env encrypted domain d expires =
     (let st = (\<lambda>tag v. Store env encrypted domain tag None expires (string_bytes v) False)
      in seqx (st ''END_USER_LICENSES_UR'' (sd_EndUserLicensesUrl d))
        (seqx (st ''PUBLISHING_LICENSES_UR'' (sd_PublishingLicensesUrl d))
        (seqx (st ''TEMPLATES_UR'' (sd_TemplatesUrl d))
        (seqx (st ''CLOUD_DIAGNOSTICS_UR'' (sd_CloudDiagnosticsServerUrl d))
        (seqx (st ''PERFORMANCE_UR'' (sd_PerformanceServerUrl d))
              (st ''ORIGINAL_INPUT'' (sd_OriginalInput d)))))))"

definition LookupDnsClientResult :: "'k cache_env \<Rightarrow> bool \<Rightarrow> string \<Rightarrow> (exn, 'k world, string list) sx" where
  "LookupDnsClientResult env encrypted domain = Lookup env encrypted domain ''DNS_CLIENT_RESULT'' None False"

definition StoreDnsClientResult ::
  "'k cache_env \<Rightarrow> bool \<Rightarrow> string \<Rightarrow> string \<Rightarrow> string \<Rightarrow> (exn, 'k world, unit) sx" where
  "StoreDnsClientResult env encrypted domain ttl dnsClientResult =
     Store env encrypted domain ''DNS_CLIENT_RESULT'' None ttl (string_bytes dnsClientResult) False"

end
