(* ===== verification/UsageRestrictionsClient.thy ===== *)
theory UsageRestrictionsClient
  imports RestClientCache PolicyCache
begin

text \<open>
  The client of the usage restrictions service
  (\<open>rms_sdk/RestClients/UsageRestrictionsClient.cpp\<close>), which looks for an answer in the cache
  on disk before it asks. The JSON serializer, the license parser, the search for the
  service's URL and the HTTP client are parameters.
\<close>

record ur_services =
  ur_serialize :: "byte list \<Rightarrow> exn + byte list"
  ur_parse_license :: "byte list \<Rightarrow> exn + string"
  ur_url :: "string \<Rightarrow> string \<Rightarrow> exn + string"
  ur_post :: "string \<Rightarrow> byte list \<Rightarrow> exn + int \<times> byte list"
  ur_handle_error :: "int \<Rightarrow> byte list \<Rightarrow> exn + unit"
  ur_deserialize :: "byte list \<Rightarrow> exn + UsageRestrictionsResponse"

definition RESPONSE_CACHE_ONDISK :: nat where "RESPONSE_CACHE_ONDISK = 2"
definition RESPONSE_CACHE_CRYPTED :: nat where "RESPONSE_CACHE_CRYPTED = 4"

definition has_cache_flag :: "nat \<Rightarrow> nat \<Rightarrow> bool" where
  "has_cache_flag cacheMask f \<longleftrightarrow> cacheMask div f mod 2 = 1"

definition s_usageRestrictionsCacheName :: string where
  "s_usageRestrictionsCacheName = ''UR''"

definition status_OK :: int where "status_OK = 200"

text \<open>The answers of the cache in their order; the first that can be read and is in force is taken.\<close>

definition in_force :: "time_point \<Rightarrow> UsageRestrictionsResponse \<Rightarrow> bool" where
  "in_force timeNow r \<longleftrightarrow> us_accessStatus r \<noteq> [] \<and>
     \<not> (0 < to_time_t (us_ftLicenseValidUntil r) \<and> us_ftLicenseValidUntil r < timeNow) \<and>
     \<not> (0 < to_time_t (us_ftContentValidUntil r) \<and> us_ftContentValidUntil r < timeNow)"

fun first_in_force ::
  "ur_services \<Rightarrow> time_point \<Rightarrow> string list \<Rightarrow> exn + UsageRestrictionsResponse option" where
  "first_in_force sv timeNow [] = Inr None"
| "first_in_force sv timeNow (s # ss) =
     (case ur_deserialize sv (string_bytes s) of
        Inl e \<Rightarrow> if is_rms e then first_in_force sv timeNow ss else Inl e
      | Inr r \<Rightarrow> if in_force timeNow r then Inr (Some r) else first_in_force sv timeNow ss)"

definition TryGetFromCache ::
  "'k cache_env \<Rightarrow> ur_services \<Rightarrow> time_point \<Rightarrow> byte list \<Rightarrow> string \<Rightarrow> bool \<Rightarrow>
   (exn, 'k world, UsageRestrictionsResponse option) sx" where
  "TryGetFromCache env sv timeNow pl email decryptData =
     catch_rms
      (bnd (Lookup env decryptData s_usageRestrictionsCacheName email (Some pl) True) (\<lambda>vstrResponses.
        liftE (first_in_force sv timeNow vstrResponses)))
      (ret None)"

definition StoreToCache ::
  "'k cache_env \<Rightarrow> time_point \<Rightarrow> byte list \<Rightarrow> string \<Rightarrow> UsageRestrictionsResponse \<Rightarrow> byte list \<Rightarrow> bool \<Rightarrow>
   (exn, 'k world, unit) sx" where
  "StoreToCache env timeNow pl email response strResponse encryptData =
     (if \<not> stricmp_eq ''AccessGranted'' (us_accessStatus response) then ret ()
      else if \<not> us_bAllowOfflineAccess response then ret ()
      else if 0 < to_time_t (us_ftLicenseValidUntil response) \<and>
              daysTo (us_ftLicenseValidUntil response) timeNow \<le> 0 then ret ()
      else catch_rms
        (Store env encryptData s_usageRestrictionsCacheName email (Some pl) (us_licenseValidUntil response)
          strResponse True)
        (ret ()))"

definition ask_service ::
  "ur_services \<Rightarrow> byte list \<Rightarrow> string \<Rightarrow> exn + UsageRestrictionsResponse \<times> byte list" where
  "ask_service sv pl email =
     bindE (ur_serialize sv pl) (\<lambda>serializedRequest.
     bindE (ur_parse_license sv pl) (\<lambda>licenseParserResult.
     bindE (ur_url sv licenseParserResult email) (\<lambda>endUserLicenseUrl.
     bindE (ur_post sv endUserLicenseUrl serializedRequest) (\<lambda>(status, responseBody).
     bindE (if status \<noteq> status_OK then ur_handle_error sv status responseBody else Inr ()) (\<lambda>_.
       case ur_deserialize sv responseBody of
         Inl e \<Rightarrow> Inl (if is_rms e then RMSNetworkException
           ''UsageRestrictionsClient: Got an invalid json from the REST service.'' ServerError else e)
       | Inr r \<Rightarrow> Inr (r, responseBody))))))"

definition needs_online :: exn where
  "needs_online = RMSNetworkException ''Couldn't get the response from cache, so need UI.'' NeedsOnline"

text \<open>The clock is read while looking up (\<open>now\<close>) and while storing (\<open>now'\<close>).\<close>

definition GetUsageRestrictions ::
  "'k cache_env \<Rightarrow> ur_services \<Rightarrow> time_point \<Rightarrow> time_point \<Rightarrow> byte list \<Rightarrow> string \<Rightarrow> bool \<Rightarrow> nat \<Rightarrow>
   (exn, 'k world, UsageRestrictionsResponse) sx" where
  "GetUsageRestrictions env sv now now' pl email bOffline cacheMask =
     (let cryptData = has_cache_flag cacheMask RESPONSE_CACHE_CRYPTED;
          useCache = has_cache_flag cacheMask RESPONSE_CACHE_ONDISK
      in bnd (if useCache then TryGetFromCache env sv now pl email cryptData else ret None) (\<lambda>cached.
           case cached of
             Some r \<Rightarrow> ret r
           | None \<Rightarrow>
               if bOffline then throw needs_online
               else bnd (liftE (ask_service sv pl email)) (\<lambda>(response, body).
                 seqx (if useCache then StoreToCache env now' pl email response body cryptData else ret ())
                   (ret response))))"

end
