(* ===== verification/DiskCacheProperties.thy ===== *)
theory DiskCacheProperties
  imports UsageRestrictionsClient
begin

text \<open>
  Properties of the cache on disk: the names of its files, what a lookup finds, the counter
  of the clean-up, and what all this means for the service's client.
\<close>

section \<open>Names\<close>

lemma underscore_back:
  "CHR ''_'' \<notin> set s \<Longrightarrow>
   ReplaceBackNotAllowedCharactersInDateTime (ReplaceNotAllowedCharactersInDateTime s) = s"
  by (induction s) (auto simp: ReplaceBackNotAllowedCharactersInDateTime_def ReplaceNotAllowedCharactersInDateTime_def)

lemma replaced_no_equals:
  "CHR ''='' \<notin> set s \<Longrightarrow> CHR ''='' \<notin> set (ReplaceNotAllowedCharactersInDateTime s)"
  by (auto simp: ReplaceNotAllowedCharactersInDateTime_def)

lemma length_replaced [simp]: "length (ReplaceNotAllowedCharactersInDateTime s) = length s"
  by (simp add: ReplaceNotAllowedCharactersInDateTime_def)

lemma expiry_of_name:
  assumes "CHR ''='' \<notin> set cacheName" and "CHR ''='' \<notin> set s" and "CHR ''_'' \<notin> set s"
  shows "GetExpiryTimeFromFileName env cacheName
      (cacheName @ ''-'' @ ReplaceNotAllowedCharactersInDateTime s @ ''='' @ rest) = Inr (fromString (ce_tz env) (c_str s))"
proof -
  let ?x = "cacheName @ ''-'' @ ReplaceNotAllowedCharactersInDateTime s"
  have "CHR ''='' \<notin> set ?x" using assms(1) replaced_no_equals [OF assms(2)] by simp
  from takeWhile_until [OF this, of rest]
  have t: "takeWhile (\<lambda>c. c \<noteq> CHR ''='') (cacheName @ CHR ''-'' # ReplaceNotAllowedCharactersInDateTime s @ CHR ''='' # rest) = ?x"
    by simp
  show ?thesis
    by (simp add: GetExpiryTimeFromFileName_def t underscore_back [OF assms(3)] Let_def)
qed

section \<open>Lookups\<close>

text \<open>A pattern is compared with the extension of a file, and is never an extension.\<close>

lemma extension_dot: "path_extension p = [] \<or> hd (path_extension p) = CHR ''.''"
  by (simp add: path_extension_def Let_def)

lemma pattern_not_extension:
  assumes "cacheName \<noteq> [] \<longrightarrow> hd cacheName \<noteq> CHR ''.'' \<and> hd cacheName \<noteq> CHR 0x00"
  shows "path_extension p \<noteq> c_str (cacheName @ ''-'' @ rest)"
proof -
  have "c_str (cacheName @ ''-'' @ rest) \<noteq> [] \<and> hd (c_str (cacheName @ ''-'' @ rest)) \<noteq> CHR ''.''"
    using assms by (cases cacheName) (simp_all add: c_str_def)
  then show ?thesis using extension_dot [of p] by metis
qed

lemma GetFileName_prefix:
  "GetFileName env cacheName tag key expires pattern useHash = Inr f \<Longrightarrow> \<exists>rest. f = cacheName @ ''-'' @ rest"
  by (auto simp: GetFileName_def Let_def bindE_eq_Inr)

lemma query_empty:
  assumes "GetFileName env cacheName tag key expires pattern useHash = Inr f"
    and "cacheName \<noteq> [] \<longrightarrow> hd cacheName \<noteq> CHR ''.'' \<and> hd cacheName \<noteq> CHR 0x00"
  shows "QueryLocalStorageFiles folder f w = (if is_dir folder w then Inr [] else Inl StdException, w)"
proof -
  obtain rest where "f = cacheName @ ''-'' @ rest" using GetFileName_prefix [OF assms(1)] by blast
  then have "path_extension p \<noteq> c_str f" for p using pattern_not_extension [OF assms(2)] by simp
  then show ?thesis by (auto simp: QueryLocalStorageFiles_def entryList_def)
qed

lemma Lookup_result:
  assumes "cacheName \<noteq> [] \<longrightarrow> hd cacheName \<noteq> CHR ''.'' \<and> hd cacheName \<noteq> CHR 0x00"
  shows "\<exists>r. Lookup env encrypted cacheName tag key useHash w = (r, w) \<and> (\<forall>vs. r = Inr vs \<longrightarrow> vs = [])"
proof -
  obtain d where d: "IsCacheLookupDisableTestHookOn w = (Inr d, w)"
    by (simp add: IsCacheLookupDisableTestHookOn_def settings_get_def sx_simps)
  show ?thesis
  proof (cases "GetFileName env cacheName tag key [] True useHash")
    case (Inl e)
    then show ?thesis by (simp add: Lookup_def d catch_rms_def with_mutex_def sx_simps)
  next
    case (Inr f)
    have same: "w\<lparr>w_locked := False\<rparr> = w" if "\<not> w_locked w" using that by (cases w) simp
    have StdException: "\<not> is_rms StdException" by simp
    show ?thesis
      using Inr same
      by (simp add: Lookup_def d catch_rms_def with_mutex_def sx_simps query_empty [OF Inr assms] is_dir_def)
  qed
qed

section \<open>The counter of the clean-up\<close>

abbreviation counter_name :: "string \<Rightarrow> string" where
  "counter_name cacheName \<equiv> GetCacheSettingName cacheName ''CacheCleanupCounter''"

abbreviation counter :: "string \<Rightarrow> string option \<Rightarrow> int" where
  "counter cacheName f \<equiv>
     GetInt cacheSettingsContainerName (counter_name cacheName) defaultCleanupFrequency (IniFile_create f)"

lemma counter_path_ok:
  assumes "\<forall>c \<in> set cacheName. ascii c"
  shows "path_ok (decodeUserPath (settings_key cacheSettingsContainerName (counter_name cacheName)))"
  using assms
  by (auto simp: path_ok_def decodeUserPath_def settings_key_def cacheSettingsContainerName_def
      GetCacheSettingName_def ascii_def Let_def)

lemma cleanup_counts:
  assumes "w_locked w"
  shows "\<exists>w'. CleanupIfNeeded env cacheName w = (if 0 < counter cacheName (w_settings w) then Inr () else Inl NoReturn, w') \<and>
    w_locked w' \<and> (0 < counter cacheName (w_settings w) \<longrightarrow>
      w_settings w' = set_int_in_file cacheSettingsContainerName (counter_name cacheName)
        (counter cacheName (w_settings w) - 1) (w_settings w))"
  using assms
  by (simp add: CleanupIfNeeded_def catch_rms_def GetCacheCleanupCounter_def GetCacheCleanupFrequency_def
      settings_get_def SetCacheCleanupCounter_def LaunchCleanup_def sx_simps)

lemma store_bytes_plain:
  "\<exists>w'. store_bytes env False p d w = (Inr (), w') \<and> w_locked w' = w_locked w \<and> w_settings w' = w_settings w"
proof -
  obtain a where "bnd (sa_Write d) (\<lambda>_. sa_Flush) (StdStreamAdapter_o empty_stringstream) = (Inr True, a)"
    by (simp add: sa_Write_def sa_WriteInternal_def sa_Flush_def StdStreamAdapter_o_def sx_simps)
  then show ?thesis by (simp add: store_bytes_def write_file_def sx_simps)
qed

lemma Store_counts:
  assumes free: "\<not> w_locked w" and name: "GetFileName env cacheName tag key expires False useHash = Inr f"
  shows "\<exists>w'. Store env False cacheName tag key expires d useHash w =
      (if 0 < counter cacheName (w_settings w) then Inr () else Inl NoReturn, w') \<and> \<not> w_locked w' \<and>
    (0 < counter cacheName (w_settings w) \<longrightarrow>
      w_settings w' = set_int_in_file cacheSettingsContainerName (counter_name cacheName)
        (counter cacheName (w_settings w) - 1) (w_settings w))"
proof -
  obtain w1 where w1: "CreateDirectory (cacheFolderName env) (w\<lparr>w_locked := True\<rparr>) = (Inr (), w1)"
      "w_locked w1" "w_settings w1 = w_settings w"
    by (simp add: CreateDirectory_def mkpath_def sx_simps Let_def)
  obtain w2 where w2: "store_bytes env False (cacheFolderName env @ f) d w1 = (Inr (), w2)"
      "w_locked w2" "w_settings w2 = w_settings w"
    using store_bytes_plain [of env "cacheFolderName env @ f" d w1] w1 by auto
  obtain w3 where w3: "CleanupIfNeeded env cacheName w2 =
        (if 0 < counter cacheName (w_settings w) then Inr () else Inl NoReturn, w3)"
      "0 < counter cacheName (w_settings w) \<longrightarrow>
        w_settings w3 = set_int_in_file cacheSettingsContainerName (counter_name cacheName)
          (counter cacheName (w_settings w) - 1) (w_settings w)"
    using cleanup_counts [OF w2(2), of env cacheName] w2(3) by auto
  show ?thesis
    using free name w1(1) w2(1) w3 by (simp add: Store_def with_mutex_def sx_simps)
qed

text \<open>A caller that stores one response after the other.\<close>

type_synonym store_call = "string \<times> byte list option \<times> string \<times> byte list \<times> bool"

primrec stores :: "'k cache_env \<Rightarrow> string \<Rightarrow> store_call list \<Rightarrow> (exn, 'k world, unit) sx" where
  "stores env cacheName [] = ret ()"
| "stores env cacheName (x # xs) =
     (case x of (tag, key, expires, d, useHash) \<Rightarrow>
        seqx (Store env False cacheName tag key expires d useHash) (stores env cacheName xs))"

lemma names_exist:
  "\<forall>x. ce_encode env x \<noteq> None \<Longrightarrow> \<exists>f. GetFileName env cacheName tag key expires pattern useHash = Inr f"
proof -
  assume "\<forall>x. ce_encode env x \<noteq> None"
  then have "ce_encode env (ce_hash env x) = Some (the (ce_encode env (ce_hash env x)))" for x by simp
  then have "HashKey env x = Inr (ReplaceNotAllowedCharactersInBase64 (the (ce_encode env (ce_hash env x))))" for x
    by (metis HashKey_def ConvertBytesToBase64_def bindE_Inr option.simps(5))
  then show ?thesis by (cases key) (simp_all add: GetFileName_def Let_def)
qed

lemma stores_count:
  assumes "\<forall>x. ce_encode env x \<noteq> None" and "\<forall>c \<in> set cacheName. ascii c"
    and "\<not> w_locked w" and "settings_ok (w_settings w)" and "counter cacheName (w_settings w) = int n" and "n \<le> 100"
  shows "fst (stores env cacheName xs w) = (if length xs \<le> n then Inr () else Inl NoReturn)"
  using assms(3-6)
proof (induction xs arbitrary: w n)
  case Nil
  then show ?case by (simp add: ret_app)
next
  case (Cons x xs)
  obtain tag key expires d useHash where x: "x = (tag, key, expires, d, useHash)" by (cases x)
  obtain f where f: "GetFileName env cacheName tag key expires False useHash = Inr f"
    using names_exist [OF assms(1)] by blast
  obtain w' where w': "Store env False cacheName tag key expires d useHash w =
        (if 0 < n then Inr () else Inl NoReturn, w')" "\<not> w_locked w'"
      "0 < n \<longrightarrow> w_settings w' = set_int_in_file cacheSettingsContainerName (counter_name cacheName) (int n - 1) (w_settings w)"
    using Store_counts [OF Cons.prems(1) f, of d] Cons.prems(3) by auto
  show ?case
  proof (cases n)
    case 0
    then show ?thesis using w'(1) by (simp add: x seqx_app)
  next
    case (Suc m)
    have p: "path_ok (decodeUserPath (settings_key cacheSettingsContainerName (counter_name cacheName)))"
      by (rule counter_path_ok [OF assms(2)])
    have s: "w_settings w' = set_int_in_file cacheSettingsContainerName (counter_name cacheName) (int m) (w_settings w)"
      using w'(3) Suc by simp
    have "counter cacheName (w_settings w') = int m"
      unfolding s using Suc Cons.prems(4) by (intro get_set_int [OF Cons.prems(2) p]) simp_all
    moreover have "settings_ok (w_settings w')" unfolding s by (rule set_int_map(1) [OF Cons.prems(2) p])
    ultimately have "fst (stores env cacheName xs w') = (if length xs \<le> m then Inr () else Inl NoReturn)"
      using Cons.IH [of w' m] w'(2) Suc Cons.prems(4) by simp
    then show ?thesis using w'(1) Suc by (simp add: x seqx_app)
  qed
qed

section \<open>Dates\<close>

text \<open>
  The year is not counted from 1900 and the month not from 0 when a time is parsed, and a
  number of months is added to twice the month.
\<close>

lemma parsed_year:
  "gmtime (dt_time (fromString 0 ''2015-06-01T00:00:00Z'')) =
     \<lparr>tm_year = 2015, tm_mon = 6, tm_mday = 1, tm_hour = 0, tm_min = 0, tm_sec = 0\<rparr>"
  by code_simp

lemma added_months:
  "gmtime 1426420800 = \<lparr>tm_year = 115, tm_mon = 2, tm_mday = 15, tm_hour = 12, tm_min = 0, tm_sec = 0\<rparr>"
  "gmtime (dt_time (addMonths 0 1 (currentDateTime 1426420800))) =
     \<lparr>tm_year = 115, tm_mon = 5, tm_mday = 15, tm_hour = 12, tm_min = 0, tm_sec = 0\<rparr>"
  by code_simp+

section \<open>Properties\<close>

text \<open>
  C31: the hundred and first response that is stored never returns. With settings that hold
  no counter yet, a caller can store a hundred responses, whatever their names and contents;
  with one more the clean-up is started, which waits for the mutex that \<open>Store\<close> holds while
  \<open>Store\<close> waits for it.
\<close>

theorem cache_cleanup_deadlock:
  assumes "\<forall>x. ce_encode env x \<noteq> None" and "\<forall>c \<in> set cacheName. ascii c"
    and "\<not> w_locked w" and "settings_ok (w_settings w)"
    and "map_of (ini_load (w_settings w))
      (decodeUserPath (settings_key cacheSettingsContainerName (counter_name cacheName))) = None"
  shows "fst (stores env cacheName xs w) = (if length xs \<le> 100 then Inr () else Inl NoReturn)"
  using assms(5) by (intro stores_count [OF assms(1-4)]) (simp_all add: get_int_map defaultCleanupFrequency_def)

definition sample_env :: "(string \<Rightarrow> string option) cache_env" where
  "sample_env = \<lparr>ce_home = ''/h'', ce_hash = (\<lambda>x. x), ce_encode = Some, ce_tz = 0, ce_now = 1433160000,
     ce_ks = IKeyStorage_Create memory_keyring, ce_rnd = (1, replicate 16 7), ce_lib = xor_evp, ce_junk = 0, ce_fuel = 1\<rparr>"

definition fresh_world :: "(string \<Rightarrow> string option) world" where
  "fresh_world = \<lparr>w_files = [], w_dirs = [''/h''], w_settings = None, w_locked = False, w_keys = Map.empty\<rparr>"

theorem cache_cleanup_deadlock_witness:
  "fst (stores sample_env ''UR'' (replicate 101 (''ann'', None, [], [1], False)) fresh_world) =
     (if length (replicate 101 (''ann'', None :: byte list option, [] :: char list, [1 :: byte], False)) \<le> 100
      then Inr () else Inl NoReturn)"
  by (rule cache_cleanup_deadlock)
    (simp_all add: sample_env_def fresh_world_def ascii_def settings_ok_def ini_load_def)

text \<open>
  C33: what is stored is not found. \<open>QueryLocalStorageFiles\<close> compares a pattern with the
  extensions of the files, so after any \<open>Store\<close>, and in any other state, a lookup under the
  same name, tag and key returns no response; it changes nothing, and it throws when the
  folder does not exist.
\<close>

theorem stored_response_not_found:
  assumes "Store env encrypted cacheName tag key expires d useHash w = (x, w1)"
    and "cacheName \<noteq> [] \<longrightarrow> hd cacheName \<noteq> CHR ''.'' \<and> hd cacheName \<noteq> CHR 0x00"
  shows "\<exists>r. Lookup env encrypted cacheName tag key useHash w1 = (r, w1) \<and> r \<noteq> Inr (v # vs)"
  using Lookup_result [OF assms(2), of env encrypted tag key useHash w1] by auto

theorem stored_response_not_found_witness:
  "\<exists>w1 r. Store sample_env False ''UR'' ''ann'' (Some [1]) [] [2] True fresh_world = (Inr (), w1) \<and>
    Lookup sample_env False ''UR'' ''ann'' (Some [1]) True w1 = (r, w1) \<and> r \<noteq> Inr ([] # [])"
proof -
  have "\<exists>f. GetFileName sample_env ''UR'' ''ann'' (Some [1]) [] False True = Inr f"
    by (rule names_exist) (simp add: sample_env_def)
  then obtain f where f: "GetFileName sample_env ''UR'' ''ann'' (Some [1]) [] False True = Inr f" by blast
  have "0 < counter ''UR'' (w_settings fresh_world)"
    by (simp add: get_int_map fresh_world_def ini_load_def defaultCleanupFrequency_def)
  moreover have "\<not> w_locked fresh_world" by (simp add: fresh_world_def)
  ultimately obtain w1 where w1: "Store sample_env False ''UR'' ''ann'' (Some [1]) [] [2] True fresh_world = (Inr (), w1)"
    using Store_counts [OF _ f, of fresh_world "[2]"] by auto
  from stored_response_not_found [OF this, of "[]" "[]"] w1 show ?thesis by auto
qed

text \<open>
  C34: offline, the cache on disk never helps. Asked for the restrictions of a license with
  the disk cache on and no network, the client fails in every state of the disk and for
  every service: with \<open>NeedsOnline\<close> when the cache's folder exists, and with the file
  system's own exception when it does not, which no one above catches as an RMS exception.
\<close>

theorem offline_never_answers:
  assumes "has_cache_flag cacheMask RESPONSE_CACHE_ONDISK" and "\<forall>x. ce_encode env x \<noteq> None"
    and "\<not> w_locked w" and "fst (IsCacheLookupDisableTestHookOn w) = Inr False"
  shows "GetUsageRestrictions env sv now now' pl email True cacheMask w =
    (Inl (if is_dir (cacheFolderName env) w then needs_online else StdException), w)"
proof -
  have name: "s_usageRestrictionsCacheName \<noteq> [] \<longrightarrow>
      hd s_usageRestrictionsCacheName \<noteq> CHR ''.'' \<and> hd s_usageRestrictionsCacheName \<noteq> CHR 0x00"
    by (simp add: s_usageRestrictionsCacheName_def)
  obtain f where f: "GetFileName env s_usageRestrictionsCacheName email (Some pl) [] True True = Inr f"
    using names_exist [OF assms(2)] by blast
  have hook: "IsCacheLookupDisableTestHookOn w = (Inr False, w)"
    using assms(4) by (simp add: IsCacheLookupDisableTestHookOn_def settings_get_def sx_simps)
  have same: "w\<lparr>w_locked := False\<rparr> = w" using assms(3) by (cases w) simp
  have "Lookup env encrypted s_usageRestrictionsCacheName email (Some pl) True w =
      (if is_dir (cacheFolderName env) w then Inr [] else Inl StdException, w)" for encrypted
    using assms(3) same
    by (simp add: Lookup_def hook f catch_rms_def with_mutex_def sx_simps query_empty [OF f name] is_dir_def)
  then show ?thesis
    using assms(1) by (simp add: GetUsageRestrictions_def TryGetFromCache_def catch_rms_def sx_simps)
qed

theorem offline_never_answers_witness:
  "GetUsageRestrictions sample_env
      \<lparr>ur_serialize = Inr, ur_parse_license = (\<lambda>x. Inr []), ur_url = (\<lambda>x y. Inr []), ur_post = (\<lambda>u b. Inr (200, b)),
       ur_handle_error = (\<lambda>s b. Inr ()), ur_deserialize = (\<lambda>b. Inl StdException)\<rparr>
      5 6 [1] ''ann'' True 2 fresh_world =
    (Inl (if is_dir (cacheFolderName sample_env) fresh_world then needs_online else StdException), fresh_world)"
  by (rule offline_never_answers)
    (simp_all add: sample_env_def fresh_world_def has_cache_flag_def RESPONSE_CACHE_ONDISK_def
      IsCacheLookupDisableTestHookOn_def settings_get_def sx_simps GetBool_def ini_getBool_def ini_getValue_def
      IniFile_create_def ini_load_def)

text \<open>
  The time of expiry survives the file name. For a time without an underscore, the time
  parsed from the name that \<open>GetFileName\<close> makes is the time parsed from the text that was
  given, whatever the tag and the key.
\<close>

theorem file_name_expiry:
  assumes "GetFileName env cacheName tag key expires False useHash = Inr f" and "expires \<noteq> []"
    and "CHR ''='' \<notin> set cacheName" and "CHR ''='' \<notin> set expires" and "CHR ''_'' \<notin> set expires"
  shows "GetExpiryTimeFromFileName env cacheName f = Inr (fromString (ce_tz env) (c_str expires))"
proof -
  obtain rest where f: "f = cacheName @ ''-'' @ ReplaceNotAllowedCharactersInDateTime expires @ ''='' @ rest"
    using assms(1,2) by (auto simp: GetFileName_def Let_def bindE_eq_Inr)
  show ?thesis unfolding f by (rule expiry_of_name [OF assms(3-5)])
qed

theorem file_name_expiry_witness:
  "GetExpiryTimeFromFileName sample_env ''UR'' ''UR-2015-06-01T00_00_00Z=ann-NoHash'' =
     Inr (fromString (ce_tz sample_env) (c_str ''2015-06-01T00:00:00Z''))"
  by (rule file_name_expiry [where tag = "''ann''" and key = None and useHash = False])
    (simp_all add: GetFileName_def ReplaceNotAllowedCharactersInDateTime_def ReplaceNotAllowedCharactersInEmail_def Let_def)

lemma two_digits_value:
  assumes "0 \<le> n" and "n < 100"
  shows "\<exists>a b. two_digits n = [a, b] \<and> isdigit a \<and> \<not> isspace a \<and> a \<noteq> CHR ''-'' \<and> a \<noteq> CHR ''+'' \<and> isdigit b \<and>
    digits_value [a, b] = nat n"
proof -
  have d: "nat n div 10 < 10" "nat n mod 10 < 10" using assms by simp_all
  show ?thesis
    using digit_char [OF d(1)] digit_char [OF d(2)] by (simp add: two_digits_def digits_value_def)
qed

lemma scan_clock:
  assumes "0 \<le> n" and "n < 100" and that: "\<not> isdigit c"
  shows "scan_fields (l # ls) (two_digits n @ c # r) = int (nat n) # (if c = l then scan_fields ls r else [])"
proof -
  obtain a b where ab: "two_digits n = [a, b]" "isdigit a" "\<not> isspace a" "a \<noteq> CHR ''-''" "a \<noteq> CHR ''+''" "isdigit b"
      "digits_value [a, b] = nat n" using two_digits_value [OF assms(1,2)] by blast
  have "scan_int (a # b # c # r) = Some (int (nat n), c # r)"
    using ab that by (simp add: scan_int_def Let_def)
  then show ?thesis by (simp add: ab(1))
qed

lemma localtime_hour: "0 \<le> tm_hour (localtime tz t) \<and> tm_hour (localtime tz t) < 24"
proof -
  have "0 \<le> (t + tz) mod 86400 div 3600" "(t + tz) mod 86400 div 3600 < 24"
    using pos_mod_bound [of 86400 "t + tz"] pos_mod_sign [of 86400 "t + tz"] by linarith+
  moreover have "tm_hour (localtime tz t) = (t + tz) mod 86400 div 3600"
    by (simp only: localtime_def gmtime_def Let_def tm.select_convs)
  ultimately show ?thesis by simp
qed

text \<open>
  The text of a time cannot be read back. \<open>toString\<close> prints the time of day where the
  year belongs, so \<open>fromString\<close> takes the hour for a year since 1900 and finds no month or
  day: every time that is printed for the cache comes back as a time before 1970, and the
  file is deleted as expired when it is looked at.
\<close>

theorem expiry_text_lost:
  assumes "- 86400 < tz"
  shows "dt_time (fromString tz (toString tz d)) < - 1400000000 \<and>
    later (currentDateTime 0) (fromString tz (toString tz d))"
proof -
  let ?h = "tm_hour (localtime tz (dt_time d - dt_gmt_off d))"
  have h: "0 \<le> ?h" "?h < 24" using localtime_hour by simp_all
  have f: "to_cstd_format ''%T-%m-%dT%H:%M:%SZ'' = ''%T-%m-%dT%H:%M:%SZ''"
    by code_simp
  have "\<exists>r. strftime (percent # CHR ''T'' # x) t = two_digits (tm_hour t) @ CHR '':'' # r" for x t by simp
  then have "\<exists>r. toString tz d = two_digits ?h @ CHR '':'' # r"
    unfolding toString_def toString_format_def f by blast
  then obtain r where r: "toString tz d = two_digits ?h @ CHR '':'' # r" by blast
  have "scan_fields ''--T::'' (toString tz d) = [?h]"
    using h unfolding r by (subst scan_clock) (simp_all add: isdigit_def)
  then have "scan_tm (toString tz d) = zero_tm\<lparr>tm_year := ?h\<rparr>"
    by (simp add: scan_tm_def zero_tm_def Let_def)
  moreover have "days_before_year (?h + 1900) \<le> - 17000"
  proof -
    have "(?h + 1899) div 4 \<le> 480" "18 \<le> (?h + 1899) div 100" "(?h + 1899) div 400 \<le> 4" using h by linarith+
    then show ?thesis using h(2) by (simp add: days_before_year_def)
  qed
  ultimately show ?thesis
    using assms by (simp add: fromString_def mktime_def zero_tm_def days_from_civil_def days_before_month_def
      later_def currentDateTime_def)
qed

theorem expiry_text_lost_witness:
  "dt_time (fromString 3600 (toString 3600 (currentDateTime 1433160000))) < - 1400000000 \<and>
    later (currentDateTime 0) (fromString 3600 (toString 3600 (currentDateTime 1433160000)))"
  by (rule expiry_text_lost) simp

end
