(* ===== verification/AuthStrings.thy ===== *)
theory AuthStrings
  imports DateTime StdStrings
begin

text \<open>
  The exceptions of the authentication library (\<open>sdk/rmsauth_sdk/rmsauth/rmsauth/Exceptions.h\<close>)
  and its string functions (\<open>rmsauth/utils.cpp\<close>). A copy or an index that leaves
  the string is an exception of the standard library where the call checks, and
  \<open>OutOfBounds\<close> where it does not.
\<close>

section \<open>Exceptions\<close>

datatype auth_exn =
  RmsauthException string string
  | RmsauthServiceException string string
  | RmsauthUserMismatchException string string
  | RmsauthParsingException string string
  | RmsauthJsonParsingException string string
  | IllegalArgumentException string string
  | PointerThrown auth_exn \<comment> \<open>\<open>throw new\<close>: the pointer is the exception\<close>
  | StdOutOfRange
  | StdInvalidArgument string
  | StdRuntime string
  | JsonTypeError
  | CryptoFailure exn
  | OutOfBounds
  | NullPointer

fun is_auth_exception :: "auth_exn \<Rightarrow> bool" where
  "is_auth_exception (RmsauthException _ _) = True"
| "is_auth_exception (RmsauthServiceException _ _) = True"
| "is_auth_exception (RmsauthUserMismatchException _ _) = True"
| "is_auth_exception (RmsauthParsingException _ _) = True"
| "is_auth_exception (RmsauthJsonParsingException _ _) = True"
| "is_auth_exception (IllegalArgumentException _ _) = True"
| "is_auth_exception _ = False"

text \<open>\<open>RmsauthException\<close> and what derives from it; \<open>IllegalArgumentException\<close> does not.\<close>

fun is_rmsauth :: "auth_exn \<Rightarrow> bool" where
  "is_rmsauth (IllegalArgumentException _ _) = False"
| "is_rmsauth e = is_auth_exception e"

section \<open>StringUtils\<close>

definition startsWith :: "string \<Rightarrow> string \<Rightarrow> bool" where
  "startsWith src substr \<longleftrightarrow> take (length substr) src = substr"

text \<open>The start of the comparison is a difference of sizes; past the end \<open>compare\<close> throws.\<close>

definition endsWith :: "string \<Rightarrow> string \<Rightarrow> auth_exn + bool" where
  "endsWith src substr =
     (if length src < length substr then Inl StdOutOfRange
      else Inr (drop (length src - length substr) src = substr))"

definition compareIC :: "string \<Rightarrow> string \<Rightarrow> int" where
  "compareIC src str =
     (let srcLow = to_lower_string src; strLow = to_lower_string str
      in if srcLow = strLow then 0 else if srcLow < strLow then - 1 else 1)"

definition equalsIC :: "string \<Rightarrow> string \<Rightarrow> bool" where
  "equalsIC src str \<longleftrightarrow> compareIC src str = 0"

definition is_blank :: "char \<Rightarrow> bool" where
  "is_blank c \<longleftrightarrow> c \<in> {CHR '' '', CHR 0x09, CHR 0x0D, CHR 0x0A}"

text \<open>
  The loop that walks back from the end stops at the first character outside \<open>P\<close>. It does
  not look at the start of the string: \<open>None\<close> is an index below zero.
\<close>

primrec walk_back :: "(char \<Rightarrow> bool) \<Rightarrow> string \<Rightarrow> nat \<Rightarrow> nat option" where
  "walk_back P s 0 = None"
| "walk_back P s (Suc n) = (if P (s ! n) then walk_back P s n else Some n)"

text \<open>\<open>substr(s, e - s + 1)\<close>: the count wraps when \<open>e\<close> is to the left of \<open>s\<close>.\<close>

definition substr_to :: "string \<Rightarrow> nat \<Rightarrow> nat \<Rightarrow> string" where
  "substr_to src s e = (if s \<le> e + 1 then take (e + 1 - s) (drop s src) else drop s src)"

definition su_trim :: "string \<Rightarrow> auth_exn + string" where
  "su_trim src =
     (if src = [] then Inr src
      else let s = length (takeWhile is_blank src)
           in case walk_back is_blank src (length src) of
                None \<Rightarrow> Inl OutOfBounds
              | Some e \<Rightarrow> Inr (substr_to src s e))"

definition removeQuoteInHeaderValue :: "string \<Rightarrow> auth_exn + string" where
  "removeQuoteInHeaderValue src =
     (if src = [] then Inr src
      else bindE (su_trim src) (\<lambda>tmp.
        let q = length (takeWhile (\<lambda>c. c = CHR 0x27) tmp);
            s = q + length (takeWhile (\<lambda>c. c = CHR 0x22) (drop q tmp))
        in case walk_back (\<lambda>c. c = CHR 0x22) tmp (length tmp) of
             None \<Rightarrow> Inl OutOfBounds
           | Some e \<Rightarrow> Inr (substr_to tmp s e)))"

definition su_split :: "string \<Rightarrow> char \<Rightarrow> auth_exn + string list" where
  "su_split src delim =
     (if src = [] then Inl OutOfBounds
      else Inr (getlines delim src @ (if last src = delim then [[]] else [])))"

definition su_replace :: "string \<Rightarrow> string \<Rightarrow> string \<Rightarrow> auth_exn + string" where
  "su_replace src frm to =
     (if src = [] then Inr src
      else case find_str frm src 0 of
             None \<Rightarrow> Inl (StdInvalidArgument ''Can't find substring'')
           | Some pos \<Rightarrow> Inr (replace_at src pos (length frm) to))"

text \<open>The loop has no bound of its own; \<open>None\<close> is a call that does not return.\<close>

partial_function (option) replaceAll_loop :: "string \<Rightarrow> string \<Rightarrow> string \<Rightarrow> nat \<Rightarrow> string option" where
  "replaceAll_loop frm to result offset =
     (case find_str frm result offset of
        None \<Rightarrow> Some result
      | Some pos \<Rightarrow> replaceAll_loop frm to (replace_at result pos (length frm) to) (pos + length to))"

definition replaceAll :: "string \<Rightarrow> string \<Rightarrow> string \<Rightarrow> string option" where
  "replaceAll src frm to = (if src = [] then Some src else replaceAll_loop frm to src 0)"

definition replaceAll_char :: "string \<Rightarrow> char \<Rightarrow> char \<Rightarrow> string" where
  "replaceAll_char src frm to = map (\<lambda>c. if c = frm then to else c) src"

text \<open>
  \<open>EVP_EncodeBlock\<close> and \<open>EVP_DecodeBlock\<close> are arguments: the text written, and the bytes
  written or the failure.
\<close>

definition su_base64Decode :: "(byte list \<Rightarrow> byte list option) \<Rightarrow> string \<Rightarrow> auth_exn + string" where
  "su_base64Decode EVP_DecodeBlock base64Input =
     (case EVP_DecodeBlock (string_bytes base64Input) of
        None \<Rightarrow> Inl (StdRuntime ''Base64 decoding failed.'')
      | Some decodedData \<Rightarrow> Inr (bytes_string decodedData))"

definition su_base64Encode :: "(byte list \<Rightarrow> byte list) \<Rightarrow> string \<Rightarrow> string" where
  "su_base64Encode EVP_EncodeBlock input = bytes_string (EVP_EncodeBlock (string_bytes input))"

section \<open>Lemmas\<close>

lemma equalsIC_iff: "equalsIC a b \<longleftrightarrow> to_lower_string a = to_lower_string b"
  by (simp add: equalsIC_def compareIC_def Let_def)

lemma equalsIC_refl [simp]: "equalsIC a a"
  by (simp add: equalsIC_iff)

lemma equalsIC_sym: "equalsIC a b \<longleftrightarrow> equalsIC b a"
  by (auto simp: equalsIC_iff)

lemma equalsIC_trans: "equalsIC a b \<Longrightarrow> equalsIC b c \<Longrightarrow> equalsIC a c"
  by (simp add: equalsIC_iff)

text \<open>Replacing every occurrence, from left to right, as a recursion on the text.\<close>

function substitute :: "string \<Rightarrow> string \<Rightarrow> string \<Rightarrow> string" where
  "substitute pat to [] = []"
| "substitute pat to (c # r) =
     (if pat \<noteq> [] \<and> take (length pat) (c # r) = pat then to @ substitute pat to (drop (length pat) (c # r))
      else c # substitute pat to r)"
  by pat_completeness auto
termination
  by (relation "measure (\<lambda>(pat, to, s). length s)") (auto simp: diff_less_Suc)

declare substitute.simps(2) [simp del]

lemma find_at_None: "find_at pat s = None \<Longrightarrow> pat \<noteq> [] \<Longrightarrow> substitute pat to s = s"
  by (induction s) (auto simp: substitute.simps split: if_splits)

lemma find_at_Some:
  "find_at pat s = Some i \<Longrightarrow> pat \<noteq> [] \<Longrightarrow>
   i + length pat \<le> length s \<and>
   substitute pat to s = take i s @ to @ substitute pat to (drop (i + length pat) s)"
proof (induction s arbitrary: i)
  case Nil
  then show ?case by simp
next
  case (Cons c r)
  show ?case
  proof (cases "take (length pat) (c # r) = pat")
    case True
    then have "length pat \<le> length (c # r)" by (metis length_take min.cobounded1 nat_le_linear)
    with True Cons.prems show ?thesis by (simp add: substitute.simps)
  next
    case False
    then obtain j where "find_at pat r = Some j" "i = Suc j" using Cons.prems(1) by auto
    with Cons.IH [of j] Cons.prems(2) False show ?thesis by (simp add: substitute.simps(2))
  qed
qed

lemma replaceAll_loop_eq:
  assumes "pat \<noteq> []"
  shows "replaceAll_loop pat to (pre @ s) (length pre) = Some (pre @ substitute pat to s)"
proof (induction s arbitrary: pre rule: length_induct)
  case (1 s)
  show ?case
  proof (cases "find_at pat s")
    case None
    then show ?thesis using find_at_None [OF None assms, of to]
      by (simp add: replaceAll_loop.simps find_str_def)
  next
    case (Some i)
    let ?t = "drop (i + length pat) s"
    have le: "i + length pat \<le> length s" and sub: "substitute pat to s = take i s @ to @ substitute pat to ?t"
      using find_at_Some [OF Some assms, of to] by auto
    have "length ?t < length s" using le assms by (cases pat) auto
    then have "replaceAll_loop pat to ((pre @ take i s @ to) @ ?t) (length (pre @ take i s @ to)) =
        Some ((pre @ take i s @ to) @ substitute pat to ?t)"
      using 1 by blast
    moreover have "replace_at (pre @ s) (length pre + i) (length pat) to = (pre @ take i s @ to) @ ?t"
      by (simp add: replace_at_def)
    moreover have "length (pre @ take i s @ to) = length pre + i + length to" using le by simp
    ultimately show ?thesis
      using Some sub by (subst replaceAll_loop.simps) (simp add: find_str_def add.assoc)
  qed
qed

lemma replaceAll_loop_forever:
  assumes "replaceAll_loop pat to result offset = Some r" and "pat = []" and "offset \<le> length result"
  shows False
proof -
  have "pat = [] \<longrightarrow> \<not> offset \<le> length result"
  proof (rule replaceAll_loop.raw_induct [where P = "\<lambda>pat to result offset r. pat = [] \<longrightarrow> \<not> offset \<le> length result",
        OF _ assms(1)])
    fix f pat to result offset r
    assume IH: "\<And>pat to result offset r. f pat to result offset = Some r \<Longrightarrow>
        pat = [] \<longrightarrow> \<not> offset \<le> length result"
      and eq: "(case find_str pat result offset of None \<Rightarrow> Some result
        | Some pos \<Rightarrow> f pat to (replace_at result pos (length pat) to) (pos + length to)) = Some r"
    show "pat = [] \<longrightarrow> \<not> offset \<le> length result"
    proof (intro impI notI)
      assume p: "pat = []" and le: "offset \<le> length result"
      have "find_at [] t = Some 0" for t :: string by (cases t) simp_all
      then have "find_str pat result offset = Some offset" using p le by (simp add: find_str_def)
      then have "\<not> offset + length to \<le> length (replace_at result offset (length pat) to)"
        using eq IH [of pat to] p by auto
      then show False using le p by (simp add: replace_at_def)
    qed
  qed
  then show ?thesis using assms by simp
qed

text \<open>
  C25: replacing every occurrence of a pattern ends for every pattern but the empty one, and
  then gives the text with the occurrences replaced from left to right, where what was put
  in is not looked at again. With an empty pattern and a text that is not empty the call
  does not return: the pattern is found again behind what was just put in.
\<close>

theorem replaceAll_terminates:
  "replaceAll src pat to =
     (if src = [] then Some [] else if pat = [] then None else Some (substitute pat to src))"
proof (cases "src = [] \<or> pat \<noteq> []")
  case True
  then show ?thesis using replaceAll_loop_eq [of pat to "[]" src] by (auto simp: replaceAll_def)
next
  case False
  then have "replaceAll_loop pat to src 0 = None"
    using replaceAll_loop_forever [of pat to src 0] by (cases "replaceAll_loop pat to src 0") auto
  with False show ?thesis by (simp add: replaceAll_def)
qed

end
