(* ===== verification/JsonValues.thy ===== *)
theory JsonValues
  imports Complex_Main "HOL-Library.Char_ord" "HOL-Library.List_Lexorder"
begin

text \<open>
  JSON values as both libraries use them. The nlohmann library is not in the repository: a
  value is what it parses, \<open>parse\<close> and \<open>dump\<close> are arguments, and \<open>json_lib_ok\<close> is the law
  that a dumped value is parsed back. A library for which the law holds is at the end.
\<close>

section \<open>Values\<close>

datatype json =
  JNull
  | JBool bool
  | JInt int
  | JFloat rat
  | JString string
  | JArray "json list"
  | JObject "(string \<times> json) list"

record json_lib =
  jl_parse :: "string \<Rightarrow> string + json"  \<comment> \<open>\<open>Inl\<close>: the \<open>what()\<close> of the exception\<close>
  jl_dump :: "json \<Rightarrow> string option"      \<comment> \<open>\<open>None\<close>: a string is not UTF-8\<close>

text \<open>An object is a \<open>std::map\<close>: its members in the order of the keys.\<close>

fun map_put :: "string \<Rightarrow> 'a \<Rightarrow> (string \<times> 'a) list \<Rightarrow> (string \<times> 'a) list" where
  "map_put k v [] = [(k, v)]"
| "map_put k v ((k', v') # xs) =
     (if k = k' then (k, v) # xs else if k < k' then (k, v) # (k', v') # xs else (k', v') # map_put k v xs)"

text \<open>Only an object contains a key.\<close>

definition json_find :: "json \<Rightarrow> string \<Rightarrow> json option" where
  "json_find qobj key = (case qobj of JObject xs \<Rightarrow> map_of xs key | _ \<Rightarrow> None)"

text \<open>\<open>get<int>()\<close> of a number: a \<open>static_cast\<close>.\<close>

definition rat_trunc :: "rat \<Rightarrow> int" where
  "rat_trunc q = (if 0 \<le> q then \<lfloor>q\<rfloor> else \<lceil>q\<rceil>)"

section \<open>The law of the JSON library\<close>

definition ascii_string :: "string \<Rightarrow> bool" where
  "ascii_string s \<longleftrightarrow> list_all (\<lambda>c. of_char c < (128 :: nat)) s"

text \<open>Values the library is sure to print and to read back unchanged.\<close>

fun json_plain :: "json \<Rightarrow> bool" where
  "json_plain JNull \<longleftrightarrow> True"
| "json_plain (JBool b) \<longleftrightarrow> True"
| "json_plain (JInt i) \<longleftrightarrow> - (2 ^ 63) \<le> i \<and> i < 2 ^ 64"
| "json_plain (JFloat q) \<longleftrightarrow> of_int (rat_trunc q) = q \<and> - (2 ^ 53) < q \<and> q < 2 ^ 53"
| "json_plain (JString s) \<longleftrightarrow> ascii_string s"
| "json_plain (JArray xs) \<longleftrightarrow> (\<forall>x\<in>set xs. json_plain x)"
| "json_plain (JObject xs) \<longleftrightarrow>
     sorted_wrt (<) (map fst xs) \<and> (\<forall>kv\<in>set xs. ascii_string (fst kv) \<and> json_plain (snd kv))"

definition json_lib_ok :: "json_lib \<Rightarrow> bool" where
  "json_lib_ok lib \<longleftrightarrow> (\<forall>j. json_plain j \<longrightarrow> (\<exists>s. jl_dump lib j = Some s \<and> jl_parse lib s = Inr j))"

section \<open>Lemmas\<close>

lemma map_of_map_put: "map_of (map_put k v xs) = (map_of xs)(k \<mapsto> v)"
  by (induction k v xs rule: map_put.induct) auto

lemma set_fst_map_put: "set (map fst (map_put k v xs)) = insert k (set (map fst xs))"
  by (induction k v xs rule: map_put.induct) auto

lemma set_map_put: "set (map_put k v xs) \<subseteq> insert (k, v) (set xs)"
  by (induction k v xs rule: map_put.induct) auto

lemma sorted_map_put: "sorted_wrt (<) (map fst xs) \<Longrightarrow> sorted_wrt (<) (map fst (map_put k v xs))"
proof (induction k v xs rule: map_put.induct)
  case (2 k v k' v' xs)
  then show ?case using set_fst_map_put [of k v xs] by auto
qed simp

lemma plain_put:
  assumes "json_plain (JObject xs)" and "ascii_string k" and "json_plain v"
  shows "json_plain (JObject (map_put k v xs))"
  using assms sorted_map_put [of xs k v] set_map_put [of k v xs] by fastforce

lemma json_find_object [simp]: "json_find (JObject xs) k = map_of xs k"
  by (simp add: json_find_def)

lemma plain_empty: "json_plain (JObject [])"
  by simp

lemma json_lib_okD:
  "json_lib_ok lib \<Longrightarrow> json_plain j \<Longrightarrow> \<exists>s. jl_dump lib j = Some s \<and> jl_parse lib s = Inr j"
  by (simp add: json_lib_ok_def)

section \<open>A library for which the law holds\<close>

text \<open>A prefix code: a letter for the constructor, and the numbers in unary.\<close>

definition tally :: "nat \<Rightarrow> string" where
  "tally n = replicate n (CHR ''1'') @ ''0''"

definition untally :: "string \<Rightarrow> nat \<times> string" where
  "untally s = (length (takeWhile (\<lambda>c. c = CHR ''1'') s), tl (dropWhile (\<lambda>c. c = CHR ''1'') s))"

fun code_json :: "json \<Rightarrow> string" where
  "code_json JNull = ''n''"
| "code_json (JBool b) = (if b then ''t'' else ''f'')"
| "code_json (JInt i) = (if i < 0 then ''m'' else ''p'') @ tally (nat (abs i))"
| "code_json (JFloat q) = (if q < 0 then ''b'' else ''d'') @ tally (nat (abs (rat_trunc q)))"
| "code_json (JString s) = ''s'' @ tally (length s) @ s"
| "code_json (JArray xs) = ''a'' @ tally (length xs) @ concat (map code_json xs)"
| "code_json (JObject xs) =
     ''o'' @ tally (length xs) @ concat (map (\<lambda>kv. tally (length (fst kv)) @ fst kv @ code_json (snd kv)) xs)"

primrec times :: "nat \<Rightarrow> (string \<Rightarrow> 'a \<times> string) \<Rightarrow> string \<Rightarrow> 'a list \<times> string" where
  "times 0 d s = ([], s)"
| "times (Suc n) d s = (case d s of (x, t) \<Rightarrow> case times n d t of (xs, u) \<Rightarrow> (x # xs, u))"

definition decode_string :: "string \<Rightarrow> string \<times> string" where
  "decode_string s = (case untally s of (n, t) \<Rightarrow> (take n t, drop n t))"

primrec decode_json :: "nat \<Rightarrow> string \<Rightarrow> json \<times> string" where
  "decode_json 0 s = (JNull, s)"
| "decode_json (Suc f) s =
     (let c = hd s; r = tl s in
      if c = CHR ''t'' then (JBool True, r)
      else if c = CHR ''f'' then (JBool False, r)
      else if c = CHR ''p'' then (case untally r of (n, t) \<Rightarrow> (JInt (int n), t))
      else if c = CHR ''m'' then (case untally r of (n, t) \<Rightarrow> (JInt (- int n), t))
      else if c = CHR ''d'' then (case untally r of (n, t) \<Rightarrow> (JFloat (of_nat n), t))
      else if c = CHR ''b'' then (case untally r of (n, t) \<Rightarrow> (JFloat (- of_nat n), t))
      else if c = CHR ''s'' then (case decode_string r of (x, t) \<Rightarrow> (JString x, t))
      else if c = CHR ''a'' then
        (case untally r of (n, t) \<Rightarrow> case times n (decode_json f) t of (xs, u) \<Rightarrow> (JArray xs, u))
      else if c = CHR ''o'' then
        (case untally r of (n, t) \<Rightarrow>
         case times n (\<lambda>t. case decode_string t of (k, t') \<Rightarrow> case decode_json f t' of (v, u) \<Rightarrow> ((k, v), u)) t of
           (xs, u) \<Rightarrow> (JObject xs, u))
      else (JNull, r))"

definition tally_json :: json_lib where
  "tally_json = \<lparr>jl_parse = \<lambda>s. Inr (fst (decode_json (length s) s)), jl_dump = \<lambda>j. Some (code_json j)\<rparr>"

lemma float_parts:
  assumes "of_int (rat_trunc q) = q"
  shows "q < 0 \<Longrightarrow> - of_nat (nat (abs (rat_trunc q))) = q" "\<not> q < 0 \<Longrightarrow> of_nat (nat (abs (rat_trunc q))) = q"
proof -
  have "of_nat (nat (abs (rat_trunc q))) = \<bar>q\<bar>"
    using arg_cong [OF assms, of abs] by (simp add: of_nat_nat)
  then show "q < 0 \<Longrightarrow> - of_nat (nat (abs (rat_trunc q))) = q" "\<not> q < 0 \<Longrightarrow> of_nat (nat (abs (rat_trunc q))) = q"
    by simp_all
qed

lemma untally_tally [simp]: "untally (tally n @ r) = (n, r)"
  by (simp add: untally_def tally_def takeWhile_append dropWhile_append)

lemma decode_string_code [simp]: "decode_string (tally (length s) @ s @ r) = (s, r)"
  by (simp add: decode_string_def)

lemma times_concat:
  assumes "\<And>x r. x \<in> set xs \<Longrightarrow> d (e x @ r) = (x, r)"
  shows "times (length xs) d (concat (map e xs) @ r) = (xs, r)"
  using assms by (induction xs) auto

lemma length_in_concat: "x \<in> set xs \<Longrightarrow> length (e x) \<le> length (concat (map e xs))"
  by (induction xs) auto

lemma decode_code:
  assumes "json_plain j" and "length (code_json j) \<le> f"
  shows "decode_json f (code_json j @ r) = (j, r)"
  using assms
proof (induction f arbitrary: j r)
  case 0
  then show ?case by (cases j) (auto split: if_splits)
next
  case (Suc f)
  show ?case
  proof (cases j)
    case (JFloat q)
    then show ?thesis using Suc.prems(1) float_parts [of q] by auto
  next
    case (JArray xs)
    have "decode_json f (code_json x @ t) = (x, t)" if "x \<in> set xs" for x t
      using Suc JArray that length_in_concat [OF that, of code_json] by (intro Suc.IH) auto
    then show ?thesis using JArray times_concat [of xs "decode_json f" code_json r] by simp
  next
    case (JObject xs)
    let ?e = "\<lambda>kv. tally (length (fst kv)) @ fst kv @ code_json (snd kv)"
    let ?d = "\<lambda>t. case decode_string t of (k, t') \<Rightarrow> case decode_json f t' of (v, u) \<Rightarrow> ((k, v), u)"
    have "?d (?e kv @ t) = (kv, t)" if "kv \<in> set xs" for kv t
    proof -
      have "decode_json f (code_json (snd kv) @ t) = (snd kv, t)"
        using Suc JObject that length_in_concat [OF that, of ?e] by (intro Suc.IH) auto
      then show ?thesis by simp
    qed
    then show ?thesis using JObject times_concat [of xs ?d ?e r] by simp
  qed (use Suc.prems in auto)
qed

lemma tally_json_ok: "json_lib_ok tally_json"
proof -
  have "fst (decode_json (length (code_json j)) (code_json j)) = j" if "json_plain j" for j
    using decode_code [OF that order_refl, of "[]"] by simp
  then show ?thesis by (simp add: json_lib_ok_def tally_json_def)
qed

end
