(* ===== verification/AuthJson.thy ===== *)
theory AuthJson
  imports AuthStrings JsonValues
begin

text \<open>
  The accessors of \<open>rmsauth/JsonUtilsQt.cpp\<close>, and the two objects of the authentication
  library that are stored as JSON: \<open>UserInfo\<close> and \<open>AuthenticationResult\<close>.
\<close>

text \<open>\<open>operator[]\<close> on an object or a null, which becomes an object.\<close>

definition json_put :: "string \<Rightarrow> json \<Rightarrow> json \<Rightarrow> auth_exn + json" where
  "json_put key v qobj =
     (case qobj of JNull \<Rightarrow> Inr (JObject [(key, v)]) | JObject xs \<Rightarrow> Inr (JObject (map_put key v xs))
      | _ \<Rightarrow> Inl JsonTypeError)"

definition json_number :: "json \<Rightarrow> int option" where
  "json_number j = (case j of JInt i \<Rightarrow> Some (as_int i) | JFloat q \<Rightarrow> Some (as_int (rat_trunc q)) | _ \<Rightarrow> None)"

section \<open>JsonUtilsQt\<close>

definition getStringOrDefault :: "json \<Rightarrow> string \<Rightarrow> string \<Rightarrow> auth_exn + string" where
  "getStringOrDefault qobj key defval =
     (case json_find qobj key of
        None \<Rightarrow> Inr defval
      | Some (JString s) \<Rightarrow> Inr s
      | Some _ \<Rightarrow> Inl (RmsauthJsonParsingException ''JsonUtilsQt::getStringOrDefault'' ''value is not a string''))"

definition getIntOrDefault :: "json \<Rightarrow> string \<Rightarrow> int \<Rightarrow> auth_exn + int" where
  "getIntOrDefault qobj key defval =
     (case json_find qobj key of
        None \<Rightarrow> Inr defval
      | Some res \<Rightarrow>
          (case json_number res of
             Some i \<Rightarrow> Inr i
           | None \<Rightarrow> Inl (RmsauthJsonParsingException ''JsonUtilsQt::getIntOrDefault'' ''value is not int'')))"

definition getStringAsIntOrDefault :: "json \<Rightarrow> string \<Rightarrow> int \<Rightarrow> auth_exn + int" where
  "getStringAsIntOrDefault qobj key defval =
     (case json_find qobj key of
        None \<Rightarrow> Inr defval
      | Some res \<Rightarrow>
          (case json_number res of
             Some i \<Rightarrow> Inr i
           | None \<Rightarrow>
               (case res of
                  JString strRes \<Rightarrow>
                    (case strtol (c_str strRes) of (intRes, endptr) \<Rightarrow>
                      if strRes = [] \<or> endptr \<noteq> []
                      then Inl (RmsauthJsonParsingException ''JsonUtilsQt::getStringAsIntOrZero''
                                  ''value can't be converted to int'')
                      else Inr (as_int intRes))
                | _ \<Rightarrow> Inl (RmsauthJsonParsingException ''JsonUtilsQt::getStringAsIntOrDefault''
                            ''value is not a string''))))"

definition getBoolOrDefault :: "json \<Rightarrow> string \<Rightarrow> bool \<Rightarrow> auth_exn + bool" where
  "getBoolOrDefault qobj key defval =
     (case json_find qobj key of
        None \<Rightarrow> Inr defval
      | Some (JBool b) \<Rightarrow> Inr b
      | Some _ \<Rightarrow> Inl (RmsauthJsonParsingException ''JsonUtilsQt::getBoolOrDefault'' ''value is not bool''))"

fun int_elements :: "string \<Rightarrow> json list \<Rightarrow> auth_exn + int list" where
  "int_elements key [] = Inr []"
| "int_elements key (elem # val) =
     (case json_number elem of
        None \<Rightarrow> Inl (RmsauthException
          (''getIntArrayOrEmpty: the array element for the key '' @ [CHR 0x27] @ key @ [CHR 0x27] @ '' in not an int'') '''')
      | Some i \<Rightarrow> bindE (int_elements key val) (\<lambda>sa. Inr (i # sa)))"

definition getIntArrayOrEmpty :: "json \<Rightarrow> string \<Rightarrow> auth_exn + int list" where
  "getIntArrayOrEmpty qobj key =
     (case json_find qobj key of
        None \<Rightarrow> Inr []
      | Some (JArray val) \<Rightarrow> int_elements key val
      | Some JNull \<Rightarrow> Inr []
      | Some _ \<Rightarrow> Inl (RmsauthException
          (''getIntArrayOrEmpty: the value for the key '' @ [CHR 0x27] @ key @ [CHR 0x27] @ '' in not an array'') ''''))"

definition json_dump :: "json_lib \<Rightarrow> json \<Rightarrow> auth_exn + string" where
  "json_dump lib j = (case jl_dump lib j of None \<Rightarrow> Inl JsonTypeError | Some s \<Rightarrow> Inr s)"

definition parseObject ::
  "json_lib \<Rightarrow> json \<Rightarrow> string \<Rightarrow> (string \<Rightarrow> auth_exn + 'a) \<Rightarrow> auth_exn + 'a option" where
  "parseObject lib qobj key d =
     (case json_find qobj key of
        None \<Rightarrow> Inr None
      | Some v \<Rightarrow> bindE (json_dump lib v) (\<lambda>s. bindE (d s) (\<lambda>x. Inr (Some x))))"

definition insertObject :: "json_lib \<Rightarrow> string \<Rightarrow> string \<Rightarrow> json \<Rightarrow> auth_exn + json" where
  "insertObject lib key jsonString qobj =
     (case jl_parse lib jsonString of
        Inl w \<Rightarrow> Inl (RmsauthException (''AuthenticationResult::deserialize: '' @ w) '''')
      | Inr jobj \<Rightarrow>
          (case json_put key jobj qobj of
             Inl e \<Rightarrow> Inl (RmsauthException ''AuthenticationResult::deserialize: type error'' '''')
           | Inr q \<Rightarrow> Inr q))"

definition insertString :: "string \<Rightarrow> string \<Rightarrow> json \<Rightarrow> auth_exn + json" where
  "insertString key str qobj = json_put key (JString str) qobj"

section \<open>UserInfo\<close>

record UserInfo =
  ui_uniqueId :: string
  ui_displayableId :: string
  ui_givenName :: string
  ui_familyName :: string
  ui_identityProvider :: string
  ui_passwordChangeUrl :: string
  ui_passwordExpiresOn :: int
  ui_forcePrompt :: bool

text \<open>\<open>make_shared<UserInfo>()\<close> sets every member to zero.\<close>

definition UserInfo_create :: UserInfo where
  "UserInfo_create =
     \<lparr>ui_uniqueId = [], ui_displayableId = [], ui_givenName = [], ui_familyName = [], ui_identityProvider = [],
      ui_passwordChangeUrl = [], ui_passwordExpiresOn = 0, ui_forcePrompt = False\<rparr>"

definition UserInfo_deserialize :: "json_lib \<Rightarrow> string \<Rightarrow> auth_exn + UserInfo" where
  "UserInfo_deserialize lib jsonString =
     (case jl_parse lib jsonString of
        Inl w \<Rightarrow> Inl (RmsauthJsonParsingException ''UserInfo::deserialize: '' w)
      | Inr qobj \<Rightarrow>
          bindE (getStringOrDefault qobj ''uniqueId'' []) (\<lambda>uniqueId.
          bindE (getStringOrDefault qobj ''displayableId'' []) (\<lambda>displayableId.
          bindE (getStringOrDefault qobj ''givenName'' []) (\<lambda>givenName.
          bindE (getStringOrDefault qobj ''familyName'' []) (\<lambda>familyName.
          bindE (getStringOrDefault qobj ''identityProvider'' []) (\<lambda>identityProvider.
          bindE (getStringOrDefault qobj ''passwordChangeUrl'' []) (\<lambda>passwordChangeUrl.
          bindE (getIntOrDefault qobj ''passwordExpiresOn'' 0) (\<lambda>passwordExpiresOn.
          bindE (getBoolOrDefault qobj ''forcePrompt'' False) (\<lambda>forcePrompt.
            Inr \<lparr>ui_uniqueId = uniqueId, ui_displayableId = displayableId, ui_givenName = givenName,
              ui_familyName = familyName, ui_identityProvider = identityProvider,
              ui_passwordChangeUrl = passwordChangeUrl, ui_passwordExpiresOn = passwordExpiresOn,
              ui_forcePrompt = forcePrompt\<rparr>)))))))))"

definition user_json :: "UserInfo \<Rightarrow> auth_exn + json" where
  "user_json u =
     bindE (insertString ''uniqueId'' (ui_uniqueId u) JNull) (\<lambda>q1.
     bindE (insertString ''displayableId'' (ui_displayableId u) q1) (\<lambda>q2.
     bindE (insertString ''givenName'' (ui_givenName u) q2) (\<lambda>q3.
     bindE (insertString ''familyName'' (ui_familyName u) q3) (\<lambda>q4.
     bindE (insertString ''identityProvider'' (ui_identityProvider u) q4) (\<lambda>q5.
     bindE (insertString ''passwordChangeUrl'' (ui_passwordChangeUrl u) q5) (\<lambda>q6.
     bindE (json_put ''passwordExpiresOn'' (JInt (as_int (ui_passwordExpiresOn u))) q6) (\<lambda>q7.
       json_put ''forcePrompt'' (JBool (ui_forcePrompt u)) q7)))))))"

definition UserInfo_serialize :: "json_lib \<Rightarrow> UserInfo \<Rightarrow> auth_exn + string" where
  "UserInfo_serialize lib u = bindE (user_json u) (json_dump lib)"

section \<open>AuthenticationResult\<close>

record AuthenticationResult =
  ar_accessTokenType :: string
  ar_accessToken :: string
  ar_resource :: string
  ar_refreshToken :: string
  ar_expiresOn :: int
  ar_tenantId :: string
  ar_userInfo :: "UserInfo option"
  ar_idToken :: string
  ar_isMultipleResourceRefreshToken :: bool

text \<open>The constructor leaves the last flag as it finds it in memory, \<open>junk\<close>.\<close>

definition AuthenticationResult_create ::
  "bool \<Rightarrow> string \<Rightarrow> string \<Rightarrow> string \<Rightarrow> int \<Rightarrow> AuthenticationResult" where
  "AuthenticationResult_create junk accessTokenType accessToken refreshToken expiresOn =
     \<lparr>ar_accessTokenType = accessTokenType, ar_accessToken = accessToken, ar_resource = [],
      ar_refreshToken = refreshToken, ar_expiresOn = expiresOn, ar_tenantId = [], ar_userInfo = None,
      ar_idToken = [], ar_isMultipleResourceRefreshToken = junk\<rparr>"

definition createAuthorizationHeader :: "AuthenticationResult \<Rightarrow> string" where
  "createAuthorizationHeader r = ''Bearer '' @ ar_accessToken r"

definition updateTenantAndUserInfo ::
  "string \<Rightarrow> string \<Rightarrow> UserInfo option \<Rightarrow> AuthenticationResult \<Rightarrow> AuthenticationResult" where
  "updateTenantAndUserInfo tenantId idToken userInfo r =
     r\<lparr>ar_tenantId := tenantId, ar_idToken := idToken,
       ar_userInfo := (case userInfo of None \<Rightarrow> ar_userInfo r | Some u \<Rightarrow> Some u)\<rparr>"

definition AuthenticationResult_deserialize :: "json_lib \<Rightarrow> string \<Rightarrow> auth_exn + AuthenticationResult" where
  "AuthenticationResult_deserialize lib jsonString =
     (case jl_parse lib jsonString of
        Inl w \<Rightarrow> Inl (RmsauthException (''AuthenticationResult::deserialize: '' @ w) [])
      | Inr qobj \<Rightarrow>
          bindE (getStringOrDefault qobj ''accessTokenType'' []) (\<lambda>accessTokenType.
          bindE (getStringOrDefault qobj ''accessToken'' []) (\<lambda>accessToken.
          bindE (getStringOrDefault qobj ''resource'' []) (\<lambda>resource.
          bindE (getStringOrDefault qobj ''refreshToken'' []) (\<lambda>refreshToken.
          bindE (getIntOrDefault qobj ''expiresOn'' 0) (\<lambda>expiresOn.
          bindE (getStringOrDefault qobj ''tenantId_'' []) (\<lambda>tenantId.
          bindE (parseObject lib qobj ''userInfo'' (UserInfo_deserialize lib)) (\<lambda>userInfo.
          bindE (getStringOrDefault qobj ''idToken'' []) (\<lambda>idToken.
          bindE (getBoolOrDefault qobj ''isMultipleResourceRefreshToken'' False) (\<lambda>mrrt.
            Inr \<lparr>ar_accessTokenType = accessTokenType, ar_accessToken = accessToken, ar_resource = resource,
              ar_refreshToken = refreshToken, ar_expiresOn = expiresOn, ar_tenantId = tenantId,
              ar_userInfo = userInfo, ar_idToken = idToken,
              ar_isMultipleResourceRefreshToken = mrrt\<rparr>))))))))))"

definition result_json :: "json_lib \<Rightarrow> AuthenticationResult \<Rightarrow> auth_exn + json" where
  "result_json lib r =
     bindE (insertString ''accessTokenType'' (ar_accessTokenType r) JNull) (\<lambda>q1.
     bindE (insertString ''accessToken'' (ar_accessToken r) q1) (\<lambda>q2.
     bindE (insertString ''resource'' (ar_resource r) q2) (\<lambda>q3.
     bindE (insertString ''refreshToken'' (ar_refreshToken r) q3) (\<lambda>q4.
     bindE (json_put ''expiresOn'' (JInt (as_int (ar_expiresOn r))) q4) (\<lambda>q5.
     bindE (insertString ''tenantId_'' (ar_tenantId r) q5) (\<lambda>q6.
     bindE (case ar_userInfo r of
              None \<Rightarrow> Inr q6
            | Some u \<Rightarrow> bindE (UserInfo_serialize lib u) (\<lambda>t. insertObject lib ''userInfo'' t q6)) (\<lambda>q7.
     bindE (insertString ''idToken'' (ar_idToken r) q7) (\<lambda>q8.
       json_put ''isMultipleResourceRefreshToken'' (JBool (ar_isMultipleResourceRefreshToken r)) q8))))))))"

definition AuthenticationResult_serialize :: "json_lib \<Rightarrow> AuthenticationResult \<Rightarrow> auth_exn + string" where
  "AuthenticationResult_serialize lib r = bindE (result_json lib r) (json_dump lib)"

section \<open>Lemmas\<close>

lemma json_put_object [simp]: "json_put k v (JObject xs) = Inr (JObject (map_put k v xs))"
  by (simp add: json_put_def)

lemma json_put_null [simp]: "json_put k v JNull = Inr (JObject (map_put k v []))"
  by (simp add: json_put_def)

lemma as_int_idem [simp]: "as_int (as_int v) = as_int v"
  by (simp add: as_int_def)

lemma as_int_range: "- (2 ^ 31) \<le> as_int v \<and> as_int v < 2 ^ 31"
proof -
  have "0 \<le> (v + 2 ^ 31) mod 2 ^ 32" "(v + 2 ^ 31) mod 2 ^ 32 < (2 ^ 32 :: int)"
    by (rule pos_mod_sign, simp) (rule pos_mod_bound, simp)
  then show ?thesis by (simp add: as_int_def)
qed

lemma plain_int [simp]: "json_plain (JInt (as_int v))"
  using as_int_range [of v] by simp

lemma ascii_keys [simp]:
  "ascii_string ''uniqueId''" "ascii_string ''displayableId''" "ascii_string ''givenName''"
  "ascii_string ''familyName''" "ascii_string ''identityProvider''" "ascii_string ''passwordChangeUrl''"
  "ascii_string ''passwordExpiresOn''" "ascii_string ''forcePrompt''" "ascii_string ''accessTokenType''"
  "ascii_string ''accessToken''" "ascii_string ''resource''" "ascii_string ''refreshToken''"
  "ascii_string ''expiresOn''" "ascii_string ''tenantId_''" "ascii_string ''userInfo''" "ascii_string ''idToken''"
  "ascii_string ''isMultipleResourceRefreshToken''"
  by code_simp+

text \<open>What is stored of a user and of a result: the times are narrowed to an \<open>int\<close>.\<close>

definition stored_user :: "UserInfo \<Rightarrow> UserInfo" where
  "stored_user u = u\<lparr>ui_passwordExpiresOn := as_int (ui_passwordExpiresOn u)\<rparr>"

definition stored_result :: "AuthenticationResult \<Rightarrow> AuthenticationResult" where
  "stored_result r =
     r\<lparr>ar_expiresOn := as_int (ar_expiresOn r), ar_userInfo := map_option stored_user (ar_userInfo r)\<rparr>"

definition user_plain :: "UserInfo \<Rightarrow> bool" where
  "user_plain u \<longleftrightarrow> ascii_string (ui_uniqueId u) \<and> ascii_string (ui_displayableId u) \<and>
     ascii_string (ui_givenName u) \<and> ascii_string (ui_familyName u) \<and> ascii_string (ui_identityProvider u) \<and>
     ascii_string (ui_passwordChangeUrl u)"

definition result_plain :: "AuthenticationResult \<Rightarrow> bool" where
  "result_plain r \<longleftrightarrow> ascii_string (ar_accessTokenType r) \<and> ascii_string (ar_accessToken r) \<and>
     ascii_string (ar_resource r) \<and> ascii_string (ar_refreshToken r) \<and> ascii_string (ar_tenantId r) \<and>
     (case ar_userInfo r of None \<Rightarrow> True | Some u \<Rightarrow> user_plain u) \<and> ascii_string (ar_idToken r)"

lemmas member_simps = insertString_def getStringOrDefault_def getIntOrDefault_def getBoolOrDefault_def
  map_of_map_put json_number_def

lemma user_json_eq:
  "user_json u = Inr (JObject (map_put ''forcePrompt'' (JBool (ui_forcePrompt u))
     (map_put ''passwordExpiresOn'' (JInt (as_int (ui_passwordExpiresOn u)))
     (map_put ''passwordChangeUrl'' (JString (ui_passwordChangeUrl u))
     (map_put ''identityProvider'' (JString (ui_identityProvider u))
     (map_put ''familyName'' (JString (ui_familyName u)) (map_put ''givenName'' (JString (ui_givenName u))
     (map_put ''displayableId'' (JString (ui_displayableId u))
     (map_put ''uniqueId'' (JString (ui_uniqueId u)) [])))))))))"
  by (simp only: user_json_def insertString_def json_put_null json_put_object bindE_Inr)

lemma user_json_plain:
  assumes "user_plain u"
  obtains xs where "user_json u = Inr (JObject xs)" and "json_plain (JObject xs)"
  using assms unfolding user_json_eq user_plain_def
  by (metis (no_types) plain_put plain_empty ascii_keys plain_int json_plain.simps(2,5))

lemma user_roundtrip:
  assumes "json_lib_ok lib" and "user_plain u"
  shows "\<exists>xs t. user_json u = Inr (JObject xs) \<and> json_plain (JObject xs) \<and> jl_dump lib (JObject xs) = Some t \<and>
    jl_parse lib t = Inr (JObject xs) \<and> UserInfo_deserialize lib t = Inr (stored_user u)"
proof -
  obtain xs where xs: "user_json u = Inr (JObject xs)" "json_plain (JObject xs)"
    using user_json_plain [OF assms(2)] .
  obtain t where t: "jl_dump lib (JObject xs) = Some t" "jl_parse lib t = Inr (JObject xs)"
    using json_lib_okD [OF assms(1) xs(2)] by auto
  have "UserInfo_deserialize lib t = Inr (stored_user u)"
    using t(2) xs(1) unfolding user_json_eq
    by (auto simp: UserInfo_deserialize_def member_simps stored_user_def)
  with xs t show ?thesis by blast
qed

text \<open>The members of a stored result, up to the user and with the user.\<close>

definition first_members :: "AuthenticationResult \<Rightarrow> (string \<times> json) list" where
  "first_members r = map_put ''tenantId_'' (JString (ar_tenantId r))
     (map_put ''expiresOn'' (JInt (as_int (ar_expiresOn r)))
     (map_put ''refreshToken'' (JString (ar_refreshToken r)) (map_put ''resource'' (JString (ar_resource r))
     (map_put ''accessToken'' (JString (ar_accessToken r))
     (map_put ''accessTokenType'' (JString (ar_accessTokenType r)) [])))))"

definition with_user :: "json_lib \<Rightarrow> AuthenticationResult \<Rightarrow> (string \<times> json) list \<Rightarrow> bool" where
  "with_user lib r q \<longleftrightarrow> json_plain (JObject q) \<and>
     (case ar_userInfo r of
        None \<Rightarrow> q = first_members r
      | Some u \<Rightarrow> \<exists>t uj. UserInfo_serialize lib u = Inr t \<and> jl_parse lib t = Inr uj \<and>
          q = map_put ''userInfo'' uj (first_members r) \<and> jl_dump lib uj = Some t \<and>
          UserInfo_deserialize lib t = Inr (stored_user u))"

lemma first_members_plain:
  assumes "result_plain r"
  shows "json_plain (JObject (first_members r))"
  using assms unfolding first_members_def result_plain_def
  by (metis (no_types) plain_put plain_empty ascii_keys plain_int json_plain.simps(5))

lemma with_user_ex:
  assumes "json_lib_ok lib" and "result_plain r"
  obtains q where "with_user lib r q"
proof (cases "ar_userInfo r")
  case None
  then have "with_user lib r (first_members r)"
    using first_members_plain [OF assms(2)] by (simp add: with_user_def)
  then show ?thesis by (rule that)
next
  case (Some u)
  then have "user_plain u" using assms(2) by (simp add: result_plain_def)
  from user_roundtrip [OF assms(1) this] obtain xs t where
    u: "user_json u = Inr (JObject xs)" "json_plain (JObject xs)" "jl_dump lib (JObject xs) = Some t"
      "jl_parse lib t = Inr (JObject xs)" "UserInfo_deserialize lib t = Inr (stored_user u)" by blast
  have "UserInfo_serialize lib u = Inr t" using u by (simp add: UserInfo_serialize_def json_dump_def)
  moreover have "json_plain (JObject (map_put ''userInfo'' (JObject xs) (first_members r)))"
    by (rule plain_put [OF first_members_plain [OF assms(2)] _ u(2)]) simp
  ultimately have "with_user lib r (map_put ''userInfo'' (JObject xs) (first_members r))"
    using u(3-5) by (auto simp: with_user_def Some simp del: json_plain.simps)
  then show ?thesis by (rule that)
qed

definition all_members :: "AuthenticationResult \<Rightarrow> (string \<times> json) list \<Rightarrow> (string \<times> json) list" where
  "all_members r q = map_put ''isMultipleResourceRefreshToken'' (JBool (ar_isMultipleResourceRefreshToken r))
     (map_put ''idToken'' (JString (ar_idToken r)) q)"

lemma result_json_eq:
  assumes "with_user lib r q"
  shows "result_json lib r = Inr (JObject (all_members r q))"
proof (cases "ar_userInfo r")
  case None
  then have "q = first_members r" using assms by (simp add: with_user_def)
  with None show ?thesis
    by (simp only: result_json_def insertString_def json_put_null json_put_object bindE_Inr option.case
        all_members_def first_members_def)
next
  case (Some u)
  then obtain t uj where "UserInfo_serialize lib u = Inr t" "jl_parse lib t = Inr uj"
      "q = map_put ''userInfo'' uj (first_members r)"
    using assms by (auto simp: with_user_def)
  with Some show ?thesis
    by (simp only: result_json_def insertString_def insertObject_def json_put_null json_put_object bindE_Inr
        option.case sum.case all_members_def first_members_def)
qed

lemma find_members:
  assumes "with_user lib r q"
  shows "map_of (all_members r q) ''accessTokenType'' = Some (JString (ar_accessTokenType r))"
    "map_of (all_members r q) ''accessToken'' = Some (JString (ar_accessToken r))"
    "map_of (all_members r q) ''resource'' = Some (JString (ar_resource r))"
    "map_of (all_members r q) ''refreshToken'' = Some (JString (ar_refreshToken r))"
    "map_of (all_members r q) ''expiresOn'' = Some (JInt (as_int (ar_expiresOn r)))"
    "map_of (all_members r q) ''tenantId_'' = Some (JString (ar_tenantId r))"
    "map_of (all_members r q) ''idToken'' = Some (JString (ar_idToken r))"
    "map_of (all_members r q) ''isMultipleResourceRefreshToken'' =
       Some (JBool (ar_isMultipleResourceRefreshToken r))"
  using assms by (cases "ar_userInfo r"; auto simp: with_user_def all_members_def first_members_def map_of_map_put)+

lemma parse_user_member:
  assumes "with_user lib r q"
  shows "parseObject lib (JObject (all_members r q)) ''userInfo'' (UserInfo_deserialize lib) =
    Inr (map_option stored_user (ar_userInfo r))"
  using assms by (cases "ar_userInfo r")
    (auto simp: with_user_def parseObject_def all_members_def first_members_def map_of_map_put json_dump_def)

lemma result_roundtrip:
  assumes ok: "json_lib_ok lib" and plain: "result_plain r"
  shows "\<exists>t. AuthenticationResult_serialize lib r = Inr t \<and>
    AuthenticationResult_deserialize lib t = Inr (stored_result r)"
proof -
  obtain q where q: "with_user lib r q" using with_user_ex [OF assms] .
  then have "json_plain (JObject q)" by (simp add: with_user_def)
  then have "json_plain (JObject (all_members r q))"
    using plain unfolding all_members_def result_plain_def
    by (metis (no_types) plain_put ascii_keys json_plain.simps(2,5))
  then obtain t where t: "jl_dump lib (JObject (all_members r q)) = Some t"
      "jl_parse lib t = Inr (JObject (all_members r q))"
    using json_lib_okD [OF ok] by blast
  then have "AuthenticationResult_serialize lib r = Inr t"
    using result_json_eq [OF q] by (simp add: AuthenticationResult_serialize_def json_dump_def)
  moreover have "AuthenticationResult_deserialize lib t = Inr (stored_result r)"
    using t(2) parse_user_member [OF q] find_members [OF q]
    by (simp add: AuthenticationResult_deserialize_def getStringOrDefault_def getIntOrDefault_def
        getBoolOrDefault_def json_number_def stored_result_def)
  ultimately show ?thesis by blast
qed

end
