(* ===== verification/TokenCache.thy ===== *)
theory TokenCache
  imports AuthJson CryptoAPI "HOL-Library.Multiset"
begin

text \<open>
  The token cache of the authentication library (\<open>rmsauth/TokenCache.cpp\<close>,
  \<open>TokenCacheQt.cpp\<close>, \<open>TokenCacheKey.cpp\<close>) and its two kinds with a file
  (\<open>FileCacheQt.cpp\<close>, \<open>FileCacheEncrypted.cpp\<close>). The cache holds shared pointers, and so
  does whoever got a result from it: results are objects of a store, the cache maps keys to
  their addresses. The order in which an \<open>unordered_map\<close> is walked is not the program's
  choice: the argument \<open>add\<close> says where a new entry ends up.
\<close>

section \<open>Keys\<close>

text \<open>The subject type is the value of its \<open>enum class\<close>, which a cast can give any value.\<close>

type_synonym TokenSubjectType = int

definition SubjectUser :: TokenSubjectType where "SubjectUser = 0"
definition SubjectClient :: TokenSubjectType where "SubjectClient = 1"
definition SubjectUserPlusClient :: TokenSubjectType where "SubjectUserPlusClient = 2"

record TokenCacheKey =
  tk_authority :: string
  tk_resource :: string
  tk_clientId :: string
  tk_uniqueId :: string
  tk_tokenSubjectType :: TokenSubjectType

definition user_unique_id :: "UserInfo option \<Rightarrow> string" where
  "user_unique_id userInfo = (case userInfo of None \<Rightarrow> [] | Some u \<Rightarrow> ui_uniqueId u)"

definition TokenCacheKey_create ::
  "string \<Rightarrow> string \<Rightarrow> string \<Rightarrow> TokenSubjectType \<Rightarrow> UserInfo option \<Rightarrow> TokenCacheKey" where
  "TokenCacheKey_create authority resource clientId tokenSubjectType userInfo =
     \<lparr>tk_authority = authority, tk_resource = resource, tk_clientId = clientId,
      tk_uniqueId = user_unique_id userInfo, tk_tokenSubjectType = tokenSubjectType\<rparr>"

definition key_equals :: "TokenCacheKey \<Rightarrow> TokenCacheKey \<Rightarrow> bool" where
  "key_equals k other \<longleftrightarrow>
     equalsIC (tk_authority other) (tk_authority k) \<and> equalsIC (tk_resource other) (tk_resource k) \<and>
     equalsIC (tk_clientId other) (tk_clientId k) \<and> equalsIC (tk_uniqueId other) (tk_uniqueId k) \<and>
     tk_tokenSubjectType other = tk_tokenSubjectType k"

text \<open>The text whose hash is the hash of the key; \<open>std::hash\<close> itself is of the library.\<close>

definition key_hash_text :: "TokenCacheKey \<Rightarrow> string" where
  "key_hash_text k =
     to_lower_string (tk_authority k) @ '':::'' @ to_lower_string (tk_resource k) @ '':::'' @
     to_lower_string (tk_clientId k) @ '':::'' @ to_lower_string (tk_uniqueId k) @ '':::'' @
     show_int (tk_tokenSubjectType k)"

section \<open>The hash map\<close>

type_synonym entry = "TokenCacheKey \<times> nat"

definition hm_find :: "TokenCacheKey \<Rightarrow> entry list \<Rightarrow> nat option" where
  "hm_find key d = map_option snd (find (\<lambda>e. key_equals (fst e) key) d)"

definition hm_erase :: "TokenCacheKey \<Rightarrow> entry list \<Rightarrow> entry list" where
  "hm_erase key d = filter (\<lambda>e. \<not> key_equals (fst e) key) d"

definition hm_set :: "TokenCacheKey \<Rightarrow> nat \<Rightarrow> entry list \<Rightarrow> entry list" where
  "hm_set key a d = map (\<lambda>e. if key_equals (fst e) key then (fst e, a) else e) d"

definition hm_insert ::
  "(entry list \<Rightarrow> entry \<Rightarrow> entry list) \<Rightarrow> TokenCacheKey \<Rightarrow> nat \<Rightarrow> entry list \<Rightarrow> entry list" where
  "hm_insert add key a d = (if hm_find key d = None then add d (key, a) else d)"

definition hash_ok :: "(entry list \<Rightarrow> entry \<Rightarrow> entry list) \<Rightarrow> bool" where
  "hash_ok add \<longleftrightarrow> (\<forall>d e. mset (add d e) = add_mset e (mset d))"

section \<open>The cache\<close>

record 'k token_state =
  ts_objects :: "nat \<Rightarrow> AuthenticationResult"
  ts_next :: nat
  ts_dictionary :: "entry list"
  ts_hasStateChanged :: bool
  ts_file :: "byte list option"  \<comment> \<open>the cache file, if there is one\<close>
  ts_writable :: bool            \<comment> \<open>whether it can be opened for writing\<close>
  ts_keys :: 'k                  \<comment> \<open>the keyring\<close>

definition new_result :: "AuthenticationResult \<Rightarrow> 'k token_state \<Rightarrow> nat \<times> 'k token_state" where
  "new_result r s = (ts_next s, s\<lparr>ts_objects := (ts_objects s)(ts_next s := r), ts_next := ts_next s + 1\<rparr>)"

definition update_result :: "nat \<Rightarrow> (AuthenticationResult \<Rightarrow> AuthenticationResult) \<Rightarrow> 'k token_state \<Rightarrow> 'k token_state" where
  "update_result a f s = s\<lparr>ts_objects := (ts_objects s)(a := f (ts_objects s a))\<rparr>"

text \<open>The notifications are virtual; the class of the cache is a table of them.\<close>

record 'k cache_class =
  cc_onBeforeAccess :: "(auth_exn, 'k token_state, unit) sx"
  cc_onAfterAccess :: "(auth_exn, 'k token_state, unit) sx"
  cc_onBeforeWrite :: "(auth_exn, 'k token_state, unit) sx"

definition token_cache_class :: "'k cache_class" where
  "token_cache_class = \<lparr>cc_onBeforeAccess = ret (), cc_onAfterAccess = ret (), cc_onBeforeWrite = ret ()\<rparr>"

definition tc_count :: "'k token_state \<Rightarrow> int" where
  "tc_count s = as_int (int (length (ts_dictionary s)))"

definition tc_readItems :: "'k cache_class \<Rightarrow> (auth_exn, 'k token_state, entry list) sx" where
  "tc_readItems v =
     seqx (cc_onBeforeAccess v) (bnd (gets ts_dictionary) (\<lambda>items. seqx (cc_onAfterAccess v) (ret items)))"

definition tc_deleteItem :: "'k cache_class \<Rightarrow> TokenCacheKey \<Rightarrow> (auth_exn, 'k token_state, unit) sx" where
  "tc_deleteItem v key =
     seqx (cc_onBeforeAccess v) (seqx (cc_onBeforeWrite v)
       (seqx (modify (\<lambda>s. s\<lparr>ts_dictionary := hm_erase key (ts_dictionary s), ts_hasStateChanged := True\<rparr>))
         (cc_onAfterAccess v)))"

definition tc_clear :: "'k cache_class \<Rightarrow> (auth_exn, 'k token_state, unit) sx" where
  "tc_clear v =
     seqx (cc_onBeforeAccess v) (seqx (cc_onBeforeWrite v)
       (seqx (modify (\<lambda>s. s\<lparr>ts_dictionary := [], ts_hasStateChanged := True\<rparr>)) (cc_onAfterAccess v)))"

definition queryCache ::
  "string \<Rightarrow> string \<Rightarrow> TokenSubjectType \<Rightarrow> string \<Rightarrow> entry list \<Rightarrow> entry list" where
  "queryCache authority clientId subjectType uniqueId d =
     filter (\<lambda>(key, a). equalsIC (tk_authority key) authority \<and>
       (clientId = [] \<or> equalsIC (tk_clientId key) clientId) \<and>
       (uniqueId = [] \<or> equalsIC (tk_uniqueId key) uniqueId) \<and>
       tk_tokenSubjectType key = subjectType) d"

text \<open>
  With more than one match the exception is made and dropped; what follows then is the
  return of a null pointer.
\<close>

definition loadSingleItemFromCache ::
  "string \<Rightarrow> string \<Rightarrow> string \<Rightarrow> TokenSubjectType \<Rightarrow> string \<Rightarrow> 'k token_state \<Rightarrow> entry option" where
  "loadSingleItemFromCache authority resource clientId subjectType uniqueId s =
     (let list = queryCache authority clientId subjectType uniqueId (ts_dictionary s);
          qnty = length (filter (\<lambda>(key, a). equalsIC (tk_resource key) resource) list)
      in if qnty = 1 then Some (hd list)
         else if qnty = 0 then find (\<lambda>(key, a). ar_isMultipleResourceRefreshToken (ts_objects s a)) list
         else None)"

definition expirationMarginInSeconds :: int where
  "expirationMarginInSeconds = 300"

text \<open>\<open>nw\<close> is the time the constructor of \<open>DateTime\<close> finds.\<close>

definition loadFromCache ::
  "DateTime \<Rightarrow> string \<Rightarrow> string \<Rightarrow> string \<Rightarrow> TokenSubjectType \<Rightarrow> string \<Rightarrow> 'k token_state \<Rightarrow>
   nat option \<times> 'k token_state" where
  "loadFromCache nw authority resource clientId subjectType uniqueId s =
     (case loadSingleItemFromCache authority resource clientId subjectType uniqueId s of
        None \<Rightarrow> (None, s)
      | Some (cacheKey, result) \<Rightarrow>
          (let tokenNearExpiry = ar_expiresOn (ts_objects s result) \<le> dt_time (addSecs expirationMarginInSeconds nw);
               s1 = (if tokenNearExpiry \<or> \<not> equalsIC (tk_resource cacheKey) resource
                     then update_result result (\<lambda>r. r\<lparr>ar_accessToken := []\<rparr>) s else s);
               r1 = ts_objects s1 result
           in if ar_accessToken r1 = [] \<and> ar_refreshToken r1 = []
              then (None, s1\<lparr>ts_dictionary := hm_erase cacheKey (ts_dictionary s1), ts_hasStateChanged := True\<rparr>)
              else (Some result, s1)))"

fun set_refresh_tokens :: "nat \<Rightarrow> entry list \<Rightarrow> 'k token_state \<Rightarrow> 'k token_state" where
  "set_refresh_tokens result [] s = s"
| "set_refresh_tokens result ((key, a) # list) s =
     set_refresh_tokens result list
       (if ar_isMultipleResourceRefreshToken (ts_objects s a)
        then update_result a (\<lambda>r. r\<lparr>ar_refreshToken := ar_refreshToken (ts_objects s result)\<rparr>) s else s)"

definition updateCachedMrrtRefreshTokens ::
  "nat \<Rightarrow> string \<Rightarrow> string \<Rightarrow> TokenSubjectType \<Rightarrow> 'k token_state \<Rightarrow> 'k token_state" where
  "updateCachedMrrtRefreshTokens result authority clientId subjectType s =
     (let r = ts_objects s result in
      case ar_userInfo r of
        None \<Rightarrow> s
      | Some u \<Rightarrow>
          if ar_isMultipleResourceRefreshToken r
          then set_refresh_tokens result (queryCache authority clientId subjectType (ui_uniqueId u) (ts_dictionary s)) s
          else s)"

definition storeToCache ::
  "(entry list \<Rightarrow> entry \<Rightarrow> entry list) \<Rightarrow> 'k cache_class \<Rightarrow> nat \<Rightarrow> string \<Rightarrow> string \<Rightarrow> string \<Rightarrow> TokenSubjectType \<Rightarrow>
   (auth_exn, 'k token_state, unit) sx" where
  "storeToCache add v result authority resource clientId subjectType =
     seqx (cc_onBeforeWrite v)
       (modify (\<lambda>s.
          let tokenCacheKey = TokenCacheKey_create authority resource clientId subjectType
                (ar_userInfo (ts_objects s result));
              d = ts_dictionary s;
              d' = (if hm_find tokenCacheKey d \<noteq> None then hm_set tokenCacheKey result d
                    else hm_insert add tokenCacheKey result d)
          in (updateCachedMrrtRefreshTokens result authority clientId subjectType (s\<lparr>ts_dictionary := d'\<rparr>))
             \<lparr>ts_hasStateChanged := True\<rparr>))"

section \<open>The saved state\<close>

definition SchemaVersion :: int where
  "SchemaVersion = 2"

definition Int2Uint8 :: "int \<Rightarrow> byte list" where
  "Int2Uint8 number = map (\<lambda>i. word_of_int (number div 2 ^ (24 - i * 8) mod 256)) [0, 1, 2, 3]"

definition Str2Uint8 :: "string \<Rightarrow> byte list" where
  "Str2Uint8 str = Int2Uint8 (as_int (int (length str))) @ string_bytes str"

fun serialize_entries ::
  "json_lib \<Rightarrow> (nat \<Rightarrow> AuthenticationResult) \<Rightarrow> entry list \<Rightarrow> auth_exn + byte list" where
  "serialize_entries lib objects [] = Inr []"
| "serialize_entries lib objects ((key, a) # d) =
     bindE (AuthenticationResult_serialize lib (objects a)) (\<lambda>authenticationResultString.
     bindE (serialize_entries lib objects d) (\<lambda>rest.
       Inr (Str2Uint8 (tk_authority key) @ Str2Uint8 (tk_resource key) @ Str2Uint8 (tk_clientId key) @
            Int2Uint8 (tk_tokenSubjectType key) @ Str2Uint8 authenticationResultString @ rest)))"

definition tc_serialize :: "json_lib \<Rightarrow> 'k token_state \<Rightarrow> auth_exn + byte list" where
  "tc_serialize lib s =
     bindE (serialize_entries lib (ts_objects s) (ts_dictionary s)) (\<lambda>entries.
       Inr (Int2Uint8 SchemaVersion @ Int2Uint8 (tc_count s) @ entries))"

text \<open>
  The index is an \<open>int\<close>, and the end of a string is computed in a \<open>uint32_t\<close>; a vector is
  read without a check.
\<close>

definition read_at :: "byte list \<Rightarrow> nat \<Rightarrow> auth_exn + byte" where
  "read_at info i = (if i < length info then Inr (info ! i) else Inl OutOfBounds)"

definition GetIntNumber :: "byte list \<Rightarrow> nat \<Rightarrow> auth_exn + (nat \<times> nat)" where
  "GetIntNumber info indexPos =
     bindE (read_at info indexPos) (\<lambda>b0.
     bindE (read_at info (add32 indexPos 1)) (\<lambda>b1.
     bindE (read_at info (add32 indexPos 2)) (\<lambda>b2.
     bindE (read_at info (add32 indexPos 3)) (\<lambda>b3.
       Inr (unat b0 * 2 ^ 24 + unat b1 * 2 ^ 16 + unat b2 * 2 ^ 8 + unat b3, add32 indexPos 4)))))"

definition tc_GetString :: "byte list \<Rightarrow> nat \<Rightarrow> auth_exn + (string \<times> nat)" where
  "tc_GetString info indexPos =
     bindE (GetIntNumber info indexPos) (\<lambda>(len, i).
       let e = add32 i len in
       if e \<le> i then Inr ([], e)
       else if length info < e then Inl OutOfBounds
       else Inr (bytes_string (take (e - i) (drop i info)), e))"

primrec deserialize_entries ::
  "json_lib \<Rightarrow> (entry list \<Rightarrow> entry \<Rightarrow> entry list) \<Rightarrow> byte list \<Rightarrow> nat \<Rightarrow> nat \<Rightarrow>
   (auth_exn, 'k token_state, unit) sx" where
  "deserialize_entries lib add info 0 curIndex = ret ()"
| "deserialize_entries lib add info (Suc n) curIndex =
     bnd (liftE (tc_GetString info curIndex)) (\<lambda>(authority, i1).
     bnd (liftE (tc_GetString info i1)) (\<lambda>(resource, i2).
     bnd (liftE (tc_GetString info i2)) (\<lambda>(clientId, i3).
     bnd (liftE (GetIntNumber info i3)) (\<lambda>(tokenSubjectType, i4).
     bnd (liftE (tc_GetString info i4)) (\<lambda>(authenticationResultString, i5).
     bnd (liftE (AuthenticationResult_deserialize lib authenticationResultString)) (\<lambda>r.
     seqx (modify (\<lambda>s. case new_result r s of (result, s') \<Rightarrow>
        s'\<lparr>ts_dictionary := hm_insert add
            (TokenCacheKey_create authority resource clientId (as_int (int tokenSubjectType)) (ar_userInfo r))
            result (ts_dictionary s')\<rparr>))
       (deserialize_entries lib add info n i5)))))))"

definition tc_deserialize ::
  "json_lib \<Rightarrow> (entry list \<Rightarrow> entry \<Rightarrow> entry list) \<Rightarrow> byte list \<Rightarrow> (auth_exn, 'k token_state, unit) sx" where
  "tc_deserialize lib add info =
     (if info = [] then modify (\<lambda>s. s\<lparr>ts_dictionary := []\<rparr>)
      else bnd (liftE (GetIntNumber info 0)) (\<lambda>(schemaVersion, i).
        if int schemaVersion \<noteq> SchemaVersion then ret ()
        else bnd (liftE (GetIntNumber info i)) (\<lambda>(cnt, j).
          deserialize_entries lib add info cnt j)))"

section \<open>The caches with a file\<close>

text \<open>
  A cache with a file reads it before every access and writes it after one that changed
  something; \<open>fileLock_\<close> is held for the one read or write. A virtual \<open>readCache\<close> and
  \<open>writeCache\<close> are the arguments of the class.
\<close>

definition fc_readCache ::
  "json_lib \<Rightarrow> (entry list \<Rightarrow> entry \<Rightarrow> entry list) \<Rightarrow> (auth_exn, 'k token_state, unit) sx" where
  "fc_readCache lib add =
     bnd (gets ts_file) (\<lambda>f. case f of None \<Rightarrow> ret () | Some cacheData \<Rightarrow> tc_deserialize lib add cacheData)"

definition fc_writeCache :: "json_lib \<Rightarrow> (auth_exn, 'k token_state, unit) sx" where
  "fc_writeCache lib =
     bnd (gets ts_writable) (\<lambda>open.
       if \<not> open then ret ()
       else seqx (modify (\<lambda>s. s\<lparr>ts_file := Some []\<rparr>))
         (bnd (\<lambda>s. (tc_serialize lib s, s)) (\<lambda>cacheData. modify (\<lambda>s. s\<lparr>ts_file := Some cacheData\<rparr>))))"

definition fc_onAfterAccess :: "(auth_exn, 'k token_state, unit) sx \<Rightarrow> (auth_exn, 'k token_state, unit) sx" where
  "fc_onAfterAccess writeCache =
     bnd (gets ts_hasStateChanged) (\<lambda>changed.
       if changed then seqx writeCache (modify (\<lambda>s. s\<lparr>ts_hasStateChanged := False\<rparr>)) else ret ())"

definition file_cache_class ::
  "(auth_exn, 'k token_state, unit) sx \<Rightarrow> (auth_exn, 'k token_state, unit) sx \<Rightarrow> 'k cache_class" where
  "file_cache_class readCache writeCache =
     \<lparr>cc_onBeforeAccess = readCache, cc_onAfterAccess = fc_onAfterAccess writeCache, cc_onBeforeWrite = ret ()\<rparr>"

definition FileCache_class :: "json_lib \<Rightarrow> (entry list \<Rightarrow> entry \<Rightarrow> entry list) \<Rightarrow> 'k cache_class" where
  "FileCache_class lib add = file_cache_class (fc_readCache lib add) (fc_writeCache lib)"

definition fc_clear :: "'k cache_class \<Rightarrow> (auth_exn, 'k token_state, unit) sx" where
  "fc_clear v = seqx (tc_clear v) (modify (\<lambda>s. s\<lparr>ts_file := None\<rparr>))"

text \<open>What \<open>EncryptWithAutoKey\<close> and \<open>DecryptWithAutoKey\<close> need, with their default arguments.\<close>

record 'k key_env =
  ke_fuel :: nat
  ke_storage :: "'k IKeyStorage"
  ke_rnd :: "'k \<Rightarrow> int \<times> byte list"
  ke_lib :: evp
  ke_junk :: byte

definition run_keys :: "('k \<Rightarrow> (exn + 'a) \<times> 'k) \<Rightarrow> (auth_exn, 'k token_state, 'a) sx" where
  "run_keys f s =
     (case f (ts_keys s) of
        (Inl e, k) \<Rightarrow> (Inl (CryptoFailure e), s\<lparr>ts_keys := k\<rparr>)
      | (Inr x, k) \<Rightarrow> (Inr x, s\<lparr>ts_keys := k\<rparr>))"

definition encrypt_cache :: "'k key_env \<Rightarrow> byte list \<Rightarrow> (auth_exn, 'k token_state, byte list) sx" where
  "encrypt_cache ke bs =
     run_keys (\<lambda>k. EncryptWithAutoKey (ke_fuel ke) (ke_storage ke) (ke_rnd ke k) (ke_lib ke) (ke_junk ke) bs
       CIPHER_MODE_CBC4K ''default'' k)"

definition decrypt_cache :: "'k key_env \<Rightarrow> byte list \<Rightarrow> (auth_exn, 'k token_state, byte list) sx" where
  "decrypt_cache ke bs =
     run_keys (\<lambda>k. DecryptWithAutoKey (ke_fuel ke) (ke_storage ke) (ke_rnd ke k) (ke_lib ke) (ke_junk ke) bs
       CIPHER_MODE_CBC4K ''default'' k)"

definition fce_readCache ::
  "'k key_env \<Rightarrow> json_lib \<Rightarrow> (entry list \<Rightarrow> entry \<Rightarrow> entry list) \<Rightarrow> (auth_exn, 'k token_state, unit) sx" where
  "fce_readCache ke lib add =
     bnd (gets ts_file) (\<lambda>f. case f of
        None \<Rightarrow> ret ()
      | Some cacheData \<Rightarrow>
          if cacheData = [] then ret ()
          else bnd (decrypt_cache ke cacheData) (\<lambda>cacheDataDecrypted. tc_deserialize lib add cacheDataDecrypted))"

text \<open>The file is opened with \<open>ios::app\<close>: what is written goes behind what it holds.\<close>

definition fce_writeCache :: "'k key_env \<Rightarrow> json_lib \<Rightarrow> (auth_exn, 'k token_state, unit) sx" where
  "fce_writeCache ke lib =
     bnd (gets ts_writable) (\<lambda>open.
       if \<not> open then ret ()
       else seqx (modify (\<lambda>s. s\<lparr>ts_file := Some (case ts_file s of None \<Rightarrow> [] | Some old \<Rightarrow> old)\<rparr>))
         (bnd (\<lambda>s. (tc_serialize lib s, s)) (\<lambda>cacheData.
          bnd (encrypt_cache ke cacheData) (\<lambda>cacheDataEncrypted.
            modify (\<lambda>s. s\<lparr>ts_file := Some ((case ts_file s of None \<Rightarrow> [] | Some old \<Rightarrow> old) @ cacheDataEncrypted)\<rparr>)))))"

definition FileCacheEncrypted_class ::
  "'k key_env \<Rightarrow> json_lib \<Rightarrow> (entry list \<Rightarrow> entry \<Rightarrow> entry list) \<Rightarrow> 'k cache_class" where
  "FileCacheEncrypted_class ke lib add = file_cache_class (fce_readCache ke lib add) (fce_writeCache ke lib)"

end
