(* ===== verification/TokenCacheProperties.thy ===== *)
theory TokenCacheProperties
  imports TokenCache
begin

text \<open>
  What the token cache promises: abstractly it is a map from keys, with their case left
  out, to results, and its operations and its saved state are those of the map.
\<close>

section \<open>Keys and the hash map\<close>

type_synonym norm_key = "string \<times> string \<times> string \<times> string \<times> int"

definition norm_key :: "TokenCacheKey \<Rightarrow> norm_key" where
  "norm_key k = (to_lower_string (tk_authority k), to_lower_string (tk_resource k),
     to_lower_string (tk_clientId k), to_lower_string (tk_uniqueId k), tk_tokenSubjectType k)"

lemma key_equals_iff: "key_equals k k' \<longleftrightarrow> norm_key k = norm_key k'"
  by (auto simp: key_equals_def norm_key_def equalsIC_iff)

text \<open>Keys that are equal have the same hash, as an \<open>unordered_map\<close> needs.\<close>

lemma equal_keys_hash: "key_equals k k' \<Longrightarrow> key_hash_text k = key_hash_text k'"
  by (simp add: key_equals_iff norm_key_def key_hash_text_def)

definition keys_distinct :: "entry list \<Rightarrow> bool" where
  "keys_distinct d \<longleftrightarrow> distinct (map (norm_key \<circ> fst) d)"

definition entries_map :: "(nat \<Rightarrow> AuthenticationResult) \<Rightarrow> entry list \<Rightarrow> norm_key \<Rightarrow> AuthenticationResult option" where
  "entries_map objects d = map_of (map (\<lambda>e. (norm_key (fst e), objects (snd e))) d)"

text \<open>The abstract cache.\<close>

definition cache_map :: "'k token_state \<Rightarrow> norm_key \<Rightarrow> AuthenticationResult option" where
  "cache_map s = entries_map (ts_objects s) (ts_dictionary s)"

lemma hash_okD: "hash_ok add \<Longrightarrow> mset (add d e) = add_mset e (mset d)"
  unfolding hash_ok_def by blast

lemma hash_ok_set: "hash_ok add \<Longrightarrow> set (add d e) = insert e (set d)"
  using hash_okD [of add d e] by (metis set_mset_add_mset_insert set_mset_mset)

lemma hash_ok_perm: "hash_ok add \<Longrightarrow> mset (map f (add d e)) = mset (map f (e # d))"
  by (simp add: hash_okD)

lemma hash_ok_distinct:
  assumes "hash_ok add"
  shows "distinct (map f (add d e)) \<longleftrightarrow> f e \<notin> f ` set d \<and> distinct (map f d)"
proof -
  have "distinct (map f (add d e)) \<longleftrightarrow> distinct (map f (e # d))"
    by (rule mset_eq_imp_distinct_iff [OF hash_ok_perm [OF assms]])
  then show ?thesis by simp
qed

lemma hm_find_None: "hm_find key d = None \<longleftrightarrow> norm_key key \<notin> (norm_key \<circ> fst) ` set d"
  by (induction d) (auto simp: hm_find_def key_equals_iff)

lemma entries_map_None: "entries_map ob d k = None \<longleftrightarrow> k \<notin> (norm_key \<circ> fst) ` set d"
  by (auto simp: entries_map_def map_of_eq_None_iff image_image)

lemma entries_map_perm:
  assumes "mset d = mset d'" and "keys_distinct d"
  shows "entries_map ob d = entries_map ob d'"
proof -
  have "keys_distinct d'"
    using assms mset_eq_imp_distinct_iff [of "map (norm_key \<circ> fst) d" "map (norm_key \<circ> fst) d'"]
    by (simp add: keys_distinct_def)
  moreover have "set d = set d'" using assms(1) by (rule mset_eq_setD)
  ultimately show ?thesis
    using assms(2) unfolding entries_map_def keys_distinct_def
    by (intro map_of_inject_set [THEN iffD2]) (simp_all add: comp_def)
qed

lemma keys_distinct_insert:
  "hash_ok add \<Longrightarrow> keys_distinct d \<Longrightarrow> keys_distinct (hm_insert add key a d)"
  by (auto simp: hm_insert_def keys_distinct_def hash_ok_distinct hm_find_None)

lemma keys_distinct_erase: "keys_distinct d \<Longrightarrow> keys_distinct (hm_erase key d)"
  by (simp add: keys_distinct_def hm_erase_def distinct_map_filter)

lemma keys_distinct_set: "keys_distinct d \<Longrightarrow> keys_distinct (hm_set key a d)"
  by (simp add: keys_distinct_def hm_set_def comp_def if_distrib cong: if_cong)

lemma entries_map_insert:
  assumes "hash_ok add" and "keys_distinct d"
  shows "entries_map ob (hm_insert add key a d) =
    (if entries_map ob d (norm_key key) = None then (entries_map ob d)(norm_key key \<mapsto> ob a) else entries_map ob d)"
proof (cases "hm_find key d")
  case None
  have "entries_map ob (add d (key, a)) = entries_map ob ((key, a) # d)"
    using assms None by (intro entries_map_perm)
      (auto simp: hash_okD keys_distinct_def hash_ok_distinct hm_find_None)
  moreover have "entries_map ob d (norm_key key) = None"
    using None by (simp add: entries_map_None hm_find_None)
  ultimately show ?thesis using None by (simp add: hm_insert_def entries_map_def)
next
  case (Some b)
  then have "entries_map ob d (norm_key key) \<noteq> None"
    using hm_find_None [of key d] entries_map_None [of ob d "norm_key key"] by auto
  with Some show ?thesis by (auto simp: hm_insert_def)
qed

lemma entries_map_erase: "entries_map ob (hm_erase key d) = (entries_map ob d)(norm_key key := None)"
  by (induction d) (auto simp: entries_map_def hm_erase_def key_equals_iff)

lemma entries_map_set:
  "entries_map ob (hm_set key a d) k =
    (if k = norm_key key then map_option (\<lambda>_. ob a) (entries_map ob d k) else entries_map ob d k)"
  by (induction d) (auto simp: entries_map_def hm_set_def key_equals_iff)

section \<open>The saved state\<close>

definition stands :: "byte list \<Rightarrow> nat \<Rightarrow> byte list \<Rightarrow> bool" where
  "stands info i bs \<longleftrightarrow> (\<exists>pre post. info = pre @ bs @ post \<and> length pre = i)"

lemma stands_append: "stands info i (xs @ ys) \<longleftrightarrow> stands info i xs \<and> stands info (i + length xs) ys"
proof
  assume "stands info i (xs @ ys)"
  then obtain pre post where p: "info = pre @ xs @ ys @ post" "length pre = i" by (auto simp: stands_def)
  then have "stands info i xs" unfolding stands_def by blast
  moreover have "info = (pre @ xs) @ ys @ post" "length (pre @ xs) = i + length xs" using p by simp_all
  then have "stands info (i + length xs) ys" unfolding stands_def by blast
  ultimately show "stands info i xs \<and> stands info (i + length xs) ys" ..
next
  assume *: "stands info i xs \<and> stands info (i + length xs) ys"
  then obtain pre post where p: "info = pre @ xs @ post" "length pre = i" unfolding stands_def by blast
  from * obtain pre' post' where p': "info = pre' @ ys @ post'" "length pre' = i + length xs"
    unfolding stands_def by blast
  have "(pre @ xs) @ post = pre' @ ys @ post'" "length (pre @ xs) = length pre'"
    using p p' by simp_all
  then have "post = ys @ post'" by (metis append_eq_append_conv)
  with p show "stands info i (xs @ ys)" by (auto simp: stands_def)
qed

lemma stands_length: "stands info i bs \<Longrightarrow> i + length bs \<le> length info"
  by (auto simp: stands_def)

lemma stands_nth: "stands info i bs \<Longrightarrow> j < length bs \<Longrightarrow> info ! (i + j) = bs ! j"
  by (auto simp: stands_def nth_append)

lemma stands_take_drop: "stands info i bs \<Longrightarrow> take (length bs) (drop i info) = bs"
  by (auto simp: stands_def)

lemma be_digits: "n div 2 ^ 24 mod 256 * 2 ^ 24 + n div 2 ^ 16 mod 256 * 2 ^ 16 + n div 2 ^ 8 mod 256 * 2 ^ 8 +
    n mod 256 = n mod (2 ^ 32 :: int)"
proof -
  have a: "n mod 4294967296 = 256 * (n div 256 mod 16777216) + n mod 256"
    using zmod_zmult2_eq [of 16777216 n 256] by simp
  have b: "n div 256 mod 16777216 = 256 * (n div 256 div 256 mod 65536) + n div 256 mod 256"
    using zmod_zmult2_eq [of 65536 "n div 256" 256] by simp
  have c: "n div 65536 mod 65536 = 256 * (n div 65536 div 256 mod 256) + n div 65536 mod 256"
    using zmod_zmult2_eq [of 256 "n div 65536" 256] by simp
  have d: "n div 256 div 256 = n div 65536" using zdiv_zmult2_eq [of 256 n 256] by simp
  have e: "n div 65536 div 256 = n div 16777216" using zdiv_zmult2_eq [of 256 n 65536] by simp
  have p: "2 ^ 24 = (16777216 :: int)" "2 ^ 16 = (65536 :: int)" "2 ^ 8 = (256 :: int)" "2 ^ 32 = (4294967296 :: int)"
    by simp_all
  show ?thesis unfolding p a b c d e by (simp add: algebra_simps)
qed

lemma length_Int2Uint8 [simp]: "length (Int2Uint8 n) = 4"
  by (simp add: Int2Uint8_def)

lemma unat_byte_of_int: "unat (word_of_int (n mod 256) :: byte) = nat (n mod 256)"
  by (simp add: unsigned_of_int take_bit_eq_mod)

lemma GetIntNumber_stands:
  assumes "stands info i (Int2Uint8 n)" and "length info < 2 ^ 31"
  shows "GetIntNumber info i = Inr (nat (n mod 2 ^ 32), i + 4)"
proof -
  have le: "i + 4 \<le> length info" using stands_length [OF assms(1)] by simp
  have nth: "info ! (i + j) = Int2Uint8 n ! j" if "j < 4" for j
    using stands_nth [OF assms(1)] that by simp
  have "nat (n div 2 ^ 24 mod 256) * 2 ^ 24 + nat (n div 2 ^ 16 mod 256) * 2 ^ 16 + nat (n div 2 ^ 8 mod 256) * 2 ^ 8 +
      nat (n mod 256) = nat (n div 2 ^ 24 mod 256 * 2 ^ 24 + n div 2 ^ 16 mod 256 * 2 ^ 16 +
      n div 2 ^ 8 mod 256 * 2 ^ 8 + n mod 256)"
    by (simp add: nat_add_distrib nat_mult_distrib)
  also have "\<dots> = nat (n mod 2 ^ 32)" by (simp only: be_digits)
  finally show ?thesis
    using le assms(2) nth [of 0] nth [of 1] nth [of 2] nth [of 3]
    by (simp add: GetIntNumber_def read_at_def Int2Uint8_def unat_byte_of_int numeral_3_eq_3)
qed

lemma as_int_mod_small: "0 \<le> v \<Longrightarrow> v < 2 ^ 31 \<Longrightarrow> as_int v = v"
  by (simp add: as_int_def)

lemma tc_GetString_stands:
  assumes "stands info i (Str2Uint8 str)" and "length info < 2 ^ 31"
  shows "tc_GetString info i = Inr (str, i + 4 + length str)"
proof -
  have "stands info i (Int2Uint8 (as_int (int (length str))))" "stands info (i + 4) (string_bytes str)"
    using assms(1) by (simp_all add: Str2Uint8_def stands_append)
  moreover have "i + 4 + length str \<le> length info"
    using stands_length [OF assms(1)] by (simp add: Str2Uint8_def)
  moreover have "take (length str) (drop (i + 4) info) = string_bytes str"
    using stands_take_drop [OF calculation(2)] by simp
  ultimately show ?thesis
    using assms(2) GetIntNumber_stands [of info i "as_int (int (length str))"]
    by (simp add: tc_GetString_def as_int_mod_small Let_def)
qed

text \<open>
  Two keys of a cache are never equal, no two entries share a result, and no address it holds
  is still to be given out.
\<close>

definition cache_wf :: "'k token_state \<Rightarrow> bool" where
  "cache_wf s \<longleftrightarrow> keys_distinct (ts_dictionary s) \<and> distinct (map snd (ts_dictionary s)) \<and>
     (\<forall>e\<in>set (ts_dictionary s). snd e < ts_next s)"

text \<open>A cache that can be saved: ASCII text, and keys that name the user of their result.\<close>

definition entry_plain :: "(nat \<Rightarrow> AuthenticationResult) \<Rightarrow> entry \<Rightarrow> bool" where
  "entry_plain ob e \<longleftrightarrow> result_plain (ob (snd e)) \<and>
     as_int (tk_tokenSubjectType (fst e)) = tk_tokenSubjectType (fst e) \<and>
     equalsIC (tk_uniqueId (fst e)) (user_unique_id (ar_userInfo (ob (snd e))))"

definition cache_plain :: "'k token_state \<Rightarrow> bool" where
  "cache_plain s \<longleftrightarrow> list_all (entry_plain (ts_objects s)) (ts_dictionary s)"

lemma entries_map_cong:
  "(\<And>e. e \<in> set d \<Longrightarrow> ob (snd e) = ob' (snd e)) \<Longrightarrow> entries_map ob d = entries_map ob' d"
  by (simp add: entries_map_def cong: map_cong)

lemma hm_insert_set: "hash_ok add \<Longrightarrow> e \<in> set (hm_insert add key a d) \<Longrightarrow> e = (key, a) \<or> e \<in> set d"
  by (auto simp: hm_insert_def hash_ok_set split: if_splits)

definition insert_loaded ::
  "(entry list \<Rightarrow> entry \<Rightarrow> entry list) \<Rightarrow> TokenCacheKey \<Rightarrow> AuthenticationResult \<Rightarrow> 'k token_state \<Rightarrow> 'k token_state" where
  "insert_loaded add key r s =
     (case new_result r s of (a, s') \<Rightarrow> s'\<lparr>ts_dictionary := hm_insert add key a (ts_dictionary s')\<rparr>)"

lemma distinct_addresses_insert:
  "hash_ok add \<Longrightarrow> distinct (map snd d) \<Longrightarrow> a \<notin> snd ` set d \<Longrightarrow> distinct (map snd (hm_insert add key a d))"
  by (auto simp: hm_insert_def hash_ok_distinct)

lemma insert_loaded_wf:
  assumes "hash_ok add" and "cache_wf s"
  shows "cache_wf (insert_loaded add key r s)"
proof -
  have "snd e < Suc (ts_next s)" if "e \<in> set (hm_insert add key (ts_next s) (ts_dictionary s))" for e
    using hm_insert_set [OF assms(1) that] assms(2) by (auto simp: cache_wf_def less_Suc_eq)
  moreover have "ts_next s \<notin> snd ` set (ts_dictionary s)" using assms(2) by (auto simp: cache_wf_def)
  ultimately show ?thesis
    using assms by (simp add: cache_wf_def insert_loaded_def new_result_def keys_distinct_insert
        distinct_addresses_insert)
qed

lemma insert_loaded_map:
  assumes "hash_ok add" and "cache_wf s"
  shows "cache_map (insert_loaded add key r s) =
    (if cache_map s (norm_key key) = None then (cache_map s)(norm_key key \<mapsto> r) else cache_map s)"
proof -
  let ?ob = "(ts_objects s)(ts_next s := r)"
  have "entries_map ?ob (ts_dictionary s) = cache_map s"
    unfolding cache_map_def using assms(2) by (intro entries_map_cong) (auto simp: cache_wf_def)
  then show ?thesis
    using entries_map_insert [OF assms(1), of "ts_dictionary s" ?ob key "ts_next s"] assms(2)
    by (simp add: cache_map_def insert_loaded_def new_result_def cache_wf_def)
qed

lemma subject_back: "as_int t = t \<Longrightarrow> as_int (int (nat (t mod 2 ^ 32))) = t"
proof -
  assume "as_int t = t"
  moreover have "as_int (t mod 2 ^ 32) = as_int t" by (simp add: as_int_def mod_simps)
  ultimately show ?thesis by simp
qed

lemma loaded_key:
  assumes "entry_plain ob (key, a)"
  shows "norm_key (TokenCacheKey_create (tk_authority key) (tk_resource key) (tk_clientId key)
    (as_int (int (nat (tk_tokenSubjectType key mod 2 ^ 32)))) (ar_userInfo (stored_result (ob a)))) = norm_key key"
proof -
  have "user_unique_id (ar_userInfo (stored_result r)) = user_unique_id (ar_userInfo r)" for r
    by (simp add: stored_result_def user_unique_id_def stored_user_def split: option.split)
  then show ?thesis
    using assms subject_back [of "tk_tokenSubjectType key"]
    by (simp add: entry_plain_def TokenCacheKey_create_def norm_key_def equalsIC_iff)
qed

text \<open>One entry of a saved list, and what is done when it has been read.\<close>

definition entry_bytes :: "TokenCacheKey \<Rightarrow> string \<Rightarrow> byte list" where
  "entry_bytes key tx = Str2Uint8 (tk_authority key) @ Str2Uint8 (tk_resource key) @ Str2Uint8 (tk_clientId key) @
     Int2Uint8 (tk_tokenSubjectType key) @ Str2Uint8 tx"

lemma length_Str2Uint8 [simp]: "length (Str2Uint8 str) = 4 + length str"
  by (simp add: Str2Uint8_def)

text \<open>Where its parts stand.\<close>

lemma entry_parts:
  assumes "stands info i (entry_bytes key tx)"
  obtains p1 p2 p3 p4 where "stands info i (Str2Uint8 (tk_authority key))" "p1 = i + 4 + length (tk_authority key)"
    "stands info p1 (Str2Uint8 (tk_resource key))" "p2 = p1 + 4 + length (tk_resource key)"
    "stands info p2 (Str2Uint8 (tk_clientId key))" "p3 = p2 + 4 + length (tk_clientId key)"
    "stands info p3 (Int2Uint8 (tk_tokenSubjectType key))" "p4 = p3 + 4"
    "stands info p4 (Str2Uint8 tx)" "i + length (entry_bytes key tx) = p4 + 4 + length tx"
  using assms by (auto simp: entry_bytes_def stands_append add.assoc)

lemma deserialize_entry:
  assumes st: "stands info i (entry_bytes key tx)" and len: "length info < 2 ^ 31"
    and r: "AuthenticationResult_deserialize lib tx = Inr (stored_result (ob a))"
    and plain: "entry_plain ob (key, a)"
  shows "\<exists>key'. norm_key key' = norm_key key \<and>
    deserialize_entries lib add info (Suc n) i t =
      deserialize_entries lib add info n (i + length (entry_bytes key tx))
        (insert_loaded add key' (stored_result (ob a)) t)"
proof -
  let ?key = "TokenCacheKey_create (tk_authority key) (tk_resource key) (tk_clientId key)
    (as_int (int (nat (tk_tokenSubjectType key mod 2 ^ 32)))) (ar_userInfo (stored_result (ob a)))"
  from entry_parts [OF st] obtain p1 p2 p3 p4 where
    parts: "stands info i (Str2Uint8 (tk_authority key))" "stands info p1 (Str2Uint8 (tk_resource key))"
      "stands info p2 (Str2Uint8 (tk_clientId key))" "stands info p3 (Int2Uint8 (tk_tokenSubjectType key))"
      "stands info p4 (Str2Uint8 tx)"
    and p: "i + 4 + length (tk_authority key) = p1" "p1 + 4 + length (tk_resource key) = p2"
      "p2 + 4 + length (tk_clientId key) = p3" "p3 + 4 = p4"
      "p4 + 4 + length tx = i + length (entry_bytes key tx)" by metis
  note reads = tc_GetString_stands [OF parts(1) len, unfolded p] tc_GetString_stands [OF parts(2) len, unfolded p]
    tc_GetString_stands [OF parts(3) len, unfolded p] GetIntNumber_stands [OF parts(4) len, unfolded p]
    tc_GetString_stands [OF parts(5) len, unfolded p]
  have "deserialize_entries lib add info (Suc n) i t =
      deserialize_entries lib add info n (i + length (entry_bytes key tx))
        (insert_loaded add ?key (stored_result (ob a)) t)"
    unfolding deserialize_entries.simps insert_loaded_def
    by (simp only: bnd_app liftE_app seqx_app modify_app reads r sum.case prod.case)
  with loaded_key [OF plain] show ?thesis by blast
qed

text \<open>The first entry of a list that could be serialized.\<close>

lemma serialized_first:
  assumes "json_lib_ok lib" and "serialize_entries lib ob ((key, a) # d) = Inr bs" and "entry_plain ob (key, a)"
  obtains tx rest where "AuthenticationResult_deserialize lib tx = Inr (stored_result (ob a))"
    and "serialize_entries lib ob d = Inr rest" and "bs = entry_bytes key tx @ rest"
proof -
  from assms(2) obtain tx rest where tx: "AuthenticationResult_serialize lib (ob a) = Inr tx"
      "serialize_entries lib ob d = Inr rest" "bs = entry_bytes key tx @ rest"
    by (auto simp: bindE_eq_Inr entry_bytes_def)
  from assms(3) obtain tx' where "AuthenticationResult_serialize lib (ob a) = Inr tx'"
      "AuthenticationResult_deserialize lib tx' = Inr (stored_result (ob a))"
    using result_roundtrip [OF assms(1), of "ob a"] by (auto simp: entry_plain_def)
  with tx show ?thesis by (intro that [of tx rest]) simp_all
qed

lemma deserialize_entries_saved:
  assumes "json_lib_ok lib" and "hash_ok add" and "length info < 2 ^ 31"
    and "serialize_entries lib ob d = Inr bs" and "stands info i bs" and "list_all (entry_plain ob) d"
    and "cache_wf t"
  shows "\<exists>t'. deserialize_entries lib add info (length d) i t = (Inr (), t') \<and> cache_wf t' \<and>
    cache_map t' = entries_map (stored_result \<circ> ob) d ++ cache_map t"
  using assms(4-7)
proof (induction d arbitrary: bs i t)
  case Nil
  then show ?case by (simp add: sx_simps entries_map_def)
next
  case (Cons e d)
  obtain key a where e: "e = (key, a)" by (cases e)
  have plain: "entry_plain ob (key, a)" and plain': "list_all (entry_plain ob) d"
    using Cons.prems(3) by (simp_all add: e)
  obtain tx rest where tx: "AuthenticationResult_deserialize lib tx = Inr (stored_result (ob a))"
      "serialize_entries lib ob d = Inr rest" "bs = entry_bytes key tx @ rest"
    using serialized_first [OF assms(1) Cons.prems(1) [unfolded e] plain] .
  let ?j = "i + length (entry_bytes key tx)"
  have st: "stands info i (entry_bytes key tx)" "stands info ?j rest"
    using Cons.prems(2) by (simp_all add: tx(3) stands_append)
  obtain key' where j: "norm_key key' = norm_key key"
      "deserialize_entries lib add info (Suc (length d)) i t =
        deserialize_entries lib add info (length d) ?j (insert_loaded add key' (stored_result (ob a)) t)"
    using deserialize_entry [OF st(1) assms(3) tx(1) plain] by blast
  let ?t = "insert_loaded add key' (stored_result (ob a)) t"
  obtain t' where t': "deserialize_entries lib add info (length d) ?j ?t = (Inr (), t')" "cache_wf t'"
      "cache_map t' = entries_map (stored_result \<circ> ob) d ++ cache_map ?t"
    using Cons.IH [OF tx(2) st(2) plain' insert_loaded_wf [OF assms(2) Cons.prems(4)]] by blast
  have "cache_map t' = entries_map (stored_result \<circ> ob) (e # d) ++ cache_map t"
    using t'(3) insert_loaded_map [OF assms(2) Cons.prems(4), of key'] j(1)
    by (auto simp: e entries_map_def map_add_def split: option.split)
  moreover have "deserialize_entries lib add info (length (e # d)) i t = (Inr (), t')"
    using j(2) t'(1) by (simp only: length_Cons)
  ultimately show ?case using t'(2) by blast
qed

text \<open>A cache of plain entries can be serialized.\<close>

lemma serialize_entries_total:
  assumes "json_lib_ok lib" and "list_all (entry_plain ob) d"
  shows "\<exists>bs. serialize_entries lib ob d = Inr bs \<and> length d \<le> length bs"
  using assms(2)
proof (induction d)
  case (Cons e d)
  obtain key a where e: "e = (key, a)" by (cases e)
  obtain tx where "AuthenticationResult_serialize lib (ob a) = Inr tx"
    using Cons.prems result_roundtrip [OF assms(1), of "ob a"] by (auto simp: e entry_plain_def)
  with Cons show ?case by (auto simp: e)
qed simp

lemma entries_map_stored:
  "entries_map (stored_result \<circ> ob) d k = map_option stored_result (entries_map ob d k)"
  by (induction d) (auto simp: entries_map_def)

lemma tc_deserialize_saved:
  assumes "json_lib_ok lib" and "hash_ok add" and "tc_serialize lib s = Inr bytes" and "length bytes < 2 ^ 31"
    and "cache_plain s" and "cache_wf t"
  shows "\<exists>t'. tc_deserialize lib add bytes t = (Inr (), t') \<and> cache_wf t' \<and>
    cache_map t' = (map_option stored_result \<circ> cache_map s) ++ cache_map t"
proof -
  let ?d = "ts_dictionary s"
  obtain entries where en: "serialize_entries lib (ts_objects s) ?d = Inr entries"
      "bytes = Int2Uint8 SchemaVersion @ Int2Uint8 (tc_count s) @ entries"
    using assms(3) by (auto simp: tc_serialize_def bindE_eq_Inr)
  have plain: "list_all (entry_plain (ts_objects s)) ?d" using assms(5) by (simp add: cache_plain_def)
  have "length ?d \<le> length entries" using serialize_entries_total [OF assms(1) plain] en(1) by auto
  then have cnt: "nat (tc_count s mod 2 ^ 32) = length ?d"
    using en(2) assms(4) by (simp add: tc_count_def as_int_mod_small)
  have parts: "stands bytes 0 (Int2Uint8 SchemaVersion)" "stands bytes 4 (Int2Uint8 (tc_count s))"
      "stands bytes 8 entries"
  proof -
    have "stands bytes 0 (Int2Uint8 SchemaVersion @ Int2Uint8 (tc_count s) @ entries)"
      unfolding stands_def using en(2) by (intro exI [of _ "[]"]) simp
    then show "stands bytes 0 (Int2Uint8 SchemaVersion)" "stands bytes 4 (Int2Uint8 (tc_count s))"
        "stands bytes 8 entries" by (simp_all add: stands_append)
  qed
  obtain t' where t': "deserialize_entries lib add bytes (length ?d) 8 t = (Inr (), t')" "cache_wf t'"
      "cache_map t' = entries_map (stored_result \<circ> ts_objects s) ?d ++ cache_map t"
    using deserialize_entries_saved [OF assms(1,2,4) en(1) parts(3) plain assms(6)] by blast
  have "GetIntNumber bytes 0 = Inr (2, 4)" "GetIntNumber bytes 4 = Inr (length ?d, 8)"
    using GetIntNumber_stands [OF parts(1) assms(4)] GetIntNumber_stands [OF parts(2) assms(4)] cnt
    by (simp_all add: SchemaVersion_def)
  moreover have "bytes \<noteq> []" using en(2) by (simp add: Int2Uint8_def)
  moreover have "entries_map (stored_result \<circ> ts_objects s) ?d = map_option stored_result \<circ> cache_map s"
    by (rule ext) (simp add: cache_map_def entries_map_stored)
  ultimately show ?thesis
    using t' by (simp add: tc_deserialize_def SchemaVersion_def sx_simps)
qed

lemma token_cache_total:
  assumes "json_lib_ok lib" and "cache_plain s"
  shows "\<exists>bytes. tc_serialize lib s = Inr bytes"
proof -
  obtain entries where "serialize_entries lib (ts_objects s) (ts_dictionary s) = Inr entries"
    using serialize_entries_total [OF assms(1)] assms(2) by (auto simp: cache_plain_def)
  then show ?thesis by (simp add: tc_serialize_def)
qed

text \<open>
  C6: a token cache that is saved and loaded again is the same map from keys to results,
  whatever the order in which the hash maps hold their entries; what the loading cache
  held already stays, and the times of expiry come back as an \<open>int\<close>.
\<close>

theorem token_cache_save_load:
  assumes "json_lib_ok lib" and "hash_ok add" and "cache_plain s" and "cache_wf t"
  shows "\<exists>bytes. tc_serialize lib s = Inr bytes \<and>
    (length bytes < 2 ^ 31 \<longrightarrow>
      (\<exists>t'. tc_deserialize lib add bytes t = (Inr (), t') \<and> cache_wf t' \<and>
        cache_map t' = (map_option stored_result \<circ> cache_map s) ++ cache_map t))"
  using token_cache_total [OF assms(1,3)] tc_deserialize_saved [OF assms(1,2) _ _ assms(3,4)] by blast

section \<open>Storing a result\<close>

text \<open>Whether an abstract key answers a query; an empty client or user answers to any.\<close>

definition answers :: "string \<Rightarrow> string \<Rightarrow> TokenSubjectType \<Rightarrow> string \<Rightarrow> norm_key \<Rightarrow> bool" where
  "answers authority clientId subjectType uniqueId k \<longleftrightarrow>
     (case k of (au, re, cl, un, ty) \<Rightarrow> au = to_lower_string authority \<and>
        (clientId = [] \<or> cl = to_lower_string clientId) \<and>
        (uniqueId = [] \<or> un = to_lower_string uniqueId) \<and> ty = subjectType)"

lemma queryCache_answers:
  "queryCache authority clientId subjectType uniqueId d =
     filter (\<lambda>e. answers authority clientId subjectType uniqueId (norm_key (fst e))) d"
  unfolding queryCache_def by (rule filter_cong) (auto simp: answers_def norm_key_def equalsIC_iff)

text \<open>
  The abstract store: the result under its key, and, if its refresh token is for several
  resources, that token in every such result of the same user.
\<close>

definition spec_store ::
  "string \<Rightarrow> string \<Rightarrow> string \<Rightarrow> TokenSubjectType \<Rightarrow> AuthenticationResult \<Rightarrow>
   (norm_key \<Rightarrow> AuthenticationResult option) \<Rightarrow> norm_key \<Rightarrow> AuthenticationResult option" where
  "spec_store authority resource clientId subjectType r M =
     (let M1 = M(norm_key (TokenCacheKey_create authority resource clientId subjectType (ar_userInfo r)) \<mapsto> r)
      in if ar_userInfo r \<noteq> None \<and> ar_isMultipleResourceRefreshToken r
         then (\<lambda>k. if answers authority clientId subjectType (user_unique_id (ar_userInfo r)) k
                    then map_option (\<lambda>r'. if ar_isMultipleResourceRefreshToken r'
                           then r'\<lparr>ar_refreshToken := ar_refreshToken r\<rparr> else r') (M1 k)
                    else M1 k)
         else M1)"

lemma set_refresh_tokens_eq:
  "set_refresh_tokens a list s = s\<lparr>ts_objects := (\<lambda>x.
     if x \<in> snd ` set list \<and> ar_isMultipleResourceRefreshToken (ts_objects s x)
     then (ts_objects s x)\<lparr>ar_refreshToken := ar_refreshToken (ts_objects s a)\<rparr> else ts_objects s x)\<rparr>"
proof (induction list arbitrary: s)
  case Nil
  then show ?case by simp
next
  case (Cons e list)
  obtain key b where e: "e = (key, b)" by (cases e)
  show ?case unfolding e set_refresh_tokens.simps Cons.IH
    by (auto simp: update_result_def fun_eq_iff intro!: token_state.equality)
qed

lemma distinct_addresses_set:
  "keys_distinct d \<Longrightarrow> distinct (map snd d) \<Longrightarrow> a \<notin> snd ` set d \<Longrightarrow> distinct (map snd (hm_set key a d))"
proof (induction d)
  case Nil
  then show ?case by (simp add: hm_set_def)
next
  case (Cons e d)
  have hd: "norm_key (fst e) \<notin> (norm_key \<circ> fst) ` set d" and tl: "keys_distinct d"
    using Cons.prems(1) by (auto simp: keys_distinct_def)
  have ih: "distinct (map snd (hm_set key a d))" using Cons tl by simp
  have addr: "snd ` set (hm_set key a d) \<subseteq> insert a (snd ` set d)" by (auto simp: hm_set_def)
  show ?case
  proof (cases "norm_key (fst e) = norm_key key")
    case True
    then have "hm_set key a d = d" using hd by (force simp: hm_set_def key_equals_iff intro!: map_idI)
    with True Cons.prems show ?thesis by (simp add: hm_set_def key_equals_iff)
  next
    case False
    then have eq: "hm_set key a (e # d) = e # hm_set key a d" by (simp add: hm_set_def key_equals_iff)
    have "snd e \<notin> snd ` set (hm_set key a d)" using addr Cons.prems(2,3) by auto
    then show ?thesis using ih by (simp add: eq)
  qed
qed

definition store_entry ::
  "(entry list \<Rightarrow> entry \<Rightarrow> entry list) \<Rightarrow> TokenCacheKey \<Rightarrow> nat \<Rightarrow> entry list \<Rightarrow> entry list" where
  "store_entry add key a d = (if hm_find key d \<noteq> None then hm_set key a d else hm_insert add key a d)"

lemma store_entry_wf:
  assumes "hash_ok add" and "cache_wf s" and "a < ts_next s" and "a \<notin> snd ` set (ts_dictionary s)"
  shows "keys_distinct (store_entry add key a (ts_dictionary s))"
    and "distinct (map snd (store_entry add key a (ts_dictionary s)))"
    and "\<forall>e\<in>set (store_entry add key a (ts_dictionary s)). snd e < ts_next s"
proof -
  have wf: "keys_distinct (ts_dictionary s)" "distinct (map snd (ts_dictionary s))"
      "\<forall>e\<in>set (ts_dictionary s). snd e < ts_next s"
    using assms(2) by (simp_all add: cache_wf_def)
  show "keys_distinct (store_entry add key a (ts_dictionary s))"
    using wf(1) assms(1) by (simp add: store_entry_def keys_distinct_set keys_distinct_insert)
  show "distinct (map snd (store_entry add key a (ts_dictionary s)))"
    using distinct_addresses_insert [OF assms(1) wf(2) assms(4)] distinct_addresses_set [OF wf(1,2) assms(4)]
    by (simp add: store_entry_def)
  show "\<forall>e\<in>set (store_entry add key a (ts_dictionary s)). snd e < ts_next s"
    using wf(3) assms(3) by (auto simp: store_entry_def hm_set_def dest!: hm_insert_set [OF assms(1)] split: if_splits)
qed

lemma entries_map_store:
  assumes "hash_ok add" and "keys_distinct d"
  shows "entries_map ob (store_entry add key a d) = (entries_map ob d)(norm_key key \<mapsto> ob a)"
proof (cases "hm_find key d")
  case None
  then have "entries_map ob d (norm_key key) = None" by (simp add: entries_map_None hm_find_None)
  with None show ?thesis by (simp add: store_entry_def entries_map_insert [OF assms])
next
  case (Some b)
  then have "entries_map ob d (norm_key key) \<noteq> None"
    using hm_find_None [of key d] entries_map_None [of ob d "norm_key key"] by auto
  with Some show ?thesis by (auto simp: store_entry_def entries_map_set fun_eq_iff)
qed

text \<open>An update of the results whose keys are in a set is that update in the map.\<close>

lemma entries_map_update:
  assumes "distinct (map snd d)"
  shows "entries_map (\<lambda>x. if x \<in> snd ` set (filter (\<lambda>e. P (norm_key (fst e))) d) \<and> Q (ob x) then f (ob x) else ob x) d k =
    (if P k then map_option (\<lambda>r. if Q r then f r else r) (entries_map ob d k) else entries_map ob d k)"
proof -
  let ?ob = "\<lambda>x. if x \<in> snd ` set (filter (\<lambda>e. P (norm_key (fst e))) d) \<and> Q (ob x) then f (ob x) else ob x"
  have here: "snd e \<in> snd ` set (filter (\<lambda>e. P (norm_key (fst e))) d) \<longleftrightarrow> P (norm_key (fst e))" if "e \<in> set d" for e
  proof -
    have "e' = e" if "e' \<in> set d" "snd e' = snd e" for e'
      using assms \<open>e \<in> set d\<close> that by (auto simp: distinct_map dest: inj_onD)
    note same = this
    show ?thesis
    proof
      assume "snd e \<in> snd ` set (filter (\<lambda>e. P (norm_key (fst e))) d)"
      then obtain e' where "e' \<in> set d" "P (norm_key (fst e'))" "snd e' = snd e" by auto
      with same show "P (norm_key (fst e))" by metis
    qed (use \<open>e \<in> set d\<close> in auto)
  qed
  have "map_of (map (\<lambda>e. (norm_key (fst e), ?ob (snd e))) l) k =
      (if P k then map_option (\<lambda>r. if Q r then f r else r) (entries_map ob l k) else entries_map ob l k)"
    if "set l \<subseteq> set d" for l
    using that
  proof (induction l)
    case (Cons e l)
    then have "e \<in> set d" by simp
    from here [OF this] Cons show ?case by (auto simp: entries_map_def)
  qed (simp add: entries_map_def)
  from this [OF order_refl] show ?thesis by (simp add: entries_map_def)
qed

lemma updateCached_same [simp]:
  "ts_dictionary (updateCachedMrrtRefreshTokens a authority clientId subjectType s) = ts_dictionary s"
  "ts_next (updateCachedMrrtRefreshTokens a authority clientId subjectType s) = ts_next s"
  by (simp_all add: updateCachedMrrtRefreshTokens_def set_refresh_tokens_eq Let_def split: option.split)

lemma updateCached_objects:
  assumes "ar_userInfo (ts_objects s a) = Some u" and "ar_isMultipleResourceRefreshToken (ts_objects s a)"
  shows "ts_objects (updateCachedMrrtRefreshTokens a authority clientId subjectType s) =
    (\<lambda>x. if x \<in> snd ` set (filter (\<lambda>e. answers authority clientId subjectType (ui_uniqueId u) (norm_key (fst e)))
             (ts_dictionary s)) \<and> ar_isMultipleResourceRefreshToken (ts_objects s x)
         then (ts_objects s x)\<lparr>ar_refreshToken := ar_refreshToken (ts_objects s a)\<rparr> else ts_objects s x)"
  using assms by (simp add: updateCachedMrrtRefreshTokens_def set_refresh_tokens_eq queryCache_answers Let_def)

text \<open>
  C7: storing a result is storing it in the map, for any order of the hash map, and the
  keys of the cache stay distinct.
\<close>

theorem store_refines:
  assumes "hash_ok add" and "cache_wf s" and "a < ts_next s" and "a \<notin> snd ` set (ts_dictionary s)"
    and "cc_onBeforeWrite v = ret ()"
  shows "\<exists>s'. storeToCache add v a authority resource clientId subjectType s = (Inr (), s') \<and> cache_wf s' \<and>
    cache_map s' = spec_store authority resource clientId subjectType (ts_objects s a) (cache_map s)"
proof -
  let ?r = "ts_objects s a"
  let ?key = "TokenCacheKey_create authority resource clientId subjectType (ar_userInfo ?r)"
  let ?d = "store_entry add ?key a (ts_dictionary s)"
  let ?s1 = "s\<lparr>ts_dictionary := ?d\<rparr>"
  let ?s2 = "updateCachedMrrtRefreshTokens a authority clientId subjectType ?s1"
  have run: "storeToCache add v a authority resource clientId subjectType s =
      (Inr (), ?s2\<lparr>ts_hasStateChanged := True\<rparr>)"
    using assms(5) by (simp add: storeToCache_def sx_simps store_entry_def Let_def)
  have wf: "keys_distinct ?d" "distinct (map snd ?d)" "\<forall>e\<in>set ?d. snd e < ts_next s"
    using store_entry_wf [OF assms(1-4)] by auto
  have m1: "entries_map (ts_objects s) ?d = (cache_map s)(norm_key ?key \<mapsto> ?r)"
    using entries_map_store [OF assms(1), of "ts_dictionary s" "ts_objects s" ?key a] assms(2)
    by (simp add: cache_wf_def cache_map_def)
  have "cache_wf (?s2\<lparr>ts_hasStateChanged := True\<rparr>)"
    using wf by (simp add: cache_wf_def)
  moreover have "cache_map (?s2\<lparr>ts_hasStateChanged := True\<rparr>) =
      spec_store authority resource clientId subjectType ?r (cache_map s)"
  proof (cases "ar_userInfo ?r \<noteq> None \<and> ar_isMultipleResourceRefreshToken ?r")
    case True
    then obtain u where u: "ar_userInfo ?r = Some u" by auto
    let ?P = "answers authority clientId subjectType (ui_uniqueId u)"
    let ?f = "\<lambda>r. r\<lparr>ar_refreshToken := ar_refreshToken ?r\<rparr>"
    have "ts_objects ?s2 = (\<lambda>x. if x \<in> snd ` set (filter (\<lambda>e. ?P (norm_key (fst e))) ?d) \<and>
        ar_isMultipleResourceRefreshToken (ts_objects s x) then ?f (ts_objects s x) else ts_objects s x)"
      using updateCached_objects [of ?s1 a u authority clientId subjectType] True u
      by (simp del: set_filter cong: if_cong)
    then have "cache_map (?s2\<lparr>ts_hasStateChanged := True\<rparr>) k =
        (if ?P k then map_option (\<lambda>r. if ar_isMultipleResourceRefreshToken r then ?f r else r)
           (entries_map (ts_objects s) ?d k) else entries_map (ts_objects s) ?d k)" for k
      using entries_map_update [OF wf(2), of ?P ar_isMultipleResourceRefreshToken "ts_objects s" ?f k]
      by (simp add: cache_map_def)
    then show ?thesis
      using True by (intro ext) (simp add: spec_store_def u user_unique_id_def m1 [unfolded u] Let_def)
  next
    case False
    then show ?thesis using m1
      by (auto simp: spec_store_def cache_map_def updateCachedMrrtRefreshTokens_def Let_def split: option.split)
  qed
  ultimately show ?thesis using run by blast
qed

section \<open>Finding a result\<close>

lemma filter_distinct:
  "distinct (map f d) \<Longrightarrow> e \<in> set d \<Longrightarrow> (\<And>x. x \<in> set d \<Longrightarrow> P x \<longleftrightarrow> f x = f e) \<Longrightarrow> filter P d = [e]"
proof (induction d)
  case (Cons x d)
  show ?case
  proof (cases "x = e")
    case True
    have "\<not> P y" if "y \<in> set d" for y
    proof -
      have "f y \<noteq> f e" using Cons.prems(1) True that by (auto simp: image_iff)
      then show ?thesis using Cons.prems(3) [of y] that by simp
    qed
    then have "filter P d = []" by (simp add: filter_empty_conv)
    with True Cons.prems(3) [of x] show ?thesis by simp
  next
    case False
    then have e: "e \<in> set d" using Cons.prems(2) by simp
    have "f x \<noteq> f e" using Cons.prems(1) e by (auto simp: image_iff)
    then have "\<not> P x" using Cons.prems(3) [of x] by simp
    with Cons e show ?thesis by simp
  qed
qed simp

lemma store_entry_member:
  assumes "hash_ok add"
  shows "\<exists>k'. norm_key k' = norm_key key \<and> (k', a) \<in> set (store_entry add key a d)"
proof (cases "hm_find key d")
  case None
  then show ?thesis using assms by (auto simp: store_entry_def hm_insert_def hash_ok_set)
next
  case (Some b)
  then obtain e where "e \<in> set d" "norm_key (fst e) = norm_key key"
    using hm_find_None [of key d] by auto
  then show ?thesis using Some
    by (intro exI [of _ "fst e"]) (force simp: store_entry_def hm_set_def key_equals_iff)
qed

lemma store_entry_keys:
  assumes "hash_ok add" and "e \<in> set (store_entry add key a d)"
  shows "norm_key (fst e) = norm_key key \<or> norm_key (fst e) \<in> (norm_key \<circ> fst) ` set d"
  using assms(2)
  by (auto simp: store_entry_def hm_set_def key_equals_iff dest!: hm_insert_set [OF assms(1)] split: if_splits)

text \<open>A change of the result of one entry is a change of one key of the map.\<close>

lemma entries_map_one:
  assumes "cache_wf s" and "(key, a) \<in> set (ts_dictionary s)"
  shows "entries_map ((ts_objects s)(a := r)) (ts_dictionary s) =
    (entries_map (ts_objects s) (ts_dictionary s))(norm_key key \<mapsto> r)"
proof -
  let ?d = "ts_dictionary s" and ?ob = "ts_objects s"
  have wf: "keys_distinct ?d" "distinct (map snd ?d)" using assms(1) by (simp_all add: cache_wf_def)
  have "filter (\<lambda>e. norm_key (fst e) = norm_key key) ?d = [(key, a)]"
    using wf(1) by (intro filter_distinct [OF _ assms(2), of "norm_key \<circ> fst"]) (simp_all add: keys_distinct_def)
  moreover have "entries_map ?ob ?d (norm_key key) \<noteq> None"
    using entries_map_None [of ?ob ?d "norm_key key"] assms(2) by force
  ultimately show ?thesis
    using entries_map_update [OF wf(2), of "\<lambda>k. k = norm_key key" "\<lambda>_. True" ?ob "\<lambda>_. r"]
    by (auto simp: fun_eq_iff fun_upd_def simp del: set_filter)
qed

text \<open>When one entry answers the query, and it is for the resource, it is the one that is loaded.\<close>

lemma load_single:
  assumes "queryCache authority clientId subjectType uid (ts_dictionary s) = [(key, a)]"
    and "equalsIC (tk_resource key) resource" and "ar_accessToken (ts_objects s a) \<noteq> []"
    and "dt_time nw + 300 < ar_expiresOn (ts_objects s a)"
  shows "loadFromCache nw authority resource clientId subjectType uid s = (Some a, s)"
  using assms
  by (simp add: loadFromCache_def loadSingleItemFromCache_def addSecs_def expirationMarginInSeconds_def Let_def)

text \<open>
  C19: a result that has been stored, and does not expire within the margin of five minutes,
  is found again by the same authority, resource, client and user, unchanged, provided
  that nothing else in the cache answers the same query.
\<close>

theorem stored_token_loads:
  assumes "hash_ok add" and "cache_wf s" and "a < ts_next s" and "a \<notin> snd ` set (ts_dictionary s)"
    and "cc_onBeforeWrite v = ret ()"
    and "\<And>k. cache_map s k \<noteq> None \<Longrightarrow> answers authority clientId subjectType uid k \<Longrightarrow>
      k = norm_key (TokenCacheKey_create authority resource clientId subjectType (ar_userInfo (ts_objects s a)))"
    and "uid = [] \<or> uid = user_unique_id (ar_userInfo (ts_objects s a))"
    and "ar_accessToken (ts_objects s a) \<noteq> []" and "dt_time nw + 300 < ar_expiresOn (ts_objects s a)"
  shows "\<exists>s'. storeToCache add v a authority resource clientId subjectType s = (Inr (), s') \<and>
    loadFromCache nw authority resource clientId subjectType uid s' = (Some a, s') \<and>
    ts_objects s' a = ts_objects s a"
proof -
  let ?key = "TokenCacheKey_create authority resource clientId subjectType (ar_userInfo (ts_objects s a))"
  let ?d = "store_entry add ?key a (ts_dictionary s)"
  let ?s2 = "updateCachedMrrtRefreshTokens a authority clientId subjectType (s\<lparr>ts_dictionary := ?d\<rparr>)"
  let ?s' = "?s2\<lparr>ts_hasStateChanged := True\<rparr>"
  have run: "storeToCache add v a authority resource clientId subjectType s = (Inr (), ?s')"
    using assms(5) by (simp add: storeToCache_def sx_simps store_entry_def Let_def)
  have same: "ts_objects ?s2 a = ts_objects s a"
    by (simp add: updateCachedMrrtRefreshTokens_def set_refresh_tokens_eq Let_def split: option.split)
  obtain k' where k': "norm_key k' = norm_key ?key" "(k', a) \<in> set ?d"
    using store_entry_member [OF assms(1)] by blast
  have "distinct (map (norm_key \<circ> fst) ?d)"
    using store_entry_wf(1) [OF assms(1-4)] by (simp add: keys_distinct_def)
  moreover have "answers authority clientId subjectType uid (norm_key (fst e)) \<longleftrightarrow>
      (norm_key \<circ> fst) e = (norm_key \<circ> fst) (k', a)" if "e \<in> set ?d" for e
  proof
    assume ans: "answers authority clientId subjectType uid (norm_key (fst e))"
    have "cache_map s (norm_key (fst e)) \<noteq> None" if "norm_key (fst e) \<in> (norm_key \<circ> fst) ` set (ts_dictionary s)"
      using that entries_map_None [of "ts_objects s" "ts_dictionary s" "norm_key (fst e)"] by (auto simp: cache_map_def)
    then have "norm_key (fst e) = norm_key ?key"
      using store_entry_keys [OF assms(1) that] assms(6) ans by blast
    then show "(norm_key \<circ> fst) e = (norm_key \<circ> fst) (k', a)" using k'(1) by simp
  next
    assume "(norm_key \<circ> fst) e = (norm_key \<circ> fst) (k', a)"
    then show "answers authority clientId subjectType uid (norm_key (fst e))"
      using k'(1) assms(7) by (auto simp: answers_def norm_key_def TokenCacheKey_create_def)
  qed
  ultimately have "queryCache authority clientId subjectType uid ?d = [(k', a)]"
    unfolding queryCache_answers by (intro filter_distinct [OF _ k'(2)])
  moreover have "equalsIC (tk_resource k') resource"
    using k'(1) by (simp add: norm_key_def TokenCacheKey_create_def equalsIC_iff)
  ultimately have "loadFromCache nw authority resource clientId subjectType uid ?s' = (Some a, ?s')"
    using assms(8,9) same by (intro load_single) simp_all
  with run same show ?thesis by auto
qed

text \<open>
  As soon as something else answers the query, the wrong entry is taken. When one entry
  is for the resource, the code returns the first of all that answer: if that is another
  one, without a refresh token, the caller gets nothing although the cache has the token,
  and the entry of the other resource is removed.
\<close>

theorem load_takes_first:
  assumes "queryCache authority clientId subjectType uid (ts_dictionary s) = (k1, a1) # rest"
    and "length (filter (\<lambda>(key, a). equalsIC (tk_resource key) resource) rest) = 1"
    and "\<not> equalsIC (tk_resource k1) resource" and "ar_refreshToken (ts_objects s a1) = []"
  shows "\<exists>s'. loadFromCache nw authority resource clientId subjectType uid s = (None, s') \<and>
    ts_dictionary s' = hm_erase k1 (ts_dictionary s)"
  using assms
  by (simp add: loadFromCache_def loadSingleItemFromCache_def update_result_def Let_def)

text \<open>
  A refresh token for several resources is found for a resource the cache knows nothing
  of. The access token of the entry it belongs to is blanked in the cache itself, since the
  caller gets the cached object and not a copy.
\<close>

theorem mrrt_load_blanks_token:
  assumes "cache_wf s" and "queryCache authority clientId subjectType uid (ts_dictionary s) = [(key, a)]"
    and "\<not> equalsIC (tk_resource key) resource" and "ar_isMultipleResourceRefreshToken (ts_objects s a)"
    and "ar_refreshToken (ts_objects s a) \<noteq> []"
  shows "\<exists>s'. loadFromCache nw authority resource clientId subjectType uid s = (Some a, s') \<and>
    cache_map s' = (cache_map s)(norm_key key \<mapsto> (ts_objects s a)\<lparr>ar_accessToken := []\<rparr>)"
proof -
  let ?s' = "update_result a (\<lambda>r. r\<lparr>ar_accessToken := []\<rparr>) s"
  have "(key, a) \<in> set (queryCache authority clientId subjectType uid (ts_dictionary s))" using assms(2) by simp
  then have mem: "(key, a) \<in> set (ts_dictionary s)" by (simp add: queryCache_answers)
  have "loadFromCache nw authority resource clientId subjectType uid s = (Some a, ?s')"
    using assms(2-5) by (simp add: loadFromCache_def loadSingleItemFromCache_def update_result_def Let_def)
  moreover have "cache_map ?s' = (cache_map s)(norm_key key \<mapsto> (ts_objects s a)\<lparr>ar_accessToken := []\<rparr>)"
    using entries_map_one [OF assms(1) mem] by (simp add: cache_map_def update_result_def)
  ultimately show ?thesis by blast
qed

section \<open>A saved state that has been cut off\<close>

lemma GetIntNumber_cut:
  "i \<le> length info \<Longrightarrow> length info < i + 4 \<Longrightarrow> length info < 2 ^ 31 \<Longrightarrow> GetIntNumber info i = Inl OutOfBounds"
proof -
  assume le: "i \<le> length info" "length info < i + 4" "length info < 2 ^ 31"
  then have "length info = i \<or> length info = i + 1 \<or> length info = i + 2 \<or> length info = i + 3" by linarith
  with le show ?thesis by (elim disjE) (simp_all add: GetIntNumber_def read_at_def)
qed

lemma stands_take: "stands info i bs \<Longrightarrow> i + length bs \<le> k \<Longrightarrow> stands (take k info) i bs"
proof -
  assume "stands info i bs" and le: "i + length bs \<le> k"
  then obtain pre post where p: "info = pre @ bs @ post" "length pre = i" unfolding stands_def by blast
  with le have "take k info = pre @ bs @ take (k - (length pre + length bs)) post" by simp
  with p(2) show ?thesis unfolding stands_def by blast
qed

lemma GetIntNumber_take:
  assumes "stands info i (Int2Uint8 n)" and "length info < 2 ^ 31" and "i \<le> k" and "k < length info"
  shows "GetIntNumber (take k info) i =
    (if i + 4 \<le> k then Inr (nat (n mod 2 ^ 32), i + 4) else Inl OutOfBounds)"
proof (cases "i + 4 \<le> k")
  case True
  then show ?thesis using GetIntNumber_stands [OF stands_take [OF assms(1)], of k] assms by simp
next
  case False
  then show ?thesis using GetIntNumber_cut [of i "take k info"] assms by simp
qed

lemma GetString_take:
  assumes "stands info i (Str2Uint8 str)" and "length info < 2 ^ 31" and "i \<le> k" and "k < length info"
  shows "tc_GetString (take k info) i =
    (if i + 4 + length str \<le> k then Inr (str, i + 4 + length str) else Inl OutOfBounds)"
proof (cases "i + 4 + length str \<le> k")
  case True
  moreover have "length (Str2Uint8 str) = 4 + length str" by (simp add: Str2Uint8_def)
  ultimately have "stands (take k info) i (Str2Uint8 str)" by (intro stands_take [OF assms(1)]) linarith
  then show ?thesis using True tc_GetString_stands [of "take k info" i str] assms by simp
next
  case False
  have st: "stands info i (Int2Uint8 (as_int (int (length str))))"
    using assms(1) by (simp add: Str2Uint8_def stands_append)
  have le: "i + 4 + length str \<le> length info" using stands_length [OF assms(1)] by (simp add: Str2Uint8_def)
  show ?thesis
    using False le assms(2-4) GetIntNumber_take [OF st assms(2-4)]
    by (auto simp: tc_GetString_def as_int_mod_small Let_def)
qed

lemma deserialize_entry_cut:
  assumes st: "stands info i (entry_bytes key tx)" and len: "length info < 2 ^ 31" and k: "k < length info"
    and r: "AuthenticationResult_deserialize lib tx = Inr x"
    and cut: "i \<le> k" "k < i + length (entry_bytes key tx)"
  shows "deserialize_entries lib add (take k info) (Suc n) i t = (Inl OutOfBounds, t)"
proof -
  from entry_parts [OF st] obtain p1 p2 p3 p4 where
    parts: "stands info i (Str2Uint8 (tk_authority key))" "stands info p1 (Str2Uint8 (tk_resource key))"
      "stands info p2 (Str2Uint8 (tk_clientId key))" "stands info p3 (Int2Uint8 (tk_tokenSubjectType key))"
      "stands info p4 (Str2Uint8 tx)"
    and p: "i + 4 + length (tk_authority key) = p1" "p1 + 4 + length (tk_resource key) = p2"
      "p2 + 4 + length (tk_clientId key) = p3" "p3 + 4 = p4"
      "p4 + 4 + length tx = i + length (entry_bytes key tx)" by metis
  have order: "p1 \<le> p2" "p2 \<le> p3" "p3 \<le> p4" using p by linarith+
  note reads = GetString_take [OF parts(1) len _ k, unfolded p] GetString_take [OF parts(2) len _ k, unfolded p]
    GetString_take [OF parts(3) len _ k, unfolded p] GetIntNumber_take [OF parts(4) len _ k, unfolded p]
    GetString_take [OF parts(5) len _ k, unfolded p]
  consider "k < p1" | "p1 \<le> k" "k < p2" | "p2 \<le> k" "k < p3" | "p3 \<le> k" "k < p4" | "p4 \<le> k" by linarith
  then show ?thesis
  proof cases
    case 1 with cut order show ?thesis by (simp add: reads sx_simps)
  next
    case 2 with cut order show ?thesis by (simp add: reads sx_simps)
  next
    case 3 with cut order show ?thesis by (simp add: reads sx_simps)
  next
    case 4 with cut order show ?thesis by (simp add: reads sx_simps)
  next
    case 5 with cut order show ?thesis by (simp add: reads sx_simps)
  qed
qed

lemma deserialize_cut:
  assumes "json_lib_ok lib" and "hash_ok add" and "length info < 2 ^ 31" and "k < length info"
    and "serialize_entries lib ob d = Inr bs" and "stands info i bs" and "list_all (entry_plain ob) d"
    and "i \<le> k" and "k < i + length bs"
  shows "\<exists>t'. deserialize_entries lib add (take k info) (length d) i t = (Inl OutOfBounds, t')"
  using assms(5-9)
proof (induction d arbitrary: bs i t)
  case Nil
  then show ?case by simp
next
  case (Cons e d)
  obtain key a where e: "e = (key, a)" by (cases e)
  have plain: "entry_plain ob (key, a)" and plain': "list_all (entry_plain ob) d"
    using Cons.prems(3) by (simp_all add: e)
  obtain tx rest where tx: "AuthenticationResult_deserialize lib tx = Inr (stored_result (ob a))"
      "serialize_entries lib ob d = Inr rest" "bs = entry_bytes key tx @ rest"
    using serialized_first [OF assms(1) Cons.prems(1) [unfolded e] plain] .
  let ?j = "i + length (entry_bytes key tx)"
  have st: "stands info i (entry_bytes key tx)" "stands info ?j rest"
    using Cons.prems(2) by (simp_all add: tx(3) stands_append)
  show ?case
  proof (cases "?j \<le> k")
    case True
    have "length (take k info) < 2 ^ 31" using assms(3) by simp
    then obtain key' where "deserialize_entries lib add (take k info) (Suc (length d)) i t =
        deserialize_entries lib add (take k info) (length d) ?j (insert_loaded add key' (stored_result (ob a)) t)"
      using deserialize_entry [OF stands_take [OF st(1) True] _ tx(1) plain] by blast
    moreover have "k < ?j + length rest" using Cons.prems(5) by (simp add: tx(3))
    ultimately show ?thesis using Cons.IH [OF tx(2) st(2) plain' True] by (simp only: length_Cons)
  next
    case False
    then have "deserialize_entries lib add (take k info) (Suc (length d)) i t = (Inl OutOfBounds, t)"
      using Cons.prems(4) by (intro deserialize_entry_cut [OF st(1) assms(3,4) tx(1)]) simp_all
    then show ?thesis by auto
  qed
qed

text \<open>
  The reader of a saved state does not know where it ends: every proper, non-empty
  prefix of a state makes it read outside of the buffer.
\<close>

theorem truncated_state_overread:
  assumes "json_lib_ok lib" and "hash_ok add" and "cache_plain s" and "tc_serialize lib s = Inr bytes"
    and "length bytes < 2 ^ 31" and "0 < k" and "k < length bytes"
  shows "\<exists>t'. tc_deserialize lib add (take k bytes) t = (Inl OutOfBounds, t')"
proof -
  let ?d = "ts_dictionary s"
  obtain entries where en: "serialize_entries lib (ts_objects s) ?d = Inr entries"
      "bytes = Int2Uint8 SchemaVersion @ Int2Uint8 (tc_count s) @ entries"
    using assms(4) by (auto simp: tc_serialize_def bindE_eq_Inr)
  have plain: "list_all (entry_plain (ts_objects s)) ?d" using assms(3) by (simp add: cache_plain_def)
  have "length ?d \<le> length entries" using serialize_entries_total [OF assms(1) plain] en(1) by auto
  then have cnt: "nat (tc_count s mod 2 ^ 32) = length ?d"
    using en(2) assms(5) by (simp add: tc_count_def as_int_mod_small)
  have "stands bytes 0 (Int2Uint8 SchemaVersion @ Int2Uint8 (tc_count s) @ entries)"
    unfolding stands_def using en(2) by (intro exI [of _ "[]"]) simp
  then have parts: "stands bytes 0 (Int2Uint8 SchemaVersion)" "stands bytes 4 (Int2Uint8 (tc_count s))"
      "stands bytes 8 entries" by (simp_all add: stands_append)
  have len: "length bytes = 8 + length entries" using en(2) by simp
  note reads = GetIntNumber_take [OF parts(1) assms(5) _ assms(7)] GetIntNumber_take [OF parts(2) assms(5) _ assms(7)]
  have ne: "take k bytes \<noteq> []" using assms(6,7) by auto
  show ?thesis
  proof (cases "8 \<le> k")
    case True
    then show ?thesis
      using deserialize_cut [OF assms(1,2,5,7) en(1) parts(3) plain True, of t] len assms(7) ne cnt
      by (simp add: tc_deserialize_def reads SchemaVersion_def sx_simps)
  next
    case False
    then show ?thesis using ne by (auto simp: tc_deserialize_def reads SchemaVersion_def sx_simps)
  qed
qed

section \<open>The encrypted cache file\<close>

definition key_env_ok :: "'k key_env \<Rightarrow> 'k libsecret \<Rightarrow> ('k \<Rightarrow> string \<Rightarrow> string option) \<Rightarrow> byte list \<Rightarrow> bool" where
  "key_env_ok ke sec view key \<longleftrightarrow> evp_ok (ke_lib ke) \<and> ke_storage ke = IKeyStorage_Create sec \<and>
     secret_ok sec view \<and> valid_key key \<and> 0 < ke_fuel ke"

lemma default_name: "CHR 0x00 \<notin> set ''default''"
  by simp

lemma encrypt_cache_ok:
  assumes "key_env_ok ke sec view key"
    and "key_after (view (ts_keys s) ''default'') (ke_rnd ke (ts_keys s)) = Some (base64_encode key)"
    and "length bytes + CBC4K_BLOCK_SIZE < 2 ^ 31"
  shows "\<exists>k1. encrypt_cache ke bytes s = (Inr (cbc4k_text (cbc4k_of (ke_lib ke) key) 0 bytes), s\<lparr>ts_keys := k1\<rparr>) \<and>
    view k1 ''default'' = Some (base64_encode key)"
proof -
  have ok: "evp_ok (ke_lib ke)" "secret_ok sec view" "valid_key key" "ke_storage ke = IKeyStorage_Create sec"
    using assms(1) by (simp_all add: key_env_ok_def)
  obtain f where f: "ke_fuel ke = Suc f" using assms(1) by (auto simp: key_env_ok_def gr0_conv_Suc)
  obtain k1 where "EncryptWithAutoKey (Suc f) (IKeyStorage_Create sec) (ke_rnd ke (ts_keys s)) (ke_lib ke) (ke_junk ke)
      bytes CIPHER_MODE_CBC4K ''default'' (ts_keys s) = (Inr (cbc4k_text (cbc4k_of (ke_lib ke) key) 0 bytes), k1)"
      "view k1 ''default'' = Some (base64_encode key)"
    using encrypt_auto_key [where lib = "ke_lib ke" and view = view and k = "ts_keys s" and name = "''default''" and
        rnd = "ke_rnd ke (ts_keys s)" and P = bytes, OF ok(1-3) default_name assms(2,3)] by blast
  then show ?thesis using ok(4) f by (intro exI [of _ k1]) (simp add: encrypt_cache_def run_keys_def)
qed

lemma decrypt_cache_ok:
  assumes "key_env_ok ke sec view key" and "view (ts_keys s) ''default'' = Some (base64_encode key)"
    and "length bytes + 2 * CBC4K_BLOCK_SIZE < 2 ^ 31"
  shows "\<exists>k1. decrypt_cache ke (cbc4k_text (cbc4k_of (ke_lib ke) key) 0 bytes) s = (Inr bytes, s\<lparr>ts_keys := k1\<rparr>)"
proof -
  have ok: "evp_ok (ke_lib ke)" "secret_ok sec view" "valid_key key" "ke_storage ke = IKeyStorage_Create sec"
    using assms(1) by (simp_all add: key_env_ok_def)
  obtain f where f: "ke_fuel ke = Suc f" using assms(1) by (auto simp: key_env_ok_def gr0_conv_Suc)
  obtain k1 where "DecryptWithAutoKey (Suc f) (IKeyStorage_Create sec) (ke_rnd ke (ts_keys s)) (ke_lib ke) (ke_junk ke)
      (cbc4k_text (cbc4k_of (ke_lib ke) key) 0 bytes) CIPHER_MODE_CBC4K ''default'' (ts_keys s) = (Inr bytes, k1)"
    using decrypt_auto_key [where lib = "ke_lib ke" and view = view and k = "ts_keys s" and name = "''default''" and
        P = bytes, OF ok(1-3) default_name assms(2,3)] by blast
  then show ?thesis using ok(4) f by (intro exI [of _ k1]) (simp add: decrypt_cache_def run_keys_def)
qed

text \<open>A write leaves the ciphertext behind what was in the file.\<close>

lemma encrypted_write:
  assumes "key_env_ok ke sec view key"
    and "key_after (view (ts_keys s) ''default'') (ke_rnd ke (ts_keys s)) = Some (base64_encode key)"
    and "ts_hasStateChanged s" and "ts_writable s" and "tc_serialize lib s = Inr bytes"
    and "length bytes + CBC4K_BLOCK_SIZE < 2 ^ 31"
  shows "\<exists>s'. cc_onAfterAccess (FileCacheEncrypted_class ke lib add) s = (Inr (), s') \<and>
    ts_file s' = Some ((case ts_file s of None \<Rightarrow> [] | Some old \<Rightarrow> old) @
      cbc4k_text (cbc4k_of (ke_lib ke) key) 0 bytes) \<and>
    view (ts_keys s') ''default'' = Some (base64_encode key) \<and>
    ts_objects s' = ts_objects s \<and> ts_dictionary s' = ts_dictionary s"
proof -
  let ?old = "case ts_file s of None \<Rightarrow> [] | Some old \<Rightarrow> old"
  let ?s1 = "s\<lparr>ts_file := Some ?old\<rparr>"
  obtain k1 where k1: "encrypt_cache ke bytes ?s1 =
      (Inr (cbc4k_text (cbc4k_of (ke_lib ke) key) 0 bytes), ?s1\<lparr>ts_keys := k1\<rparr>)"
      "view k1 ''default'' = Some (base64_encode key)"
    using encrypt_cache_ok [OF assms(1), of ?s1 bytes] assms(2,6) by auto
  have "tc_serialize lib ?s1 = Inr bytes" using assms(5) by (simp add: tc_serialize_def tc_count_def)
  then show ?thesis
    using assms(3,4) k1
    by (auto simp: FileCacheEncrypted_class_def file_cache_class_def fc_onAfterAccess_def fce_writeCache_def sx_simps)
qed

text \<open>Reading leaves the flag of a change alone.\<close>

lemma deserialize_entries_flag:
  "deserialize_entries lib add info n i s = (r, s') \<Longrightarrow> ts_hasStateChanged s' = ts_hasStateChanged s"
proof (induction n arbitrary: i s)
  case (Suc n)
  then show ?case by (auto simp: sx_simps new_result_def split: sum.splits prod.splits)
qed (simp add: sx_simps)

lemma deserialize_flag: "tc_deserialize lib add info s = (r, s') \<Longrightarrow> ts_hasStateChanged s' = ts_hasStateChanged s"
  by (auto simp: tc_deserialize_def sx_simps deserialize_entries_flag split: if_splits sum.splits prod.splits)

text \<open>A cache that can be saved, with room for what an encryption adds.\<close>

definition cache_savable :: "json_lib \<Rightarrow> (entry list \<Rightarrow> entry \<Rightarrow> entry list) \<Rightarrow> nat \<Rightarrow> 'k token_state \<Rightarrow> bool" where
  "cache_savable lib add room s \<longleftrightarrow> json_lib_ok lib \<and> hash_ok add \<and> cache_plain s \<and> ts_writable s \<and>
     (\<exists>bytes. tc_serialize lib s = Inr bytes \<and> length bytes + room < 2 ^ 31)"

lemma encrypted_cache_saved:
  assumes "cache_savable lib add (2 * CBC4K_BLOCK_SIZE) s" and "key_env_ok ke sec view key"
    and "key_after (view (ts_keys s) ''default'') (ke_rnd ke (ts_keys s)) = Some (base64_encode key)"
    and "ts_file s = None" and "ts_hasStateChanged s" and "cache_wf t"
  shows "\<exists>s'. cc_onAfterAccess (FileCacheEncrypted_class ke lib add) s = (Inr (), s') \<and> ts_objects s' = ts_objects s \<and>
    ts_dictionary s' = ts_dictionary s \<and> (ts_file t = ts_file s' \<longrightarrow> ts_keys t = ts_keys s' \<longrightarrow>
      (\<exists>t'. cc_onBeforeAccess (FileCacheEncrypted_class ke lib add) t = (Inr (), t') \<and> ts_hasStateChanged t' = ts_hasStateChanged t \<and>
         cache_wf t' \<and> cache_map t' = (map_option stored_result \<circ> cache_map s) ++ cache_map t))"
proof -
  obtain bytes where b: "tc_serialize lib s = Inr bytes" "length bytes + 2 * CBC4K_BLOCK_SIZE < 2 ^ 31" "cache_plain s"
    and ok: "json_lib_ok lib" "hash_ok add" "ts_writable s"
    using assms(1) by (auto simp: cache_savable_def)
  let ?c = "cbc4k_text (cbc4k_of (ke_lib ke) key) 0 bytes"
  have "length bytes + CBC4K_BLOCK_SIZE < 2 ^ 31" "length bytes < 2 ^ 31" using b(2) by linarith+
  then obtain s' where s': "cc_onAfterAccess (FileCacheEncrypted_class ke lib add) s = (Inr (), s')" "ts_file s' = Some ?c"
      "view (ts_keys s') ''default'' = Some (base64_encode key)" "ts_objects s' = ts_objects s" "ts_dictionary s' = ts_dictionary s"
    using encrypted_write [OF assms(2,3,5) ok(3) b(1)] assms(4) by auto
  have "cbc4k_valid (cbc4k_of (ke_lib ke) key)" using assms(2) cbc4k_of_valid by (auto simp: key_env_ok_def)
  then have ne: "?c \<noteq> []" using length_cbc4k_text [of "cbc4k_of (ke_lib ke) key" 0 bytes] by auto
  have "\<exists>t'. cc_onBeforeAccess (FileCacheEncrypted_class ke lib add) t = (Inr (), t') \<and> ts_hasStateChanged t' = ts_hasStateChanged t \<and>
      cache_wf t' \<and> cache_map t' = (map_option stored_result \<circ> cache_map s) ++ cache_map t"
    if f: "ts_file t = Some ?c" and k: "ts_keys t = ts_keys s'"
  proof -
    obtain k1 where k1: "decrypt_cache ke ?c t = (Inr bytes, t\<lparr>ts_keys := k1\<rparr>)"
      using decrypt_cache_ok [OF assms(2) _ b(2), of t] s'(3) k by auto
    have "cache_wf (t\<lparr>ts_keys := k1\<rparr>)" using assms(6) by (simp add: cache_wf_def)
    then obtain t' where t': "tc_deserialize lib add bytes (t\<lparr>ts_keys := k1\<rparr>) = (Inr (), t')" "cache_wf t'"
        "cache_map t' = (map_option stored_result \<circ> cache_map s) ++ cache_map (t\<lparr>ts_keys := k1\<rparr>)"
      using tc_deserialize_saved [OF ok(1,2) b(1) \<open>length bytes < 2 ^ 31\<close> b(3)] by blast
    have "cc_onBeforeAccess (FileCacheEncrypted_class ke lib add) t = (Inr (), t')"
      using f ne k1 t'(1) by (simp add: FileCacheEncrypted_class_def file_cache_class_def fce_readCache_def sx_simps)
    moreover have "cache_map (t\<lparr>ts_keys := k1\<rparr>) = cache_map t" by (simp add: cache_map_def)
    ultimately show ?thesis using t' deserialize_flag [OF t'(1)] by simp
  qed
  then show ?thesis using s' by auto
qed

text \<open>
  C9: an encrypted cache that is written to a new file is found by the next process with
  the same keyring: through the JSON library, the byte format, the cipher and the keyring
  it is the same map.
\<close>

theorem encrypted_cache_found:
  assumes "json_lib_ok lib" and "hash_ok add" and "key_env_ok ke sec view key"
    and "key_after (view (ts_keys s) ''default'') (ke_rnd ke (ts_keys s)) = Some (base64_encode key)"
    and "ts_hasStateChanged s" and "ts_writable s" and "ts_file s = None" and "cache_plain s"
    and "tc_serialize lib s = Inr bytes" and "length bytes + 2 * CBC4K_BLOCK_SIZE < 2 ^ 31" and "cache_wf t"
  shows "\<exists>s' t'. cc_onAfterAccess (FileCacheEncrypted_class ke lib add) s = (Inr (), s') \<and>
    cc_onBeforeAccess (FileCacheEncrypted_class ke lib add) (t\<lparr>ts_file := ts_file s', ts_keys := ts_keys s'\<rparr>) = (Inr (), t') \<and>
    cache_map t' = (map_option stored_result \<circ> cache_map s) ++ cache_map t"
proof -
  let ?v = "FileCacheEncrypted_class ke lib add"
  have sav: "cache_savable lib add (2 * CBC4K_BLOCK_SIZE) s"
    using assms(1,2,6,8-10) by (simp add: cache_savable_def)
  note saved = encrypted_cache_saved [OF sav assms(3,4,7,5)]
  obtain s' where s': "cc_onAfterAccess ?v s = (Inr (), s')" using saved [OF assms(11)] by blast
  have "cache_wf (t\<lparr>ts_file := ts_file s', ts_keys := ts_keys s'\<rparr>)" using assms(11) by (simp add: cache_wf_def)
  then show ?thesis using saved [of "t\<lparr>ts_file := ts_file s', ts_keys := ts_keys s'\<rparr>"] s' by (auto simp: cache_map_def)
qed

text \<open>
  A second write does not replace the first. The file is opened to append, so the new
  ciphertext goes behind the old one, and a reader takes the whole file for one ciphertext:
  what it decrypts first is the state that was written first.
\<close>

theorem encrypted_cache_appends:
  assumes "key_env_ok ke sec view key"
    and "key_after (view (ts_keys s) ''default'') (ke_rnd ke (ts_keys s)) = Some (base64_encode key)"
    and "ts_hasStateChanged s" and "ts_writable s" and "ts_file s = Some old" and "old \<noteq> []"
    and "tc_serialize lib s = Inr bytes" and "length bytes + CBC4K_BLOCK_SIZE < 2 ^ 31"
  shows "\<exists>s'. cc_onAfterAccess (FileCacheEncrypted_class ke lib add) s = (Inr (), s') \<and>
    ts_file s' = Some (old @ cbc4k_text (cbc4k_of (ke_lib ke) key) 0 bytes) \<and>
    cc_onBeforeAccess (FileCacheEncrypted_class ke lib add) s' =
      bnd (decrypt_cache ke (old @ cbc4k_text (cbc4k_of (ke_lib ke) key) 0 bytes)) (tc_deserialize lib add) s'"
  using encrypted_write [OF assms(1-4,7,8), of add] assms(5,6)
  by (auto simp: FileCacheEncrypted_class_def file_cache_class_def fce_readCache_def sx_simps)

text \<open>A cache with results for two resources.\<close>

definition sample_result :: "string \<Rightarrow> AuthenticationResult" where
  "sample_result token =
     \<lparr>ar_accessTokenType = ''B'', ar_accessToken = token, ar_resource = [], ar_refreshToken = [], ar_expiresOn = 9,
      ar_tenantId = ''t'', ar_userInfo = None, ar_idToken = [], ar_isMultipleResourceRefreshToken = False\<rparr>"

definition sample_key :: "string \<Rightarrow> TokenCacheKey" where
  "sample_key resource = TokenCacheKey_create ''A'' resource ''C'' SubjectUser None"

definition sample_cache :: "unit token_state" where
  "sample_cache =
     \<lparr>ts_objects = (\<lambda>a. if a = 0 then sample_result ''x'' else sample_result ''y''), ts_next = 2,
      ts_dictionary = [(sample_key ''r'', 0), (sample_key ''s'', 1)], ts_hasStateChanged = False, ts_file = None,
      ts_writable = True, ts_keys = ()\<rparr>"

definition empty_cache :: "unit token_state" where
  "empty_cache = sample_cache\<lparr>ts_dictionary := []\<rparr>"

definition add_front :: "entry list \<Rightarrow> entry \<Rightarrow> entry list" where
  "add_front d e = e # d"

lemma add_front_ok: "hash_ok add_front"
  by (simp add: hash_ok_def add_front_def)

lemma sample_plain: "cache_plain sample_cache"
  unfolding cache_plain_def entry_plain_def by code_simp

lemma sample_wf: "cache_wf sample_cache"
  unfolding cache_wf_def keys_distinct_def by code_simp

lemma empty_wf: "cache_wf empty_cache"
  unfolding cache_wf_def keys_distinct_def by code_simp

lemma sample_result_text:
  "AuthenticationResult_serialize tally_json (sample_result tok) = Inr tx \<Longrightarrow>
   length tx = 248 + 2 * length tok"
  by (auto simp: AuthenticationResult_serialize_def result_json_def insertString_def sample_result_def json_dump_def
      tally_json_def tally_def as_int_def)

lemma sample_length:
  assumes "tc_serialize tally_json sample_cache = Inr bytes"
  shows "length bytes = 554"
  using assms sample_result_text [of "''x''"] sample_result_text [of "''y''"]
  by (auto simp: tc_serialize_def sample_cache_def sample_key_def TokenCacheKey_create_def user_unique_id_def
      Str2Uint8_def bindE_eq_Inr)

theorem token_cache_save_load_witness:
  "\<exists>bytes t'. tc_serialize tally_json sample_cache = Inr bytes \<and>
     tc_deserialize tally_json add_front bytes empty_cache = (Inr (), t') \<and>
     cache_map t' = (map_option stored_result \<circ> cache_map sample_cache) ++ cache_map empty_cache"
  using token_cache_save_load [OF tally_json_ok add_front_ok sample_plain empty_wf] sample_length by fastforce

definition stored_sample :: "unit token_state" where
  "stored_sample = snd (new_result (sample_result ''z'') sample_cache)"

lemma stored_sample_wf: "cache_wf stored_sample"
  unfolding cache_wf_def keys_distinct_def by code_simp

lemma stored_sample_fresh: "2 < ts_next stored_sample" "2 \<notin> snd ` set (ts_dictionary stored_sample)"
  by code_simp+

lemma no_notice: "cc_onBeforeWrite token_cache_class = ret ()"
  by (simp add: token_cache_class_def)

theorem store_refines_witness:
  "\<exists>s'. storeToCache add_front token_cache_class 2 ''A'' ''q'' ''C'' SubjectUser stored_sample = (Inr (), s') \<and>
     cache_wf s' \<and> cache_map s' = spec_store ''A'' ''q'' ''C'' SubjectUser (ts_objects stored_sample 2) (cache_map stored_sample)"
  by (rule store_refines [OF add_front_ok stored_sample_wf stored_sample_fresh no_notice])

theorem stored_token_loads_witness:
  "\<exists>s'. storeToCache add_front token_cache_class 2 ''Z'' ''q'' ''C'' SubjectUser stored_sample = (Inr (), s') \<and>
     loadFromCache \<lparr>dt_time = - 300, dt_gmt_off = 0\<rparr> ''Z'' ''q'' ''C'' SubjectUser [] s' = (Some 2, s') \<and>
     ts_objects s' 2 = ts_objects stored_sample 2"
proof (rule stored_token_loads [OF add_front_ok stored_sample_wf stored_sample_fresh no_notice])
  fix k
  assume "cache_map stored_sample k \<noteq> None" and ans: "answers ''Z'' ''C'' SubjectUser [] k"
  then have "k \<in> (norm_key \<circ> fst) ` set (ts_dictionary stored_sample)"
    by (simp add: cache_map_def entries_map_None)
  moreover have "list_all (\<lambda>e. fst (norm_key (fst e)) = ''a'') (ts_dictionary stored_sample)" by code_simp
  ultimately have "fst k = ''a''" by (auto simp: list_all_iff)
  moreover have "to_lower_string ''Z'' = ''z''" by code_simp
  ultimately show "k = norm_key (TokenCacheKey_create ''Z'' ''q'' ''C'' SubjectUser
      (ar_userInfo (ts_objects stored_sample 2)))"
    using ans by (auto simp: answers_def)
qed (simp_all add: stored_sample_def new_result_def sample_cache_def sample_result_def)

theorem load_takes_first_witness:
  "\<exists>s'. loadFromCache \<lparr>dt_time = - 300, dt_gmt_off = 0\<rparr> ''A'' ''s'' ''C'' SubjectUser [] sample_cache = (None, s') \<and>
     ts_dictionary s' = hm_erase (sample_key ''r'') (ts_dictionary sample_cache)"
  by (rule load_takes_first [of _ _ _ _ _ _ 0 "[(sample_key ''s'', 1)]"]; code_simp)

definition mrrt_cache :: "unit token_state" where
  "mrrt_cache = sample_cache
     \<lparr>ts_objects := (\<lambda>_. (sample_result ''x'')\<lparr>ar_refreshToken := ''f'', ar_isMultipleResourceRefreshToken := True\<rparr>),
      ts_dictionary := [(sample_key ''r'', 0)]\<rparr>"

lemma mrrt_cache_wf: "cache_wf mrrt_cache"
  unfolding cache_wf_def keys_distinct_def by code_simp

theorem mrrt_load_blanks_token_witness:
  "\<exists>s'. loadFromCache \<lparr>dt_time = - 300, dt_gmt_off = 0\<rparr> ''A'' ''q'' ''C'' SubjectUser [] mrrt_cache = (Some 0, s') \<and>
     cache_map s' = (cache_map mrrt_cache)(norm_key (sample_key ''r'') \<mapsto> (ts_objects mrrt_cache 0)\<lparr>ar_accessToken := []\<rparr>)"
  by (rule mrrt_load_blanks_token [OF mrrt_cache_wf]; code_simp)

theorem truncated_state_overread_witness:
  "\<exists>bytes t'. tc_serialize tally_json sample_cache = Inr bytes \<and>
     tc_deserialize tally_json add_front (take 100 bytes) empty_cache = (Inl OutOfBounds, t')"
proof -
  obtain bytes where b: "tc_serialize tally_json sample_cache = Inr bytes"
    using token_cache_total [OF tally_json_ok sample_plain] by blast
  have "100 < length bytes" using sample_length [OF b] by simp
  then show ?thesis
    using b sample_length [OF b] truncated_state_overread [OF tally_json_ok add_front_ok sample_plain b, of 100] by auto
qed

definition file_sample :: "byte list option \<Rightarrow> (string \<Rightarrow> string option) token_state" where
  "file_sample old =
     \<lparr>ts_objects = ts_objects sample_cache, ts_next = 2, ts_dictionary = ts_dictionary sample_cache,
      ts_hasStateChanged = True, ts_file = old, ts_writable = True, ts_keys = Map.empty\<rparr>"

definition sample_env :: "(string \<Rightarrow> string option) key_env" where
  "sample_env = \<lparr>ke_fuel = 1, ke_storage = IKeyStorage_Create memory_keyring, ke_rnd = \<lambda>_. (1, replicate 16 7),
     ke_lib = xor_evp, ke_junk = 0\<rparr>"

lemma sample_env_ok: "key_env_ok sample_env memory_keyring (\<lambda>k. k) (replicate 16 7)"
  by (simp add: key_env_ok_def sample_env_def xor_evp_ok memory_keyring_ok valid_key_def)

lemma sample_key_after: "key_after (ts_keys (file_sample old) ''default'') (ke_rnd sample_env (ts_keys (file_sample old))) =
    Some (base64_encode (replicate 16 7))"
  by (simp add: key_after_def file_sample_def sample_env_def)

lemma file_sample_same:
  "tc_serialize tally_json (file_sample old) = tc_serialize tally_json sample_cache"
  "cache_plain (file_sample old) \<longleftrightarrow> cache_plain sample_cache" "cache_map (file_sample old) = cache_map sample_cache"
  "cache_wf (file_sample old) \<longleftrightarrow> cache_wf sample_cache"
  "ts_hasStateChanged (file_sample old)" "ts_writable (file_sample old)" "ts_file (file_sample old) = old"
  by (simp_all add: file_sample_def tc_serialize_def tc_count_def cache_plain_def cache_map_def cache_wf_def)
     (simp_all add: sample_cache_def)

theorem encrypted_cache_found_witness:
  "\<exists>s' t'. cc_onAfterAccess (FileCacheEncrypted_class sample_env tally_json add_front) (file_sample None) = (Inr (), s') \<and>
    cc_onBeforeAccess (FileCacheEncrypted_class sample_env tally_json add_front)
      ((file_sample None)\<lparr>ts_file := ts_file s', ts_keys := ts_keys s'\<rparr>) = (Inr (), t') \<and>
    cache_map t' = (map_option stored_result \<circ> cache_map (file_sample None)) ++ cache_map (file_sample None)"
proof -
  obtain bytes where b: "tc_serialize tally_json (file_sample None) = Inr bytes" "length bytes = 554"
    using token_cache_total [OF tally_json_ok sample_plain] sample_length by (auto simp: file_sample_same)
  show ?thesis
    by (rule encrypted_cache_found [OF tally_json_ok add_front_ok sample_env_ok sample_key_after _ _ _ _ b(1)])
      (simp_all add: file_sample_same sample_plain sample_wf b(2) CBC4K_BLOCK_SIZE_def)
qed

theorem encrypted_cache_appends_witness:
  "\<exists>bytes s'. cc_onAfterAccess (FileCacheEncrypted_class sample_env tally_json add_front) (file_sample (Some [1])) = (Inr (), s') \<and>
    ts_file s' = Some ([1] @ cbc4k_text (cbc4k_of (ke_lib sample_env) (replicate 16 7)) 0 bytes) \<and>
    cc_onBeforeAccess (FileCacheEncrypted_class sample_env tally_json add_front) s' =
      bnd (decrypt_cache sample_env ([1] @ cbc4k_text (cbc4k_of (ke_lib sample_env) (replicate 16 7)) 0 bytes))
        (tc_deserialize tally_json add_front) s'"
proof -
  obtain bytes where b: "tc_serialize tally_json (file_sample (Some [1])) = Inr bytes" "length bytes = 554"
    using token_cache_total [OF tally_json_ok sample_plain] sample_length by (auto simp: file_sample_same)
  have "length bytes + CBC4K_BLOCK_SIZE < 2 ^ 31" using b(2) by (simp add: CBC4K_BLOCK_SIZE_def)
  from encrypted_cache_appends [OF sample_env_ok sample_key_after _ _ _ _ b(1) this, of "[1]" add_front]
  show ?thesis by (auto simp: file_sample_same)
qed

end
