(* ===== verification/Uri.thy ===== *)
theory Uri
  imports IniFile StdStrings
begin

text \<open>
  URIs as the RMS layer parses them (\<open>rms_sdk/Platform/Http/UriQt.cpp\<close>): a regular
  expression with two optional groups, which matches every text, and a port read by
  \<open>std::stoi\<close>. No text is refused.
\<close>

record UriQt =
  uri_text :: string
  uri_scheme :: string
  uri_host :: string
  uri_port :: int

text \<open>\<open>substr\<close> throws when the position is behind the end.\<close>

definition std_substr :: "string \<Rightarrow> nat \<Rightarrow> nat \<Rightarrow> exn + string" where
  "std_substr s pos len = (if length s < pos then Inl StdRangeError else Inr (take len (drop pos s)))"

text \<open>\<open>std::stoi\<close>; \<open>None\<close> is either of its two exceptions.\<close>

definition stoi :: "string \<Rightarrow> int option" where
  "stoi str =
     (case strtol (c_str str) of (v, rest) \<Rightarrow>
        if rest = c_str str then None
        else if - (2 ^ 31) \<le> v \<and> v < 2 ^ 31 then Some v else None)"

text \<open>The group \<open>(?:([^:/?#]+):)?\<close>, and \<open>(?://([^/?#]*))?\<close> on what follows it.\<close>

definition uri_scheme_part :: "string \<Rightarrow> string \<times> string" where
  "uri_scheme_part uri =
     (let s = takeWhile (\<lambda>c. c \<notin> set '':/?#'') uri; r = drop (length s) uri
      in if s \<noteq> [] \<and> take 1 r = '':'' then (s, drop 1 r) else ([], uri))"

definition uri_authority_part :: "string \<Rightarrow> string" where
  "uri_authority_part r =
     (if take 2 r = ''//'' then takeWhile (\<lambda>c. c \<notin> set ''/?#'') (drop 2 r) else [])"

definition UriQt_create :: "string \<Rightarrow> UriQt" where
  "UriQt_create uri =
     (case uri_scheme_part uri of (scheme, r) \<Rightarrow>
      let authority = uri_authority_part r
      in case find_str '':'' authority 0 of
           Some pos \<Rightarrow>
             \<lparr>uri_text = uri, uri_scheme = scheme, uri_host = take pos authority,
              uri_port = (case stoi (drop (pos + 1) authority) of None \<Rightarrow> - 1 | Some p \<Rightarrow> p)\<rparr>
         | None \<Rightarrow> \<lparr>uri_text = uri, uri_scheme = scheme, uri_host = authority, uri_port = - 1\<rparr>)"

definition IUri_Create :: "string \<Rightarrow> exn + UriQt" where
  "IUri_Create uri = Inr (UriQt_create uri)"

text \<open>What is parsed of a text with a scheme, a host and perhaps a path.\<close>

lemma UriQt_of_parts:
  assumes "scheme \<noteq> []" and "set scheme \<inter> set '':/?#'' = {}" and "set host \<inter> set '':/?#'' = {}"
    and "path = [] \<or> hd path \<in> set ''/?#''"
  shows "UriQt_create (scheme @ ''://'' @ host @ path) =
    \<lparr>uri_text = scheme @ ''://'' @ host @ path, uri_scheme = scheme, uri_host = host, uri_port = - 1\<rparr>"
proof -
  have "takeWhile (\<lambda>c. c \<notin> set '':/?#'') (scheme @ ''://'' @ host @ path) = scheme"
    using assms(2) by (subst takeWhile_append2) auto
  then have s: "uri_scheme_part (scheme @ ''://'' @ host @ path) = (scheme, ''//'' @ host @ path)"
    using assms(1) by (simp add: uri_scheme_part_def Let_def)
  have "takeWhile (\<lambda>c. c \<notin> set ''/?#'') (host @ path) = host"
    using assms(3,4) by (subst takeWhile_append2) (auto simp: takeWhile_eq_Nil_iff)
  then have "uri_authority_part (''//'' @ host @ path) = host"
    by (simp add: uri_authority_part_def)
  moreover have "CHR '':'' \<notin> set host" using assms(3) by auto
  ultimately show ?thesis using s by (simp add: UriQt_create_def find_char)
qed

end
