(* ===== verification/RmsJson.thy ===== *)
theory RmsJson
  imports RestObjects DateTime JsonValues Uri
begin

text \<open>
  JSON in the RMS layer: the wrappers of the nlohmann library
  (\<open>rms_sdk/Platform/Json/JsonObjectQt.cpp\<close>, \<open>JsonArrayQt.cpp\<close>, \<open>JsonParserQt.cpp\<close>) and the
  serializer of the REST clients (\<open>rms_sdk/Json/jsonserializer.cpp\<close>). Of the library the
  model uses what it documents: a vector of bytes becomes an array of numbers; the
  iterators of a value that is no container run over the one value itself; a value of
  another type than the one asked for is a \<open>type_error\<close>, which is a standard exception and
  no exception of the RMS layer.
\<close>

section \<open>Objects\<close>

definition jo_IsNull :: "json \<Rightarrow> string \<Rightarrow> exn + bool" where
  "jo_IsNull impl name =
     (case json_find impl name of
        Some v \<Rightarrow> Inr (v = JNull)
      | None \<Rightarrow> Inl (RMSInvalidArgumentException ''JsonObjectQt::IsNull: Name doesn't exist''))"

definition jo_HasName :: "json \<Rightarrow> string \<Rightarrow> bool" where
  "jo_HasName impl name \<longleftrightarrow> json_find impl name \<noteq> None"

definition jo_GetNamedString :: "json \<Rightarrow> string \<Rightarrow> string \<Rightarrow> exn + string" where
  "jo_GetNamedString impl name defaultValue =
     (case json_find impl name of
        None \<Rightarrow> Inr defaultValue
      | Some JNull \<Rightarrow> Inr defaultValue
      | Some (JString s) \<Rightarrow> Inr s
      | Some _ \<Rightarrow> Inl (RMSInvalidArgumentException ''JsonObjectQt::GetNamedString: convertion error''))"

definition jo_GetNamedBool :: "json \<Rightarrow> string \<Rightarrow> bool \<Rightarrow> exn + bool" where
  "jo_GetNamedBool impl name bDefaultValue =
     (case json_find impl name of
        None \<Rightarrow> Inr bDefaultValue
      | Some JNull \<Rightarrow> Inr bDefaultValue
      | Some (JBool b) \<Rightarrow> Inr b
      | Some _ \<Rightarrow> Inl (RMSInvalidArgumentException ''JsonObjectQt::GetNamedBool: convertion error''))"

definition jo_GetNamedNumber :: "json \<Rightarrow> string \<Rightarrow> rat \<Rightarrow> exn + rat" where
  "jo_GetNamedNumber impl name fDefaultValue =
     (case json_find impl name of
        None \<Rightarrow> Inr fDefaultValue
      | Some JNull \<Rightarrow> Inr fDefaultValue
      | Some (JInt i) \<Rightarrow> Inr (of_int i)
      | Some (JFloat q) \<Rightarrow> Inr q
      | Some _ \<Rightarrow> Inl (RMSInvalidArgumentException ''JsonObjectQt::GetNamedNumber: convertion error''))"

text \<open>A null pointer is \<open>None\<close>.\<close>

definition jo_GetNamedObject :: "json \<Rightarrow> string \<Rightarrow> exn + json option" where
  "jo_GetNamedObject impl name =
     (case json_find impl name of
        None \<Rightarrow> Inr None
      | Some (JObject xs) \<Rightarrow> Inr (Some (JObject xs))
      | Some _ \<Rightarrow> Inl (RMSInvalidArgumentException ''JsonObjectQt::GetNamedObject: convertion error''))"

definition jo_GetNamedArray :: "json \<Rightarrow> string \<Rightarrow> exn + json option" where
  "jo_GetNamedArray impl name =
     (case json_find impl name of
        None \<Rightarrow> Inr None
      | Some (JArray xs) \<Rightarrow> Inr (Some (JArray xs))
      | Some _ \<Rightarrow> Inl (RMSInvalidArgumentException ''the value is not an array''))"

text \<open>
  \<open>ByteArray(val.begin(), val.end())\<close> of a string: the range has one element, the string,
  which is converted to a \<open>uint8_t\<close>.
\<close>

definition jo_GetNamedValue :: "json \<Rightarrow> string \<Rightarrow> exn + byte list" where
  "jo_GetNamedValue impl name =
     (case json_find impl name of
        Some (JString s) \<Rightarrow> Inl StdTypeError
      | _ \<Rightarrow> Inr [])"

definition json_string_or_empty :: "json \<Rightarrow> string" where
  "json_string_or_empty val = (case val of JString s \<Rightarrow> s | _ \<Rightarrow> [])"

definition jo_GetNamedStringArray :: "json \<Rightarrow> string \<Rightarrow> exn + string list" where
  "jo_GetNamedStringArray impl name =
     (case json_find impl name of
        None \<Rightarrow> Inr []
      | Some (JArray array) \<Rightarrow> Inr (map json_string_or_empty array)
      | Some _ \<Rightarrow> Inl (RMSInvalidArgumentException ''the value is not an array''))"

definition jo_ToStringDictionary :: "json \<Rightarrow> AppDataHashMap" where
  "jo_ToStringDictionary impl =
     (case impl of JObject xs \<Rightarrow> map_of (map (\<lambda>(k, v). (k, json_string_or_empty v)) xs) | _ \<Rightarrow> Map.empty)"

text \<open>The setters: \<open>impl_[name] = value\<close>, where a new object is a null until then.\<close>

definition jo_set :: "string \<Rightarrow> json \<Rightarrow> json \<Rightarrow> exn + json" where
  "jo_set name value impl =
     (case impl of
        JNull \<Rightarrow> Inr (JObject [(name, value)])
      | JObject xs \<Rightarrow> Inr (JObject (map_put name value xs))
      | _ \<Rightarrow> Inl StdTypeError)"

definition jo_SetNamedValue :: "string \<Rightarrow> byte list \<Rightarrow> json \<Rightarrow> exn + json" where
  "jo_SetNamedValue name value impl = jo_set name (JArray (map (\<lambda>b. JInt (uint b)) value)) impl"

definition jo_SetNamedString :: "string \<Rightarrow> string \<Rightarrow> json \<Rightarrow> exn + json" where
  "jo_SetNamedString name value impl = jo_set name (JString value) impl"

definition jo_SetNamedBool :: "string \<Rightarrow> bool \<Rightarrow> json \<Rightarrow> exn + json" where
  "jo_SetNamedBool name bValue impl = jo_set name (JBool bValue) impl"

definition jo_SetNamedNumber :: "string \<Rightarrow> rat \<Rightarrow> json \<Rightarrow> exn + json" where
  "jo_SetNamedNumber name fValue impl = jo_set name (JFloat fValue) impl"

definition jo_Stringify :: "json_lib \<Rightarrow> json \<Rightarrow> exn + byte list" where
  "jo_Stringify lib impl =
     (case jl_dump lib impl of None \<Rightarrow> Inl StdTypeError | Some res \<Rightarrow> Inr (string_bytes res))"

section \<open>Arrays\<close>

definition ja_Size :: "json \<Rightarrow> nat" where
  "ja_Size impl = (case impl of JArray xs \<Rightarrow> length xs | JObject xs \<Rightarrow> length xs | JNull \<Rightarrow> 0 | _ \<Rightarrow> 1)"

definition ja_elements :: "json \<Rightarrow> json list" where
  "ja_elements impl = (case impl of JArray xs \<Rightarrow> xs | _ \<Rightarrow> [])"

definition ja_Append :: "json \<Rightarrow> json \<Rightarrow> exn + json" where
  "ja_Append v impl =
     (case impl of JNull \<Rightarrow> Inr (JArray [v]) | JArray xs \<Rightarrow> Inr (JArray (xs @ [v])) | _ \<Rightarrow> Inl StdTypeError)"

fun ja_append_all :: "json list \<Rightarrow> json \<Rightarrow> exn + json" where
  "ja_append_all [] impl = Inr impl"
| "ja_append_all (v # vs) impl = bindE (ja_Append v impl) (ja_append_all vs)"

section \<open>The parser\<close>

definition jp_Parse :: "json_lib \<Rightarrow> byte list \<Rightarrow> json option" where
  "jp_Parse lib jsonObject =
     (case jl_parse lib (bytes_string jsonObject) of
        Inl e \<Rightarrow> None
      | Inr val \<Rightarrow> (case val of JObject xs \<Rightarrow> Some (JObject xs) | _ \<Rightarrow> None))"

definition jp_ParseArray :: "json_lib \<Rightarrow> byte list \<Rightarrow> json option" where
  "jp_ParseArray lib jsonArray =
     (case jl_parse lib (bytes_string jsonArray) of
        Inl e \<Rightarrow> None
      | Inr val \<Rightarrow> (case val of JArray xs \<Rightarrow> Some (JArray xs) | _ \<Rightarrow> None))"

text \<open>A call through a shared pointer that may be null.\<close>

definition deref :: "'a option \<Rightarrow> exn + 'a" where
  "deref p = (case p of None \<Rightarrow> Inl NullDereference | Some x \<Rightarrow> Inr x)"

end
