(* ===== verification/JsonSerializer.thy ===== *)
theory JsonSerializer
  imports RmsJson
begin

text \<open>
  The serializer of the REST clients (\<open>rms_sdk/Json/jsonserializer.cpp\<close>). \<open>js_env\<close> has what
  it takes from outside: the JSON library, OpenSSL's base64, the time zone, and the order in
  which an \<open>unordered_map\<close> is walked.
\<close>

record js_env =
  js_lib :: json_lib
  js_encode :: "byte list \<Rightarrow> byte list option"
  js_decode :: "byte list \<Rightarrow> byte list option"
  js_tz :: int
  js_walk :: "AppDataHashMap \<Rightarrow> (string \<times> string) list"

section \<open>Requests\<close>

definition SerializeUsageRestrictionsRequest :: "js_env \<Rightarrow> byte list \<Rightarrow> exn + byte list" where
  "SerializeUsageRestrictionsRequest e publishLicense =
     bindE (ConvertBytesToBase64 (js_encode e) publishLicense) (\<lambda>base64PL.
     bindE (jo_SetNamedValue ''SerializedPublishingLicense'' base64PL JNull) (\<lambda>pJsonObject.
       jo_Stringify (js_lib e) pJsonObject))"

fun set_strings :: "(string \<times> string) list \<Rightarrow> json \<Rightarrow> exn + json" where
  "set_strings [] impl = Inr impl"
| "set_strings ((name, value) # ps) impl = bindE (jo_SetNamedString name value impl) (set_strings ps)"

definition set_app_data :: "string \<Rightarrow> (string \<times> string) list \<Rightarrow> json \<Rightarrow> exn + json" where
  "set_app_data name appData pJson =
     (if appData = [] then Inr pJson
      else bindE (set_strings appData JNull) (\<lambda>d. jo_set name d pJson))"

text \<open>Of the encrypted application data both texts go through \<open>c_str()\<close>.\<close>

definition c_strings :: "(string \<times> string) list \<Rightarrow> (string \<times> string) list" where
  "c_strings ps = map (\<lambda>(k, v). (c_str k, c_str v)) ps"

definition SerializePublishUsingTemplateRequest :: "js_env \<Rightarrow> PublishUsingTemplateRequest \<Rightarrow> exn + byte list" where
  "SerializePublishUsingTemplateRequest e request =
     bindE (jo_SetNamedBool ''PreferDeprecatedAlgorithms'' (pt_bPreferDeprecatedAlgorithms request) JNull) (\<lambda>j1.
     bindE (jo_SetNamedBool ''AllowAuditedExtraction'' (pt_bAllowAuditedExtraction request) j1) (\<lambda>j2.
     bindE (jo_SetNamedString ''TemplateId'' (pt_templateId request) j2) (\<lambda>j3.
     bindE (set_app_data ''SignedApplicationData'' (js_walk e (pt_signedApplicationData request)) j3) (\<lambda>j4.
       jo_Stringify (js_lib e) j4))))"

text \<open>The object for one entry: an array that nothing is appended to stays a null.\<close>

definition users_json :: "string list \<Rightarrow> string \<Rightarrow> string list \<Rightarrow> exn + json" where
  "users_json users property items =
     bindE (ja_append_all (map JString users) JNull) (\<lambda>pUsersJson.
     bindE (ja_append_all (map JString items) JNull) (\<lambda>pRightsJson.
     bindE (jo_set ''Users'' pUsersJson JNull) (\<lambda>o1. jo_set property pRightsJson o1)))"

fun users_list_json :: "string \<Rightarrow> (string list \<times> string list) list \<Rightarrow> json \<Rightarrow> exn + json" where
  "users_list_json property [] arr = Inr arr"
| "users_list_json property ((users, items) # rs) arr =
     bindE (users_json users property items) (\<lambda>o1. bindE (ja_Append o1 arr) (users_list_json property rs))"

definition AddUserRightsOrRolesInCustomRequest :: "json \<Rightarrow> PublishCustomRequest \<Rightarrow> exn + json" where
  "AddUserRightsOrRolesInCustomRequest pPolicyJson request =
     (let some_rights = pc_userRightsList request \<noteq> [];
          UserProperty = (if some_rights then ''Rights'' else ''Roles'');
          jsonArrayName = (if some_rights then ''UserRights'' else ''UserRoles'')
      in bindE (if some_rights
                then users_list_json UserProperty
                       (map (\<lambda>r. (ur_users r, ur_rights r)) (pc_userRightsList request)) JNull
                else users_list_json UserProperty
                       (map (\<lambda>r. (uo_users r, uo_roles r)) (pc_userRolesList request)) JNull)
           (\<lambda>pUserRightsOrRolesListJson. jo_set jsonArrayName pUserRightsOrRolesListJson pPolicyJson))"

definition descriptors_json :: "PublishCustomRequest \<Rightarrow> json \<Rightarrow> exn + json" where
  "descriptors_json request pPolicyJson =
     (if pc_name request \<noteq> [] \<and> pc_description request \<noteq> [] \<and> pc_language request \<noteq> []
      then bindE (set_strings [(''Name'', pc_name request), (''Description'', pc_description request),
                    (''Language'', pc_language request)] JNull) (\<lambda>pDescriptorObject.
           bindE (ja_Append pDescriptorObject JNull) (\<lambda>pDescriptorObjectArray.
             jo_set ''Descriptors'' pDescriptorObjectArray pPolicyJson))
      else Inr pPolicyJson)"

definition policy_json :: "js_env \<Rightarrow> PublishCustomRequest \<Rightarrow> exn + json" where
  "policy_json e request =
     bindE (descriptors_json request JNull) (\<lambda>p1.
     bindE (AddUserRightsOrRolesInCustomRequest p1 request) (\<lambda>p2.
     bindE (jo_SetNamedBool ''allowOfflineAccess'' (pc_bAllowOfflineAccess request) p2) (\<lambda>p3.
     bindE (jo_SetNamedNumber ''IntervalTimeInDays'' (if pc_bAllowOfflineAccess request then 30 else 0) p3) (\<lambda>p4.
     bindE (if 0 < to_time_t (pc_ftLicenseValidUntil request)
            then jo_SetNamedString ''LicenseValidUntil''
                   (toString (js_tz e) (toUTC (js_tz e)
                     \<lparr>dt_time = to_time_t (pc_ftLicenseValidUntil request), dt_gmt_off = 0\<rparr>)) p4
            else Inr p4) (\<lambda>p5.
       set_app_data ''EncryptedApplicationData'' (c_strings (js_walk e (pc_encryptedApplicationData request))) p5)))))"

definition SerializePublishCustomRequest :: "js_env \<Rightarrow> PublishCustomRequest \<Rightarrow> exn + byte list" where
  "SerializePublishCustomRequest e request =
     bindE (jo_SetNamedBool ''PreferDeprecatedAlgorithms'' (pc_bPreferDeprecatedAlgorithms request) JNull) (\<lambda>j1.
     bindE (jo_SetNamedBool ''AllowAuditedExtraction'' (pc_bAllowAuditedExtraction request) j1) (\<lambda>j2.
     bindE (if pc_wsReferralInfo request \<noteq> []
            then jo_SetNamedString ''ReferralInfo'' (pc_wsReferralInfo request) j2 else Inr j2) (\<lambda>j3.
     bindE (set_app_data ''SignedApplicationData'' (js_walk e (pc_signedApplicationData request)) j3) (\<lambda>j4.
     bindE (policy_json e request) (\<lambda>pPolicyJson.
     bindE (jo_set ''Policy'' pPolicyJson j4) (\<lambda>j5. jo_Stringify (js_lib e) j5))))))"

section \<open>The usage restrictions response\<close>

text \<open>\<open>IUri::Create\<close> refuses no text, so the handler that adds \<open>mailto:\<close> is never reached.\<close>

definition ProcessReferrerResponse :: "string \<Rightarrow> exn + string" where
  "ProcessReferrerResponse referrerResponse =
     (if referrerResponse \<noteq> []
      then (case IUri_Create referrerResponse of
              Inr u \<Rightarrow> Inr referrerResponse
            | Inl x \<Rightarrow>
                if is_rms x
                then bindE (IUri_Create (''mailto:'' @ referrerResponse)) (\<lambda>u. Inr (''mailto:'' @ referrerResponse))
                else Inl x)
      else Inr referrerResponse)"

text \<open>\<open>static_cast<int>(round(d))\<close>, with what the x86 instruction gives outside of an \<open>int\<close>.\<close>

definition round_int :: "rat \<Rightarrow> int" where
  "round_int d =
     (let r = (if 0 \<le> d then \<lfloor>d + 1 / 2\<rfloor> else - \<lfloor>1 / 2 - d\<rfloor>)
      in if - (2 ^ 31) \<le> r \<and> r < 2 ^ 31 then r else - (2 ^ 31))"

fun users_of :: "string \<Rightarrow> json list \<Rightarrow> exn + (string list \<times> string list) list" where
  "users_of property [] = Inr []"
| "users_of property (pJsonUserRights # js) =
     bindE (jo_GetNamedStringArray pJsonUserRights ''Users'') (\<lambda>users.
     bindE (jo_GetNamedStringArray pJsonUserRights property) (\<lambda>items.
     bindE (users_of property js) (\<lambda>rest. Inr ((users, items) # rest))))"

definition rights_of :: "json list \<Rightarrow> exn + UserRightsImpl list" where
  "rights_of js = bindE (users_of ''Rights'' js) (\<lambda>us. Inr (map (\<lambda>(u, r). \<lparr>ur_users = u, ur_rights = r\<rparr>) us))"

definition roles_of :: "json list \<Rightarrow> exn + UserRolesImpl list" where
  "roles_of js = bindE (users_of ''Roles'' js) (\<lambda>us. Inr (map (\<lambda>(u, r). \<lparr>uo_users = u, uo_roles = r\<rparr>) us))"

text \<open>The custom policy, and whether its interval forbids offline access.\<close>

definition custom_policy_of :: "json \<Rightarrow> exn + (CustomPolicyResponse \<times> bool)" where
  "custom_policy_of pJsonPolicy =
     bindE (jo_GetNamedNumber pJsonPolicy ''IntervalTimeInDays'' (- 1)) (\<lambda>interval.
     bindE (jo_GetNamedBool pJsonPolicy ''AllowAuditedExtraction'' False) (\<lambda>audited.
     bindE (jo_GetNamedArray pJsonPolicy ''UserRights'') (\<lambda>p.
     bindE (deref p) (\<lambda>pJsonUserRightsList.
     bindE (rights_of (ja_elements pJsonUserRightsList)) (\<lambda>rights.
     bindE (if jo_HasName pJsonPolicy ''UserRoles''
            then bindE (jo_IsNull pJsonPolicy ''UserRoles'') (\<lambda>null.
                   if null then Inr []
                   else bindE (jo_GetNamedArray pJsonPolicy ''UserRoles'') (\<lambda>q.
                        bindE (deref q) (\<lambda>pJsonUserRolesList. roles_of (ja_elements pJsonUserRolesList))))
            else Inr []) (\<lambda>roles.
       Inr (\<lparr>cu_bIsNull = False, cu_bAllowAuditedExtraction = audited, cu_userRightsList = rights,
              cu_userRolesList = roles\<rparr>, round_int interval \<le> 0)))))))"

text \<open>A member that is there and not null.\<close>

definition present :: "json \<Rightarrow> string \<Rightarrow> exn + bool" where
  "present j name = (if jo_HasName j name then bindE (jo_IsNull j name) (\<lambda>null. Inr (\<not> null)) else Inr False)"

definition dictionary_of :: "json \<Rightarrow> string \<Rightarrow> exn + AppDataHashMap" where
  "dictionary_of j name =
     bindE (present j name) (\<lambda>there.
       if there
       then bindE (jo_GetNamedObject j name) (\<lambda>p. bindE (deref p) (\<lambda>d. Inr (jo_ToStringDictionary d)))
       else Inr Map.empty)"

definition key_of :: "json \<Rightarrow> exn + KeyDetailsResponse" where
  "key_of pJsonKey =
     bindE (jo_GetNamedString pJsonKey ''Algorithm'' []) (\<lambda>algorithm.
     bindE (jo_GetNamedString pJsonKey ''CipherMode'' []) (\<lambda>cipherMode.
     bindE (jo_GetNamedValue pJsonKey ''Value'') (\<lambda>value.
       Inr \<lparr>kd_value = value, kd_algorithm = algorithm, kd_cipherMode = cipherMode\<rparr>)))"

definition empty_key :: KeyDetailsResponse where
  "empty_key = \<lparr>kd_value = [], kd_algorithm = [], kd_cipherMode = []\<rparr>"

text \<open>\<open>system_clock::from_time_t\<close>\<close>

definition from_time_t :: "int \<Rightarrow> time_point" where
  "from_time_t t = t * 1000000000"

definition parse_time :: "int \<Rightarrow> string \<Rightarrow> time_point" where
  "parse_time tz s = from_time_t (dt_time (toLocalTime (fromString tz (c_str s))))"

definition ends_with_Z :: "string \<Rightarrow> string" where
  "ends_with_Z s = (if last s \<noteq> CHR ''Z'' then s @ ''Z'' else s)"

text \<open>The members that a default constructor does not set are \<open>junk\<close>.\<close>

definition no_response :: "(nat \<Rightarrow> bool) \<Rightarrow> UsageRestrictionsResponse" where
  "no_response junk =
     \<lparr>us_accessStatus = [], us_id = [], us_name = [], us_description = [], us_referrer = [], us_owner = [],
      us_key = empty_key, us_rights = [], us_roles = [], us_issuedTo = [], us_ftContentValidUntil = 0,
      us_ftLicenseValidUntil = 0, us_contentValidUntil = [], us_licenseValidUntil = [],
      us_bAllowOfflineAccess = junk 0, us_bFromTemplate = junk 1, us_contentId = [],
      us_customPolicy = \<lparr>cu_bIsNull = junk 2, cu_bAllowAuditedExtraction = junk 3, cu_userRightsList = [],
        cu_userRolesList = []\<rparr>,
      us_signedApplicationData = Map.empty, us_encryptedApplicationData = Map.empty\<rparr>"

definition response_key :: "json \<Rightarrow> string \<Rightarrow> exn + (string \<times> KeyDetailsResponse)" where
  "response_key pJsonResponse accessStatus =
     bindE (present pJsonResponse ''Key'') (\<lambda>there.
       if there
       then bindE (jo_GetNamedObject pJsonResponse ''Key'') (\<lambda>p.
            bindE (deref p) (\<lambda>pJsonKey.
            bindE (key_of pJsonKey) (\<lambda>key.
              Inr (if accessStatus = [] then ''AccessGranted'' else accessStatus, key))))
       else Inr (if accessStatus = [] then ''AccessDenied'' else accessStatus, empty_key))"

definition response_policy ::
  "(nat \<Rightarrow> bool) \<Rightarrow> json \<Rightarrow> bool \<Rightarrow> exn + (CustomPolicyResponse \<times> bool)" where
  "response_policy junk pJsonResponse bAllowOfflineAccess =
     bindE (present pJsonResponse ''Policy'') (\<lambda>there.
       if there
       then bindE (jo_GetNamedObject pJsonResponse ''Policy'') (\<lambda>p.
            bindE (deref p) (\<lambda>pJsonPolicy.
            bindE (custom_policy_of pJsonPolicy) (\<lambda>(cu, no_offline).
              Inr (cu, if no_offline then False else bAllowOfflineAccess))))
       else Inr (\<lparr>cu_bIsNull = True, cu_bAllowAuditedExtraction = junk 3, cu_userRightsList = [],
                  cu_userRolesList = []\<rparr>, bAllowOfflineAccess))"

definition DeserializeUsageRestrictionsResponse ::
  "js_env \<Rightarrow> (nat \<Rightarrow> bool) \<Rightarrow> byte list \<Rightarrow> exn + UsageRestrictionsResponse" where
  "DeserializeUsageRestrictionsResponse e junk sResponse =
     (case jp_Parse (js_lib e) sResponse of
        None \<Rightarrow> Inr (no_response junk)
      | Some j \<Rightarrow>
          bindE (jo_GetNamedString j ''AccessStatus'' []) (\<lambda>accessStatus.
          bindE (jo_GetNamedString j ''Id'' []) (\<lambda>id.
          bindE (jo_GetNamedString j ''Name'' []) (\<lambda>name.
          bindE (jo_GetNamedString j ''Description'' []) (\<lambda>description.
          bindE (bindE (jo_GetNamedString j ''Referrer'' []) ProcessReferrerResponse) (\<lambda>referrer.
          bindE (jo_GetNamedString j ''Owner'' []) (\<lambda>owner.
          bindE (jo_GetNamedString j ''IssuedTo'' []) (\<lambda>issuedTo.
          bindE (jo_GetNamedString j ''ContentId'' []) (\<lambda>contentId.
          bindE (response_key j accessStatus) (\<lambda>(status, key).
          bindE (jo_GetNamedStringArray j ''Rights'') (\<lambda>rights.
          bindE (bindE (present j ''Roles'') (\<lambda>there.
                   if there then jo_GetNamedStringArray j ''Roles'' else Inr [])) (\<lambda>roles.
          bindE (jo_GetNamedString j ''ContentValidUntil'' []) (\<lambda>contentValid.
          bindE (jo_GetNamedString j ''LicenseValidUntil'' []) (\<lambda>licenseValid.
          bindE (jo_GetNamedBool j ''FromTemplate'' False) (\<lambda>fromTemplate.
          bindE (if jo_HasName j ''allowOfflineAccess'' then jo_GetNamedBool j ''allowOfflineAccess'' True
                 else Inr True) (\<lambda>offline.
          bindE (response_policy junk j offline) (\<lambda>(customPolicy, bAllowOfflineAccess).
          bindE (dictionary_of j ''SignedApplicationData'') (\<lambda>sig.
          bindE (dictionary_of j ''EncryptedApplicationData'') (\<lambda>enc.
            Inr \<lparr>us_accessStatus = status, us_id = id, us_name = name, us_description = description,
              us_referrer = referrer, us_owner = owner, us_key = key, us_rights = rights, us_roles = roles,
              us_issuedTo = issuedTo,
              us_ftContentValidUntil =
                (if contentValid \<noteq> [] then parse_time (js_tz e) (ends_with_Z contentValid) else from_time_t 0),
              us_ftLicenseValidUntil =
                (if licenseValid \<noteq> [] then parse_time (js_tz e) licenseValid else from_time_t 0),
              us_contentValidUntil = (if contentValid \<noteq> [] then ends_with_Z contentValid else contentValid),
              us_licenseValidUntil = licenseValid, us_bAllowOfflineAccess = bAllowOfflineAccess,
              us_bFromTemplate = fromTemplate, us_contentId = contentId, us_customPolicy = customPolicy,
              us_signedApplicationData = sig, us_encryptedApplicationData = enc\<rparr>)))))))))))))))))))"

section \<open>The other responses\<close>

record ServerErrorResponse =
  se_code :: string
  se_message :: string

definition DeserializeErrorResponse :: "js_env \<Rightarrow> byte list \<Rightarrow> exn + ServerErrorResponse" where
  "DeserializeErrorResponse e sResponse =
     bindE (deref (jp_Parse (js_lib e) sResponse)) (\<lambda>pJsonResponse.
     bindE (bindE (present pJsonResponse ''Code'') (\<lambda>there.
              if there then jo_GetNamedString pJsonResponse ''Code'' [] else Inr [])) (\<lambda>code.
     bindE (bindE (present pJsonResponse ''Message'') (\<lambda>there.
              if there then jo_GetNamedString pJsonResponse ''Message'' [] else Inr [])) (\<lambda>msg.
       Inr \<lparr>se_code = code, se_message = msg\<rparr>)))"

record TemplateResponse =
  tr_id :: string
  tr_name :: string
  tr_description :: string

definition template_of :: "json \<Rightarrow> exn + TemplateResponse" where
  "template_of pTemplateJson =
     bindE (jo_GetNamedString pTemplateJson ''Id'' []) (\<lambda>id.
     bindE (jo_GetNamedString pTemplateJson ''Name'' []) (\<lambda>name.
     bindE (jo_GetNamedString pTemplateJson ''Description'' []) (\<lambda>description.
       if id = [] then Inl (RMSInvalidArgumentException ''empty atemplate.id'')
       else if name = [] then Inl (RMSInvalidArgumentException ''empty atemplate.name'')
       else if description = [] then Inl (RMSInvalidArgumentException ''empty atemplate.description'')
       else Inr \<lparr>tr_id = id, tr_name = name, tr_description = description\<rparr>)))"

fun each :: "('a \<Rightarrow> exn + 'b) \<Rightarrow> 'a list \<Rightarrow> exn + 'b list" where
  "each f [] = Inr []"
| "each f (x # xs) = bindE (f x) (\<lambda>y. bindE (each f xs) (\<lambda>ys. Inr (y # ys)))"

definition DeserializeTemplateListResponse :: "js_env \<Rightarrow> byte list \<Rightarrow> exn + TemplateResponse list" where
  "DeserializeTemplateListResponse e sResponse =
     bindE (deref (jp_ParseArray (js_lib e) sResponse)) (\<lambda>pJsonArray. each template_of (ja_elements pJsonArray))"

record ServiceDiscoveryResponse =
  sd_name :: string
  sd_uri :: string

definition endpoint_of :: "json \<Rightarrow> exn + ServiceDiscoveryResponse" where
  "endpoint_of pTemplateJson =
     bindE (jo_GetNamedString pTemplateJson ''Name'' []) (\<lambda>name.
     bindE (jo_GetNamedString pTemplateJson ''Uri'' []) (\<lambda>uri.
       if name = [] then Inl (RMSInvalidArgumentException ''empty response.endpoint.name'')
       else if uri = [] then Inl (RMSInvalidArgumentException ''empty response.endpoint.uri'')
       else Inr \<lparr>sd_name = name, sd_uri = uri\<rparr>))"

definition DeserializeServiceDiscoveryResponse :: "js_env \<Rightarrow> byte list \<Rightarrow> exn + ServiceDiscoveryResponse list" where
  "DeserializeServiceDiscoveryResponse e sResponse =
     bindE (deref (jp_ParseArray (js_lib e) sResponse)) (\<lambda>pJsonArray. each endpoint_of (ja_elements pJsonArray))"

definition not_empty :: "'a list \<Rightarrow> string \<Rightarrow> exn + unit" where
  "not_empty x msg = (if x = [] then Inl (RMSInvalidArgumentException msg) else Inr ())"

definition DeserializePublishResponse :: "js_env \<Rightarrow> byte list \<Rightarrow> exn + PublishResponse" where
  "DeserializePublishResponse e sResponse =
     bindE (deref (jp_Parse (js_lib e) sResponse)) (\<lambda>pJson.
     bindE (bindE (jo_GetNamedValue pJson ''SerializedPublishingLicense'') (ConvertBase64ToBytes (js_decode e)))
       (\<lambda>serializedLicense.
     bindE (jo_GetNamedString pJson ''Id'' []) (\<lambda>id.
     bindE (jo_GetNamedString pJson ''Name'' []) (\<lambda>name.
     bindE (jo_GetNamedString pJson ''Description'' []) (\<lambda>description.
     bindE (jo_GetNamedString pJson ''Referrer'' []) (\<lambda>referrer.
     bindE (jo_GetNamedString pJson ''Owner'' []) (\<lambda>owner.
     bindE (jo_GetNamedString pJson ''ContentId'' []) (\<lambda>contentId.
     bindE (bindE (jo_GetNamedObject pJson ''Key'') deref) (\<lambda>pJsonKey.
     bindE (key_of pJsonKey) (\<lambda>key.
     bindE (dictionary_of pJson ''SignedApplicationData'') (\<lambda>sig.
     bindE (dictionary_of pJson ''EncryptedApplicationData'') (\<lambda>enc.
     bindE (not_empty serializedLicense ''empty response.serializedLicense'') (\<lambda>_.
     bindE (not_empty owner ''empty response.owner'') (\<lambda>_.
     bindE (not_empty (kd_value key) ''empty response.key.value'') (\<lambda>_.
     bindE (not_empty (kd_algorithm key) ''empty response.key.algorithm'') (\<lambda>_.
     bindE (not_empty (kd_cipherMode key) ''empty response.key.cipherMode'') (\<lambda>_.
       Inr \<lparr>pb_serializedLicense = serializedLicense, pb_id = id, pb_name = name, pb_description = description,
         pb_referrer = referrer, pb_owner = owner, pb_key = key, pb_contentId = contentId,
         pb_signedApplicationData = sig, pb_encryptedApplicationData = enc\<rparr>)))))))))))))))))"

end
