(* ===== verification/JsonProperties.thy ===== *)
theory JsonProperties
  imports JsonSerializer UsageRestrictionsClient
begin

text \<open>
  What the serializer of the REST clients gets out of the answers of the services, and what
  the client of the usage restrictions makes of it.
\<close>

section \<open>Keys\<close>

lemma GetNamedValue_empty: "jo_GetNamedValue j name = Inr v \<Longrightarrow> v = []"
  by (auto simp: jo_GetNamedValue_def split: option.splits json.splits)

lemma key_of_value: "key_of j = Inr key \<Longrightarrow> kd_value key = []"
  by (auto simp: key_of_def bindE_eq_Inr dest: GetNamedValue_empty)

lemma response_key_value: "response_key j accessStatus = Inr (status, key) \<Longrightarrow> kd_value key = []"
  by (auto simp: response_key_def bindE_eq_Inr empty_key_def dest: key_of_value split: if_splits)

text \<open>
  C32: whatever a service answers, the response that is read from it has no key: a value
  that is a text ends in an exception of the JSON library, any other is taken as empty.
\<close>

theorem response_without_key:
  "case DeserializeUsageRestrictionsResponse e junk body of
     Inr r \<Rightarrow> kd_value (us_key r) = []
   | Inl x \<Rightarrow> True"
proof (cases "DeserializeUsageRestrictionsResponse e junk body")
  case (Inr r)
  then have "kd_value (us_key r) = []"
    by (auto simp: DeserializeUsageRestrictionsResponse_def no_response_def empty_key_def bindE_eq_Inr
        dest: response_key_value split: option.splits)
  with Inr show ?thesis by simp
qed simp

lemma publish_refused: "DeserializePublishResponse e body \<noteq> Inr r"
  by (auto simp: DeserializePublishResponse_def bindE_eq_Inr not_empty_def dest: key_of_value split: if_splits)

text \<open>
  No answer of the publishing service is accepted: either it has no key text, which is
  refused, or reading the text fails.
\<close>

theorem publish_response_refused: "\<exists>x. DeserializePublishResponse e body = Inl x"
  using publish_refused by (cases "DeserializePublishResponse e body") auto

section \<open>An answer that grants access\<close>

definition string_member :: "json \<Rightarrow> string \<Rightarrow> bool" where
  "string_member j name \<longleftrightarrow>
     (case json_find j name of None \<Rightarrow> True | Some JNull \<Rightarrow> True | Some (JString s) \<Rightarrow> True | _ \<Rightarrow> False)"

lemma string_memberD: "string_member j name \<Longrightarrow> \<exists>s. jo_GetNamedString j name d = Inr s"
  by (auto simp: string_member_def jo_GetNamedString_def split: option.splits json.splits)

definition text_member :: "json \<Rightarrow> string \<Rightarrow> bool" where
  "text_member j name \<longleftrightarrow> (case json_find j name of Some (JString s) \<Rightarrow> True | _ \<Rightarrow> False)"

lemma text_memberD: "text_member j name \<Longrightarrow> \<exists>s. json_find j name = Some (JString s)"
  by (auto simp: text_member_def split: option.splits json.splits)

text \<open>The members that are read before the key are texts or missing, and the key is complete.\<close>

definition grants_key :: "json \<Rightarrow> bool" where
  "grants_key j \<longleftrightarrow>
     list_all (string_member j) [''AccessStatus'', ''Id'', ''Name'', ''Description'', ''Referrer'', ''Owner'',
       ''IssuedTo'', ''ContentId''] \<and>
     (case json_find j ''Key'' of
        Some (JObject ks) \<Rightarrow> list_all (text_member (JObject ks)) [''Algorithm'', ''CipherMode'', ''Value'']
      | _ \<Rightarrow> False)"

lemma Referrer_accepted: "ProcessReferrerResponse r = Inr r"
  by (simp add: ProcessReferrerResponse_def IUri_Create_def)

lemma grants_key_fails:
  assumes "grants_key j"
  shows "response_key j accessStatus = Inl StdTypeError"
proof -
  obtain ks where k: "json_find j ''Key'' = Some (JObject ks)"
      "list_all (text_member (JObject ks)) [''Algorithm'', ''CipherMode'', ''Value'']"
    using assms unfolding grants_key_def
    by (cases "json_find j ''Key''") (auto split: json.splits)
  then obtain a c v where "map_of ks ''Algorithm'' = Some (JString a)"
      "map_of ks ''CipherMode'' = Some (JString c)" "map_of ks ''Value'' = Some (JString v)"
    by (auto dest!: text_memberD)
  with k(1) show ?thesis
    by (simp add: response_key_def present_def jo_HasName_def jo_IsNull_def jo_GetNamedObject_def deref_def
        key_of_def jo_GetNamedString_def jo_GetNamedValue_def)
qed

lemma granted_unreadable:
  assumes "jp_Parse (js_lib e) body = Some j" and "grants_key j"
  shows "DeserializeUsageRestrictionsResponse e junk body = Inl StdTypeError"
proof -
  have "string_member j ''AccessStatus''" "string_member j ''Id''" "string_member j ''Name''"
      "string_member j ''Description''" "string_member j ''Referrer''" "string_member j ''Owner''"
      "string_member j ''IssuedTo''" "string_member j ''ContentId''"
    using assms(2) by (simp_all add: grants_key_def)
  note texts = this [THEN string_memberD [where d = "[]"]]
  obtain s1 where "jo_GetNamedString j ''AccessStatus'' [] = Inr s1" using texts(1) by blast
  moreover obtain s2 where "jo_GetNamedString j ''Id'' [] = Inr s2" using texts(2) by blast
  moreover obtain s3 where "jo_GetNamedString j ''Name'' [] = Inr s3" using texts(3) by blast
  moreover obtain s4 where "jo_GetNamedString j ''Description'' [] = Inr s4" using texts(4) by blast
  moreover obtain s5 where "jo_GetNamedString j ''Referrer'' [] = Inr s5" using texts(5) by blast
  moreover obtain s6 where "jo_GetNamedString j ''Owner'' [] = Inr s6" using texts(6) by blast
  moreover obtain s7 where "jo_GetNamedString j ''IssuedTo'' [] = Inr s7" using texts(7) by blast
  moreover obtain s8 where "jo_GetNamedString j ''ContentId'' [] = Inr s8" using texts(8) by blast
  ultimately show ?thesis
    using assms(1) grants_key_fails [OF assms(2), of s1]
    by (simp add: DeserializeUsageRestrictionsResponse_def Referrer_accepted)
qed

text \<open>
  C30: An application that is granted access gets no policy. With the serializer as it is,
  an answer that carries a complete key ends the request with the type error of the JSON
  library; it is no exception of the RMS layer, so nothing on the way translates it.
\<close>

theorem granted_access_fails:
  assumes "jp_Parse (js_lib e) body = Some j" and "grants_key j"
    and "ur_deserialize sv = DeserializeUsageRestrictionsResponse e junk"
    and "ur_serialize sv pl = Inr req" and "ur_parse_license sv pl = Inr lic" and "ur_url sv lic email = Inr url"
    and "ur_post sv url req = Inr (status_OK, body)"
    and "\<not> has_cache_flag cacheMask RESPONSE_CACHE_ONDISK"
  shows "GetUsageRestrictions env sv now now' pl email False cacheMask w = (Inl StdTypeError, w)"
  using assms(3-8) granted_unreadable [OF assms(1,2), of junk]
  by (simp add: GetUsageRestrictions_def ask_service_def sx_simps Let_def)

section \<open>Custom policies\<close>

lemma append_all_array: "ja_append_all vs (JArray ys) = Inr (JArray (ys @ vs))"
  by (induction vs arbitrary: ys) (simp_all add: ja_Append_def)

lemma append_all_null: "vs \<noteq> [] \<Longrightarrow> ja_append_all vs JNull = Inr (JArray vs)"
  by (cases vs) (simp_all add: ja_Append_def append_all_array)

definition entry_json :: "string \<Rightarrow> string list \<times> string list \<Rightarrow> json" where
  "entry_json property r =
     JObject (map_put property (JArray (map JString (snd r))) [(''Users'', JArray (map JString (fst r)))])"

lemma users_json_entry:
  "users \<noteq> [] \<Longrightarrow> items \<noteq> [] \<Longrightarrow> users_json users property items = Inr (entry_json property (users, items))"
  by (simp add: users_json_def append_all_null jo_set_def entry_json_def)

lemma users_list_array:
  "\<forall>r\<in>set rs. fst r \<noteq> [] \<and> snd r \<noteq> [] \<Longrightarrow>
   users_list_json property rs (JArray ys) = Inr (JArray (ys @ map (entry_json property) rs))"
proof (induction rs arbitrary: ys)
  case (Cons r rs)
  then show ?case by (cases r) (simp add: users_json_entry ja_Append_def)
qed simp

lemma users_list_null:
  assumes "rs \<noteq> []" and "\<forall>r\<in>set rs. fst r \<noteq> [] \<and> snd r \<noteq> []"
  shows "users_list_json property rs JNull = Inr (JArray (map (entry_json property) rs))"
proof (cases rs)
  case (Cons r rs')
  then show ?thesis using assms(2) users_list_array [of rs' property]
    by (cases r) (simp add: users_json_entry ja_Append_def)
qed (use assms in simp)

lemma string_or_empty_map [simp]: "map (json_string_or_empty \<circ> JString) xs = xs"
  by (induction xs) (simp_all add: json_string_or_empty_def)

lemma users_of_entries:
  assumes "property \<noteq> ''Users''"
  shows "users_of property (map (entry_json property) rs) = Inr rs"
  using assms
  by (induction rs) (simp_all add: entry_json_def jo_GetNamedStringArray_def map_of_map_put)

text \<open>An object under construction: a null, or an object.\<close>

fun members :: "json \<Rightarrow> (string \<times> json) list option" where
  "members JNull = Some []"
| "members (JObject xs) = Some xs"
| "members _ = None"

lemma jo_set_members: "members j = Some xs \<Longrightarrow> jo_set k v j = Inr (JObject (map_put k v xs))"
  by (cases j) (simp_all add: jo_set_def)

lemma set_strings_total: "members j = Some xs \<Longrightarrow> \<exists>j' ys. set_strings ps j = Inr j' \<and> members j' = Some ys"
proof (induction ps arbitrary: j xs)
  case (Cons p ps)
  show ?case
  proof (cases p)
    case (Pair k v)
    have "members (JObject (map_put k (JString v) xs)) = Some (map_put k (JString v) xs)" by simp
    from Cons.IH [OF this] Cons.prems Pair show ?thesis
      by (simp add: jo_SetNamedString_def jo_set_members)
  qed
qed simp

lemma set_app_data_keeps:
  assumes "members j = Some xs"
  shows "\<exists>j' ys. set_app_data name d j = Inr j' \<and> members j' = Some ys \<and> (\<forall>k. k \<noteq> name \<longrightarrow> map_of ys k = map_of xs k)"
proof (cases "d = []")
  case False
  obtain dj where "set_strings d JNull = Inr dj" using set_strings_total [of JNull "[]" d] by auto
  with False assms show ?thesis
    by (simp add: set_app_data_def jo_set_members map_of_map_put)
qed (use assms in \<open>simp add: set_app_data_def\<close>)

lemma descriptors_keep:
  "\<exists>j' ys. descriptors_json request JNull = Inr j' \<and> members j' = Some ys \<and>
     (\<forall>k. k \<noteq> ''Descriptors'' \<longrightarrow> map_of ys k = None)"
  by (auto simp: descriptors_json_def jo_SetNamedString_def jo_set_def ja_Append_def)

text \<open>What the reader looks at in the policy that a request carries.\<close>

lemma policy_json_members:
  assumes "AddUserRightsOrRolesInCustomRequest (JObject []) request = Inr (JObject [(name, arr)])"
    and "name = (if pc_userRightsList request \<noteq> [] then ''UserRights'' else ''UserRoles'')"
  shows "\<exists>ys. policy_json e request = Inr (JObject ys) \<and> map_of ys name = Some arr \<and>
    map_of ys (if pc_userRightsList request \<noteq> [] then ''UserRoles'' else ''UserRights'') = None \<and>
    map_of ys ''AllowAuditedExtraction'' = None \<and>
    map_of ys ''IntervalTimeInDays'' = Some (JFloat (if pc_bAllowOfflineAccess request then 30 else 0))"
proof -
  obtain j1 y1 where p1: "descriptors_json request JNull = Inr j1" "members j1 = Some y1"
      "\<forall>k. k \<noteq> ''Descriptors'' \<longrightarrow> map_of y1 k = None"
    using descriptors_keep by blast
  have p2: "AddUserRightsOrRolesInCustomRequest j1 request = Inr (JObject (map_put name arr y1))"
    using assms jo_set_members [OF p1(2)]
    by (auto simp: AddUserRightsOrRolesInCustomRequest_def Let_def bindE_eq_Inr jo_set_def split: if_splits)
  let ?y3 = "map_put ''allowOfflineAccess'' (JBool (pc_bAllowOfflineAccess request)) (map_put name arr y1)"
  let ?y4 = "map_put ''IntervalTimeInDays'' (JFloat (if pc_bAllowOfflineAccess request then 30 else 0)) ?y3"
  let ?until = "toString (js_tz e) (toUTC (js_tz e) \<lparr>dt_time = to_time_t (pc_ftLicenseValidUntil request), dt_gmt_off = 0\<rparr>)"
  let ?y5 = "if 0 < to_time_t (pc_ftLicenseValidUntil request)
    then map_put ''LicenseValidUntil'' (JString ?until) ?y4 else ?y4"
  obtain j6 y6 where p6: "set_app_data ''EncryptedApplicationData''
      (c_strings (js_walk e (pc_encryptedApplicationData request))) (JObject ?y5) = Inr j6"
      "members j6 = Some y6" "\<forall>k. k \<noteq> ''EncryptedApplicationData'' \<longrightarrow> map_of y6 k = map_of ?y5 k"
    using set_app_data_keeps [of "JObject ?y5" ?y5] by (metis members.simps(2))
  have "map_of y6 name = Some arr \<and> map_of y6 ''AllowAuditedExtraction'' = None \<and>
      map_of y6 (if pc_userRightsList request \<noteq> [] then ''UserRoles'' else ''UserRights'') = None"
    using p1(3) p6(3) assms(2) by (cases "pc_userRightsList request = []") (simp_all add: map_of_map_put)
  moreover have "map_of y6 ''IntervalTimeInDays'' = Some (JFloat (if pc_bAllowOfflineAccess request then 30 else 0))"
    using p6(3) by (simp add: map_of_map_put)
  moreover have "policy_json e request = Inr j6"
    using p1(1) p2 p6(1) unfolding policy_json_def
    by (cases "0 < to_time_t (pc_ftLicenseValidUntil request)"; cases "pc_bAllowOfflineAccess request")
      (simp_all add: jo_SetNamedBool_def jo_SetNamedNumber_def jo_SetNamedString_def jo_set_def)
  moreover have "j6 = JObject y6 \<or> j6 = JNull \<and> y6 = []" using p6(2) by (cases j6) auto
  ultimately show ?thesis by (elim disjE) auto
qed

text \<open>
  C16: the policy of a request, read the way the answer of the service is read, is the list of
  users and rights that was asked for, with offline access exactly as asked. A request for
  roles instead of rights has no member \<open>UserRights\<close>, and reading it follows a null pointer.
\<close>

theorem custom_policy_echo:
  assumes "\<forall>r\<in>set (pc_userRightsList request). ur_users r \<noteq> [] \<and> ur_rights r \<noteq> []"
    and "\<forall>r\<in>set (pc_userRolesList request). uo_users r \<noteq> [] \<and> uo_roles r \<noteq> []"
    and "pc_userRightsList request \<noteq> [] \<or> pc_userRolesList request \<noteq> []"
  shows "\<exists>p. policy_json e request = Inr p \<and>
    custom_policy_of p =
      (if pc_userRightsList request \<noteq> []
       then Inr (\<lparr>cu_bIsNull = False, cu_bAllowAuditedExtraction = False,
              cu_userRightsList = pc_userRightsList request, cu_userRolesList = []\<rparr>,
              \<not> pc_bAllowOfflineAccess request)
       else Inl NullDereference)"
proof (cases "pc_userRightsList request = []")
  case True
  let ?rs = "map (\<lambda>r. (uo_users r, uo_roles r)) (pc_userRolesList request)"
  have "users_list_json ''Roles'' ?rs JNull = Inr (JArray (map (entry_json ''Roles'') ?rs))"
    using assms(2,3) True by (intro users_list_null) auto
  then have "AddUserRightsOrRolesInCustomRequest (JObject []) request =
      Inr (JObject [(''UserRoles'', JArray (map (entry_json ''Roles'') ?rs))])"
    using True by (simp add: AddUserRightsOrRolesInCustomRequest_def jo_set_def)
  from policy_json_members [OF this, of e] True show ?thesis
    by (auto simp: custom_policy_of_def jo_GetNamedNumber_def jo_GetNamedBool_def jo_GetNamedArray_def deref_def)
next
  case False
  let ?rs = "map (\<lambda>r. (ur_users r, ur_rights r)) (pc_userRightsList request)"
  let ?arr = "map (entry_json ''Rights'') ?rs"
  have "users_list_json ''Rights'' ?rs JNull = Inr (JArray ?arr)"
    using assms(1) False by (intro users_list_null) auto
  then have "AddUserRightsOrRolesInCustomRequest (JObject []) request = Inr (JObject [(''UserRights'', JArray ?arr)])"
    using False by (simp add: AddUserRightsOrRolesInCustomRequest_def jo_set_def)
  then obtain ys where ys: "policy_json e request = Inr (JObject ys)" "map_of ys ''UserRights'' = Some (JArray ?arr)"
      "map_of ys ''UserRoles'' = None" "map_of ys ''AllowAuditedExtraction'' = None"
      "map_of ys ''IntervalTimeInDays'' = Some (JFloat (if pc_bAllowOfflineAccess request then 30 else 0))"
    using policy_json_members [of request "''UserRights''" "JArray ?arr" e] False by auto
  have "users_of ''Rights'' ?arr = Inr ?rs" by (rule users_of_entries) simp
  then have "rights_of ?arr = Inr (pc_userRightsList request)" by (simp add: rights_of_def comp_def map_idI)
  moreover have half: "\<lfloor>1 / 2 :: rat\<rfloor> = 0" by (simp add: floor_eq_iff)
  moreover have "round_int (if pc_bAllowOfflineAccess request then 30 else 0) \<le> 0 \<longleftrightarrow> \<not> pc_bAllowOfflineAccess request"
    using half by (simp add: round_int_def)
  ultimately show ?thesis using ys False
    by (simp add: custom_policy_of_def jo_GetNamedNumber_def jo_GetNamedBool_def jo_GetNamedArray_def deref_def
        ja_elements_def jo_HasName_def)
qed

section \<open>Templates\<close>

lemma each_all: "each f xs = Inr ys \<Longrightarrow> (\<And>x y. f x = Inr y \<Longrightarrow> P y) \<Longrightarrow> y \<in> set ys \<Longrightarrow> P y"
  by (induction xs arbitrary: ys) (auto simp: bindE_eq_Inr)

lemma each_length: "each f xs = Inr ys \<Longrightarrow> length ys = length xs"
  by (induction xs arbitrary: ys) (auto simp: bindE_eq_Inr)

text \<open>
  A list of templates that is accepted has one template for each element of the answer,
  none without an id, a name and a description; an answer that is no JSON array is not
  refused but followed as a null pointer.
\<close>

theorem templates_complete:
  "(case jp_ParseArray (js_lib e) body of
      None \<Rightarrow> DeserializeTemplateListResponse e body = Inl NullDereference
    | Some arr \<Rightarrow>
        (case DeserializeTemplateListResponse e body of
           Inl x \<Rightarrow> is_rms x
         | Inr ts \<Rightarrow> length ts = ja_Size arr \<and>
             list_all (\<lambda>t. tr_id t \<noteq> [] \<and> tr_name t \<noteq> [] \<and> tr_description t \<noteq> []) ts))"
proof (cases "jp_ParseArray (js_lib e) body")
  case (Some arr)
  then obtain xs where xs: "arr = JArray xs" by (auto simp: jp_ParseArray_def split: sum.splits json.splits)
  have run: "DeserializeTemplateListResponse e body = each template_of xs"
    using Some xs by (simp add: DeserializeTemplateListResponse_def deref_def ja_elements_def)
  have "is_rms x" if "template_of j = Inl x" for j x
    using that by (auto simp: template_of_def bindE_eq_Inl jo_GetNamedString_def rms_exn_defs
        split: option.splits json.splits if_splits)
  then have "each template_of xs = Inl x \<Longrightarrow> is_rms x" for x
    by (induction xs) (auto simp: bindE_eq_Inl)
  moreover have "tr_id t \<noteq> [] \<and> tr_name t \<noteq> [] \<and> tr_description t \<noteq> []" if "template_of j = Inr t" for j t
    using that by (auto simp: template_of_def bindE_eq_Inr split: if_splits)
  then have "tr_id t \<noteq> [] \<and> tr_name t \<noteq> [] \<and> tr_description t \<noteq> []"
    if "each template_of xs = Inr ts" and "t \<in> set ts" for ts t
    using that each_all [where P = "\<lambda>t. tr_id t \<noteq> [] \<and> tr_name t \<noteq> [] \<and> tr_description t \<noteq> []"] by blast
  ultimately show ?thesis
    using Some run each_length [of template_of xs]
    by (auto simp: xs ja_Size_def list_all_iff split: sum.split)
qed (simp add: DeserializeTemplateListResponse_def deref_def)

section \<open>Instances\<close>

definition sample_js :: js_env where
  "sample_js =
     \<lparr>js_lib = \<lparr>jl_parse = (\<lambda>s. Inr (JObject [(''Key'', JObject [(''Algorithm'', JString ''AES''),
        (''CipherMode'', JString ''CBC4K''), (''Value'', JString ''AAAA'')])])), jl_dump = (\<lambda>j. Some ''{}'')\<rparr>,
      js_encode = Some, js_decode = Some, js_tz = 0, js_walk = (\<lambda>m. [])\<rparr>"

definition sample_services :: ur_services where
  "sample_services =
     \<lparr>ur_serialize = Inr, ur_parse_license = (\<lambda>pl. Inr ''d''), ur_url = (\<lambda>l m. Inr ''u''),
      ur_post = (\<lambda>u r. Inr (status_OK, r)), ur_handle_error = (\<lambda>st b. Inr ()),
      ur_deserialize = DeserializeUsageRestrictionsResponse sample_js (\<lambda>i. False)\<rparr>"

lemma sample_js_parse:
  "jp_Parse (js_lib sample_js) body = Some (JObject [(''Key'', JObject [(''Algorithm'', JString ''AES''),
     (''CipherMode'', JString ''CBC4K''), (''Value'', JString ''AAAA'')])])"
  by (simp add: jp_Parse_def sample_js_def)

theorem granted_access_fails_witness:
  "GetUsageRestrictions undefined sample_services 1 2 [7] ''m'' False 0 undefined = (Inl StdTypeError, undefined)"
  by (rule granted_access_fails [OF sample_js_parse])
    (simp_all add: sample_services_def grants_key_def string_member_def text_member_def has_cache_flag_def
      RESPONSE_CACHE_ONDISK_def)

definition sample_custom :: PublishCustomRequest where
  "sample_custom =
     \<lparr>pc_bPreferDeprecatedAlgorithms = False, pc_bAllowAuditedExtraction = True, pc_wsReferralInfo = [],
      pc_name = ''n'', pc_description = ''d'', pc_language = ''l'',
      pc_userRightsList = [\<lparr>ur_users = [''a'', ''b''], ur_rights = [''VIEW'']\<rparr>], pc_userRolesList = [],
      pc_bAllowOfflineAccess = True, pc_ftLicenseValidUntil = 0, pc_signedApplicationData = Map.empty,
      pc_encryptedApplicationData = Map.empty\<rparr>"

theorem custom_policy_echo_witness:
  "\<exists>p. policy_json sample_js sample_custom = Inr p \<and>
     custom_policy_of p = Inr (\<lparr>cu_bIsNull = False, cu_bAllowAuditedExtraction = False,
       cu_userRightsList = [\<lparr>ur_users = [''a'', ''b''], ur_rights = [''VIEW'']\<rparr>], cu_userRolesList = []\<rparr>, False)"
  using custom_policy_echo [of sample_custom sample_js] by (simp add: sample_custom_def)

end
