(* ===== verification/HttpClient.thy ===== *)
theory HttpClient
  imports DateTime StdStrings JsonValues
begin

text \<open>
  The HTTP client of the RMS layer (\<open>rms_sdk/Platform/Http/HttpClientQt.cpp\<close>) over libcurl.
  A transfer is a parameter: from the state of the network and the request it makes the
  calls of the two callbacks, in their order, each with what the flag for cancelling is at
  that moment. libcurl hands over a header with its line end and stops at the first callback
  that does not take all it is given.
\<close>

record HttpClientQt =
  hc_headers :: "string list"
  hc_resp_headers :: "(string \<times> string) list"
  hc_resp_status :: int
  hc_cancelled :: bool

definition HttpClientQt_create :: HttpClientQt where
  "HttpClientQt_create = \<lparr>hc_headers = [], hc_resp_headers = [], hc_resp_status = 0, hc_cancelled = False\<rparr>"

datatype curl_event = HeaderLine string | BodyChunk "byte list"

record curl_request =
  cq_url :: string
  cq_headers :: "string list"
  cq_post :: "byte list option"

type_synonym 'n curl = "curl_request \<Rightarrow> 'n \<Rightarrow> (curl_event \<times> bool) list \<times> 'n"

section \<open>Headers\<close>

definition hc_AddHeader :: "string \<Rightarrow> string \<Rightarrow> HttpClientQt \<Rightarrow> HttpClientQt" where
  "hc_AddHeader headerName headerValue c =
     c\<lparr>hc_headers := hc_headers c @ [c_str (headerName @ '': '' @ headerValue)]\<rparr>"

definition AddAuthorizationHeader :: "string \<Rightarrow> HttpClientQt \<Rightarrow> HttpClientQt" where
  "AddAuthorizationHeader authToken = hc_AddHeader ''Authorization'' authToken"

definition AddAcceptMediaTypeHeader :: "string \<Rightarrow> HttpClientQt \<Rightarrow> HttpClientQt" where
  "AddAcceptMediaTypeHeader mediaType = hc_AddHeader ''Accept'' mediaType"

definition AddAcceptLanguageHeader :: "string \<Rightarrow> HttpClientQt \<Rightarrow> HttpClientQt" where
  "AddAcceptLanguageHeader language = hc_AddHeader ''Accept-Language'' language"

text \<open>\<open>sscanf\<close> with \<open>%*s%d\<close>: a word, then a number.\<close>

definition ParseStatus :: "string \<Rightarrow> int" where
  "ParseStatus header =
     (let h = c_str header in
      if take 5 h = ''HTTP/''
      then (case scan_int (dropWhile (\<lambda>c. \<not> isspace c) (dropWhile isspace h)) of
              None \<Rightarrow> 0 | Some (status, r) \<Rightarrow> as_int status)
      else 0)"

text \<open>Without a colon the position wraps around to the start.\<close>

definition ParseHeader :: "string \<Rightarrow> string \<times> string" where
  "ParseHeader header =
     (case find_str '':'' header 0 of
        Some pos \<Rightarrow> (take pos header, dropWhile isspace (drop (pos + 1) header))
      | None \<Rightarrow> ([], dropWhile isspace header))"

definition onRespHeader :: "string \<Rightarrow> HttpClientQt \<Rightarrow> HttpClientQt" where
  "onRespHeader header c =
     (let status = ParseStatus header in
      if status = 0
      then (case ParseHeader header of (name, value) \<Rightarrow>
              if name \<noteq> [] then c\<lparr>hc_resp_headers := map_put name value (hc_resp_headers c)\<rparr> else c)
      else c\<lparr>hc_resp_status := status\<rparr>)"

text \<open>The map of the headers is ordered and looked up by the names as they are.\<close>

definition GetResponseHeader :: "string \<Rightarrow> HttpClientQt \<Rightarrow> string" where
  "GetResponseHeader headerName c =
     (case map_of (hc_resp_headers c) headerName of None \<Rightarrow> [] | Some v \<Rightarrow> v)"

section \<open>Requests\<close>

fun deliver :: "(curl_event \<times> bool) list \<Rightarrow> byte list \<Rightarrow> HttpClientQt \<Rightarrow> byte list \<times> HttpClientQt" where
  "deliver [] body c = (body, c)"
| "deliver ((ev, cancel) # evs) body c =
     (if cancel then (body, c\<lparr>hc_cancelled := True\<rparr>)
      else case ev of
             HeaderLine h \<Rightarrow> deliver evs body (onRespHeader h (c\<lparr>hc_cancelled := False\<rparr>))
           | BodyChunk b \<Rightarrow> deliver evs (body @ b) (c\<lparr>hc_cancelled := False\<rparr>))"

definition cancelled_by_user :: exn where
  "cancelled_by_user = RMSNetworkException ''Network operation was cancelled by user'' CancelledByUser"

definition doRequest ::
  "'n curl \<Rightarrow> string \<Rightarrow> byte list option \<Rightarrow> HttpClientQt \<Rightarrow> (exn, 'n, (int \<times> byte list) \<times> HttpClientQt) sx" where
  "doRequest curl url request c net =
     (case curl \<lparr>cq_url = c_str url, cq_headers = hc_headers c, cq_post = request\<rparr> net of (events, net') \<Rightarrow>
      case deliver events [] (c\<lparr>hc_cancelled := False, hc_resp_headers := [], hc_resp_status := 0\<rparr>) of (body, c1) \<Rightarrow>
        if hc_cancelled c1 then (Inl cancelled_by_user, net')
        else (Inr ((hc_resp_status c1, body), c1\<lparr>hc_headers := []\<rparr>), net'))"

definition hc_Get :: "'n curl \<Rightarrow> string \<Rightarrow> HttpClientQt \<Rightarrow> (exn, 'n, (int \<times> byte list) \<times> HttpClientQt) sx" where
  "hc_Get curl url c = doRequest curl url None c"

definition hc_Post ::
  "'n curl \<Rightarrow> string \<Rightarrow> byte list \<Rightarrow> string \<Rightarrow> HttpClientQt \<Rightarrow> (exn, 'n, (int \<times> byte list) \<times> HttpClientQt) sx" where
  "hc_Post curl url request mediaType c = doRequest curl url (Some request) (AddAcceptMediaTypeHeader mediaType c)"

definition SetAllowUI :: "bool \<Rightarrow> exn + unit" where
  "SetAllowUI allow = Inl (RMSNotFoundException ''Not implemented'')"

section \<open>What is kept of the headers\<close>

lemma ParseHeader_line:
  assumes "CHR '':'' \<notin> set name" and "v = [] \<or> \<not> isspace (hd v)"
  shows "ParseHeader (name @ '': '' @ v @ rest) =
    (name, if v = [] then dropWhile isspace rest else v @ rest)"
proof -
  have "takeWhile (\<lambda>d. d \<noteq> CHR '':'') (name @ '': '' @ v @ rest) = name"
    using assms(1) by (subst takeWhile_append2) auto
  then have "find_str '':'' (name @ '': '' @ v @ rest) 0 = Some (length name)"
    by (simp add: find_str_def find_at_char)
  moreover have "isspace CHR '' ''" by (simp add: isspace_def)
  ultimately show ?thesis using assms(2) by (cases v) (simp_all add: ParseHeader_def)
qed

end
