(* ===== verification/RestHttp.thy ===== *)
theory RestHttp
  imports HttpClient JsonSerializer
begin

text \<open>
  Requests to the REST services: the challenge of an endpoint and the token for it
  (\<open>rms_sdk/RestClients/AuthenticationHandler.cpp\<close>,
  \<open>ModernAPI/AuthenticationCallbackImpl.h\<close>), the request with the token
  (\<open>RestHttpClient.cpp\<close>) and what an answer other than 200 is turned into
  (\<open>RestClientErrorHandling.cpp\<close>). The callback of the application, the languages of
  the system and the random numbers are parameters.
\<close>

section \<open>Splitting and trimming\<close>

definition TrimString :: "string \<Rightarrow> string \<Rightarrow> string" where
  "TrimString str characters =
     (let r = dropWhile (\<lambda>c. c \<in> set characters) str
      in if r = [] then [] else rev (dropWhile (\<lambda>c. c \<in> set characters) (rev r)))"

definition TrimWhiteSpace :: "string \<Rightarrow> string" where
  "TrimWhiteSpace str = TrimString str [CHR '' '', CHR 0x09, CHR 0x0D, CHR 0x0A]"

function split_loop :: "string \<Rightarrow> char \<Rightarrow> nat \<Rightarrow> string list" where
  "split_loop str delimiter position =
     (if position < length str
      then (case find_str [delimiter] str position of
              None \<Rightarrow> [drop position str]
            | Some p \<Rightarrow> take (p - position) (drop position str) # split_loop str delimiter (p + 1))
      else [])"
  by pat_completeness auto
termination
  by (relation "measure (\<lambda>(str, d, position). length str - position)")
     (auto simp: find_str_def split: if_splits)

declare split_loop.simps [simp del]

definition SplitString :: "string \<Rightarrow> char \<Rightarrow> string list" where
  "SplitString str delimiter = split_loop str delimiter 0"

definition ParseNameValuePair :: "string \<Rightarrow> string \<times> string" where
  "ParseNameValuePair str =
     (case SplitString str (CHR ''='') of
        [name, val] \<Rightarrow>
          (TrimString (TrimWhiteSpace name) [CHR 0x22], TrimString (TrimWhiteSpace val) [CHR 0x22])
      | _ \<Rightarrow> ([], []))"

definition ParseNameValuePairList :: "string \<Rightarrow> (string \<times> string) list" where
  "ParseNameValuePairList str =
     filter (\<lambda>p. fst p \<noteq> []) (map ParseNameValuePair (SplitString str (CHR '','')))"

text \<open>\<open>_strnicmp\<close> stops at a NUL of either string; the prefix has none.\<close>

definition ValidateAndTrimStringPrefix :: "string \<Rightarrow> string \<Rightarrow> string" where
  "ValidateAndTrimStringPrefix str prefix =
     (if map to_lower (take (length prefix) (c_str str)) = map to_lower prefix
      then drop (length prefix) str else [])"

section \<open>The challenge\<close>

record AuthenticationChallenge =
  ac_authority :: string
  ac_resource :: string
  ac_scope :: string

definition IsEvoEnabled :: bool where "IsEvoEnabled = True"

record challenge_fields =
  cf_authority :: string
  cf_resource :: string
  cf_realm :: string
  cf_scope :: string

definition take_field :: "string \<times> string \<Rightarrow> challenge_fields \<Rightarrow> challenge_fields" where
  "take_field p f =
     (if stricmp_eq ''authorization_uri'' (fst p) \<or> stricmp_eq ''authorization'' (fst p)
      then f\<lparr>cf_authority := snd p\<rparr>
      else if stricmp_eq ''realm'' (fst p) then f\<lparr>cf_realm := snd p\<rparr>
      else if stricmp_eq ''resource'' (fst p) then f\<lparr>cf_resource := snd p\<rparr>
      else if stricmp_eq ''scope'' (fst p) then f\<lparr>cf_scope := snd p\<rparr>
      else f)"

definition server_error :: "string \<Rightarrow> exn" where
  "server_error msg = RMSNetworkException msg ServerError"

definition resource_of_url :: "string \<Rightarrow> exn + string" where
  "resource_of_url url =
     bindE (IUri_Create url) (\<lambda>uri.
       if uri_scheme uri \<noteq> ''http'' \<and> uri_scheme uri \<noteq> ''https''
       then Inl (server_error ''Invalid scheme'')
       else Inr (if CHR '':'' \<in> set (uri_host uri) then uri_host uri
                 else uri_host uri @ '':'' @ show_int (uri_port uri)))"

definition ParseChallengeHeader :: "string \<Rightarrow> string \<Rightarrow> exn + AuthenticationChallenge" where
  "ParseChallengeHeader header url =
     (let trimmed = ValidateAndTrimStringPrefix header ''Bearer ''
      in if trimmed = [] then Inl (server_error ''Challenge is not bearer'')
         else let f = fold take_field (ParseNameValuePairList trimmed)
                    \<lparr>cf_authority = [], cf_resource = [], cf_realm = [], cf_scope = []\<rparr>;
                  (resource, scope) =
                    (if IsEvoEnabled \<and> cf_resource f \<noteq> [] then (cf_resource f, cf_realm f)
                     else (cf_realm f, cf_scope f))
              in if cf_authority f = [] then Inl (server_error ''Invalid challenge returned by the server.'')
                 else bindE (if resource = [] then resource_of_url url else Inr resource) (\<lambda>resource.
                        Inr \<lparr>ac_authority = cf_authority f, ac_resource = resource, ac_scope = scope\<rparr>))"

definition status_UNAUTHORIZED :: int where "status_UNAUTHORIZED = 401"

text \<open>Either a challenge or a server error; a failure that is no \<open>RMSException\<close> stays what it is.\<close>

definition challenge_of_answer :: "string \<Rightarrow> int \<Rightarrow> HttpClientQt \<Rightarrow> exn + AuthenticationChallenge" where
  "challenge_of_answer url status client =
     (if status \<noteq> status_UNAUTHORIZED then Inl (server_error ''Server error'')
      else case ParseChallengeHeader (GetResponseHeader ''WWW-Authenticate'' client) url of
             Inl e \<Rightarrow> Inl (if is_rms e then server_error ''Server error'' else e)
           | Inr c \<Rightarrow> Inr c)"

record AuthenticationHandlerParameters =
  ap_ServerPublicCertificate :: string
  ap_ServiceDiscoverUrl :: string

definition slc_headers :: "AuthenticationHandlerParameters \<Rightarrow> HttpClientQt \<Rightarrow> HttpClientQt" where
  "slc_headers ap client =
     (if IsEvoEnabled \<and> ap_ServerPublicCertificate ap \<noteq> [] \<and> ap_ServiceDiscoverUrl ap \<noteq> []
      then hc_AddHeader ''x-ms-rms-service-url'' (ap_ServiceDiscoverUrl ap)
             (hc_AddHeader ''x-ms-rms-slc-key'' (ap_ServerPublicCertificate ap) client)
      else client)"

definition GetChallengeForUrl_get ::
  "'n curl \<Rightarrow> string \<Rightarrow> AuthenticationHandlerParameters \<Rightarrow> (exn, 'n, AuthenticationChallenge) sx" where
  "GetChallengeForUrl_get curl url ap =
     bnd (hc_Get curl url (slc_headers ap HttpClientQt_create)) (\<lambda>((status, response), client).
       liftE (challenge_of_answer url status client))"

definition GetChallengeForUrl_post ::
  "'n curl \<Rightarrow> string \<Rightarrow> byte list \<Rightarrow> (exn, 'n, AuthenticationChallenge) sx" where
  "GetChallengeForUrl_post curl url requestBody =
     bnd (hc_Post curl url requestBody ''application/json''
           (hc_AddHeader ''content-type'' ''application/json'' HttpClientQt_create))
       (\<lambda>((status, response), client). liftE (challenge_of_answer url status client))"

section \<open>The token\<close>

record 'n IAuthenticationCallbackImpl =
  cb_NeedsChallenge :: bool
  cb_GetAccessToken :: "AuthenticationChallenge \<Rightarrow> (exn, 'n, string) sx"

record AuthenticationParameters =
  ap_Authority :: string
  ap_Resource :: string
  ap_Scope :: string
  ap_UserId :: string

definition AuthenticationCallbackImpl ::
  "(AuthenticationParameters \<Rightarrow> (exn, 'n, string) sx) \<Rightarrow> string \<Rightarrow> 'n IAuthenticationCallbackImpl" where
  "AuthenticationCallbackImpl getToken userId =
     \<lparr>cb_NeedsChallenge = True,
      cb_GetAccessToken = (\<lambda>challenge. getToken
        \<lparr>ap_Authority = ac_authority challenge, ap_Resource = ac_resource challenge,
         ap_Scope = ac_scope challenge, ap_UserId = userId\<rparr>)\<rparr>"

definition no_challenge :: AuthenticationChallenge where
  "no_challenge = \<lparr>ac_authority = [], ac_resource = [], ac_scope = []\<rparr>"

definition GetAccessTokenForUrl_get ::
  "'n curl \<Rightarrow> 'n IAuthenticationCallbackImpl \<Rightarrow> string \<Rightarrow> AuthenticationHandlerParameters \<Rightarrow>
   (exn, 'n, string) sx" where
  "GetAccessTokenForUrl_get curl callback url ap =
     bnd (if cb_NeedsChallenge callback then GetChallengeForUrl_get curl url ap else ret no_challenge)
       (cb_GetAccessToken callback)"

definition GetAccessTokenForUrl_post ::
  "'n curl \<Rightarrow> 'n IAuthenticationCallbackImpl \<Rightarrow> string \<Rightarrow> byte list \<Rightarrow> (exn, 'n, string) sx" where
  "GetAccessTokenForUrl_post curl callback url requestBody =
     bnd (if cb_NeedsChallenge callback then GetChallengeForUrl_post curl url requestBody else ret no_challenge)
       (cb_GetAccessToken callback)"

section \<open>The request\<close>

text \<open>The environment of a request: the draws of its two GUIDs and the languages.\<close>

record rest_env =
  rq_draws :: "nat \<Rightarrow> nat \<Rightarrow> nat"
  rq_languages :: "string list"

definition hex_digit :: "nat \<Rightarrow> char" where
  "hex_digit n = (if n < 10 then char_of (48 + n) else char_of (55 + n))"

definition guid_digits :: "(nat \<Rightarrow> nat) \<Rightarrow> nat \<Rightarrow> nat \<Rightarrow> string" where
  "guid_digits dis from_i n = map (\<lambda>i. hex_digit (dis i)) [from_i ..< from_i + n]"

definition GenerateAGuid :: "(nat \<Rightarrow> nat) \<Rightarrow> string" where
  "GenerateAGuid dis =
     ''{'' @ guid_digits dis 0 8 @ ''-'' @ guid_digits dis 8 4 @ ''-4'' @ guid_digits dis 12 3 @ ''-'' @
     guid_digits dis 15 1 @ guid_digits dis 16 3 @ ''-'' @ guid_digits dis 19 12 @ ''}''"

definition GenerateRequestId :: "rest_env \<Rightarrow> string" where
  "GenerateRequestId e = GenerateAGuid (rq_draws e 0) @ '';'' @ GenerateAGuid (rq_draws e 1)"

definition ConstructAuthTokenHeader :: "string \<Rightarrow> string" where
  "ConstructAuthTokenHeader accessToken = ''Bearer '' @ accessToken"

definition ConstructLanguageHeader :: "string list \<Rightarrow> string" where
  "ConstructLanguageHeader appLanguages =
     foldl (\<lambda>str1 str2. if str1 = [] then str2 else str1 @ '', '' @ str2) [] appLanguages"

definition GetPlatformIdHeader :: string where
  "GetPlatformIdHeader = ''AppName=rmscore;AppVersion=1.0;DevicePlatform=WindowsStore;SDKVersion=4.1;''"

definition request_headers :: "rest_env \<Rightarrow> string \<Rightarrow> HttpClientQt \<Rightarrow> HttpClientQt" where
  "request_headers e accessToken client =
     hc_AddHeader ''x-ms-rms-platform-id'' GetPlatformIdHeader
      (hc_AddHeader ''x-ms-rms-request-id'' (GenerateRequestId e)
        (AddAuthorizationHeader (ConstructAuthTokenHeader accessToken)
          (AddAcceptLanguageHeader (ConstructLanguageHeader (rq_languages e))
            (hc_AddHeader ''content-type'' ''application/json''
              (AddAcceptMediaTypeHeader ''application/json'' client)))))"

text \<open>A request with a body is a \<open>POST\<close>.\<close>

definition DoHttpRequest ::
  "'n curl \<Rightarrow> rest_env \<Rightarrow> string \<Rightarrow> byte list option \<Rightarrow> string \<Rightarrow> (exn, 'n, int \<times> byte list) sx" where
  "DoHttpRequest curl e url requestBody accessToken =
     (let client = request_headers e accessToken HttpClientQt_create
      in bnd (case requestBody of Some b \<Rightarrow> hc_Post curl url b ''application/json'' client
              | None \<Rightarrow> hc_Get curl url client)
           (\<lambda>(result, client'). ret result))"

definition rest_Get ::
  "'n curl \<Rightarrow> rest_env \<Rightarrow> 'n IAuthenticationCallbackImpl \<Rightarrow> string \<Rightarrow> AuthenticationHandlerParameters \<Rightarrow>
   (exn, 'n, int \<times> byte list) sx" where
  "rest_Get curl e callback url ap =
     bnd (GetAccessTokenForUrl_get curl callback url ap) (DoHttpRequest curl e url None)"

definition rest_Post ::
  "'n curl \<Rightarrow> rest_env \<Rightarrow> 'n IAuthenticationCallbackImpl \<Rightarrow> string \<Rightarrow> byte list \<Rightarrow>
   (exn, 'n, int \<times> byte list) sx" where
  "rest_Post curl e callback url requestBody =
     bnd (GetAccessTokenForUrl_post curl callback url requestBody) (DoHttpRequest curl e url (Some requestBody))"

section \<open>Answers other than 200\<close>

definition service_error :: "string \<Rightarrow> exn" where
  "service_error code =
     (let is = (\<lambda>name. stricmp_eq (''Microsoft.RightsManagement.Exceptions.'' @ name) code)
      in if is ''UnrecognizedUrlException'' \<or> is ''UnknownTenantException''
         then RMSNetworkException ''Content protected by the on prem servers is not supported in this version.''
                OnPremNotSupported
         else if is ''BadInputException'' then RMSNetworkException ''Invalid PL'' InvalidPL
         else if is ''ServiceDisabledException''
         then RMSNetworkException ''REST Service is disabled for publishing for this user.'' ServiceDisabled
         else if is ''DevicePlatformNotRecognizedException'' \<or> is ''DevicePlatformDisabledException''
         then RMSNetworkException ''REST Service is disabled for this device'' DeviceRejected
         else if is ''ServiceDisabledForApplicationException''
         then RMSNetworkException ''REST Service is disabled for this platform'' ServiceDisabled
         else if is ''NotSignedUpException''
         then RMSNetworkException ''REST Service is disabled for this tenant'' ServiceDisabled
         else server_error ''RMS service error.'')"

definition HandleRestClientError :: "js_env \<Rightarrow> int \<Rightarrow> byte list \<Rightarrow> exn + unit" where
  "HandleRestClientError e httpStatusCode sResponse =
     (if httpStatusCode = 200 then Inr ()
      else if httpStatusCode = 401 then Inl (RMSRightsException ''The service didn't accept the auth token.'')
      else if httpStatusCode = 404
      then Inl (RMSNetworkException ''RMS service - resource not available.'' ServiceNotAvailable)
      else if httpStatusCode = 502
      then Inl (RMSNetworkException ''RMS service is unavailable.'' ServiceNotAvailable)
      else if httpStatusCode = 400 \<or> httpStatusCode = 500
      then (case DeserializeErrorResponse e sResponse of
              Inl x \<Rightarrow> Inl (if is_rms x then server_error ''RMS service error.'' else x)
            | Inr r \<Rightarrow> Inl (service_error (se_code r)))
      else Inl (server_error ''RMS service error.''))"

end
