(* ===== verification/RestHttpProperties.thy ===== *)
theory RestHttpProperties
  imports RestHttp "HOL-Library.Multiset"
begin

text \<open>What the theorems say of the requests to the REST services.\<close>

section \<open>Splitting\<close>

lemma split_loop_getlines: "split_loop str d n = getlines d (drop n str)"
proof (induction str d n rule: split_loop.induct)
  case (1 str d n)
  show ?case
  proof (cases "n < length str")
    case True
    let ?r = "drop n str"
    have r: "?r \<noteq> []" using True by simp
    show ?thesis
    proof (cases "d \<in> set ?r")
      case False
      then have "find_str [d] str n = None" by (simp add: find_str_def find_at_char)
      then show ?thesis using True False getlines_last [OF r] by (subst split_loop.simps) simp
    next
      case there: True
      then obtain pre post where s: "?r = pre @ d # post" "d \<notin> set pre"
        by (meson split_list_first)
      then have "takeWhile (\<lambda>c. c \<noteq> d) ?r = pre" by (simp only: s(1)) (subst takeWhile_append2; auto)
      then have f: "find_str [d] str n = Some (n + length pre)"
        using there True by (simp add: find_str_def find_at_char)
      have "drop (n + length pre + 1) str = drop (length pre + 1) ?r" by (simp add: add.commute add.left_commute)
      then have p: "drop (n + length pre + 1) str = post" by (simp only: s(1)) simp
      have "split_loop str d n = pre # split_loop str d (n + length pre + 1)"
        by (subst split_loop.simps) (simp add: True f s(1))
      also have "\<dots> = pre # getlines d post" using "1.IH" [OF True f] p by simp
      finally show ?thesis by (simp only: s(1) getlines_delim [OF s(2)])
    qed
  qed (subst split_loop.simps, simp)
qed

lemma SplitString_getlines: "SplitString str d = getlines d str"
  by (simp add: SplitString_def split_loop_getlines)

lemma getlines_join:
  assumes "\<forall>x\<in>set xs. x \<noteq> [] \<and> d \<notin> set x" and "xs \<noteq> []"
  shows "getlines d (foldr (\<lambda>x r. x @ (if r = [] then [] else d # r)) xs []) = xs"
  using assms
proof (induction xs)
  case (Cons x xs)
  let ?j = "foldr (\<lambda>x r. x @ (if r = [] then [] else d # r)) xs []"
  have x: "x \<noteq> []" "d \<notin> set x" using Cons.prems by auto
  show ?case
  proof (cases xs)
    case Nil
    then show ?thesis using x by (simp add: getlines_last)
  next
    case (Cons y ys)
    then have "?j \<noteq> []" using Cons.prems by auto
    moreover have "getlines d ?j = xs" using Cons.IH Cons.prems Cons by simp
    ultimately show ?thesis using x by (simp add: getlines_delim)
  qed
qed simp

section \<open>Reading a challenge\<close>

text \<open>A field as servers write it, and a list of them after the name of the scheme.\<close>

definition challenge_field :: "string \<times> string \<Rightarrow> string" where
  "challenge_field p = fst p @ [CHR ''='', CHR 0x22] @ snd p @ [CHR 0x22]"

fun challenge_text :: "(string \<times> string) list \<Rightarrow> string" where
  "challenge_text [] = []"
| "challenge_text [p] = challenge_field p @ [CHR 0x0D, CHR 0x0A]"
| "challenge_text (p # ps) = challenge_field p @ CHR '','' # CHR '' '' # challenge_text ps"

definition plain_field :: "string \<times> string \<Rightarrow> bool" where
  "plain_field p \<longleftrightarrow> fst p \<noteq> [] \<and>
     set (fst p) \<inter> set [CHR '','', CHR ''='', CHR 0x22, CHR '' '', CHR 0x09, CHR 0x0D, CHR 0x0A] = {} \<and>
     set (snd p) \<inter> set [CHR '','', CHR ''='', CHR 0x22] = {}"

lemma TrimString_kept:
  assumes "x \<noteq> []" and "hd x \<notin> set cs" and "last x \<notin> set cs" and "set pre \<subseteq> set cs" and "set post \<subseteq> set cs"
  shows "TrimString (pre @ x @ post) cs = x"
proof -
  obtain a x1 where a: "x = a # x1" using assms(1) by (cases x) auto
  obtain b x2 where b: "rev x = b # x2" using assms(1) by (cases "rev x") auto
  have "dropWhile (\<lambda>c. c \<in> set cs) (pre @ x @ post) = x @ post"
    using assms(2,4) by (subst dropWhile_append2) (auto simp: a)
  moreover have "b \<notin> set cs" using assms(1,3) b by (simp add: last_rev hd_rev [symmetric])
  then have "dropWhile (\<lambda>c. c \<in> set cs) (rev post @ rev x) = rev x"
    using assms(5) by (subst dropWhile_append2) (auto simp: b)
  ultimately show ?thesis using assms(1) by (simp add: TrimString_def)
qed

lemma TrimString_all: "set x \<subseteq> set cs \<Longrightarrow> TrimString x cs = []"
  by (auto simp: TrimString_def dropWhile_eq_Nil_conv)

definition blanks :: string where
  "blanks = [CHR '' '', CHR 0x09, CHR 0x0D, CHR 0x0A]"

lemma TrimWhiteSpace_kept:
  "x \<noteq> [] \<Longrightarrow> hd x \<notin> set blanks \<Longrightarrow> last x \<notin> set blanks \<Longrightarrow> set pre \<subseteq> set blanks \<Longrightarrow> set post \<subseteq> set blanks \<Longrightarrow>
   TrimWhiteSpace (pre @ x @ post) = x"
  by (simp add: TrimWhiteSpace_def TrimString_kept blanks_def)

lemma quotes_trimmed:
  assumes "CHR 0x22 \<notin> set v"
  shows "TrimString (CHR 0x22 # v @ [CHR 0x22]) [CHR 0x22] = v"
proof (cases "v = []")
  case True
  then show ?thesis by (simp add: TrimString_def)
next
  case False
  moreover have "hd v \<noteq> CHR 0x22" "last v \<noteq> CHR 0x22"
    using assms hd_in_set [OF False] last_in_set [OF False] by metis+
  ultimately show ?thesis
    using TrimString_kept [of v "[CHR 0x22]" "[CHR 0x22]" "[CHR 0x22]"] by simp
qed

lemma name_trimmed:
  assumes "n \<noteq> []" and "set n \<inter> (set blanks \<union> {CHR 0x22}) = {}" and "set pre \<subseteq> set blanks"
  shows "TrimString (TrimWhiteSpace (pre @ n)) [CHR 0x22] = n"
proof -
  have h: "hd n \<notin> set blanks \<union> {CHR 0x22}" "last n \<notin> set blanks \<union> {CHR 0x22}"
    using assms(2) hd_in_set [OF assms(1)] last_in_set [OF assms(1)] by blast+
  then have "TrimWhiteSpace (pre @ n @ []) = n"
    using assms(1,3) by (intro TrimWhiteSpace_kept) simp_all
  moreover have "TrimString ([] @ n @ []) [CHR 0x22] = n"
    using assms(1) h by (intro TrimString_kept) simp_all
  ultimately show ?thesis by simp
qed

lemma field_read:
  assumes "plain_field p" and "set pre \<subseteq> set blanks" and "set post \<subseteq> set blanks"
  shows "ParseNameValuePair (pre @ challenge_field p @ post) = p"
proof -
  obtain n v where p: "p = (n, v)" by force
  let ?q = "CHR 0x22 # v @ [CHR 0x22]"
  have n: "n \<noteq> []" "set n \<inter> (set blanks \<union> {CHR 0x22}) = {}" "CHR ''='' \<notin> set n"
    and v: "CHR ''='' \<notin> set v" "CHR 0x22 \<notin> set v"
    using assms(1) by (auto simp: plain_field_def p blanks_def)
  have b: "CHR ''='' \<notin> set blanks" "CHR 0x22 \<notin> set blanks" by (auto simp: blanks_def)
  have "CHR ''='' \<notin> set (pre @ n)" using n(3) b(1) assms(2) by auto
  moreover have "CHR ''='' \<notin> set (?q @ post)" using v(1) b(1) assms(3) by auto
  ultimately have "SplitString (pre @ challenge_field p @ post) (CHR ''='') = [pre @ n, ?q @ post]"
    using getlines_delim [of "CHR ''=''" "pre @ n" "?q @ post"] getlines_last [of "?q @ post" "CHR ''=''"]
    by (simp add: SplitString_getlines challenge_field_def p)
  moreover have "TrimWhiteSpace ([] @ ?q @ post) = ?q"
    using b(2) assms(3) by (intro TrimWhiteSpace_kept) auto
  ultimately show ?thesis
    using name_trimmed [OF n(1,2) assms(2)] quotes_trimmed [OF v(2)] by (simp add: ParseNameValuePair_def p)
qed

lemma field_comma: "plain_field p \<Longrightarrow> CHR '','' \<notin> set (challenge_field p)"
  by (auto simp: plain_field_def challenge_field_def)

lemma fields_read:
  "list_all plain_field ps \<Longrightarrow> ps \<noteq> [] \<Longrightarrow> set pre \<subseteq> set blanks \<Longrightarrow>
   map ParseNameValuePair (SplitString (pre @ challenge_text ps) (CHR '','')) = ps"
proof (induction ps arbitrary: pre rule: challenge_text.induct)
  case (2 p)
  have b: "CHR '','' \<notin> set blanks" by (simp add: blanks_def)
  have "CHR '','' \<notin> set (pre @ challenge_field p @ [CHR 0x0D, CHR 0x0A])"
    using 2 b field_comma [of p] by auto
  moreover have "ParseNameValuePair (pre @ challenge_field p @ [CHR 0x0D, CHR 0x0A]) = p"
    using 2 by (intro field_read) (simp_all add: blanks_def)
  ultimately show ?case by (simp add: SplitString_getlines getlines_last)
next
  case (3 p q ps)
  have b: "CHR '','' \<notin> set blanks" by (simp add: blanks_def)
  have "CHR '','' \<notin> set (pre @ challenge_field p)" using 3(2,4) b field_comma [of p] by auto
  moreover have "map ParseNameValuePair (SplitString ([CHR '' ''] @ challenge_text (q # ps)) (CHR '','')) = q # ps"
    using 3(2) by (intro 3(1)) (simp_all add: blanks_def)
  moreover have "ParseNameValuePair (pre @ challenge_field p @ []) = p"
    using 3(2,4) by (intro field_read) simp_all
  ultimately show ?case
    using getlines_delim [of "CHR '',''" "pre @ challenge_field p" "[CHR '' ''] @ challenge_text (q # ps)"]
    by (simp add: SplitString_getlines)
qed simp

lemma challenge_fields_read:
  assumes "list_all plain_field ps"
  shows "ParseNameValuePairList (challenge_text ps) = ps"
proof (cases "ps = []")
  case True
  then show ?thesis by (simp add: ParseNameValuePairList_def SplitString_getlines)
next
  case False
  have "filter (\<lambda>p. fst p \<noteq> []) ps = ps"
    using assms by (auto simp: filter_id_conv list_all_iff plain_field_def)
  then show ?thesis using fields_read [OF assms False, of "[]"] by (simp add: ParseNameValuePairList_def)
qed

lemma challenge_prefix: "ValidateAndTrimStringPrefix (''Bearer '' @ t) ''Bearer '' = t"
  by (simp add: ValidateAndTrimStringPrefix_def c_str_def)

lemma challenge_line_kept:
  assumes "v = [] \<or> \<not> isspace (hd v)" and "CHR '':'' \<notin> set name" and "name \<noteq> []" and "take 5 (name @ '': '' @ v) \<noteq> ''HTTP/''"
    and "v \<noteq> []" and "CHR 0x00 \<notin> set name"
  shows "onRespHeader (name @ '': '' @ v) c = c\<lparr>hc_resp_headers := map_put name v (hc_resp_headers c)\<rparr>"
proof -
  have "take 5 (c_str (name @ '': '' @ v)) \<noteq> ''HTTP/''"
  proof
    assume "take 5 (c_str (name @ '': '' @ v)) = ''HTTP/''"
    moreover have "\<exists>t. name @ '': '' @ v = c_str (name @ '': '' @ v) @ t"
      unfolding c_str_def by (metis takeWhile_dropWhile_id)
    ultimately obtain t where "name @ '': '' @ v = ''HTTP/'' @ t"
      by (metis append.assoc append_take_drop_id)
    then show False using assms(4) by simp
  qed
  then have "ParseStatus (name @ '': '' @ v) = 0" by (simp add: ParseStatus_def Let_def)
  moreover have "ParseHeader (name @ '': '' @ v @ []) = (name, v @ [])"
    using ParseHeader_line [OF assms(2,1), of "[]"] assms(5) by simp
  ultimately show ?thesis using assms(3) by (simp add: onRespHeader_def)
qed

definition named_challenge :: "string \<Rightarrow> string \<Rightarrow> string \<Rightarrow> (string \<times> string) list" where
  "named_challenge a r s = [(''authorization'', a), (''resource'', r), (''realm'', s)]"

lemma take_fields:
  assumes "mset ps = mset (named_challenge a r s)"
  shows "fold take_field ps f = f\<lparr>cf_authority := a, cf_resource := r, cf_realm := s\<rparr>"
proof -
  have n: "stricmp_eq ''authorization'' ''authorization''" "\<not> stricmp_eq ''authorization_uri'' ''resource''"
    "\<not> stricmp_eq ''authorization'' ''resource''" "\<not> stricmp_eq ''realm'' ''resource''"
    "\<not> stricmp_eq ''authorization_uri'' ''realm''" "\<not> stricmp_eq ''authorization'' ''realm''"
    by code_simp+
  define A where "A = (''authorization'', a)"
  define R where "R = (''resource'', r)"
  define S where "S = (''realm'', s)"
  have tf: "take_field A f = f\<lparr>cf_authority := a\<rparr>" "take_field R f = f\<lparr>cf_resource := r\<rparr>"
    "take_field S f = f\<lparr>cf_realm := s\<rparr>" for f
    by (simp_all add: take_field_def n A_def R_def S_def)
  have nc: "named_challenge a r s = [A, R, S]" by (simp add: named_challenge_def A_def R_def S_def)
  have sub: "set ps \<subseteq> {A, R, S}" using mset_eq_setD [OF assms] by (simp add: nc)
  have all: "\<forall>x\<in>{A, R, S}. \<forall>y\<in>{A, R, S}. take_field x \<circ> take_field y = take_field y \<circ> take_field x"
    by (simp add: fun_eq_iff tf)
  have "take_field x \<circ> take_field y = take_field y \<circ> take_field x" if "x \<in> set ps" "y \<in> set ps" for x y
    using all subsetD [OF sub that(1)] subsetD [OF sub that(2)] by blast
  then have "fold take_field ps = fold take_field (named_challenge a r s)"
    using assms by (rule fold_multiset_equiv)
  then show ?thesis by (simp add: nc tf)
qed

text \<open>
  C17: the challenge of an endpoint is read from its answer: with an authority, a resource and a
  realm in the \<open>WWW-Authenticate\<close> line, in any order and with the line end that libcurl leaves
  on, a request that ended with 401 gives exactly these three.
\<close>

theorem challenge_answer_read:
  assumes "mset ps = mset (named_challenge a r s)" and "list_all plain_field ps" and "a \<noteq> []" and "r \<noteq> []"
  shows "challenge_of_answer url 401 (onRespHeader (''WWW-Authenticate: Bearer '' @ challenge_text ps) c) =
    Inr \<lparr>ac_authority = a, ac_resource = r, ac_scope = s\<rparr>"
proof -
  have "ps \<noteq> []" using assms(1) by (auto simp: named_challenge_def)
  then have t: "challenge_text ps \<noteq> []"
    by (cases ps rule: challenge_text.cases) (auto simp: challenge_field_def)
  let ?v = "''Bearer '' @ challenge_text ps"
  have "onRespHeader (''WWW-Authenticate'' @ '': '' @ ?v) c =
      c\<lparr>hc_resp_headers := map_put ''WWW-Authenticate'' ?v (hc_resp_headers c)\<rparr>"
    by (rule challenge_line_kept) (simp_all add: isspace_def)
  then have "GetResponseHeader ''WWW-Authenticate'' (onRespHeader (''WWW-Authenticate: Bearer '' @ challenge_text ps) c) = ?v"
    by (simp add: GetResponseHeader_def map_of_map_put)
  moreover have "ParseChallengeHeader ?v url = Inr \<lparr>ac_authority = a, ac_resource = r, ac_scope = s\<rparr>"
    unfolding ParseChallengeHeader_def Let_def challenge_prefix challenge_fields_read [OF assms(2)] take_fields [OF assms(1)]
    using t assms(3,4) by (simp add: IsEvoEnabled_def)
  ultimately show ?thesis
    by (simp only: challenge_of_answer_def status_UNAUTHORIZED_def) simp
qed

theorem challenge_answer_read_witness:
  "challenge_of_answer ''https://h/'' 401
     (onRespHeader (''WWW-Authenticate: Bearer '' @
        challenge_text [(''realm'', ''z''), (''authorization'', ''https://l/''), (''resource'', ''x'')]) HttpClientQt_create) =
   Inr \<lparr>ac_authority = ''https://l/'', ac_resource = ''x'', ac_scope = ''z''\<rparr>"
  by (rule challenge_answer_read) (simp_all add: named_challenge_def plain_field_def)

text \<open>
  The same answer with the header's name in lower case, as every server sends it over
  HTTP/2, is refused as a server error: the names of headers are compared as they are.
\<close>

theorem lower_case_challenge_lost:
  assumes "map_of (hc_resp_headers c) ''WWW-Authenticate'' = None"
  shows "challenge_of_answer url 401 (onRespHeader (''www-authenticate: Bearer '' @ t) c) =
    Inl (server_error ''Server error'')"
proof -
  let ?v = "''Bearer '' @ t"
  have "onRespHeader (''www-authenticate'' @ '': '' @ ?v) c =
      c\<lparr>hc_resp_headers := map_put ''www-authenticate'' ?v (hc_resp_headers c)\<rparr>"
    by (rule challenge_line_kept) (simp_all add: isspace_def)
  then have "GetResponseHeader ''WWW-Authenticate'' (onRespHeader (''www-authenticate: Bearer '' @ t) c) = []"
    using assms by (simp add: GetResponseHeader_def map_of_map_put)
  moreover have "ValidateAndTrimStringPrefix [] ''Bearer '' = []"
    by (simp add: ValidateAndTrimStringPrefix_def c_str_def)
  ultimately show ?thesis
    by (simp add: challenge_of_answer_def status_UNAUTHORIZED_def ParseChallengeHeader_def server_error_def rms_exn_defs)
qed

theorem lower_case_challenge_lost_witness:
  "\<forall>url t. challenge_of_answer url 401 (onRespHeader (''www-authenticate: Bearer '' @ t) HttpClientQt_create) =
   Inl (server_error ''Server error'')"
  by (intro allI, rule lower_case_challenge_lost) (simp add: HttpClientQt_create_def)

section \<open>The order of the requests\<close>

text \<open>The same network with a record of the requests; the application makes none of its own.\<close>

definition recorded :: "'n curl \<Rightarrow> (curl_request list \<times> 'n) curl" where
  "recorded curl request net =
     (case curl request (snd net) of (events, n) \<Rightarrow> (events, (fst net @ [request], n)))"

definition unrecorded :: "('p \<Rightarrow> (exn, 'n, 'a) sx) \<Rightarrow> 'p \<Rightarrow> (exn, 'l \<times> 'n, 'a) sx" where
  "unrecorded m p net = (case m p (snd net) of (r, n) \<Rightarrow> (r, (fst net, n)))"

definition carries_token :: "string \<Rightarrow> bool" where
  "carries_token header \<longleftrightarrow> take 14 header = ''Authorization:''"

definition challenge_request :: "string \<Rightarrow> AuthenticationHandlerParameters \<Rightarrow> curl_request" where
  "challenge_request url ap =
     \<lparr>cq_url = c_str url, cq_headers = hc_headers (slc_headers ap HttpClientQt_create), cq_post = None\<rparr>"

definition token_request :: "rest_env \<Rightarrow> string \<Rightarrow> string \<Rightarrow> curl_request" where
  "token_request e url tok =
     \<lparr>cq_url = c_str url, cq_headers = hc_headers (request_headers e tok HttpClientQt_create), cq_post = None\<rparr>"

lemma doRequest_recorded:
  "doRequest (recorded curl) url b c (l, net) =
   (case doRequest curl url b c net of
      (r, n) \<Rightarrow> (r, (l @ [\<lparr>cq_url = c_str url, cq_headers = hc_headers c, cq_post = b\<rparr>], n)))"
  by (simp add: doRequest_def recorded_def split: prod.splits)

lemma challenge_recorded:
  "GetChallengeForUrl_get (recorded curl) url ap (l, net) =
   (case GetChallengeForUrl_get curl url ap net of (r, n) \<Rightarrow> (r, (l @ [challenge_request url ap], n)))"
  by (simp add: GetChallengeForUrl_get_def hc_Get_def bnd_def liftE_def doRequest_recorded challenge_request_def
      split: prod.splits sum.splits)

lemma request_recorded:
  "fst (snd (DoHttpRequest (recorded curl) e url None tok (l, net))) = l @ [token_request e url tok]"
  by (simp add: DoHttpRequest_def hc_Get_def bnd_def ret_def token_request_def Let_def doRequest_recorded
      split: prod.splits sum.splits)

lemma challenge_request_plain: "list_all (\<lambda>h. \<not> carries_token h) (cq_headers (challenge_request url ap))"
  by (simp add: challenge_request_def slc_headers_def HttpClientQt_create_def hc_AddHeader_def carries_token_def c_str_def)

text \<open>
  C11: The token leaves the machine in one request only: with the callback of an application, a
  \<open>GET\<close> first asks the same address without any authorization, and the request with the token
  is made only when that answer was a challenge, which the application was given, and it
  produced the token from it.
\<close>

theorem token_only_after_challenge:
  "case rest_Get (recorded curl) e (AuthenticationCallbackImpl (unrecorded getToken) userId) url ap ([], net) of
     (r, (sent, net')) \<Rightarrow>
       list_all (\<lambda>h. \<not> carries_token h) (cq_headers (challenge_request url ap)) \<and>
       (case GetChallengeForUrl_get curl url ap net of
          (Inl x, n) \<Rightarrow> r = Inl x \<and> sent = [challenge_request url ap]
        | (Inr ch, n) \<Rightarrow>
            (case getToken \<lparr>ap_Authority = ac_authority ch, ap_Resource = ac_resource ch,
                            ap_Scope = ac_scope ch, ap_UserId = userId\<rparr> n of
               (Inl x, n') \<Rightarrow> r = Inl x \<and> sent = [challenge_request url ap]
             | (Inr tok, n') \<Rightarrow> sent = [challenge_request url ap, token_request e url tok]))"
proof -
  have second: "l = [challenge_request url ap, token_request e url tok]"
    if "DoHttpRequest (recorded curl) e url None tok ([challenge_request url ap], n) = (x, l, m)" for tok n x l m
    using request_recorded [of curl e url tok "[challenge_request url ap]" n] that by simp
  show ?thesis
    using challenge_request_plain [of url ap]
    by (auto simp: rest_Get_def GetAccessTokenForUrl_get_def AuthenticationCallbackImpl_def bnd_def challenge_recorded
        unrecorded_def split: prod.splits sum.splits dest: second)
qed

section \<open>Refused values and answers\<close>

lemma value_with_equals:
  assumes "CHR ''='' \<notin> set (name @ u)"
  shows "ParseNameValuePair (challenge_field (name, u @ CHR ''='' # v)) = ([], [])"
proof -
  have "v @ [CHR 0x22] \<noteq> []" by simp
  then obtain x xs where v: "getlines (CHR ''='') (v @ [CHR 0x22]) = x # xs" by (metis getlines_at)
  have "getlines (CHR ''='') (name @ CHR ''='' # (CHR 0x22 # u) @ CHR ''='' # v @ [CHR 0x22]) =
      name # (CHR 0x22 # u) # x # xs"
    using assms by (subst getlines_delim, simp, subst getlines_delim) (simp_all add: v)
  then show ?thesis by (simp add: ParseNameValuePair_def SplitString_getlines challenge_field_def)
qed

text \<open>
  A value with an equals sign in it is no field at all: a challenge whose authority is an
  address with a query is refused.
\<close>

theorem authority_with_query_refused:
  assumes "CHR ''='' \<notin> set u" and "CHR '','' \<notin> set (u @ v)"
  shows "ParseChallengeHeader (''Bearer '' @ challenge_field (''authorization'', u @ CHR ''='' # v)) url =
    Inl (server_error ''Invalid challenge returned by the server.'')"
proof -
  let ?f = "challenge_field (''authorization'', u @ CHR ''='' # v)"
  have "CHR '','' \<notin> set ?f" using assms(2) by (simp add: challenge_field_def)
  moreover have n: "?f \<noteq> []" by (simp add: challenge_field_def)
  ultimately have "SplitString ?f (CHR '','') = [?f]" by (metis SplitString_getlines getlines_last)
  moreover have "ParseNameValuePair ?f = ([], [])" using assms(1) by (intro value_with_equals) simp
  ultimately have e: "ParseNameValuePairList ?f = []" by (simp add: ParseNameValuePairList_def)
  show ?thesis unfolding ParseChallengeHeader_def Let_def challenge_prefix e using n by simp
qed

theorem authority_with_query_refused_witness:
  "\<forall>url. ParseChallengeHeader (''Bearer '' @ challenge_field (''authorization'', ''https://l/?t'' @ CHR ''='' # ''x'')) url =
   Inl (server_error ''Invalid challenge returned by the server.'')"
  by (rule allI, rule authority_with_query_refused) simp_all

text \<open>
  What an answer becomes: only 200 passes; of the others all are exceptions of the SDK, but
  a 400 or 500 whose body is not a JSON object (an HTML page of a proxy) is a null pointer.
\<close>

theorem error_answers:
  "(case HandleRestClientError env status body of
      Inr _ \<Rightarrow> status = 200
    | Inl x \<Rightarrow> status \<noteq> 200 \<and>
        (x = NullDereference \<longleftrightarrow> status \<in> {400, 500} \<and> jp_Parse (js_lib env) body = None) \<and>
        (is_rms x \<or> x = NullDereference))"
proof -
  have named: "jo_GetNamedString j name d = Inl x \<Longrightarrow> is_rms x" for j name d x
    by (auto simp: jo_GetNamedString_def rms_exn_defs split: option.splits json.splits)
  have there: "present j name = Inl x \<Longrightarrow> is_rms x" for j name x
    by (auto simp: present_def jo_IsNull_def rms_exn_defs bindE_eq_Inl split: option.splits if_splits)
  have des: "DeserializeErrorResponse env body = Inl x \<Longrightarrow>
      x = NullDereference \<and> jp_Parse (js_lib env) body = None \<or>
      is_rms x \<and> jp_Parse (js_lib env) body \<noteq> None" for x
    by (auto simp: DeserializeErrorResponse_def deref_def bindE_eq_Inl split: option.splits if_splits dest: named there)
  have err: "is_rms (service_error code)" for code
    by (simp add: service_error_def server_error_def Let_def rms_exn_defs)
  have ok: "DeserializeErrorResponse env body = Inr r \<Longrightarrow> jp_Parse (js_lib env) body \<noteq> None" for r
    by (auto simp: DeserializeErrorResponse_def deref_def bindE_eq_Inr split: option.splits)
  have nn: "is_rms x \<Longrightarrow> x \<noteq> NullDereference" for x by auto
  show ?thesis
  proof (cases "status \<in> {400, 500}")
    case False
    then show ?thesis by (auto simp: HandleRestClientError_def server_error_def rms_exn_defs)
  next
    case st: True
    then show ?thesis
    proof (cases "DeserializeErrorResponse env body")
      case (Inl x)
      then show ?thesis using st des [OF Inl] by (auto simp: HandleRestClientError_def server_error_def rms_exn_defs)
    next
      case (Inr r)
      then show ?thesis using st ok [OF Inr] err [of "se_code r"] nn [OF err [of "se_code r"]]
        by (auto simp: HandleRestClientError_def)
    qed
  qed
qed

end
