(* ===== verification/Consents.thy ===== *)
theory Consents
  imports Uri
begin

text \<open>
  Consents to contact a service (\<open>rms_sdk/Consent\<close>, \<open>ModernAPI/ConsentCallbackImpl.cpp\<close>):
  the two files in which accepted consents are kept, the process's one \<open>ConsentDBHelper\<close> with
  what it has read of them, the managers of the two kinds of consent, and the callback that asks
  the application. The environment variable \<open>HOME\<close> is set; whether the files can be opened
  for writing is part of the state, what the application answers is a parameter.
\<close>

record UserDomain =
  ud_userId :: string
  ud_domain :: string

record ConsentDBHelper =
  db_init :: bool
  db_open :: bool
  db_serviceUrlCache :: "UserDomain list"
  db_docTrackingCache :: "UserDomain list"

text \<open>A file that does not exist is \<open>None\<close>.\<close>

record consent_world =
  cw_writable :: bool
  cw_serviceUrlFile :: "string option"
  cw_docTrackingFile :: "string option"
  cw_db :: ConsentDBHelper

definition ConsentDBHelper_create :: ConsentDBHelper where
  "ConsentDBHelper_create =
     \<lparr>db_init = False, db_open = False, db_serviceUrlCache = [], db_docTrackingCache = []\<rparr>"

definition m_genericUserName :: string where
  "m_genericUserName = ''GENERIC_USER''"

section \<open>Reading the files\<close>

fun ReadFileContent :: "string list \<Rightarrow> UserDomain list" where
  "ReadFileContent [] = []"
| "ReadFileContent (line # lines) =
     (if line = [] then []
      else case find_str ''|'' line 0 of
             Some pos \<Rightarrow> \<lparr>ud_userId = take pos line, ud_domain = drop (pos + 1) line\<rparr> # ReadFileContent lines
           | None \<Rightarrow> ReadFileContent lines)"

text \<open>
  A file is opened for reading and writing, which fails when it does not exist or may not be
  written, and then for appending, which creates it.
\<close>

definition InitializeDb :: "bool \<Rightarrow> string option \<Rightarrow> UserDomain list \<Rightarrow> string option \<times> UserDomain list" where
  "InitializeDb writable f content =
     (if writable
      then case f of
             Some text \<Rightarrow> (Some text, content @ ReadFileContent (getlines (CHR 0x0A) text))
           | None \<Rightarrow> (Some [], content)
      else (f, content))"

text \<open>Both files are read into the first cache.\<close>

definition db_Initialize :: "consent_world \<Rightarrow> consent_world" where
  "db_Initialize w =
     (if db_init (cw_db w) then w
      else case InitializeDb (cw_writable w) (cw_serviceUrlFile w) (db_serviceUrlCache (cw_db w)) of (f1, cache1) \<Rightarrow>
           case InitializeDb (cw_writable w) (cw_docTrackingFile w) cache1 of (f2, cache2) \<Rightarrow>
             w\<lparr>cw_serviceUrlFile := f1, cw_docTrackingFile := f2,
               cw_db := (cw_db w)\<lparr>db_init := True, db_open := cw_writable w, db_serviceUrlCache := cache2\<rparr>\<rparr>)"

section \<open>Domains\<close>

text \<open>The tokens of \<open>strtok\<close>: no token is empty.\<close>

definition strtok_all :: "char \<Rightarrow> string \<Rightarrow> string list" where
  "strtok_all delimiter s = filter (\<lambda>t. t \<noteq> []) (getlines delimiter (c_str s))"

text \<open>
  The loop runs once for every token but the last; without any token the number of
  rounds wraps around and the first one asks for a token that is not there.
\<close>

fun possible_loop :: "string \<Rightarrow> string list \<Rightarrow> nat \<Rightarrow> exn + string list" where
  "possible_loop domain [] pos = bindE (std_substr domain pos (length domain - pos)) (\<lambda>d. Inl StdRangeError)"
| "possible_loop domain [t] pos = Inr []"
| "possible_loop domain (t # t' # ts) pos =
     bindE (std_substr domain pos (length domain - pos)) (\<lambda>d.
     bindE (possible_loop domain (t' # ts) (pos + (length t + 1))) (\<lambda>ds. Inr (d # ds)))"

definition GetPossibleDomainNames :: "string \<Rightarrow> exn + string list" where
  "GetPossibleDomainNames domain = possible_loop domain (strtok_all (CHR ''.'') domain) 0"

definition GetApprovedDomainsForConsent :: "string \<Rightarrow> string \<Rightarrow> UserDomain list \<Rightarrow> UserDomain list" where
  "GetApprovedDomainsForConsent userId domain cache =
     filter (\<lambda>u. stricmp_eq (ud_userId u) userId \<and> stricmp_eq (ud_domain u) domain) cache"

definition consent_user :: "string \<Rightarrow> string" where
  "consent_user userId = (if userId = [] then m_genericUserName else userId)"

definition IsConsentPresentCommon :: "string \<Rightarrow> string \<Rightarrow> UserDomain list \<Rightarrow> exn + bool" where
  "IsConsentPresentCommon userId domain cache =
     bindE (GetPossibleDomainNames domain) (\<lambda>possibleDomains.
       Inr (list_ex (\<lambda>d. GetApprovedDomainsForConsent (consent_user userId) d cache \<noteq> []) possibleDomains))"

definition IsApprovedServiceDomainPresent :: "string \<Rightarrow> string \<Rightarrow> consent_world \<Rightarrow> exn + bool" where
  "IsApprovedServiceDomainPresent userId domain w =
     IsConsentPresentCommon userId domain (db_serviceUrlCache (cw_db w))"

definition IsDocumentTrackingConsentnPresent :: "string \<Rightarrow> string \<Rightarrow> consent_world \<Rightarrow> exn + bool" where
  "IsDocumentTrackingConsentnPresent userId domain w =
     IsConsentPresentCommon userId domain (db_docTrackingCache (cw_db w))"

section \<open>Adding\<close>

text \<open>A stream that is not open drops what is written.\<close>

definition AddLine :: "bool \<Rightarrow> string \<Rightarrow> string option \<Rightarrow> string option" where
  "AddLine opened line f =
     (if opened then Some ((case f of None \<Rightarrow> [] | Some t \<Rightarrow> t) @ line @ [CHR 0x0A]) else f)"

definition consent_line :: "string \<Rightarrow> string \<Rightarrow> string" where
  "consent_line userId domain = consent_user userId @ ''|'' @ domain"

definition AddApprovedServiceDomain :: "string \<Rightarrow> string \<Rightarrow> consent_world \<Rightarrow> consent_world" where
  "AddApprovedServiceDomain userId domain w =
     w\<lparr>cw_serviceUrlFile := AddLine (db_open (cw_db w)) (consent_line userId domain) (cw_serviceUrlFile w),
       cw_db := (cw_db w)\<lparr>db_serviceUrlCache := db_serviceUrlCache (cw_db w) @
         [\<lparr>ud_userId = consent_user userId, ud_domain = domain\<rparr>]\<rparr>\<rparr>"

definition AddDocumentTrackingConsent :: "string \<Rightarrow> string \<Rightarrow> consent_world \<Rightarrow> consent_world" where
  "AddDocumentTrackingConsent userId domain w =
     w\<lparr>cw_docTrackingFile := AddLine (db_open (cw_db w)) (consent_line userId domain) (cw_docTrackingFile w),
       cw_db := (cw_db w)\<lparr>db_docTrackingCache := db_docTrackingCache (cw_db w) @
         [\<lparr>ud_userId = consent_user userId, ud_domain = domain\<rparr>]\<rparr>\<rparr>"

section \<open>Consents and their managers\<close>

datatype ConsentType = DocumentTracking | ServiceUrl

record ConsentResult =
  cs_accepted :: bool
  cs_showAgain :: bool

record Consent =
  co_result :: ConsentResult
  co_type :: ConsentType
  co_urls :: "string list"
  co_user :: string
  co_domain :: string

definition ConsentResult_default :: ConsentResult where
  "ConsentResult_default = \<lparr>cs_accepted = False, cs_showAgain = True\<rparr>"

definition DocumentTrackingConsent :: "string \<Rightarrow> string \<Rightarrow> Consent" where
  "DocumentTrackingConsent email domain =
     \<lparr>co_result = ConsentResult_default, co_type = DocumentTracking, co_urls = [], co_user = email,
      co_domain = domain\<rparr>"

definition with_protocol :: "string \<Rightarrow> string" where
  "with_protocol url = (if map to_lower (take 4 url) \<noteq> ''http'' then ''https://'' @ url else url)"

definition ServiceUrlConsent :: "string \<Rightarrow> string list \<Rightarrow> Consent" where
  "ServiceUrlConsent email urls =
     \<lparr>co_result = ConsentResult_default, co_type = ServiceUrl, co_urls = map with_protocol urls,
      co_user = email, co_domain = []\<rparr>"

definition m_cloudDomain :: string where
  "m_cloudDomain = ''api.aadrm.com''"

definition ServiceUrlConsentManager_urls :: "Consent \<Rightarrow> string list" where
  "ServiceUrlConsentManager_urls c = filter (\<lambda>url. \<not> stricmp_eq m_cloudDomain url) (co_urls c)"

definition service_ShouldGetConsent :: "Consent \<Rightarrow> bool \<Rightarrow> (exn, consent_world, bool) sx" where
  "service_ShouldGetConsent c approved w =
     (case ServiceUrlConsentManager_urls c of
        [] \<Rightarrow> (Inr False, w)
      | url # _ \<Rightarrow>
          let w' = db_Initialize w
          in if approved then (Inr False, w')
             else (bindE (IsApprovedServiceDomainPresent (co_user c) url w') (\<lambda>b. Inr (\<not> b)), w'))"

definition service_PersistConsentResult :: "Consent \<Rightarrow> ConsentResult \<Rightarrow> consent_world \<Rightarrow> consent_world" where
  "service_PersistConsentResult c result w =
     (case ServiceUrlConsentManager_urls c of
        [] \<Rightarrow> w
      | url # _ \<Rightarrow> if cs_showAgain result then w
                    else AddApprovedServiceDomain (co_user c) url (db_Initialize w))"

definition document_ShouldGetConsent :: "Consent \<Rightarrow> bool \<Rightarrow> (exn, consent_world, bool) sx" where
  "document_ShouldGetConsent c approved w =
     (let w' = db_Initialize w
      in if approved then (Inr False, w')
         else (bindE (IsDocumentTrackingConsentnPresent (co_user c) (co_domain c) w') (\<lambda>b. Inr (\<not> b)), w'))"

definition document_PersistConsentResult :: "Consent \<Rightarrow> ConsentResult \<Rightarrow> consent_world \<Rightarrow> consent_world" where
  "document_PersistConsentResult c result w =
     (if cs_showAgain result \<or> co_domain c = [] then w
      else AddDocumentTrackingConsent (co_user c) (co_domain c) (db_Initialize w))"

section \<open>Asking the application\<close>

definition not_consented :: exn where
  "not_consented = RMSNetworkException ''User did not consent'' UserNotConsented"

fun handle_results :: "Consent \<Rightarrow> Consent \<Rightarrow> Consent list \<Rightarrow> (exn, consent_world, unit) sx" where
  "handle_results serviceConsent docConsent [] w = (Inr (), w)"
| "handle_results serviceConsent docConsent (result # results) w =
     (let r = co_result result;
          w' = (if cs_accepted r \<and> \<not> cs_showAgain r
                then (if co_type result = ServiceUrl then service_PersistConsentResult serviceConsent r w
                      else document_PersistConsentResult docConsent r w)
                else w)
      in if \<not> cs_accepted r then (Inl not_consented, w')
         else handle_results serviceConsent docConsent results w')"

definition Consents ::
  "(Consent list \<Rightarrow> Consent list) option \<Rightarrow> bool \<Rightarrow> string \<Rightarrow> string \<Rightarrow> string list \<Rightarrow>
   (exn, consent_world, unit) sx" where
  "Consents callback isPublishing email domain urls =
     (let serviceConsent = ServiceUrlConsent email urls; docConsent = DocumentTrackingConsent email domain
      in bnd (service_ShouldGetConsent serviceConsent isPublishing) (\<lambda>service.
         bnd (if service then ret [serviceConsent]
              else bnd (document_ShouldGetConsent docConsent isPublishing) (\<lambda>document.
                     ret (if document then [docConsent] else []))) (\<lambda>consentCollection.
           if consentCollection = [] then ret ()
           else case callback of
                  None \<Rightarrow> ret ()
                | Some ask \<Rightarrow> handle_results serviceConsent docConsent (ask consentCollection))))"

text \<open>The process ends and another one starts with the same files.\<close>

definition restarted :: "consent_world \<Rightarrow> consent_world" where
  "restarted w = w\<lparr>cw_db := ConsentDBHelper_create\<rparr>"

end
