(* ===== verification/ConsentProperties.thy ===== *)
theory ConsentProperties
  imports Consents
begin

text \<open>What the theorems say of the consents.\<close>

section \<open>The files\<close>

text \<open>Every line is ended, and none is empty.\<close>

definition consent_text :: "string list \<Rightarrow> string" where
  "consent_text ls = concat (map (\<lambda>l. l @ [CHR 0x0A]) ls)"

definition consent_file :: "string option \<Rightarrow> bool" where
  "consent_file f \<longleftrightarrow>
     (case f of None \<Rightarrow> True
      | Some t \<Rightarrow> \<exists>ls. t = consent_text ls \<and> (\<forall>l\<in>set ls. l \<noteq> [] \<and> CHR 0x0A \<notin> set l))"

definition consent_files :: "consent_world \<Rightarrow> bool" where
  "consent_files w \<longleftrightarrow> cw_writable w \<and> (db_init (cw_db w) \<longrightarrow> db_open (cw_db w)) \<and>
     consent_file (cw_serviceUrlFile w) \<and> consent_file (cw_docTrackingFile w)"

lemma getlines_consent_text: "\<forall>l\<in>set ls. CHR 0x0A \<notin> set l \<Longrightarrow> getlines (CHR 0x0A) (consent_text ls) = ls"
proof (induction ls)
  case Nil
  then show ?case by (simp add: consent_text_def)
next
  case (Cons l ls)
  then show ?case using getlines_delim [of "CHR 0x0A" l "consent_text ls"] by (simp add: consent_text_def)
qed

lemma ReadFileContent_append:
  "\<forall>l\<in>set ls. l \<noteq> [] \<Longrightarrow> ReadFileContent (ls @ ls') = ReadFileContent ls @ ReadFileContent ls'"
  by (induction ls) (auto split: option.splits)

lemma ReadFileContent_line:
  "CHR ''|'' \<notin> set u \<Longrightarrow> ReadFileContent [u @ ''|'' @ d] = [\<lparr>ud_userId = u, ud_domain = d\<rparr>]"
proof -
  assume "CHR ''|'' \<notin> set u"
  then have "takeWhile (\<lambda>c. c \<noteq> CHR ''|'') (u @ ''|'' @ d) = u" by (subst takeWhile_append2) auto
  then show ?thesis by (simp add: find_char)
qed

text \<open>What a consent adds to a file is read from it later.\<close>

lemma added_line_read:
  assumes "consent_file f" and "CHR ''|'' \<notin> set (consent_user u)" and "CHR 0x0A \<notin> set (consent_user u @ d)"
  shows "\<exists>t. AddLine True (consent_line u d) f = Some t \<and> consent_file (Some t) \<and>
    \<lparr>ud_userId = consent_user u, ud_domain = d\<rparr> \<in> set (ReadFileContent (getlines (CHR 0x0A) t))"
proof -
  obtain ls where ls: "(case f of None \<Rightarrow> [] | Some t \<Rightarrow> t) = consent_text ls"
    "\<forall>l\<in>set ls. l \<noteq> [] \<and> CHR 0x0A \<notin> set l"
    using assms(1) by (cases f) (auto simp: consent_file_def consent_text_def intro: that [of "[]"])
  let ?ls = "ls @ [consent_line u d]"
  have t: "AddLine True (consent_line u d) f = Some (consent_text ?ls)"
    by (simp add: AddLine_def ls(1)) (simp add: consent_text_def)
  have ok: "\<forall>l\<in>set ?ls. l \<noteq> [] \<and> CHR 0x0A \<notin> set l"
    using ls(2) assms(3) by (auto simp: consent_line_def)
  then have "getlines (CHR 0x0A) (consent_text ?ls) = ?ls" by (intro getlines_consent_text) blast
  moreover have "ReadFileContent ?ls = ReadFileContent ls @ [\<lparr>ud_userId = consent_user u, ud_domain = d\<rparr>]"
    using ls(2) ReadFileContent_line [OF assms(2), of d] by (subst ReadFileContent_append) (auto simp: consent_line_def)
  moreover have "consent_file (Some (consent_text ?ls))"
    using ok unfolding consent_file_def by (simp only: option.case) (rule exI [of _ ?ls], simp)
  ultimately show ?thesis using t by (intro exI [of _ "consent_text ?ls"]) simp
qed

lemma Initialize_files: "consent_files w \<Longrightarrow> consent_files (db_Initialize w) \<and> db_init (cw_db (db_Initialize w))"
  by (auto simp: consent_files_def db_Initialize_def InitializeDb_def consent_file_def consent_text_def
      split: option.splits prod.splits intro: exI [of _ "[]"])

lemma restarted_files: "consent_files w \<Longrightarrow> consent_files (restarted w)"
  by (simp add: consent_files_def restarted_def ConsentDBHelper_create_def)

lemma restarted_reads:
  assumes "cw_writable w"
  shows "db_serviceUrlCache (cw_db (db_Initialize (restarted w))) =
    concat (map (\<lambda>f. case f of None \<Rightarrow> [] | Some t \<Rightarrow> ReadFileContent (getlines (CHR 0x0A) t))
      [cw_serviceUrlFile w, cw_docTrackingFile w]) \<and>
    db_docTrackingCache (cw_db (db_Initialize (restarted w))) = []"
  using assms
  by (simp add: db_Initialize_def restarted_def ConsentDBHelper_create_def InitializeDb_def split: option.splits)

section \<open>Domains\<close>

lemma getlines_length: "sum_list (map (\<lambda>t. Suc (length t)) (getlines d s)) \<le> Suc (length s)"
proof (induction d s rule: getlines.induct)
  case (1 d s)
  show ?case
  proof (cases "d \<in> set s")
    case True
    then obtain x y where s: "s = x @ d # y" "d \<notin> set x" by (meson split_list_first)
    then have "tl (dropWhile (\<lambda>c. c \<noteq> d) s) = y" by (simp only:) (subst dropWhile_append2; auto)
    then have "sum_list (map (\<lambda>t. Suc (length t)) (getlines d y)) \<le> Suc (length y)" using "1" s(1) by simp
    then show ?thesis using s by (simp add: getlines_delim)
  next
    case False
    then show ?thesis by (cases "s = []") (simp_all add: getlines_last)
  qed
qed

lemma filter_length: "sum_list (map (\<lambda>t. Suc (length t)) (filter P ts)) \<le> sum_list (map (\<lambda>t. Suc (length t)) ts)"
  by (induction ts) auto

lemma tokens_length: "sum_list (map (\<lambda>t. Suc (length t)) (strtok_all d s)) \<le> Suc (length s)"
proof -
  have "length (c_str s) \<le> length s" by (simp add: c_str_def length_takeWhile_le)
  then show ?thesis
    using filter_length [of "\<lambda>t. t \<noteq> []" "getlines d (c_str s)"] getlines_length [of d "c_str s"]
    by (simp add: strtok_all_def)
qed

lemma possible_loop_returns:
  "ts \<noteq> [] \<Longrightarrow> p + sum_list (map (\<lambda>t. Suc (length t)) ts) \<le> Suc (length domain) \<Longrightarrow>
   \<exists>ds. possible_loop domain ts p = Inr ds"
proof (induction domain ts p rule: possible_loop.induct)
  case (3 domain t t' ts pos)
  then have "\<exists>ds. possible_loop domain (t' # ts) (pos + (length t + 1)) = Inr ds"
    by (intro "3.IH") (auto simp: std_substr_def)
  then show ?case using "3.prems" by (auto simp: std_substr_def bindE_def)
qed simp_all

lemma possible_of_tokens:
  assumes "strtok_all (CHR ''.'') domain = t # t' # ts"
  shows "\<exists>ds. GetPossibleDomainNames domain = Inr (domain # ds) \<and>
    (ts \<noteq> [] \<longrightarrow> drop (length t + 1) domain \<in> set ds)"
proof -
  have l: "Suc (length t) + sum_list (map (\<lambda>t. Suc (length t)) (t' # ts)) \<le> Suc (length domain)"
    using tokens_length [of "CHR ''.''" domain] assms by simp
  then obtain ds where ds: "possible_loop domain (t' # ts) (length t + 1) = Inr ds"
    using possible_loop_returns [of "t' # ts" "length t + 1" domain] by auto
  then have "GetPossibleDomainNames domain = Inr (domain # ds)"
    by (simp add: GetPossibleDomainNames_def assms std_substr_def bindE_def)
  moreover have "drop (length t + 1) domain \<in> set ds" if ne: "ts \<noteq> []"
  proof -
    obtain t2 r where "ts = t2 # r" using ne by (cases ts) auto
    then show ?thesis using ds l by (auto simp: bindE_eq_Inr std_substr_def split: if_splits)
  qed
  ultimately show ?thesis by blast
qed

lemma tokens_cons:
  assumes "CHR ''.'' \<notin> set a" and "a \<noteq> []" and "CHR 0x00 \<notin> set (a @ b)"
  shows "strtok_all (CHR ''.'') (a @ ''.'' @ b) = a # strtok_all (CHR ''.'') b"
proof -
  have "c_str (a @ ''.'' @ b) = a @ CHR ''.'' # b" "c_str b = b"
    using assms(3) by (auto simp: c_str_def takeWhile_eq_all_conv)
  then show ?thesis using assms(1,2) by (simp add: strtok_all_def getlines_delim)
qed

lemma tokens_exist:
  assumes "CHR 0x00 \<notin> set b" and "\<exists>c\<in>set b. c \<noteq> CHR ''.''"
  shows "strtok_all (CHR ''.'') b \<noteq> []"
proof -
  have "c_str b = b" using assms(1) by (auto simp: c_str_def takeWhile_eq_all_conv)
  moreover have "\<exists>t\<in>set (getlines d b). t \<noteq> []" if "\<exists>c\<in>set b. c \<noteq> d" for d
    using that
  proof (induction d b rule: getlines.induct)
    case (1 d s)
    then have n: "s \<noteq> []" by auto
    show ?case
    proof (cases "hd s = d")
      case True
      then obtain y where s: "s = d # y" using n by (cases s) auto
      then have "\<exists>t\<in>set (getlines d y). t \<noteq> []" using 1 by auto
      then show ?thesis using getlines_delim [of d "[]" y] s by simp
    next
      case False
      then have "takeWhile (\<lambda>c. c \<noteq> d) s \<noteq> []" using n by (cases s) auto
      then show ?thesis using n by (subst getlines.simps) simp
    qed
  qed
  ultimately show ?thesis using assms(2) by (auto simp: strtok_all_def filter_empty_conv)
qed

lemma present_if_possible:
  assumes "GetPossibleDomainNames domain = Inr ds" and "x \<in> set ds"
    and "\<lparr>ud_userId = consent_user u, ud_domain = x\<rparr> \<in> set cache"
  shows "IsConsentPresentCommon u domain cache = Inr True"
proof -
  have "\<lparr>ud_userId = consent_user u, ud_domain = x\<rparr> \<in> set (GetApprovedDomainsForConsent (consent_user u) x cache)"
    using assms(3) by (simp add: GetApprovedDomainsForConsent_def)
  then have "GetApprovedDomainsForConsent (consent_user u) x cache \<noteq> []" by auto
  then show ?thesis using assms(1,2) by (auto simp: IsConsentPresentCommon_def bindE_def list_ex_iff)
qed

section \<open>The theorems\<close>

text \<open>A name or an address whose parts are as expected of one.\<close>

definition dotted :: "string \<Rightarrow> bool" where
  "dotted d \<longleftrightarrow> CHR 0x00 \<notin> set d \<and> CHR 0x0A \<notin> set d \<and>
     (\<exists>a b. d = a @ ''.'' @ b \<and> a \<noteq> [] \<and> CHR ''.'' \<notin> set a \<and> list_ex (\<lambda>c. c \<noteq> CHR ''.'') b)"

definition storable_user :: "string \<Rightarrow> bool" where
  "storable_user u \<longleftrightarrow> CHR ''|'' \<notin> set u \<and> CHR 0x0A \<notin> set u"

definition accepted_for_good :: ConsentResult where
  "accepted_for_good = \<lparr>cs_accepted = True, cs_showAgain = False\<rparr>"

lemma dotted_tokens:
  assumes "dotted d"
  obtains t t' ts where "strtok_all (CHR ''.'') d = t # t' # ts"
proof -
  obtain a b where d: "d = a @ ''.'' @ b" "a \<noteq> []" "CHR ''.'' \<notin> set a" "\<exists>c\<in>set b. c \<noteq> CHR ''.''" "CHR 0x00 \<notin> set d"
    using assms unfolding dotted_def list_ex_iff by blast
  then have "strtok_all (CHR ''.'') d = a # strtok_all (CHR ''.'') b" by (simp only:) (rule tokens_cons; simp)
  moreover have "strtok_all (CHR ''.'') b \<noteq> []" using d by (intro tokens_exist) auto
  ultimately show ?thesis using that by (cases "strtok_all (CHR ''.'') b") auto
qed

lemma storable_consent_user: "storable_user u \<Longrightarrow> storable_user (consent_user u)"
  by (simp add: storable_user_def consent_user_def m_genericUserName_def)

lemma co_user_service [simp]: "co_user (ServiceUrlConsent u urls) = u"
  by (simp add: ServiceUrlConsent_def)

lemma with_protocol_cases: "with_protocol url = url \<and> url \<noteq> [] \<or> with_protocol url = ''https://'' @ url"
proof (cases "map to_lower (take 4 url) = ''http''")
  case True
  then have "url \<noteq> []" by (intro notI) simp
  moreover have "with_protocol url = url" by (simp only: with_protocol_def True) simp
  ultimately show ?thesis by simp
next
  case False
  then show ?thesis unfolding with_protocol_def by (subst if_P) auto
qed

lemma service_url: "ServiceUrlConsentManager_urls (ServiceUrlConsent u [url]) = [with_protocol url]"
proof -
  have "\<not> stricmp_eq m_cloudDomain (with_protocol url)"
  proof (cases "map to_lower (take 4 url) = ''http''")
    case True
    then obtain r where "map to_lower url = ''http'' @ r"
      by (metis append_take_drop_id map_append)
    then have "to_lower (hd url) = CHR ''h''" "url \<noteq> []" by (cases url; auto)+
    then show ?thesis
      using True by (cases url) (auto simp: stricmp_eq_def m_cloudDomain_def with_protocol_def c_str_def to_lower_def)
  next
    case False
    then show ?thesis by (simp add: stricmp_eq_def m_cloudDomain_def with_protocol_def c_str_def to_lower_def Let_def)
  qed
  then show ?thesis by (simp add: ServiceUrlConsentManager_urls_def ServiceUrlConsent_def)
qed

lemma no_dot_nothing_possible:
  assumes "CHR ''.'' \<notin> set d" and "CHR 0x00 \<notin> set d" and "d \<noteq> []"
  shows "GetPossibleDomainNames d = Inr []"
proof -
  have "c_str d = d" using assms(2) by (auto simp: c_str_def takeWhile_eq_all_conv)
  then have "strtok_all (CHR ''.'') d = [d]" using assms by (simp add: strtok_all_def getlines_last)
  then show ?thesis by (simp add: GetPossibleDomainNames_def)
qed

text \<open>An address without a part behind a dot.\<close>

lemma dots_no_tokens: "strtok_all (CHR ''.'') (replicate n (CHR ''.'')) = []"
proof (induction n)
  case (Suc n)
  have "c_str (replicate (Suc n) (CHR ''.'')) = CHR ''.'' # c_str (replicate n (CHR ''.''))" by (simp add: c_str_def)
  then show ?case using Suc getlines_delim [of "CHR ''.''" "[]"] by (simp add: strtok_all_def)
qed (simp add: strtok_all_def c_str_def)

lemma undotted_nothing_possible:
  assumes "\<not> dotted d" and "CHR 0x00 \<notin> set d" and "CHR 0x0A \<notin> set d" and "d \<noteq> []" and "hd d \<noteq> CHR ''.''"
  shows "GetPossibleDomainNames d = Inr []"
proof (cases "CHR ''.'' \<in> set d")
  case False
  then show ?thesis using no_dot_nothing_possible assms(2,4) by blast
next
  case True
  then obtain a b where d: "d = a @ ''.'' @ b" "CHR ''.'' \<notin> set a" using split_list_first by fastforce
  then have a: "a \<noteq> []" using assms(5) by auto
  then have "\<forall>c \<in> set b. c = CHR ''.''" using assms(1-3) d unfolding dotted_def list_ex_iff by blast
  then have "b = replicate (length b) (CHR ''.'')" by (metis replicate_length_same)
  then have "strtok_all (CHR ''.'') b = []" by (metis dots_no_tokens)
  moreover have "strtok_all (CHR ''.'') d = a # strtok_all (CHR ''.'') b" using d a assms(2) by (simp only:) (rule tokens_cons; simp)
  ultimately show ?thesis by (simp add: GetPossibleDomainNames_def)
qed

lemma with_protocol_head: "with_protocol url \<noteq> [] \<and> hd (with_protocol url) \<noteq> CHR ''.''"
proof (cases "map to_lower (take 4 url) = ''http''")
  case True
  then have "with_protocol url = url" by (simp only: with_protocol_def True) simp
  moreover have "to_lower (hd url) = CHR ''h''" "url \<noteq> []" using True by (cases url; auto)+
  ultimately show ?thesis by (auto simp: to_lower_def)
next
  case False
  then show ?thesis unfolding with_protocol_def by (subst if_P) auto
qed

lemma restarted_service:
  assumes "cw_writable w" and "\<exists>f \<in> {cw_serviceUrlFile w, cw_docTrackingFile w}.
      \<exists>t. f = Some t \<and> \<lparr>ud_userId = consent_user u, ud_domain = x\<rparr> \<in> set (ReadFileContent (getlines (CHR 0x0A) t))"
    and "GetPossibleDomainNames (with_protocol url) = Inr ds" and "x \<in> set ds"
  shows "fst (service_ShouldGetConsent (ServiceUrlConsent u [url]) False (restarted w)) = Inr False"
proof -
  have "\<lparr>ud_userId = consent_user u, ud_domain = x\<rparr> \<in> set (db_serviceUrlCache (cw_db (db_Initialize (restarted w))))"
    using assms(2) restarted_reads [OF assms(1)] by auto
  then have "IsConsentPresentCommon u (with_protocol url) (db_serviceUrlCache (cw_db (db_Initialize (restarted w)))) = Inr True"
    by (rule present_if_possible [OF assms(3,4)])
  then show ?thesis
    by (simp add: service_ShouldGetConsent_def service_url IsApprovedServiceDomainPresent_def bindE_def Let_def)
qed

definition fresh_consents :: consent_world where
  "fresh_consents = \<lparr>cw_writable = True, cw_serviceUrlFile = None, cw_docTrackingFile = None,
     cw_db = ConsentDBHelper_create\<rparr>"

definition approved_consents :: consent_world where
  "approved_consents = fresh_consents\<lparr>cw_db := ConsentDBHelper_create\<lparr>db_init := True, db_open := True,
     db_serviceUrlCache := [\<lparr>ud_userId = ''u'', ud_domain = ''https://r.x''\<rparr>]\<rparr>\<rparr>"

lemma fresh_files: "consent_files fresh_consents"
  by (simp add: fresh_consents_def consent_files_def ConsentDBHelper_create_def consent_file_def)

lemma asked_if_nothing_possible:
  "GetPossibleDomainNames (with_protocol url) = Inr [] \<Longrightarrow>
   fst (service_ShouldGetConsent (ServiceUrlConsent u [url]) False w) = Inr True"
  by (simp add: service_ShouldGetConsent_def service_url IsApprovedServiceDomainPresent_def IsConsentPresentCommon_def
      bindE_def Let_def)

text \<open>
  C40: A consent to a service that is given for good is written to its file, and the next process
  that starts with the files asks again exactly if the address, with its protocol, has no part
  behind a dot: the names an address is looked up under are those that begin before one of
  its dots, so a host without a dot is never found. The files keep their form. For a user without
  \<open>|\<close> and line break, an address without NUL and line break, and files that can be
  written and hold ended lines.
\<close>

theorem service_consent_kept:
  assumes "consent_files w" and "storable_user u" and "CHR 0x00 \<notin> set url" and "CHR 0x0A \<notin> set url"
  shows "let w' = service_PersistConsentResult (ServiceUrlConsent u [url]) accepted_for_good w
    in fst (service_ShouldGetConsent (ServiceUrlConsent u [url]) False (restarted w')) = Inr (\<not> dotted (with_protocol url)) \<and>
       consent_files w'"
proof -
  let ?w = "db_Initialize w"
  let ?w' = "service_PersistConsentResult (ServiceUrlConsent u [url]) accepted_for_good w"
  have i: "consent_files ?w" "db_open (cw_db ?w)"
    using Initialize_files [OF assms(1)] by (auto simp: consent_files_def)
  have w': "?w' = AddApprovedServiceDomain u (with_protocol url) ?w"
    by (simp add: service_PersistConsentResult_def service_url accepted_for_good_def)
  have plain: "CHR 0x00 \<notin> set (with_protocol url)" "CHR 0x0A \<notin> set (with_protocol url)"
    using assms(3,4) with_protocol_cases [of url] by auto
  have "CHR ''|'' \<notin> set (consent_user u)" "CHR 0x0A \<notin> set (consent_user u @ with_protocol url)"
    using storable_consent_user [OF assms(2)] plain by (simp_all add: storable_user_def)
  then obtain t where t: "AddLine True (consent_line u (with_protocol url)) (cw_serviceUrlFile ?w) = Some t"
    "consent_file (Some t)"
    "\<lparr>ud_userId = consent_user u, ud_domain = with_protocol url\<rparr> \<in> set (ReadFileContent (getlines (CHR 0x0A) t))"
    using added_line_read [of "cw_serviceUrlFile ?w" u "with_protocol url"] i(1) by (auto simp: consent_files_def)
  have f: "consent_files ?w'" using i t by (simp add: w' AddApprovedServiceDomain_def consent_files_def)
  have "fst (service_ShouldGetConsent (ServiceUrlConsent u [url]) False (restarted ?w')) = Inr (\<not> dotted (with_protocol url))"
  proof (cases "dotted (with_protocol url)")
    case True
    then obtain ds where "GetPossibleDomainNames (with_protocol url) = Inr (with_protocol url # ds)"
      using dotted_tokens possible_of_tokens by metis
    then have "fst (service_ShouldGetConsent (ServiceUrlConsent u [url]) False (restarted ?w')) = Inr False"
      using f t i by (intro restarted_service [where x = "with_protocol url"])
        (auto simp: consent_files_def w' AddApprovedServiceDomain_def)
    then show ?thesis using True by simp
  next
    case False
    then have "GetPossibleDomainNames (with_protocol url) = Inr []"
      using undotted_nothing_possible plain with_protocol_head by blast
    then show ?thesis using False by (simp add: asked_if_nothing_possible)
  qed
  then show ?thesis using f by (simp add: Let_def)
qed

theorem service_consent_kept_witness:
  "let w' = service_PersistConsentResult (ServiceUrlConsent ''u'' [''r.x'']) accepted_for_good fresh_consents
   in fst (service_ShouldGetConsent (ServiceUrlConsent ''u'' [''r.x'']) False (restarted w')) = Inr False \<and> consent_files w'"
proof -
  have "with_protocol ''r.x'' = ''https://r'' @ ''.'' @ ''x''" by (simp add: with_protocol_def to_lower_def)
  then have "dotted (with_protocol ''r.x'')"
    unfolding dotted_def by (simp only:) (rule conjI, simp, rule conjI, simp, rule exI [of _ "''https://r''"], rule exI [of _ "''x''"], simp)
  moreover have "let w' = service_PersistConsentResult (ServiceUrlConsent ''u'' [''r.x'']) accepted_for_good fresh_consents
    in fst (service_ShouldGetConsent (ServiceUrlConsent ''u'' [''r.x'']) False (restarted w')) = Inr (\<not> dotted (with_protocol ''r.x'')) \<and>
       consent_files w'"
    by (rule service_consent_kept) (simp_all add: fresh_files storable_user_def)
  ultimately show ?thesis by (simp add: Let_def)
qed

text \<open>
  A consent to document tracking is never found by the next process: whatever is in the
  files, it asks again.
\<close>

theorem document_consent_forgotten:
  "fst (document_ShouldGetConsent c False (restarted w)) \<noteq> Inr False"
proof -
  have "db_docTrackingCache (cw_db (db_Initialize (restarted w))) = []"
    by (simp add: db_Initialize_def restarted_def ConsentDBHelper_create_def split: prod.splits)
  then show ?thesis
    by (auto simp: document_ShouldGetConsent_def IsDocumentTrackingConsentnPresent_def IsConsentPresentCommon_def
        GetApprovedDomainsForConsent_def bindE_eq_Inr list_ex_iff)
qed

text \<open>
  Instead it lets the next process contact any host of that domain without a question,
  though the user was never asked about a service.
\<close>

theorem document_consent_opens_services:
  assumes "consent_files w" and "storable_user u" and "dotted d" and "h \<noteq> []" and "set h \<inter> {CHR ''.'', CHR 0x00} = {}"
  shows "let w' = document_PersistConsentResult (DocumentTrackingConsent u d) accepted_for_good w
    in fst (service_ShouldGetConsent (ServiceUrlConsent u [''https://'' @ h @ ''.'' @ d]) False (restarted w')) = Inr False"
proof -
  let ?w = "db_Initialize w" 
  define url where "url = ''https://'' @ h @ ''.'' @ d"
  let ?w' = "document_PersistConsentResult (DocumentTrackingConsent u d) accepted_for_good w"
  have i: "consent_files ?w" "db_open (cw_db ?w)"
    using Initialize_files [OF assms(1)] by (auto simp: consent_files_def)
  have "d \<noteq> []" using assms(3) by (auto simp: dotted_def)
  then have w': "?w' = AddDocumentTrackingConsent u d ?w"
    by (simp add: document_PersistConsentResult_def accepted_for_good_def DocumentTrackingConsent_def)
  have "CHR ''|'' \<notin> set (consent_user u)" "CHR 0x0A \<notin> set (consent_user u @ d)"
    using storable_consent_user [OF assms(2)] assms(3) by (simp_all add: storable_user_def dotted_def)
  then obtain t where t: "AddLine True (consent_line u d) (cw_docTrackingFile ?w) = Some t"
    "\<lparr>ud_userId = consent_user u, ud_domain = d\<rparr> \<in> set (ReadFileContent (getlines (CHR 0x0A) t))"
    using added_line_read [of "cw_docTrackingFile ?w" u d] i(1) by (auto simp: consent_files_def)
  obtain t1 t2 ts where d: "strtok_all (CHR ''.'') d = t1 # t2 # ts" using dotted_tokens [OF assms(3)] by blast
  have "strtok_all (CHR ''.'') ((''https://'' @ h) @ ''.'' @ d) = (''https://'' @ h) # t1 # t2 # ts"
    using assms(3-5) by (subst tokens_cons) (auto simp: d dotted_def)
  then have "strtok_all (CHR ''.'') url = (''https://'' @ h) # t1 # t2 # ts" by (simp add: url_def)
  then obtain ds where ds: "GetPossibleDomainNames url = Inr (url # ds)" "drop (length (''https://'' @ h) + 1) url \<in> set ds"
    using possible_of_tokens by blast
  have p: "with_protocol url = url"
    by (simp add: url_def with_protocol_def to_lower_def Let_def char_of_def bit_0)
  have "drop (length (''https://'' @ h) + 1) url = d" by (simp add: url_def)
  then have "d \<in> set (url # ds)" using ds(2) by simp
  moreover have "GetPossibleDomainNames (with_protocol url) = Inr (url # ds)" by (simp only: p ds(1))
  moreover have "cw_writable ?w'" using i(1) by (simp add: w' AddDocumentTrackingConsent_def consent_files_def)
  moreover have "\<exists>f\<in>{cw_serviceUrlFile ?w', cw_docTrackingFile ?w'}.
      \<exists>t. f = Some t \<and> \<lparr>ud_userId = consent_user u, ud_domain = d\<rparr> \<in> set (ReadFileContent (getlines (CHR 0x0A) t))"
    using t i(2) by (simp add: w' AddDocumentTrackingConsent_def)
  ultimately have "fst (service_ShouldGetConsent (ServiceUrlConsent u [url]) False (restarted ?w')) = Inr False"
    by (intro restarted_service)
  then show ?thesis by (simp add: Let_def url_def)
qed

theorem document_consent_opens_services_witness:
  "let w' = document_PersistConsentResult (DocumentTrackingConsent ''u'' ''c.d'') accepted_for_good fresh_consents
   in fst (service_ShouldGetConsent (ServiceUrlConsent ''u'' [''https://'' @ ''evil'' @ ''.'' @ ''c.d'']) False (restarted w')) = Inr False"
proof (rule document_consent_opens_services)
  show "dotted ''c.d''"
    unfolding dotted_def by (rule conjI, simp, rule conjI, simp, rule exI [of _ "''c''"], rule exI [of _ "''d''"], simp)
qed (simp_all add: fresh_files storable_user_def)

text \<open>
  An address without a dot, such as that of a server in the same network, is asked about
  every time, whatever was consented to before.
\<close>

theorem plain_host_asked_again:
  assumes "CHR ''.'' \<notin> set url" and "CHR 0x00 \<notin> set url"
  shows "fst (service_ShouldGetConsent (ServiceUrlConsent u [url]) False w) = Inr True"
proof -
  let ?u = "with_protocol url"
  have "CHR ''.'' \<notin> set ?u" "CHR 0x00 \<notin> set ?u" "?u \<noteq> []"
    using assms with_protocol_cases [of url] by auto
  then have "GetPossibleDomainNames ?u = Inr []" by (rule no_dot_nothing_possible)
  then show ?thesis by (rule asked_if_nothing_possible)
qed

theorem plain_host_asked_again_witness:
  "\<forall>u w. fst (service_ShouldGetConsent (ServiceUrlConsent u [''https://server/x'']) False w) = Inr True"
  by (intro allI, rule plain_host_asked_again) simp_all

lemma no_domain_fails:
  assumes "fst (service_ShouldGetConsent (ServiceUrlConsent email urls) False w) = Inr False"
  shows "fst (Consents callback False email [] urls w) = Inl StdRangeError"
proof -
  have "GetPossibleDomainNames [] = Inl StdRangeError"
    by (simp add: GetPossibleDomainNames_def strtok_all_def c_str_def std_substr_def bindE_def)
  then have f: "fst (document_ShouldGetConsent (DocumentTrackingConsent email []) False w') = Inl StdRangeError" for w'
    by (simp add: document_ShouldGetConsent_def IsDocumentTrackingConsentnPresent_def IsConsentPresentCommon_def
        DocumentTrackingConsent_def bindE_def Let_def)
  obtain b where b: "service_ShouldGetConsent (ServiceUrlConsent email urls) False w = (Inr False, b)"
    using assms by (cases "service_ShouldGetConsent (ServiceUrlConsent email urls) False w") simp
  obtain b2 where d: "document_ShouldGetConsent (DocumentTrackingConsent email []) False b = (Inl StdRangeError, b2)"
    using f [of b] by (cases "document_ShouldGetConsent (DocumentTrackingConsent email []) False b") simp
  show ?thesis by (simp add: Consents_def bnd_def b d Let_def)
qed

text \<open>
  Once the service is approved, a lookup without a domain, as service discovery makes it
  when it falls back to its defaults, ends with \<open>std::out_of_range\<close>.
\<close>

theorem empty_domain_fails:
  assumes "fst (service_ShouldGetConsent (ServiceUrlConsent email urls) False w) = Inr False"
  shows "fst (Consents callback False email [] urls w) = Inl StdRangeError"
  using assms by (rule no_domain_fails)

theorem empty_domain_fails_witness:
  "\<forall>callback. fst (Consents callback False ''u'' [] [''https://r.x''] approved_consents) = Inl StdRangeError"
  by (rule allI, rule empty_domain_fails) code_simp

text \<open>Publishing asks nobody.\<close>

theorem publishing_never_asks:
  "fst (Consents callback True email domain urls w) = Inr ()"
  by (simp add: Consents_def service_ShouldGetConsent_def document_ShouldGetConsent_def bnd_def ret_def Let_def
      split: list.splits)

lemma handle_results_ends:
  "fst (handle_results serviceConsent docConsent results w) =
   (if list_all (\<lambda>r. cs_accepted (co_result r)) results then Inr () else Inl not_consented)"
  by (induction results arbitrary: w) (auto simp: Let_def)

text \<open>
  A question about a service decides: the call returns exactly when the application accepts
  every consent it answers with, and otherwise says that the user did not consent; without an
  application to ask it returns.
\<close>

theorem answer_decides:
  assumes "fst (service_ShouldGetConsent (ServiceUrlConsent email urls) isPublishing w) = Inr True"
  shows "fst (Consents callback isPublishing email domain urls w) =
    (case callback of None \<Rightarrow> Inr ()
     | Some ask \<Rightarrow> if list_all (\<lambda>r. cs_accepted (co_result r)) (ask [ServiceUrlConsent email urls])
                   then Inr () else Inl not_consented)"
proof -
  obtain b where b: "service_ShouldGetConsent (ServiceUrlConsent email urls) isPublishing w = (Inr True, b)"
    using assms by (cases "service_ShouldGetConsent (ServiceUrlConsent email urls) isPublishing w") simp
  show ?thesis by (simp add: Consents_def bnd_def b ret_def Let_def handle_results_ends split: option.splits)
qed

theorem answer_decides_witness:
  "fst (Consents (Some (\<lambda>cs. cs)) False ''u'' ''c.d'' [''https://server/x''] fresh_consents) = Inl not_consented"
proof -
  have "fst (service_ShouldGetConsent (ServiceUrlConsent ''u'' [''https://server/x'']) False fresh_consents) = Inr True"
    by code_simp
  from answer_decides [OF this, of "Some (\<lambda>cs. cs)" "''c.d''"]
  show ?thesis by (simp add: ServiceUrlConsent_def ConsentResult_default_def)
qed

end
