(* ===== verification/ServiceDiscovery.thy ===== *)
theory ServiceDiscovery
  imports RestHttp RestClientCache Consents
begin

text \<open>
  How the clients find the addresses of the services (\<open>rms_sdk/RestClients\<close>:
  \<open>Domain.cpp\<close>, \<open>RestServiceUrls.cpp\<close>, \<open>DnsClientResult.cpp\<close>, \<open>DnsLookupClient.cpp\<close>,
  \<open>ServiceDiscoveryClient.cpp\<close>, \<open>RestServiceUrlClient.cpp\<close>). The license parser and the
  resolver of DNS names are parameters.
\<close>

section \<open>Domains\<close>

datatype DomainType = NoDomain | EmailDomain | UrlDomain

record Domain =
  dm_type :: DomainType
  dm_Email :: string
  dm_Url :: string
  dm_RelevantDomain :: string

definition Domain_CreateFromEmail :: "string \<Rightarrow> exn + Domain" where
  "Domain_CreateFromEmail sEmail =
     (case find_str ''@'' sEmail 0 of
        None \<Rightarrow> Inl (RMSInvalidArgumentException ''Bad email value'')
      | Some index \<Rightarrow> Inr \<lparr>dm_type = EmailDomain, dm_Email = sEmail, dm_Url = [],
                          dm_RelevantDomain = drop (index + 1) sEmail\<rparr>)"

definition Domain_CreateFromUrl :: "string \<Rightarrow> exn + Domain" where
  "Domain_CreateFromUrl sUrl =
     bindE (IUri_Create sUrl) (\<lambda>uri. Inr \<lparr>dm_type = UrlDomain, dm_Email = [], dm_Url = sUrl,
       dm_RelevantDomain = uri_host uri\<rparr>)"

definition GetOriginalInput :: "Domain \<Rightarrow> string" where
  "GetOriginalInput d = (case dm_type d of EmailDomain \<Rightarrow> dm_Email d | UrlDomain \<Rightarrow> dm_Url d | NoDomain \<Rightarrow> [])"

definition GetDomainStringForDnsLookup :: "Domain \<Rightarrow> string" where
  "GetDomainStringForDnsLookup d = dm_RelevantDomain d"

definition SplitDomains :: "string \<Rightarrow> string list" where
  "SplitDomains domain = getlines (CHR ''.'') domain"

section \<open>Addresses of the services\<close>

definition GetTenantV1 :: string where "GetTenantV1 = ''/my/v1''"
definition GetTenantV2 :: string where "GetTenantV2 = ''/my/v2''"

definition GetDefaultTenant :: string where
  "GetDefaultTenant = (if IsEvoEnabled then GetTenantV2 else GetTenantV1)"

definition GetServiceDiscoverySuffix :: string where
  "GetServiceDiscoverySuffix = ''/servicediscovery''"

definition GetServiceRootUrl :: "(exn, 'k world, string) sx" where
  "GetServiceRootUrl =
     settings_get (GetString ''MSIPCThin'' ''ServiceRootURLOverride'' (''https://api.aadrm.com'' @ GetDefaultTenant))"

definition service_path :: "string \<Rightarrow> (exn, 'k world, string) sx" where
  "service_path path = bnd GetServiceRootUrl (\<lambda>root. ret (root @ path))"

definition default_EndUserLicensesUrl :: "(exn, 'k world, string) sx" where
  "default_EndUserLicensesUrl = service_path ''/enduserlicenses''"

definition default_TemplatesUrl :: "(exn, 'k world, string) sx" where
  "default_TemplatesUrl = service_path ''/templates''"

definition default_PublishUrl :: "(exn, 'k world, string) sx" where
  "default_PublishUrl = service_path ''/publishinglicenses''"

definition default_CloudDiagnosticsServerUrl :: "(exn, 'k world, string) sx" where
  "default_CloudDiagnosticsServerUrl = service_path ''/clientlogs/debug''"

definition default_PerformanceServerUrl :: "(exn, 'k world, string) sx" where
  "default_PerformanceServerUrl = service_path ''/clientlogs/performance''"

definition GetServiceDiscoveryUrl :: "(exn, 'k world, string) sx" where
  "GetServiceDiscoveryUrl = service_path GetServiceDiscoverySuffix"

section \<open>DNS\<close>

record DnsClientResult =
  dn_DnsRecordFound :: bool
  dn_Servers :: "string list"
  dn_DomainsChecked :: "string list"
  dn_Ttls :: "nat list"

definition no_ttl :: nat where "no_ttl = 2 ^ 32 - 1"

definition DnsClientResult_new :: "string list \<Rightarrow> (exn, 'k world, DnsClientResult) sx" where
  "DnsClientResult_new domainsChecked =
     bnd GetServiceDiscoveryUrl (\<lambda>url.
       ret \<lparr>dn_DnsRecordFound = False, dn_Servers = [url], dn_DomainsChecked = domainsChecked, dn_Ttls = [no_ttl]\<rparr>)"

definition DnsClientResult_Create :: "string \<Rightarrow> (exn, 'k world, DnsClientResult) sx" where
  "DnsClientResult_Create discoveryUrl =
     bnd (DnsClientResult_new []) (\<lambda>d. ret (d\<lparr>dn_Servers := [discoveryUrl]\<rparr>))"

definition GetDiscoveryUrl :: "DnsClientResult \<Rightarrow> exn + string" where
  "GetDiscoveryUrl d =
     (case dn_Servers d of [] \<Rightarrow> Inl (RMSInvalidArgumentException ''Invalid server'') | s # _ \<Rightarrow> Inr s)"

definition GetTtl :: "DnsClientResult \<Rightarrow> exn + nat" where
  "GetTtl d = (case dn_Ttls d of [] \<Rightarrow> Inl (RMSInvalidArgumentException ''Invalid tls'') | t # _ \<Rightarrow> Inr t)"

text \<open>The loop over all members of a domain but the last.\<close>

fun domains_loop :: "string \<Rightarrow> string list \<Rightarrow> nat \<Rightarrow> exn + string list" where
  "domains_loop domain (m # m' # ms) lengthFromStart =
     bindE (std_substr domain lengthFromStart (length domain)) (\<lambda>d.
     bindE (domains_loop domain (m' # ms) (lengthFromStart + (length m + 1))) (\<lambda>ds. Inr (d # ds)))"
| "domains_loop domain ms lengthFromStart = Inr []"

definition GetPossibleDomains :: "string \<Rightarrow> exn + string list" where
  "GetPossibleDomains domain = domains_loop domain (SplitDomains domain) 0"

definition RMS_QUERY_PREFIX :: string where
  "RMS_QUERY_PREFIX = ''_rmsdisco._http._tcp.''"

section \<open>The state\<close>

record ('k, 'n) sd_world =
  sw_disk :: "'k world"
  sw_net :: 'n
  sw_consents :: consent_world
  sw_details :: "(string \<times> ServiceDiscoveryDetails) list"

definition on_disk :: "(exn, 'k world, 'a) sx \<Rightarrow> (exn, ('k, 'n) sd_world, 'a) sx" where
  "on_disk = zoom sw_disk (\<lambda>d s. s\<lparr>sw_disk := d\<rparr>)"

definition on_net :: "(exn, 'n, 'a) sx \<Rightarrow> (exn, ('k, 'n) sd_world, 'a) sx" where
  "on_net = zoom sw_net (\<lambda>n s. s\<lparr>sw_net := n\<rparr>)"

text \<open>The libraries, the callbacks of the application and the network of a call.\<close>

record ('k, 'n) sd_env =
  se_cache :: "'k cache_env"
  se_curl :: "'n curl"
  se_rest :: "nat \<Rightarrow> rest_env"
  se_js :: js_env
  se_dns :: "string \<Rightarrow> 'n \<Rightarrow> string \<times> 'n"
  se_auth :: "'n IAuthenticationCallbackImpl"

fun ask_dns :: "(string \<Rightarrow> 'n \<Rightarrow> string \<times> 'n) \<Rightarrow> string list \<Rightarrow> 'n \<Rightarrow> string option \<times> 'n" where
  "ask_dns dns [] net = (None, net)"
| "ask_dns dns (d # ds) net =
     (case dns (RMS_QUERY_PREFIX @ d) net of (r, net') \<Rightarrow>
        if r = [] then ask_dns dns ds net' else (Some r, net'))"

text \<open>
  The resolver (\<open>rms_sdk/Platform/Http/DnsServerResolverQt.cpp\<close>) over the library udns, a parameter:
  whether a context could be made, the descriptor it got, and the targets of a service.
\<close>

record 'n udns =
  dns_new :: bool
  dns_init :: int
  dns_resolve_srv :: "string \<Rightarrow> 'n \<Rightarrow> string list option \<times> 'n"

definition DnsServerResolverQt_lookup :: "'n udns \<Rightarrow> string \<Rightarrow> 'n \<Rightarrow> string \<times> 'n" where
  "DnsServerResolverQt_lookup ud dnsRequest net =
     (if \<not> dns_new ud then ([], net)
      else if 0 \<le> dns_init ud
      then (case dns_resolve_srv ud (c_str dnsRequest) net of
              (Some (target # targets), net') \<Rightarrow> (target, net')
            | (srv, net') \<Rightarrow> ([], net'))
      else ([], net))"

text \<open>Without a context or a descriptor nothing is asked and no service is found.\<close>

lemma no_resolver: "\<not> dns_new ud \<or> dns_init ud < 0 \<Longrightarrow> ask_dns (DnsServerResolverQt_lookup ud) domains net = (None, net)"
  by (induction domains) (auto simp: DnsServerResolverQt_lookup_def)

text \<open>Otherwise it is the first target of the first domain that has one.\<close>

lemma first_target:
  assumes "dns_new ud" and "0 \<le> dns_init ud"
    and "\<And>d n. dns_resolve_srv ud (c_str (RMS_QUERY_PREFIX @ d)) n = (records d, n)" and "\<And>d. records d \<noteq> Some [] \<and> \<not> (\<exists>ts. records d = Some ([] # ts))"
  shows "ask_dns (DnsServerResolverQt_lookup ud) domains net =
    (case List.map_filter records domains of [] \<Rightarrow> None | ts # tss \<Rightarrow> Some (hd ts), net)"
proof (induction domains)
  case (Cons d domains)
  then show ?case
    using assms(1-3) assms(4) [of d]
    by (cases "records d") (auto simp: DnsServerResolverQt_lookup_def List.map_filter_def neq_Nil_conv)
qed (simp add: List.map_filter_def)

text \<open>A result always: without any record it is the one of the cloud.\<close>

definition LookupDiscoveryService ::
  "('k, 'n) sd_env \<Rightarrow> Domain \<Rightarrow> (exn, ('k, 'n) sd_world, DnsClientResult option) sx" where
  "LookupDiscoveryService env domain =
     bnd (liftE (GetPossibleDomains (GetDomainStringForDnsLookup domain))) (\<lambda>possibleDomains.
     bnd (on_net (\<lambda>n. case ask_dns (se_dns env) possibleDomains n of (r, n') \<Rightarrow> (Inr r, n'))) (\<lambda>r.
     bnd (on_disk (DnsClientResult_Create (case r of None \<Rightarrow> ''api.aadrm.com'' | Some a \<Rightarrow> a))) (\<lambda>d. ret (Some d))))"

section \<open>Consents\<close>

text \<open>
  \<open>ConsentCallbackImpl\<close> on the whole state: opening the files of the consents for the first
  time creates the folder they share with the cache.
\<close>

type_synonym ask_consent = "(Consent list \<Rightarrow> Consent list) option \<times> bool"

definition GetConsent ::
  "('k, 'n) sd_env \<Rightarrow> ask_consent \<Rightarrow> string \<Rightarrow> string \<Rightarrow> string \<Rightarrow> (exn, ('k, 'n) sd_world, unit) sx" where
  "GetConsent env ask sEmail domain url s =
     (case Consents (fst ask) (snd ask) sEmail domain [url] (sw_consents s) of (r, c) \<Rightarrow>
        (r, (if db_init (cw_db c) \<and> \<not> db_init (cw_db (sw_consents s))
             then s\<lparr>sw_disk := snd (CreateDirectory (cacheFolderName (se_cache env)) (sw_disk s))\<rparr>
             else s)\<lparr>sw_consents := c\<rparr>))"

definition consent_if ::
  "('k, 'n) sd_env \<Rightarrow> ask_consent option \<Rightarrow> string \<Rightarrow> string \<Rightarrow> string \<Rightarrow> (exn, ('k, 'n) sd_world, unit) sx" where
  "consent_if env consentCallback sEmail domain url =
     (case consentCallback of None \<Rightarrow> ret () | Some ask \<Rightarrow> GetConsent env ask sEmail domain url)"

section \<open>The discovery service\<close>

definition rfind_str :: "string \<Rightarrow> string \<Rightarrow> nat option" where
  "rfind_str pat src =
     map_option (\<lambda>i. length src - (i + length pat)) (find_at (rev pat) (rev src))"

definition CreateGetRequest :: "string \<Rightarrow> Domain \<Rightarrow> exn + string" where
  "CreateGetRequest discoveryUrl domain =
     bindE (if find_str ''//'' discoveryUrl 0 \<noteq> None
            then (if map to_lower (take 8 discoveryUrl) = ''https://'' then Inr []
                  else Inl (RMSInvalidArgumentException ''invalid servise name''))
            else Inr ''https://'') (\<lambda>scheme.
       let suffixV1 = GetTenantV1 @ GetServiceDiscoverySuffix; suffixV2 = GetTenantV2 @ GetServiceDiscoverySuffix;
           path = (case rfind_str suffixV1 discoveryUrl of
                     Some positionSuffixV1 \<Rightarrow>
                       if IsEvoEnabled then take positionSuffixV1 discoveryUrl @ suffixV2 else discoveryUrl
                   | None \<Rightarrow>
                       (case rfind_str suffixV2 discoveryUrl of
                          Some positionSuffixV2 \<Rightarrow>
                            if IsEvoEnabled then discoveryUrl
                            else take positionSuffixV2 discoveryUrl @ suffixV1
                        | None \<Rightarrow> discoveryUrl @ GetDefaultTenant @ GetServiceDiscoverySuffix))
       in case dm_type domain of
            EmailDomain \<Rightarrow> Inr (scheme @ path @ ''?email='' @ GetOriginalInput domain)
          | UrlDomain \<Rightarrow> Inr (scheme @ path @ ''?service='' @ GetOriginalInput domain)
          | NoDomain \<Rightarrow> Inl (RMSInvalidArgumentException ''invalid domain type''))"

definition checked_body :: "js_env \<Rightarrow> int \<times> byte list \<Rightarrow> exn + byte list" where
  "checked_body js r =
     bindE (if fst r \<noteq> 200 then HandleRestClientError js (fst r) (snd r) else Inr ()) (\<lambda>_. Inr (snd r))"

definition discovery_response ::
  "('k, 'n) sd_env \<Rightarrow> Domain \<Rightarrow> string option \<Rightarrow> string \<Rightarrow> (exn, 'n, ServiceDiscoveryResponse list) sx" where
  "discovery_response env domain pServerPublicCertificate discoveryUrl =
     bnd (liftE (CreateGetRequest discoveryUrl domain)) (\<lambda>url.
     bnd (rest_Get (se_curl env) (se_rest env 0) (se_auth env) url
           \<lparr>ap_ServerPublicCertificate = (case pServerPublicCertificate of None \<Rightarrow> [] | Some c \<Rightarrow> c),
            ap_ServiceDiscoverUrl = GetOriginalInput domain\<rparr>) (\<lambda>result.
     bnd (liftE (checked_body (se_js env) result)) (\<lambda>body.
       liftE (DeserializeServiceDiscoveryResponse (se_js env) body))))"

definition take_endpoint :: "ServiceDiscoveryResponse \<Rightarrow> ServiceDiscoveryDetails \<Rightarrow> ServiceDiscoveryDetails" where
  "take_endpoint e d =
     (if stricmp_eq (sd_name e) ''enduserlicenses'' then d\<lparr>sd_EndUserLicensesUrl := sd_uri e\<rparr>
      else if stricmp_eq (sd_name e) ''publishinglicenses'' then d\<lparr>sd_PublishingLicensesUrl := sd_uri e\<rparr>
      else if stricmp_eq (sd_name e) ''templates'' then d\<lparr>sd_TemplatesUrl := sd_uri e\<rparr>
      else if stricmp_eq (sd_name e) ''clientdebuglogs'' then d\<lparr>sd_CloudDiagnosticsServerUrl := sd_uri e\<rparr>
      else if stricmp_eq (sd_name e) ''clientperformancelogs'' then d\<lparr>sd_PerformanceServerUrl := sd_uri e\<rparr>
      else d)"

definition empty_details :: "nat \<Rightarrow> ServiceDiscoveryDetails" where
  "empty_details ttl =
     \<lparr>sd_EndUserLicensesUrl = [], sd_TemplatesUrl = [], sd_PublishingLicensesUrl = [],
      sd_CloudDiagnosticsServerUrl = [], sd_PerformanceServerUrl = [], sd_Domain = [], sd_OriginalInput = [],
      sd_Ttl = ttl\<rparr>"

definition complete_details :: "ServiceDiscoveryDetails \<Rightarrow> exn + unit" where
  "complete_details d =
     bindE (not_empty (sd_EndUserLicensesUrl d) ''EndUserLicensesUrl is empty'') (\<lambda>_.
     bindE (not_empty (sd_PublishingLicensesUrl d) ''PublishingLicensesUrl is empty'') (\<lambda>_.
     bindE (not_empty (sd_TemplatesUrl d) ''TemplatesUrl is empty'') (\<lambda>_.
     bindE (not_empty (sd_CloudDiagnosticsServerUrl d) ''CloudDiagnosticsServerUrl is empty'') (\<lambda>_.
       not_empty (sd_PerformanceServerUrl d) ''PerformanceServerUrl is empty''))))"

section \<open>Finding the details\<close>

record LicenseParserResult =
  lp_Domains :: "Domain list"
  lp_ServerPublicCertificate :: "string option"

definition DEFAULT_DNS_TTL :: nat where "DEFAULT_DNS_TTL = 30 * 24 * 60 * 60"

definition GetTtlString :: "'k cache_env \<Rightarrow> nat \<Rightarrow> string" where
  "GetTtlString env ttl =
     (let secs = (if ttl = no_ttl then DEFAULT_DNS_TTL else ttl);
          dtn = currentDateTime (ce_now env)
      in timeToString (ce_tz env) (addSecs (int secs) dtn))"

definition default_details :: "(exn, 'k world, ServiceDiscoveryDetails) sx" where
  "default_details =
     bnd default_EndUserLicensesUrl (\<lambda>e.
     bnd default_PublishUrl (\<lambda>p.
     bnd default_TemplatesUrl (\<lambda>t.
     bnd default_CloudDiagnosticsServerUrl (\<lambda>c.
     bnd default_PerformanceServerUrl (\<lambda>f.
       ret ((empty_details 0)\<lparr>sd_EndUserLicensesUrl := e, sd_PublishingLicensesUrl := p, sd_TemplatesUrl := t,
         sd_CloudDiagnosticsServerUrl := c, sd_PerformanceServerUrl := f\<rparr>))))))"

fun first_cached_details ::
  "('k, 'n) sd_env \<Rightarrow> Domain list \<Rightarrow> (exn, ('k, 'n) sd_world, ServiceDiscoveryDetails option) sx" where
  "first_cached_details env [] = ret None"
| "first_cached_details env (d # ds) =
     bnd (on_disk (LookupServiceDiscoveryDetails (se_cache env) False (c_str (GetDomainStringForDnsLookup d)))) (\<lambda>r.
       case r of Some x \<Rightarrow> ret (Some x) | None \<Rightarrow> first_cached_details env ds)"

fun first_cached_dns ::
  "('k, 'n) sd_env \<Rightarrow> Domain list \<Rightarrow> (exn, ('k, 'n) sd_world, (Domain \<times> DnsClientResult) option) sx" where
  "first_cached_dns env [] = ret None"
| "first_cached_dns env (d # ds) =
     bnd (on_disk (LookupDnsClientResult (se_cache env) False (c_str (GetDomainStringForDnsLookup d)))) (\<lambda>r.
       case r of
         [] \<Rightarrow> first_cached_dns env ds
       | a # _ \<Rightarrow> bnd (on_disk (DnsClientResult_Create a)) (\<lambda>x. ret (Some (d, x))))"

fun store_checked ::
  "('k, 'n) sd_env \<Rightarrow> DnsClientResult \<Rightarrow> string list \<Rightarrow> (exn, ('k, 'n) sd_world, unit) sx" where
  "store_checked env d [] = ret ()"
| "store_checked env d (c # cs) =
     bnd (liftE (GetTtl d)) (\<lambda>ttl.
     bnd (liftE (GetDiscoveryUrl d)) (\<lambda>url.
     seqx (on_disk (StoreDnsClientResult (se_cache env) False (c_str c) (c_str (GetTtlString (se_cache env) ttl)) url))
       (store_checked env d cs)))"

fun first_in_dns ::
  "('k, 'n) sd_env \<Rightarrow> Domain list \<Rightarrow> (exn, ('k, 'n) sd_world, (Domain \<times> DnsClientResult) option) sx" where
  "first_in_dns env [] = ret None"
| "first_in_dns env (d # ds) =
     bnd (LookupDiscoveryService env d) (\<lambda>r.
       case r of
         None \<Rightarrow> first_in_dns env ds
       | Some x \<Rightarrow> seqx (store_checked env x (dn_DomainsChecked x)) (ret (Some (d, x))))"

definition select_domain ::
  "('k, 'n) sd_env \<Rightarrow> Domain list \<Rightarrow> (exn, ('k, 'n) sd_world, Domain \<times> DnsClientResult) sx" where
  "select_domain env domains =
     bnd (first_cached_dns env domains) (\<lambda>cached.
       case cached of
         Some x \<Rightarrow> ret x
       | None \<Rightarrow> bnd (first_in_dns env domains) (\<lambda>found.
           case found of
             Some x \<Rightarrow> ret x
           | None \<Rightarrow>
               (case domains of
                  [] \<Rightarrow> throw (RMSInvalidArgumentException ''DNS is empty'')
                | d # _ \<Rightarrow> bnd (on_disk (DnsClientResult_new [])) (\<lambda>x. ret (d, x)))))"

definition query_details ::
  "('k, 'n) sd_env \<Rightarrow> string \<Rightarrow> ask_consent option \<Rightarrow> string option \<Rightarrow> Domain \<Rightarrow> DnsClientResult \<Rightarrow>
   (exn, ('k, 'n) sd_world, ServiceDiscoveryDetails) sx" where
  "query_details env sEmail consentCallback cert selectedDomain dnsClientResult =
     bnd (liftE (GetDiscoveryUrl dnsClientResult)) (\<lambda>discoveryUrl.
     seqx (consent_if env consentCallback sEmail (GetDomainStringForDnsLookup selectedDomain) discoveryUrl)
    (bnd (on_net (discovery_response env selectedDomain cert discoveryUrl)) (\<lambda>serviceEndpoints.
     let details = fold take_endpoint serviceEndpoints (empty_details no_ttl)
     in bnd (liftE (complete_details details)) (\<lambda>_.
        seqx (if dn_DnsRecordFound dnsClientResult
              then on_disk (StoreServiceDiscoveryDetails (se_cache env) False
                     (GetDomainStringForDnsLookup selectedDomain) details (GetTtlString (se_cache env) (sd_Ttl details)))
              else ret ())
          (ret (details\<lparr>sd_Domain := GetDomainStringForDnsLookup selectedDomain,
             sd_OriginalInput := GetOriginalInput selectedDomain\<rparr>))))))"

definition GetServiceDiscoveryDetails ::
  "('k, 'n) sd_env \<Rightarrow> LicenseParserResult option \<Rightarrow> string \<Rightarrow> ask_consent option \<Rightarrow>
   (exn, ('k, 'n) sd_world, ServiceDiscoveryDetails) sx" where
  "GetServiceDiscoveryDetails env licenseParserResults sEmail consentCallback =
     bnd (on_disk (settings_get (GetBool ''MSIPCThin'' ''ServiceDiscoveryEnabled'' True))) (\<lambda>enabled.
       if \<not> enabled \<or> (licenseParserResults = None \<and> sEmail = [])
       then bnd (on_disk default_details) (\<lambda>d.
              seqx (consent_if env consentCallback sEmail (sd_Domain d) (sd_EndUserLicensesUrl d)) (ret d))
       else bnd (liftE (case licenseParserResults of
                          Some r \<Rightarrow> Inr (lp_Domains r, if IsEvoEnabled then lp_ServerPublicCertificate r else None)
                        | None \<Rightarrow> bindE (Domain_CreateFromEmail sEmail) (\<lambda>d. Inr ([d], None)))) (\<lambda>(domains, cert).
            bnd (first_cached_details env domains) (\<lambda>cached.
              case cached of
                Some d \<Rightarrow> seqx (consent_if env consentCallback sEmail (sd_Domain d) (sd_EndUserLicensesUrl d)) (ret d)
              | None \<Rightarrow> bnd (select_domain env domains) (\<lambda>(selectedDomain, dnsClientResult).
                  query_details env sEmail consentCallback cert selectedDomain dnsClientResult))))"

section \<open>The operations of the client\<close>

text \<open>The map in memory is ordered by upper-case addresses.\<close>

definition to_upper :: "char \<Rightarrow> char" where
  "to_upper c = (let n = of_char c :: nat in if 97 \<le> n \<and> n \<le> 122 then char_of (n - 32) else c)"

definition FindCache :: "string \<Rightarrow> (exn, ('k, 'n) sd_world, ServiceDiscoveryDetails option) sx" where
  "FindCache sEmail =
     (if sEmail = [] then ret None
      else bnd (on_disk IsCacheLookupDisableTestHookOn) (\<lambda>off.
             if off then ret None
             else gets (\<lambda>s. map_of (sw_details s) (map to_upper sEmail))))"

definition GetEndUserLicensesUrl ::
  "('k, 'n) sd_env \<Rightarrow> LicenseParserResult option \<Rightarrow> string \<Rightarrow> ask_consent \<Rightarrow> (exn, ('k, 'n) sd_world, string) sx" where
  "GetEndUserLicensesUrl env licenseParserResult sEmail consentCallback =
     bnd (FindCache sEmail) (\<lambda>found.
     bnd (case found of
            None \<Rightarrow> GetServiceDiscoveryDetails env licenseParserResult sEmail (Some consentCallback)
          | Some d \<Rightarrow> seqx (GetConsent env consentCallback sEmail (sd_Domain d) (sd_EndUserLicensesUrl d)) (ret d))
       (\<lambda>d. ret (sd_EndUserLicensesUrl d)))"

definition remembered_details ::
  "('k, 'n) sd_env \<Rightarrow> string \<Rightarrow> (exn, ('k, 'n) sd_world, ServiceDiscoveryDetails) sx" where
  "remembered_details env sEmail =
     bnd (FindCache sEmail) (\<lambda>found.
       case found of
         Some d \<Rightarrow> ret d
       | None \<Rightarrow> bnd (GetServiceDiscoveryDetails env None sEmail None) (\<lambda>d.
           seqx (modify (\<lambda>s. s\<lparr>sw_details := (map to_upper sEmail, d) # sw_details s\<rparr>)) (ret d)))"

definition GetTemplatesUrl :: "('k, 'n) sd_env \<Rightarrow> string \<Rightarrow> (exn, ('k, 'n) sd_world, string) sx" where
  "GetTemplatesUrl env sEmail = bnd (remembered_details env sEmail) (\<lambda>d. ret (sd_TemplatesUrl d))"

definition GetPublishUrl :: "('k, 'n) sd_env \<Rightarrow> string \<Rightarrow> (exn, ('k, 'n) sd_world, string) sx" where
  "GetPublishUrl env sEmail = bnd (remembered_details env sEmail) (\<lambda>d. ret (sd_PublishingLicensesUrl d))"

definition GetCloudDiagnosticsServerUrl :: "('k, 'n) sd_env \<Rightarrow> string \<Rightarrow> (exn, ('k, 'n) sd_world, string) sx" where
  "GetCloudDiagnosticsServerUrl env sEmail =
     bnd (remembered_details env sEmail) (\<lambda>d. ret (sd_CloudDiagnosticsServerUrl d))"

definition GetPerformanceServerUrl :: "('k, 'n) sd_env \<Rightarrow> string \<Rightarrow> (exn, ('k, 'n) sd_world, string) sx" where
  "GetPerformanceServerUrl env sEmail =
     bnd (remembered_details env sEmail) (\<lambda>d. ret (sd_PerformanceServerUrl d))"

end
