(* ===== verification/ServiceClients.thy ===== *)
theory ServiceClients
  imports ServiceDiscovery UserPolicy
begin

text \<open>
  The clients of the publishing and the template service
  (\<open>rms_sdk/RestClients/PublishClient.cpp\<close>, \<open>TemplatesClient.cpp\<close>).
\<close>

definition invalid_json :: "string \<Rightarrow> exn + 'a \<Rightarrow> exn + 'a" where
  "invalid_json msg r = (case r of Inl e \<Rightarrow> Inl (if is_rms e then server_error msg else e) | Inr x \<Rightarrow> Inr x)"

definition PublishCommon ::
  "('k, 'n) sd_env \<Rightarrow> byte list \<Rightarrow> string \<Rightarrow> (exn, ('k, 'n) sd_world, PublishResponse) sx" where
  "PublishCommon env requestBody sEmail =
     bnd (GetPublishUrl env sEmail) (\<lambda>publishUrl.
     bnd (on_net (rest_Post (se_curl env) (se_rest env 1) (se_auth env) publishUrl requestBody)) (\<lambda>result.
     bnd (liftE (checked_body (se_js env) result)) (\<lambda>body.
       liftE (invalid_json ''PublishClient: Got an invalid json from the REST service.''
         (DeserializePublishResponse (se_js env) body)))))"

definition PublishUsingTemplate ::
  "('k, 'n) sd_env \<Rightarrow> PublishUsingTemplateRequest \<Rightarrow> string \<Rightarrow> (exn, ('k, 'n) sd_world, PublishResponse) sx" where
  "PublishUsingTemplate env request sEmail =
     bnd (liftE (SerializePublishUsingTemplateRequest (se_js env) request)) (\<lambda>serializedRequest.
       PublishCommon env serializedRequest sEmail)"

definition PublishCustom ::
  "('k, 'n) sd_env \<Rightarrow> PublishCustomRequest \<Rightarrow> string \<Rightarrow> (exn, ('k, 'n) sd_world, PublishResponse) sx" where
  "PublishCustom env request sEmail =
     bnd (liftE (SerializePublishCustomRequest (se_js env) request)) (\<lambda>serializedRequest.
       PublishCommon env serializedRequest sEmail)"

definition GetTemplates ::
  "('k, 'n) sd_env \<Rightarrow> string \<Rightarrow> (exn, ('k, 'n) sd_world, TemplateResponse list) sx" where
  "GetTemplates env sEmail =
     bnd (GetTemplatesUrl env sEmail) (\<lambda>templatesUrl.
     bnd (on_net (rest_Get (se_curl env) (se_rest env 1) (se_auth env) templatesUrl
           \<lparr>ap_ServerPublicCertificate = [], ap_ServiceDiscoverUrl = []\<rparr>)) (\<lambda>result.
     bnd (liftE (checked_body (se_js env) result)) (\<lambda>body.
       liftE (invalid_json ''TemplatesClient: Got an invalid json from the REST service''
         (DeserializeTemplateListResponse (se_js env) body)))))"

text \<open>\<open>ModernAPI/TemplateDescriptor.cpp\<close>: the list that the future holds.\<close>

definition GetTemplateListAsync ::
  "('k, 'n) sd_env \<Rightarrow> string \<Rightarrow> (exn, ('k, 'n) sd_world, TemplateDescriptor list) sx" where
  "GetTemplateListAsync env userId =
     bnd (GetTemplates env userId) (\<lambda>response.
       ret (map (\<lambda>t. \<lparr>td_id = tr_id t, td_name = tr_name t, td_description = tr_description t\<rparr>) response))"

end
