(* ===== verification/ServiceProperties.thy ===== *)
theory ServiceProperties
  imports ServiceClients DiskCacheProperties ConsentProperties JsonProperties
begin

text \<open>What the theorems say of finding the services and of their clients.\<close>

section \<open>The address of the discovery service\<close>

lemma find_at_found: "find_at pat s = Some i \<Longrightarrow> take (length pat) (drop i s) = pat \<and> i + length pat \<le> length s"
proof (induction s arbitrary: i)
  case (Cons c r)
  then show ?case
  proof (cases "take (length pat) (c # r) = pat")
    case True
    then have "length pat \<le> length (c # r)" by (metis length_take min.cobounded1)
    then show ?thesis using Cons.prems True by auto
  next
    case False
    then obtain j where j: "find_at pat r = Some j" "i = Suc j" using Cons.prems by auto
    then show ?thesis using Cons.IH [OF j(1)] by simp
  qed
qed (auto split: if_splits)

lemma rfind_found:
  assumes "rfind_str pat src = Some p"
  shows "\<exists>rest. src = take p src @ pat @ rest \<and> p \<le> length src"
proof -
  obtain i where i: "find_at (rev pat) (rev src) = Some i" "p = length src - (i + length pat)"
    using assms by (auto simp: rfind_str_def)
  then have t: "take (length pat) (drop i (rev src)) = rev pat" "i + length pat \<le> length src"
    using find_at_found [OF i(1)] by simp_all
  have "rev src = take i (rev src) @ rev pat @ drop (length pat) (drop i (rev src))"
    by (metis append_take_drop_id t(1))
  then have "rev (rev src) = rev (drop (length pat) (drop i (rev src))) @ pat @ rev (take i (rev src))"
    by (metis append.assoc rev_append rev_rev_ident)
  then have s: "src = rev (drop (length pat) (drop i (rev src))) @ pat @ rev (take i (rev src))" by simp
  moreover have "length (rev (drop (length pat) (drop i (rev src)))) = p" using i(2) t(2) by simp
  ultimately have "take p src = rev (drop (length pat) (drop i (rev src)))" by (metis append_eq_conv_conj)
  then show ?thesis using s i(2) by (metis diff_le_self)
qed

abbreviation https :: string where "https \<equiv> ''https://''"

lemma https_after_suffix:
  assumes "map to_lower (take 8 url) = https" and "rfind_str (GetTenantV1 @ GetServiceDiscoverySuffix) url = Some p"
  shows "map to_lower (take 8 (take p url @ GetTenantV2 @ GetServiceDiscoverySuffix @ rest)) = https"
proof -
  obtain r where r: "url = take p url @ ''/my/v1/servicediscovery'' @ r" "p \<le> length url"
    using rfind_found [OF assms(2)] by (auto simp: GetTenantV1_def GetServiceDiscoverySuffix_def)
  have lp: "length (take p url) = p" using r(2) by simp
  show ?thesis
  proof (cases "3 \<le> p")
    case True
    then have k: "8 - p \<le> length ''/my/v''" by simp
    have "take (8 - p) (''/my/v'' @ a) = take (8 - p) (''/my/v'' @ b)" for a b
      using k by (simp only: take_append) simp
    from this [of "''1/servicediscovery'' @ r" "''2/servicediscovery'' @ rest"]
    have "take (8 - length (take p url)) (''/my/v1/servicediscovery'' @ r) =
        take (8 - length (take p url)) (GetTenantV2 @ GetServiceDiscoverySuffix @ rest)"
      unfolding lp GetTenantV2_def GetServiceDiscoverySuffix_def by simp
    then have "take 8 (take p url @ GetTenantV2 @ GetServiceDiscoverySuffix @ rest) = take 8 (take p url @ ''/my/v1/servicediscovery'' @ r)"
      by (simp only: take_append [of 8 "take p url"])
    then show ?thesis using assms(1) by (simp only: r(1) [symmetric])
  next
    case False
    have "length (take 8 url) = 8" using arg_cong [OF assms(1), of length] by simp
    then have "map to_lower (take 8 url) ! p = to_lower (url ! p)" using False by (simp add: nth_map)
    moreover have "url ! p = CHR ''/''" using r lp by (metis append_Cons nth_append_length)
    ultimately have "https ! p = to_lower (CHR ''/'')" by (simp only: assms(1))
    then have "https ! p = CHR ''/''" by (simp add: to_lower_def)
    moreover have "p = 0 \<or> p = 1 \<or> p = 2" using False by linarith
    ultimately show ?thesis by auto
  qed
qed

text \<open>
  C12: the address at which the discovery service is asked, with the name or the address of the
  user, is one of the secure protocol, whatever DNS answered.
\<close>

theorem discovery_request_https:
  "case CreateGetRequest discoveryUrl domain of
     Inr url \<Rightarrow> map to_lower (take 8 url) = https
   | Inl _ \<Rightarrow> True"
proof (cases "CreateGetRequest discoveryUrl domain")
  case (Inr url)
  have tail: "map to_lower (take 8 (discoveryUrl @ r)) = https" if "map to_lower (take 8 discoveryUrl) = https" for r
  proof -
    have "length (take 8 discoveryUrl) = 8" using arg_cong [OF that, of length] by simp
    then show ?thesis using that by simp
  qed
  have scheme: "map to_lower (take 8 (https @ r)) = https" for r by (simp add: to_lower_def)
  show ?thesis
  proof (cases "find_str ''//'' discoveryUrl 0 = None")
    case True
    then obtain r where "url = https @ r"
      using Inr by (auto simp: CreateGetRequest_def bindE_eq_Inr Let_def split: DomainType.splits)
    then show ?thesis using scheme [of r] Inr by simp
  next
    case False
    then have h: "map to_lower (take 8 discoveryUrl) = https"
      using Inr by (auto simp: CreateGetRequest_def bindE_eq_Inr split: if_splits)
    have "\<exists>r. url = discoveryUrl @ r \<or>
        (\<exists>p. rfind_str (GetTenantV1 @ GetServiceDiscoverySuffix) discoveryUrl = Some p \<and>
          url = take p discoveryUrl @ GetTenantV2 @ GetServiceDiscoverySuffix @ r)"
      using Inr False h
      by (auto simp: CreateGetRequest_def bindE_eq_Inr Let_def IsEvoEnabled_def split: DomainType.splits option.splits)
    then have "map to_lower (take 8 url) = https" using tail [OF h] https_after_suffix [OF h] by blast
    then show ?thesis using Inr by simp
  qed
qed simp

section \<open>The names asked in DNS\<close>

text \<open>A name and its parents, as long as something follows the first label.\<close>

function parent_domains :: "string \<Rightarrow> string list" where
  "parent_domains d =
     (let r = tl (dropWhile (\<lambda>c. c \<noteq> CHR ''.'') d) in if r = [] then [] else d # parent_domains r)"
  by pat_completeness auto
termination
proof (relation "measure length")
  fix d :: string and r
  assume r: "r = tl (dropWhile (\<lambda>c. c \<noteq> CHR ''.'') d)" and n: "r \<noteq> []"
  have "0 < length r" using n by (rule length_greater_0_conv [THEN iffD2])
  moreover have "length r = length (dropWhile (\<lambda>c. c \<noteq> CHR ''.'') d) - 1" by (simp add: r)
  ultimately show "(r, d) \<in> measure length"
    using length_dropWhile_le [of "\<lambda>c. c \<noteq> CHR ''.''" d] by simp
qed simp

declare parent_domains.simps [simp del]

lemma parent_domains_dot:
  "CHR ''.'' \<notin> set a \<Longrightarrow> parent_domains (a @ CHR ''.'' # b) = (if b = [] then [] else (a @ CHR ''.'' # b) # parent_domains b)"
  by (subst parent_domains.simps) (simp add: dropWhile_append)

lemma parent_domains_plain: "CHR ''.'' \<notin> set a \<Longrightarrow> parent_domains a = []"
proof -
  assume "CHR ''.'' \<notin> set a"
  then have "dropWhile (\<lambda>c. c \<noteq> CHR ''.'') a = []" by auto
  then show ?thesis by (subst parent_domains.simps) (simp only: Let_def list.sel, simp)
qed

lemma domains_loop_parents: "domains_loop (pre @ s) (getlines (CHR ''.'') s) (length pre) = Inr (parent_domains s)"
proof (induction s arbitrary: pre rule: measure_induct_rule [where f = length])
  case (less s)
  show ?case
  proof (cases "CHR ''.'' \<in> set s")
    case False
    then show ?thesis by (cases "s = []") (simp_all add: getlines_last parent_domains_plain)
  next
    case True
    then obtain a b where s: "s = a @ CHR ''.'' # b" "CHR ''.'' \<notin> set a" by (meson split_list_first)
    show ?thesis
    proof (cases "b = []")
      case True
      then show ?thesis by (simp add: s getlines_delim parent_domains_dot)
    next
      case False
      then obtain m ms where m: "getlines (CHR ''.'') b = m # ms" using getlines_at by metis
      have "domains_loop ((pre @ a @ ''.'') @ b) (getlines (CHR ''.'') b) (length (pre @ a @ ''.'')) = Inr (parent_domains b)"
        by (rule less) (simp add: s)
      then show ?thesis using False m
        by (simp add: s(1) s(2) getlines_delim parent_domains_dot std_substr_def bindE_def)
    qed
  qed
qed

text \<open>The names asked in DNS are exactly the domain and its parents, without its last label.\<close>

theorem possible_domains_are_parents: "GetPossibleDomains domain = Inr (parent_domains domain)"
  using domains_loop_parents [of "[]" domain] by (simp add: GetPossibleDomains_def SplitDomains_def)

section \<open>What is stored\<close>

text \<open>A domain the cache can be asked about: the part before any NUL is used.\<close>

definition lookup_name :: "Domain \<Rightarrow> bool" where
  "lookup_name d \<longleftrightarrow> (let n = c_str (GetDomainStringForDnsLookup d) in n \<noteq> [] \<and> hd n \<noteq> CHR ''.'')"

lemma Lookup_nothing:
  assumes "lookup_name d"
  shows "\<exists>r. Lookup env enc (c_str (GetDomainStringForDnsLookup d)) tag key useHash w = (r, w) \<and> (\<forall>vs. r = Inr vs \<longrightarrow> vs = [])"
proof (rule Lookup_result)
  let ?n = "c_str (GetDomainStringForDnsLookup d)"
  show "?n \<noteq> [] \<longrightarrow> hd ?n \<noteq> CHR ''.'' \<and> hd ?n \<noteq> CHR 0x00"
    using assms unfolding lookup_name_def Let_def c_str_def by (metis (mono_tags, lifting) hd_dropWhile list.set_sel(1) set_takeWhileD)
qed

lemma no_cached_details:
  assumes "list_all lookup_name ds"
  shows "\<exists>r. first_cached_details env ds s = (r, s) \<and> (r = Inr None \<or> (\<exists>e. r = Inl e))"
  using assms
proof (induction ds)
  case (Cons d ds)
  obtain r where r: "Lookup (se_cache env) False (c_str (GetDomainStringForDnsLookup d)) tag None False (sw_disk s) = (r tag, sw_disk s)"
    "\<And>vs. r tag = Inr vs \<Longrightarrow> vs = []" for tag
    using Lookup_nothing [of d "se_cache env" False _ None False "sw_disk s"] Cons.prems by (simp, metis)
  have "\<exists>x. LookupServiceDiscoveryDetails (se_cache env) False (c_str (GetDomainStringForDnsLookup d)) (sw_disk s) = (x, sw_disk s) \<and>
      (x = Inr None \<or> (\<exists>e. x = Inl e))"
    using r by (auto simp: LookupServiceDiscoveryDetails_def sx_simps split: sum.splits)
  then show ?case using Cons by (auto simp: on_disk_def sx_simps)
qed (simp add: ret_app)

lemma no_cached_dns:
  assumes "list_all lookup_name ds"
  shows "\<exists>r. first_cached_dns env ds s = (r, s) \<and> (r = Inr None \<or> (\<exists>e. r = Inl e))"
  using assms
proof (induction ds)
  case (Cons d ds)
  obtain r where r: "Lookup (se_cache env) False (c_str (GetDomainStringForDnsLookup d)) ''DNS_CLIENT_RESULT'' None False (sw_disk s) = (r, sw_disk s)"
    "\<And>vs. r = Inr vs \<Longrightarrow> vs = []"
    using Lookup_nothing [of d "se_cache env" False "''DNS_CLIENT_RESULT''" None False "sw_disk s"] Cons.prems by auto
  then show ?case using Cons by (cases r) (auto simp: on_disk_def LookupDnsClientResult_def sx_simps)
qed (simp add: ret_app)

definition unrecorded_result :: "DnsClientResult \<Rightarrow> bool" where
  "unrecorded_result x \<longleftrightarrow> \<not> dn_DnsRecordFound x \<and> dn_DomainsChecked x = []"

lemma Create_result: "\<exists>x. DnsClientResult_Create url w = (Inr x, w) \<and> unrecorded_result x"
  by (simp add: DnsClientResult_Create_def DnsClientResult_new_def GetServiceDiscoveryUrl_def service_path_def
      GetServiceRootUrl_def settings_get_def sx_simps unrecorded_result_def)

lemma Lookup_service_result:
  "\<exists>x s'. LookupDiscoveryService env d s = (Inr (Some x), s') \<and> unrecorded_result x \<and> sw_disk s' = sw_disk s"
proof -
  obtain r n where a: "ask_dns (se_dns env) (parent_domains (GetDomainStringForDnsLookup d)) (sw_net s) = (r, n)" by force
  obtain x where "DnsClientResult_Create (case r of None \<Rightarrow> ''api.aadrm.com'' | Some a \<Rightarrow> a) (sw_disk s) = (Inr x, sw_disk s)"
    "unrecorded_result x"
    using Create_result by blast
  moreover have "GetPossibleDomains (GetDomainStringForDnsLookup d) = Inr (parent_domains (GetDomainStringForDnsLookup d))"
    using domains_loop_parents [of "[]"] by (simp add: GetPossibleDomains_def SplitDomains_def)
  ultimately show ?thesis using a by (simp add: LookupDiscoveryService_def on_net_def on_disk_def sx_simps)
qed

lemma first_in_dns_result:
  "\<exists>r s'. first_in_dns env ds s = (Inr r, s') \<and> sw_disk s' = sw_disk s \<and>
    (case ds of [] \<Rightarrow> r = None | d # _ \<Rightarrow> \<exists>x. r = Some (d, x) \<and> unrecorded_result x)"
proof (cases ds)
  case (Cons d ds')
  obtain x s' where "LookupDiscoveryService env d s = (Inr (Some x), s')" "unrecorded_result x" "sw_disk s' = sw_disk s"
    using Lookup_service_result by blast
  then show ?thesis using Cons by (simp add: sx_simps unrecorded_result_def)
qed (simp add: ret_app)

lemma select_result:
  assumes "list_all lookup_name ds"
  shows "\<exists>r s'. select_domain env ds s = (r, s') \<and> sw_disk s' = sw_disk s \<and>
    (\<forall>d x. r = Inr (d, x) \<longrightarrow> ds \<noteq> [] \<and> d = hd ds \<and> unrecorded_result x)"
proof -
  obtain r where r: "first_cached_dns env ds s = (r, s)" "r = Inr None \<or> (\<exists>e. r = Inl e)"
    using no_cached_dns [OF assms] by blast
  obtain f s' where f: "first_in_dns env ds s = (Inr f, s')" "sw_disk s' = sw_disk s"
    "case ds of [] \<Rightarrow> f = None | d # _ \<Rightarrow> \<exists>x. f = Some (d, x) \<and> unrecorded_result x"
    using first_in_dns_result [of env ds s] by (elim exE conjE) (rule that)
  show ?thesis
  proof (cases r)
    case (Inl e)
    then show ?thesis using r(1) by (simp add: select_domain_def sx_simps)
  next
    case (Inr c)
    then have c: "first_cached_dns env ds s = (Inr None, s)" using r by auto
    show ?thesis
    proof (cases ds)
      case Nil
      then show ?thesis using c f by (simp add: select_domain_def sx_simps)
    next
      case (Cons d ds')
      then obtain x where "f = Some (d, x)" "unrecorded_result x" using f(3) by auto
      then show ?thesis using c f(1,2) Cons by (simp add: select_domain_def sx_simps)
    qed
  qed
qed

text \<open>
  Of the domains of a license only the first is ever asked for: the cache has nothing, and a
  lookup in DNS always has a result.
\<close>

theorem only_first_domain_asked:
  assumes "list_all lookup_name (d # ds)"
  shows "case fst (select_domain env (d # ds) s) of Inr (selected, x) \<Rightarrow> selected = d | Inl _ \<Rightarrow> True"
  using select_result [OF assms, of env s] by (auto split: sum.splits)

theorem only_first_domain_asked_witness:
  "\<forall>env s. case fst (select_domain env
      [\<lparr>dm_type = UrlDomain, dm_Email = [], dm_Url = [], dm_RelevantDomain = ''a.b''\<rparr>,
       \<lparr>dm_type = UrlDomain, dm_Email = [], dm_Url = [], dm_RelevantDomain = ''c.d''\<rparr>] s) of
     Inr (selected, x) \<Rightarrow> selected = \<lparr>dm_type = UrlDomain, dm_Email = [], dm_Url = [], dm_RelevantDomain = ''a.b''\<rparr>
   | Inl _ \<Rightarrow> True"
  by (intro allI, rule only_first_domain_asked) (simp add: lookup_name_def GetDomainStringForDnsLookup_def c_str_def)

lemma on_net_disk: "on_net m s = (r, s') \<Longrightarrow> sw_disk s' = sw_disk s"
  by (auto simp: on_net_def sx_simps split: prod.splits)

lemma query_details_disk:
  assumes "unrecorded_result x"
  shows "sw_disk (snd (query_details env sEmail None cert d x s)) = sw_disk s"
  using assms
  by (auto simp: query_details_def consent_if_def unrecorded_result_def Let_def sx_simps
      split: sum.splits prod.splits dest: on_net_disk)

text \<open>
  What is found is never stored: discovery for a template list or a publication leaves the
  disk as it was, so that the next process starts it again.
\<close>

theorem discovery_leaves_no_trace:
  assumes "case licenseParserResults of
      Some r \<Rightarrow> list_all lookup_name (lp_Domains r)
    | None \<Rightarrow> (case Domain_CreateFromEmail sEmail of Inr d \<Rightarrow> lookup_name d | Inl _ \<Rightarrow> True)"
  shows "sw_disk (snd (GetServiceDiscoveryDetails env licenseParserResults sEmail None s)) = sw_disk s"
proof -
  obtain en where en: "on_disk (settings_get (GetBool ''MSIPCThin'' ''ServiceDiscoveryEnabled'' True)) s = (Inr en, s)"
    by (simp add: on_disk_def settings_get_def sx_simps)
  obtain df where df: "on_disk default_details s = (Inr df, s)"
    by (simp add: on_disk_def default_details_def default_EndUserLicensesUrl_def default_PublishUrl_def
        default_TemplatesUrl_def default_CloudDiagnosticsServerUrl_def default_PerformanceServerUrl_def
        service_path_def GetServiceRootUrl_def settings_get_def sx_simps)
  let ?found = "case licenseParserResults of
      Some r \<Rightarrow> Inr (lp_Domains r, if IsEvoEnabled then lp_ServerPublicCertificate r else None)
    | None \<Rightarrow> bindE (Domain_CreateFromEmail sEmail) (\<lambda>d. Inr ([d], None))"
  have no_consent: "consent_if env None e d u t = (Inr (), t)" for e d u and t :: "('a, 'b) sd_world"
    by (simp add: consent_if_def ret_app)
  define R where "R = (\<lambda>domains cert. bnd (first_cached_details env domains) (\<lambda>cached.
      case cached of
        Some d \<Rightarrow> seqx (consent_if env None sEmail (sd_Domain d) (sd_EndUserLicensesUrl d)) (ret d)
      | None \<Rightarrow> bnd (select_domain env domains) (\<lambda>(selectedDomain, dnsClientResult).
          query_details env sEmail None cert selectedDomain dnsClientResult)))"
  have rest: "sw_disk (snd (R domains cert s)) = sw_disk s" if names: "list_all lookup_name domains" for domains cert
  proof -
    obtain r where r: "first_cached_details env domains s = (r, s)" "r = Inr None \<or> (\<exists>e. r = Inl e)"
      using no_cached_details [OF names] by blast
    obtain q s' where q: "select_domain env domains s = (q, s')" "sw_disk s' = sw_disk s"
      "\<forall>d x. q = Inr (d, x) \<longrightarrow> unrecorded_result x"
      using select_result [OF names, of env s] by blast
    have "sw_disk (snd (query_details env sEmail None cert a b s')) = sw_disk s" if "q = Inr (a, b)" for a b
      using q(3) that by (simp add: query_details_disk q(2))
    then show ?thesis using r q by (cases q) (auto simp: R_def sx_simps)
  qed
  have names: "list_all lookup_name domains" if "?found = Inr (domains, cert)" for domains cert
    using that assms by (auto simp: bindE_eq_Inr split: option.splits sum.splits)
  show ?thesis
    using rest names
    by (cases ?found)
      (auto simp: GetServiceDiscoveryDetails_def R_def [symmetric] en df bnd_app [of "on_disk _"] bnd_app [of "liftE _"]
        liftE_app no_consent seqx_app ret_app)
qed

theorem discovery_leaves_no_trace_witness:
  "\<forall>env s. sw_disk (snd (GetServiceDiscoveryDetails env None ''u@c.d'' None s)) = sw_disk s"
  by (intro allI, rule discovery_leaves_no_trace)
    (simp add: Domain_CreateFromEmail_def find_str_def lookup_name_def GetDomainStringForDnsLookup_def c_str_def)

section \<open>The clients\<close>

lemma unknown_folder:
  assumes "\<not> is_dir (cacheFolderName env) w" and "\<not> w_locked w"
    and "fst (IsCacheLookupDisableTestHookOn w) = Inr False"
  shows "fst (Lookup env enc n tag None False w) = Inl StdException"
proof -
  have d: "IsCacheLookupDisableTestHookOn w = (Inr False, w)"
    using assms(3) by (simp add: IsCacheLookupDisableTestHookOn_def settings_get_def sx_simps)
  obtain f where "GetFileName env n tag None [] True False = Inr f" by (simp add: GetFileName_def bindE_def Let_def)
  then show ?thesis
    using assms(1,2) d
    by (simp add: Lookup_def catch_rms_def with_mutex_def sx_simps QueryLocalStorageFiles_def entryList_def is_dir_def)
qed

text \<open>
  While the folder that the cache is kept in does not exist, which only the first consent or
  the first stored response creates, no templates are listed and nothing is published: the
  exception of the file system is not caught.
\<close>

theorem no_folder_no_service:
  assumes "\<not> is_dir (cacheFolderName (se_cache env)) (sw_disk s)" and "\<not> w_locked (sw_disk s)"
    and "fst (IsCacheLookupDisableTestHookOn (sw_disk s)) = Inr False"
    and "fst (settings_get (GetBool ''MSIPCThin'' ''ServiceDiscoveryEnabled'' True) (sw_disk s)) = Inr True"
    and "map_of (sw_details s) (map to_upper email) = None" and "Domain_CreateFromEmail email = Inr d"
  shows "fst (GetTemplates env email s) = Inl StdException \<and> fst (PublishCommon env body email s) = Inl StdException"
proof -
  have e: "email \<noteq> []" using assms(6) by (auto simp: Domain_CreateFromEmail_def find_str_def)
  have d: "IsCacheLookupDisableTestHookOn (sw_disk s) = (Inr False, sw_disk s)"
    using assms(3) by (simp add: IsCacheLookupDisableTestHookOn_def settings_get_def sx_simps)
  have f: "FindCache email s = (Inr None, s)"
    using d e assms(5) by (simp add: FindCache_def on_disk_def sx_simps)
  have g: "on_disk (settings_get (GetBool ''MSIPCThin'' ''ServiceDiscoveryEnabled'' True)) s = (Inr True, s)"
    using assms(4) by (simp add: on_disk_def settings_get_def sx_simps)
  obtain w where "Lookup (se_cache env) False (c_str (GetDomainStringForDnsLookup d)) ''END_USER_LICENSES_UR'' None False (sw_disk s) =
      (Inl StdException, w)"
    using unknown_folder [OF assms(1-3)] by (metis prod.collapse)
  then have "first_cached_details env [d] s = (Inl StdException, s\<lparr>sw_disk := w\<rparr>)"
    by (simp add: on_disk_def LookupServiceDiscoveryDetails_def sx_simps)
  then have "GetServiceDiscoveryDetails env None email None s = (Inl StdException, s\<lparr>sw_disk := w\<rparr>)"
    using g e assms(6) by (simp add: GetServiceDiscoveryDetails_def bnd_app liftE_app bindE_def)
  then have "remembered_details env email s = (Inl StdException, s\<lparr>sw_disk := w\<rparr>)"
    using f by (simp add: remembered_details_def bnd_app)
  then show ?thesis
    by (simp add: GetTemplates_def GetTemplatesUrl_def PublishCommon_def GetPublishUrl_def bnd_app)
qed

definition fresh_start :: "((string \<Rightarrow> string option), unit) sd_world" where
  "fresh_start = \<lparr>sw_disk = fresh_world\<lparr>w_dirs := []\<rparr>, sw_net = (),
     sw_consents = \<lparr>cw_writable = True, cw_serviceUrlFile = None, cw_docTrackingFile = None, cw_db = ConsentDBHelper_create\<rparr>,
     sw_details = []\<rparr>"

theorem no_folder_no_service_witness:
  "\<forall>env body. fst (GetTemplates env ''u@c.d'' fresh_start) = Inl StdException \<and>
     fst (PublishCommon env body ''u@c.d'' fresh_start) = Inl StdException"
proof (intro allI, rule no_folder_no_service)
  show "fst (IsCacheLookupDisableTestHookOn (sw_disk fresh_start)) = Inr False" by code_simp
  show "fst (settings_get (GetBool ''MSIPCThin'' ''ServiceDiscoveryEnabled'' True) (sw_disk fresh_start)) = Inr True" by code_simp
  show "Domain_CreateFromEmail ''u@c.d'' = Inr \<lparr>dm_type = EmailDomain, dm_Email = ''u@c.d'', dm_Url = [], dm_RelevantDomain = ''c.d''\<rparr>"
    by (simp add: Domain_CreateFromEmail_def find_str_def)
qed (simp_all add: fresh_start_def fresh_world_def is_dir_def)

text \<open>C35: No publication ever returns a license, with a template or with a policy of its own.\<close>

theorem publishing_never_succeeds:
  "fst (PublishUsingTemplate env rt email s) \<noteq> Inr r \<and> fst (PublishCustom env rc email s) \<noteq> Inr r"
proof -
  have no: "invalid_json msg (DeserializePublishResponse js body) \<noteq> Inr r" for msg js body
    using publish_refused [of js body r] by (cases "DeserializePublishResponse js body") (simp_all add: invalid_json_def)
  have "fst (PublishCommon env b email s) \<noteq> Inr r" for b s
    by (auto simp: PublishCommon_def bnd_app liftE_app no split: sum.splits prod.splits)
  then show ?thesis
    by (auto simp: PublishUsingTemplate_def PublishCustom_def bnd_app liftE_app split: sum.splits)
qed

text \<open>
  With service discovery switched off, a protected document can be opened until the consent
  to the one service is kept; from then on looking for its address ends with
  \<open>std::out_of_range\<close>.
\<close>

theorem kept_consent_then_out_of_range:
  assumes "fst (settings_get (GetBool ''MSIPCThin'' ''ServiceDiscoveryEnabled'' True) (sw_disk s)) = Inr False"
    and "fst (FindCache email s) = Inr None"
    and "fst (default_EndUserLicensesUrl (sw_disk s)) = Inr url"
    and "fst (service_ShouldGetConsent (ServiceUrlConsent email [url]) False (sw_consents s)) = Inr False"
  shows "fst (GetEndUserLicensesUrl env lpr email (callback, False) s) = Inl StdRangeError"
proof -
  have root: "settings_get f w = (Inr (f (IniFile_create (w_settings w))), w)" for f :: "IniFile \<Rightarrow> 'z" and w :: "'a world"
    by (simp add: settings_get_def gets_app)
  have f: "FindCache email s = (Inr None, s)"
    using assms(2)
    by (auto simp: FindCache_def IsCacheLookupDisableTestHookOn_def settings_get_def on_disk_def sx_simps split: if_splits)
  have g: "on_disk (settings_get (GetBool ''MSIPCThin'' ''ServiceDiscoveryEnabled'' True)) s = (Inr False, s)"
    using assms(1) by (simp add: on_disk_def settings_get_def sx_simps)
  obtain d where d: "on_disk default_details s = (Inr d, s)" "sd_Domain d = []" "sd_EndUserLicensesUrl d = url"
    using assms(3)
    by (simp add: on_disk_def default_details_def default_EndUserLicensesUrl_def default_PublishUrl_def
        default_TemplatesUrl_def default_CloudDiagnosticsServerUrl_def default_PerformanceServerUrl_def
        service_path_def GetServiceRootUrl_def settings_get_def empty_details_def sx_simps)
  obtain c where "Consents callback False email [] [url] (sw_consents s) = (Inl StdRangeError, c)"
    using no_domain_fails [OF assms(4), of callback] by (metis prod.collapse)
  then have "\<exists>s'. GetConsent env (callback, False) email [] url s = (Inl StdRangeError, s')"
    by (simp add: GetConsent_def)
  then show ?thesis
    using f g d
    by (auto simp: GetEndUserLicensesUrl_def GetServiceDiscoveryDetails_def consent_if_def bnd_app seqx_app)
qed

definition no_discovery :: string where
  "no_discovery = ''[MSIPCThin]'' @ [CHR 0x0A] @ ''ServiceDiscoveryEnabled=false'' @ [CHR 0x0A]"

definition cloud_url :: string where
  "cloud_url = ''https://api.aadrm.com/my/v2/enduserlicenses''"

definition switched_off :: "((string \<Rightarrow> string option), unit) sd_world" where
  "switched_off = fresh_start\<lparr>sw_disk := fresh_world\<lparr>w_settings := Some no_discovery\<rparr>,
     sw_consents := \<lparr>cw_writable = True, cw_serviceUrlFile = None, cw_docTrackingFile = None,
       cw_db = ConsentDBHelper_create\<lparr>db_init := True, db_serviceUrlCache := [\<lparr>ud_userId = ''u'', ud_domain = cloud_url\<rparr>]\<rparr>\<rparr>\<rparr>"

lemma switched_off_settings:
  "fst (settings_get (GetBool ''MSIPCThin'' ''ServiceDiscoveryEnabled'' True) (sw_disk switched_off)) = Inr False"
  by code_simp

lemma switched_off_hook: "fst (IsCacheLookupDisableTestHookOn (sw_disk switched_off)) = Inr False"
  by code_simp

theorem kept_consent_then_out_of_range_witness:
  "\<forall>env lpr callback. fst (GetEndUserLicensesUrl env lpr ''u'' (callback, False) switched_off) = Inl StdRangeError"
proof (intro allI, rule kept_consent_then_out_of_range [where url = cloud_url])
  show "fst (FindCache ''u'' switched_off) = Inr None" by code_simp
  show "fst (default_EndUserLicensesUrl (sw_disk switched_off)) = Inr cloud_url" by code_simp
  show "fst (service_ShouldGetConsent (ServiceUrlConsent ''u'' [cloud_url]) False (sw_consents switched_off)) = Inr False"
    by code_simp
qed (rule switched_off_settings)

text \<open>
  Once a client has found the services of a user, every client of the process answers for
  the same address, in upper or lower case, without the network and with no change of state.
\<close>

theorem details_remembered:
  assumes "GetPublishUrl env email s = (Inr url, s1)" and "email \<noteq> []" and "map to_upper email' = map to_upper email"
    and "fst (IsCacheLookupDisableTestHookOn (sw_disk s1)) = Inr False"
  shows "GetPublishUrl env' email' s1 = (Inr url, s1) \<and> (\<exists>t. GetTemplatesUrl env' email' s1 = (Inr t, s1))"
proof -
  obtain d where d: "remembered_details env email s = (Inr d, s1)" "url = sd_PublishingLicensesUrl d"
    using assms(1) by (auto simp: GetPublishUrl_def sx_simps split: prod.splits sum.splits)
  have off: "IsCacheLookupDisableTestHookOn w = (Inr False, w)" if "fst (IsCacheLookupDisableTestHookOn w) = Inr False" for w :: "'a world"
    using that by (simp add: IsCacheLookupDisableTestHookOn_def settings_get_def sx_simps)
  have "map_of (sw_details s1) (map to_upper email) = Some d"
    using d(1) assms(2)
    by (auto simp: remembered_details_def FindCache_def on_disk_def IsCacheLookupDisableTestHookOn_def settings_get_def
        sx_simps split: prod.splits sum.splits if_splits option.splits)
  moreover have "email' \<noteq> []" using assms(2,3) by auto
  ultimately have "FindCache email' s1 = (Inr (Some d), s1)"
    using off [OF assms(4)] assms(3) by (simp add: FindCache_def on_disk_def sx_simps)
  then have "remembered_details env' email' s1 = (Inr d, s1)" by (simp add: remembered_details_def sx_simps)
  then show ?thesis using d(2) by (simp add: GetPublishUrl_def GetTemplatesUrl_def sx_simps)
qed

theorem details_remembered_witness:
  "\<forall>env env'. \<exists>url s1. GetPublishUrl env ''u@c.d'' switched_off = (Inr url, s1) \<and> GetPublishUrl env' ''U@C.D'' s1 = (Inr url, s1)"
proof (intro allI)
  fix env env' :: "(string \<Rightarrow> string option, unit) sd_env"
  have "IsCacheLookupDisableTestHookOn (sw_disk switched_off) = (Inr False, sw_disk switched_off)"
    using switched_off_hook by (simp add: IsCacheLookupDisableTestHookOn_def settings_get_def gets_app)
  moreover have "sw_details switched_off = []" by (simp add: switched_off_def fresh_start_def)
  ultimately have "FindCache ''u@c.d'' switched_off = (Inr None, switched_off)"
    by (simp add: FindCache_def on_disk_def sx_simps)
  moreover have "settings_get (GetBool ''MSIPCThin'' ''ServiceDiscoveryEnabled'' True) (sw_disk switched_off) = (Inr False, sw_disk switched_off)"
    using switched_off_settings by (simp add: settings_get_def gets_app)
  moreover obtain d where "default_details (sw_disk switched_off) = (Inr d, sw_disk switched_off)"
    by (simp add: default_details_def default_EndUserLicensesUrl_def default_PublishUrl_def default_TemplatesUrl_def
        default_CloudDiagnosticsServerUrl_def default_PerformanceServerUrl_def service_path_def GetServiceRootUrl_def
        settings_get_def sx_simps)
  ultimately have p: "GetPublishUrl env ''u@c.d'' switched_off = (Inr (sd_PublishingLicensesUrl d),
      switched_off\<lparr>sw_details := (map to_upper ''u@c.d'', d) # sw_details switched_off\<rparr>)"
    by (simp add: GetPublishUrl_def remembered_details_def GetServiceDiscoveryDetails_def on_disk_def consent_if_def sx_simps)
  have "GetPublishUrl env' ''U@C.D'' (switched_off\<lparr>sw_details := (map to_upper ''u@c.d'', d) # sw_details switched_off\<rparr>) =
      (Inr (sd_PublishingLicensesUrl d), switched_off\<lparr>sw_details := (map to_upper ''u@c.d'', d) # sw_details switched_off\<rparr>)"
    using details_remembered [OF p, of "''U@C.D''" env'] switched_off_hook
    by (simp add: to_upper_def Let_def char_of_def bit_0)
  then show "\<exists>url s1. GetPublishUrl env ''u@c.d'' switched_off = (Inr url, s1) \<and> GetPublishUrl env' ''U@C.D'' s1 = (Inr url, s1)"
    using p by blast
qed

end
