(* ===== verification/LicenseXml.thy ===== *)
theory LicenseXml
  imports ServiceDiscovery
begin

text \<open>
  Reading a publishing license (\<open>rms_sdk/RestClients/LicenseParser.cpp\<close>) with the helpers
  \<open>CXMLUtils.cpp\<close> and \<open>rmsutils/RMSXmlParser.h\<close>. A pointer into a text is what follows it.
  libxml2 and iconv are parameters.
\<close>

section \<open>Tags\<close>

definition strnicmp_prefix :: "string \<Rightarrow> string \<Rightarrow> bool" where
  "strnicmp_prefix s prefix \<longleftrightarrow> map to_lower (take (length prefix) s) = map to_lower prefix"

text \<open>The end of the text is a NUL, which is no letter and no digit.\<close>

definition DoesTagMatch :: "string \<Rightarrow> string \<Rightarrow> bool" where
  "DoesTagMatch tag name \<longleftrightarrow> strnicmp_prefix tag name \<and>
     (case drop (length name) tag of [] \<Rightarrow> True | c # _ \<Rightarrow> \<not> isalnum c)"

text \<open>Where the scan is: outside, in a tag, in a quoted value of a tag, or in a comment, which keeps the place it began in.\<close>

record scan =
  sc_inComment :: bool
  sc_inTag :: bool
  sc_quote :: "char option"
  sc_found :: "string option"

definition scan_start :: scan where
  "scan_start = \<lparr>sc_inComment = False, sc_inTag = False, sc_quote = None, sc_found = None\<rparr>"

function find_tag :: "string \<Rightarrow> string \<Rightarrow> scan \<Rightarrow> (string \<times> string) option" where
  "find_tag name [] st = None"
| "find_tag name (c # r) st =
     (if sc_inComment st
      then (if strnicmp_prefix (c # r) ''-->'' then find_tag name (drop 3 (c # r)) (st\<lparr>sc_inComment := False\<rparr>)
            else find_tag name r st)
      else if strnicmp_prefix (c # r) ''<!--'' then find_tag name (drop 4 (c # r)) (st\<lparr>sc_inComment := True\<rparr>)
      else if \<not> sc_inTag st
      then (if c = CHR ''<''
            then find_tag name r (st\<lparr>sc_inTag := True,
                   sc_found := if DoesTagMatch r name then Some (c # r) else sc_found st\<rparr>)
            else find_tag name r st)
      else (case sc_quote st of
              None \<Rightarrow>
                if c = CHR ''>''
                then (case sc_found st of Some s \<Rightarrow> Some (s, r) | None \<Rightarrow> find_tag name r (st\<lparr>sc_inTag := False\<rparr>))
                else if c = CHR 0x22 \<or> c = CHR 0x27 then find_tag name r (st\<lparr>sc_quote := Some c\<rparr>)
                else find_tag name r st
            | Some q \<Rightarrow> find_tag name r (if c = q then st\<lparr>sc_quote := None\<rparr> else st)))"
  by pat_completeness auto
termination by (relation "measure (\<lambda>(name, s, st). length s)") auto

declare find_tag.simps(2) [simp del]

definition FindTag :: "string \<Rightarrow> string \<Rightarrow> (string \<times> string) option" where
  "FindTag xml tagName = find_tag tagName (c_str xml) scan_start"

text \<open>The outer and the inner start, the inner and the outer end.\<close>

definition FindElement :: "string \<Rightarrow> string \<Rightarrow> (string \<times> string \<times> string \<times> string) option" where
  "FindElement xml name =
     (case FindTag xml name of
        None \<Rightarrow> None
      | Some (startOuter, startInner) \<Rightarrow>
          (case FindTag startInner (''/'' @ name) of
             None \<Rightarrow> None
           | Some (endInner, endOuter) \<Rightarrow> Some (startOuter, startInner, endInner, endOuter)))"

text \<open>The text from one pointer to a later one.\<close>

definition between :: "string \<Rightarrow> string \<Rightarrow> string" where
  "between from_p to_p = take (length from_p - length to_p) from_p"

definition ExtractElementFirst :: "string \<Rightarrow> string \<Rightarrow> bool \<Rightarrow> exn + string" where
  "ExtractElementFirst xml name includeTag =
     (case FindElement xml name of
        None \<Rightarrow> Inl (RMSInvalidArgumentException ''Invalid XML argument'')
      | Some (startOuter, startInner, endInner, endOuter) \<Rightarrow>
          Inr (if includeTag then between startOuter endOuter else between startInner endInner))"

definition WrapWithRoot :: "string \<Rightarrow> string" where
  "WrapWithRoot xml =
     ''<Root>'' @ (case FindTag xml ''?xml'' of Some (s, e) \<Rightarrow> e | None \<Rightarrow> c_str xml) @ ''</Root>''"

section \<open>Where the scan ends\<close>

text \<open>Both pointers are in the text, and the second is behind the first.\<close>

definition begun :: "scan \<Rightarrow> string \<Rightarrow> bool" where
  "begun st s \<longleftrightarrow> (\<forall>x. sc_found st = Some x \<longrightarrow> (\<exists>ys. ys \<noteq> [] \<and> x = ys @ s))"

definition found_at :: "scan \<Rightarrow> string \<Rightarrow> string \<Rightarrow> string \<Rightarrow> bool" where
  "found_at st s b e \<longleftrightarrow> (\<exists>ys. ys \<noteq> [] \<and> b = ys @ e) \<and> (\<exists>zs. zs \<noteq> [] \<and> s = zs @ e) \<and>
     (sc_found st = Some b \<or> (\<exists>zs. s = zs @ b))"

lemma find_tag_step:
  assumes "find_tag name (c # r) st = Some (b, e)"
  shows "sc_found st = Some b \<and> e = r \<or>
    (\<exists>n st'. find_tag name (drop (Suc n) (c # r)) st' = Some (b, e) \<and>
       (sc_found st' = sc_found st \<or> sc_found st' = Some (c # r)))"
proof -
  have go: ?thesis
    if "find_tag name (drop n r) st' = Some (b, e)" "sc_found st' = sc_found st \<or> sc_found st' = Some (c # r)" for n st'
    using that by (intro disjI2 exI [of _ n] exI [of _ st']) simp
  note one = go [of 0, unfolded drop_0] and three = go [of 2] and four = go [of 3]
  consider (comment) "sc_inComment st" | (start) "\<not> sc_inComment st" "strnicmp_prefix (c # r) ''<!--''"
    | (outside) "\<not> sc_inComment st" "\<not> strnicmp_prefix (c # r) ''<!--''" "\<not> sc_inTag st"
    | (inside) "\<not> sc_inComment st" "\<not> strnicmp_prefix (c # r) ''<!--''" "sc_inTag st"
    by blast
  then show ?thesis
  proof cases
    case comment
    then show ?thesis using assms one three by (cases "strnicmp_prefix (c # r) ''-->''") (simp_all add: find_tag.simps(2))
  next
    case start
    then show ?thesis using assms four by (simp add: find_tag.simps(2))
  next
    case outside
    then show ?thesis using assms one by (auto simp: find_tag.simps(2) split: if_splits)
  next
    case inside
    then show ?thesis using assms one by (auto simp: find_tag.simps(2) split: if_splits option.splits)
  qed
qed

lemma find_tag_pointers: "find_tag name s st = Some (b, e) \<Longrightarrow> begun st s \<Longrightarrow> found_at st s b e"
proof (induction s arbitrary: st rule: measure_induct_rule [where f = length])
  case (less s)
  then obtain c r where s: "s = c # r" by (cases s) auto
  consider (closed) "sc_found st = Some b" "e = r"
    | (further) n st' where "find_tag name (drop (Suc n) (c # r)) st' = Some (b, e)"
        "sc_found st' = sc_found st \<or> sc_found st' = Some (c # r)"
    using find_tag_step [OF less.prems(1) [unfolded s]] by blast
  then show ?case
  proof cases
    case closed
    moreover obtain ys where "b = ys @ s" using closed less.prems(2) by (auto simp: begun_def)
    ultimately show ?thesis using s
      by (auto simp: found_at_def intro: exI [of _ "ys @ [c]"] exI [of _ "[c]"])
  next
    case further
    note f = further(1) and g = further(2)
    let ?p = "take (Suc n) (c # r)" and ?s = "drop (Suc n) (c # r)"
    have p: "s = ?p @ ?s" "?p \<noteq> []" by (simp_all add: s)
    have "begun st' ?s" using less.prems(2) g p unfolding begun_def by (metis append.assoc append_is_Nil_conv option.inject s)
    then have "found_at st' ?s b e" using f s by (intro less.IH) auto
    then show ?thesis using g p unfolding found_at_def by (metis append.assoc append_Nil append_is_Nil_conv option.inject s)
  qed
qed

text \<open>Each element that is found ends before the text does, so the loop over all elements ends.\<close>

lemma FindTag_pointers:
  "FindTag xml name = Some (b, e) \<Longrightarrow> \<exists>p q. c_str xml = p @ q @ e \<and> b = q @ e \<and> q \<noteq> []"
  using find_tag_pointers [of name "c_str xml" scan_start b e]
  by (auto simp: FindTag_def begun_def found_at_def scan_start_def)

lemma FindElement_shorter:
  assumes "FindElement xml name = Some (so, si, ei, eo)"
  shows "length eo < length xml"
proof -
  have f: "FindTag xml name = Some (so, si)" "FindTag si (''/'' @ name) = Some (ei, eo)"
    using assms by (auto simp: FindElement_def split: option.splits)
  have "length (c_str x) \<le> length x" for x by (simp add: c_str_def length_takeWhile_le)
  moreover have "length si < length (c_str xml)" using FindTag_pointers [OF f(1)] by auto
  moreover have "length eo < length (c_str si)" using FindTag_pointers [OF f(2)] by auto
  ultimately show ?thesis by (meson less_le_trans less_trans)
qed

function ExtractElementAll :: "string \<Rightarrow> string \<Rightarrow> bool \<Rightarrow> string list" where
  "ExtractElementAll xml name includeTag =
     (case FindElement xml name of
        None \<Rightarrow> []
      | Some (startOuter, startInner, endInner, endOuter) \<Rightarrow>
          (if includeTag then between startOuter endOuter else between startInner endInner) #
          ExtractElementAll endOuter name includeTag)"
  by pat_completeness auto
termination by (relation "measure (\<lambda>(xml, name, b). length xml)") (auto dest: FindElement_shorter)

declare ExtractElementAll.simps [simp del]

section \<open>Paths\<close>

text \<open>The pieces of a path and the separators between them; a separator at the start is kept as a piece.\<close>

function xp_split :: "string \<Rightarrow> string list" where
  "xp_split strs =
     (case find_str ''/'' strs 0 of
        Some pos \<Rightarrow> (if pos = 0 then [''/''] else [take pos strs, ''/'']) @ xp_split (drop (pos + 1) strs)
      | None \<Rightarrow> [strs])"
  by pat_completeness auto
termination by (relation "measure length") (auto simp: find_char split: if_splits dest: length_pos_if_in_set)

declare xp_split.simps [simp del]

definition splitString :: "string \<Rightarrow> string list" where
  "splitString str = (if str = [] then [] else xp_split str)"

definition constructXPathPattern :: "string \<Rightarrow> string" where
  "constructXPathPattern xPath =
     concat (map (\<lambda>s. if s = ''text()'' \<or> s = ''/'' then s else ''ns:'' @ s) (splitString xPath))"

text \<open>
  libxml2: parsing a text, the namespace of the root element if there is one, and the content of
  the first node that a path selects.
\<close>

record 'd libxml =
  lx_parse :: "string \<Rightarrow> 'd option"
  lx_root :: "'d \<Rightarrow> string option option"
  lx_select :: "'d \<Rightarrow> string option \<Rightarrow> string \<Rightarrow> string option"

definition SelectSingleNode :: "'d libxml \<Rightarrow> string \<Rightarrow> string \<Rightarrow> string" where
  "SelectSingleNode lx xmlRoot xPath =
     (case lx_parse lx xmlRoot of
        None \<Rightarrow> []
      | Some doc \<Rightarrow>
          (case lx_root lx doc of
             None \<Rightarrow> []
           | Some xmlns \<Rightarrow>
               let pattern = ''/'' @ (if xmlns \<noteq> None then constructXPathPattern xPath else xPath)
               in (case lx_select lx doc xmlns pattern of None \<Rightarrow> [] | Some content \<Rightarrow> content)))"

section \<open>The license\<close>

definition EXTRANET_XPATH :: string where
  "EXTRANET_XPATH = ''/Root/XrML/BODY[@type='' @ [CHR 0x27] @ ''Microsoft Rights Label'' @ [CHR 0x27] @
     '']/DISTRIBUTIONPOINT/OBJECT[@type='' @ [CHR 0x27] @ ''Extranet-License-Acquisition-URL'' @ [CHR 0x27] @
     '']/ADDRESS[@type='' @ [CHR 0x27] @ ''URL'' @ [CHR 0x27] @ '']/text()''"

definition INTRANET_XPATH :: string where
  "INTRANET_XPATH = ''/Root/XrML/BODY[@type='' @ [CHR 0x27] @ ''Microsoft Rights Label'' @ [CHR 0x27] @
     '']/DISTRIBUTIONPOINT/OBJECT[@type='' @ [CHR 0x27] @ ''License-Acquisition-URL'' @ [CHR 0x27] @
     '']/ADDRESS[@type='' @ [CHR 0x27] @ ''URL'' @ [CHR 0x27] @ '']/text()''"

definition SLC_XPATH :: string where
  "SLC_XPATH = ''/Root/XrML/BODY[@type='' @ [CHR 0x27] @ ''Microsoft Rights Label'' @ [CHR 0x27] @
     '']/ISSUEDPRINCIPALS/PRINCIPAL/PUBLICKEY/PARAMETER[@name='' @ [CHR 0x27] @ ''modulus'' @ [CHR 0x27] @
     '']/VALUE/text()''"

definition RemoveTrailingNewLine :: "string \<Rightarrow> string" where
  "RemoveTrailingNewLine str =
     (if str = [] then str
      else if 1 < length str \<and> str ! (length str - 2) = CHR 0x0D \<and> str ! (length str - 1) = CHR 0x0A
      then take (length str - 2) str
      else if str ! (length str - 1) = CHR 0x0A then take (length str - 1) str
      else str)"

definition BOM_UTF8 :: "byte list" where
  "BOM_UTF8 = [0xEF, 0xBB, 0xBF]"

definition invalid_pl :: "string \<Rightarrow> exn" where
  "invalid_pl msg = RMSNetworkException msg InvalidPL"

text \<open>iconv converts from UTF-16LE to UTF-8 or fails.\<close>

definition license_text :: "(byte list \<Rightarrow> byte list option) \<Rightarrow> byte list \<Rightarrow> exn + string" where
  "license_text iconv pl =
     (if length BOM_UTF8 < length pl \<and> take (length BOM_UTF8) pl = BOM_UTF8
      then Inr (bytes_string (drop (length BOM_UTF8) pl))
      else if length pl mod 2 = 0
      then (case iconv pl of None \<Rightarrow> Inl (invalid_pl ''Invalid publishing license encoding'')
            | Some u8 \<Rightarrow> Inr (bytes_string u8))
      else Inl (invalid_pl ''Invalid publishing license encoding''))"

definition license_domains :: "string \<Rightarrow> string \<Rightarrow> exn + Domain list" where
  "license_domains extranetDomain intranetDomain =
     bindE (if extranetDomain \<noteq> [] then bindE (Domain_CreateFromUrl extranetDomain) (\<lambda>d. Inr [d]) else Inr []) (\<lambda>ds.
     bindE (if intranetDomain \<noteq> [] \<and> (extranetDomain = [] \<or> \<not> stricmp_eq intranetDomain extranetDomain)
            then bindE (Domain_CreateFromUrl intranetDomain) (\<lambda>d. Inr [d]) else Inr []) (\<lambda>ds'.
       if ds @ ds' = [] then Inl (invalid_pl ''Invalid domains publishing license'') else Inr (ds @ ds')))"

definition ParsePublishingLicense ::
  "'d libxml \<Rightarrow> (byte list \<Rightarrow> byte list option) \<Rightarrow> byte list \<Rightarrow> exn + LicenseParserResult" where
  "ParsePublishingLicense lx iconv pl =
     bindE (license_text iconv pl) (\<lambda>publishLicense.
       let select = SelectSingleNode lx (WrapWithRoot (c_str publishLicense))
       in bindE (license_domains (RemoveTrailingNewLine (select EXTRANET_XPATH)) (RemoveTrailingNewLine (select INTRANET_XPATH)))
            (\<lambda>domains.
              if IsEvoEnabled
              then (if select SLC_XPATH = [] then Inl (invalid_pl ''Server public certificate'')
                    else Inr \<lparr>lp_Domains = domains,
                           lp_ServerPublicCertificate = Some (RemoveTrailingNewLine (select SLC_XPATH))\<rparr>)
              else Inr \<lparr>lp_Domains = domains, lp_ServerPublicCertificate = None\<rparr>))"

end
