(* ===== verification/LicenseProperties.thy ===== *)
theory LicenseProperties
  imports LicenseXml
begin

text \<open>What the theorems say of reading a license.\<close>

section \<open>The root element\<close>

definition inside_tag :: "string option \<Rightarrow> scan" where
  "inside_tag found = \<lparr>sc_inComment = False, sc_inTag = True, sc_quote = None, sc_found = found\<rparr>"

definition inside_quote :: "char \<Rightarrow> string option \<Rightarrow> scan" where
  "inside_quote q found = \<lparr>sc_inComment = False, sc_inTag = True, sc_quote = Some q, sc_found = found\<rparr>"

text \<open>Letter case: only letters have it.\<close>

lemma lower_fixed: "\<not> isalnum c \<Longrightarrow> to_lower c = c"
  by (auto simp: isalnum_def to_lower_def Let_def)

lemma lower_isalnum: "isalnum (to_lower c) = isalnum c"
proof (cases "(65::nat) \<le> of_char c \<and> of_char c \<le> (90::nat)")
  case True
  then have "of_char (to_lower c) = of_char c + (32::nat)" by (simp add: to_lower_def)
  then show ?thesis using True by (simp add: isalnum_def)
qed (auto simp: to_lower_def Let_def)

lemma alnum_no_sign: "isalnum c \<Longrightarrow> \<not> isalnum d \<Longrightarrow> to_lower c \<noteq> to_lower d \<and> to_lower d \<noteq> to_lower c"
  by (metis lower_isalnum)

lemma lower_sign: "\<not> isalnum d \<Longrightarrow> to_lower c = to_lower d \<Longrightarrow> c = d"
  by (metis lower_isalnum lower_fixed)

lemma no_comment: "c \<noteq> CHR ''<'' \<Longrightarrow> \<not> strnicmp_prefix (c # r) ''<!--''"
  using lower_sign [of "CHR ''<''" c] by (auto simp: strnicmp_prefix_def isalnum_def)

lemma no_comment_after: "r = [] \<or> hd r \<noteq> CHR ''!'' \<Longrightarrow> \<not> strnicmp_prefix (c # r) ''<!--''"
  using lower_sign [of "CHR ''!''" "hd r"] by (cases r) (auto simp: strnicmp_prefix_def isalnum_def)

lemma scan_plain:
  "list_all (\<lambda>c. c \<notin> set [CHR ''<'', CHR ''>'', CHR 0x22, CHR 0x27]) x \<Longrightarrow>
   find_tag name (x @ rest) (inside_tag f) = find_tag name rest (inside_tag f)"
  by (induction x) (simp_all add: find_tag.simps(2) inside_tag_def no_comment)

text \<open>A quoted value has any characters but the quote, only no start of a comment.\<close>

fun quoted_value :: "char \<Rightarrow> string \<Rightarrow> bool" where
  "quoted_value q [] \<longleftrightarrow> True"
| "quoted_value q (c # r) \<longleftrightarrow> c \<noteq> q \<and> c \<noteq> CHR 0x00 \<and> (c = CHR ''<'' \<longrightarrow> r = [] \<or> hd r \<noteq> CHR ''!'') \<and> quoted_value q r"

lemma scan_quoted:
  "quoted_value q v \<Longrightarrow> q \<in> {CHR 0x22, CHR 0x27} \<Longrightarrow>
   find_tag name (v @ q # rest) (inside_quote q f) = find_tag name rest (inside_tag f)"
proof (induction v)
  case Nil
  then show ?case by (auto simp: find_tag.simps(2) inside_tag_def inside_quote_def no_comment)
next
  case (Cons c v)
  have "v @ q # rest = [] \<or> hd (v @ q # rest) \<noteq> CHR ''!''" if "c = CHR ''<''"
    using Cons.prems that by (cases v) auto
  then have "\<not> strnicmp_prefix (c # v @ q # rest) ''<!--''" using no_comment no_comment_after by blast
  then show ?case using Cons by (simp add: find_tag.simps(2) inside_quote_def)
qed

lemma quoted_no_zero: "quoted_value q v \<Longrightarrow> CHR 0x00 \<notin> set v"
  by (induction v) auto

text \<open>The attributes of a tag: names and values, each value in double or in single quotes.\<close>

fun attribute :: "string \<times> char \<times> string \<Rightarrow> string" where
  "attribute (k, q, v) = '' '' @ k @ [CHR ''='', q] @ v @ [q]"

fun plain_attribute :: "string \<times> char \<times> string \<Rightarrow> bool" where
  "plain_attribute (k, q, v) \<longleftrightarrow> q \<in> set [CHR 0x22, CHR 0x27] \<and>
     list_all (\<lambda>c. c \<notin> set [CHR ''<'', CHR ''>'', CHR 0x22, CHR 0x27, CHR 0x00]) k \<and> quoted_value q v"

lemma scan_attribute:
  assumes "plain_attribute a"
  shows "find_tag name (attribute a @ rest) (inside_tag f) = find_tag name rest (inside_tag f)"
proof -
  obtain k q v where a: "a = (k, q, v)" by (cases a)
  have q: "q = CHR 0x22 \<or> q = CHR 0x27" using assms by (simp add: a)
  have "find_tag name (('' '' @ k @ ''='') @ q # v @ q # rest) (inside_tag f) = find_tag name (q # v @ q # rest) (inside_tag f)"
    by (rule scan_plain) (use assms in \<open>auto simp: a list_all_iff\<close>)
  also have "\<dots> = find_tag name (v @ q # rest) (inside_quote q f)"
    using q by (auto simp: find_tag.simps(2) inside_tag_def inside_quote_def no_comment)
  also have "\<dots> = find_tag name rest (inside_tag f)"
    by (rule scan_quoted) (use assms q in \<open>auto simp: a\<close>)
  finally show ?thesis by (simp add: a)
qed

lemma scan_attributes:
  "list_all plain_attribute as \<Longrightarrow>
   find_tag name (concat (map attribute as) @ rest) (inside_tag f) = find_tag name rest (inside_tag f)"
  by (induction as) (simp_all add: scan_attribute)

lemma attribute_no_zero: "plain_attribute a \<Longrightarrow> CHR 0x00 \<notin> set (attribute a)"
proof -
  assume p: "plain_attribute a"
  obtain k q v where a: "a = (k, q, v)" by (cases a)
  have "CHR 0x00 \<notin> set k" using p unfolding a plain_attribute.simps list_all_iff by fastforce
  moreover have "CHR 0x00 \<notin> set v" using p quoted_no_zero [of q v] unfolding a plain_attribute.simps by blast
  moreover have "q \<noteq> CHR 0x00" using p by (auto simp: a)
  ultimately show ?thesis by (simp add: a)
qed

lemma attributes_no_zero: "list_all plain_attribute as \<Longrightarrow> CHR 0x00 \<notin> set (concat (map attribute as))"
  by (induction as) (simp_all add: attribute_no_zero)

text \<open>What follows the name of a tag.\<close>

lemma after_name: "\<exists>x r. concat (map attribute as) @ c # rest = x # r \<and> (x = CHR '' '' \<or> x = c)"
  by (cases as) (auto simp: split_paired_all)

definition xml_declaration :: "(string \<times> char \<times> string) list \<Rightarrow> string" where
  "xml_declaration as = ''<?xml'' @ concat (map attribute as) @ ''?>''"

lemma declaration_found:
  assumes "list_all plain_attribute as"
  shows "find_tag ''?xml'' (xml_declaration as @ body) scan_start = Some (xml_declaration as @ body, body)"
proof -
  let ?r = "concat (map attribute as) @ ''?>'' @ body" and ?x = "xml_declaration as @ body"
  have x: "?x = CHR ''<'' # ''?xml'' @ ?r" by (simp add: xml_declaration_def)
  have "case ?r of [] \<Rightarrow> True | c # _ \<Rightarrow> \<not> isalnum c"
    using after_name [of as "CHR ''?''" "''>'' @ body"] by (auto simp: isalnum_def)
  then have t: "DoesTagMatch (''?xml'' @ ?r) ''?xml''" by (simp add: DoesTagMatch_def strnicmp_prefix_def)
  have c: "\<not> strnicmp_prefix (CHR ''<'' # ''?xml'' @ ?r) ''<!--''"
    by (simp add: strnicmp_prefix_def) (simp add: to_lower_def)
  have "find_tag ''?xml'' ?x scan_start = find_tag ''?xml'' (''?xml'' @ ?r) (inside_tag (Some ?x))"
    using t c by (simp only: x) (simp add: find_tag.simps(2) scan_start_def inside_tag_def)
  also have "\<dots> = find_tag ''?xml'' ?r (inside_tag (Some ?x))"
    by (rule scan_plain) simp
  also have "\<dots> = find_tag ''?xml'' (''?>'' @ body) (inside_tag (Some ?x))"
    by (rule scan_attributes [OF assms])
  also have "\<dots> = Some (?x, body)"
    by (simp add: find_tag.simps(2) inside_tag_def no_comment)
  finally show ?thesis .
qed

text \<open>
  Whatever attributes the declaration of a document has, even with an angle bracket in their
  values, the root element is put around exactly what follows it.
\<close>

theorem declaration_skipped:
  assumes "list_all plain_attribute as" and "CHR 0x00 \<notin> set body"
  shows "WrapWithRoot (xml_declaration as @ body) = ''<Root>'' @ body @ ''</Root>''"
proof -
  have "CHR 0x00 \<notin> set (xml_declaration as @ body)"
    using assms(2) attributes_no_zero [OF assms(1)] by (simp add: xml_declaration_def)
  then have "c_str (xml_declaration as @ body) = xml_declaration as @ body"
    by (rule c_str_id)
  then show ?thesis by (simp add: WrapWithRoot_def FindTag_def declaration_found [OF assms(1)])
qed

theorem declaration_skipped_witness:
  "WrapWithRoot (xml_declaration [(''version'', CHR 0x22, ''1.0>'')] @ ''<XrML/>'') = ''<Root><XrML/></Root>''"
proof -
  have "list_all plain_attribute [(''version'', CHR 0x22, ''1.0>'')]" by simp
  from declaration_skipped [OF this, of "''<XrML/>''"] show ?thesis by simp
qed

section \<open>The license\<close>

lemma license_text_error: "license_text iconv pl = Inl e \<Longrightarrow> \<exists>msg. e = invalid_pl msg"
  by (auto simp: license_text_def split: if_splits option.splits)

lemma url_domains:
  "bindE (if b then bindE (Domain_CreateFromUrl u) (\<lambda>d. Inr [d]) else Inr []) f = f (if b then [projr (Domain_CreateFromUrl u)] else [])"
  by (simp add: Domain_CreateFromUrl_def IUri_Create_def)

lemma license_domains_alt:
  "license_domains e i =
     (let ds = (if e \<noteq> [] then [projr (Domain_CreateFromUrl e)] else []) @
               (if i \<noteq> [] \<and> (e = [] \<or> \<not> stricmp_eq i e) then [projr (Domain_CreateFromUrl i)] else [])
      in if ds = [] then Inl (invalid_pl ''Invalid domains publishing license'') else Inr ds)"
  unfolding license_domains_def url_domains Let_def ..

lemma license_domains_result:
  "license_domains e i = Inl x \<Longrightarrow> \<exists>msg. x = invalid_pl msg"
  "license_domains e i = Inr ds \<Longrightarrow> ds \<noteq> [] \<and> length ds \<le> 2"
  unfolding license_domains_alt Let_def by (simp_all split: if_splits) auto

text \<open>
  A license that is read has one domain or two, each from an address, and a certificate; a
  license that is refused is refused as an invalid publishing license.
\<close>

theorem license_result:
  "case ParsePublishingLicense lx iconv pl of
     Inl e \<Rightarrow> \<exists>msg. e = invalid_pl msg
   | Inr r \<Rightarrow> (lp_Domains r \<noteq> [] \<and> length (lp_Domains r) \<le> 2 \<and> lp_ServerPublicCertificate r \<noteq> None)"
proof (cases "ParsePublishingLicense lx iconv pl")
  case (Inl e)
  then have "\<exists>msg. e = invalid_pl msg"
    unfolding ParsePublishingLicense_def Let_def bindE_eq_Inl
    by (auto simp: IsEvoEnabled_def dest: license_text_error license_domains_result(1) split: if_splits)
  then show ?thesis using Inl by simp
next
  case (Inr r)
  then show ?thesis
    unfolding ParsePublishingLicense_def Let_def bindE_eq_Inr
    by (auto simp: IsEvoEnabled_def dest: license_domains_result(2) split: if_splits)
qed

lemma length_BOM: "length BOM_UTF8 = 3"
  by (simp add: BOM_UTF8_def)

lemma license_text_utf8: "u8 \<noteq> [] \<Longrightarrow> license_text iconv (BOM_UTF8 @ u8) = Inr (bytes_string u8)"
  by (simp add: license_text_def)

lemma license_text_no_BOM:
  "take 3 pl \<noteq> BOM_UTF8 \<Longrightarrow> license_text iconv pl =
     (case if even (length pl) then iconv pl else None of
        None \<Rightarrow> Inl (invalid_pl ''Invalid publishing license encoding'') | Some u8 \<Rightarrow> Inr (bytes_string u8))"
  by (simp add: license_text_def length_BOM even_iff_mod_2_eq_zero)

text \<open>
  Where iconv turns the UTF-16 form of a text into its UTF-8 form, a license says the same
  whether it was stored in the one form or, with its byte order mark, in the other.
\<close>

theorem encoding_irrelevant:
  assumes "u8 \<noteq> []" and "even (length u16)" and "take 3 u16 \<noteq> BOM_UTF8" and "iconv u16 = Some u8"
  shows "ParsePublishingLicense lx iconv (BOM_UTF8 @ u8) = ParsePublishingLicense lx iconv u16"
  using assms by (simp add: ParsePublishingLicense_def license_text_utf8 license_text_no_BOM)

theorem encoding_irrelevant_witness:
  "ParsePublishingLicense \<lparr>lx_parse = Some, lx_root = (\<lambda>d. Some None), lx_select = (\<lambda>d ns p. Some ''https://x'')\<rparr>
     (\<lambda>b. Some [0x3C]) (BOM_UTF8 @ [0x3C]) =
   ParsePublishingLicense \<lparr>lx_parse = Some, lx_root = (\<lambda>d. Some None), lx_select = (\<lambda>d ns p. Some ''https://x'')\<rparr>
     (\<lambda>b. Some [0x3C]) [0x3C, 0]"
  by (rule encoding_irrelevant) (simp_all add: BOM_UTF8_def)

text \<open>
  Without its byte order mark a license in UTF-8 with an odd number of bytes is refused,
  whatever it says.
\<close>

theorem odd_license_refused:
  assumes "odd (length pl)" and "take 3 pl \<noteq> BOM_UTF8"
  shows "ParsePublishingLicense lx iconv pl = Inl (invalid_pl ''Invalid publishing license encoding'')"
  using assms by (simp add: ParsePublishingLicense_def license_text_no_BOM bindE_def)

theorem odd_license_refused_witness:
  "ParsePublishingLicense \<lparr>lx_parse = Some, lx_root = (\<lambda>d. Some None), lx_select = (\<lambda>d ns p. Some ''https://x'')\<rparr>
     (\<lambda>b. Some b) [0x3C] = Inl (invalid_pl ''Invalid publishing license encoding'')"
  by (rule odd_license_refused) (simp_all add: BOM_UTF8_def)

end
