(* ===== verification/LicenseMarkup.thy ===== *)
theory LicenseMarkup
  imports LicenseProperties
begin

text \<open>
  \<open>FindTag\<close> and \<open>ExtractElementAll\<close> (\<open>rms_sdk/RestClients/CXMLUtils.cpp\<close>) against the markup of a
  document: a scan of characters finds the tags that are there, not what looks like one in a
  comment, in a quoted value or at the start of a longer name.
\<close>

section \<open>Markup\<close>

text \<open>A piece of a document: characters, a comment, or a tag with its attributes.\<close>

datatype tag_kind = Opening | Closing | EmptyElement | Declaration

datatype markup =
    Characters string
  | Comment string
  | Tag tag_kind string "(string \<times> char \<times> string) list"

fun tag_prefix :: "tag_kind \<Rightarrow> string" where
  "tag_prefix Closing = ''/''"
| "tag_prefix Declaration = ''?''"
| "tag_prefix _ = []"

fun tag_suffix :: "tag_kind \<Rightarrow> string" where
  "tag_suffix EmptyElement = ''/''"
| "tag_suffix Declaration = ''?''"
| "tag_suffix _ = []"

fun markup_text :: "markup \<Rightarrow> string" where
  "markup_text (Characters s) = s"
| "markup_text (Comment s) = ''<!--'' @ s @ ''-->''"
| "markup_text (Tag k t as) = ''<'' @ tag_prefix k @ t @ concat (map attribute as) @ tag_suffix k @ ''>''"

definition document :: "markup list \<Rightarrow> string" where
  "document ms = concat (map markup_text ms)"

text \<open>A comment has no two hyphens in a row and no hyphen at its end.\<close>

fun comment_text :: "string \<Rightarrow> bool" where
  "comment_text [] \<longleftrightarrow> True"
| "comment_text (c # r) \<longleftrightarrow> (c = CHR ''-'' \<longrightarrow> r \<noteq> [] \<and> hd r \<noteq> CHR ''-'') \<and> comment_text r"

definition tag_name :: "string \<Rightarrow> bool" where
  "tag_name t \<longleftrightarrow> t \<noteq> [] \<and> list_all isalnum t"

fun well_formed :: "markup \<Rightarrow> bool" where
  "well_formed (Characters s) \<longleftrightarrow> CHR ''<'' \<notin> set s \<and> CHR 0x00 \<notin> set s"
| "well_formed (Comment s) \<longleftrightarrow> comment_text s \<and> CHR 0x00 \<notin> set s"
| "well_formed (Tag k t as) \<longleftrightarrow> tag_name t \<and> list_all plain_attribute as"

text \<open>The elements of a name: from a tag that opens one up to the first tag that closes one.\<close>

definition same_name :: "string \<Rightarrow> string \<Rightarrow> bool" where
  "same_name a b \<longleftrightarrow> map to_lower a = map to_lower b"

fun opens :: "string \<Rightarrow> markup \<Rightarrow> bool" where
  "opens name (Tag Opening t as) \<longleftrightarrow> same_name t name"
| "opens name (Tag EmptyElement t as) \<longleftrightarrow> same_name t name"
| "opens name _ \<longleftrightarrow> False"

fun closes :: "string \<Rightarrow> markup \<Rightarrow> bool" where
  "closes name (Tag Closing t as) \<longleftrightarrow> same_name t name"
| "closes name _ \<longleftrightarrow> False"

lemma dropWhile_Cons_length: "dropWhile P xs = y # ys \<Longrightarrow> length ys < length xs"
  by (metis length_dropWhile_le length_Cons Suc_le_lessD)

function elements :: "string \<Rightarrow> markup list \<Rightarrow> (markup \<times> markup list \<times> markup) list" where
  "elements name ms =
     (case dropWhile (\<lambda>m. \<not> opens name m) ms of
        [] \<Rightarrow> []
      | start # r \<Rightarrow>
          (case dropWhile (\<lambda>m. \<not> closes name m) r of
             [] \<Rightarrow> []
           | close # r' \<Rightarrow> (start, takeWhile (\<lambda>m. \<not> closes name m) r, close) # elements name r'))"
  by pat_completeness auto
termination by (relation "measure (\<lambda>(name, ms). length ms)") (auto dest!: dropWhile_Cons_length)

declare elements.simps [simp del]

section \<open>A tag and a name\<close>

definition hits :: "string \<Rightarrow> markup \<Rightarrow> bool" where
  "hits n m \<longleftrightarrow> (case m of Tag k t as \<Rightarrow> same_name (tag_prefix k @ t) n | _ \<Rightarrow> False)"

lemma alnum_nth: "list_all isalnum (tl s) \<Longrightarrow> i < length s \<Longrightarrow> 0 < i \<Longrightarrow> isalnum (s ! i)"
  by (cases s; cases i) (simp_all add: list_all_length)

text \<open>The name in the tag is the name, and not a longer one: what follows it is no letter and no digit.\<close>

lemma DoesTagMatch_name:
  assumes "w \<noteq> []" and "n \<noteq> []" and "list_all isalnum (tl w)" and "list_all isalnum (tl n)" and "\<not> isalnum x"
  shows "DoesTagMatch (w @ x # r) n \<longleftrightarrow> same_name w n"
proof
  assume "same_name w n"
  then have "length w = length n" and "map to_lower w = map to_lower n"
    by (auto simp: same_name_def dest: map_eq_imp_length_eq)
  then show "DoesTagMatch (w @ x # r) n"
    using assms(5) by (simp add: DoesTagMatch_def strnicmp_prefix_def)
next
  assume "DoesTagMatch (w @ x # r) n"
  then have e: "map to_lower (take (length n) (w @ x # r)) = map to_lower n"
    and a: "case drop (length n) (w @ x # r) of [] \<Rightarrow> True | c # _ \<Rightarrow> \<not> isalnum c"
    by (simp_all add: DoesTagMatch_def strnicmp_prefix_def)
  consider "length n < length w" | "length w < length n" | "length w = length n" by linarith
  then show "same_name w n"
  proof cases
    case 1
    then have "isalnum (w ! length n)" using alnum_nth [OF assms(3), of "length n"] assms(2) by simp
    then show ?thesis using a 1 by (simp add: Cons_nth_drop_Suc [symmetric])
  next
    case 2
    then obtain i where i: "length n = length w + Suc i" by (auto simp: less_iff_Suc_add)
    have "map to_lower w @ to_lower x # map to_lower (take i r) = map to_lower n" using e unfolding i by simp
    then have "(map to_lower w @ to_lower x # map to_lower (take i r)) ! length w = map to_lower n ! length w"
      by (rule arg_cong)
    then have "to_lower x = to_lower (n ! length w)" using i by (simp add: nth_append)
    moreover have "isalnum (n ! length w)" using alnum_nth [OF assms(4) 2] assms(1) by simp
    ultimately have "isalnum x" by (metis lower_isalnum)
    then show ?thesis using assms(5) by simp
  next
    case 3
    then show ?thesis using e by (simp add: same_name_def)
  qed
qed

section \<open>The scan of a document\<close>

definition in_comment :: scan where
  "in_comment = \<lparr>sc_inComment = True, sc_inTag = False, sc_quote = None, sc_found = None\<rparr>"

lemma scan_characters:
  "CHR ''<'' \<notin> set s \<Longrightarrow> find_tag n (s @ rest) scan_start = find_tag n rest scan_start"
proof (induction s)
  case (Cons c s)
  then have "c \<noteq> CHR ''<''" by auto
  then show ?case using Cons no_comment [of c "s @ rest"] by (simp add: find_tag.simps(2) scan_start_def)
qed simp

lemma no_comment_end:
  "comment_text (c # r) \<Longrightarrow> \<not> strnicmp_prefix ((c # r) @ rest) ''-->''"
proof
  assume c: "comment_text (c # r)" and "strnicmp_prefix ((c # r) @ rest) ''-->''"
  then have e: "map to_lower (take (Suc (Suc (Suc 0))) (c # r @ rest)) = map to_lower ''-->''"
    by (simp add: strnicmp_prefix_def numeral_3_eq_3)
  have h: "\<not> isalnum (CHR ''-'')" by (simp add: isalnum_def)
  have "c = CHR ''-''" using e lower_sign [OF h] by simp
  then obtain d t where "r = d # t" "d \<noteq> CHR ''-''" using c by (cases r) auto
  then show False using e lower_sign [OF h] by simp
qed

lemma scan_in_comment:
  "comment_text s \<Longrightarrow> find_tag n (s @ ''-->'' @ rest) in_comment = find_tag n rest scan_start"
proof (induction s)
  case Nil
  have "strnicmp_prefix (''-->'' @ rest) ''-->''" by (simp add: strnicmp_prefix_def)
  then show ?case by (simp add: find_tag.simps(2) in_comment_def scan_start_def)
next
  case (Cons c s)
  have "\<not> strnicmp_prefix (c # s @ ''-->'' @ rest) ''-->''" using no_comment_end [OF Cons.prems] by simp
  then show ?case using Cons by (simp add: find_tag.simps(2) in_comment_def)
qed

lemma scan_comment:
  assumes "comment_text s"
  shows "find_tag n (markup_text (Comment s) @ rest) scan_start = find_tag n rest scan_start"
proof -
  have "strnicmp_prefix (''<!--'' @ s @ ''-->'' @ rest) ''<!--''" by (simp add: strnicmp_prefix_def)
  then have "find_tag n (''<!--'' @ s @ ''-->'' @ rest) scan_start = find_tag n (s @ ''-->'' @ rest) in_comment"
    by (simp add: find_tag.simps(2) scan_start_def in_comment_def)
  then show ?thesis using scan_in_comment [OF assms] by simp
qed

lemma no_comment_start:
  assumes "t \<noteq> []" and "list_all isalnum t"
  shows "\<not> strnicmp_prefix (CHR ''<'' # (tag_prefix k @ t) @ s) ''<!--''"
proof
  assume "strnicmp_prefix (CHR ''<'' # (tag_prefix k @ t) @ s) ''<!--''"
  moreover obtain h w where h: "tag_prefix k @ t = h # w" "isalnum h \<or> h = CHR ''/'' \<or> h = CHR ''?''"
    using assms by (cases k; cases t) auto
  ultimately have "to_lower h = to_lower (CHR ''!'')" by (simp add: strnicmp_prefix_def)
  then have "isalnum h = isalnum (CHR ''!'')" "to_lower h = CHR ''!''"
    using lower_isalnum [of h] lower_isalnum [of "CHR ''!''"] by (simp_all add: to_lower_def [of "CHR ''!''"])
  then show False using h(2) by (auto simp: isalnum_def [of "CHR ''!''"] to_lower_def)
qed

lemma alnum_plain: "isalnum c \<Longrightarrow> c \<notin> set [CHR ''<'', CHR ''>'', CHR 0x22, CHR 0x27, CHR 0x00]"
  by (auto simp: isalnum_def)

lemma scan_tag:
  assumes "well_formed (Tag k t as)" and "tag_name name" and n: "n = p @ name" "p = [] \<or> p = ''/''"
  shows "find_tag n (markup_text (Tag k t as) @ rest) scan_start =
    (if hits n (Tag k t as) then Some (markup_text (Tag k t as) @ rest, rest) else find_tag n rest scan_start)"
proof -
  define w where "w = tag_prefix k @ t"
  define s where "s = concat (map attribute as) @ tag_suffix k @ CHR ''>'' # rest"
  have x: "markup_text (Tag k t as) @ rest = CHR ''<'' # w @ s" by (simp add: w_def s_def)
  have t: "t \<noteq> []" "list_all isalnum t" and nm: "name \<noteq> []" "list_all isalnum name" and as: "list_all plain_attribute as"
    using assms(1,2) by (simp_all add: tag_name_def)
  have tl: "list_all isalnum (tl u)" if "list_all isalnum u" for u using that by (cases u) simp_all
  have w: "w \<noteq> []" "list_all isalnum (tl w)" using t tl by (cases k; simp add: w_def)+
  have n': "n \<noteq> []" "list_all isalnum (tl n)" using n nm tl by auto
  obtain c r where s: "s = c # r" "\<not> isalnum c"
    using after_name [of as "hd (tag_suffix k @ ''>'')" "tl (tag_suffix k @ CHR ''>'' # rest)"]
    by (cases k) (auto simp: s_def isalnum_def)
  have match: "DoesTagMatch (w @ s) n \<longleftrightarrow> hits n (Tag k t as)"
    unfolding s(1) by (subst DoesTagMatch_name [OF w(1) n'(1) w(2) n'(2) s(2)]) (simp add: hits_def w_def)
  define f where "f = (if hits n (Tag k t as) then Some (CHR ''<'' # w @ s) else None)"
  have "\<not> strnicmp_prefix (CHR ''<'' # w @ s) ''<!--''" unfolding w_def by (rule no_comment_start [OF t])
  then have "find_tag n (CHR ''<'' # w @ s) scan_start = find_tag n (w @ s) (inside_tag f)"
    using match by (simp add: find_tag.simps(2) scan_start_def inside_tag_def f_def)
  also have "\<dots> = find_tag n s (inside_tag f)"
    unfolding w_def by (rule scan_plain) (use alnum_plain t(2) in \<open>cases k; auto simp: list_all_iff\<close>)
  also have "\<dots> = find_tag n (tag_suffix k @ CHR ''>'' # rest) (inside_tag f)"
    unfolding s_def by (rule scan_attributes [OF as])
  also have "\<dots> = find_tag n (CHR ''>'' # rest) (inside_tag f)"
    by (rule scan_plain) (cases k; simp)
  also have "\<dots> = (if hits n (Tag k t as) then Some (CHR ''<'' # w @ s, rest) else find_tag n rest scan_start)"
    by (simp add: find_tag.simps(2) inside_tag_def f_def no_comment scan_start_def)
  finally show ?thesis unfolding x .
qed

lemma scan_markup:
  assumes "well_formed m" and "tag_name name" and "n = p @ name" "p = [] \<or> p = ''/''"
  shows "find_tag n (markup_text m @ rest) scan_start =
    (if hits n m then Some (markup_text m @ rest, rest) else find_tag n rest scan_start)"
  using assms scan_characters scan_comment scan_tag [OF _ assms(2-4)] by (cases m) (simp_all add: hits_def)

lemma scan_document:
  assumes "list_all well_formed ms" and "tag_name name" and "n = p @ name" "p = [] \<or> p = ''/''"
  shows "find_tag n (document ms) scan_start =
    (case dropWhile (\<lambda>m. \<not> hits n m) ms of [] \<Rightarrow> None | m # r \<Rightarrow> Some (document (m # r), document r))"
  using assms(1)
  by (induction ms) (simp_all add: document_def scan_markup [OF _ assms(2-4)])

lemma document_no_zero: "list_all well_formed ms \<Longrightarrow> CHR 0x00 \<notin> set (document ms)"
proof -
  have "CHR 0x00 \<notin> set (markup_text m)" if "well_formed m" for m
  proof (cases m)
    case (Tag k t as)
    then show ?thesis
      using that attributes_no_zero [of as] alnum_plain by (cases k) (auto simp: tag_name_def list_all_iff)
  qed (use that in simp_all)
  then show "list_all well_formed ms \<Longrightarrow> CHR 0x00 \<notin> set (document ms)"
    by (auto simp: document_def list_all_iff)
qed

section \<open>Elements\<close>

lemma signs: "\<not> isalnum (CHR ''/'')" "\<not> isalnum (CHR ''?'')" "to_lower (CHR ''/'') \<noteq> to_lower (CHR ''?'')"
  "to_lower (CHR ''?'') \<noteq> to_lower (CHR ''/'')"
  by (simp_all add: isalnum_def to_lower_def)

lemma hits_opens:
  assumes "tag_name name" and "well_formed m"
  shows "hits name m \<longleftrightarrow> opens name m"
proof (cases m)
  case (Tag k t as)
  moreover obtain c r where "name = c # r" "isalnum c" using assms(1) by (cases name) (auto simp: tag_name_def)
  ultimately show ?thesis using signs alnum_no_sign by (cases k) (simp_all add: hits_def same_name_def)
qed (simp_all add: hits_def)

lemma hits_closes:
  assumes "tag_name name" and "well_formed m"
  shows "hits (CHR ''/'' # name) m \<longleftrightarrow> closes name m"
proof (cases m)
  case (Tag k t as)
  moreover obtain c r where "t = c # r" "isalnum c" using Tag assms(2) by (cases t) (auto simp: tag_name_def)
  ultimately show ?thesis using signs alnum_no_sign by (cases k) (simp_all add: hits_def same_name_def)
qed (simp_all add: hits_def)

text \<open>A tag is found at the first piece of markup that opens, or closes, an element of the name.\<close>

lemma FindTag_document:
  assumes "list_all well_formed ms" and "tag_name name"
  shows "FindTag (document ms) name =
      (case dropWhile (\<lambda>m. \<not> opens name m) ms of [] \<Rightarrow> None | m # r \<Rightarrow> Some (document (m # r), document r))"
    and "FindTag (document ms) (CHR ''/'' # name) =
      (case dropWhile (\<lambda>m. \<not> closes name m) ms of [] \<Rightarrow> None | m # r \<Rightarrow> Some (document (m # r), document r))"
proof -
  have "dropWhile (\<lambda>m. \<not> hits name m) ms = dropWhile (\<lambda>m. \<not> opens name m) ms"
    "dropWhile (\<lambda>m. \<not> hits (CHR ''/'' # name) m) ms = dropWhile (\<lambda>m. \<not> closes name m) ms"
    using assms by (auto intro!: dropWhile_cong simp: hits_opens hits_closes list_all_iff)
  then show "FindTag (document ms) name =
      (case dropWhile (\<lambda>m. \<not> opens name m) ms of [] \<Rightarrow> None | m # r \<Rightarrow> Some (document (m # r), document r))"
    "FindTag (document ms) (CHR ''/'' # name) =
      (case dropWhile (\<lambda>m. \<not> closes name m) ms of [] \<Rightarrow> None | m # r \<Rightarrow> Some (document (m # r), document r))"
    using scan_document [OF assms, of name "[]"] scan_document [OF assms, of "CHR ''/'' # name" "''/''"]
    by (simp_all add: FindTag_def c_str_id document_no_zero [OF assms(1)])
qed

lemma between_document: "between (document (ms @ r)) (document r) = document ms"
  by (simp add: between_def document_def)

text \<open>
  C21: from a document the elements of a name are extracted, all of them and in their order, with
  or without their tags: each begins at the first tag of this name after the one before, letter
  case aside, and goes on to the first closing tag of this name; without one, it and what follows is
  left out. What looks like such a tag in a
  comment or in a quoted value, and the tags of longer names, do not count. The names of
  tags are made of letters and digits. (An empty element counts as an opening tag, and of nested
  elements of one name the inner closing tag ends the outer one.)
\<close>

theorem elements_extracted:
  assumes "list_all well_formed ms" and "tag_name name"
  shows "ExtractElementAll (document ms) name includeTag =
    map (\<lambda>(start, inner, close). document (if includeTag then start # inner @ [close] else inner)) (elements name ms)"
  using assms(1)
proof (induction ms rule: measure_induct_rule [where f = length])
  case (less ms)
  note found = FindTag_document [OF _ assms(2)]
  show ?case
  proof (cases "dropWhile (\<lambda>m. \<not> opens name m) ms")
    case Nil
    then show ?thesis
      by (simp add: ExtractElementAll.simps [of "document ms"] FindElement_def found [OF less.prems] elements.simps [of name ms]
          del: dropWhile_eq_Nil_conv)
  next
    case (Cons start r)
    have "set (start # r) \<subseteq> set ms" using Cons by (metis set_dropWhileD subsetI)
    then have r: "list_all well_formed r" "length r < length ms"
      using less.prems dropWhile_Cons_length [OF Cons] by (auto simp: list_all_iff)
    show ?thesis
    proof (cases "dropWhile (\<lambda>m. \<not> closes name m) r")
      case Nil
      then show ?thesis
        by (simp add: ExtractElementAll.simps [of "document ms"] FindElement_def found [OF less.prems] found [OF r(1)]
            elements.simps [of name ms] Cons del: dropWhile_eq_Nil_conv)
    next
      case c: (Cons close r')
      let ?inner = "takeWhile (\<lambda>m. \<not> closes name m) r"
      have split: "r = ?inner @ close # r'" using c by (metis takeWhile_dropWhile_id)
      have "list_all well_formed (?inner @ close # r')" using r(1) split by simp
      then have r': "list_all well_formed r'" "length r' < length ms"
        using r(2) dropWhile_Cons_length [OF c] by simp_all
      have "between (document (start # r)) (document r') = document (start # ?inner @ [close])"
        using between_document [of "start # ?inner @ [close]" r'] split by simp
      moreover have "between (document r) (document (close # r')) = document ?inner"
        using between_document [of ?inner "close # r'"] split by simp
      ultimately show ?thesis
        using less.IH [OF r'(2,1)]
        by (simp add: ExtractElementAll.simps [of "document ms"] FindElement_def found [OF less.prems] found [OF r(1)]
            elements.simps [of name ms] Cons c)
    qed
  qed
qed

definition sample_document :: "markup list" where
  "sample_document =
     [Comment '' <a>no</a> '', Tag Opening ''ab'' [(''x'', CHR 0x27, ''<a>'')], Characters ''no'', Tag Closing ''ab'' [],
      Tag Opening ''A'' [(''x'', CHR 0x22, ''></a>'')], Characters ''1'', Tag Closing ''a'' [], Characters '' '',
      Tag Opening ''a'' [], Comment ''</a>'', Tag Closing ''a'' []]"

theorem elements_extracted_witness:
  "ExtractElementAll (document sample_document) ''a'' False = [''1'', ''<!--</a>-->''] \<and>
   document sample_document = ''<!-- <a>no</a> --><ab x='' @ [CHR 0x27] @ ''<a>'' @ [CHR 0x27] @ ''>no</ab><A x='' @ [CHR 0x22] @
     ''></a>'' @ [CHR 0x22] @ ''>1</a> <a><!--</a>--></a>''"
proof -
  have "ExtractElementAll (document sample_document) ''a'' False =
      map (\<lambda>(start, inner, close). document (if False then start # inner @ [close] else inner)) (elements ''a'' sample_document)"
    by (rule elements_extracted) code_simp+
  moreover have "map (\<lambda>(start, inner, close). document (if False then start # inner @ [close] else inner)) (elements ''a'' sample_document) =
      [''1'', ''<!--</a>-->'']"
    by code_simp
  moreover have "document sample_document = ''<!-- <a>no</a> --><ab x='' @ [CHR 0x27] @ ''<a>'' @ [CHR 0x27] @ ''>no</ab><A x='' @ [CHR 0x22] @
     ''></a>'' @ [CHR 0x22] @ ''>1</a> <a><!--</a>--></a>''"
    by code_simp
  ultimately show ?thesis by simp
qed

end
