(* ===== verification/Hashes.thy ===== *)
theory Hashes
  imports Exceptions
begin

text \<open>
  Hashes of the crypto engine (\<open>Platform/Crypto/CryptoHash.cpp\<close>, \<open>CreateHash\<close> of
  \<open>CryptoEngine.cpp\<close>). The digests of OpenSSL are a parameter: \<open>'a\<close> is a digest, \<open>'c\<close> a context.
\<close>

datatype CryptoHashAlgorithm =
  CRYPTO_HASH_ALGORITHM_SHA1
| CRYPTO_HASH_ALGORITHM_SHA256
| CRYPTO_HASH_ALGORITHM_other int  \<comment> \<open>a value of the enumeration without a name\<close>

record ('a, 'c) digest_lib =
  EVP_sha1 :: 'a
  EVP_sha256 :: 'a
  EVP_MD_size :: "'a \<Rightarrow> nat"
  EVP_MD_CTX_new :: "'c option"
  EVP_DigestInit_ex :: "'a \<Rightarrow> 'c \<Rightarrow> 'c"
  EVP_DigestUpdate :: "byte list \<Rightarrow> 'c \<Rightarrow> bool \<times> 'c"
  EVP_DigestFinal_ex :: "'c \<Rightarrow> byte list option \<times> 'c"  \<comment> \<open>what is written to the output\<close>

record ('a, 'c) CryptoHash =
  ch_hashAlgorithm :: 'a
  ch_ctx :: 'c

definition MapHashAlgorithm :: "('a, 'c) digest_lib \<Rightarrow> CryptoHashAlgorithm \<Rightarrow> exn + 'a" where
  "MapHashAlgorithm lib algorithm =
     (case algorithm of
        CRYPTO_HASH_ALGORITHM_SHA1 \<Rightarrow> Inr (EVP_sha1 lib)
      | CRYPTO_HASH_ALGORITHM_SHA256 \<Rightarrow> Inr (EVP_sha256 lib)
      | CRYPTO_HASH_ALGORITHM_other i \<Rightarrow> Inl (RMSCryptoInvalidArgumentException ''Invalid algorithm''))"

definition CryptoHash_create :: "('a, 'c) digest_lib \<Rightarrow> 'a \<Rightarrow> exn + ('a, 'c) CryptoHash" where
  "CryptoHash_create lib hashAlgorithm =
     (case EVP_MD_CTX_new lib of
        None \<Rightarrow> Inl (StdRuntimeError ''Failed to create EVP_MD_CTX'')
      | Some ctx \<Rightarrow> Inr \<lparr>ch_hashAlgorithm = hashAlgorithm, ch_ctx = EVP_DigestInit_ex lib hashAlgorithm ctx\<rparr>)"

definition CreateHash :: "('a, 'c) digest_lib \<Rightarrow> CryptoHashAlgorithm \<Rightarrow> exn + ('a, 'c) CryptoHash" where
  "CreateHash lib algorithm = bindE (MapHashAlgorithm lib algorithm) (CryptoHash_create lib)"

definition GetOutputSize :: "('a, 'c) digest_lib \<Rightarrow> ('a, 'c) CryptoHash \<Rightarrow> nat" where
  "GetOutputSize lib h = EVP_MD_size lib (ch_hashAlgorithm h)"

text \<open>
  \<open>Hash\<close> gives what is written to the output and the new value of \<open>cbOut\<close>. The old value of
  \<open>cbOut\<close>, the room there is, is not looked at. The context is made new only after a success.
\<close>

definition CryptoHash_Hash :: "('a, 'c) digest_lib \<Rightarrow> byte list \<Rightarrow> (exn, ('a, 'c) CryptoHash, byte list \<times> nat) sx" where
  "CryptoHash_Hash lib pbIn h =
     (case EVP_DigestUpdate lib pbIn (ch_ctx h) of (updated, c) \<Rightarrow>
        if \<not> updated then (Inl (RMSCryptoInvalidArgumentException ''Failed to update hash''), h\<lparr>ch_ctx := c\<rparr>)
        else case EVP_DigestFinal_ex lib c of
               (None, c') \<Rightarrow> (Inl (RMSCryptoInvalidArgumentException ''Failed to finalize hash''), h\<lparr>ch_ctx := c'\<rparr>)
             | (Some pbOut, c') \<Rightarrow>
                 (Inr (pbOut, GetOutputSize lib h mod 2 ^ 32),
                  h\<lparr>ch_ctx := EVP_DigestInit_ex lib (ch_hashAlgorithm h) c'\<rparr>))"

section \<open>What OpenSSL promises\<close>

text \<open>
  \<open>fed c\<close> is the digest and the data that a context was given since it was made new; \<open>sha\<close> is
  the function of a digest. After the end a context must be made new.
\<close>

definition digest_ok :: "('a, 'c) digest_lib \<Rightarrow> ('a \<Rightarrow> byte list \<Rightarrow> byte list) \<Rightarrow> ('c \<Rightarrow> ('a \<times> byte list) option) \<Rightarrow> bool" where
  "digest_ok lib sha fed \<longleftrightarrow>
     (\<forall>a c. fed (EVP_DigestInit_ex lib a c) = Some (a, [])) \<and>
     (\<forall>a c xs ys. fed c = Some (a, xs) \<longrightarrow>
        (\<exists>c'. EVP_DigestUpdate lib ys c = (True, c') \<and> fed c' = Some (a, xs @ ys))) \<and>
     (\<forall>a c xs. fed c = Some (a, xs) \<longrightarrow> fst (EVP_DigestFinal_ex lib c) = Some (sha a xs)) \<and>
     (\<forall>a xs. length (sha a xs) = EVP_MD_size lib a \<and> EVP_MD_size lib a < 2 ^ 32)"

lemma digest_init: "digest_ok lib sha fed \<Longrightarrow> fed (EVP_DigestInit_ex lib a c) = Some (a, [])"
  by (simp add: digest_ok_def)

lemma hash_fed:
  assumes "digest_ok lib sha fed" and "fed (ch_ctx h) = Some (a, xs)" and "ch_hashAlgorithm h = a"
  shows "\<exists>h'. CryptoHash_Hash lib ys h = (Inr (sha a (xs @ ys), length (sha a (xs @ ys))), h') \<and>
    fed (ch_ctx h') = Some (a, []) \<and> ch_hashAlgorithm h' = a"
proof -
  obtain c where c: "EVP_DigestUpdate lib ys (ch_ctx h) = (True, c)" "fed c = Some (a, xs @ ys)"
    using assms(1,2) unfolding digest_ok_def by blast
  obtain c' where c': "EVP_DigestFinal_ex lib c = (Some (sha a (xs @ ys)), c')"
    using assms(1) c(2) unfolding digest_ok_def by (metis prod.collapse)
  have n: "length (sha a (xs @ ys)) = EVP_MD_size lib a" "EVP_MD_size lib a mod 2 ^ 32 = EVP_MD_size lib a"
    using assms(1) by (simp_all add: digest_ok_def)
  show ?thesis
    using c c' n assms(3) digest_init [OF assms(1)] by (simp add: CryptoHash_Hash_def GetOutputSize_def)
qed

primrec hash_all :: "('a, 'c) digest_lib \<Rightarrow> byte list list \<Rightarrow> (exn, ('a, 'c) CryptoHash, (byte list \<times> nat) list) sx" where
  "hash_all lib [] = ret []"
| "hash_all lib (x # xs) = bnd (CryptoHash_Hash lib x) (\<lambda>r. bnd (hash_all lib xs) (\<lambda>rs. ret (r # rs)))"

lemma hash_all_fed:
  assumes "digest_ok lib sha fed" and "fed (ch_ctx h) = Some (a, [])" and "ch_hashAlgorithm h = a"
  shows "\<exists>h'. hash_all lib inputs h = (Inr (map (\<lambda>x. (sha a x, length (sha a x))) inputs), h')"
  using assms(2,3)
proof (induction inputs arbitrary: h)
  case (Cons x inputs)
  obtain h' where h': "CryptoHash_Hash lib x h = (Inr (sha a x, length (sha a x)), h')"
    "fed (ch_ctx h') = Some (a, [])" "ch_hashAlgorithm h' = a"
    using hash_fed [OF assms(1) Cons.prems, of x] by auto
  then show ?case using Cons.IH [OF h'(2,3)] by (auto simp: sx_simps)
qed (simp add: sx_simps)

section \<open>Properties\<close>

text \<open>
  One hash object can be used for any number of inputs: each gets the digest of that input
  alone, and its size.
\<close>

theorem hashes_independent:
  assumes "digest_ok lib sha fed" and "EVP_MD_CTX_new lib \<noteq> None" and "MapHashAlgorithm lib algorithm = Inr a"
  shows "\<exists>h h'. CreateHash lib algorithm = Inr h \<and>
    hash_all lib inputs h = (Inr (map (\<lambda>x. (sha a x, length (sha a x))) inputs), h')"
proof -
  obtain c where "EVP_MD_CTX_new lib = Some c" using assms(2) by blast
  then have "CreateHash lib algorithm = Inr \<lparr>ch_hashAlgorithm = a, ch_ctx = EVP_DigestInit_ex lib a c\<rparr>"
    using assms(3) by (simp add: CreateHash_def CryptoHash_create_def)
  then show ?thesis
    using hash_all_fed [OF assms(1), of "\<lparr>ch_hashAlgorithm = a, ch_ctx = EVP_DigestInit_ex lib a c\<rparr>" a inputs]
      digest_init [OF assms(1)] by simp
qed

text \<open>After a call that failed at its end, the next one digests the input of both.\<close>

lemma hash_after_failure:
  assumes "digest_ok lib sha fed" and "fed (ch_ctx h) = Some (a, xs)" and "ch_hashAlgorithm h = a" and "xs \<noteq> []"
  shows "\<exists>h'. CryptoHash_Hash lib ys h = (Inr (sha a (xs @ ys), length (sha a (xs @ ys))), h')"
  using hash_fed [OF assms(1-3)] by blast

text \<open>Digests that keep the first bytes.\<close>

definition first_bytes :: "nat \<Rightarrow> byte list \<Rightarrow> byte list" where
  "first_bytes a xs = take (min a 32) (xs @ replicate 32 0)"

definition prefix_digest :: "(nat, (nat \<times> byte list) option) digest_lib" where
  "prefix_digest =
     \<lparr>EVP_sha1 = 20, EVP_sha256 = 32, EVP_MD_size = min 32, EVP_MD_CTX_new = Some None,
      EVP_DigestInit_ex = (\<lambda>a c. Some (a, [])),
      EVP_DigestUpdate = (\<lambda>ys c. case c of None \<Rightarrow> (False, None) | Some (a, xs) \<Rightarrow> (True, Some (a, xs @ ys))),
      EVP_DigestFinal_ex = (\<lambda>c. case c of None \<Rightarrow> (None, None) | Some (a, xs) \<Rightarrow> (Some (first_bytes a xs), None))\<rparr>"

lemma prefix_digest_ok: "digest_ok prefix_digest first_bytes (\<lambda>c. c)"
  by (auto simp: digest_ok_def prefix_digest_def first_bytes_def)

lemma prefix_digest_values:
  "MapHashAlgorithm prefix_digest CRYPTO_HASH_ALGORITHM_SHA1 = Inr 20" "EVP_MD_CTX_new prefix_digest \<noteq> None"
  "first_bytes 20 [1, 2] = 1 # 2 # replicate 18 0" "first_bytes 20 [3] = 3 # replicate 19 0"
  by (simp add: MapHashAlgorithm_def prefix_digest_def, simp add: prefix_digest_def, code_simp, code_simp)

theorem hashes_independent_witness:
  "\<exists>h h'. CreateHash prefix_digest CRYPTO_HASH_ALGORITHM_SHA1 = Inr h \<and>
    hash_all prefix_digest [[1, 2], [3]] h = (Inr [(1 # 2 # replicate 18 0, 20), (3 # replicate 19 0, 20)], h')"
  using hashes_independent [OF prefix_digest_ok prefix_digest_values(2,1), of "[[1, 2], [3]]"]
  by (simp only: prefix_digest_values(3,4) list.map) simp

end
