(* ===== verification/Certificates.thy ===== *)
theory Certificates
  imports StdStrings
begin

text \<open>
  The certificates an application adds (\<open>rms_sdk/ModernAPI/HttpHelper.cpp\<close>), the two that come
  with the library (\<open>rms_sdk/Platform/Http/mscertificates.h\<close>), and what the constructor of an HTTP
  client trusts (\<open>HttpClientQt.cpp\<close>). The bytes of a certificate are written as characters. The
  X.509 functions of OpenSSL are parameters.
\<close>

section \<open>Adding certificates\<close>

record 'x x509_lib =
  BIO_new_mem_buf :: "string \<Rightarrow> bool"
  BIO_new :: bool
  PEM_read_bio_X509 :: "string \<Rightarrow> 'x option"
  d2i_X509 :: "string \<Rightarrow> 'x option"
  PEM_write_bio_X509 :: "'x \<Rightarrow> bool \<times> string option"  \<comment> \<open>success, and what is in the memory then\<close>

text \<open>The state is the text of all certificates.\<close>

definition addCertificate :: "string \<Rightarrow> string \<Rightarrow> string" where
  "addCertificate data all_certs = all_certs @ data"

definition getAllCACertificatesBase64 :: "string \<Rightarrow> string" where
  "getAllCACertificatesBase64 all_certs = all_certs"

definition addCACertificateBase64 :: "'x x509_lib \<Rightarrow> string \<Rightarrow> string \<Rightarrow> bool \<times> string" where
  "addCACertificateBase64 lib certificate all_certs =
     (if \<not> BIO_new_mem_buf lib certificate then (False, all_certs)
      else case PEM_read_bio_X509 lib certificate of
             None \<Rightarrow> (False, all_certs)
           | Some x509 \<Rightarrow> (True, addCertificate certificate all_certs))"

definition addCACertificateDer :: "'x x509_lib \<Rightarrow> string \<Rightarrow> string \<Rightarrow> bool \<times> string" where
  "addCACertificateDer lib certificate all_certs =
     (case d2i_X509 lib certificate of
        None \<Rightarrow> (False, all_certs)
      | Some x509 \<Rightarrow>
          if \<not> BIO_new lib then (False, all_certs)
          else case PEM_write_bio_X509 lib x509 of
                 (nret, None) \<Rightarrow> (False, all_certs)
               | (nret, Some buf) \<Rightarrow>
                   if \<not> nret \<or> buf = [] then (False, all_certs) else (True, addCertificate buf all_certs))"

text \<open>The authentication library reads the certificate, and that is all (\<open>rmsauth/HttpHelperQt.cpp\<close>).\<close>

definition auth_addCACertificateBase64 :: "'x x509_lib \<Rightarrow> string \<Rightarrow> bool" where
  "auth_addCACertificateBase64 lib certificate =
     (BIO_new_mem_buf lib certificate \<and> PEM_read_bio_X509 lib certificate \<noteq> None)"

definition auth_addCACertificateDer :: "'x x509_lib \<Rightarrow> string \<Rightarrow> bool" where
  "auth_addCACertificateDer lib certificate =
     (case d2i_X509 lib certificate of
        None \<Rightarrow> False
      | Some x509 \<Rightarrow>
          BIO_new lib \<and> (case PEM_write_bio_X509 lib x509 of
                           (nret, None) \<Rightarrow> False
                         | (nret, Some buf) \<Rightarrow> nret \<and> buf \<noteq> []))"

section \<open>The certificates of the library\<close>

definition pem_begin :: string where "pem_begin = ''-----BEGIN CERTIFICATE-----''"
definition pem_end :: string where "pem_end = ''-----END CERTIFICATE-----''"

abbreviation CR :: char where "CR \<equiv> CHR 0x0D"
abbreviation LF :: char where "LF \<equiv> CHR 0x0A"

definition ca_body :: "string list" where
  "ca_body =
    [''MIIF7TCCA9WgAwIBAgIQP4vItfyfspZDtWnWbELhRDANBgkqhkiG9w0BAQsFADCB'',
     ''iDELMAkGA1UEBhMCVVMxEzARBgNVBAgTCldhc2hpbmd0b24xEDAOBgNVBAcTB1Jl'',
     ''ZG1vbmQxHjAcBgNVBAoTFU1pY3Jvc29mdCBDb3Jwb3JhdGlvbjEyMDAGA1UEAxMp'',
     ''TWljcm9zb2Z0IFJvb3QgQ2VydGlmaWNhdGUgQXV0aG9yaXR5IDIwMTEwHhcNMTEw'',
     ''MzIyMjIwNTI4WhcNMzYwMzIyMjIxMzA0WjCBiDELMAkGA1UEBhMCVVMxEzARBgNV'',
     ''BAgTCldhc2hpbmd0b24xEDAOBgNVBAcTB1JlZG1vbmQxHjAcBgNVBAoTFU1pY3Jv'',
     ''c29mdCBDb3Jwb3JhdGlvbjEyMDAGA1UEAxMpTWljcm9zb2Z0IFJvb3QgQ2VydGlm'',
     ''aWNhdGUgQXV0aG9yaXR5IDIwMTEwggIiMA0GCSqGSIb3DQEBAQUAA4ICDwAwggIK'',
     ''AoICAQCygEGqNThNE3IyaCJNuLLx/9VSvGzH9dJKjDbu0cJcfoyKrq8TKG/Ac+M6'',
     ''ztAlqFo6be+ouFmrEyNozQwph9FvgFyPRH9dkAFSWKxRxV8qh9zc2AodwQO5e7BW'',
     ''6KPeZGHCnvjzfLnsDbVU/ky2ZU+I8JxImQxCCwl8MVkXeQZ4KI2JOkwDJb5xalwL'',
     ''54RgpJki49KvhKSn+9GY7Qyp3pSJ4Q6g3MDOmT3qCFK7VnnkH4S6Hri0xElcTzFL'',
     ''h93dBWcmmYDgcRGjuKVB4qRTufcyKYMME782XgSzS0NHL2vikR7TmE/dQgfI6B0S'',
     ''/Jmpaz6SfsjWaTr8ZL22CZ3K/QwLopt3YEsDlKQwaRLWQi3BQUzK3Kr9j1uDRprZ'',
     ''/LHR47PJf0h6zSTwQY9cdNCssBAgBkm3xy0hyFfj0IbzA2j70M5xwYmZSmQBbP3s'',
     ''MJHPQTySx+W6hh1hhMdfgzlirrSSL0fzC/hV66AfWdC7dJse0Hbm8ukG1xDo+mTe'',
     ''acY1logC8Ea4PyeZb8txiSk190gWAjWP1Xl8TQLPX+uKg09FcYj5qQ1OcunCnAfP'',
     ''SRtOBA5jUYxe2ADBVSy2xuDCZU7JNDn1nLPEfuhhbhNfFcRf2X7tHc7uROzLLoax'',
     ''7Dj2cO2rXBPB2Q8Nx4CyVe0096yb5MPa50c8prWPMd/FS6/r8QIDAQABo1EwTzAL'',
     ''BgNVHQ8EBAMCAYYwDwYDVR0TAQH/BAUwAwEB/zAdBgNVHQ4EFgQUci06AjGQQ7kU'',
     ''BU7h6qfHMdEjiTQwEAYJKwYBBAGCNxUBBAMCAQAwDQYJKoZIhvcNAQELBQADggIB'',
     ''AH9yzw+3xRXbm8BJyiZb/p4T5tPw0tuXX/JLP02zrhmu7deXoKzvqTqjwkGw5biR'',
     ''nhOBJAPmCf0/V0A5ISRW0RAvS0CpNoZLtFNXmvvxfomPEf4YbFGq6O0JlbXlccmh'',
     ''6Yd1phV/yX43VF50k8XDZ8wNT2uoFwxtCJJ+i92Bqi1wIcM9BhS7vyRep4TXPw8h'',
     ''Ir1LAAbblxzYXtTFC1yHblCk6MM4pPvLLMWSZpuFXst6bJN8gClYW1e1QGm6CHmm'',
     ''ZGIVnYeWRbVmIyADixxzoNOieTPgUFmG2y/lAiXqcyqfABTINseSO+lOAOzYVgm5'',
     ''M0kS0lQLAausR7aRKX1MtHWAUgHoyoL2n8ysnI8X6i8msKtyrAv+nlEex0NVZ09R'',
     ''s1fWtuzuUrc66U7h14GIvE+OdbtLqPA1qibUZ2dJsnBMO5PcHd94kIZysjik0dyS'',
     ''TclY6ysSXNQ7roxrsIPlAT/4CTL2kzU0Iq/dNw13CYArzUgA8YyZGUcFAenRv9FO'',
     ''0OYoQzeZpApKCNmacXPSqs0xE2N2oTdvkjgefRI8ZjLny23h/FKJ3crWZgWalmG+'',
     ''oijHHKOnNlA8OqTfSm7mhzvO6/DggTedEzxSjr25HTTGHdUKaj2YKXCMiSrRq4IQ'',
     ''SB/c9O+lxbtVGjhjhE63bK2VVOxlIhBJF7jAHscPrFRH'']"

definition sub_ca_body :: "string list" where
  "sub_ca_body =
    [''MIIGaDCCBFCgAwIBAgITMwAAAJ0G5/l2xKJulgAAAAAAnTANBgkqhkiG9w0BAQsF'',
     ''ADB+MQswCQYDVQQGEwJVUzETMBEGA1UECBMKV2FzaGluZ3RvbjEQMA4GA1UEBxMH'',
     ''UmVkbW9uZDEeMBwGA1UEChMVTWljcm9zb2Z0IENvcnBvcmF0aW9uMSgwJgYDVQQD'',
     ''Ex9NaWNyb3NvZnQgU2VjdXJlIFNlcnZlciBDQSAyMDExMB4XDTE0MDkxNjIwNTYy'',
     ''M1oXDTE1MTIxNjIwNTYyM1owcDELMAkGA1UEBhMCVVMxCzAJBgNVBAgTAldBMRAw'',
     ''DgYDVQQHEwdSZWRtb25kMRIwEAYDVQQKEwlNaWNyb3NvZnQxEzARBgNVBAsTCkFB'',
     ''RFJNLVBST0QxGTAXBgNVBAMTEHNzbC5ldS5hYWRybS5jb20wggEiMA0GCSqGSIb3'',
     ''DQEBAQUAA4IBDwAwggEKAoIBAQC/UGECi48prbnEBaspm17l2pJo/abyg5SpOuwJ'',
     ''EvwFfbfPkcAchLj+eK9nezVgbiaC7sVN+VBfErO5p1wltT+wsnen3t1CL7ZD7Cah'',
     ''8AaUEH8AyevEZV0nKxJPrIpTc2dccyhYOxULkyJvENNYhmBzzq3lVfPXk6o6J75+'',
     ''d07GeoEdU9W0rkYIoczBKwwbn96CtQxwIiC2nk/WMm/jdZzzi84O+nISTBcjQgC1'',
     ''Wu0N+kkwUe3GygdT6lgTcD2aw8tj0uHtfyTMtM5pqPGU2ZOl6rXQIVV0cprJCulR'',
     ''N8vUW1/xjR+TCyBMBfK2LZKS1ki5XJq+yMVb5393mGnFHFoTAgMBAAGjggHrMIIB'',
     ''5zAOBgNVHQ8BAf8EBAMCBaAwKQYDVR0lBCIwIAYIKwYBBQUHAwIGCCsGAQUFBwMB'',
     ''BgorBgEEAYI3TAcDMB0GA1UdDgQWBBT+lHhBT62Fz7rS2ghUJvj/gnWHgDCBpAYD'',
     ''VR0RBIGcMIGZgg4qLmV1LmFhZHJtLmNvbYILKi5hYWRybS5jb22CEioucm1zLmV1'',
     ''LmFhZHJtLmNvbYIYKi5ybXMtYS1ORVUuZXUuYWFkcm0uY29tghgqLnJtcy1hLVdF'',
     ''VS5ldS5hYWRybS5jb22CGCoucm1zLWItTkVVLmV1LmFhZHJtLmNvbYIYKi5ybXMt'',
     ''Yi1XRVUuZXUuYWFkcm0uY29tMB8GA1UdIwQYMBaAFDZWiWVJy1ubLzysQhZQTZG5'',
     ''M9eRMFMGA1UdHwRMMEowSKBGoESGQmh0dHA6Ly93d3cubWljcm9zb2Z0LmNvbS9w'',
     ''a2lvcHMvY3JsL01pY1NlY1NlckNBMjAxMV8yMDExLTEwLTE4LmNybDBgBggrBgEF'',
     ''BQcBAQRUMFIwUAYIKwYBBQUHMAKGRGh0dHA6Ly93d3cubWljcm9zb2Z0LmNvbS9w'',
     ''a2lvcHMvY2VydHMvTWljU2VjU2VyQ0EyMDExXzIwMTEtMTAtMTguY3J0MAwGA1Ud'',
     ''EwEB/wQCMAAwDQYJKoZIhvcNAQELBQADggIBAL9OpbAzAH6t7XtLHMfpSwOeu1MX'',
     ''S+WnnpexO3yEEeq8mzVo1WdtoXL2oXay1c+xOrPECEQHVMCW9H8aayk7UzSuzzJg'',
     ''cHiVQOAmmOdYCbKQDGn0RT8RhQ0H4tayXJpBGv3whU4c5uYzjiFuWkaF3hJFo3d8'',
     ''EStKPBC3WIk+f804cMZjmcIDOR46jY4ckqbZsgXkhNXszMW9nMYnRYjaXKyh3qyT'',
     ''GyhstM4BZON9l626GJTP2UrDVdX/a/6NQ7lNlPQ6e4lA8RTP5jlUgMqdQ47CfsCf'',
     ''Kx6PC367ADN6iycl2MLjRh/DbgRTb37kWlTqCDoXumKR+LnA0JUhax5a+xzZprnc'',
     ''QR0WDrG2SvVBu8GCBRlQ+oBjiEEKc9rD/b1PsQLJAG1zXwKv13i9FDCl5I8mFTi1'',
     ''3mbiuRm+SUblbC8IeJoFkflv+7yCD64h0cN5jbSP/+NcqnuGWU4Zj39hVHyaO++W'',
     ''5Gc+8k6kJjKCxckRLkCcmFaAQPGWmWJyd1jP2CwI4yhh3I+/ZqknuNx+DF58ASdd'',
     ''RWp7+JDSV1+oseoJ195b7faI0or6kie1lGjYlv1YHkMdyqExkhe+0sbXwbZmUyPF'',
     ''4WcEOODjqDt+qwfER6bgIVIxVeeljBZr6jdLUgFLTIk511Xs0CBGmsn7JIQhdm8U'',
     ''5JIVRR8I5aveCXa2'']"

definition pem_literal :: "string list \<Rightarrow> string" where
  "pem_literal body = pem_begin @ [CR, LF] @ concat (map (\<lambda>l. l @ [CR, LF]) body) @ pem_end"

definition MicrosoftCertCA :: string where "MicrosoftCertCA = pem_literal ca_body"
definition MicrosoftCertSubCA :: string where "MicrosoftCertSubCA = pem_literal sub_ca_body"

text \<open>What the constructor gives to libcurl, if there is a handle.\<close>

definition HttpClientQt_certs :: "bool \<Rightarrow> string \<Rightarrow> string option" where
  "HttpClientQt_certs curl all_certs =
     (if curl then Some (getAllCACertificatesBase64 all_certs @ MicrosoftCertCA @ MicrosoftCertSubCA) else None)"

section \<open>Texts of certificates\<close>

text \<open>
  The reader that the text is for. The markers and that what is outside them is not read are as in
  RFC 7468: a certificate is between a line that is the begin marker and a line that is the end
  marker. What a broken text is, the RFC leaves to the reader: here, as OpenSSL does it
  (\<open>PEM_read_bio\<close>), a line that starts like an end marker and is none is an error, and so
  is a certificate that does not end. The result is the lines of every certificate.
\<close>

fun lines_of :: "string \<Rightarrow> string list" where
  "lines_of [] = [[]]"
| "lines_of (c # cs) = (if c = LF then [] # lines_of cs else (c # hd (lines_of cs)) # tl (lines_of cs))"

definition chomp :: "string \<Rightarrow> string" where
  "chomp l = (if l \<noteq> [] \<and> last l = CR then butlast l else l)"

definition end_like :: "string \<Rightarrow> bool" where
  "end_like l \<longleftrightarrow> take 9 l = ''-----END ''"

fun pem_scan :: "string list option \<Rightarrow> string list \<Rightarrow> (string list option \<times> string list list) option" where
  "pem_scan st [] = Some (st, [])"
| "pem_scan None (l # ls) = pem_scan (if l = pem_begin then Some [] else None) ls"
| "pem_scan (Some b) (l # ls) =
     (if \<not> end_like l then pem_scan (Some (b @ [l])) ls
      else if l = pem_end then map_option (apsnd (Cons b)) (pem_scan None ls)
      else None)"

definition pem_certificates :: "string \<Rightarrow> string list list option" where
  "pem_certificates s =
     (case pem_scan None (map chomp (lines_of s)) of Some (None, cs) \<Rightarrow> Some cs | _ \<Rightarrow> None)"

lemma lines_of_nonempty: "lines_of s \<noteq> []"
  by (cases s) auto

lemma lines_append: "lines_of (x @ y) = butlast (lines_of x) @ (last (lines_of x) @ hd (lines_of y)) # tl (lines_of y)"
proof (induction x)
  case (Cons c x)
  show ?case using Cons lines_of_nonempty [of x] by (cases "lines_of x") auto
qed (simp add: lines_of_nonempty)

lemma line_first: "LF \<notin> set l \<Longrightarrow> lines_of (l @ LF # y) = l # lines_of y"
  by (induction l) auto

lemma line_only: "LF \<notin> set l \<Longrightarrow> lines_of l = [l]"
  by (induction l) auto

lemma prepend_map:
  "map_option (apsnd (append [])) o' = o'"
  "map_option (apsnd (append (b # bs))) o' = map_option (apsnd (Cons b)) (map_option (apsnd (append bs)) o')"
  by (cases o'; auto simp: apsnd_def)+

lemma scan_append:
  "pem_scan st (xs @ ys) =
     (case pem_scan st xs of
        None \<Rightarrow> None
      | Some (st', bs) \<Rightarrow> map_option (apsnd (append bs)) (pem_scan st' ys))"
  by (induction st xs rule: pem_scan.induct) (auto simp: prepend_map split: option.splits)

definition plain_line :: "string \<Rightarrow> bool" where
  "plain_line l \<longleftrightarrow> (case l of [] \<Rightarrow> False | c # r \<Rightarrow> c \<noteq> CHR ''-'' \<and> LF \<notin> set l)"

lemma scan_plain_lines:
  "list_all plain_line body \<Longrightarrow> pem_scan (Some b) (body @ ls) = pem_scan (Some (b @ body)) ls"
  "list_all plain_line body \<Longrightarrow> pem_scan None (body @ ls) = pem_scan None ls"
  by (induction body arbitrary: b) (auto simp: plain_line_def end_like_def pem_begin_def pem_end_def split: list.splits)

lemma bodies_plain: "list_all plain_line ca_body" "list_all plain_line sub_ca_body"
  by code_simp+

lemma marker_facts:
  "LF \<notin> set pem_begin" "LF \<notin> set pem_end" "end_like pem_end" "pem_end \<noteq> pem_begin" "chomp pem_end = pem_end"
  "end_like (pem_end @ r)" "pem_end @ pem_begin \<noteq> pem_end" "pem_begin \<noteq> []" "pem_end \<noteq> []"
  by (simp_all add: pem_begin_def pem_end_def end_like_def chomp_def)

lemma chomp_cr: "chomp (l @ [CR]) = l"
  by (simp add: chomp_def)

lemma literal_lines:
  assumes "list_all plain_line body"
  shows "lines_of (pem_literal body) = (pem_begin @ [CR]) # map (\<lambda>l. l @ [CR]) body @ [pem_end]"
proof -
  have l: "lines_of (concat (map (\<lambda>l. l @ [CR, LF]) body) @ pem_end) = map (\<lambda>l. l @ [CR]) body @ [pem_end]"
    using assms
  proof (induction body)
    case (Cons x body)
    then have "LF \<notin> set (x @ [CR])" by (auto simp: plain_line_def split: list.splits)
    then show ?case using Cons line_first [of "x @ [CR]"] by simp
  qed (simp add: line_only marker_facts)
  have b: "LF \<notin> set (pem_begin @ [CR])" by (simp add: marker_facts)
  show ?thesis using l line_first [OF b] unfolding pem_literal_def by simp
qed

lemma blob_lines:
  "map chomp (lines_of (added @ MicrosoftCertCA @ MicrosoftCertSubCA)) =
   map chomp (butlast (lines_of added)) @ (last (lines_of added) @ pem_begin) # ca_body @
     (pem_end @ pem_begin) # sub_ca_body @ [pem_end]"
  unfolding lines_append [of added] lines_append [of MicrosoftCertCA]
  by (simp add: MicrosoftCertCA_def MicrosoftCertSubCA_def literal_lines bodies_plain chomp_cr marker_facts comp_def
      butlast_append chomp_cr [of "_ @ _", simplified])

lemma first_bad:
  "pem_scan (Some []) (ca_body @ (pem_end @ pem_begin) # r) = None"
  "pem_scan None (ca_body @ (pem_end @ pem_begin) # sub_ca_body @ [pem_end]) = Some (None, [])"
  using marker_facts by (simp_all add: scan_plain_lines bodies_plain)

lemma literal_certificates:
  assumes "list_all plain_line body"
  shows "pem_certificates (pem_literal body) = Some [body]"
  using assms marker_facts
  by (simp add: pem_certificates_def literal_lines chomp_cr comp_def scan_plain_lines)

text \<open>Texts that end their lines can be put together.\<close>

definition line_ended :: "string \<Rightarrow> bool" where
  "line_ended s \<longleftrightarrow> last (lines_of s) = []"

lemma line_ended_snoc: "line_ended (s @ [LF])"
  by (simp add: line_ended_def lines_append)

lemma certificates_append:
  assumes "line_ended a" and "pem_certificates a = Some xs" and "pem_certificates b = Some ys"
  shows "pem_certificates (a @ b) = Some (xs @ ys)"
proof -
  let ?f = "map chomp"
  have a: "lines_of a = butlast (lines_of a) @ [[]]"
    using assms(1) lines_of_nonempty [of a] by (metis append_butlast_last_id line_ended_def)
  have e: "chomp [] = []" "[] \<noteq> pem_begin" "\<not> end_like []" by (simp_all add: chomp_def pem_begin_def end_like_def)
  have s: "pem_scan None (?f (lines_of a)) = Some (None, xs)"
    using assms(2) by (auto simp: pem_certificates_def split: option.splits prod.splits)
  then obtain st bs where st: "pem_scan None (?f (butlast (lines_of a))) = Some (st, bs)" "pem_scan st [[]] = Some (None, drop (length bs) xs)" "xs = bs @ drop (length bs) xs"
    by (subst (asm) a) (auto simp: scan_append e split: option.splits)
  then have "st = None" "xs = bs" by (cases st; auto simp: e)+
  moreover have "?f (lines_of (a @ b)) = ?f (butlast (lines_of a)) @ ?f (lines_of b)"
    using assms(1) lines_of_nonempty [of b] by (simp add: lines_append line_ended_def flip: map_append)
  moreover have "pem_scan None (?f (lines_of b)) = Some (None, ys)"
    using assms(3) by (auto simp: pem_certificates_def split: option.splits prod.splits)
  ultimately show ?thesis using st by (simp add: pem_certificates_def scan_append)
qed

lemma trusted_added:
  assumes "pem_certificates added = Some cs"
  shows "pem_certificates (added @ MicrosoftCertCA @ MicrosoftCertSubCA) \<in> {None, Some cs}"
proof -
  let ?x = "map chomp (butlast (lines_of added))" and ?l = "last (lines_of added)"
  have "map chomp (lines_of added) = ?x @ [chomp ?l]"
    using lines_of_nonempty [of added] by (metis append_butlast_last_id list.simps(8,9) map_append)
  then have "pem_scan None (?x @ [chomp ?l]) = Some (None, cs)"
    using assms by (auto simp: pem_certificates_def split: option.splits prod.splits)
  then obtain st bs bs' where st: "pem_scan None ?x = Some (st, bs)" "pem_scan st [chomp ?l] = Some (None, bs')" "cs = bs @ bs'"
    by (auto simp: scan_append split: option.splits)
  let ?r = "ca_body @ (pem_end @ pem_begin) # sub_ca_body @ [pem_end]"
  have "pem_scan st ((?l @ pem_begin) # ?r) \<in> {None, Some (None, bs')}"
  proof (cases st)
    case None
    then show ?thesis using st(2) first_bad by (auto split: if_splits)
  next
    case (Some b)
    then have "chomp ?l = pem_end" using st(2) by (auto split: if_splits)
    then have "?l = pem_end \<or> ?l = pem_end @ [CR]" by (metis append_butlast_last_id chomp_def)
    then have "end_like (?l @ pem_begin)" "?l @ pem_begin \<noteq> pem_end" using marker_facts by auto
    then show ?thesis using Some by simp
  qed
  then show ?thesis
    unfolding pem_certificates_def blob_lines scan_append st(1) using st(3) by auto
qed

section \<open>Properties\<close>

text \<open>
  C26: The two certificates of the library can be read one by one, and are never trusted by a client
  that reads them as OpenSSL does, where a broken end marker is an error: they are
  put together without a line end between them, so a client that is made before any is added has
  a text that is an error, and one that is made later has an error or reads the added ones only.
\<close>

theorem microsoft_certificates_lost:
  assumes "pem_certificates added = Some cs"
  shows "pem_certificates MicrosoftCertCA = Some [ca_body] \<and> pem_certificates MicrosoftCertSubCA = Some [sub_ca_body] \<and>
    (\<exists>blob. HttpClientQt_certs True [] = Some blob \<and> pem_certificates blob = None) \<and>
    (\<exists>blob. HttpClientQt_certs True added = Some blob \<and> pem_certificates blob \<in> {None, Some cs})"
proof -
  have "pem_certificates (MicrosoftCertCA @ MicrosoftCertSubCA) = None"
    unfolding pem_certificates_def using blob_lines [of "[]"] first_bad(1) by simp
  then show ?thesis
    using trusted_added [OF assms] literal_certificates [OF bodies_plain(1)] literal_certificates [OF bodies_plain(2)]
    by (simp add: HttpClientQt_certs_def getAllCACertificatesBase64_def flip: MicrosoftCertCA_def MicrosoftCertSubCA_def)
qed

theorem microsoft_certificates_lost_witness:
  "\<exists>blob. HttpClientQt_certs True MicrosoftCertCA = Some blob \<and> pem_certificates blob \<in> {None, Some [ca_body]}"
  using microsoft_certificates_lost [of MicrosoftCertCA "[ca_body]"]
  by (simp add: literal_certificates bodies_plain MicrosoftCertCA_def)

text \<open>Certificates that are added in binary form are all in the text, in their order.\<close>

definition x509_ok :: "'x x509_lib \<Rightarrow> ('x \<Rightarrow> string list) \<Rightarrow> bool" where
  "x509_ok lib body \<longleftrightarrow> BIO_new lib \<and>
     (\<forall>x. \<exists>t. PEM_write_bio_X509 lib x = (True, Some (t @ [LF])) \<and> pem_certificates (t @ [LF]) = Some [body x])"

primrec add_all_Der :: "'x x509_lib \<Rightarrow> string list \<Rightarrow> string \<Rightarrow> string" where
  "add_all_Der lib [] all_certs = all_certs"
| "add_all_Der lib (c # cs) all_certs = add_all_Der lib cs (snd (addCACertificateDer lib c all_certs))"

lemma der_added:
  assumes "x509_ok lib body" and "line_ended all_certs" and "pem_certificates all_certs = Some xs"
  shows "line_ended (add_all_Der lib cs all_certs) \<and>
    pem_certificates (add_all_Der lib cs all_certs) = Some (xs @ map body (List.map_filter (d2i_X509 lib) cs))"
  using assms(2,3)
proof (induction cs arbitrary: all_certs xs)
  case (Cons c cs)
  show ?case
  proof (cases "d2i_X509 lib c")
    case None
    then show ?thesis using Cons by (simp add: addCACertificateDer_def List.map_filter_def)
  next
    case (Some x)
    obtain t where t: "PEM_write_bio_X509 lib x = (True, Some (t @ [LF]))" "pem_certificates (t @ [LF]) = Some [body x]"
      using assms(1) by (auto simp: x509_ok_def)
    have a: "snd (addCACertificateDer lib c all_certs) = all_certs @ t @ [LF]"
      using assms(1) Some t by (simp add: addCACertificateDer_def addCertificate_def x509_ok_def)
    have "pem_certificates (all_certs @ t @ [LF]) = Some (xs @ [body x])"
      using certificates_append [OF Cons.prems t(2)] by simp
    then show ?thesis
      using Cons.IH [of "all_certs @ t @ [LF]" "xs @ [body x]"] line_ended_snoc [of "all_certs @ t"] a Some
      by (simp add: List.map_filter_def)
  qed
qed (simp add: List.map_filter_def)

end
