(* ===== verification/AuthUrl.thy ===== *)
theory AuthUrl
  imports AuthStrings Base64
begin

text \<open>
  Addresses (\<open>rmsauth/Url.cpp\<close>, \<open>rmsauth/UrlQt.cpp\<close>) and correlation ids
  (\<open>rmsauth/Guid.cpp\<close>, \<open>rmsauth/GuidQt.cpp\<close>) of the authentication library. An address is
  a text; each of its parts is what one regular expression finds in it. The expressions leave
  no choice but the one written out with \<open>host\<close>, so each is the scan it describes.
\<close>

section \<open>Parts of an address\<close>

definition alpha :: "char \<Rightarrow> bool" where
  "alpha c \<longleftrightarrow> (let n = of_char c :: nat in (65 \<le> n \<and> n \<le> 90) \<or> (97 \<le> n \<and> n \<le> 122))"

text \<open>\<open>Url(url)\<close> copies \<open>url.data()\<close> as a C string.\<close>

definition Url :: "string \<Rightarrow> string" where
  "Url url = c_str url"

text \<open>\<open>^([a-zA-Z]+):\<close>\<close>

definition url_scheme :: "string \<Rightarrow> string" where
  "url_scheme url =
     (let s = takeWhile alpha url
      in if s \<noteq> [] \<and> take 1 (drop (length s) url) = '':'' then s else [])"

text \<open>What follows \<open>^[^:]+://\<close>, if that matches.\<close>

definition after_scheme :: "string \<Rightarrow> string option" where
  "after_scheme url =
     (let s = takeWhile (\<lambda>c. c \<noteq> CHR '':'') url
      in if s \<noteq> [] \<and> take 3 (drop (length s) url) = ''://'' then Some (drop (length s + 3) url) else None)"

text \<open>\<open>^[^:]+://([^/]+)(/.*)?\<close>\<close>

definition url_authority :: "string \<Rightarrow> string" where
  "url_authority url =
     (case after_scheme url of None \<Rightarrow> [] | Some r \<Rightarrow> takeWhile (\<lambda>c. c \<noteq> CHR ''/'') r)"

text \<open>\<open>#([^#?]*)\<close>\<close>

definition url_fragment :: "string \<Rightarrow> string" where
  "url_fragment url =
     takeWhile (\<lambda>c. c \<notin> set ''#?'') (tl (dropWhile (\<lambda>c. c \<noteq> CHR ''#'') url))"

text \<open>
  \<open>^[^:]+://([^/:]+)(:[\d]+)?([^#?\s]+)\<close>: something has to follow the host; where
  nothing does, the host gives back its last characters until what it gave back starts with
  one that may follow.
\<close>

definition may_follow :: "char \<Rightarrow> bool" where
  "may_follow c \<longleftrightarrow> c \<notin> set ''#?'' \<and> \<not> isspace c"

definition url_host :: "string \<Rightarrow> string" where
  "url_host url =
     (case after_scheme url of
        None \<Rightarrow> []
      | Some r \<Rightarrow>
          let h = takeWhile (\<lambda>c. c \<notin> set ''/:'') r
          in if h = [] then []
             else if r \<noteq> h then h
             else rev (drop 1 (dropWhile (\<lambda>c. \<not> may_follow c) (rev h))))"

text \<open>\<open>^[^:]+://[^\/]+(\/[^?#]*)(?:\?[^#]*)?(?:#.*)?$\<close>, where a dot is no line break.\<close>

definition no_break :: "string \<Rightarrow> bool" where
  "no_break s \<longleftrightarrow> list_all (\<lambda>c. c \<noteq> CHR 0x0A \<and> c \<noteq> CHR 0x0D) s"

definition url_path :: "string \<Rightarrow> string" where
  "url_path url =
     (case after_scheme url of
        None \<Rightarrow> []
      | Some r \<Rightarrow>
          let a = takeWhile (\<lambda>c. c \<noteq> CHR ''/'') r;
              p = dropWhile (\<lambda>c. c \<noteq> CHR ''/'') r;
              after = dropWhile (\<lambda>c. c \<notin> set ''?#'') p;
              fragment = (if take 1 after = ''?'' then dropWhile (\<lambda>c. c \<noteq> CHR ''#'') after else after)
          in if a \<noteq> [] \<and> p \<noteq> [] \<and> no_break fragment then takeWhile (\<lambda>c. c \<notin> set ''?#'') p else [])"

text \<open>
  \<open>^(https?://)?(L\.)+[a-zA-Z0-9]{2,6}(:[0-9]{1,5})?(/.*)?$\<close>, where \<open>L\<close> is a label of at most 63
  letters, digits and hyphens that neither begins nor ends with a hyphen.
\<close>

definition url_label :: "string \<Rightarrow> bool" where
  "url_label l \<longleftrightarrow> l \<noteq> [] \<and> length l \<le> 63 \<and> list_all (\<lambda>c. isalnum c \<or> c = CHR ''-'') l \<and>
     isalnum (hd l) \<and> isalnum (last l)"

definition strip_http :: "string \<Rightarrow> string" where
  "strip_http url =
     (if take 7 url = ''http://'' then drop 7 url
      else if take 8 url = ''https://'' then drop 8 url else url)"

definition labels :: "string \<Rightarrow> string list" where
  "labels host = getlines (CHR ''.'') host @ (if host \<noteq> [] \<and> last host = CHR ''.'' then [[]] else [])"

definition url_isValid :: "string \<Rightarrow> bool" where
  "url_isValid url =
     (let r = strip_http url;
          host = takeWhile (\<lambda>c. c \<notin> set '':/'') r;
          t = dropWhile (\<lambda>c. c \<notin> set '':/'') r;
          port = (if take 1 t = '':'' then takeWhile isdigit (drop 1 t) else []);
          path = (if take 1 t = '':'' then dropWhile isdigit (drop 1 t) else t);
          ls = labels host
      in 2 \<le> length ls \<and> list_all url_label (butlast ls) \<and>
         2 \<le> length (last ls) \<and> length (last ls) \<le> 6 \<and> list_all isalnum (last ls) \<and>
         (take 1 t = '':'' \<longrightarrow> 1 \<le> length port \<and> length port \<le> 5) \<and>
         (path = [] \<or> (take 1 path = ''/'' \<and> no_break path)))"

section \<open>Correlation ids\<close>

type_synonym guid = "byte list"

definition guid_null :: guid where "guid_null = replicate 16 0"

definition guid_empty :: "guid \<Rightarrow> bool" where
  "guid_empty g \<longleftrightarrow> list_all (\<lambda>b. b = 0) g"

text \<open>\<open>newGuid\<close> sets the version and the variant in 16 random bytes.\<close>

definition guid_new :: "(nat \<Rightarrow> byte) \<Rightarrow> guid" where
  "guid_new dis =
     (let data = map dis [0..<16]
      in data[6 := or (and (data ! 6) 0x0F) 0x40, 8 := or (and (data ! 8) 0x3F) 0x80])"

definition hex_low :: "nat \<Rightarrow> char" where
  "hex_low n = char_of (if n < 10 then 48 + n else 87 + n)"

definition hex2 :: "byte \<Rightarrow> string" where
  "hex2 b = [hex_low (unat b div 16), hex_low (unat b mod 16)]"

definition guid_toString :: "guid \<Rightarrow> string" where
  "guid_toString g =
     concat (map (\<lambda>(i, b). (if i \<in> set [4, 6, 8, 10 :: nat] then ''-'' else []) @ hex2 b) (enumerate 0 g))"

text \<open>
  \<open>ss >> std::hex >> component\<close> into an \<open>unsigned int\<close>: blanks, a sign, a prefix, and every
  hexadecimal digit there is; \<open>None\<close> is a failure, also of a number that does not fit.
\<close>

definition hex_number :: "string \<Rightarrow> nat" where
  "hex_number s = foldl (\<lambda>n c. case hex_value c of Some v \<Rightarrow> n * 16 + v | None \<Rightarrow> n) 0 s"

definition read_hex :: "string \<Rightarrow> (nat \<times> string) option" where
  "read_hex str =
     (let s = dropWhile isspace str;
          t = (if take 1 s = ''-'' \<or> take 1 s = ''+'' then drop 1 s else s);
          u = (if take 2 t = ''0x'' \<or> take 2 t = ''0X'' then drop 2 t else t);
          n = hex_number (takeWhile isxdigit u)
      in if takeWhile isxdigit u = [] \<or> 2 ^ 32 \<le> n then None
         else Some (if take 1 s = ''-'' then (2 ^ 32 - n) mod 2 ^ 32 else n, dropWhile isxdigit u))"

text \<open>At most one number more than there are characters is read.\<close>

primrec guid_parse :: "nat \<Rightarrow> nat \<Rightarrow> string \<Rightarrow> guid \<Rightarrow> guid" where
  "guid_parse 0 i str data = data"
| "guid_parse (Suc n) i str data =
     (case read_hex str of
        None \<Rightarrow> data
      | Some (component, r) \<Rightarrow>
          if 16 \<le> i then data
          else guid_parse n (Suc i) (if take 1 r = ''-'' then drop 1 r else r) (data[i := word_of_nat component]))"

text \<open>\<open>GuidQt(str)\<close> does not initialize its bytes: \<open>junk\<close> is what they held.\<close>

definition guid_of_string :: "guid \<Rightarrow> string \<Rightarrow> guid" where
  "guid_of_string junk str = guid_parse (Suc (length str)) 0 str junk"

end
