(* ===== verification/AuthRequest.thy ===== *)
theory AuthRequest
  imports AuthUrl AuthJson
begin

text \<open>
  The requests of the authentication library: clients and users (\<open>rmsauth/ClientKey.cpp\<close>,
  \<open>ClientCredential.cpp\<close>, \<open>UserIdentifier.cpp\<close>, \<open>UserCredential.cpp\<close>, \<open>UserAssertion.cpp\<close>),
  the parameters of a request (\<open>RequestParameters.cpp\<close>, \<open>RequestParametersQt.cpp\<close>), its
  headers (\<open>RmsauthIdHelper.cpp\<close>) and the requests themselves (\<open>HttpHelperQt.cpp\<close>). libcurl,
  the JSON library and the order of hash maps are parameters.
\<close>

section \<open>Clients and users\<close>

record ClientCredential =
  cred_clientId :: string
  cred_clientSecret :: string

definition ClientCredential_create :: "string \<Rightarrow> string \<Rightarrow> auth_exn + ClientCredential" where
  "ClientCredential_create clientId clientSecret =
     (if clientId = [] then Inl (PointerThrown (IllegalArgumentException ''clientId'' []))
      else if clientSecret = [] then Inl (PointerThrown (IllegalArgumentException ''clientSecret'' []))
      else Inr \<lparr>cred_clientId = clientId, cred_clientSecret = clientSecret\<rparr>)"

record ClientKey =
  ck_credential :: "ClientCredential option"
  ck_clientId :: string
  ck_hasCredential :: bool

definition ClientKey_of_credential :: "ClientCredential \<Rightarrow> ClientKey" where
  "ClientKey_of_credential c =
     \<lparr>ck_credential = Some c, ck_clientId = cred_clientId c, ck_hasCredential = True\<rparr>"

text \<open>A certificate and an assertion give nothing but their client.\<close>

definition ClientKey_of_proof :: "string \<Rightarrow> ClientKey" where
  "ClientKey_of_proof clientId = \<lparr>ck_credential = None, ck_clientId = clientId, ck_hasCredential = True\<rparr>"

definition ClientKey_create :: "string \<Rightarrow> auth_exn + ClientKey" where
  "ClientKey_create clientId =
     (if clientId = [] then Inl (PointerThrown (IllegalArgumentException ''clientId'' []))
      else Inr \<lparr>ck_credential = None, ck_clientId = clientId, ck_hasCredential = False\<rparr>)"

datatype UserIdentifierType = UniqueId | OptionalDisplayableId | RequiredDisplayableId

record UserIdentifier =
  uid_id :: string
  uid_type :: UserIdentifierType

definition UserIdentifier_create :: "string \<Rightarrow> UserIdentifierType \<Rightarrow> auth_exn + UserIdentifier" where
  "UserIdentifier_create i t =
     (if i = [] then Inl (IllegalArgumentException ''id'' []) else Inr \<lparr>uid_id = i, uid_type = t\<rparr>)"

definition anyUser :: UserIdentifier where
  "anyUser = \<lparr>uid_id = ''AnyUser'', uid_type = UniqueId\<rparr>"

definition isAnyUser :: "UserIdentifier \<Rightarrow> bool" where
  "isAnyUser u \<longleftrightarrow> uid_type u = uid_type anyUser \<and> uid_id u = uid_id anyUser"

definition uid_uniqueId :: "UserIdentifier \<Rightarrow> string" where
  "uid_uniqueId u = (if \<not> isAnyUser u \<and> uid_type u = UniqueId then uid_id u else [])"

definition uid_displayableId :: "UserIdentifier \<Rightarrow> string" where
  "uid_displayableId u =
     (if \<not> isAnyUser u \<and> (uid_type u = OptionalDisplayableId \<or> uid_type u = RequiredDisplayableId)
      then uid_id u else [])"

datatype UserAuthType = IntegratedAuth | UsernamePassword

record UserCredential =
  uc_userAuthType :: UserAuthType
  uc_userName :: string
  uc_password :: string

definition UserCredential_integrated :: "string \<Rightarrow> UserCredential" where
  "UserCredential_integrated userName =
     \<lparr>uc_userAuthType = IntegratedAuth, uc_userName = userName, uc_password = []\<rparr>"

definition UserCredential_create :: "string \<Rightarrow> string \<Rightarrow> UserCredential" where
  "UserCredential_create userName password =
     \<lparr>uc_userAuthType = UsernamePassword, uc_userName = userName, uc_password = password\<rparr>"

record UserAssertion =
  ua_assertion :: string
  ua_assertionType :: string
  ua_userName :: string

definition UserAssertion_untyped :: "string \<Rightarrow> auth_exn + UserAssertion" where
  "UserAssertion_untyped assertion =
     (if assertion = [] then Inl (RmsauthException ''assertion'' ''the value is empty'')
      else Inr \<lparr>ua_assertion = assertion, ua_assertionType = [], ua_userName = []\<rparr>)"

definition UserAssertion_create :: "string \<Rightarrow> string \<Rightarrow> string \<Rightarrow> auth_exn + UserAssertion" where
  "UserAssertion_create assertion assertionType userName =
     (if assertion = [] then Inl (RmsauthException ''assertion'' ''the value is empty'')
      else if assertionType = [] then Inl (RmsauthException ''assertionType'' ''the value is empty'')
      else Inr \<lparr>ua_assertion = assertion, ua_assertionType = assertionType, ua_userName = userName\<rparr>)"

section \<open>Maps of strings\<close>

text \<open>
  An \<open>unordered_map\<close> is the list of its entries in the order they came in; the order in which
  it is walked is the argument \<open>walk\<close>.
\<close>

type_synonym StringMap = "(string \<times> string) list"

definition sm_insert :: "string \<Rightarrow> string \<Rightarrow> StringMap \<Rightarrow> StringMap" where
  "sm_insert key v m = (if map_of m key = None then m @ [(key, v)] else m)"

definition sm_set :: "string \<Rightarrow> string \<Rightarrow> StringMap \<Rightarrow> StringMap" where
  "sm_set key v m =
     (if map_of m key = None then m @ [(key, v)] else map (\<lambda>(k, x). if k = key then (k, v) else (k, x)) m)"

definition sm_insert_all :: "StringMap \<Rightarrow> StringMap \<Rightarrow> StringMap" where
  "sm_insert_all new m = fold (\<lambda>(k, v). sm_insert k v) new m"

section \<open>The parameters of a request\<close>

definition toHex :: "nat \<Rightarrow> char" where
  "toHex num = char_of (if num > 9 then num + 55 else num + 48)"

definition unreserved :: "char \<Rightarrow> bool" where
  "unreserved c \<longleftrightarrow> isalnum c \<or> c \<in> set ''-_.~''"

definition uriEncode :: "string \<Rightarrow> string" where
  "uriEncode str =
     concat (map (\<lambda>c. if unreserved c then [c]
       else [CHR ''%'', toHex (of_char c div 16), toHex (of_char c mod 16)]) str)"

record RequestParameters =
  rp_params :: StringMap
  rp_extraQueryParameter :: string

definition addParam :: "string \<Rightarrow> string \<Rightarrow> RequestParameters \<Rightarrow> RequestParameters" where
  "addParam key v rp = rp\<lparr>rp_params := sm_insert key v (rp_params rp)\<rparr>"

definition rp_get :: "RequestParameters \<Rightarrow> string \<Rightarrow> auth_exn + string" where
  "rp_get rp key =
     (case map_of (rp_params rp) key of
        None \<Rightarrow> Inl (IllegalArgumentException ''operator[]'' []) | Some v \<Rightarrow> Inr v)"

primrec params_text :: "bool \<Rightarrow> StringMap \<Rightarrow> string" where
  "params_text isFirst [] = []"
| "params_text isFirst (pair # ps) =
     (if isFirst then [] else ''&'') @ fst pair @ ''='' @ snd pair @ params_text False ps"

definition rp_toString :: "(StringMap \<Rightarrow> StringMap) \<Rightarrow> RequestParameters \<Rightarrow> string" where
  "rp_toString walk rp = params_text True (walk (rp_params rp))"

definition addClientKey :: "ClientKey \<Rightarrow> RequestParameters \<Rightarrow> RequestParameters" where
  "addClientKey clientKey rp =
     (let rp1 = addParam ''client_id'' (ck_clientId clientKey) rp
      in case ck_credential clientKey of
           Some c \<Rightarrow> addParam ''client_secret'' (uriEncode (cred_clientSecret c)) rp1
         | None \<Rightarrow> rp1)"

definition RequestParameters_create :: "string \<Rightarrow> ClientKey \<Rightarrow> RequestParameters" where
  "RequestParameters_create resource clientKey =
     addClientKey clientKey (addParam ''resource'' resource \<lparr>rp_params = [], rp_extraQueryParameter = []\<rparr>)"

section \<open>Headers\<close>

definition getProductHeaders :: StringMap where
  "getProductHeaders = sm_insert ''x-client-Ver'' ''0.1'' (sm_insert ''x-client-SKU'' ''RMSAuth'' [])"

definition getProcessorArchitecture :: string where "getProcessorArchitecture = ''arm64''"
definition getOSVersion :: string where "getOSVersion = ''HongMeng''"

definition getPlatformHeaders :: StringMap where
  "getPlatformHeaders =
     sm_insert ''x-client-OS'' getOSVersion (sm_insert ''x-client-CPU'' getProcessorArchitecture [])"

definition addCorrelationIdHeadersToRequest :: "guid \<Rightarrow> StringMap \<Rightarrow> StringMap" where
  "addCorrelationIdHeadersToRequest correlationId headers =
     sm_set ''return-client-request-id'' ''true'' (sm_set ''client-request-id'' (guid_toString correlationId) headers)"

section \<open>Requests\<close>

record auth_request =
  aq_url :: string
  aq_headers :: "string list"
  aq_body :: "string option"

datatype auth_reply = NoHandle | CurlError string | Answer int string

text \<open>
  What the requests need of the rest of the world. \<open>ae_released\<close> is what the memory of a string
  holds after the string was destroyed, as a C string; \<open>ae_dialog\<close> is the dialog, if the
  library was built with one, which is told whether to use cookies.
\<close>

record 'n auth_env =
  ae_http :: "'n \<Rightarrow> auth_request \<Rightarrow> auth_reply \<times> 'n"
  ae_released :: "string \<Rightarrow> string"
  ae_walk :: "StringMap \<Rightarrow> StringMap"
  ae_json :: json_lib
  ae_EVP_DecodeBlock :: "byte list \<Rightarrow> byte list option"
  ae_EVP_EncodeBlock :: "byte list \<Rightarrow> byte list"
  ae_dis :: "nat \<Rightarrow> byte"
  ae_now :: int
  ae_junk :: bool
  ae_dialog :: "('n \<Rightarrow> string \<Rightarrow> string \<Rightarrow> bool \<Rightarrow> (auth_exn + string) \<times> 'n) option"

definition header_lines :: "(StringMap \<Rightarrow> StringMap) \<Rightarrow> StringMap \<Rightarrow> string list" where
  "header_lines walk headers = map (\<lambda>(k, v). c_str (k @ '': '' @ v)) (walk headers)"

record ErrorResponse =
  er_error :: string
  er_errorDescription :: string
  er_errorCodes :: "int list"

text \<open>A body that is no JSON text is read as a null, which has no members.\<close>

definition parseResponseError :: "json_lib \<Rightarrow> string \<Rightarrow> auth_exn + ErrorResponse" where
  "parseResponseError lib jsonBody =
     (if jsonBody = []
      then Inr \<lparr>er_error = ''service_returned_error'',
                er_errorDescription = ''Serviced returned error. Check InnerException for more details'', er_errorCodes = []\<rparr>
      else let qobj = (case jl_parse lib jsonBody of Inl w \<Rightarrow> JNull | Inr j \<Rightarrow> j)
           in bindE (getStringOrDefault qobj ''error'' []) (\<lambda>err.
              bindE (getStringOrDefault qobj ''error_description'' []) (\<lambda>desc.
              bindE (getIntArrayOrEmpty qobj ''error_codes'') (\<lambda>codes.
                Inr \<lparr>er_error = err, er_errorDescription = desc, er_errorCodes = codes\<rparr>))))"

definition get_answer :: "json_lib \<Rightarrow> auth_reply \<Rightarrow> auth_exn + string" where
  "get_answer lib reply =
     (case reply of
        NoHandle \<Rightarrow> Inr []
      | CurlError err \<Rightarrow> Inl (RmsauthServiceException err [])
      | Answer response_code readBuffer \<Rightarrow>
          if response_code \<noteq> 200
          then bindE (parseResponseError lib readBuffer) (\<lambda>e.
            if er_error e = ''invalid_instance''
            then Inl (RmsauthServiceException ''authority_not_in_valid_list'' (er_errorDescription e))
            else Inl (RmsauthServiceException ''authority_validation_failed''
                   (''Authority validation failed'' @ ''. '' @ er_error e @ '': '' @ er_errorDescription e)))
          else Inr readBuffer)"

definition jobGet :: "'n auth_env \<Rightarrow> string \<Rightarrow> StringMap \<Rightarrow> guid \<Rightarrow> (auth_exn, 'n, string) sx" where
  "jobGet ae url headers correlationId net =
     (case ae_http ae net \<lparr>aq_url = c_str url,
              aq_headers = header_lines (ae_walk ae) (addCorrelationIdHeadersToRequest correlationId headers),
              aq_body = None\<rparr> of
        (reply, net') \<Rightarrow> (get_answer (ae_json ae) reply, net'))"

definition post_answer :: "json_lib \<Rightarrow> auth_reply \<Rightarrow> auth_exn + string" where
  "post_answer lib reply =
     (case reply of
        NoHandle \<Rightarrow> Inr []
      | CurlError err \<Rightarrow> Inl (RmsauthServiceException (''error: '' @ err) [])
      | Answer response_code readBuffer \<Rightarrow>
          if response_code \<noteq> 200
          then bindE (parseResponseError lib readBuffer) (\<lambda>e.
            Inl (RmsauthServiceException (''HTTP error '' @ show_int response_code @ '': '' @ er_error e @ '' - '' @
              er_errorDescription e) []))
          else Inr readBuffer)"

text \<open>
  libcurl keeps the pointer to the body; the string it points into is gone when the statement
  ends, before the request is made.
\<close>

definition jobPost ::
  "'n auth_env \<Rightarrow> string \<Rightarrow> StringMap \<Rightarrow> RequestParameters \<Rightarrow> guid \<Rightarrow> (auth_exn, 'n, string) sx" where
  "jobPost ae url headers requestParameters correlationId net =
     (case ae_http ae net \<lparr>aq_url = c_str url,
              aq_headers = header_lines (ae_walk ae)
                (if guid_empty correlationId then headers else addCorrelationIdHeadersToRequest correlationId headers),
              aq_body = Some (ae_released ae (rp_toString (ae_walk ae) requestParameters))\<rparr> of
        (reply, net') \<Rightarrow> (post_answer (ae_json ae) reply, net'))"

section \<open>The answers\<close>

definition parse_or :: "json_lib \<Rightarrow> string \<Rightarrow> string \<Rightarrow> auth_exn + json" where
  "parse_or lib msg body =
     (case jl_parse lib body of Inl w \<Rightarrow> Inl (RmsauthException (msg @ w) []) | Inr qobj \<Rightarrow> Inr qobj)"

record TokenResponse =
  tr_tokenType :: string
  tr_accessToken :: string
  tr_refreshToken :: string
  tr_resource :: string
  tr_idToken :: string
  tr_createdOn :: int
  tr_expiresOn :: int
  tr_expiresIn :: int
  tr_correlationId :: string
  tr_error :: string
  tr_errorDescription :: string
  tr_errorCodes :: "int list"

definition deserializeTokenResponse :: "json_lib \<Rightarrow> string \<Rightarrow> auth_exn + TokenResponse" where
  "deserializeTokenResponse lib body =
     bindE (parse_or lib ''deserializeTokenResponse: '' body) (\<lambda>qobj.
     bindE (getStringOrDefault qobj ''token_type'' []) (\<lambda>tokenType.
     bindE (getStringOrDefault qobj ''access_token'' []) (\<lambda>accessToken.
     bindE (getStringOrDefault qobj ''refresh_token'' []) (\<lambda>refreshToken.
     bindE (getStringOrDefault qobj ''resource'' []) (\<lambda>resource.
     bindE (getStringOrDefault qobj ''id_token'' []) (\<lambda>idToken.
     bindE (getStringAsIntOrDefault qobj ''created_on'' 0) (\<lambda>createdOn.
     bindE (getStringAsIntOrDefault qobj ''expires_on'' 0) (\<lambda>expiresOn.
     bindE (getStringAsIntOrDefault qobj ''expires_in'' 0) (\<lambda>expiresIn.
     bindE (getStringOrDefault qobj ''correlation_id'' []) (\<lambda>correlationId.
     bindE (getStringOrDefault qobj ''error'' []) (\<lambda>err.
     bindE (getStringOrDefault qobj ''error_description'' []) (\<lambda>errorDescription.
     bindE (getIntArrayOrEmpty qobj ''error_codes'') (\<lambda>errorCodes.
       Inr \<lparr>tr_tokenType = tokenType, tr_accessToken = accessToken, tr_refreshToken = refreshToken,
            tr_resource = resource, tr_idToken = idToken, tr_createdOn = createdOn, tr_expiresOn = expiresOn,
            tr_expiresIn = expiresIn, tr_correlationId = correlationId, tr_error = err,
            tr_errorDescription = errorDescription, tr_errorCodes = errorCodes\<rparr>)))))))))))))"

definition sendPostRequestAndDeserializeJsonResponseAsync ::
  "'n auth_env \<Rightarrow> string \<Rightarrow> RequestParameters \<Rightarrow> guid \<Rightarrow> (auth_exn, 'n, TokenResponse) sx" where
  "sendPostRequestAndDeserializeJsonResponseAsync ae url requestParameters correlationId =
     bnd (jobPost ae url
            (sm_insert_all (ae_walk ae getProductHeaders) (sm_set ''Content-Type'' ''application/x-www-form-urlencoded'' []))
            requestParameters correlationId)
         (\<lambda>body. liftE (deserializeTokenResponse (ae_json ae) body))"

definition deserializeInstanceDiscoveryResponse :: "json_lib \<Rightarrow> string \<Rightarrow> auth_exn + string" where
  "deserializeInstanceDiscoveryResponse lib body =
     bindE (parse_or lib ''deserializeInstanceDiscoveryResponse fromJson: '' body) (\<lambda>qobj.
       getStringOrDefault qobj ''tenant_discovery_endpoint'' [])"

record UserRealmDiscoveryResponse =
  ur_version :: string
  ur_accountType :: string
  ur_federationProtocol :: string
  ur_federationMetadataUrl :: string
  ur_federationActiveAuthUrl :: string

definition deserializeUserRealmDiscoveryResponse :: "json_lib \<Rightarrow> string \<Rightarrow> auth_exn + UserRealmDiscoveryResponse" where
  "deserializeUserRealmDiscoveryResponse lib body =
     bindE (parse_or lib ''deserializeUserRealmDiscoveryResponse: '' body) (\<lambda>qobj.
     bindE (getStringOrDefault qobj ''ver'' []) (\<lambda>version.
     bindE (getStringOrDefault qobj ''account_type'' []) (\<lambda>accountType.
     bindE (getStringOrDefault qobj ''federation_protocol'' []) (\<lambda>federationProtocol.
     bindE (getStringOrDefault qobj ''federation_metadata_url'' []) (\<lambda>federationMetadataUrl.
     bindE (getStringOrDefault qobj ''federation_active_auth_url'' []) (\<lambda>federationActiveAuthUrl.
       Inr \<lparr>ur_version = version, ur_accountType = accountType, ur_federationProtocol = federationProtocol,
            ur_federationMetadataUrl = federationMetadataUrl, ur_federationActiveAuthUrl = federationActiveAuthUrl\<rparr>))))))"

definition createByDiscoveryAsync ::
  "'n auth_env \<Rightarrow> string \<Rightarrow> string \<Rightarrow> guid \<Rightarrow> (auth_exn, 'n, UserRealmDiscoveryResponse) sx" where
  "createByDiscoveryAsync ae userRealmUri userName correlationId =
     bnd (jobGet ae (userRealmUri @ userName @ ''?api-version=1.0'')
            (sm_set ''Accept'' ''application/json'' (sm_insert_all (ae_walk ae getProductHeaders) getPlatformHeaders)) correlationId)
         (\<lambda>body. liftE (deserializeUserRealmDiscoveryResponse (ae_json ae) body))"

end
