(* ===== verification/Authenticator.thy ===== *)
theory Authenticator
  imports AuthRequest
begin

text \<open>
  Authorities (\<open>rmsauth/Authenticator.cpp\<close>), the templates of their endpoints
  (\<open>AuthenticatorTemplate.cpp\<close>, \<open>AuthenticatorTemplateQt.cpp\<close>) and the hosts that are trusted
  without asking (\<open>AuthenticatorTemplateList.cpp\<close>).
\<close>

section \<open>Templates\<close>

record AuthenticatorTemplate =
  at_host :: string
  at_issuer :: string
  at_authority :: string
  at_instanceDiscoveryEndpoint :: string
  at_authorizeEndpoint :: string
  at_tokenEndpoint :: string
  at_userRealmEndpoint :: string

definition authorizeEndpointTemplate :: string where
  "authorizeEndpointTemplate = ''https://{host}/{tenant}/oauth2/authorize''"

definition HOST :: string where "HOST = ''{host}''"
definition TENANT :: string where "TENANT = ''{tenant}''"

definition createFromHost :: "string \<Rightarrow> auth_exn + AuthenticatorTemplate" where
  "createFromHost host =
     bindE (su_replace ''https://{host}/{tenant}/'' HOST host) (\<lambda>authority.
     bindE (su_replace ''https://{host}/Common/discovery/instance'' HOST host) (\<lambda>instanceDiscovery.
     bindE (su_replace authorizeEndpointTemplate HOST host) (\<lambda>authorize.
     bindE (su_replace ''https://{host}/{tenant}/oauth2/token'' HOST host) (\<lambda>token.
     bindE (su_replace ''https://{host}/Common/UserRealm'' HOST host) (\<lambda>userRealm.
       Inr \<lparr>at_host = host, at_issuer = token, at_authority = authority,
            at_instanceDiscoveryEndpoint = instanceDiscovery, at_authorizeEndpoint = authorize,
            at_tokenEndpoint = token, at_userRealmEndpoint = userRealm\<rparr>)))))"

definition verifyAnotherHostByInstanceDiscoveryAsync ::
  "'n auth_env \<Rightarrow> string \<Rightarrow> string \<Rightarrow> guid \<Rightarrow> AuthenticatorTemplate \<Rightarrow> (auth_exn, 'n, unit) sx" where
  "verifyAnotherHostByInstanceDiscoveryAsync ae host tenant correlationId t =
     bnd (liftE (bindE (su_replace (at_instanceDiscoveryEndpoint t @ ''?api-version=1.0&authorization_endpoint='' @
                    authorizeEndpointTemplate) HOST host) (\<lambda>e. su_replace e TENANT tenant)))
       (\<lambda>instanceDiscoveryEndpoint.
     bnd (jobGet ae instanceDiscoveryEndpoint
            (sm_insert_all (ae_walk ae getProductHeaders) (sm_insert_all (ae_walk ae getPlatformHeaders) [])) correlationId)
       (\<lambda>body.
     bnd (liftE (deserializeInstanceDiscoveryResponse (ae_json ae) body)) (\<lambda>tenantDiscoveryEndpoint.
       if tenantDiscoveryEndpoint = [] then throw (RmsauthException ''authority_not_in_valid_list'' []) else ret ())))"

definition trustedHostList :: "string list" where
  "trustedHostList =
     [''login.windows.net'', ''login.chinacloudapi.cn'', ''login.cloudgovapi.us'', ''login.microsoftonline.com'']"

fun createFromHosts :: "string list \<Rightarrow> auth_exn + AuthenticatorTemplate list" where
  "createFromHosts [] = Inr []"
| "createFromHosts (host # hosts) =
     bindE (createFromHost host) (\<lambda>t. bindE (createFromHosts hosts) (\<lambda>ts. Inr (t # ts)))"

definition authenticatorTemplateList :: "auth_exn + AuthenticatorTemplate list" where
  "authenticatorTemplateList = createFromHosts trustedHostList"

definition findMatchingItemAsync ::
  "'n auth_env \<Rightarrow> bool \<Rightarrow> string \<Rightarrow> string \<Rightarrow> guid \<Rightarrow> (auth_exn, 'n, AuthenticatorTemplate) sx" where
  "findMatchingItemAsync ae validateAuthority host tenant correlationId =
     (if validateAuthority
      then bnd (liftE authenticatorTemplateList) (\<lambda>templates.
             case find (\<lambda>t. at_host t = host) templates of
               Some t \<Rightarrow> ret t
             | None \<Rightarrow>
                 seqx (verifyAnotherHostByInstanceDiscoveryAsync ae host tenant correlationId (templates ! 0))
                   (liftE (createFromHost host)))
      else liftE (createFromHost host))"

section \<open>The authority\<close>

datatype AuthorityType = AAD | ADFS

record Authenticator =
  av_updatedFromTemplate :: bool
  av_validateAuthority :: bool
  av_default :: bool
  av_authority :: string
  av_authorityType :: AuthorityType
  av_isTenantless :: bool
  av_authorizationUri :: string
  av_tokenUri :: string
  av_userRealmUri :: string
  av_selfSignedJwtAudience :: string
  av_correlationId :: guid

definition tenantlessTenantName :: string where
  "tenantlessTenantName = ''Common''"

definition canonicalizeUri :: "string \<Rightarrow> auth_exn + string" where
  "canonicalizeUri uri =
     (if uri = [] then Inr uri
      else bindE (endsWith uri ''/'') (\<lambda>e. Inr (if e then uri else uri @ ''/'')))"

definition isAdfsAuthority :: "string \<Rightarrow> bool" where
  "isAdfsAuthority firstPath \<longleftrightarrow> compareIC firstPath ''adfs'' = 0"

text \<open>\<open>path.substr(1)\<close>, and what of it is before the next separator.\<close>

definition path_tail :: "string \<Rightarrow> auth_exn + string" where
  "path_tail path = (if path = [] then Inl StdOutOfRange else Inr (tl path))"

definition first_segment :: "string \<Rightarrow> string" where
  "first_segment path = takeWhile (\<lambda>c. c \<noteq> CHR ''/'') path"

definition detectAuthorityType :: "string \<Rightarrow> auth_exn + AuthorityType" where
  "detectAuthorityType authority =
     (if authority = [] then Inl (IllegalArgumentException ''authority'' [])
      else if \<not> url_isValid (Url authority)
      then Inl (IllegalArgumentException (CHR 0x27 # ''authority'' @ [CHR 0x27] @ '' should be in Uri format'') authority)
      else if url_scheme (Url authority) \<noteq> ''https''
      then Inl (IllegalArgumentException (CHR 0x27 # ''authority'' @ [CHR 0x27] @ '' should use the '' @ [CHR 0x27] @
             ''https'' @ [CHR 0x27] @ '' scheme'') authority)
      else bindE (path_tail (url_path (Url authority))) (\<lambda>path.
        if path = []
        then Inl (IllegalArgumentException (CHR 0x27 # ''authority'' @ [CHR 0x27] @
               '' Uri should have at least one segment in the path (i.e. https://<host>/<path>/...)'') authority)
        else Inr (if isAdfsAuthority (first_segment path) then ADFS else AAD)))"

text \<open>Nothing sets \<open>isTenantless_\<close> before the first update from a template: \<open>junk\<close>.\<close>

definition Authenticator_create :: "bool \<Rightarrow> string \<Rightarrow> bool \<Rightarrow> auth_exn + Authenticator" where
  "Authenticator_create junk authority validateAuthority =
     bindE (canonicalizeUri authority) (\<lambda>a.
     bindE (detectAuthorityType a) (\<lambda>t.
       if t \<noteq> AAD \<and> validateAuthority
       then Inl (IllegalArgumentException ''Authority validation is not supported for this type of authority'' ''validateAuthority'')
       else Inr \<lparr>av_updatedFromTemplate = False, av_validateAuthority = validateAuthority, av_default = False,
              av_authority = a, av_authorityType = t, av_isTenantless = junk, av_authorizationUri = [], av_tokenUri = [],
              av_userRealmUri = [], av_selfSignedJwtAudience = [], av_correlationId = guid_null\<rparr>))"

definition from_template :: "AuthenticatorTemplate \<Rightarrow> string \<Rightarrow> Authenticator \<Rightarrow> auth_exn + Authenticator" where
  "from_template t tenant a =
     bindE (su_replace (at_authorizeEndpoint t) TENANT tenant) (\<lambda>authorizationUri.
     bindE (su_replace (at_tokenEndpoint t) TENANT tenant) (\<lambda>tokenUri.
     bindE (canonicalizeUri (at_userRealmEndpoint t)) (\<lambda>userRealmUri.
     bindE (su_replace (at_issuer t) TENANT tenant) (\<lambda>audience.
       Inr (a\<lparr>av_authorizationUri := authorizationUri, av_tokenUri := tokenUri, av_userRealmUri := userRealmUri,
              av_isTenantless := (tenant = tenantlessTenantName), av_selfSignedJwtAudience := audience,
              av_updatedFromTemplate := True, av_default := False\<rparr>)))))"

definition updateFromTemplateAsync ::
  "'n auth_env \<Rightarrow> guid \<Rightarrow> Authenticator \<Rightarrow> (auth_exn, 'n, Authenticator) sx" where
  "updateFromTemplateAsync ae correlationId a =
     (if av_updatedFromTemplate a then ret a
      else bnd (liftE (path_tail (url_path (Url (av_authority a))))) (\<lambda>path.
           bnd (findMatchingItemAsync ae (av_validateAuthority a) (url_authority (Url (av_authority a)))
                  (first_segment path) correlationId) (\<lambda>matchingTemplate.
             liftE (from_template matchingTemplate (first_segment path) a))))"

definition replaceTenantlessTenant :: "string \<Rightarrow> string \<Rightarrow> auth_exn + string" where
  "replaceTenantlessTenant authority tenantId = su_replace authority tenantlessTenantName tenantId"

definition updateTenantId :: "string \<Rightarrow> Authenticator \<Rightarrow> auth_exn + Authenticator" where
  "updateTenantId tenantId a =
     (if av_isTenantless a \<and> tenantId \<noteq> []
      then bindE (replaceTenantlessTenant (av_authority a) tenantId) (\<lambda>authority.
             Inr (a\<lparr>av_authority := authority, av_updatedFromTemplate := False\<rparr>))
      else Inr a)"

end
