(* ===== verification/OAuth2.thy ===== *)
theory OAuth2
  imports AuthRequest
begin

text \<open>
  What the endpoints of an authority answer (\<open>rmsauth/OAuth2ResponseQt.cpp\<close>): a token, the
  user of its id token, and the address the dialog ends at.
\<close>

section \<open>The id token\<close>

record IdToken =
  id_objectId :: string
  id_subject :: string
  id_tenantId :: string
  id_UPN :: string
  id_givenName :: string
  id_familyName :: string
  id_email :: string
  id_passwordExpiration :: int
  id_passwordChangeUrl :: string
  id_identityProvider :: string
  id_issuer :: string

definition read_IdToken :: "json \<Rightarrow> auth_exn + IdToken" where
  "read_IdToken qobj =
     bindE (getStringOrDefault qobj ''oid'' []) (\<lambda>objectId.
     bindE (getStringOrDefault qobj ''sub'' []) (\<lambda>subject.
     bindE (getStringOrDefault qobj ''tid'' []) (\<lambda>tenantId.
     bindE (getStringOrDefault qobj ''upn'' []) (\<lambda>UPN.
     bindE (getStringOrDefault qobj ''given_name'' []) (\<lambda>givenName.
     bindE (getStringOrDefault qobj ''family_name'' []) (\<lambda>familyName.
     bindE (getStringOrDefault qobj ''email'' []) (\<lambda>email.
     bindE (getStringOrDefault qobj ''pwd_url'' []) (\<lambda>passwordChangeUrl.
     bindE (getStringOrDefault qobj ''idp'' []) (\<lambda>identityProvider.
     bindE (getStringOrDefault qobj ''iss'' []) (\<lambda>issuer.
     bindE (getStringAsIntOrDefault qobj ''pwd_exp'' 0) (\<lambda>passwordExpiration.
       Inr \<lparr>id_objectId = objectId, id_subject = subject, id_tenantId = tenantId, id_UPN = UPN,
            id_givenName = givenName, id_familyName = familyName, id_email = email,
            id_passwordExpiration = passwordExpiration, id_passwordChangeUrl = passwordChangeUrl,
            id_identityProvider = identityProvider, id_issuer = issuer\<rparr>)))))))))))"

definition parseIdToken ::
  "json_lib \<Rightarrow> (byte list \<Rightarrow> byte list option) \<Rightarrow> string \<Rightarrow> auth_exn + IdToken option" where
  "parseIdToken lib EVP_DecodeBlock idToken =
     (if idToken = [] then Inr None
      else bindE (su_split idToken (CHR ''.'')) (\<lambda>idTokenSegments.
        if length idTokenSegments \<noteq> 3 then Inl (RmsauthException ''idTokenSegments.size() != 3'' [])
        else bindE (su_base64Decode EVP_DecodeBlock (idTokenSegments ! 1)) (\<lambda>jsonString.
             bindE (parse_or lib ''deserializeTokenResponse: '' jsonString) (\<lambda>qobj.
             bindE (read_IdToken qobj) (\<lambda>t. Inr (Some t))))))"

definition user_of_token :: "int \<Rightarrow> IdToken \<Rightarrow> UserInfo" where
  "user_of_token now t = UserInfo_create
     \<lparr>ui_uniqueId := (if id_objectId t \<noteq> [] then id_objectId t else id_subject t),
      ui_displayableId := (if id_UPN t \<noteq> [] then id_UPN t else id_email t),
      ui_givenName := id_givenName t, ui_familyName := id_familyName t,
      ui_identityProvider := (if id_identityProvider t = [] then id_issuer t else id_identityProvider t),
      ui_passwordExpiresOn := (if id_passwordExpiration t > 0 then now + id_passwordExpiration t else 0),
      ui_passwordChangeUrl := id_passwordChangeUrl t\<rparr>"

section \<open>The token\<close>

definition parseTokenResponse ::
  "json_lib \<Rightarrow> (byte list \<Rightarrow> byte list option) \<Rightarrow> int \<Rightarrow> bool \<Rightarrow> TokenResponse \<Rightarrow> auth_exn + AuthenticationResult" where
  "parseTokenResponse lib EVP_DecodeBlock now junk tokenResponse =
     (if tr_accessToken tokenResponse \<noteq> []
      then let result = (AuthenticationResult_create junk (tr_tokenType tokenResponse) (tr_accessToken tokenResponse)
                 (tr_refreshToken tokenResponse) (now + tr_expiresIn tokenResponse))
                 \<lparr>ar_resource := tr_resource tokenResponse,
                  ar_isMultipleResourceRefreshToken :=
                    (tr_refreshToken tokenResponse \<noteq> [] \<and> tr_resource tokenResponse \<noteq> [])\<rparr>
           in bindE (parseIdToken lib EVP_DecodeBlock (tr_idToken tokenResponse)) (\<lambda>idToken.
              Inr (case idToken of
                     None \<Rightarrow> result
                   | Some t \<Rightarrow> updateTenantAndUserInfo (id_tenantId t) (tr_idToken tokenResponse) (Some (user_of_token now t)) result))
      else if tr_error tokenResponse \<noteq> [] then Inl (RmsauthException (tr_error tokenResponse) (tr_errorDescription tokenResponse))
      else Inl (RmsauthException ''unknown_error'' []))"

section \<open>The end of the dialog\<close>

datatype AuthorizationResult = AuthSuccess string | AuthFailed string string

text \<open>\<open>regex_search\<close> for \<open>key=([^&#]+)\<close>: the first place where something follows the sign.\<close>

fun search_value :: "string \<Rightarrow> string \<Rightarrow> string option" where
  "search_value key [] = None"
| "search_value key (c # r) =
     (let v = takeWhile (\<lambda>d. d \<notin> set ''&#'') (drop (length key + 1) (c # r))
      in if take (length key + 1) (c # r) = key @ ''='' \<and> v \<noteq> [] then Some v else search_value key r)"

definition parseAuthorizeResponse :: "string \<Rightarrow> AuthorizationResult option" where
  "parseAuthorizeResponse webAuthenticationResult =
     (if CHR ''?'' \<in> set webAuthenticationResult
      then Some (case search_value ''code'' webAuthenticationResult of
             Some code \<Rightarrow> AuthSuccess code
           | None \<Rightarrow>
               (case search_value ''error'' webAuthenticationResult of
                  Some err \<Rightarrow> AuthFailed err
                    (replaceAll_char (case search_value ''error_description'' webAuthenticationResult of Some d \<Rightarrow> d | None \<Rightarrow> [])
                      (CHR ''+'') (CHR '' ''))
                | None \<Rightarrow> AuthFailed ''authentication_failed'' ''The authorization server returned an invalid response''))
      else None)"

end
