(* ===== verification/AcquireToken.thy ===== *)
theory AcquireToken
  imports Authenticator OAuth2 TokenCache
begin

text \<open>
  Acquiring a token (\<open>rmsauth/AcquireTokenHandlerBase.cpp\<close>, \<open>AcquireTokenInteractiveHandler.cpp\<close>,
  \<open>AcquireTokenNonInteractiveHandler.cpp\<close>, \<open>AcquireTokenForClientHandler.cpp\<close>) and the context
  an application uses (\<open>AuthenticationContext.cpp\<close>). A handler lives for one call; the
  authenticator and the cache are shared by the calls of a context.
\<close>

section \<open>Handlers\<close>

datatype PromptBehavior = PromptAuto | PromptAlways | PromptNever | PromptRefreshSession

record interactive =
  in_redirectUri :: string
  in_redirectUriRequestParameter :: string
  in_promptBehavior :: PromptBehavior
  in_extraQueryParameters :: string
  in_userId :: UserIdentifier
  in_userIdentifierType :: UserIdentifierType
  in_authorizationResult :: "AuthorizationResult option"

datatype flow = Interactive interactive | WithCredential UserCredential | WithAssertion UserAssertion | ForClient

record handler =
  hd_resource :: string
  hd_clientKey :: ClientKey
  hd_tokenSubjectType :: TokenSubjectType
  hd_loadFromCache :: bool
  hd_storeToCache :: bool
  hd_supportADFS :: bool
  hd_correlationId :: guid
  hd_uniqueId :: string
  hd_displayableId :: string
  hd_flow :: flow

definition createCallState :: "'n auth_env \<Rightarrow> guid \<Rightarrow> guid" where
  "createCallState ae correlationId = (if guid_empty correlationId then guid_new (ae_dis ae) else correlationId)"

definition AcquireTokenHandlerBase_create ::
  "'n auth_env \<Rightarrow> Authenticator \<Rightarrow> bool \<Rightarrow> string \<Rightarrow> ClientKey \<Rightarrow> TokenSubjectType \<Rightarrow> flow \<Rightarrow> auth_exn + handler" where
  "AcquireTokenHandlerBase_create ae authenticator has_cache resource clientKey subjectType flow =
     (if resource = [] then Inl (IllegalArgumentException ''resource'' [])
      else Inr \<lparr>hd_resource = resource, hd_clientKey = clientKey, hd_tokenSubjectType = subjectType,
             hd_loadFromCache = has_cache, hd_storeToCache = has_cache, hd_supportADFS = False,
             hd_correlationId = createCallState ae (av_correlationId authenticator), hd_uniqueId = [],
             hd_displayableId = [], hd_flow = flow\<rparr>)"

text \<open>The copy of the extra parameters without a leading ampersand is overwritten by one with it.\<close>

definition AcquireTokenInteractiveHandler_create ::
  "'n auth_env \<Rightarrow> Authenticator \<Rightarrow> bool \<Rightarrow> string \<Rightarrow> string \<Rightarrow> string \<Rightarrow> PromptBehavior \<Rightarrow> UserIdentifier option \<Rightarrow>
   string \<Rightarrow> auth_exn + handler" where
  "AcquireTokenInteractiveHandler_create ae authenticator has_cache resource clientId redirectUri promptBehavior userId
       extraQueryParameters =
     bindE (ClientKey_create clientId) (\<lambda>clientKey.
     bindE (AcquireTokenHandlerBase_create ae authenticator has_cache resource clientKey SubjectUser ForClient) (\<lambda>h.
       if redirectUri = [] then Inl (PointerThrown (IllegalArgumentException ''redirectUri'' []))
       else if url_fragment (Url redirectUri) \<noteq> []
       then Inl (PointerThrown (IllegalArgumentException (CHR 0x27 # ''redirectUri'' @ [CHR 0x27] @
              '' must NOT include a fragment component'') ''redirectUri''))
       else case userId of
              None \<Rightarrow> Inl (PointerThrown (IllegalArgumentException ''userId''
                (''If you do not need access token for any specific user, pass userId=UserIdentifier::anyUser() '' @
                 ''instead of userId=null.'')))
            | Some u \<Rightarrow>
                Inr (h\<lparr>hd_uniqueId := uid_uniqueId u, hd_displayableId := uid_displayableId u,
                       hd_loadFromCache := has_cache \<and> promptBehavior \<noteq> PromptAlways \<and> promptBehavior \<noteq> PromptRefreshSession,
                       hd_supportADFS := True,
                       hd_flow := Interactive \<lparr>in_redirectUri = redirectUri, in_redirectUriRequestParameter = redirectUri,
                         in_promptBehavior = promptBehavior, in_extraQueryParameters = extraQueryParameters, in_userId = u,
                         in_userIdentifierType = uid_type u, in_authorizationResult = None\<rparr>\<rparr>)))"

definition AcquireTokenNonInteractiveHandler_create ::
  "'n auth_env \<Rightarrow> Authenticator \<Rightarrow> bool \<Rightarrow> string \<Rightarrow> string \<Rightarrow> UserCredential option \<Rightarrow> auth_exn + handler" where
  "AcquireTokenNonInteractiveHandler_create ae authenticator has_cache resource clientId userCredential =
     bindE (ClientKey_create clientId) (\<lambda>clientKey.
     bindE (AcquireTokenHandlerBase_create ae authenticator has_cache resource clientKey SubjectUser ForClient) (\<lambda>h.
       case userCredential of None \<Rightarrow> Inl (RmsauthException ''userCredential'' ''the value is null'')
       | Some c \<Rightarrow> Inr (h\<lparr>hd_flow := WithCredential c\<rparr>)))"

definition AcquireTokenNonInteractiveHandler_assertion ::
  "'n auth_env \<Rightarrow> Authenticator \<Rightarrow> bool \<Rightarrow> string \<Rightarrow> string \<Rightarrow> UserAssertion option \<Rightarrow> auth_exn + handler" where
  "AcquireTokenNonInteractiveHandler_assertion ae authenticator has_cache resource clientId userAssertion =
     bindE (ClientKey_create clientId) (\<lambda>clientKey.
     bindE (AcquireTokenHandlerBase_create ae authenticator has_cache resource clientKey SubjectUser ForClient) (\<lambda>h.
       case userAssertion of None \<Rightarrow> Inl (RmsauthException ''userAssertion'' ''the value is null'')
       | Some a \<Rightarrow> Inr (h\<lparr>hd_flow := WithAssertion a\<rparr>)))"

definition AcquireTokenForClientHandler_create ::
  "'n auth_env \<Rightarrow> Authenticator \<Rightarrow> bool \<Rightarrow> string \<Rightarrow> ClientKey \<Rightarrow> auth_exn + handler" where
  "AcquireTokenForClientHandler_create ae authenticator has_cache resource clientKey =
     bindE (AcquireTokenHandlerBase_create ae authenticator has_cache resource clientKey SubjectClient ForClient) (\<lambda>h.
       Inr (h\<lparr>hd_supportADFS := True\<rparr>))"

section \<open>The state of a call\<close>

text \<open>\<open>aw_notified\<close> is the variable \<open>notifiedBeforeAccessCache\<close> of the call.\<close>

record ('n, 'k) auth_world =
  aw_authenticator :: Authenticator
  aw_cache :: "'k token_state"
  aw_net :: 'n
  aw_notified :: bool

definition au_net :: "(auth_exn, 'n, 'a) sx \<Rightarrow> (auth_exn, ('n, 'k) auth_world, 'a) sx" where
  "au_net = zoom aw_net (\<lambda>n w. w\<lparr>aw_net := n\<rparr>)"

definition au_cache :: "(auth_exn, 'k token_state, 'a) sx \<Rightarrow> (auth_exn, ('n, 'k) auth_world, 'a) sx" where
  "au_cache = zoom aw_cache (\<lambda>c w. w\<lparr>aw_cache := c\<rparr>)"

definition au_result :: "nat \<Rightarrow> ('n, 'k) auth_world \<Rightarrow> AuthenticationResult" where
  "au_result a w = ts_objects (aw_cache w) a"

definition au_new_result :: "AuthenticationResult \<Rightarrow> (auth_exn, ('n, 'k) auth_world, nat) sx" where
  "au_new_result r = au_cache (\<lambda>s. case new_result r s of (a, s') \<Rightarrow> (Inr a, s'))"

definition au_updateFromTemplate :: "'n auth_env \<Rightarrow> guid \<Rightarrow> (auth_exn, ('n, 'k) auth_world, unit) sx" where
  "au_updateFromTemplate ae correlationId =
     bnd (gets aw_authenticator) (\<lambda>a.
     bnd (au_net (updateFromTemplateAsync ae correlationId a)) (\<lambda>a'. modify (\<lambda>w. w\<lparr>aw_authenticator := a'\<rparr>)))"

definition au_updateTenantId :: "string \<Rightarrow> (auth_exn, ('n, 'k) auth_world, unit) sx" where
  "au_updateTenantId tenantId =
     bnd (gets aw_authenticator) (\<lambda>a. bnd (liftE (updateTenantId tenantId a)) (\<lambda>a'. modify (\<lambda>w. w\<lparr>aw_authenticator := a'\<rparr>)))"

section \<open>The authorization\<close>

definition promptValue :: "PromptBehavior \<Rightarrow> string option" where
  "promptValue p =
     (case p of PromptAlways \<Rightarrow> Some ''login'' | PromptRefreshSession \<Rightarrow> Some ''refresh_session''
      | PromptNever \<Rightarrow> Some ''attempt_none'' | PromptAuto \<Rightarrow> None)"

definition addHeadersToRequestParameters :: "StringMap \<Rightarrow> RequestParameters \<Rightarrow> RequestParameters" where
  "addHeadersToRequestParameters headers rp = fold (\<lambda>(k, v). addParam k v) headers rp"

definition createAuthorizationRequest ::
  "(StringMap \<Rightarrow> StringMap) \<Rightarrow> handler \<Rightarrow> interactive \<Rightarrow> string \<Rightarrow> bool \<Rightarrow> RequestParameters" where
  "createAuthorizationRequest walk h i loginHint includeFormsAuthParam =
     (let p0 = addParam ''redirect_uri'' (in_redirectUriRequestParameter i)
            (addParam ''response_type'' ''code'' (RequestParameters_create (hd_resource h) (hd_clientKey h)));
          p1 = (if loginHint \<noteq> [] then addParam ''login_hint'' loginHint p0 else p0);
          p2 = (if \<not> guid_empty (hd_correlationId h)
                then addParam ''client-request-id'' (guid_toString (hd_correlationId h)) p1 else p1);
          p3 = (case promptValue (in_promptBehavior i) of Some v \<Rightarrow> addParam ''prompt'' v p2 | None \<Rightarrow> p2);
          p4 = (if includeFormsAuthParam then addParam ''amr_values'' ''pwd'' p3 else p3);
          p5 = addHeadersToRequestParameters (walk getPlatformHeaders)
                 (addHeadersToRequestParameters (walk getProductHeaders) p4)
      in if in_extraQueryParameters i \<noteq> [] then p5\<lparr>rp_extraQueryParameter := in_extraQueryParameters i\<rparr> else p5)"

definition createAuthorizationUri ::
  "(StringMap \<Rightarrow> StringMap) \<Rightarrow> Authenticator \<Rightarrow> handler \<Rightarrow> interactive \<Rightarrow> bool \<Rightarrow> string" where
  "createAuthorizationUri walk a h i includeFormsAuthParam =
     (let loginHint = (if \<not> isAnyUser (in_userId i) \<and>
                (uid_type (in_userId i) = OptionalDisplayableId \<or> uid_type (in_userId i) = RequiredDisplayableId)
                then uid_id (in_userId i) else [])
      in av_authorizationUri a @ ''?'' @ rp_toString walk (createAuthorizationRequest walk h i loginHint includeFormsAuthParam))"

definition isDomainJoined :: bool where "isDomainJoined = False"
definition isUserLocal :: bool where "isUserLocal = True"
definition includeFormsAuthParams :: bool where "includeFormsAuthParams = (isUserLocal \<and> isDomainJoined)"

text \<open>Built without the dialog, \<open>authenticate\<close> returns an empty string.\<close>

definition WebUI_authenticate ::
  "'n auth_env \<Rightarrow> PromptBehavior \<Rightarrow> string \<Rightarrow> string \<Rightarrow> (auth_exn, 'n, string) sx" where
  "WebUI_authenticate ae promptBehavior requestUri callbackUri net =
     (case ae_dialog ae of None \<Rightarrow> (Inr [], net)
      | Some dialog \<Rightarrow> dialog net requestUri callbackUri (promptBehavior \<noteq> PromptAlways))"

definition sendAuthorizeRequest ::
  "'n auth_env \<Rightarrow> handler \<Rightarrow> interactive \<Rightarrow> (auth_exn, ('n, 'k) auth_world, AuthorizationResult option) sx" where
  "sendAuthorizeRequest ae h i =
     bnd (gets aw_authenticator) (\<lambda>a.
     bnd (au_net (WebUI_authenticate ae (in_promptBehavior i) (createAuthorizationUri (ae_walk ae) a h i includeFormsAuthParams)
            (in_redirectUri i)))
       (\<lambda>resultUri. ret (parseAuthorizeResponse resultUri)))"

definition authorization_error :: "AuthorizationResult \<Rightarrow> string" where
  "authorization_error r = (case r of AuthSuccess code \<Rightarrow> [] | AuthFailed err desc \<Rightarrow> err)"

definition verifyAuthorizationResult :: "PromptBehavior \<Rightarrow> AuthorizationResult option \<Rightarrow> auth_exn + unit" where
  "verifyAuthorizationResult promptBehavior authorizationResult =
     (if promptBehavior = PromptNever \<and> authorizationResult = None then Inl NullPointer
      else if promptBehavior = PromptNever \<and> map_option authorization_error authorizationResult = Some ''login_required''
      then Inl (RmsauthException ''user_interaction_required'' [])
      else case authorizationResult of
             None \<Rightarrow> Inl (RmsauthServiceException ''ResultNull'' ''get result null!'')
           | Some (AuthFailed err desc) \<Rightarrow> Inl (RmsauthServiceException err desc)
           | Some (AuthSuccess code) \<Rightarrow> Inr ())"

section \<open>What the handlers override\<close>

definition validateAuthorityType :: "handler \<Rightarrow> Authenticator \<Rightarrow> auth_exn + unit" where
  "validateAuthorityType h a =
     (if \<not> hd_supportADFS h \<and> av_authorityType a = ADFS
      then Inl (RmsauthException (''invalid_authority_type'' @ '', '' @ ''This method overload is not supported by '' @
             av_authority a) [])
      else Inr ())"

definition preRunAsync :: "'n auth_env \<Rightarrow> handler \<Rightarrow> (auth_exn, ('n, 'k) auth_world, handler) sx" where
  "preRunAsync ae h =
     seqx (au_updateFromTemplate ae (hd_correlationId h))
     (bnd (gets aw_authenticator) (\<lambda>a. bnd (liftE (validateAuthorityType h a)) (\<lambda>_.
       (case hd_flow h of
          WithCredential c \<Rightarrow>
            if uc_userName c = [] then throw (RmsauthException ''userCredential_->userName()'' ''the value is empty'')
            else ret (h\<lparr>hd_displayableId := uc_userName c\<rparr>)
        | WithAssertion u \<Rightarrow> ret (h\<lparr>hd_displayableId := ua_userName u\<rparr>)
        | _ \<Rightarrow> ret h))))"

definition check_realm :: "UserCredential \<Rightarrow> UserRealmDiscoveryResponse \<Rightarrow> auth_exn + unit" where
  "check_realm c userRealmResponse =
     (if compareIC (ur_accountType userRealmResponse) ''federated'' = 0
      then if ur_federationMetadataUrl userRealmResponse = []
           then Inl (RmsauthException ''missing_federation_metadata_url'' [])
           else Inl (RmsauthException ''Not implemented'' [])
      else if compareIC (ur_accountType userRealmResponse) ''managed'' = 0
      then if uc_password c = [] then Inl (RmsauthException ''password_required_for_managed_user'' []) else Inr ()
      else Inl (RmsauthException ''unknown_user_type'' []))"

definition preTokenRequest :: "'n auth_env \<Rightarrow> handler \<Rightarrow> (auth_exn, ('n, 'k) auth_world, handler) sx" where
  "preTokenRequest ae h =
     (case hd_flow h of
        Interactive i \<Rightarrow>
          bnd (sendAuthorizeRequest ae h i) (\<lambda>r.
          bnd (liftE (verifyAuthorizationResult (in_promptBehavior i) r)) (\<lambda>_.
            ret (h\<lparr>hd_flow := Interactive (i\<lparr>in_authorizationResult := r\<rparr>)\<rparr>)))
      | WithCredential c \<Rightarrow>
          bnd (gets aw_authenticator) (\<lambda>a.
          bnd (au_net (createByDiscoveryAsync ae (av_userRealmUri a) (uc_userName c) (hd_correlationId h))) (\<lambda>userRealmResponse.
          bnd (liftE (check_realm c userRealmResponse)) (\<lambda>_. ret h)))
      | _ \<Rightarrow> ret h)"

definition addAdditionalRequestParameters ::
  "'n auth_env \<Rightarrow> flow \<Rightarrow> RequestParameters \<Rightarrow> auth_exn + RequestParameters" where
  "addAdditionalRequestParameters ae f rp =
     (case f of
        Interactive i \<Rightarrow>
          (case in_authorizationResult i of
             None \<Rightarrow> Inl NullPointer
           | Some r \<Rightarrow>
               Inr (addParam ''redirect_uri'' (in_redirectUriRequestParameter i)
                 (addParam ''code'' (case r of AuthSuccess code \<Rightarrow> code | AuthFailed err desc \<Rightarrow> [])
                   (addParam ''grant_type'' ''authorization_code'' rp))))
      | WithAssertion u \<Rightarrow>
          Inr (addParam ''scope'' ''openid''
            (addParam ''assertion'' (su_base64Encode (ae_EVP_EncodeBlock ae) (ua_assertion u))
              (addParam ''grant_type'' (ua_assertionType u) rp)))
      | WithCredential c \<Rightarrow>
          Inr (addParam ''scope'' ''openid'' (addParam ''password'' (uc_password c)
            (addParam ''username'' (uc_userName c) (addParam ''grant_type'' ''password'' rp))))
      | ForClient \<Rightarrow> Inr (addParam ''grant_type'' ''client_credentials'' rp))"

definition sendHttpMessageAsync ::
  "'n auth_env \<Rightarrow> handler \<Rightarrow> RequestParameters \<Rightarrow> (auth_exn, ('n, 'k) auth_world, nat) sx" where
  "sendHttpMessageAsync ae h requestParameters =
     bnd (gets aw_authenticator) (\<lambda>a.
     bnd (au_net (sendPostRequestAndDeserializeJsonResponseAsync ae (av_tokenUri a) requestParameters (hd_correlationId h)))
       (\<lambda>tokenResponse.
     bnd (liftE (parseTokenResponse (ae_json ae) (ae_EVP_DecodeBlock ae) (ae_now ae) (ae_junk ae) tokenResponse)) au_new_result))"

definition sendTokenRequestAsync :: "'n auth_env \<Rightarrow> handler \<Rightarrow> (auth_exn, ('n, 'k) auth_world, nat) sx" where
  "sendTokenRequestAsync ae h =
     bnd (liftE (addAdditionalRequestParameters ae (hd_flow h) (RequestParameters_create (hd_resource h) (hd_clientKey h))))
       (sendHttpMessageAsync ae h)"

text \<open>The unique id that is asked for is compared with itself.\<close>

definition check_user :: "handler \<Rightarrow> interactive \<Rightarrow> UserInfo option \<Rightarrow> auth_exn + unit" where
  "check_user h i userInfo =
     (if (hd_displayableId h = [] \<and> hd_uniqueId h = []) \<or> in_userIdentifierType i = OptionalDisplayableId then Inr ()
      else let uniqueId = (case userInfo of Some u \<Rightarrow> if ui_uniqueId u \<noteq> [] then ui_uniqueId u else ''NULL'' | None \<Rightarrow> ''NULL'');
               displayableId = (case userInfo of Some u \<Rightarrow> ui_displayableId u | None \<Rightarrow> ''NULL'')
           in if in_userIdentifierType i = UniqueId \<and> hd_uniqueId h \<noteq> hd_uniqueId h
              then Inl (RmsauthUserMismatchException (hd_uniqueId h) uniqueId)
              else if in_userIdentifierType i = RequiredDisplayableId \<and> displayableId \<noteq> hd_displayableId h
              then Inl (RmsauthUserMismatchException (hd_displayableId h) displayableId)
              else Inr ())"

definition postTokenRequest :: "handler \<Rightarrow> nat \<Rightarrow> (auth_exn, ('n, 'k) auth_world, unit) sx" where
  "postTokenRequest h result =
     bnd (gets (au_result result)) (\<lambda>r.
     seqx (au_updateTenantId (ar_tenantId r))
       (case hd_flow h of Interactive i \<Rightarrow> liftE (check_user h i (ar_userInfo r)) | _ \<Rightarrow> ret ()))"

section \<open>Refreshing a token\<close>

definition sendTokenRequestByRefreshTokenAsync ::
  "'n auth_env \<Rightarrow> handler \<Rightarrow> string \<Rightarrow> (auth_exn, ('n, 'k) auth_world, nat) sx" where
  "sendTokenRequestByRefreshTokenAsync ae h refreshToken =
     bnd (sendHttpMessageAsync ae h (addParam ''refresh_token'' refreshToken (addParam ''grant_type'' ''refresh_token''
            (RequestParameters_create (hd_resource h) (hd_clientKey h))))) (\<lambda>result.
     bnd (gets (au_result result)) (\<lambda>r.
       if ar_refreshToken r = []
       then seqx (au_cache (modify (update_result result (\<lambda>r. r\<lparr>ar_refreshToken := refreshToken\<rparr>)))) (ret result)
       else ret result))"

fun is_service :: "auth_exn \<Rightarrow> bool" where
  "is_service (RmsauthServiceException _ _) = True"
| "is_service _ = False"

fun exn_error :: "auth_exn \<Rightarrow> string" where
  "exn_error (RmsauthException e m) = e"
| "exn_error (RmsauthServiceException e m) = e"
| "exn_error (RmsauthUserMismatchException e m) = e"
| "exn_error (RmsauthParsingException e m) = e"
| "exn_error (RmsauthJsonParsingException e m) = e"
| "exn_error (IllegalArgumentException e m) = e"
| "exn_error _ = []"

fun exn_message :: "auth_exn \<Rightarrow> string" where
  "exn_message (RmsauthException e m) = m"
| "exn_message (RmsauthServiceException e m) = m"
| "exn_message (RmsauthUserMismatchException e m) = m"
| "exn_message (RmsauthParsingException e m) = m"
| "exn_message (RmsauthJsonParsingException e m) = m"
| "exn_message (IllegalArgumentException e m) = m"
| "exn_message _ = []"

definition refresh_failed :: "auth_exn \<Rightarrow> (auth_exn, ('n, 'k) auth_world, nat option) sx" where
  "refresh_failed e =
     (if is_service e
      then if equalsIC (exn_error e) ''invalid_request''
           then throw (RmsauthServiceException ''failed_to_refresh_token'' (''Failed to refresh token'' @ ''. '' @ exn_message e))
           else ret None
      else if is_rmsauth e then ret None
      else throw e)"

definition refreshAccessTokenAsync ::
  "'n auth_env \<Rightarrow> handler \<Rightarrow> nat \<Rightarrow> (auth_exn, ('n, 'k) auth_world, nat option) sx" where
  "refreshAccessTokenAsync ae h result =
     (if hd_resource h = [] then ret None
      else catchx
        (bnd (gets (au_result result)) (\<lambda>r.
         bnd (sendTokenRequestByRefreshTokenAsync ae h (ar_refreshToken r)) (\<lambda>newResult.
         bnd (gets (au_result result)) (\<lambda>r'.
         seqx (au_updateTenantId (ar_tenantId r'))
         (bnd (gets (au_result newResult)) (\<lambda>n.
           if ar_idToken n = []
           then seqx (au_cache (modify (update_result newResult
                  (updateTenantAndUserInfo (ar_tenantId r') (ar_idToken r') (ar_userInfo r'))))) (ret (Some newResult))
           else ret (Some newResult)))))))
        refresh_failed)"

section \<open>A call\<close>

definition au_load :: "'n auth_env \<Rightarrow> handler \<Rightarrow> (auth_exn, ('n, 'k) auth_world, nat option) sx" where
  "au_load ae h =
     bnd (gets aw_authenticator) (\<lambda>a.
     au_cache (\<lambda>s. case loadFromCache (currentDateTime (ae_now ae)) (av_authority a) (hd_resource h)
            (ck_clientId (hd_clientKey h)) (hd_tokenSubjectType h) (hd_uniqueId h) s of (r, s') \<Rightarrow> (Inr r, s')))"

definition au_store ::
  "(entry list \<Rightarrow> entry \<Rightarrow> entry list) \<Rightarrow> 'k cache_class \<Rightarrow> handler \<Rightarrow> nat \<Rightarrow> (auth_exn, ('n, 'k) auth_world, unit) sx" where
  "au_store add v h result =
     bnd (gets aw_authenticator) (\<lambda>a.
     au_cache (storeToCache add v result (av_authority a) (hd_resource h) (ck_clientId (hd_clientKey h)) (hd_tokenSubjectType h)))"

definition notifyBeforeAccessCache :: "'k cache_class \<Rightarrow> (auth_exn, ('n, 'k) auth_world, unit) sx" where
  "notifyBeforeAccessCache v =
     seqx (au_cache (cc_onBeforeAccess v)) (modify (\<lambda>w. w\<lparr>aw_notified := True\<rparr>))"

definition notifyAfterAccessCache :: "'k cache_class \<Rightarrow> (auth_exn, ('n, 'k) auth_world, unit) sx" where
  "notifyAfterAccessCache v =
     bnd (gets aw_notified) (\<lambda>n. if n then au_cache (cc_onAfterAccess v) else ret ())"

definition run_cached ::
  "(entry list \<Rightarrow> entry \<Rightarrow> entry list) \<Rightarrow> 'k cache_class \<Rightarrow> 'n auth_env \<Rightarrow> handler \<Rightarrow>
   (auth_exn, ('n, 'k) auth_world, nat option) sx" where
  "run_cached add v ae h =
     (if hd_loadFromCache h
      then seqx (notifyBeforeAccessCache v)
        (bnd (au_load ae h) (\<lambda>loaded.
           case loaded of
             None \<Rightarrow> ret None
           | Some result \<Rightarrow>
               bnd (gets (au_result result)) (\<lambda>r.
                 if ar_accessToken r = [] \<and> ar_refreshToken r \<noteq> []
                 then bnd (refreshAccessTokenAsync ae h result) (\<lambda>refreshed.
                   case refreshed of None \<Rightarrow> ret None
                   | Some newResult \<Rightarrow> seqx (au_store add v h newResult) (ret (Some newResult)))
                 else ret (Some result))))
      else ret None)"

definition run_requested ::
  "(entry list \<Rightarrow> entry \<Rightarrow> entry list) \<Rightarrow> 'k cache_class \<Rightarrow> 'n auth_env \<Rightarrow> handler \<Rightarrow>
   (auth_exn, ('n, 'k) auth_world, nat) sx" where
  "run_requested add v ae h =
     bnd (preTokenRequest ae h) (\<lambda>h'.
     bnd (sendTokenRequestAsync ae h') (\<lambda>result.
     seqx (postTokenRequest h' result)
     (seqx (if hd_storeToCache h'
            then seqx (bnd (gets aw_notified) (\<lambda>n. if n then ret () else notifyBeforeAccessCache v)) (au_store add v h' result)
            else ret ())
       (ret result))))"

definition run_body ::
  "(entry list \<Rightarrow> entry \<Rightarrow> entry list) \<Rightarrow> 'k cache_class \<Rightarrow> 'n auth_env \<Rightarrow> handler \<Rightarrow>
   (auth_exn, ('n, 'k) auth_world, nat) sx" where
  "run_body add v ae h =
     bnd (preRunAsync ae h) (\<lambda>h'.
     bnd (run_cached add v ae h') (\<lambda>cached.
     bnd (case cached of Some result \<Rightarrow> ret result | None \<Rightarrow> run_requested add v ae h') (\<lambda>result.
     seqx (notifyAfterAccessCache v) (ret result))))"

text \<open>Only the exceptions of the library are caught; the others pass without the notification.\<close>

definition runAsync ::
  "(entry list \<Rightarrow> entry \<Rightarrow> entry list) \<Rightarrow> 'k cache_class \<Rightarrow> 'n auth_env \<Rightarrow> handler \<Rightarrow>
   (auth_exn, ('n, 'k) auth_world, nat) sx" where
  "runAsync add v ae h =
     seqx (modify (\<lambda>w. w\<lparr>aw_notified := False\<rparr>))
       (catchx (run_body add v ae h)
          (\<lambda>e. if is_auth_exception e then seqx (notifyAfterAccessCache v) (throw e) else throw e))"

section \<open>The context\<close>

datatype AuthorityValidationType = ValidationTrue | ValidationFalse | ValidationNotProvided

definition AuthenticationContext_create :: "bool \<Rightarrow> string \<Rightarrow> AuthorityValidationType \<Rightarrow> auth_exn + Authenticator" where
  "AuthenticationContext_create junk authority validateAuthority =
     Authenticator_create junk authority (validateAuthority \<noteq> ValidationFalse)"

definition with_handler ::
  "(Authenticator \<Rightarrow> auth_exn + handler) \<Rightarrow> (handler \<Rightarrow> (auth_exn, ('n, 'k) auth_world, nat) sx) \<Rightarrow>
   (auth_exn, ('n, 'k) auth_world, nat) sx" where
  "with_handler create run = bnd (gets aw_authenticator) (\<lambda>a. bnd (liftE (create a)) run)"

definition acquireToken_interactive ::
  "(entry list \<Rightarrow> entry \<Rightarrow> entry list) \<Rightarrow> 'k cache_class \<Rightarrow> bool \<Rightarrow> 'n auth_env \<Rightarrow> string \<Rightarrow> string \<Rightarrow> string \<Rightarrow>
   PromptBehavior \<Rightarrow> string \<Rightarrow> (auth_exn, ('n, 'k) auth_world, nat) sx" where
  "acquireToken_interactive add v has_cache ae resource clientId redirectUri promptBehavior userId =
     bnd (liftE (if userId = [] then Inr anyUser else UserIdentifier_create userId OptionalDisplayableId)) (\<lambda>uid.
     with_handler (\<lambda>a. AcquireTokenInteractiveHandler_create ae a has_cache resource clientId redirectUri promptBehavior
         (Some uid) []) (runAsync add v ae))"

definition acquireToken_credential ::
  "(entry list \<Rightarrow> entry \<Rightarrow> entry list) \<Rightarrow> 'k cache_class \<Rightarrow> bool \<Rightarrow> 'n auth_env \<Rightarrow> string \<Rightarrow> string \<Rightarrow>
   UserCredential option \<Rightarrow> (auth_exn, ('n, 'k) auth_world, nat) sx" where
  "acquireToken_credential add v has_cache ae resource clientId userCredential =
     with_handler (\<lambda>a. AcquireTokenNonInteractiveHandler_create ae a has_cache resource clientId userCredential) (runAsync add v ae)"

definition acquireToken_assertion ::
  "(entry list \<Rightarrow> entry \<Rightarrow> entry list) \<Rightarrow> 'k cache_class \<Rightarrow> bool \<Rightarrow> 'n auth_env \<Rightarrow> string \<Rightarrow> string \<Rightarrow>
   UserAssertion option \<Rightarrow> (auth_exn, ('n, 'k) auth_world, nat) sx" where
  "acquireToken_assertion add v has_cache ae resource clientId userAssertion =
     with_handler (\<lambda>a. AcquireTokenNonInteractiveHandler_assertion ae a has_cache resource clientId userAssertion) (runAsync add v ae)"

definition acquireToken_client ::
  "(entry list \<Rightarrow> entry \<Rightarrow> entry list) \<Rightarrow> 'k cache_class \<Rightarrow> bool \<Rightarrow> 'n auth_env \<Rightarrow> string \<Rightarrow> ClientCredential option \<Rightarrow>
   (auth_exn, ('n, 'k) auth_world, nat) sx" where
  "acquireToken_client add v has_cache ae resource clientCredential =
     with_handler (\<lambda>a. case clientCredential of
         None \<Rightarrow> Inl NullPointer
       | Some c \<Rightarrow> AcquireTokenForClientHandler_create ae a has_cache resource (ClientKey_of_credential c))
       (runAsync add v ae)"

end
