(* ===== verification/AuthRequestProperties.thy ===== *)
theory AuthRequestProperties
  imports Authenticator OAuth2
begin

text \<open>What the theorems say of the requests of the authentication library and of their answers.\<close>

section \<open>Percent-encoding\<close>

definition unhex :: "char \<Rightarrow> nat" where
  "unhex c = (case hex_value c of Some v \<Rightarrow> v | None \<Rightarrow> 0)"

fun uriDecode :: "string \<Rightarrow> string" where
  "uriDecode (c # a # b # r) =
     (if c = CHR ''%'' then char_of (unhex a * 16 + unhex b) # uriDecode r else c # uriDecode (a # b # r))"
| "uriDecode r = r"

lemma uriDecode_plain: "c \<noteq> CHR ''%'' \<Longrightarrow> uriDecode (c # r) = c # uriDecode r"
  by (cases r; cases "tl r") auto

lemma hex_value_toHex: "n < 16 \<Longrightarrow> hex_value (toHex n) = Some n"
proof -
  have "list_all (\<lambda>n. hex_value (toHex n) = Some n) [0..<16]"
    by (simp add: upt_rec hex_value_def toHex_def)
  then show "n < 16 \<Longrightarrow> hex_value (toHex n) = Some n" by (simp add: list_all_iff)
qed

lemma percent_reserved: "unreserved c \<Longrightarrow> c \<noteq> CHR ''%''"
  by (auto simp: unreserved_def isalnum_def)

text \<open>
  A text that is encoded is decoded to itself, and what is encoded has only unreserved
  characters and the percent signs of the encoding.
\<close>

theorem uri_encode_decode:
  "uriDecode (uriEncode s) = s \<and> list_all (\<lambda>c. unreserved c \<or> c = CHR ''%'') (uriEncode s)"
proof (induction s)
  case (Cons c s)
  show ?case
  proof (cases "unreserved c")
    case True
    then show ?thesis using Cons percent_reserved [OF True] by (simp add: uriEncode_def uriDecode_plain)
  next
    case False
    have n: "(of_char c :: nat) < 256" using of_char_mod_256 [of c, where ?'a = nat] by (metis mod_less_divisor zero_less_numeral)
    then have d: "(of_char c :: nat) div 16 < 16" by (simp add: less_mult_imp_div_less)
    with n have "unhex (toHex (of_char c div 16)) * 16 + unhex (toHex (of_char c mod 16)) = (of_char c :: nat)"
      by (simp add: unhex_def hex_value_toHex)
    moreover have "unreserved (toHex k)" if "k < 16" for k
    proof -
      have "list_all (\<lambda>n. unreserved (toHex n)) [0..<16]" by (simp add: upt_rec unreserved_def toHex_def isalnum_def)
      with that show ?thesis by (simp add: list_all_iff)
    qed
    ultimately show ?thesis using Cons False d by (simp add: uriEncode_def)
  qed
qed (simp add: uriEncode_def)

section \<open>The body of a request\<close>

definition form_field :: "string \<Rightarrow> string \<times> string" where
  "form_field f = (takeWhile (\<lambda>c. c \<noteq> CHR ''='') f, drop 1 (dropWhile (\<lambda>c. c \<noteq> CHR ''='') f))"

definition form_fields :: "string \<Rightarrow> (string \<times> string) list" where
  "form_fields body = map form_field (getlines (CHR ''&'') body)"

lemma form_field_of: "CHR ''='' \<notin> set k \<Longrightarrow> form_field (k @ ''='' @ v) = (k, v)"
proof -
  assume k: "CHR ''='' \<notin> set k"
  have "takeWhile (\<lambda>c. c \<noteq> CHR ''='') (k @ ''='' @ v) = k" "dropWhile (\<lambda>c. c \<noteq> CHR ''='') (k @ ''='' @ v) = ''='' @ v"
    using k by (subst takeWhile_append2 dropWhile_append2; auto)+
  then show ?thesis by (simp add: form_field_def)
qed

definition pair_plain :: "string \<times> string \<Rightarrow> bool" where
  "pair_plain p \<longleftrightarrow> CHR ''='' \<notin> set (fst p) \<and> CHR ''&'' \<notin> set (fst p) \<and> CHR ''&'' \<notin> set (snd p)"

primrec params_rest :: "StringMap \<Rightarrow> string" where
  "params_rest [] = []"
| "params_rest (p # ps) = CHR ''&'' # fst p @ ''='' @ snd p @ params_rest ps"

lemma params_text_rest: "params_text False ps = params_rest ps" "params_text True (p # ps) = fst p @ ''='' @ snd p @ params_rest ps"
  by (induction ps) simp_all

lemma getlines_params:
  "CHR ''&'' \<notin> set x \<Longrightarrow> x \<noteq> [] \<Longrightarrow> list_all pair_plain ps \<Longrightarrow>
   getlines (CHR ''&'') (x @ params_rest ps) = x # map (\<lambda>p. fst p @ ''='' @ snd p) ps"
proof (induction ps arbitrary: x)
  case Nil
  then show ?case by (simp add: getlines_last)
next
  case (Cons p ps)
  have "getlines (CHR ''&'') (x @ params_rest (p # ps)) = x # getlines (CHR ''&'') ((fst p @ ''='' @ snd p) @ params_rest ps)"
    using getlines_delim [OF Cons.prems(1)] by simp
  also have "getlines (CHR ''&'') ((fst p @ ''='' @ snd p) @ params_rest ps) = (fst p @ ''='' @ snd p) # map (\<lambda>p. fst p @ ''='' @ snd p) ps"
    by (rule Cons.IH) (use Cons.prems in \<open>auto simp: pair_plain_def\<close>)
  finally show ?case by simp
qed

text \<open>
  The fields a server reads from a request are the parameters, in the order they are
  walked, as long as no name or value has a separator in it.
\<close>

theorem form_fields_of_parameters:
  "list_all pair_plain (walk (rp_params rp)) \<Longrightarrow> form_fields (rp_toString walk rp) = walk (rp_params rp)"
proof (cases "walk (rp_params rp)")
  case Nil
  then show ?thesis by (simp add: form_fields_def rp_toString_def)
next
  case (Cons p ps)
  assume a: "list_all pair_plain (walk (rp_params rp))"
  have "getlines (CHR ''&'') ((fst p @ ''='' @ snd p) @ params_rest ps) = (fst p @ ''='' @ snd p) # map (\<lambda>p. fst p @ ''='' @ snd p) ps"
    by (rule getlines_params) (use a Cons in \<open>auto simp: pair_plain_def\<close>)
  moreover have "map form_field (map (\<lambda>p. fst p @ ''='' @ snd p) qs) = qs" if "list_all pair_plain qs" for qs
    using that by (induction qs) (simp_all add: pair_plain_def form_field_of [simplified])
  moreover have "form_field (fst p @ ''='' @ snd p) = p" using a Cons by (simp add: pair_plain_def form_field_of [simplified])
  ultimately show ?thesis
    using a Cons by (simp add: form_fields_def rp_toString_def params_text_rest)
qed

theorem form_fields_of_parameters_witness:
  "form_fields (rp_toString rev \<lparr>rp_params = [(''a'', ''1''), (''b'', ''x=y'')], rp_extraQueryParameter = []\<rparr>) =
   [(''b'', ''x=y''), (''a'', ''1'')]"
  using form_fields_of_parameters [of rev "\<lparr>rp_params = [(''a'', ''1''), (''b'', ''x=y'')], rp_extraQueryParameter = []\<rparr>"]
  by (simp add: pair_plain_def)

section \<open>The authority\<close>

lemma takeWhile_to: "takeWhile P xs = ys \<Longrightarrow> \<exists>zs. xs = ys @ zs \<and> (zs = [] \<or> \<not> P (hd zs))"
  by (metis dropWhile_eq_Nil_conv hd_dropWhile takeWhile_dropWhile_id)

lemma no_break_or: "p = [] \<or> (A \<and> no_break p) \<Longrightarrow> (p = [] \<or> A) \<and> no_break p"
  by (auto simp: no_break_def)

lemma scheme_https:
  assumes "url_scheme u = ''https''"
  shows "\<exists>z. u = ''https:'' @ z"
proof -
  have t: "takeWhile alpha u = ''https''" and c: "take 1 (drop (length ''https'') u) = '':''"
    using assms unfolding url_scheme_def Let_def by (metis list.distinct(1))+
  obtain zs where z: "u = ''https'' @ zs" using takeWhile_to [OF t] by blast
  then show ?thesis using c by (cases zs) auto
qed

text \<open>What a valid address with that scheme looks like.\<close>

lemma valid_https:
  assumes "url_isValid u" and "url_scheme u = ''https''"
  shows "\<exists>host port path. u = ''https://'' @ host @ port @ path \<and> host \<noteq> [] \<and> CHR ''/'' \<notin> set host \<and>
    CHR ''/'' \<notin> set port \<and> (path = [] \<or> take 1 path = ''/'') \<and> no_break path"
proof -
  obtain z where z: "u = ''https:'' @ z" using scheme_https [OF assms(2)] by blast
  let ?r = "strip_http u"
  let ?h = "takeWhile (\<lambda>c. c \<notin> set '':/'') ?r" and ?t = "dropWhile (\<lambda>c. c \<notin> set '':/'') ?r"
  have v: "2 \<le> length (labels ?h)" using assms(1) by (simp add: url_isValid_def Let_def)
  have two: "take 2 z = ''//''"
  proof (rule ccontr)
    assume n: "take 2 z \<noteq> ''//''"
    then have "?r = ''https:'' @ z" by (simp add: strip_http_def z numeral_eq_Suc)
    then have "?h = ''https''" by simp
    then show False using v by (simp add: labels_def getlines_last)
  qed
  then have u: "u = ''https://'' @ drop 2 z" using z by (metis append.assoc append_Cons append_Nil append_take_drop_id)
  then have r: "?r = drop 2 z" unfolding u by (simp add: strip_http_def)
  let ?port = "if take 1 ?t = '':'' then take 1 ?t @ takeWhile isdigit (drop 1 ?t) else []"
  let ?path = "if take 1 ?t = '':'' then dropWhile isdigit (drop 1 ?t) else ?t"
  have "?t = ?port @ ?path"
  proof (cases "take 1 ?t = '':''")
    case True
    show ?thesis unfolding if_P [OF True] append.assoc takeWhile_dropWhile_id append_take_drop_id ..
  qed (simp only: if_False append_Nil)
  then have d: "drop 2 z = ?h @ ?port @ ?path" unfolding r [symmetric] by (metis takeWhile_dropWhile_id)
  have f1: "u = ''https://'' @ ?h @ ?port @ ?path" using u unfolding d .
  have f2: "?h \<noteq> []" using v by (auto simp: labels_def)
  have f3: "CHR ''/'' \<notin> set ?h" by (auto dest: set_takeWhileD)
  have f4: "CHR ''/'' \<notin> set ?port" by (auto simp: isdigit_def dest: set_takeWhileD)
  have "?path = [] \<or> (take 1 ?path = ''/'' \<and> no_break ?path)"
    using assms(1) unfolding url_isValid_def Let_def by presburger
  then have f5: "(?path = [] \<or> take 1 ?path = ''/'') \<and> no_break ?path" by (rule no_break_or)
  show ?thesis
    by (rule exI [of _ ?h], rule exI [of _ ?port], rule exI [of _ ?path]) (intro conjI f1 f2 f3 f4 f5 [THEN conjunct1] f5 [THEN conjunct2])
qed

lemma valid_path:
  assumes "url_isValid u" and "url_scheme u = ''https''" and "u \<noteq> []" and "last u = CHR ''/''"
  shows "url_path u \<noteq> []"
proof -
  obtain host port path where u: "u = ''https://'' @ host @ port @ path" and h: "host \<noteq> []" "CHR ''/'' \<notin> set host"
    "CHR ''/'' \<notin> set port" "path = [] \<or> take 1 path = ''/''" "no_break path"
    using valid_https [OF assms(1,2)] by blast
  have a: "after_scheme u = Some (host @ port @ path)" unfolding u by (simp add: after_scheme_def)
  have "path \<noteq> []"
  proof
    assume p: "path = []"
    then have "last u \<in> set (host @ port)" unfolding u using h(1) by (metis append.right_neutral append_is_Nil_conv last_appendR last_in_set)
    then show False using assms(4) h(2,3) by auto
  qed
  then obtain q where p: "path = CHR ''/'' # q" using h(4) by (cases path) auto
  have np: "CHR ''/'' \<notin> set (host @ port)" using h by simp
  have tw: "takeWhile (\<lambda>c. c \<noteq> CHR ''/'') (host @ port @ path) = host @ port"
    and dw: "dropWhile (\<lambda>c. c \<noteq> CHR ''/'') (host @ port @ path) = path"
    using np unfolding p by (simp_all add: takeWhile_append dropWhile_append)
  have nb: "no_break (dropWhile P path)" "no_break (dropWhile Q (dropWhile P path))" for P Q
    using h(5) by (auto simp: no_break_def list_all_iff dest!: set_dropWhileD)
  show ?thesis unfolding url_path_def a using h(1) nb by (simp add: Let_def tw dw) (simp add: p)
qed

lemma canonical_ends: "canonicalizeUri uri = Inr a \<Longrightarrow> uri \<noteq> [] \<Longrightarrow> a \<noteq> [] \<and> last a = CHR ''/'' \<and> set a \<subseteq> insert (CHR ''/'') (set uri)"
proof -
  assume c: "canonicalizeUri uri = Inr a" and n: "uri \<noteq> []"
  have e: "endsWith uri ''/'' = Inr (last uri = CHR ''/'')"
    using n by (cases uri rule: rev_cases) (auto simp: endsWith_def)
  show ?thesis using c n unfolding canonicalizeUri_def e by (auto split: if_splits)
qed

lemma canonical_total: "\<exists>a. canonicalizeUri uri = Inr a"
  by (cases uri) (auto simp: canonicalizeUri_def endsWith_def)

lemma detect_error:
  assumes "detectAuthorityType a = Inl e" and "a \<noteq> [] \<Longrightarrow> last a = CHR ''/''"
  shows "(\<exists>m d. e = IllegalArgumentException m d) \<or> CHR 0x00 \<in> set a"
proof (rule ccontr)
  assume "\<not> ?thesis"
  then have n: "\<nexists>m d. e = IllegalArgumentException m d" and nul: "CHR 0x00 \<notin> set a" by auto
  have ne: "a \<noteq> []" using assms(1) n by (auto simp: detectAuthorityType_def)
  have u: "Url a = a"
    using nul by (simp add: Url_def c_str_id)
  have v: "url_isValid a"
  proof (rule ccontr)
    assume "\<not> url_isValid a"
    then have "\<exists>m d. detectAuthorityType a = Inl (IllegalArgumentException m d)"
      using ne unfolding detectAuthorityType_def u by simp
    then show False using assms(1) n by auto
  qed
  have s: "url_scheme a = ''https''"
  proof (rule ccontr)
    assume "url_scheme a \<noteq> ''https''"
    then have "\<exists>m d. detectAuthorityType a = Inl (IllegalArgumentException m d)"
      using ne v unfolding detectAuthorityType_def u by simp
    then show False using assms(1) n by auto
  qed
  have "url_path a \<noteq> []" using valid_path [OF v s ne] assms(2) ne by simp
  then show False using assms(1) n ne v s
    unfolding detectAuthorityType_def u by (auto simp: path_tail_def split: if_splits)
qed

text \<open>
  C22: an authority that is accepted is a valid address of the secure protocol, and of the
  directory where validation is asked for; one that is refused is refused as an illegal
  argument, but for a text with a zero character in it.
\<close>

theorem authority_checked:
  "case Authenticator_create junk authority validate of
     Inl e \<Rightarrow> (\<exists>m d. e = IllegalArgumentException m d) \<or> CHR 0x00 \<in> set authority
   | Inr a \<Rightarrow> url_isValid (Url (av_authority a)) \<and> url_scheme (Url (av_authority a)) = ''https'' \<and>
       (if validate then av_authorityType a = AAD else True)"
proof -
  obtain a where a: "canonicalizeUri authority = Inr a" using canonical_total by blast
  have last: "a \<noteq> [] \<Longrightarrow> last a = CHR ''/''" "CHR 0x00 \<in> set a \<Longrightarrow> CHR 0x00 \<in> set authority"
    using canonical_ends [OF a] a by (cases "authority = []"; auto simp: canonicalizeUri_def)+
  show ?thesis
  proof (cases "detectAuthorityType a")
    case (Inl e)
    then show ?thesis using detect_error [OF Inl last(1)] last(2) by (auto simp: Authenticator_create_def a)
  next
    case (Inr t)
    then have "url_isValid (Url a) \<and> url_scheme (Url a) = ''https''"
      unfolding detectAuthorityType_def by (simp split: if_splits)
    then show ?thesis using Inr by (auto simp: Authenticator_create_def a)
  qed
qed

section \<open>The endpoints\<close>

lemma find_at_here: "c \<notin> set pre \<Longrightarrow> find_at (c # pat) (pre @ c # pat @ post) = Some (length pre)"
  by (induction pre) auto

lemma su_replace_here:
  "c \<notin> set pre \<Longrightarrow> su_replace (pre @ c # pat @ post) (c # pat) t = Inr (pre @ t @ post)"
  by (simp add: su_replace_def find_str_def find_at_here replace_at_def)

lemma find_at_behind:
  "c \<notin> set pre \<Longrightarrow> find_at (c # pat) (pre @ x) = (case find_at (c # pat) x of None \<Rightarrow> None | Some i \<Rightarrow> Some (length pre + i))"
  by (induction pre) (auto split: option.splits)

lemma su_replace_behind: "c \<notin> set pre \<Longrightarrow> su_replace (pre @ x) (c # pat) t = Inr y \<Longrightarrow> \<exists>z. y = pre @ z"
  by (auto simp: su_replace_def find_str_def find_at_behind replace_at_def split: if_splits option.splits)

definition template_of :: "string \<Rightarrow> AuthenticatorTemplate" where
  "template_of host =
     \<lparr>at_host = host, at_issuer = ''https://'' @ host @ ''/{tenant}/oauth2/token'', at_authority = ''https://'' @ host @ ''/{tenant}/'',
      at_instanceDiscoveryEndpoint = ''https://'' @ host @ ''/Common/discovery/instance'',
      at_authorizeEndpoint = ''https://'' @ host @ ''/{tenant}/oauth2/authorize'',
      at_tokenEndpoint = ''https://'' @ host @ ''/{tenant}/oauth2/token'',
      at_userRealmEndpoint = ''https://'' @ host @ ''/Common/UserRealm''\<rparr>"

lemma createFromHost_eq: "createFromHost host = Inr (template_of host)"
  using su_replace_here [of "CHR ''{''" "''https://''" "''host}''" _ host]
  by (simp add: createFromHost_def template_of_def authorizeEndpointTemplate_def HOST_def)

lemma templates_eq: "authenticatorTemplateList = Inr (map template_of trustedHostList)"
  by (simp add: authenticatorTemplateList_def trustedHostList_def createFromHost_eq)

lemma find_template: "find (\<lambda>t. at_host t = host) (map template_of hosts) = (if host \<in> set hosts then Some (template_of host) else None)"
  by (induction hosts) (auto simp: template_of_def)

text \<open>Every endpoint is one of the secure protocol.\<close>

definition secure :: "string \<Rightarrow> bool" where
  "secure uri \<longleftrightarrow> take 8 uri = ''https://''"

definition endpoints_ok :: "Authenticator \<Rightarrow> bool" where
  "endpoints_ok a \<longleftrightarrow> list_all secure [av_authorizationUri a, av_tokenUri a, av_userRealmUri a, av_selfSignedJwtAudience a]"

lemma secure_replace: "su_replace (''https://'' @ x) TENANT t = Inr y \<Longrightarrow> secure y"
  using su_replace_behind [of "CHR ''{''" "''https://''" x "''tenant}''" t y] by (auto simp: TENANT_def secure_def)

lemma from_template_ok: "from_template (template_of host) tenant a = Inr a' \<Longrightarrow> endpoints_ok a' \<and> av_updatedFromTemplate a'"
proof -
  assume f: "from_template (template_of host) tenant a = Inr a'"
  obtain u t r i where u: "su_replace (at_authorizeEndpoint (template_of host)) TENANT tenant = Inr u"
    and t: "su_replace (at_tokenEndpoint (template_of host)) TENANT tenant = Inr t"
    and r: "canonicalizeUri (at_userRealmEndpoint (template_of host)) = Inr r"
    and i: "su_replace (at_issuer (template_of host)) TENANT tenant = Inr i"
    and a': "av_authorizationUri a' = u" "av_tokenUri a' = t" "av_userRealmUri a' = r" "av_selfSignedJwtAudience a' = i"
      "av_updatedFromTemplate a'"
    using f unfolding from_template_def bindE_eq_Inr by auto
  have "secure r" using r by (auto simp: template_of_def canonicalizeUri_def endsWith_def secure_def)
  moreover have "secure u" by (rule secure_replace [OF u [unfolded template_of_def, simplified AuthenticatorTemplate.simps]])
  moreover have "secure t" by (rule secure_replace [OF t [unfolded template_of_def, simplified AuthenticatorTemplate.simps]])
  moreover have "secure i" by (rule secure_replace [OF i [unfolded template_of_def, simplified AuthenticatorTemplate.simps]])
  ultimately show ?thesis using a' by (simp add: endpoints_ok_def)
qed

lemma findMatchingItem_template:
  "findMatchingItemAsync ae v host tenant cid net = (Inr t, net') \<Longrightarrow> t = template_of host"
  by (auto simp: findMatchingItemAsync_def templates_eq find_template createFromHost_eq sx_simps
      split: if_splits prod.splits sum.splits)

lemma updateFromTemplate_ok:
  assumes "updateFromTemplateAsync ae cid a net = (Inr a', net')" and "av_updatedFromTemplate a \<Longrightarrow> endpoints_ok a"
  shows "endpoints_ok a' \<and> av_updatedFromTemplate a'"
proof (cases "av_updatedFromTemplate a")
  case True
  then show ?thesis using assms by (simp add: updateFromTemplateAsync_def ret_def)
next
  case False
  have "bnd (liftE (path_tail (url_path (Url (av_authority a))))) (\<lambda>path.
      bnd (findMatchingItemAsync ae (av_validateAuthority a) (url_authority (Url (av_authority a))) (first_segment path) cid)
        (\<lambda>t. liftE (from_template t (first_segment path) a))) net = (Inr a', net')"
    using assms(1) False by (simp add: updateFromTemplateAsync_def)
  then obtain path net1 where "bnd (findMatchingItemAsync ae (av_validateAuthority a) (url_authority (Url (av_authority a)))
      (first_segment path) cid) (\<lambda>t. liftE (from_template t (first_segment path) a)) net1 = (Inr a', net')"
    by (rule bnd_cases) simp_all
  then obtain t net2 where "findMatchingItemAsync ae (av_validateAuthority a) (url_authority (Url (av_authority a)))
      (first_segment path) cid net1 = (Inr t, net2)" "liftE (from_template t (first_segment path) a) net2 = (Inr a', net')"
    by (rule bnd_cases) simp_all
  then show ?thesis using findMatchingItem_template from_template_ok unfolding liftE_app by (metis Pair_inject)
qed

lemma tail_replace: "CHR ''{'' \<notin> set host \<Longrightarrow> su_replace (''https://'' @ host @ ''/{tenant}'' @ post) TENANT t = Inr (''https://'' @ host @ ''/'' @ t @ post)"
  using su_replace_here [of "CHR ''{''" "''https://'' @ host @ ''/''" "''tenant}''" post t] by (simp add: TENANT_def)

definition authority_of :: "string \<Rightarrow> string \<Rightarrow> string" where
  "authority_of host tenant = ''https://'' @ host @ ''/'' @ tenant @ ''/''"

definition name_plain :: "string \<Rightarrow> bool" where
  "name_plain s \<longleftrightarrow> s \<noteq> [] \<and> set s \<inter> set (CHR 0x00 # ''/?#{'') = {}"

lemma authority_parts:
  assumes "name_plain host" and "name_plain tenant"
  shows "url_authority (Url (authority_of host tenant)) = host" and "url_path (Url (authority_of host tenant)) = CHR ''/'' # tenant @ ''/''"
proof -
  have n: "CHR ''/'' \<notin> set host" "CHR ''/'' \<notin> set tenant" "CHR ''?'' \<notin> set tenant" "CHR ''#'' \<notin> set tenant"
    "CHR 0x00 \<notin> set host" "CHR 0x00 \<notin> set tenant" "host \<noteq> []"
    using assms by (auto simp: name_plain_def)
  have u: "Url (authority_of host tenant) = authority_of host tenant"
    using n by (simp add: Url_def authority_of_def c_str_id)
  have a: "after_scheme (authority_of host tenant) = Some (host @ CHR ''/'' # tenant @ ''/'')"
    by (simp add: after_scheme_def authority_of_def)
  have t: "takeWhile (\<lambda>c. c \<noteq> CHR ''/'') (host @ CHR ''/'' # x) = host" "dropWhile (\<lambda>c. c \<noteq> CHR ''/'') (host @ CHR ''/'' # x) = CHR ''/'' # x" for x
    using n(1) by (subst takeWhile_append2 dropWhile_append2; auto)+
  have q: "\<forall>c \<in> set (CHR ''/'' # tenant @ ''/''). c \<notin> set ''?#''" using n(3,4) by auto
  have p: "takeWhile (\<lambda>c. c \<notin> set ''?#'') (CHR ''/'' # tenant @ ''/'') = CHR ''/'' # tenant @ ''/''"
    "dropWhile (\<lambda>c. c \<notin> set ''?#'') (CHR ''/'' # tenant @ ''/'') = []"
    using q unfolding takeWhile_eq_all_conv dropWhile_eq_Nil_conv by blast+
  show "url_authority (Url (authority_of host tenant)) = host" unfolding u url_authority_def a by (simp add: t)
  show "url_path (Url (authority_of host tenant)) = CHR ''/'' # tenant @ ''/''"
    unfolding u url_path_def a option.case Let_def t p using n(7) by (simp add: no_break_def)
qed

text \<open>
  C23: for a tenant of a host that is trusted, the endpoints are those of that tenant at that
  host, without a request.
\<close>

theorem trusted_endpoints:
  assumes "host \<in> set trustedHostList" and "name_plain tenant"
    and "av_authority a = authority_of host tenant" and "\<not> av_updatedFromTemplate a" and "av_validateAuthority a"
  shows "updateFromTemplateAsync ae cid a net =
    (Inr (a\<lparr>av_authorizationUri := ''https://'' @ host @ ''/'' @ tenant @ ''/oauth2/authorize'',
            av_tokenUri := ''https://'' @ host @ ''/'' @ tenant @ ''/oauth2/token'',
            av_userRealmUri := ''https://'' @ host @ ''/Common/UserRealm/'',
            av_isTenantless := (tenant = ''Common''),
            av_selfSignedJwtAudience := ''https://'' @ host @ ''/'' @ tenant @ ''/oauth2/token'',
            av_updatedFromTemplate := True, av_default := False\<rparr>), net)"
proof -
  have h: "name_plain host" using assms(1) by (auto simp: trustedHostList_def name_plain_def)
  note p = authority_parts [OF h assms(2)]
  have seg: "first_segment (tenant @ ''/'') = tenant"
    using assms(2) unfolding first_segment_def name_plain_def by (subst takeWhile_append2) auto
  have r: "su_replace (''https://'' @ host @ ''/{tenant}'' @ post) TENANT tenant = Inr (''https://'' @ host @ ''/'' @ tenant @ post)" for post
    using h by (intro tail_replace) (auto simp: name_plain_def)
  have c: "canonicalizeUri (''https://'' @ host @ ''/Common/UserRealm'') = Inr (''https://'' @ host @ ''/Common/UserRealm/'')"
    by (simp add: canonicalizeUri_def endsWith_def)
  have "from_template (template_of host) tenant a = Inr (a\<lparr>av_authorizationUri := ''https://'' @ host @ ''/'' @ tenant @ ''/oauth2/authorize'',
            av_tokenUri := ''https://'' @ host @ ''/'' @ tenant @ ''/oauth2/token'',
            av_userRealmUri := ''https://'' @ host @ ''/Common/UserRealm/'',
            av_isTenantless := (tenant = ''Common''),
            av_selfSignedJwtAudience := ''https://'' @ host @ ''/'' @ tenant @ ''/oauth2/token'',
            av_updatedFromTemplate := True, av_default := False\<rparr>)"
    using r [of "''/oauth2/authorize''"] r [of "''/oauth2/token''"] c
    by (simp add: from_template_def template_of_def tenantlessTenantName_def)
  then show ?thesis
    using assms(1,4,5) by (simp add: updateFromTemplateAsync_def assms(3) p path_tail_def seg sx_simps findMatchingItemAsync_def
        templates_eq find_template)
qed

theorem trusted_endpoints_witness:
  "\<forall>ae cid net. \<exists>a. updateFromTemplateAsync ae cid
     \<lparr>av_updatedFromTemplate = False, av_validateAuthority = True, av_default = False,
      av_authority = ''https://login.windows.net/contoso.com/'', av_authorityType = AAD, av_isTenantless = False,
      av_authorizationUri = [], av_tokenUri = [], av_userRealmUri = [], av_selfSignedJwtAudience = [],
      av_correlationId = guid_null\<rparr> net = (Inr a, net)"
proof (intro allI)
  have a: "''https://login.windows.net/contoso.com/'' = authority_of ''login.windows.net'' ''contoso.com''" by (simp add: authority_of_def)
  fix ae :: "'a auth_env" and cid net
  show "\<exists>a. updateFromTemplateAsync ae cid
     \<lparr>av_updatedFromTemplate = False, av_validateAuthority = True, av_default = False,
      av_authority = ''https://login.windows.net/contoso.com/'', av_authorityType = AAD, av_isTenantless = False,
      av_authorizationUri = [], av_tokenUri = [], av_userRealmUri = [], av_selfSignedJwtAudience = [],
      av_correlationId = guid_null\<rparr> net = (Inr a, net)"
    by (rule exI, rule trusted_endpoints [of "''login.windows.net''" "''contoso.com''"])
      (simp_all add: trustedHostList_def name_plain_def a)
qed

section \<open>The end of the dialog\<close>

lemma search_value_skip:
  "CHR ''='' \<notin> set pre \<Longrightarrow> CHR ''='' \<notin> set key \<Longrightarrow> v \<noteq> [] \<Longrightarrow> set v \<inter> set ''&#'' = {} \<Longrightarrow>
   rest = [] \<or> hd rest \<in> set ''&#'' \<Longrightarrow>
   search_value key (pre @ key @ ''='' @ v @ rest) = Some v"
proof (induction pre)
  case Nil
  have t: "takeWhile (\<lambda>d. d \<notin> set ''&#'') (v @ rest) = v"
    using Nil.prems(4,5) by (cases rest) (auto simp: takeWhile_append)
  obtain c r where c: "key @ ''='' @ v @ rest = c # r" by (cases key) auto
  have d: "drop (length key + 1) (c # r) = v @ rest" "take (length key + 1) (c # r) = key @ ''=''"
    unfolding c [symmetric] by simp_all
  show ?case unfolding append_Nil c search_value.simps d t Let_def using Nil.prems(3) by simp
next
  case (Cons p pre)
  have "take (length key + 1) (p # pre @ key @ ''='' @ v @ rest) \<noteq> key @ ''=''"
  proof
    assume e: "take (length key + 1) (p # pre @ key @ ''='' @ v @ rest) = key @ ''=''"
    have "(take (length key + 1) (p # pre @ key @ ''='' @ v @ rest)) ! length key = (key @ ''='') ! length key"
      by (rule arg_cong [OF e])
    moreover have "(take (length key + 1) (p # pre @ key @ ''='' @ v @ rest)) ! length key = (p # pre @ key @ ''='' @ v @ rest) ! length key"
      by (rule nth_take) simp
    ultimately have "(p # pre @ key @ ''='' @ v @ rest) ! length key = CHR ''=''" by (simp only: nth_append_length append_Cons append_Nil)
    moreover have "(p # pre @ key @ ''='' @ v @ rest) ! length key \<in> set ((p # pre) @ key)"
      by (metis (no_types, lifting) Cons_eq_appendI append_assoc length_append length_Cons add_Suc le_add2 less_Suc_eq_le nth_append nth_mem)
    ultimately show False using Cons.prems(1,2) by auto
  qed
  then show ?case using Cons by simp
qed

text \<open>
  The code is read from the address the dialog ends at, whatever parameters follow it.
\<close>

theorem authorization_code_read:
  assumes "code \<noteq> []" and "set code \<inter> set ''&#'' = {}" and "CHR ''='' \<notin> set redirect" and "rest = [] \<or> hd rest \<in> set ''&#''"
  shows "parseAuthorizeResponse (redirect @ ''?code='' @ code @ rest) = Some (AuthSuccess code)"
proof -
  have "search_value ''code'' ((redirect @ ''?'') @ ''code'' @ ''='' @ code @ rest) = Some code"
    by (rule search_value_skip) (use assms in auto)
  then have "search_value ''code'' (redirect @ ''?code='' @ code @ rest) = Some code" by simp
  then show ?thesis unfolding parseAuthorizeResponse_def by simp
qed

theorem authorization_code_read_witness:
  "parseAuthorizeResponse (''https://app/done'' @ ''?code='' @ ''AQAB-1'' @ ''&state=7'') = Some (AuthSuccess ''AQAB-1'')"
  by (rule authorization_code_read) simp_all

lemma search_value_anywhere:
  "d \<notin> set ''&#'' \<Longrightarrow> \<exists>v. search_value key (pre @ key @ ''='' @ d # rest) = Some v"
proof (induction pre)
  case Nil
  obtain c r where c: "key @ ''='' @ d # rest = c # r" by (cases key) auto
  have e: "drop (length key + 1) (c # r) = d # rest" "take (length key + 1) (c # r) = key @ ''=''"
    unfolding c [symmetric] by simp_all
  show ?case unfolding append_Nil c search_value.simps e Let_def using Nil by simp
qed (simp add: Let_def)

text \<open>
  C38: a user who is refused may count as one who is granted: an answer with an error is taken
  for a code when any of its parameters, such as the description of the error, has the text
  \<open>code=\<close> in it.
\<close>

theorem refusal_taken_for_code:
  assumes "d \<notin> set ''&#''"
  shows "\<exists>code. parseAuthorizeResponse (redirect @ ''?error='' @ err @ ''&error_description='' @ desc @ ''code='' @ d # rest) =
    Some (AuthSuccess code)"
proof -
  have "\<exists>v. search_value ''code'' ((redirect @ ''?error='' @ err @ ''&error_description='' @ desc) @ ''code'' @ ''='' @ d # rest) = Some v"
    by (rule search_value_anywhere [OF assms])
  then obtain v where "search_value ''code'' (redirect @ ''?error='' @ err @ ''&error_description='' @ desc @ ''code='' @ d # rest) = Some v"
    by auto
  then show ?thesis unfolding parseAuthorizeResponse_def by simp
qed

theorem refusal_taken_for_code_witness:
  "\<exists>code. parseAuthorizeResponse (''https://app'' @ ''?error='' @ ''access_denied'' @ ''&error_description='' @ ''bad+'' @ ''code='' @
     CHR ''5'' # []) = Some (AuthSuccess code)"
  by (rule refusal_taken_for_code) simp

text \<open>
  An answer whose id token has a middle part that is not padded to a multiple of four
  characters fails with an exception that is none of the library's, however good its access
  token.
\<close>

theorem unpadded_id_token_fails:
  assumes "decode_block_ok dec" and "tr_accessToken t \<noteq> []" and "tr_idToken t = header @ ''.'' @ payload @ ''.'' @ signature"
    and "CHR ''.'' \<notin> set header \<union> set payload \<union> set signature" and "signature \<noteq> []" and "length payload mod 4 \<noteq> 0"
  shows "parseTokenResponse lib dec now junk t = Inl (StdRuntime ''Base64 decoding failed.'')"
proof -
  have "getlines (CHR ''.'') (header @ CHR ''.'' # payload @ CHR ''.'' # signature) = [header, payload, signature]"
    using assms(4,5) by (simp add: getlines_delim getlines_last)
  moreover have "last (header @ CHR ''.'' # payload @ CHR ''.'' # signature) \<noteq> CHR ''.''"
    using assms(4,5) by (metis UnI2 append_is_Nil_conv last_ConsR last_appendR last_in_set list.distinct(1))
  ultimately have s: "su_split (tr_idToken t) (CHR ''.'') = Inr [header, payload, signature]"
    by (simp add: su_split_def assms(3))
  have "dec (string_bytes payload) = None"
    using assms(1,6) length_string_bytes [of payload] unfolding decode_block_ok_def by (metis not_Some_eq)
  then have "parseIdToken lib dec (tr_idToken t) = Inl (StdRuntime ''Base64 decoding failed.'')"
    using s by (simp add: parseIdToken_def su_base64Decode_def assms(3))
  then show ?thesis using assms(2) by (simp add: parseTokenResponse_def Let_def)
qed

theorem unpadded_id_token_fails_witness:
  "\<forall>lib. parseTokenResponse lib zero_decode 0 False
     \<lparr>tr_tokenType = ''Bearer'', tr_accessToken = ''t'', tr_refreshToken = [], tr_resource = [], tr_idToken = ''e30.e30.c2ln'',
      tr_createdOn = 0, tr_expiresOn = 0, tr_expiresIn = 3600, tr_correlationId = [], tr_error = [], tr_errorDescription = [],
      tr_errorCodes = []\<rparr> = Inl (StdRuntime ''Base64 decoding failed.'')"
  by (intro allI unpadded_id_token_fails [of _ _ "''e30''" "''e30''" "''c2ln''"]) (simp_all add: zero_decode_ok)

end
