(* ===== verification/AcquireTokenProperties.thy ===== *)
theory AcquireTokenProperties
  imports AcquireToken AuthRequestProperties
begin

text \<open>What the theorems say of acquiring a token.\<close>

section \<open>What is kept through a call\<close>

text \<open>A condition on the state that a computation keeps, whether it returns or throws.\<close>

definition keeps :: "('s \<Rightarrow> bool) \<Rightarrow> ('e, 's, 'a) sx \<Rightarrow> bool" where
  "keeps J m \<longleftrightarrow> (\<forall>w. J w \<longrightarrow> J (snd (m w)))"

named_theorems keeps_rules \<open>rules for conditions that a computation keeps\<close>

lemma keeps_ret [keeps_rules]: "keeps J (ret x)" by (simp add: keeps_def ret_def)
lemma keeps_throw [keeps_rules]: "keeps J (throw e)" by (simp add: keeps_def throw_def)
lemma keeps_liftE [keeps_rules]: "keeps J (liftE r)" by (simp add: keeps_def liftE_def)

lemma keeps_bnd [keeps_rules]: "keeps J m \<Longrightarrow> (\<And>x. keeps J (f x)) \<Longrightarrow> keeps J (bnd m f)"
  by (auto simp: keeps_def bnd_def split: prod.splits sum.splits)

lemma keeps_seqx [keeps_rules]: "keeps J m \<Longrightarrow> keeps J n \<Longrightarrow> keeps J (seqx m n)"
  by (simp add: seqx_def keeps_bnd)

lemma keeps_catchx [keeps_rules]: "keeps J m \<Longrightarrow> (\<And>e. keeps J (h e)) \<Longrightarrow> keeps J (catchx m h)"
  by (auto simp: keeps_def catchx_def split: prod.splits sum.splits)

lemma keeps_gets: "(\<And>w. J w \<Longrightarrow> keeps J (f (g w))) \<Longrightarrow> keeps J (bnd (gets g) f)"
  by (simp add: keeps_def bnd_def gets_def)

lemma keeps_gets_any [keeps_rules]: "(\<And>x. keeps J (f x)) \<Longrightarrow> keeps J (bnd (gets g) f)"
  by (rule keeps_gets)

lemma keeps_modify [keeps_rules]: "(\<And>w. J w \<Longrightarrow> J (f w)) \<Longrightarrow> keeps J (modify f)"
  by (simp add: keeps_def modify_def)

lemma keeps_after: "keeps J m \<Longrightarrow> m w = (r, w') \<Longrightarrow> J w \<Longrightarrow> J w'"
  by (auto simp: keeps_def)

lemma keeps_if [keeps_rules]: "keeps J m \<Longrightarrow> keeps J n \<Longrightarrow> keeps J (if b then m else n)"
  by simp

text \<open>A computation that reaches a stronger condition when it returns, before one that keeps it.\<close>

lemma keeps_via:
  assumes "keeps J m" and "\<And>w x w'. J w \<Longrightarrow> m w = (Inr x, w') \<Longrightarrow> K w'" and "\<And>x. keeps K (f x)" and "\<And>w. K w \<Longrightarrow> J w"
  shows "keeps J (bnd m f)"
  unfolding keeps_def
proof (intro allI impI)
  fix w assume j: "J w"
  show "J (snd (bnd m f w))"
  proof (cases "fst (m w)")
    case (Inl e)
    then show ?thesis using j assms(1) by (cases "m w") (auto simp: keeps_def bnd_def)
  next
    case (Inr x)
    then obtain w' where m: "m w = (Inr x, w')" by (cases "m w") auto
    then have "K w'" using assms(2) j by blast
    then have "K (snd (f x w'))" using assms(3) by (simp add: keeps_def)
    then show ?thesis using assms(4) m by (simp add: bnd_app)
  qed
qed

section \<open>A sequence of calls\<close>

datatype token_call =
  CallInteractive string string string PromptBehavior string
  | CallCredential string string "UserCredential option"
  | CallAssertion string string "UserAssertion option"
  | CallClient string "ClientCredential option"

fun do_call ::
  "(entry list \<Rightarrow> entry \<Rightarrow> entry list) \<Rightarrow> 'k cache_class \<Rightarrow> bool \<Rightarrow> 'n auth_env \<Rightarrow> token_call \<Rightarrow>
   (auth_exn, ('n, 'k) auth_world, nat) sx" where
  "do_call add v has_cache ae (CallInteractive r c u p i) = acquireToken_interactive add v has_cache ae r c u p i"
| "do_call add v has_cache ae (CallCredential r c u) = acquireToken_credential add v has_cache ae r c u"
| "do_call add v has_cache ae (CallAssertion r c u) = acquireToken_assertion add v has_cache ae r c u"
| "do_call add v has_cache ae (CallClient r c) = acquireToken_client add v has_cache ae r c"

fun run_calls ::
  "(entry list \<Rightarrow> entry \<Rightarrow> entry list) \<Rightarrow> 'k cache_class \<Rightarrow> bool \<Rightarrow> 'n auth_env \<Rightarrow> token_call list \<Rightarrow>
   ('n, 'k) auth_world \<Rightarrow> ('n, 'k) auth_world" where
  "run_calls add v has_cache ae [] w = w"
| "run_calls add v has_cache ae (c # cs) w = run_calls add v has_cache ae cs (snd (do_call add v has_cache ae c w))"

section \<open>A secure network\<close>

text \<open>
  The interface between a call and the network: a condition on the network that every request
  to a secure address keeps, and that the dialog keeps.
\<close>

locale secure_network =
  fixes ae :: "'n auth_env" and P :: "'n \<Rightarrow> bool"
  assumes request_keeps: "P n \<Longrightarrow> secure (aq_url q) \<Longrightarrow> P (snd (ae_http ae n q))"
    and dialog_keeps: "P n \<Longrightarrow> ae_dialog ae = Some d \<Longrightarrow> P (snd (d n uri cb b))"

lemma secure_prefix: "secure u \<longleftrightarrow> (\<exists>z. u = ''https://'' @ z)"
proof
  assume "secure u"
  then have "u = ''https://'' @ drop 8 u" unfolding secure_def by (metis append_take_drop_id)
  then show "\<exists>z. u = ''https://'' @ z" by blast
qed (auto simp: secure_def)

lemma secure_c_str: "secure u \<Longrightarrow> secure (c_str (u @ x))"
  by (auto simp: secure_prefix c_str_def)

definition secured :: "('n \<Rightarrow> bool) \<Rightarrow> ('n, 'k) auth_world \<Rightarrow> bool" where
  "secured P w \<longleftrightarrow> P (aw_net w) \<and> endpoints_ok (aw_authenticator w)"

definition before_update :: "('n \<Rightarrow> bool) \<Rightarrow> ('n, 'k) auth_world \<Rightarrow> bool" where
  "before_update P w \<longleftrightarrow> P (aw_net w) \<and> (av_updatedFromTemplate (aw_authenticator w) \<longrightarrow> endpoints_ok (aw_authenticator w))"

lemma secured_cache: "keeps (secured P) (au_cache m)"
  by (auto simp: keeps_def secured_def au_cache_def zoom_def split: prod.splits)

lemma before_cache: "keeps (before_update P) (au_cache m)"
  by (auto simp: keeps_def before_update_def au_cache_def zoom_def split: prod.splits)

lemma secured_notified: "keeps (secured P) (modify (\<lambda>w. w\<lparr>aw_notified := b\<rparr>))"
  by (simp add: keeps_def secured_def modify_def)

lemma updateTenantId_endpoints: "updateTenantId t a = Inr a' \<Longrightarrow> endpoints_ok a \<Longrightarrow> endpoints_ok a'"
  by (auto simp: updateTenantId_def bindE_eq_Inr endpoints_ok_def split: if_splits)

lemma secured_tenant: "keeps (secured P) (au_updateTenantId t)"
  by (auto simp: keeps_def secured_def au_updateTenantId_def sx_simps split: sum.splits dest: updateTenantId_endpoints)

lemma secure_replace_brace: "su_replace (''https://'' @ x) (CHR ''{'' # pat) t = Inr y \<Longrightarrow> secure y"
  using su_replace_behind [of "CHR ''{''" "''https://''" x pat t y] by (auto simp: secure_def)

context secure_network
begin

lemma jobGet_keeps: "secure u \<Longrightarrow> P n \<Longrightarrow> P (snd (jobGet ae (u @ x) hs cid n))"
  using request_keeps secure_c_str [of u x] by (simp add: jobGet_def split: prod.splits) (metis auth_request.select_convs(1) snd_conv)

lemma jobPost_keeps: "secure u \<Longrightarrow> P n \<Longrightarrow> P (snd (jobPost ae u hs rp cid n))"
  using request_keeps secure_c_str [of u "[]"] by (simp add: jobPost_def split: prod.splits) (metis auth_request.select_convs(1) snd_conv)

lemma keeps_get: "secure u \<Longrightarrow> keeps P (jobGet ae (u @ x) hs cid)"
  by (simp add: keeps_def jobGet_keeps)

lemma keeps_post: "secure u \<Longrightarrow> keeps P (jobPost ae u hs rp cid)"
  by (simp add: keeps_def jobPost_keeps)

lemma realm_keeps: "secure u \<Longrightarrow> keeps P (createByDiscoveryAsync ae u name cid)"
  unfolding createByDiscoveryAsync_def by (intro keeps_rules keeps_get)

lemma token_keeps: "secure u \<Longrightarrow> keeps P (sendPostRequestAndDeserializeJsonResponseAsync ae u rp cid)"
  unfolding sendPostRequestAndDeserializeJsonResponseAsync_def by (intro keeps_rules keeps_post)

lemma dialog_call_keeps: "keeps P (WebUI_authenticate ae p u cb)"
  using dialog_keeps by (auto simp: keeps_def WebUI_authenticate_def split: option.splits)

lemma verify_keeps: "keeps P (verifyAnotherHostByInstanceDiscoveryAsync ae host tenant cid (template_of h))"
  unfolding keeps_def
proof (intro allI impI)
  fix n assume p: "P n"
  let ?e = "bindE (su_replace (at_instanceDiscoveryEndpoint (template_of h) @ ''?api-version=1.0&authorization_endpoint='' @
      authorizeEndpointTemplate) HOST host) (\<lambda>e. su_replace e TENANT tenant)"
  show "P (snd (verifyAnotherHostByInstanceDiscoveryAsync ae host tenant cid (template_of h) n))"
  proof (cases ?e)
    case (Inl e)
    show ?thesis unfolding verifyAnotherHostByInstanceDiscoveryAsync_def bnd_app liftE_app Inl using p by simp
  next
    case (Inr uri)
    then obtain e where e: "su_replace (at_instanceDiscoveryEndpoint (template_of h) @ ''?api-version=1.0&authorization_endpoint='' @
      authorizeEndpointTemplate) HOST host = Inr e" "su_replace e TENANT tenant = Inr uri"
      unfolding bindE_eq_Inr by blast
    have "secure e"
      by (rule secure_replace_brace [OF e(1) [unfolded HOST_def template_of_def, simplified AuthenticatorTemplate.simps append.assoc]])
    then have "secure uri" using e(2) unfolding secure_prefix TENANT_def by (metis secure_replace_brace secure_prefix)
    then have "keeps P (bnd (jobGet ae uri (sm_insert_all (ae_walk ae getProductHeaders) (sm_insert_all (ae_walk ae getPlatformHeaders) [])) cid)
       (\<lambda>body. bnd (liftE (deserializeInstanceDiscoveryResponse (ae_json ae) body)) (\<lambda>t.
          if t = [] then throw (RmsauthException ''authority_not_in_valid_list'' []) else ret ())))"
      by (intro keeps_rules keeps_get [of _ "[]", simplified])
    then show ?thesis using p
      unfolding verifyAnotherHostByInstanceDiscoveryAsync_def bnd_app [of "liftE _"] Inr
      by (simp add: keeps_def liftE_app)
  qed
qed

lemma find_keeps: "keeps P (findMatchingItemAsync ae v host tenant cid)"
proof -
  have "keeps P (seqx (verifyAnotherHostByInstanceDiscoveryAsync ae host tenant cid (map template_of trustedHostList ! 0)) (liftE x))" for x
    by (intro keeps_rules) (simp add: trustedHostList_def verify_keeps)
  then show ?thesis
    by (auto simp: keeps_def findMatchingItemAsync_def templates_eq find_template sx_simps)
qed

lemma update_keeps: "keeps P (updateFromTemplateAsync ae cid a)"
  unfolding updateFromTemplateAsync_def by (auto intro!: keeps_rules find_keeps)

text \<open>The state of a call: the endpoints are secure once they are known.\<close>

lemma secured_net: "keeps P m \<Longrightarrow> keeps (secured P) (au_net m)"
  by (auto simp: keeps_def secured_def au_net_def zoom_def split: prod.splits)

lemma authorize_keeps: "keeps (secured P) (sendAuthorizeRequest ae h i)"
  unfolding sendAuthorizeRequest_def by (intro keeps_rules secured_net dialog_call_keeps)

lemma message_keeps: "keeps (secured P) (sendHttpMessageAsync ae h rp)"
  unfolding sendHttpMessageAsync_def
  by (rule keeps_gets) (auto simp: au_new_result_def secured_def endpoints_ok_def intro!: keeps_rules secured_net token_keeps secured_cache)

lemma pre_request_keeps: "keeps (secured P) (preTokenRequest ae h)"
proof (cases "hd_flow h")
  case (WithCredential c)
  then show ?thesis unfolding preTokenRequest_def WithCredential flow.case
    by (intro keeps_gets) (auto simp: secured_def endpoints_ok_def intro!: keeps_rules secured_net realm_keeps)
qed (auto simp: preTokenRequest_def intro!: keeps_rules authorize_keeps)

lemma refresh_keeps: "keeps (secured P) (refreshAccessTokenAsync ae h a)"
  unfolding refreshAccessTokenAsync_def sendTokenRequestByRefreshTokenAsync_def refresh_failed_def
  by (intro keeps_rules message_keeps secured_tenant secured_cache)

lemma cached_keeps: "keeps (secured P) (run_cached add v ae h)"
  unfolding run_cached_def notifyBeforeAccessCache_def au_load_def au_store_def
  by (auto split: option.splits intro!: keeps_rules refresh_keeps secured_cache secured_notified)

lemma requested_keeps: "keeps (secured P) (run_requested add v ae h)"
  unfolding run_requested_def sendTokenRequestAsync_def postTokenRequest_def notifyBeforeAccessCache_def au_store_def
  by (auto split: flow.splits intro!: keeps_rules pre_request_keeps message_keeps secured_tenant secured_cache secured_notified)

lemma update_secured:
  assumes "before_update P w" and "au_updateFromTemplate ae cid w = (r, w')"
  shows "before_update P w'" and "r = Inr u \<Longrightarrow> secured P w'"
proof -
  obtain x n where x: "updateFromTemplateAsync ae cid (aw_authenticator w) (aw_net w) = (x, n)" by fastforce
  have n: "P n" using update_keeps [of cid "aw_authenticator w"] assms(1) x unfolding keeps_def before_update_def by (metis snd_conv)
  have "before_update P w' \<and> (r = Inr u \<longrightarrow> secured P w')"
  proof (cases x)
    case (Inl e)
    then have "r = Inl e" "w' = w\<lparr>aw_net := n\<rparr>" using assms(2) x by (auto simp: au_updateFromTemplate_def au_net_def sx_simps)
    then show ?thesis using assms(1) n by (simp add: before_update_def)
  next
    case (Inr a)
    then have "w' = w\<lparr>aw_net := n, aw_authenticator := a\<rparr>" using assms(2) x by (auto simp: au_updateFromTemplate_def au_net_def sx_simps)
    moreover have "endpoints_ok a" using updateFromTemplate_ok [OF x [unfolded Inr]] assms(1) by (simp add: before_update_def)
    ultimately show ?thesis using n by (simp add: before_update_def secured_def)
  qed
  then show "before_update P w'" and "r = Inr u \<Longrightarrow> secured P w'" by simp_all
qed

lemma secured_before: "secured P w \<Longrightarrow> before_update P w"
  by (simp add: secured_def before_update_def)

lemma update_before: "keeps (before_update P) (au_updateFromTemplate ae cid)"
  unfolding keeps_def by (metis update_secured(1) prod.collapse)

lemma pre_run_rest:
  "keeps (secured P) (bnd (gets aw_authenticator) (\<lambda>a. bnd (liftE (validateAuthorityType h a)) (\<lambda>_.
       (case hd_flow h of
          WithCredential c \<Rightarrow>
            if uc_userName c = [] then throw (RmsauthException ''userCredential_->userName()'' ''the value is empty'')
            else ret (h\<lparr>hd_displayableId := uc_userName c\<rparr>)
        | WithAssertion u \<Rightarrow> ret (h\<lparr>hd_displayableId := ua_userName u\<rparr>)
        | _ \<Rightarrow> ret h))))"
  by (auto split: flow.splits intro!: keeps_rules)

lemma pre_run_before: "keeps (before_update P) (preRunAsync ae h)"
  unfolding preRunAsync_def seqx_def
  by (rule keeps_via [OF update_before _ pre_run_rest secured_before]) (rule update_secured(2) [OF _ _ refl])

lemma pre_run_secured: "before_update P w \<Longrightarrow> preRunAsync ae h w = (Inr h', w') \<Longrightarrow> secured P w'"
  unfolding preRunAsync_def seqx_def
  by (erule bnd_cases) (auto intro: keeps_after [OF pre_run_rest] update_secured(2) [OF _ _ refl])

lemma after_secured: "keeps (secured P) (notifyAfterAccessCache v)" "keeps (before_update P) (notifyAfterAccessCache v)"
  unfolding notifyAfterAccessCache_def by (auto intro!: keeps_rules secured_cache before_cache)

lemma run_keeps: "keeps (before_update P) (runAsync add v ae h)"
proof -
  have rest: "keeps (secured P) (bnd (run_cached add v ae h') (\<lambda>cached.
     bnd (case cached of Some result \<Rightarrow> ret result | None \<Rightarrow> run_requested add v ae h') (\<lambda>result.
     seqx (notifyAfterAccessCache v) (ret result))))" for h'
    by (auto split: option.splits intro!: keeps_rules cached_keeps requested_keeps after_secured)
  have body: "keeps (before_update P) (run_body add v ae h)"
    unfolding run_body_def by (rule keeps_via [OF pre_run_before pre_run_secured rest secured_before])
  show ?thesis unfolding runAsync_def
    by (auto simp: before_update_def intro!: keeps_rules body after_secured)
qed

lemma call_keeps: "keeps (before_update P) (do_call add v has_cache ae c)"
  by (cases c) (auto simp: acquireToken_interactive_def acquireToken_credential_def acquireToken_assertion_def
      acquireToken_client_def with_handler_def intro!: keeps_rules run_keeps)

lemma calls_keep: "before_update P w \<Longrightarrow> before_update P (run_calls add v has_cache ae cs w)"
proof (induction cs arbitrary: w)
  case (Cons c cs)
  show ?case unfolding run_calls.simps
    by (rule Cons.IH) (use call_keeps [of add v has_cache c] Cons.prems in \<open>simp add: keeps_def\<close>)
qed simp

end

text \<open>The requests of a run are recorded beside the network.\<close>

definition logging :: "'n auth_env \<Rightarrow> (auth_request list \<times> 'n) auth_env" where
  "logging ae =
     \<lparr>ae_http = (\<lambda>(l, n) q. case ae_http ae n q of (r, n') \<Rightarrow> (r, (l @ [q], n'))),
      ae_released = ae_released ae, ae_walk = ae_walk ae, ae_json = ae_json ae,
      ae_EVP_DecodeBlock = ae_EVP_DecodeBlock ae, ae_EVP_EncodeBlock = ae_EVP_EncodeBlock ae, ae_dis = ae_dis ae,
      ae_now = ae_now ae, ae_junk = ae_junk ae,
      ae_dialog = map_option (\<lambda>d (l, n) u cb b. case d n u cb b of (r, n') \<Rightarrow> (r, (l, n'))) (ae_dialog ae)\<rparr>"

interpretation logged: secure_network "logging ae" "\<lambda>n. list_all (\<lambda>q. secure (aq_url q)) (fst n)" for ae
  by unfold_locales (auto simp: logging_def split: prod.splits)

text \<open>
  C13: whatever calls an application makes in a context, in any order and with any outcome,
  every request that leaves the machine goes to an address of the secure protocol.
\<close>

theorem requests_secure:
  "case AuthenticationContext_create junk authority validation of
     Inl e \<Rightarrow> True
   | Inr a \<Rightarrow>
       list_all (\<lambda>q. secure (aq_url q)) (fst (aw_net (run_calls add v has_cache (logging ae) cs
         \<lparr>aw_authenticator = a, aw_cache = cache, aw_net = ([], n), aw_notified = b\<rparr>)))"
proof (cases "AuthenticationContext_create junk authority validation")
  case (Inr a)
  then have "\<not> av_updatedFromTemplate a"
    by (auto simp: AuthenticationContext_create_def Authenticator_create_def bindE_eq_Inr split: if_splits)
  then have "before_update (\<lambda>n. list_all (\<lambda>q. secure (aq_url q)) (fst n))
      \<lparr>aw_authenticator = a, aw_cache = cache, aw_net = ([], n), aw_notified = b\<rparr>"
    by (simp add: before_update_def)
  then have "before_update (\<lambda>n. list_all (\<lambda>q. secure (aq_url q)) (fst n)) (run_calls add v has_cache (logging ae) cs
      \<lparr>aw_authenticator = a, aw_cache = cache, aw_net = ([], n), aw_notified = b\<rparr>)"
    by (rule logged.calls_keep)
  then show ?thesis using Inr by (simp add: before_update_def)
qed simp

end
