(* ===== verification/TokenCallProperties.thy ===== *)
theory TokenCallProperties
  imports AcquireTokenProperties
begin

text \<open>What a call for a token returns, what it sends and what it hides.\<close>

section \<open>Tokens of the cache\<close>

lemma loadFromCache_valid:
  assumes "loadSingleItemFromCache authority resource clientId subject uniqueId s = Some (key, a)"
    and "equalsIC (tk_resource key) resource" and "dt_time nw + 300 < ar_expiresOn (ts_objects s a)"
    and "ar_accessToken (ts_objects s a) \<noteq> []"
  shows "loadFromCache nw authority resource clientId subject uniqueId s = (Some a, s)"
  using assms by (simp add: loadFromCache_def Let_def addSecs_def expirationMarginInSeconds_def)

text \<open>A handler whose authenticator is up to date returns what the cache has for it.\<close>

lemma run_from_cache:
  assumes "av_updatedFromTemplate (aw_authenticator w)" and "hd_loadFromCache h"
    and "preRunAsync ae h (w\<lparr>aw_notified := False\<rparr>) = (Inr h', w\<lparr>aw_notified := False\<rparr>)"
    and "hd_loadFromCache h' \<and> hd_resource h' = hd_resource h \<and> hd_clientKey h' = hd_clientKey h \<and>
      hd_tokenSubjectType h' = hd_tokenSubjectType h \<and> hd_uniqueId h' = hd_uniqueId h"
    and "loadSingleItemFromCache (av_authority (aw_authenticator w)) (hd_resource h) (ck_clientId (hd_clientKey h))
      (hd_tokenSubjectType h) (hd_uniqueId h) (aw_cache w) = Some (key, a)"
    and "equalsIC (tk_resource key) (hd_resource h)" and "ae_now ae + 300 < ar_expiresOn (au_result a w)"
    and "ar_accessToken (au_result a w) \<noteq> []"
  shows "runAsync add token_cache_class ae h w = (Inr a, w\<lparr>aw_notified := True\<rparr>)"
proof -
  have "loadFromCache (currentDateTime (ae_now ae)) (av_authority (aw_authenticator w)) (hd_resource h) (ck_clientId (hd_clientKey h))
      (hd_tokenSubjectType h) (hd_uniqueId h) (aw_cache w) = (Some a, aw_cache w)"
    by (rule loadFromCache_valid [OF assms(5,6)]) (use assms(7,8) in \<open>simp_all add: currentDateTime_def au_result_def\<close>)
  then have "run_cached add token_cache_class ae h' (w\<lparr>aw_notified := False\<rparr>) = (Inr (Some a), w\<lparr>aw_notified := True\<rparr>)"
    using assms(4,8) by (simp add: run_cached_def notifyBeforeAccessCache_def au_load_def au_cache_def token_cache_class_def
        sx_simps au_result_def)
  then show ?thesis
    by (simp add: runAsync_def run_body_def sx_simps assms(3) notifyAfterAccessCache_def au_cache_def token_cache_class_def)
qed

lemma preRun_updated:
  "av_updatedFromTemplate (aw_authenticator w) \<Longrightarrow> hd_supportADFS h \<or> av_authorityType (aw_authenticator w) = AAD \<Longrightarrow>
   (case hd_flow h of Interactive i \<Rightarrow> True | ForClient \<Rightarrow> True | _ \<Rightarrow> False) \<Longrightarrow>
   preRunAsync ae h w = (Inr h, w)"
  by (auto simp: preRunAsync_def au_updateFromTemplate_def au_net_def updateFromTemplateAsync_def sx_simps validateAuthorityType_def
      split: flow.splits)

lemma preRun_credential:
  "av_updatedFromTemplate (aw_authenticator w) \<Longrightarrow> hd_supportADFS h \<or> av_authorityType (aw_authenticator w) = AAD \<Longrightarrow>
   hd_flow h = WithCredential c \<Longrightarrow> uc_userName c \<noteq> [] \<Longrightarrow> preRunAsync ae h w = (Inr (h\<lparr>hd_displayableId := uc_userName c\<rparr>), w)"
  by (auto simp: preRunAsync_def au_updateFromTemplate_def au_net_def updateFromTemplateAsync_def sx_simps validateAuthorityType_def)

text \<open>
  C28: whoever a token is asked for interactively, the call returns the one valid token that
  the cache has for the resource, of whatever user, without a request.
\<close>

theorem cached_token_of_any_user:
  assumes "av_updatedFromTemplate (aw_authenticator w)" and "promptBehavior \<in> {PromptAuto, PromptNever}"
    and "resource \<noteq> []" and "clientId \<noteq> []" and "redirectUri \<noteq> []" and "url_fragment (Url redirectUri) = []"
    and "loadSingleItemFromCache (av_authority (aw_authenticator w)) resource clientId SubjectUser [] (aw_cache w) = Some (key, a)"
    and "equalsIC (tk_resource key) resource" and "ae_now ae + 300 < ar_expiresOn (au_result a w)"
    and "ar_accessToken (au_result a w) \<noteq> []"
  shows "acquireToken_interactive add token_cache_class True ae resource clientId redirectUri promptBehavior userId w =
    (Inr a, w\<lparr>aw_notified := True\<rparr>)"
proof -
  obtain u where u: "(if userId = [] then Inr anyUser else UserIdentifier_create userId OptionalDisplayableId) = Inr u"
    and un: "uid_uniqueId u = []"
    by (cases "userId = []") (auto simp: UserIdentifier_create_def uid_uniqueId_def isAnyUser_def)
  obtain h where h: "AcquireTokenInteractiveHandler_create ae (aw_authenticator w) True resource clientId redirectUri promptBehavior
      (Some u) [] = Inr h"
    and f: "hd_loadFromCache h" "hd_supportADFS h" "hd_resource h = resource" "ck_clientId (hd_clientKey h) = clientId"
      "hd_tokenSubjectType h = SubjectUser" "hd_uniqueId h = []" "\<exists>i. hd_flow h = Interactive i"
    using assms(2-6) un
    by (auto simp: AcquireTokenInteractiveHandler_create_def ClientKey_create_def AcquireTokenHandlerBase_create_def)
  have "preRunAsync ae h (w\<lparr>aw_notified := False\<rparr>) = (Inr h, w\<lparr>aw_notified := False\<rparr>)"
    by (rule preRun_updated) (use assms(1) f in auto)
  then have "runAsync add token_cache_class ae h w = (Inr a, w\<lparr>aw_notified := True\<rparr>)"
    by (rule run_from_cache [OF assms(1) f(1), where key = key]) (use assms f in simp_all)
  then show ?thesis using h u by (simp add: acquireToken_interactive_def with_handler_def sx_simps)
qed

section \<open>Parameters that are lost, and parameters that are added\<close>

text \<open>The extra query parameters of a handler never reach the address the dialog opens.\<close>

theorem extra_parameters_lost:
  "createAuthorizationUri walk a h (i\<lparr>in_extraQueryParameters := extra\<rparr>) b = createAuthorizationUri walk a h i b"
proof -
  have "rp_params (createAuthorizationRequest walk h (i\<lparr>in_extraQueryParameters := extra\<rparr>) hint b) =
      rp_params (createAuthorizationRequest walk h i hint b)" for hint
    by (simp add: createAuthorizationRequest_def Let_def)
  then show ?thesis unfolding createAuthorizationUri_def rp_toString_def Let_def by simp
qed

lemma getlines_suffix: "\<exists>ls. getlines d (x @ d # r) = ls @ getlines d r"
proof (induction x rule: length_induct)
  case (1 x)
  show ?case
  proof (cases "d \<in> set x")
    case True
    then obtain a b where x: "x = a @ d # b" "d \<notin> set a" by (metis split_list_first)
    then obtain ls where "getlines d (b @ d # r) = ls @ getlines d r" using 1 by fastforce
    then have "getlines d (x @ d # r) = (a # ls) @ getlines d r" using getlines_delim [OF x(2), of "b @ d # r"] x(1) by simp
    then show ?thesis by blast
  next
    case False
    then have "getlines d (x @ d # r) = [x] @ getlines d r" by (simp add: getlines_delim)
    then show ?thesis by blast
  qed
qed

lemma getlines_piece: "d \<notin> set f \<Longrightarrow> f \<noteq> [] \<Longrightarrow> y = [] \<or> hd y = d \<Longrightarrow> f \<in> set (getlines d (x @ d # f @ y))"
proof -
  assume f: "d \<notin> set f" "f \<noteq> []" and y: "y = [] \<or> hd y = d"
  obtain ls where l: "getlines d (x @ d # f @ y) = ls @ getlines d (f @ y)" using getlines_suffix by blast
  show ?thesis
  proof (cases y)
    case Nil
    then show ?thesis using f l by (simp add: getlines_last)
  next
    case (Cons c z)
    then have "getlines d (f @ y) = f # getlines d z" using y getlines_delim [OF f(1), of z] by simp
    then show ?thesis using l by simp
  qed
qed

lemma params_rest_append: "params_rest (ps @ qs) = params_rest ps @ params_rest qs"
  by (induction ps) simp_all

lemma params_text_entry: "e \<in> set ps \<Longrightarrow> \<exists>x y. params_text True ps = x @ fst e @ ''='' @ snd e @ params_rest y"
proof -
  assume "e \<in> set ps"
  then obtain p q where ps: "ps = p @ e # q" by (metis split_list)
  show ?thesis
  proof (cases p)
    case Nil
    then have "params_text True ps = [] @ fst e @ ''='' @ snd e @ params_rest q" by (simp add: ps params_text_rest)
    then show ?thesis by blast
  next
    case (Cons f p')
    then have "params_text True ps = (fst f @ ''='' @ snd f @ params_rest p' @ ''&'') @ fst e @ ''='' @ snd e @ params_rest q"
      by (simp add: ps params_text_rest params_rest_append)
    then show ?thesis by blast
  qed
qed

lemma params_find: "map_of (rp_params (addParam key v rp)) k =
    (if k = key \<and> map_of (rp_params rp) key = None then Some v else map_of (rp_params rp) k)"
  by (auto simp: addParam_def sm_insert_def map_add_def split: option.splits)

lemma params_added: "map_of (rp_params rp) key = None \<Longrightarrow> (key, v) \<in> set (rp_params (addParam key v rp))"
  by (simp add: addParam_def sm_insert_def)

lemma params_kept: "e \<in> set (rp_params rp) \<Longrightarrow> e \<in> set (rp_params (addParam key v rp))"
  by (simp add: addParam_def sm_insert_def)

text \<open>
  A password is put into the body of a request as it is: with a separator in it, it adds
  a field of its own choice, in whatever order the parameters are walked.
\<close>

theorem password_adds_field:
  assumes "addAdditionalRequestParameters ae (WithCredential c) (RequestParameters_create resource clientKey) = Inr rp"
    and "uc_password c = p @ ''&'' @ k @ ''='' @ x" and "set k \<inter> set ''&='' = {}" and "CHR ''&'' \<notin> set x"
    and "mset (walk (rp_params rp)) = mset (rp_params rp)"
  shows "(k, x) \<in> set (form_fields (rp_toString walk rp))"
proof -
  have "map_of (rp_params (RequestParameters_create resource clientKey)) ''password'' = None"
    by (auto simp: RequestParameters_create_def addClientKey_def Let_def params_find split: option.splits)
  then have "map_of (rp_params (addParam ''username'' u (addParam ''grant_type'' g (RequestParameters_create resource clientKey))))
      ''password'' = None" for u g
    by (simp add: params_find)
  then have "(''password'', uc_password c) \<in> set (rp_params rp)"
    using assms(1) unfolding addAdditionalRequestParameters_def flow.case sum.inject by (auto intro: params_kept params_added)
  then have "(''password'', uc_password c) \<in> set (walk (rp_params rp))" using assms(5) by (metis set_mset_mset)
  from params_text_entry [OF this] obtain b y where
    "rp_toString walk rp = b @ ''password'' @ ''='' @ uc_password c @ params_rest y"
    unfolding rp_toString_def fst_conv snd_conv by blast
  then have t: "rp_toString walk rp = (b @ ''password='' @ p) @ CHR ''&'' # (k @ ''='' @ x) @ params_rest y"
    by (simp add: assms(2))
  have "k @ ''='' @ x \<in> set (getlines (CHR ''&'') ((b @ ''password='' @ p) @ CHR ''&'' # (k @ ''='' @ x) @ params_rest y))"
  proof (rule getlines_piece)
    show "CHR ''&'' \<notin> set (k @ ''='' @ x)" using assms(3,4) by auto
    show "params_rest y = [] \<or> hd (params_rest y) = CHR ''&''" by (cases y) simp_all
  qed simp
  then have "form_field (k @ ''='' @ x) \<in> set (form_fields (rp_toString walk rp))"
    unfolding form_fields_def t set_map by (rule imageI)
  moreover have "form_field (k @ ''='' @ x) = (k, x)" using assms(3) by (intro form_field_of) auto
  ultimately show ?thesis by simp
qed

theorem password_adds_field_witness:
  "\<forall>ae. \<exists>rp. addAdditionalRequestParameters ae (WithCredential (UserCredential_create ''bob'' ''pw&resource=https://other''))
     (RequestParameters_create ''https://mail'' (ClientKey_of_proof ''app'')) = Inr rp \<and>
     (''resource'', ''https://other'') \<in> set (form_fields (rp_toString rev rp))"
proof
  fix ae :: "'a auth_env"
  obtain rp where rp: "addAdditionalRequestParameters ae (WithCredential (UserCredential_create ''bob'' ''pw&resource=https://other''))
     (RequestParameters_create ''https://mail'' (ClientKey_of_proof ''app'')) = Inr rp"
    by (simp add: addAdditionalRequestParameters_def)
  have "(''resource'', ''https://other'') \<in> set (form_fields (rp_toString rev rp))"
    by (rule password_adds_field [OF rp, of "''pw''"]) (simp_all add: UserCredential_create_def)
  then show "\<exists>rp. addAdditionalRequestParameters ae (WithCredential (UserCredential_create ''bob'' ''pw&resource=https://other''))
     (RequestParameters_create ''https://mail'' (ClientKey_of_proof ''app'')) = Inr rp \<and>
     (''resource'', ''https://other'') \<in> set (form_fields (rp_toString rev rp))"
    using rp by blast
qed

section \<open>Without the dialog\<close>

definition fails :: "('e, 's, 'a) sx \<Rightarrow> bool" where
  "fails m \<longleftrightarrow> (\<forall>w. \<exists>e w'. m w = (Inl e, w'))"

named_theorems fails_rules \<open>rules for computations that never return\<close>

lemma fails_throw [fails_rules]: "fails (throw e)" by (simp add: fails_def throw_def)
lemma fails_first [fails_rules]: "fails m \<Longrightarrow> fails (bnd m f)"
  by (auto simp: fails_def bnd_app split: prod.splits sum.splits) (metis Inl_Inr_False prod.inject)
lemma fails_then: "(\<And>x. fails (f x)) \<Longrightarrow> fails (bnd m f)" by (auto simp: fails_def bnd_def split: prod.splits sum.splits)
lemma fails_catch: "fails m \<Longrightarrow> (\<And>e. fails (g e)) \<Longrightarrow> fails (catchx m g)"
  by (auto simp: fails_def catchx_app split: prod.splits sum.splits) (metis Inl_Inr_False prod.inject)

lemma no_dialog_no_code: "ae_dialog ae = None \<Longrightarrow> hd_flow h = Interactive i \<Longrightarrow> fails (preTokenRequest ae h)"
  by (auto simp: fails_def preTokenRequest_def sendAuthorizeRequest_def WebUI_authenticate_def au_net_def sx_simps
      parseAuthorizeResponse_def verifyAuthorizationResult_def split: sum.splits)

lemma pre_run_flow: "preRunAsync ae h w = (Inr h', w') \<Longrightarrow> hd_flow h' = hd_flow h \<and> hd_loadFromCache h' = hd_loadFromCache h"
  by (auto simp: preRunAsync_def sx_simps split: prod.splits sum.splits flow.splits if_splits)

text \<open>
  In a library that was built without the dialog, which is how it is built by default, an
  interactive call that does not look into the cache never returns a token.
\<close>

theorem no_dialog_no_token:
  assumes "ae_dialog ae = None" and "\<not> (has_cache \<and> promptBehavior \<noteq> PromptAlways \<and> promptBehavior \<noteq> PromptRefreshSession)"
  shows "\<exists>e. fst (acquireToken_interactive add v has_cache ae resource clientId redirectUri promptBehavior userId w) = Inl e"
proof -
  have run: "\<exists>e w'. run_body add v ae h w = (Inl e, w')" if h: "hd_flow h = Interactive i" "\<not> hd_loadFromCache h" for h i w
  proof (cases "preRunAsync ae h w" rule: prod.exhaust)
    case (Pair r w1)
    show ?thesis
    proof (cases r)
      case (Inr h')
      then have h': "hd_flow h' = Interactive i" "\<not> hd_loadFromCache h'" using pre_run_flow [of ae h w h' w1] Pair h by auto
      have "fails (run_requested add v ae h')"
        unfolding run_requested_def by (intro fails_rules no_dialog_no_code [OF assms(1) h'(1)])
      then obtain e w2 where "run_requested add v ae h' w1 = (Inl e, w2)" unfolding fails_def by blast
      then show ?thesis using Pair Inr h' by (simp add: run_body_def run_cached_def sx_simps)
    qed (simp add: run_body_def sx_simps Pair)
  qed
  have async: "fails (runAsync add v ae h)" if h: "hd_flow h = Interactive i" "\<not> hd_loadFromCache h" for h i
  proof -
    have "fails (run_body add v ae h)" unfolding fails_def using run [OF h] by blast
    then show ?thesis unfolding runAsync_def seqx_def
      by (intro fails_then fails_catch) (auto intro: fails_then fails_throw)
  qed
  have "fails (with_handler (\<lambda>a. AcquireTokenInteractiveHandler_create ae a has_cache resource clientId redirectUri promptBehavior
         (Some uid) []) (runAsync add v ae))" for uid
    unfolding fails_def
  proof
    fix w
    show "\<exists>e w'. with_handler (\<lambda>a. AcquireTokenInteractiveHandler_create ae a has_cache resource clientId redirectUri promptBehavior
         (Some uid) []) (runAsync add v ae) w = (Inl e, w')"
    proof (cases "AcquireTokenInteractiveHandler_create ae (aw_authenticator w) has_cache resource clientId redirectUri promptBehavior
         (Some uid) []")
      case (Inr h)
      then obtain i where "hd_flow h = Interactive i" "\<not> hd_loadFromCache h"
        using assms(2) by (auto simp: AcquireTokenInteractiveHandler_create_def bindE_eq_Inr split: if_splits)
      then show ?thesis using async [of h i] Inr by (simp add: with_handler_def sx_simps fails_def)
    qed (simp add: with_handler_def sx_simps)
  qed
  then have "fails (acquireToken_interactive add v has_cache ae resource clientId redirectUri promptBehavior userId)"
    unfolding acquireToken_interactive_def by (intro fails_then)
  then show ?thesis unfolding fails_def by (metis fst_conv)
qed

section \<open>Instances\<close>

definition sample_auth :: "unit auth_env" where
  "sample_auth = \<lparr>ae_http = (\<lambda>n q. (NoHandle, n)), ae_released = id, ae_walk = id,
     ae_json = \<lparr>jl_parse = (\<lambda>s. Inr JNull), jl_dump = (\<lambda>j. None)\<rparr>, ae_EVP_DecodeBlock = zero_decode, ae_EVP_EncodeBlock = id,
     ae_dis = (\<lambda>i. 7), ae_now = 1000, ae_junk = False, ae_dialog = None\<rparr>"

definition sample_authenticator :: Authenticator where
  "sample_authenticator =
     \<lparr>av_updatedFromTemplate = True, av_validateAuthority = True, av_default = False,
      av_authority = ''https://login.windows.net/contoso.com/'', av_authorityType = AAD, av_isTenantless = False,
      av_authorizationUri = ''https://login.windows.net/contoso.com/oauth2/authorize'',
      av_tokenUri = ''https://login.windows.net/contoso.com/oauth2/token'',
      av_userRealmUri = ''https://login.windows.net/Common/UserRealm/'',
      av_selfSignedJwtAudience = ''https://login.windows.net/contoso.com/oauth2/token'', av_correlationId = guid_null\<rparr>"

definition alice_token :: AuthenticationResult where
  "alice_token = (AuthenticationResult_create False ''Bearer'' ''t'' [] 5000)
     \<lparr>ar_userInfo := Some (UserInfo_create\<lparr>ui_uniqueId := ''alice'', ui_displayableId := ''alice@contoso.com''\<rparr>)\<rparr>"

definition alice_key :: TokenCacheKey where
  "alice_key = TokenCacheKey_create ''https://login.windows.net/contoso.com/'' ''https://mail'' ''app'' SubjectUser (ar_userInfo alice_token)"

definition alice_world :: "(unit, unit) auth_world" where
  "alice_world = \<lparr>aw_authenticator = sample_authenticator,
     aw_cache = \<lparr>ts_objects = (\<lambda>a. alice_token), ts_next = 1, ts_dictionary = [(alice_key, 0)], ts_hasStateChanged = False,
       ts_file = None, ts_writable = False, ts_keys = ()\<rparr>, aw_net = (), aw_notified = False\<rparr>"

lemma alice_found:
  "loadSingleItemFromCache (av_authority (aw_authenticator alice_world)) ''https://mail'' ''app'' SubjectUser [] (aw_cache alice_world) =
   Some (alice_key, 0)"
  by (simp add: loadSingleItemFromCache_def queryCache_def alice_world_def alice_key_def TokenCacheKey_create_def sample_authenticator_def)

theorem cached_token_of_any_user_witness:
  "acquireToken_interactive (\<lambda>d e. e # d) token_cache_class True sample_auth ''https://mail'' ''app'' ''https://app/done'' PromptAuto
     ''bob@contoso.com'' alice_world = (Inr 0, alice_world\<lparr>aw_notified := True\<rparr>)"
  by (rule cached_token_of_any_user [where key = alice_key, OF _ _ _ _ _ _ alice_found])
    (simp_all add: alice_world_def sample_authenticator_def sample_auth_def alice_key_def TokenCacheKey_create_def au_result_def
      alice_token_def AuthenticationResult_create_def Url_def c_str_def url_fragment_def)

theorem no_dialog_no_token_witness:
  "\<exists>e. fst (acquireToken_interactive (\<lambda>d e. e # d) token_cache_class False sample_auth ''https://mail'' ''app'' ''https://app/done''
     PromptAuto ''bob@contoso.com'' alice_world) = Inl e"
  by (rule no_dialog_no_token) (simp_all add: sample_auth_def)

section \<open>Failures of a refresh\<close>

text \<open>What a computation throws, if it throws.\<close>

definition errs :: "('e \<Rightarrow> bool) \<Rightarrow> 'e + 'a \<Rightarrow> bool" where
  "errs Q r \<longleftrightarrow> (\<forall>e. r = Inl e \<longrightarrow> Q e)"

definition throws :: "('e \<Rightarrow> bool) \<Rightarrow> ('e, 's, 'a) sx \<Rightarrow> bool" where
  "throws Q m \<longleftrightarrow> (\<forall>w. errs Q (fst (m w)))"

named_theorems throws_rules \<open>rules for what a computation throws\<close>

lemma errs_Inr [throws_rules]: "errs Q (Inr x)" by (simp add: errs_def)
lemma errs_Inl: "Q e \<Longrightarrow> errs Q (Inl e)" by (simp add: errs_def)
lemma errs_bindE [throws_rules]: "errs Q r \<Longrightarrow> (\<And>x. errs Q (f x)) \<Longrightarrow> errs Q (bindE r f)"
  by (cases r) (simp_all add: errs_def)
lemma errs_if [throws_rules]: "errs Q r \<Longrightarrow> errs Q r' \<Longrightarrow> errs Q (if b then r else r')" by simp
lemma throws_ret [throws_rules]: "throws Q (ret x)" by (simp add: throws_def ret_def errs_def)
lemma throws_gets [throws_rules]: "throws Q (gets f)" by (simp add: throws_def gets_def errs_def)
lemma throws_modify [throws_rules]: "throws Q (modify f)" by (simp add: throws_def modify_def errs_def)
lemma throws_liftE [throws_rules]: "errs Q r \<Longrightarrow> throws Q (liftE r)" by (simp add: throws_def liftE_def)
lemma throws_bnd [throws_rules]: "throws Q m \<Longrightarrow> (\<And>x. throws Q (f x)) \<Longrightarrow> throws Q (bnd m f)"
proof (unfold throws_def, intro allI)
  fix w
  assume m: "\<forall>w. errs Q (fst (m w))" and f: "\<And>x. \<forall>w. errs Q (fst (f x w))"
  obtain r s where "m w = (r, s)" by fastforce
  then show "errs Q (fst (bnd m f w))" using m [THEN spec, of w] f by (cases r) (auto simp: bnd_app errs_def)
qed
lemma throws_catchx: "throws Q m \<Longrightarrow> (\<And>e w. Q e \<Longrightarrow> errs P (fst (f e w))) \<Longrightarrow> throws P (catchx m f)"
proof (unfold throws_def, intro allI)
  fix w
  assume m: "\<forall>w. errs Q (fst (m w))" and f: "\<And>e w. Q e \<Longrightarrow> errs P (fst (f e w))"
  obtain r s where "m w = (r, s)" by fastforce
  then show "errs P (fst (catchx m f w))" using m [THEN spec, of w] f by (cases r) (auto simp: catchx_def errs_def)
qed
lemma throws_seqx [throws_rules]: "throws Q m \<Longrightarrow> throws Q n \<Longrightarrow> throws Q (seqx m n)"
  by (simp add: seqx_def throws_bnd)
lemma throws_if [throws_rules]: "throws Q m \<Longrightarrow> throws Q n \<Longrightarrow> throws Q (if b then m else n)" by simp
lemma throws_zoom [throws_rules]: "throws Q m \<Longrightarrow> throws Q (au_net m)" "throws Q n \<Longrightarrow> throws Q (au_cache n)"
  by (auto simp: throws_def au_net_def au_cache_def zoom_app split: prod.splits) (metis fst_conv)+

text \<open>The one exception that a refresh would pass on.\<close>

definition not_invalid_request :: "auth_exn \<Rightarrow> bool" where
  "not_invalid_request e \<longleftrightarrow> \<not> (is_service e \<and> equalsIC (exn_error e) ''invalid_request'')"

lemma json_errors [throws_rules]:
  "errs not_invalid_request (getStringOrDefault j k d)" "errs not_invalid_request (getStringAsIntOrDefault j k n)"
  "errs not_invalid_request (getIntArrayOrEmpty j k)" "errs not_invalid_request (parse_or lib msg body)"
proof -
  have ints: "errs not_invalid_request (int_elements k js)" for js
    by (induction k js rule: int_elements.induct) (auto simp: errs_def not_invalid_request_def bindE_eq_Inl split: option.splits)
  show "errs not_invalid_request (getIntArrayOrEmpty j k)"
    using ints by (auto simp: getIntArrayOrEmpty_def errs_def not_invalid_request_def split: option.splits json.splits)
qed (auto simp: errs_def not_invalid_request_def getStringOrDefault_def getStringAsIntOrDefault_def parse_or_def
      split: option.splits json.splits sum.splits prod.splits if_splits)

lemma first_differs: "hd x \<in> {CHR ''e'', CHR ''H''} \<Longrightarrow> x \<noteq> [] \<Longrightarrow> \<not> equalsIC x ''invalid_request''"
proof
  assume x: "hd x \<in> {CHR ''e'', CHR ''H''}" "x \<noteq> []" and eq: "equalsIC x ''invalid_request''"
  have "hd (to_lower_string x) = hd (to_lower_string ''invalid_request'')" using eq by (simp only: equalsIC_iff)
  moreover have "hd (to_lower_string ''invalid_request'') = CHR ''i''" by code_simp
  moreover have "hd (to_lower_string x) = to_lower (hd x)" using x(2) by (simp add: to_lower_string_def hd_map)
  moreover have "to_lower CHR ''e'' = CHR ''e''" "to_lower CHR ''H'' = CHR ''h''" by code_simp+
  ultimately show False using x(1) by auto
qed

lemma post_errors: "errs not_invalid_request (post_answer lib reply)"
proof (cases reply)
  case (CurlError e)
  then show ?thesis using first_differs [of "''error: '' @ e"] by (simp add: post_answer_def errs_def not_invalid_request_def)
next
  case (Answer code body)
  have "errs not_invalid_request (Inl (RmsauthServiceException (''HTTP error '' @ x) []))" for x
    using first_differs [of "''HTTP error '' @ x"] by (simp add: errs_def not_invalid_request_def)
  then show ?thesis
    unfolding post_answer_def Answer auth_reply.case parseResponseError_def Let_def by (intro throws_rules)
qed (simp add: post_answer_def errs_def)

lemma token_errors: "errs not_invalid_request (deserializeTokenResponse lib body)"
  unfolding deserializeTokenResponse_def by (intro throws_rules)

lemma no_service_errors: "(\<And>e. r = Inl e \<Longrightarrow> \<not> is_service e) \<Longrightarrow> errs not_invalid_request r"
  by (auto simp: errs_def not_invalid_request_def)

lemma string_errors [throws_rules]:
  "errs not_invalid_request (su_split s c)" "errs not_invalid_request (su_replace s a b)"
  "errs not_invalid_request (su_base64Decode dec s)"
  by (rule no_service_errors, auto simp: su_split_def su_replace_def su_base64Decode_def split: if_splits option.splits)+

lemma id_token_errors [throws_rules]: "errs not_invalid_request (parseIdToken lib dec t)"
proof -
  have read: "errs not_invalid_request (read_IdToken q)" for q
    unfolding read_IdToken_def by (intro throws_rules)
  have bad: "errs not_invalid_request (Inl (RmsauthException x []))" for x :: string
    by (simp add: errs_def not_invalid_request_def)
  show ?thesis unfolding parseIdToken_def by (intro throws_rules read bad)
qed

lemma result_errors [throws_rules]: "errs not_invalid_request (parseTokenResponse lib dec now junk t)"
proof -
  have bad: "errs not_invalid_request (Inl (RmsauthException x y))" for x y :: string
    by (simp add: errs_def not_invalid_request_def)
  show ?thesis unfolding parseTokenResponse_def Let_def by (intro throws_rules bad)
qed

lemma throws_jobPost [throws_rules]: "throws not_invalid_request (jobPost ae url hs rp cid)"
  by (simp add: throws_def jobPost_def post_errors split: prod.splits)

lemma throws_tenant [throws_rules]: "throws not_invalid_request (au_updateTenantId t)"
  unfolding au_updateTenantId_def updateTenantId_def replaceTenantlessTenant_def by (intro throws_rules)

lemma throws_message [throws_rules]: "throws not_invalid_request (sendHttpMessageAsync ae h rp)"
proof -
  have "throws not_invalid_request (au_new_result r)" for r
    by (simp add: au_new_result_def throws_def au_cache_def zoom_app errs_def split: prod.splits)
  then show ?thesis
    unfolding sendHttpMessageAsync_def sendPostRequestAndDeserializeJsonResponseAsync_def
    by (intro throws_rules token_errors)
qed

lemma refresh_failed_outcome:
  "not_invalid_request e \<Longrightarrow> refresh_failed e w = (if is_rmsauth e then Inr None else Inl e, w)"
  by (cases e) (auto simp: refresh_failed_def not_invalid_request_def throw_def ret_def)

lemma throws_refresh: "throws (\<lambda>e. \<not> is_rmsauth e) (refreshAccessTokenAsync ae h a)"
proof -
  have handler: "errs (\<lambda>e. \<not> is_rmsauth e) (fst (refresh_failed e w))" if "not_invalid_request e" for e w
    using that by (simp add: refresh_failed_outcome errs_def)
  show ?thesis
    unfolding refreshAccessTokenAsync_def sendTokenRequestByRefreshTokenAsync_def
    by (intro throws_if throws_ret throws_catchx [where Q = not_invalid_request, OF _ handler]) (intro throws_rules)
qed

text \<open>
  C29: When a refresh fails, for whatever reason the service gives, the call is not told: the
  only exceptions that leave \<open>refreshAccessTokenAsync\<close> are those that are not of the library.
  Its own exception, that the token could not be refreshed, is never thrown.
\<close>

theorem refresh_failure_hidden:
  "case fst (refreshAccessTokenAsync ae h a w) of Inl e \<Rightarrow> \<not> is_rmsauth e | Inr r \<Rightarrow> True"
proof -
  have "errs (\<lambda>e. \<not> is_rmsauth e) (fst (refreshAccessTokenAsync ae h a w))"
    by (rule throws_refresh [unfolded throws_def, THEN spec])
  then show ?thesis by (simp add: errs_def split: sum.split)
qed

end
