(* ===== verification/TokenReuseProperties.thy ===== *)
theory TokenReuseProperties
  imports TokenCallProperties TokenCacheProperties
begin

text \<open>A token that is acquired once is used again: two calls of a context, one after the other.\<close>

section \<open>The entry of a call\<close>

text \<open>
  Nothing is stored for an authority, a client and a kind of subject: then a result that is stored
  for them becomes the one entry that is, whatever else the cache holds.
\<close>

lemma set_refresh_same: "list_all (\<lambda>e. snd e = a) xs \<Longrightarrow> set_refresh_tokens a xs s = s"
proof (induction xs)
  case (Cons e xs)
  have "update_result a (\<lambda>r. r\<lparr>ar_refreshToken := ar_refreshToken (ts_objects s a)\<rparr>) s = s"
    by (simp add: update_result_def)
  then show ?case using Cons by (cases e) simp
qed simp

lemma filter_none_add:
  assumes "hash_ok add" and "filter P d = []" and "P e"
  shows "filter P (add d e) = [e]"
proof -
  have "mset (filter P (add d e)) = {#e#}"
    using assms(2,3) hash_okD [OF assms(1), of d e] by (simp flip: mset_zero_iff)
  then show ?thesis unfolding mset_filter [symmetric] mset_single_iff .
qed

lemma queryCache_unique: "queryCache authority clientId subject [] d = [] \<Longrightarrow> queryCache authority clientId subject u d = []"
  by (auto simp: queryCache_def filter_empty_conv)

lemma stored_alone:
  assumes "hash_ok add" and "queryCache authority clientId subject [] (ts_dictionary s) = []" and "cc_onBeforeWrite v = ret ()"
  shows "storeToCache add v a authority resource clientId subject s =
    (Inr (), s\<lparr>ts_dictionary := add (ts_dictionary s)
        (TokenCacheKey_create authority resource clientId subject (ar_userInfo (ts_objects s a)), a), ts_hasStateChanged := True\<rparr>)"
proof -
  define k where "k = TokenCacheKey_create authority resource clientId subject (ar_userInfo (ts_objects s a))"
  let ?d = "ts_dictionary s"
  let ?s = "s\<lparr>ts_dictionary := add ?d (k, a)\<rparr>"
  have k: "tk_authority k = authority" "tk_clientId k = clientId" "tk_tokenSubjectType k = subject"
    by (simp_all add: k_def TokenCacheKey_create_def)
  have other: "\<not> (equalsIC (tk_authority (fst e)) authority \<and> (clientId = [] \<or> equalsIC (tk_clientId (fst e)) clientId) \<and>
      tk_tokenSubjectType (fst e) = subject)" if "e \<in> set ?d" for e
    using assms(2) that by (auto simp: queryCache_def filter_empty_conv)
  have "\<not> key_equals (fst e) k" if "e \<in> set ?d" for e
    using other [OF that] k by (auto simp: key_equals_def equalsIC_iff)
  then have none: "hm_find k ?d = None" by (auto simp: hm_find_def find_None_iff)
  have "list_all (\<lambda>e. snd e = a) (queryCache authority clientId subject u (add ?d (k, a)))" for u
    using other hash_ok_set [OF assms(1), of ?d "(k, a)"] by (fastforce simp: queryCache_def list_all_iff)
  then have "updateCachedMrrtRefreshTokens a authority clientId subject ?s = ?s"
    by (simp add: updateCachedMrrtRefreshTokens_def Let_def set_refresh_same split: option.split)
  then show ?thesis
    using none assms(3) by (simp add: storeToCache_def sx_simps hm_insert_def Let_def k_def [symmetric])
qed

lemma found_alone:
  assumes "queryCache authority clientId subject [] (ts_dictionary s) = [(key, a)]" and "equalsIC (tk_resource key) resource"
  shows "loadSingleItemFromCache authority resource clientId subject [] s = Some (key, a)"
  using assms by (simp add: loadSingleItemFromCache_def Let_def)

lemma nothing_found:
  "queryCache authority clientId subject [] (ts_dictionary s) = [] \<Longrightarrow>
   loadFromCache nw authority resource clientId subject uniqueId s = (None, s)"
  using queryCache_unique [of authority clientId subject "ts_dictionary s" uniqueId]
  by (simp add: loadFromCache_def loadSingleItemFromCache_def Let_def)

section \<open>The steps of a call that reaches the service\<close>

text \<open>What is left alone until the token is there.\<close>

definition at_rest :: "Authenticator \<Rightarrow> 'k token_state \<Rightarrow> bool \<Rightarrow> ('n, 'k) auth_world \<Rightarrow> bool" where
  "at_rest a c n w \<longleftrightarrow> aw_authenticator w = a \<and> aw_cache w = c \<and> aw_notified w = n"

lemma at_rest_net: "keeps (at_rest a c n) (au_net m)"
  by (auto simp: keeps_def at_rest_def au_net_def zoom_app split: prod.splits)

lemma authorization_at_rest: "keeps (at_rest a c n) (sendAuthorizeRequest ae h i)"
  unfolding sendAuthorizeRequest_def by (intro keeps_rules at_rest_net)

lemma pre_request_at_rest: "keeps (at_rest a c n) (preTokenRequest ae h)"
  unfolding preTokenRequest_def by (auto split: flow.splits intro!: keeps_rules at_rest_net authorization_at_rest)

lemma pre_request_handler:
  "preTokenRequest ae h w = (Inr h', w') \<Longrightarrow> hd_storeToCache h' = hd_storeToCache h \<and> hd_resource h' = hd_resource h \<and>
     hd_clientKey h' = hd_clientKey h \<and> hd_tokenSubjectType h' = hd_tokenSubjectType h"
  by (cases "hd_flow h") (auto simp: preTokenRequest_def sx_simps split: prod.splits sum.splits)

lemma parsed_token: "parseTokenResponse lib dec now junk t = Inr r \<Longrightarrow> ar_accessToken r \<noteq> []"
  by (auto simp: parseTokenResponse_def Let_def AuthenticationResult_create_def updateTenantAndUserInfo_def bindE_eq_Inr
      split: if_splits option.splits)

definition same_file :: "'k token_state \<Rightarrow> 'k token_state \<Rightarrow> bool" where
  "same_file s t \<longleftrightarrow> ts_file s = ts_file t \<and> ts_writable s = ts_writable t \<and> ts_keys s = ts_keys t"

lemma token_sent:
  assumes "sendTokenRequestAsync ae h w = (Inr a, w')"
  shows "aw_authenticator w' = aw_authenticator w \<and> aw_notified w' = aw_notified w \<and>
    ts_dictionary (aw_cache w') = ts_dictionary (aw_cache w) \<and> ar_accessToken (au_result a w') \<noteq> [] \<and>
    a < ts_next (aw_cache w') \<and> same_file (aw_cache w') (aw_cache w)"
  using assms
  by (auto simp: sendTokenRequestAsync_def sendHttpMessageAsync_def sx_simps au_net_def au_new_result_def au_cache_def new_result_def
      au_result_def parsed_token same_file_def split: prod.splits sum.splits)

lemma result_accepted:
  assumes "postTokenRequest h a w = (Inr u, w')" and "\<not> av_isTenantless (aw_authenticator w')"
  shows "w' = w"
proof -
  have "(\<exists>x. updateTenantId t (aw_authenticator w) = Inr x \<and> w' = w\<lparr>aw_authenticator := x\<rparr>)" if "t = ar_tenantId (au_result a w)" for t
    using assms(1) that by (auto simp: postTokenRequest_def au_updateTenantId_def sx_simps split: sum.splits flow.splits)
  then show ?thesis using assms(2) by (auto simp: updateTenantId_def bindE_eq_Inr split: if_splits)
qed

text \<open>What a call leaves behind for the next one.\<close>

definition ready ::
  "(entry list \<Rightarrow> entry \<Rightarrow> entry list) \<Rightarrow> entry list \<Rightarrow> handler \<Rightarrow> nat \<Rightarrow> ('n, 'k) auth_world \<Rightarrow> bool" where
  "ready add d h a w \<longleftrightarrow> aw_notified w \<and> ar_accessToken (au_result a w) \<noteq> [] \<and>
     (\<exists>u. ts_dictionary (aw_cache w) = add d (TokenCacheKey_create (av_authority (aw_authenticator w)) (hd_resource h)
        (ck_clientId (hd_clientKey h)) (hd_tokenSubjectType h) u, a))"

text \<open>The cache has nothing for the authority, the client and the kind of subject of a handler.\<close>

definition nothing_for :: "Authenticator \<Rightarrow> handler \<Rightarrow> entry list \<Rightarrow> bool" where
  "nothing_for a h d \<longleftrightarrow> queryCache (av_authority a) (ck_clientId (hd_clientKey h)) (hd_tokenSubjectType h) [] d = []"

lemma requested_ready:
  assumes "run_requested add v ae h w = (Inr a, w')" and "aw_notified w" and "hd_storeToCache h"
    and "nothing_for (aw_authenticator w) h (ts_dictionary (aw_cache w))" and "hash_ok add"
    and "\<not> av_isTenantless (aw_authenticator w')" and "cc_onBeforeWrite v = ret ()"
  shows "ready add (ts_dictionary (aw_cache w)) h a w' \<and> aw_authenticator w' = aw_authenticator w" and "a < ts_next (aw_cache w')"
    and "ts_hasStateChanged (aw_cache w')" and "same_file (aw_cache w') (aw_cache w)"
proof -
  obtain h1 w1 where p: "preTokenRequest ae h w = (Inr h1, w1)"
    and s: "bnd (sendTokenRequestAsync ae h1) (\<lambda>result. seqx (postTokenRequest h1 result)
     (seqx (if hd_storeToCache h1
            then seqx (bnd (gets aw_notified) (\<lambda>n. if n then ret () else notifyBeforeAccessCache v))
                   (au_store add v h1 result)
            else ret ()) (ret result))) w1 = (Inr a, w')"
    using assms(1) [unfolded run_requested_def] by (rule bnd_cases) auto
  have r1: "aw_authenticator w1 = aw_authenticator w" "aw_notified w1" "aw_cache w1 = aw_cache w"
    using pre_request_at_rest [of "aw_authenticator w" "aw_cache w" "aw_notified w" ae h] p assms(2)
    by (auto simp: keeps_def at_rest_def dest!: spec [of _ w])
  obtain b w2 where m: "sendTokenRequestAsync ae h1 w1 = (Inr b, w2)"
    and t: "seqx (postTokenRequest h1 b)
     (seqx (if hd_storeToCache h1
            then seqx (bnd (gets aw_notified) (\<lambda>n. if n then ret () else notifyBeforeAccessCache v))
                   (au_store add v h1 b)
            else ret ()) (ret b)) w2 = (Inr a, w')"
    using s by (rule bnd_cases) auto
  obtain u w3 where q: "postTokenRequest h1 b w2 = (Inr u, w3)"
    and st: "seqx (if hd_storeToCache h1
            then seqx (bnd (gets aw_notified) (\<lambda>n. if n then ret () else notifyBeforeAccessCache v))
                   (au_store add v h1 b)
            else ret ()) (ret b) w3 = (Inr a, w')"
    using t unfolding seqx_def [of "postTokenRequest h1 b"] by (rule bnd_cases) auto
  have h1: "hd_storeToCache h1" "hd_resource h1 = hd_resource h" "hd_clientKey h1 = hd_clientKey h"
    "hd_tokenSubjectType h1 = hd_tokenSubjectType h"
    using pre_request_handler [OF p] assms(3) by simp_all
  note r2 = token_sent [OF m]
  have a3: "aw_authenticator w' = aw_authenticator w3"
    using st by (auto simp: sx_simps au_store_def au_cache_def notifyBeforeAccessCache_def split: prod.splits sum.splits if_splits)
  have w3: "w3 = w2" by (rule result_accepted [OF q]) (use a3 assms(6) in simp)
  define c where "c = (aw_cache w2)\<lparr>ts_dictionary := add (ts_dictionary (aw_cache w2))
      (TokenCacheKey_create (av_authority (aw_authenticator w2)) (hd_resource h1)
        (ck_clientId (hd_clientKey h1)) (hd_tokenSubjectType h1) (ar_userInfo (ts_objects (aw_cache w2) b)), b),
      ts_hasStateChanged := True\<rparr>"
  have "storeToCache add v b (av_authority (aw_authenticator w2)) (hd_resource h1)
      (ck_clientId (hd_clientKey h1)) (hd_tokenSubjectType h1) (aw_cache w2) = (Inr (), c)"
    unfolding c_def by (rule stored_alone [OF assms(5) _ assms(7)])
      (use assms(4) r1 r2 h1 in \<open>simp add: nothing_for_def\<close>)
  then have z: "a = b" "w' = w2\<lparr>aw_cache := c\<rparr>"
    using st w3 h1(1) r1(2) r2 by (simp_all add: sx_simps au_store_def au_cache_def)
  then show "ready add (ts_dictionary (aw_cache w)) h a w' \<and> aw_authenticator w' = aw_authenticator w"
    using r1 r2 h1 by (auto simp: ready_def au_result_def c_def)
  show "a < ts_next (aw_cache w')" "ts_hasStateChanged (aw_cache w')" "same_file (aw_cache w') (aw_cache w)"
    using z r1(3) r2 by (simp_all add: c_def same_file_def)
qed

section \<open>The beginning of a call\<close>

lemma updated:
  assumes "au_updateFromTemplate ae cid w = (Inr u, w')"
  shows "av_updatedFromTemplate (aw_authenticator w') \<and> av_authority (aw_authenticator w') = av_authority (aw_authenticator w) \<and>
    av_correlationId (aw_authenticator w') = av_correlationId (aw_authenticator w) \<and>
    aw_cache w' = aw_cache w \<and> aw_notified w' = aw_notified w"
  using assms
  by (auto simp: au_updateFromTemplate_def au_net_def sx_simps updateFromTemplateAsync_def from_template_def bindE_eq_Inr
      split: prod.splits sum.splits if_splits)

lemma pre_run_done:
  assumes "preRunAsync ae h w = (Inr h', w')"
  shows "av_updatedFromTemplate (aw_authenticator w')" and "aw_cache w' = aw_cache w \<and> aw_notified w' = aw_notified w"
    and "av_correlationId (aw_authenticator w') = av_correlationId (aw_authenticator w)"
    and "av_authority (aw_authenticator w') = av_authority (aw_authenticator w)"
    and "hd_loadFromCache h' = hd_loadFromCache h \<and> hd_storeToCache h' = hd_storeToCache h \<and> hd_resource h' = hd_resource h \<and>
      hd_clientKey h' = hd_clientKey h \<and> hd_tokenSubjectType h' = hd_tokenSubjectType h \<and> hd_uniqueId h' = hd_uniqueId h"
    and "au_updateFromTemplate ae2 (hd_correlationId k) x = (Inr (), y) \<Longrightarrow> aw_authenticator y = aw_authenticator w' \<Longrightarrow>
      hd_flow k = hd_flow h \<Longrightarrow> hd_supportADFS k = hd_supportADFS h \<Longrightarrow> \<exists>d. preRunAsync ae2 k x = (Inr (k\<lparr>hd_displayableId := d\<rparr>), y)"
    and "aw_authenticator y = aw_authenticator w' \<Longrightarrow> au_updateFromTemplate ae2 cid y = (Inr (), y)"
proof -
  obtain u w1 where u: "au_updateFromTemplate ae (hd_correlationId h) w = (Inr u, w1)"
    and r: "bnd (gets aw_authenticator) (\<lambda>a. bnd (liftE (validateAuthorityType h a)) (\<lambda>_.
       (case hd_flow h of
          WithCredential c \<Rightarrow>
            if uc_userName c = [] then throw (RmsauthException ''userCredential_->userName()'' ''the value is empty'')
            else ret (h\<lparr>hd_displayableId := uc_userName c\<rparr>)
        | WithAssertion u \<Rightarrow> ret (h\<lparr>hd_displayableId := ua_userName u\<rparr>)
        | _ \<Rightarrow> ret h))) w1 = (Inr h', w')"
    using assms [unfolded preRunAsync_def seqx_def] by (rule bnd_cases) auto
  have w1: "w1 = w'" using r by (auto simp: sx_simps split: sum.splits flow.splits if_splits)
  note up = updated [OF u, unfolded w1]
  show "av_updatedFromTemplate (aw_authenticator w')" and "aw_cache w' = aw_cache w \<and> aw_notified w' = aw_notified w"
    and "av_correlationId (aw_authenticator w') = av_correlationId (aw_authenticator w)"
    and "av_authority (aw_authenticator w') = av_authority (aw_authenticator w)"
    using up by simp_all
  show "hd_loadFromCache h' = hd_loadFromCache h \<and> hd_storeToCache h' = hd_storeToCache h \<and> hd_resource h' = hd_resource h \<and>
      hd_clientKey h' = hd_clientKey h \<and> hd_tokenSubjectType h' = hd_tokenSubjectType h \<and> hd_uniqueId h' = hd_uniqueId h"
    using r by (auto simp: sx_simps split: sum.splits flow.splits if_splits)
  show "aw_authenticator y = aw_authenticator w' \<Longrightarrow> au_updateFromTemplate ae2 cid y = (Inr (), y)"
    using up by (simp add: au_updateFromTemplate_def au_net_def updateFromTemplateAsync_def sx_simps)
  assume x: "au_updateFromTemplate ae2 (hd_correlationId k) x = (Inr (), y)" "aw_authenticator y = aw_authenticator w'"
    and k: "hd_flow k = hd_flow h" "hd_supportADFS k = hd_supportADFS h"
  have "validateAuthorityType k (aw_authenticator y) = Inr ()"
    using r x(2) w1 k by (auto simp: sx_simps validateAuthorityType_def split: sum.splits if_splits)
  moreover have "hd_flow h = WithCredential c \<Longrightarrow> uc_userName c \<noteq> []" for c
    using r by (auto simp: sx_simps split: sum.splits if_splits)
  moreover have "\<exists>d. k = k\<lparr>hd_displayableId := d\<rparr>" by (rule exI [of _ "hd_displayableId k"]) simp
  ultimately show "\<exists>d. preRunAsync ae2 k x = (Inr (k\<lparr>hd_displayableId := d\<rparr>), y)"
    using k x(1) by (cases "hd_flow h") (auto simp: preRunAsync_def sx_simps)
qed

section \<open>Two calls\<close>

lemma run_first:
  assumes "runAsync add v ae h w = (Inr a, w')" and "hd_loadFromCache h" and "hd_storeToCache h"
    and "nothing_for (aw_authenticator w) h (ts_dictionary (aw_cache w))" and "hash_ok add" and "\<not> av_isTenantless (aw_authenticator w')"
    and "cc_onBeforeAccess v (aw_cache w) = (Inr (), aw_cache w)" and "cc_onBeforeWrite v = ret ()"
  obtains h' w1 w2 where "preRunAsync ae h (w\<lparr>aw_notified := False\<rparr>) = (Inr h', w1)" and "aw_authenticator w1 = aw_authenticator w'"
    and "notifyAfterAccessCache v w2 = (Inr (), w')" and "ready add (ts_dictionary (aw_cache w)) h a w2"
    and "a < ts_next (aw_cache w2)" and "ts_hasStateChanged (aw_cache w2)" and "same_file (aw_cache w2) (aw_cache w)"
    and "av_updatedFromTemplate (aw_authenticator w2)" and "aw_authenticator w2 = aw_authenticator w'"
proof -
  let ?w = "w\<lparr>aw_notified := False\<rparr>"
  have "run_body add v ae h ?w = (Inr a, w')"
    using assms(1) by (auto simp: runAsync_def sx_simps catchx_app split: prod.splits sum.splits if_splits)
  then obtain h' w1 where p: "preRunAsync ae h ?w = (Inr h', w1)"
    and r: "bnd (run_cached add v ae h') (\<lambda>cached.
     bnd (case cached of Some result \<Rightarrow> ret result | None \<Rightarrow> run_requested add v ae h') (\<lambda>result.
     seqx (notifyAfterAccessCache v) (ret result))) w1 = (Inr a, w')"
    unfolding run_body_def by (rule bnd_cases) auto
  note p' = pre_run_done [OF p]
  have "run_cached add v ae h' w1 = (Inr None, w1\<lparr>aw_notified := True\<rparr>)"
    using p'(2,4,5) assms(2,4,7)
    by (simp add: run_cached_def nothing_for_def notifyBeforeAccessCache_def au_load_def au_cache_def sx_simps nothing_found)
  then have "bnd (run_requested add v ae h') (\<lambda>result.
     seqx (notifyAfterAccessCache v) (ret result)) (w1\<lparr>aw_notified := True\<rparr>) = (Inr a, w')"
    using r by (simp add: bnd_app)
  then obtain b w2 where q: "run_requested add v ae h' (w1\<lparr>aw_notified := True\<rparr>) = (Inr b, w2)"
    and t: "seqx (notifyAfterAccessCache v) (ret b) w2 = (Inr a, w')"
    by (rule bnd_cases) auto
  have n: "b = a" "notifyAfterAccessCache v w2 = (Inr (), w')"
    using t by (auto simp: sx_simps split: prod.splits sum.splits)
  have a2: "aw_authenticator w2 = aw_authenticator w'"
    using n(2) by (auto simp: notifyAfterAccessCache_def au_cache_def sx_simps split: prod.splits if_splits)
  note z = requested_ready [OF q [unfolded n(1)], simplified, OF _ _ assms(5)]
  have y: "ready add (ts_dictionary (aw_cache w)) h' a w2 \<and> aw_authenticator w2 = aw_authenticator w1" "a < ts_next (aw_cache w2)"
    "ts_hasStateChanged (aw_cache w2)" "same_file (aw_cache w2) (aw_cache w)"
    using z p'(2,4,5) assms(3-6,8) a2 by (simp_all add: nothing_for_def)
  show thesis
  proof (rule that [OF p])
    show "notifyAfterAccessCache v w2 = (Inr (), w')" by (rule n)
    show "ready add (ts_dictionary (aw_cache w)) h a w2" using y(1) p'(5) by (auto simp: ready_def)
    show "av_updatedFromTemplate (aw_authenticator w2)" using y(1) p'(1) by simp
  qed (use y a2 in simp_all)
qed

lemma ready_found:
  assumes "ready add d h a w" and "hash_ok add" and "nothing_for (aw_authenticator w) h d"
  shows "\<exists>u. queryCache (av_authority (aw_authenticator w)) (ck_clientId (hd_clientKey h)) (hd_tokenSubjectType h) []
    (ts_dictionary (aw_cache w)) = [(TokenCacheKey_create (av_authority (aw_authenticator w)) (hd_resource h)
      (ck_clientId (hd_clientKey h)) (hd_tokenSubjectType h) u, a)]"
proof -
  obtain u where u: "ts_dictionary (aw_cache w) = add d (TokenCacheKey_create (av_authority (aw_authenticator w)) (hd_resource h)
      (ck_clientId (hd_clientKey h)) (hd_tokenSubjectType h) u, a)"
    using assms(1) by (auto simp: ready_def)
  show ?thesis unfolding u using assms(3)
    by (intro exI [of _ u]) (simp add: queryCache_def nothing_for_def filter_none_add [OF assms(2)] TokenCacheKey_create_def)
qed

lemma run_again:
  assumes "runAsync add token_cache_class ae h w = (Inr a, w')" and "hd_loadFromCache h" and "hd_storeToCache h"
    and "hd_uniqueId h = []" and "nothing_for (aw_authenticator w) h (ts_dictionary (aw_cache w))" and "hash_ok add"
    and "\<not> av_isTenantless (aw_authenticator w')" and "ae_now ae2 + 300 < ar_expiresOn (au_result a w')"
  shows "runAsync add token_cache_class ae2 (h\<lparr>hd_correlationId := g\<rparr>) w' = (Inr a, w')"
proof -
  obtain h' w1 w2 where p: "preRunAsync ae h (w\<lparr>aw_notified := False\<rparr>) = (Inr h', w1)" "aw_authenticator w1 = aw_authenticator w'"
    and f: "notifyAfterAccessCache token_cache_class w2 = (Inr (), w')" "ready add (ts_dictionary (aw_cache w)) h a w2"
      "av_updatedFromTemplate (aw_authenticator w2)"
    by (rule run_first [OF assms(1-3,5-7)]) (auto simp: token_cache_class_def sx_simps)
  have "w2 = w'" using f(1) by (auto simp: notifyAfterAccessCache_def au_cache_def token_cache_class_def sx_simps split: if_splits)
  note first = f(2,3) [unfolded this]
  let ?h = "h\<lparr>hd_correlationId := g\<rparr>" and ?w = "w'\<lparr>aw_notified := False\<rparr>"
  have "au_updateFromTemplate ae2 g ?w = (Inr (), ?w)" by (rule pre_run_done(7) [OF p(1)]) (simp add: p(2))
  then obtain d where d: "preRunAsync ae2 ?h ?w = (Inr (?h\<lparr>hd_displayableId := d\<rparr>), ?w)"
    using pre_run_done(6) [OF p(1), of ae2 ?h ?w ?w] p(2) by auto
  have n: "nothing_for (aw_authenticator w') h (ts_dictionary (aw_cache w))"
    using assms(5) pre_run_done(4) [OF p(1)] p(2) by (simp add: nothing_for_def)
  obtain u where u: "queryCache (av_authority (aw_authenticator w')) (ck_clientId (hd_clientKey h)) (hd_tokenSubjectType h) []
      (ts_dictionary (aw_cache w')) = [(TokenCacheKey_create (av_authority (aw_authenticator w')) (hd_resource h)
        (ck_clientId (hd_clientKey h)) (hd_tokenSubjectType h) u, a)]"
    using ready_found [OF first(1) assms(6) n] by blast
  have t: "aw_notified w'" "ar_accessToken (au_result a w') \<noteq> []" using first(1) by (simp_all add: ready_def)
  have "runAsync add token_cache_class ae2 ?h w' = (Inr a, w'\<lparr>aw_notified := True\<rparr>)"
    by (rule run_from_cache [OF first(2) _ d _ _ _ assms(8) t(2), where key = "TokenCacheKey_create (av_authority (aw_authenticator w'))
          (hd_resource h) (ck_clientId (hd_clientKey h)) (hd_tokenSubjectType h) u"])
      (use assms(2,4) found_alone [OF u] in \<open>simp_all add: TokenCacheKey_create_def\<close>)
  then show ?thesis using t(1) by simp
qed

fun call_handler :: "'n auth_env \<Rightarrow> token_call \<Rightarrow> Authenticator \<Rightarrow> auth_exn + handler" where
  "call_handler ae (CallInteractive r c u p i) a = AcquireTokenInteractiveHandler_create ae a True r c u p
     (Some (if i = [] then anyUser else \<lparr>uid_id = i, uid_type = OptionalDisplayableId\<rparr>)) []"
| "call_handler ae (CallCredential r c u) a = AcquireTokenNonInteractiveHandler_create ae a True r c u"
| "call_handler ae (CallAssertion r c u) a = AcquireTokenNonInteractiveHandler_assertion ae a True r c u"
| "call_handler ae (CallClient r c) a = (case c of None \<Rightarrow> Inl NullPointer
     | Some c \<Rightarrow> AcquireTokenForClientHandler_create ae a True r (ClientKey_of_credential c))"

lemma do_call_handler:
  "do_call add v True ae c = with_handler (call_handler ae c) (runAsync add v ae)"
  by (cases c) (auto simp: acquireToken_interactive_def acquireToken_credential_def acquireToken_assertion_def
      acquireToken_client_def UserIdentifier_create_def with_handler_def sx_simps fun_eq_iff)

text \<open>The calls that look into the cache first.\<close>

definition looks_up :: "token_call \<Rightarrow> bool" where
  "looks_up c = (case c of CallInteractive r cl u p i \<Rightarrow> p \<noteq> PromptAlways \<and> p \<noteq> PromptRefreshSession | _ \<Rightarrow> True)"

lemma call_handler_fields:
  "call_handler ae c a = Inr h \<Longrightarrow> hd_uniqueId h = [] \<and> hd_storeToCache h \<and> (looks_up c \<longrightarrow> hd_loadFromCache h)"
  by (cases c) (auto simp: AcquireTokenInteractiveHandler_create_def AcquireTokenNonInteractiveHandler_create_def
      AcquireTokenNonInteractiveHandler_assertion_def AcquireTokenForClientHandler_create_def AcquireTokenHandlerBase_create_def
      bindE_eq_Inr looks_up_def uid_uniqueId_def isAnyUser_def split: if_splits option.splits)

lemma call_handler_again:
  "call_handler ae c a = Inr h \<Longrightarrow> \<exists>g. call_handler ae2 c a2 = Inr (h\<lparr>hd_correlationId := g\<rparr>)"
  by (cases c) (auto simp: AcquireTokenInteractiveHandler_create_def AcquireTokenNonInteractiveHandler_create_def
      AcquireTokenNonInteractiveHandler_assertion_def AcquireTokenForClientHandler_create_def AcquireTokenHandlerBase_create_def
      bindE_eq_Inr split: if_splits option.splits)

text \<open>The client and the kind of subject a call asks for.\<close>

fun call_client :: "token_call \<Rightarrow> string" where
  "call_client (CallInteractive r c u p i) = c"
| "call_client (CallCredential r c u) = c"
| "call_client (CallAssertion r c u) = c"
| "call_client (CallClient r c) = (case c of None \<Rightarrow> [] | Some c \<Rightarrow> cred_clientId c)"

fun call_subject :: "token_call \<Rightarrow> TokenSubjectType" where
  "call_subject (CallClient r c) = SubjectClient"
| "call_subject _ = SubjectUser"

lemma call_handler_asks:
  "call_handler ae c a = Inr h \<Longrightarrow> ck_clientId (hd_clientKey h) = call_client c \<and> hd_tokenSubjectType h = call_subject c"
  by (cases c) (auto simp: AcquireTokenInteractiveHandler_create_def AcquireTokenNonInteractiveHandler_create_def
      AcquireTokenNonInteractiveHandler_assertion_def AcquireTokenForClientHandler_create_def AcquireTokenHandlerBase_create_def
      ClientKey_create_def ClientKey_of_credential_def bindE_eq_Inr split: if_splits option.splits)

section \<open>An instance\<close>

text \<open>A service that grants a token for an hour, and a context that has none.\<close>

definition service_auth :: "unit auth_env" where
  "service_auth = sample_auth\<lparr>ae_http := (\<lambda>n q. (Answer 200 ''{}'', n)),
     ae_json := \<lparr>jl_parse = (\<lambda>s. Inr (JObject [(''access_token'', JString ''t''), (''expires_in'', JInt 3600)])), jl_dump = (\<lambda>j. None)\<rparr>\<rparr>"

text \<open>The cache holds a token of Alice for the same client and resource.\<close>

definition alice_mail_key :: TokenCacheKey where
  "alice_mail_key = TokenCacheKey_create (av_authority sample_authenticator) ''https://mail'' ''app'' SubjectUser (ar_userInfo alice_token)"

definition fresh_world :: "(unit, unit) auth_world" where
  "fresh_world = \<lparr>aw_authenticator = sample_authenticator,
     aw_cache = \<lparr>ts_objects = (\<lambda>a. alice_token), ts_next = 1, ts_dictionary = [(alice_mail_key, 0)], ts_hasStateChanged = False,
       ts_file = None, ts_writable = False, ts_keys = ()\<rparr>, aw_net = (), aw_notified = False\<rparr>"

definition service_token :: AuthenticationResult where
  "service_token = AuthenticationResult_create False [] ''t'' [] 4600"

lemma service_post: "jobPost service_auth url hs rp cid n = (Inr ''{}'', n)"
  by (simp add: jobPost_def service_auth_def post_answer_def)

lemma service_answer:
  "\<exists>t. deserializeTokenResponse (ae_json service_auth) b = Inr t \<and>
     parseTokenResponse (ae_json service_auth) (ae_EVP_DecodeBlock service_auth) (ae_now service_auth) (ae_junk service_auth) t =
       Inr service_token"
  by (simp add: deserializeTokenResponse_def parse_or_def service_auth_def sample_auth_def getStringOrDefault_def
      getStringAsIntOrDefault_def getIntArrayOrEmpty_def json_find_def json_number_def as_int_def parseTokenResponse_def
      parseIdToken_def Let_def service_token_def AuthenticationResult_create_def)

lemma service_sent:
  "hd_flow h = ForClient \<Longrightarrow> sendTokenRequestAsync service_auth h w =
     (Inr (ts_next (aw_cache w)), w\<lparr>aw_cache := snd (new_result service_token (aw_cache w))\<rparr>)"
  using service_answer [of "''{}''"]
  by (auto simp: sendTokenRequestAsync_def addAdditionalRequestParameters_def sendHttpMessageAsync_def au_net_def au_new_result_def
      au_cache_def sendPostRequestAndDeserializeJsonResponseAsync_def sx_simps service_post new_result_def)

definition mail_call :: token_call where
  "mail_call = CallClient ''https://mail'' (Some \<lparr>cred_clientId = ''app'', cred_clientSecret = ''s''\<rparr>)"

lemma service_grants:
  "\<exists>w. do_call (\<lambda>d e. e # d) token_cache_class True service_auth mail_call fresh_world = (Inr 1, w) \<and>
     aw_authenticator w = sample_authenticator \<and> au_result 1 w = service_token"
  by (simp add: mail_call_def acquireToken_client_def with_handler_def AcquireTokenForClientHandler_create_def
      AcquireTokenHandlerBase_create_def sx_simps runAsync_def run_body_def preRun_updated fresh_world_def sample_authenticator_def
      run_cached_def notifyBeforeAccessCache_def au_load_def au_cache_def token_cache_class_def nothing_found run_requested_def
      preTokenRequest_def service_sent new_result_def postTokenRequest_def au_updateTenantId_def updateTenantId_def au_store_def
      storeToCache_def Let_def updateCachedMrrtRefreshTokens_def au_result_def service_token_def AuthenticationResult_create_def
      notifyAfterAccessCache_def queryCache_def alice_mail_key_def TokenCacheKey_create_def SubjectUser_def SubjectClient_def)

text \<open>
  C10: what a call got from the service, the same call later returns from the cache: the same
  token, with no request, no dialog and no change of the context, until five minutes before
  the token expires. The cache is the one in memory, and before the call it had nothing for the
  authority, the client and the kind of subject (client or user), whatever else it had; and the
  authority names a tenant.
\<close>

theorem token_reused:
  assumes "do_call add token_cache_class True ae c w = (Inr a, w')" and "looks_up c"
    and "queryCache (av_authority (aw_authenticator w)) (call_client c) (call_subject c) [] (ts_dictionary (aw_cache w)) = []"
    and "hash_ok add" and "\<not> av_isTenantless (aw_authenticator w')"
    and "ae_now ae2 + 300 < ar_expiresOn (au_result a w')"
  shows "do_call add token_cache_class True ae2 c w' = (Inr a, w')"
proof -
  obtain h where h: "call_handler ae c (aw_authenticator w) = Inr h" and r: "runAsync add token_cache_class ae h w = (Inr a, w')"
    using assms(1) by (auto simp: do_call_handler with_handler_def sx_simps split: sum.splits)
  obtain g where g: "call_handler ae2 c (aw_authenticator w') = Inr (h\<lparr>hd_correlationId := g\<rparr>)"
    using call_handler_again [OF h] by blast
  have "runAsync add token_cache_class ae2 (h\<lparr>hd_correlationId := g\<rparr>) w' = (Inr a, w')"
    by (rule run_again [OF r]) (use call_handler_fields [OF h] call_handler_asks [OF h] assms(2-6) in \<open>simp_all add: nothing_for_def\<close>)
  then show ?thesis using g by (simp add: do_call_handler with_handler_def sx_simps)
qed

theorem token_reused_witness:
  "\<exists>w. do_call (\<lambda>d e. e # d) token_cache_class True service_auth mail_call fresh_world = (Inr 1, w) \<and>
     do_call (\<lambda>d e. e # d) token_cache_class True (sample_auth\<lparr>ae_now := 4000\<rparr>) mail_call w = (Inr 1, w)"
proof -
  obtain w where w: "do_call (\<lambda>d e. e # d) token_cache_class True service_auth mail_call fresh_world = (Inr 1, w)"
    "aw_authenticator w = sample_authenticator" "au_result 1 w = service_token"
    using service_grants by blast
  have "do_call (\<lambda>d e. e # d) token_cache_class True (sample_auth\<lparr>ae_now := 4000\<rparr>) mail_call w = (Inr 1, w)"
    by (rule token_reused [OF w(1)])
      (simp_all add: w w(3) [unfolded One_nat_def] mail_call_def looks_up_def fresh_world_def hash_ok_def sample_authenticator_def sample_auth_def service_token_def
        AuthenticationResult_create_def queryCache_def alice_mail_key_def TokenCacheKey_create_def SubjectUser_def SubjectClient_def)
  then show ?thesis using w(1) by blast
qed

end
