(* ===== verification/TokenRestart.thy ===== *)
theory TokenRestart
  imports TokenReuseProperties
begin

text \<open>
  A token that was acquired is used again by the next process: a call, the cache file it leaves,
  and the same call of a context that starts with the file. What is needed of a cache with a
  file is an interface, which the file cache and the encrypted file cache of the library keep.
\<close>

section \<open>A cache with a file\<close>

locale persistent_cache =
  fixes v :: "'k cache_class" and savable :: "'k token_state \<Rightarrow> bool"
  assumes no_notice: "cc_onBeforeWrite v = ret ()"
    and no_file: "ts_file s = None \<Longrightarrow> cc_onBeforeAccess v s = (Inr (), s)"
    and not_changed: "\<not> ts_hasStateChanged s \<Longrightarrow> cc_onAfterAccess v s = (Inr (), s)"
    and kept: "cc_onAfterAccess v s = (Inr (), s') \<Longrightarrow> ts_objects s' = ts_objects s \<and> ts_dictionary s' = ts_dictionary s"
    and saved: "savable s \<Longrightarrow> ts_file s = None \<Longrightarrow> ts_hasStateChanged s \<Longrightarrow> cache_wf t \<Longrightarrow>
      \<exists>s'. cc_onAfterAccess v s = (Inr (), s') \<and> ts_objects s' = ts_objects s \<and> ts_dictionary s' = ts_dictionary s \<and>
        (ts_file t = ts_file s' \<longrightarrow> ts_keys t = ts_keys s' \<longrightarrow>
          (\<exists>t'. cc_onBeforeAccess v t = (Inr (), t') \<and> ts_hasStateChanged t' = ts_hasStateChanged t \<and> cache_wf t' \<and>
             cache_map t' = (map_option stored_result \<circ> cache_map s) ++ cache_map t))"

lemma single_entry:
  assumes "keys_distinct d" and "entries_map ob d = [nk \<mapsto> r]"
  shows "\<exists>k b. d = [(k, b)] \<and> norm_key k = nk \<and> ob b = r"
proof -
  have "k \<in> (norm_key \<circ> fst) ` set d \<longleftrightarrow> k = nk" for k
    using entries_map_None [of ob d k] assms(2) by (cases "k = nk") simp_all
  then have keys: "set (map (norm_key \<circ> fst) d) = {nk}" unfolding set_map by blast
  then have "card (set (map (norm_key \<circ> fst) d)) = 1" by simp
  then have "length d = 1" using assms(1) by (simp add: keys_distinct_def distinct_card del: set_map)
  then obtain k b where d: "d = [(k, b)]" by (cases d) auto
  have "norm_key k = nk" using keys d by simp
  moreover have "ob b = r" using fun_cong [OF assms(2), of nk] d calculation by (simp add: entries_map_def)
  ultimately show ?thesis using d by blast
qed

lemma run_loaded:
  assumes "preRunAsync ae h (x\<lparr>aw_notified := False\<rparr>) = (Inr h', y)" and "hd_loadFromCache h'"
    and "cc_onBeforeAccess v (aw_cache y) = (Inr (), t)" and "cc_onAfterAccess v t = (Inr (), t)"
    and "loadFromCache (currentDateTime (ae_now ae)) (av_authority (aw_authenticator y)) (hd_resource h')
      (ck_clientId (hd_clientKey h')) (hd_tokenSubjectType h') (hd_uniqueId h') t = (Some b, t)"
    and "ar_accessToken (ts_objects t b) \<noteq> []"
  shows "runAsync add v ae h x = (Inr b, y\<lparr>aw_cache := t, aw_notified := True\<rparr>)"
proof -
  have "run_cached add v ae h' y = (Inr (Some b), y\<lparr>aw_cache := t, aw_notified := True\<rparr>)"
    using assms(2,3,5,6) by (simp add: run_cached_def notifyBeforeAccessCache_def au_load_def au_cache_def sx_simps au_result_def)
  then show ?thesis
    using assms(1,4) by (simp add: runAsync_def run_body_def sx_simps notifyAfterAccessCache_def au_cache_def)
qed

context persistent_cache
begin

lemma found_after_restart:
  assumes "runAsync add v ae h w = (Inr a, w')" and "hd_loadFromCache h" and "hd_storeToCache h" and "hd_uniqueId h = []"
    and "ts_dictionary (aw_cache w) = []" and "ts_file (aw_cache w) = None" and "hash_ok add"
    and "\<not> av_isTenantless (aw_authenticator w')"
    and sav: "\<And>s. ts_dictionary s = ts_dictionary (aw_cache w') \<Longrightarrow> ts_objects s = ts_objects (aw_cache w') \<Longrightarrow>
      same_file s (aw_cache w) \<Longrightarrow> savable s"
    and x: "ts_dictionary (aw_cache x) = []" "\<not> ts_hasStateChanged (aw_cache x)"
      "ts_file (aw_cache x) = ts_file (aw_cache w')" "ts_keys (aw_cache x) = ts_keys (aw_cache w')"
    and y: "au_updateFromTemplate ae2 g (x\<lparr>aw_notified := False\<rparr>) = (Inr (), y)" "aw_authenticator y = aw_authenticator w'"
      "aw_cache y = aw_cache x"
    and now: "ae_now ae2 + 300 < ar_expiresOn (stored_result (au_result a w'))"
  shows "\<exists>b t. runAsync add v ae2 (h\<lparr>hd_correlationId := g\<rparr>) x = (Inr b, y\<lparr>aw_cache := t, aw_notified := True\<rparr>) \<and>
    ts_objects t b = stored_result (au_result a w')"
proof -
  obtain h' w1 w2 where p: "preRunAsync ae h (w\<lparr>aw_notified := False\<rparr>) = (Inr h', w1)" "aw_authenticator w1 = aw_authenticator w'"
    and n: "notifyAfterAccessCache v w2 = (Inr (), w')" and rd: "ready add [] h a w2" and ch: "ts_hasStateChanged (aw_cache w2)"
    and sf: "same_file (aw_cache w2) (aw_cache w)" and au: "aw_authenticator w2 = aw_authenticator w'"
    by (rule run_first [OF assms(1-3) _ assms(7,8)]) (simp_all add: no_file assms(5,6) no_notice nothing_for_def queryCache_def)
  obtain u where d2: "ts_dictionary (aw_cache w2) = [(TokenCacheKey_create (av_authority (aw_authenticator w')) (hd_resource h)
      (ck_clientId (hd_clientKey h)) (hd_tokenSubjectType h) u, a)]" "aw_notified w2" "ar_accessToken (au_result a w2) \<noteq> []"
    using rd au hash_okD [OF assms(7), of "[]"] by (auto simp: ready_def)
  let ?key = "TokenCacheKey_create (av_authority (aw_authenticator w')) (hd_resource h) (ck_clientId (hd_clientKey h))
      (hd_tokenSubjectType h) u"
  have wf: "cache_wf (aw_cache x)" using x(1) by (simp add: cache_wf_def keys_distinct_def)
  obtain s' where s': "cc_onAfterAccess v (aw_cache w2) = (Inr (), s')" "w' = w2\<lparr>aw_cache := s'\<rparr>"
    using n d2(2) by (auto simp: notifyAfterAccessCache_def au_cache_def zoom_app sx_simps split: prod.splits)
  have f2: "ts_file (aw_cache w2) = None" using sf assms(6) by (simp add: same_file_def)
  have same: "ts_objects s' = ts_objects (aw_cache w2)" "ts_dictionary s' = ts_dictionary (aw_cache w2)"
    using kept [OF s'(1)] by simp_all
  then have "savable (aw_cache w2)" using s'(2) sf by (intro sav) simp_all
  then obtain t where t: "cc_onBeforeAccess v (aw_cache x) = (Inr (), t)" "\<not> ts_hasStateChanged t" "cache_wf t"
    "cache_map t = (map_option stored_result \<circ> cache_map (aw_cache w2)) ++ cache_map (aw_cache x)"
    using saved [OF _ f2 ch wf] s' x(2-4) by auto
  have res: "au_result a w2 = au_result a w'" using s'(2) same(1) by (simp add: au_result_def)
  have "cache_map t = [norm_key ?key \<mapsto> stored_result (au_result a w')]"
    using t(4) d2(1) x(1) res by (auto simp: cache_map_def entries_map_def au_result_def fun_eq_iff map_add_def)
  then obtain k b where e: "ts_dictionary t = [(k, b)]" "norm_key k = norm_key ?key" "ts_objects t b = stored_result (au_result a w')"
    using single_entry [of "ts_dictionary t" "ts_objects t" "norm_key ?key" "stored_result (au_result a w')"] t(3)
    unfolding cache_map_def cache_wf_def by blast
  have acc: "ar_accessToken (ts_objects t b) \<noteq> []" using d2(3) e(3) res by (simp add: stored_result_def)
  let ?h = "h\<lparr>hd_correlationId := g\<rparr>"
  obtain d where d: "preRunAsync ae2 ?h (x\<lparr>aw_notified := False\<rparr>) = (Inr (?h\<lparr>hd_displayableId := d\<rparr>), y)"
    using pre_run_done(6) [OF p(1), of ae2 ?h _ y] y(1,2) p(2) by auto
  have "queryCache (av_authority (aw_authenticator w')) (ck_clientId (hd_clientKey h)) (hd_tokenSubjectType h) [] (ts_dictionary t) = [(k, b)]"
    unfolding queryCache_answers e(1) using e(2) by (simp add: answers_def norm_key_def TokenCacheKey_create_def)
  moreover have "equalsIC (tk_resource k) (hd_resource h)"
    using e(2) by (simp add: norm_key_def TokenCacheKey_create_def equalsIC_iff)
  ultimately have "loadFromCache (currentDateTime (ae_now ae2)) (av_authority (aw_authenticator w')) (hd_resource h)
      (ck_clientId (hd_clientKey h)) (hd_tokenSubjectType h) [] t = (Some b, t)"
    using acc now e(3) by (intro load_single) (simp_all add: currentDateTime_def)
  then have "runAsync add v ae2 ?h x = (Inr b, y\<lparr>aw_cache := t, aw_notified := True\<rparr>)"
    using assms(2,4) t(1,2) y(2,3) acc by (intro run_loaded [OF d]) (simp_all add: not_changed)
  then show ?thesis using e(3) by blast
qed

end

lemma file_cache_saved:
  assumes "cache_savable lib add 0 s" and "ts_hasStateChanged s" and "cache_wf t"
  shows "\<exists>s'. cc_onAfterAccess (FileCache_class lib add) s = (Inr (), s') \<and> ts_objects s' = ts_objects s \<and>
    ts_dictionary s' = ts_dictionary s \<and> (ts_file t = ts_file s' \<longrightarrow>
      (\<exists>t'. cc_onBeforeAccess (FileCache_class lib add) t = (Inr (), t') \<and> ts_hasStateChanged t' = ts_hasStateChanged t \<and>
         cache_wf t' \<and> cache_map t' = (map_option stored_result \<circ> cache_map s) ++ cache_map t))"
proof -
  obtain bytes where b: "tc_serialize lib s = Inr bytes" "length bytes < 2 ^ 31" "cache_plain s"
    and ok: "json_lib_ok lib" "hash_ok add" "ts_writable s"
    using assms(1) by (auto simp: cache_savable_def)
  have "tc_serialize lib (s\<lparr>ts_file := Some []\<rparr>) = Inr bytes" using b(1) by (simp add: tc_serialize_def tc_count_def)
  then have s': "cc_onAfterAccess (FileCache_class lib add) s =
      (Inr (), s\<lparr>ts_file := Some bytes, ts_hasStateChanged := False\<rparr>)"
    using ok(3) assms(2) by (simp add: FileCache_class_def file_cache_class_def fc_onAfterAccess_def fc_writeCache_def sx_simps)
  obtain t' where t': "tc_deserialize lib add bytes t = (Inr (), t')" "cache_wf t'"
    "cache_map t' = (map_option stored_result \<circ> cache_map s) ++ cache_map t"
    using tc_deserialize_saved [OF ok(1,2) b assms(3)] by blast
  then have "cc_onBeforeAccess (FileCache_class lib add) t = (Inr (), t')" if "ts_file t = Some bytes"
    using that by (simp add: FileCache_class_def file_cache_class_def fc_readCache_def sx_simps)
  then show ?thesis using s' t' deserialize_flag [OF t'(1)] by auto
qed

definition encrypted_savable :: "'k key_env \<Rightarrow> json_lib \<Rightarrow> (entry list \<Rightarrow> entry \<Rightarrow> entry list) \<Rightarrow> 'k token_state \<Rightarrow> bool" where
  "encrypted_savable ke lib add s \<longleftrightarrow> cache_savable lib add (2 * CBC4K_BLOCK_SIZE) s \<and>
     (\<exists>sec view key. key_env_ok ke sec view key \<and>
        key_after (view (ts_keys s) ''default'') (ke_rnd ke (ts_keys s)) = Some (base64_encode key))"

interpretation file_cache: persistent_cache "FileCache_class lib add :: 'k cache_class" "cache_savable lib add 0" for lib add
proof
  show "cc_onBeforeWrite (FileCache_class lib add :: 'k cache_class) = ret ()"
    by (simp add: FileCache_class_def file_cache_class_def)
  fix s t :: "'k token_state"
  show "cc_onAfterAccess (FileCache_class lib add) s = (Inr (), t) \<Longrightarrow> ts_objects t = ts_objects s \<and> ts_dictionary t = ts_dictionary s"
    by (auto simp: FileCache_class_def file_cache_class_def fc_onAfterAccess_def fc_writeCache_def sx_simps split: if_splits sum.splits)
  show "ts_file s = None \<Longrightarrow> cc_onBeforeAccess (FileCache_class lib add) s = (Inr (), s)"
    "\<not> ts_hasStateChanged s \<Longrightarrow> cc_onAfterAccess (FileCache_class lib add) s = (Inr (), s)"
    by (simp_all add: FileCache_class_def file_cache_class_def fc_readCache_def fc_onAfterAccess_def sx_simps)
  show "\<exists>s'. cc_onAfterAccess (FileCache_class lib add) s = (Inr (), s') \<and> ts_objects s' = ts_objects s \<and>
        ts_dictionary s' = ts_dictionary s \<and> (ts_file t = ts_file s' \<longrightarrow> ts_keys t = ts_keys s' \<longrightarrow>
          (\<exists>t'. cc_onBeforeAccess (FileCache_class lib add) t = (Inr (), t') \<and> ts_hasStateChanged t' = ts_hasStateChanged t \<and>
             cache_wf t' \<and> cache_map t' = (map_option stored_result \<circ> cache_map s) ++ cache_map t))"
    if "cache_savable lib add 0 s" "ts_hasStateChanged s" "cache_wf t"
    using file_cache_saved [OF that] by blast
qed

interpretation encrypted_file_cache: persistent_cache "FileCacheEncrypted_class ke lib add :: 'k cache_class" "encrypted_savable ke lib add"
  for ke :: "'k key_env" and lib add
proof
  fix s t :: "'k token_state"
  show "cc_onAfterAccess (FileCacheEncrypted_class ke lib add) s = (Inr (), t) \<Longrightarrow>
      ts_objects t = ts_objects s \<and> ts_dictionary t = ts_dictionary s"
    by (auto simp: FileCacheEncrypted_class_def file_cache_class_def fc_onAfterAccess_def fce_writeCache_def encrypt_cache_def
        run_keys_def sx_simps split: if_splits sum.splits prod.splits)
  show "cc_onBeforeWrite (FileCacheEncrypted_class ke lib add) = ret ()"
    by (simp add: FileCacheEncrypted_class_def file_cache_class_def)
  show "ts_file s = None \<Longrightarrow> cc_onBeforeAccess (FileCacheEncrypted_class ke lib add) s = (Inr (), s)"
    "\<not> ts_hasStateChanged s \<Longrightarrow> cc_onAfterAccess (FileCacheEncrypted_class ke lib add) s = (Inr (), s)"
    by (simp_all add: FileCacheEncrypted_class_def file_cache_class_def fce_readCache_def fc_onAfterAccess_def sx_simps)
  show "encrypted_savable ke lib add s \<Longrightarrow> ts_file s = None \<Longrightarrow> ts_hasStateChanged s \<Longrightarrow> cache_wf t \<Longrightarrow>
      \<exists>s'. cc_onAfterAccess (FileCacheEncrypted_class ke lib add) s = (Inr (), s') \<and> ts_objects s' = ts_objects s \<and>
        ts_dictionary s' = ts_dictionary s \<and> (ts_file t = ts_file s' \<longrightarrow> ts_keys t = ts_keys s' \<longrightarrow>
          (\<exists>t'. cc_onBeforeAccess (FileCacheEncrypted_class ke lib add) t = (Inr (), t') \<and> ts_hasStateChanged t' = ts_hasStateChanged t \<and>
             cache_wf t' \<and> cache_map t' = (map_option stored_result \<circ> cache_map s) ++ cache_map t))"
    unfolding encrypted_savable_def by (elim conjE exE) (rule encrypted_cache_saved)
qed

section \<open>Properties\<close>

lemma same_content:
  assumes "ts_dictionary s = ts_dictionary t" and "ts_objects s = ts_objects t"
  shows "cache_plain s \<longleftrightarrow> cache_plain t" and "tc_serialize lib s = tc_serialize lib t"
  using assms by (simp_all add: cache_plain_def tc_serialize_def tc_count_def)

lemma template_known:
  assumes "\<And>cid. updateFromTemplateAsync ae cid (aw_authenticator x) (aw_net x) = (Inr au, n)"
  shows "au_updateFromTemplate ae g (x\<lparr>aw_notified := b\<rparr>) = (Inr (), x\<lparr>aw_notified := b, aw_net := n, aw_authenticator := au\<rparr>)"
  using assms by (simp add: au_updateFromTemplate_def au_net_def zoom_app sx_simps)

text \<open>
  C8: The first call of a context with the encrypted file cache, made with an empty cache and before
  there is a cache file, leaves its token to the next process: when that starts with an empty
  cache, the file and the keyring, the same call returns the token as it was stored, and asks the
  network for nothing but what is needed to accept the authority. The authority names a tenant and
  is accepted with the same endpoints; the file can be written and the keyring works; what is
  stored is ASCII and less than 2 GiB; and the stored token is valid for more than five minutes, its
  expiry being read back as an \<open>int\<close>. (A later call appends to the file, which then cannot be
  read back: \<open>encrypted_cache_appends\<close>.)
\<close>

theorem token_survives_restart:
  assumes "do_call add (FileCacheEncrypted_class ke lib add) True ae c w = (Inr a, w')" and "looks_up c"
    and "ts_dictionary (aw_cache w) = []" and "ts_file (aw_cache w) = None" and "ts_writable (aw_cache w)"
    and "json_lib_ok lib" and "hash_ok add" and "key_env_ok ke sec view key"
    and "key_after (view (ts_keys (aw_cache w)) ''default'') (ke_rnd ke (ts_keys (aw_cache w))) = Some (base64_encode key)"
    and "cache_plain (aw_cache w')" and "tc_serialize lib (aw_cache w') = Inr bytes"
    and "length bytes + 2 * CBC4K_BLOCK_SIZE < 2 ^ 31" and "\<not> av_isTenantless (aw_authenticator w')"
    and "ts_dictionary (aw_cache x) = []" and "\<not> ts_hasStateChanged (aw_cache x)"
    and "ts_file (aw_cache x) = ts_file (aw_cache w')" and "ts_keys (aw_cache x) = ts_keys (aw_cache w')"
    and "\<And>cid. updateFromTemplateAsync ae2 cid (aw_authenticator x) (aw_net x) = (Inr (aw_authenticator w'), n)"
    and "ae_now ae2 + 300 < ar_expiresOn (stored_result (au_result a w'))"
  shows "\<exists>b x'. do_call add (FileCacheEncrypted_class ke lib add) True ae2 c x = (Inr b, x') \<and>
    au_result b x' = stored_result (au_result a w') \<and> aw_net x' = n"
proof -
  let ?v = "FileCacheEncrypted_class ke lib add"
  obtain h where h: "call_handler ae c (aw_authenticator w) = Inr h" and r: "runAsync add ?v ae h w = (Inr a, w')"
    using assms(1) by (auto simp: do_call_handler with_handler_def sx_simps split: sum.splits)
  obtain g where g: "call_handler ae2 c (aw_authenticator x) = Inr (h\<lparr>hd_correlationId := g\<rparr>)"
    using call_handler_again [OF h] by blast
  have sav: "encrypted_savable ke lib add s" if "ts_dictionary s = ts_dictionary (aw_cache w')" "ts_objects s = ts_objects (aw_cache w')"
    "same_file s (aw_cache w)" for s
    using assms(5-12) same_content [OF that(1,2)] that(3)
    by (auto simp: encrypted_savable_def cache_savable_def same_file_def)
  note f = call_handler_fields [OF h]
  have "\<exists>b t. runAsync add ?v ae2 (h\<lparr>hd_correlationId := g\<rparr>) x =
      (Inr b, x\<lparr>aw_notified := False, aw_net := n, aw_authenticator := aw_authenticator w'\<rparr>\<lparr>aw_cache := t, aw_notified := True\<rparr>) \<and>
      ts_objects t b = stored_result (au_result a w')"
    by (rule encrypted_file_cache.found_after_restart [OF r _ _ _ assms(3,4,7,13) sav assms(14-17) template_known [OF assms(18)]])
      (use f assms(2,19) in simp_all)
  then show ?thesis using g by (auto simp: do_call_handler with_handler_def sx_simps au_result_def)
qed

text \<open>The service that grants a token, and a process with an empty keyring and no file.\<close>

definition process :: "byte list option \<Rightarrow> (string \<Rightarrow> string option) \<Rightarrow> (unit, string \<Rightarrow> string option) auth_world" where
  "process f k = \<lparr>aw_authenticator = sample_authenticator,
     aw_cache = \<lparr>ts_objects = (\<lambda>a. alice_token), ts_next = 1, ts_dictionary = [], ts_hasStateChanged = False,
       ts_file = f, ts_writable = True, ts_keys = k\<rparr>, aw_net = (), aw_notified = False\<rparr>"

definition granted :: "(string \<Rightarrow> string option) token_state" where
  "granted = \<lparr>ts_objects = (\<lambda>a. alice_token)(1 := service_token), ts_next = 2,
     ts_dictionary = [(TokenCacheKey_create (av_authority sample_authenticator) ''https://mail'' ''app'' SubjectClient None, 1)],
     ts_hasStateChanged = True, ts_file = None, ts_writable = True, ts_keys = Map.empty\<rparr>"

lemma service_grants_file:
  assumes "cc_onAfterAccess v granted = (Inr (), c)" and "cc_onBeforeWrite v = ret ()"
    and "cc_onBeforeAccess v (aw_cache (process None Map.empty)) = (Inr (), aw_cache (process None Map.empty))"
  shows "do_call add_front v True service_auth mail_call (process None Map.empty) =
    (Inr 1, (process None Map.empty)\<lparr>aw_cache := c, aw_notified := True\<rparr>)"
proof -
  have s: "storeToCache add_front v 1 (av_authority sample_authenticator) ''https://mail'' ''app'' SubjectClient
      (snd (new_result service_token (aw_cache (process None Map.empty)))) = (Inr (), granted)"
    by (subst stored_alone [OF add_front_ok _ assms(2)])
      (simp_all add: add_front_def queryCache_def new_result_def process_def granted_def service_token_def AuthenticationResult_create_def)
  define h where "h = \<lparr>hd_resource = ''https://mail'', hd_clientKey = ClientKey_of_credential \<lparr>cred_clientId = ''app'', cred_clientSecret = ''s''\<rparr>,
     hd_tokenSubjectType = SubjectClient, hd_loadFromCache = True, hd_storeToCache = True, hd_supportADFS = True,
     hd_correlationId = createCallState service_auth guid_null, hd_uniqueId = [], hd_displayableId = [], hd_flow = ForClient\<rparr>"
  define w where "w = (process None Map.empty)\<lparr>aw_notified := False\<rparr>"
  have w: "aw_authenticator w = sample_authenticator" "aw_cache w = aw_cache (process None Map.empty)" "ts_dictionary (aw_cache w) = []"
    "ts_next (aw_cache w) = 1" "av_updatedFromTemplate sample_authenticator" "av_authorityType sample_authenticator = AAD"
    "av_isTenantless sample_authenticator = False" "av_correlationId sample_authenticator = guid_null"
    by (simp_all add: w_def process_def sample_authenticator_def)
  have c: "call_handler service_auth mail_call sample_authenticator = Inr h"
    by (simp add: mail_call_def AcquireTokenForClientHandler_create_def AcquireTokenHandlerBase_create_def h_def w)
  have hf: "hd_flow h = ForClient" "hd_loadFromCache h" "hd_storeToCache h" "hd_supportADFS h" "hd_resource h = ''https://mail''"
    "ck_clientId (hd_clientKey h) = ''app''" "hd_tokenSubjectType h = SubjectClient"
    by (simp_all add: h_def ClientKey_of_credential_def)
  have p: "preRunAsync service_auth h w = (Inr h, w)" by (rule preRun_updated) (simp_all add: w hf)
  have rc: "run_cached add_front v service_auth h w = (Inr None, w\<lparr>aw_notified := True\<rparr>)"
    using assms(3) [folded w(2)]
    by (simp add: run_cached_def hf notifyBeforeAccessCache_def au_load_def au_cache_def sx_simps nothing_found queryCache_def w(1,3))
  have rr: "run_requested add_front v service_auth h (w\<lparr>aw_notified := True\<rparr>) = (Inr 1, w\<lparr>aw_notified := True, aw_cache := granted\<rparr>)"
    using s [folded w(2)] by (simp add: run_requested_def preTokenRequest_def hf sx_simps service_sent postTokenRequest_def au_updateTenantId_def
        updateTenantId_def au_store_def au_cache_def w(1,3-8))
  have "runAsync add_front v service_auth h (process None Map.empty) = (Inr 1, w\<lparr>aw_notified := True, aw_cache := c\<rparr>)"
    using assms(1) by (simp add: runAsync_def run_body_def sx_simps p rc rr notifyAfterAccessCache_def au_cache_def flip: w_def)
  moreover have "w\<lparr>aw_notified := True, aw_cache := c\<rparr> = (process None Map.empty)\<lparr>aw_cache := c, aw_notified := True\<rparr>"
    by (simp add: w_def)
  moreover have "aw_authenticator (process None Map.empty) = sample_authenticator" by (simp add: process_def)
  ultimately show ?thesis using c by (simp add: do_call_handler with_handler_def sx_simps)
qed

lemma granted_plain: "cache_plain granted"
  unfolding cache_plain_def entry_plain_def by code_simp

lemma granted_length: "tc_serialize tally_json granted = Inr bytes \<Longrightarrow> length bytes < 10000"
  by (auto simp: tc_serialize_def granted_def TokenCacheKey_create_def user_unique_id_def Str2Uint8_def bindE_eq_Inr
      AuthenticationResult_serialize_def result_json_def insertString_def service_token_def AuthenticationResult_create_def
      json_dump_def tally_json_def tally_def as_int_def sample_authenticator_def)

theorem token_survives_restart_witness:
  "\<exists>w' b x'. do_call add_front (FileCacheEncrypted_class sample_env tally_json add_front) True service_auth mail_call
      (process None Map.empty) = (Inr 1, w') \<and>
    do_call add_front (FileCacheEncrypted_class sample_env tally_json add_front) True (sample_auth\<lparr>ae_now := 4000\<rparr>) mail_call
      (process (ts_file (aw_cache w')) (ts_keys (aw_cache w'))) = (Inr b, x') \<and>
    au_result b x' = stored_result service_token"
proof -
  let ?v = "FileCacheEncrypted_class sample_env tally_json add_front"
  obtain bytes where b: "tc_serialize tally_json granted = Inr bytes" "length bytes < 10000"
    using token_cache_total [OF tally_json_ok granted_plain] granted_length by blast
  have ka: "key_after (Map.empty ''default'') (ke_rnd sample_env k) = Some (base64_encode (replicate 16 7))" for k
    by (simp add: key_after_def sample_env_def)
  have "cache_savable tally_json add_front (2 * CBC4K_BLOCK_SIZE) granted"
    using b granted_plain by (simp add: cache_savable_def tally_json_ok add_front_ok CBC4K_BLOCK_SIZE_def granted_def)
  moreover have g: "ts_file granted = None" "ts_hasStateChanged granted" "ts_keys granted = Map.empty" "ts_objects granted 1 = service_token"
    by (simp_all add: granted_def)
  moreover have "cache_wf (aw_cache (process None Map.empty))" by (simp add: cache_wf_def keys_distinct_def process_def)
  ultimately obtain c where c: "cc_onAfterAccess ?v granted = (Inr (), c)" "ts_objects c = ts_objects granted" "ts_dictionary c = ts_dictionary granted"
    using encrypted_cache_saved [OF _ sample_env_ok, of tally_json add_front granted "aw_cache (process None Map.empty)"] ka by auto
  let ?w = "(process None Map.empty)\<lparr>aw_cache := c, aw_notified := True\<rparr>"
  have w: "do_call add_front ?v True service_auth mail_call (process None Map.empty) = (Inr 1, ?w)"
    by (rule service_grants_file [OF c(1) encrypted_file_cache.no_notice encrypted_file_cache.no_file]) (simp add: process_def)
  have "\<exists>b x'. do_call add_front ?v True (sample_auth\<lparr>ae_now := 4000\<rparr>) mail_call (process (ts_file c) (ts_keys c)) = (Inr b, x') \<and>
      au_result b x' = stored_result (au_result 1 ?w) \<and> aw_net x' = ()"
  proof (rule token_survives_restart [OF w _ _ _ _ tally_json_ok add_front_ok sample_env_ok, where bytes = bytes])
    show "cache_plain (aw_cache ?w)" "tc_serialize tally_json (aw_cache ?w) = Inr bytes"
      using granted_plain b(1) same_content [OF c(3,2)] by simp_all
  qed (use ka b(2) c(2) in \<open>simp_all add: process_def looks_up_def mail_call_def CBC4K_BLOCK_SIZE_def sample_authenticator_def
      updateFromTemplateAsync_def sx_simps sample_auth_def au_result_def granted_def service_token_def AuthenticationResult_create_def
      stored_result_def as_int_def\<close>)
  then show ?thesis using w c(2) g(4) by (auto simp: au_result_def)
qed

end
