(* ===== verification/Spec2Isabelle.thy ===== *)
theory Spec2Isabelle
  imports Prelude Base64 Exceptions EvpCipher CryptoProvider Cbc4k Cbc512 Ecb IStream StdStream
    SimpleStream CachedBlock BlockStream StreamReading StreamWriting StreamProperties StreamEdges DeviceStream
    PFile SequentialStream PFileProperties CryptoAPI KeyTable Tools RestObjects
    ProtectionPolicy PolicyCache UserPolicy PolicyProperties ProtectedFile ProtectedFileProperties
    IniFile IniProperties DateTime RestClientCache UsageRestrictionsClient DiskCacheProperties
    AuthStrings AuthJson TokenCache TokenCacheProperties
    StdStrings JsonValues Uri RmsJson JsonSerializer JsonProperties HttpClient RestHttp RestHttpProperties
    Consents ConsentProperties ServiceDiscovery ServiceClients ServiceProperties
    LicenseXml LicenseProperties LicenseMarkup Hashes Certificates
    AuthUrl AuthRequest Authenticator OAuth2 AcquireToken AuthRequestProperties AcquireTokenProperties
    TokenCallProperties TokenReuseProperties TokenRestart
begin

text \<open>
  The RMS SDK for C++ lets an application read and write files that are encrypted under a
  policy kept by a service. This is a model of its core and the theorems about it.

  \<^bold>\<open>The parts and how they work together.\<close> An application opens a protected file
  (\<open>rms_sdk/ModernAPI/ProtectedFileStream.cpp\<close>). The header of the file (\<open>rms_sdk/PFile\<close>)
  holds a publishing license; the policy for it (\<open>rms_sdk/Core/ProtectionPolicy.cpp\<close>) comes
  from a list in memory, from the cache on disk (\<open>rms_sdk/RestClients/RestClientCache.cpp\<close>),
  or from the usage restrictions service. The policy has a key and a cipher mode, and from
  these a provider of block encryption (\<open>rmscrypto_sdk/Crypto\<close>). A block-based stream
  (\<open>rmscrypto_sdk/CryptoAPI\<close>) puts the provider between the application and the backing
  stream, with a cache of one block. Keys of the library's own files are kept in the
  platform's key store. The three layers are \<open>rmscrypto_sdk\<close>, \<open>rms_sdk\<close> over it, and
  \<open>rmsauth_sdk\<close> beside them, which gets the tokens for the service and keeps them in a
  cache whose file is encrypted by \<open>rmscrypto_sdk\<close>.

  \<^bold>\<open>Theories.\<close> State is passed explicitly: an operation is a function from a state to an
  outcome and a state, \<open>('e, 's, 'a) sx\<close> of \<open>Prelude\<close>, where the outcome is an exception
  (\<open>Inl\<close>) or a value (\<open>Inr\<close>), and a method of a part is run on the whole with \<open>zoom\<close>.

    \<^item> \<open>Prelude\<close>: this monad, 32 and 64 bit arithmetic with its wrap-around, little-endian
      images, writing at an offset.
    \<^item> \<open>Exceptions\<close>: the two hierarchies of exceptions as one type \<open>exn\<close>, with what the
      catch clauses see; also the ways a call can end that are no exceptions: a mutex taken
      twice, a null pointer followed, and not returning at all.
    \<^item> \<open>Base64\<close>, \<open>EvpCipher\<close>, \<open>CryptoProvider\<close>, \<open>Cbc4k\<close>, \<open>Cbc512\<close>, \<open>Ecb\<close>: the codec of
      the key store, AES through OpenSSL (the parameter \<open>evp\<close> and the laws \<open>evp_ok\<close>), the
      interface of the providers and its three implementations.
    \<^item> \<open>IStream\<close>, \<open>StdStream\<close>, \<open>SimpleStream\<close>, \<open>CachedBlock\<close>, \<open>BlockStream\<close>: the stream
      interface as a table of methods, the adapter of a standard stream, the stream that
      encrypts, the cached block and the stream applications use. \<open>StreamReading\<close> and
      \<open>StreamWriting\<close> prove its two modes of use over any provider and any backing stream,
      \<open>StreamProperties\<close> draws the theorems, \<open>StreamEdges\<close> has the behaviour off that path.
      \<open>DeviceStream\<close>: the stream over a data stream of the application
      (\<open>rms_sdk/ModernAPI/ext/QTStreamImpl.h\<close>, over any device) as a backing stream.
    \<^item> \<open>Hashes\<close>: the hashes of the crypto engine. \<open>Certificates\<close>: the certificates that are added,
      those that come with the library, and what an HTTP client trusts of them.
    \<^item> \<open>SequentialStream\<close>, \<open>PFile\<close>, \<open>PFileProperties\<close>: sequential use of a stream, the file
      header, its reader and writer, and their properties.
    \<^item> \<open>CryptoAPI\<close>: making providers and streams, streams with stored keys, and the POSIX
      key store over libsecret (a parameter). \<open>KeyTable\<close>: the key store of the Windows build, a
      table of SQLite (a parameter) reached by statements put together from texts.
    \<^item> \<open>Tools\<close>, \<open>RestObjects\<close>, \<open>ProtectionPolicy\<close>, \<open>PolicyCache\<close>, \<open>UserPolicy\<close>,
      \<open>PolicyProperties\<close>: the policies, from the answer of a service to what the application
      is told; the list of recent policies is a state machine with an invariant.
    \<^item> \<open>ProtectedFile\<close>, \<open>ProtectedFileProperties\<close>: creating and acquiring protected files,
      the custom protected stream, and the round trip through all of the above.
    \<^item> \<open>IniFile\<close>, \<open>IniProperties\<close>, \<open>DateTime\<close>, \<open>RestClientCache\<close>,
      \<open>UsageRestrictionsClient\<close>, \<open>DiskCacheProperties\<close>: the settings file, the dates, the
      cache on disk and the client that uses it.
    \<^item> \<open>AuthStrings\<close>, \<open>AuthJson\<close>, \<open>TokenCache\<close>, \<open>TokenCacheProperties\<close>: the strings and
      exceptions of the authentication library, the objects it stores as JSON, the token
      cache in memory, in a file and in an encrypted file, and its refinement of a map.

    \<^item> \<open>StdStrings\<close>, \<open>JsonValues\<close>, \<open>Uri\<close>: what both libraries use of strings, of the JSON library
      and of addresses.
    \<^item> \<open>RmsJson\<close>, \<open>JsonSerializer\<close>, \<open>JsonProperties\<close>: the wrappers of JSON objects and arrays
      (\<open>rms_sdk/Platform/Json\<close>), the requests and answers of the services
      (\<open>rms_sdk/Json/jsonserializer.cpp\<close>), and what is and is not read from an answer.
    \<^item> \<open>HttpClient\<close>, \<open>RestHttp\<close>, \<open>RestHttpProperties\<close>: the HTTP client over libcurl, the challenge
      of an endpoint, the token for it, the request with the token, and the errors of a service.
    \<^item> \<open>Consents\<close>, \<open>ConsentProperties\<close>: the consents of a user, their files and the questions to
      the application.
    \<^item> \<open>ServiceDiscovery\<close>, \<open>ServiceClients\<close>, \<open>ServiceProperties\<close>: from an e-mail address or a
      license to the addresses of the services, over DNS, the cache on disk, the consents and the
      requests, and the clients for publishing and for templates on top.
    \<^item> \<open>LicenseXml\<close>, \<open>LicenseProperties\<close>, \<open>LicenseMarkup\<close>: the scan for tags and elements
      (\<open>rms_sdk/RestClients/CXMLUtils.cpp\<close>) and what it finds in a document with markup, paths into a document, and the domains and the
      certificate of a publishing license.
    \<^item> \<open>AuthUrl\<close>, \<open>AuthRequest\<close>, \<open>Authenticator\<close>, \<open>OAuth2\<close>, \<open>AcquireToken\<close>: addresses and
      correlation ids, clients, users and requests (\<open>rmsauth/HttpHelperQt.cpp\<close>), authorities and
      their endpoints, the answers with a token or a code, and the handlers with the context that
      runs them (\<open>rmsauth/AcquireTokenHandlerBase.cpp\<close>, \<open>AuthenticationContext.cpp\<close>).
    \<^item> \<open>AuthRequestProperties\<close>, \<open>AcquireTokenProperties\<close>, \<open>TokenCallProperties\<close>,
      \<open>TokenReuseProperties\<close>, \<open>TokenRestart\<close>: what is sent and read, that every request of any
      sequence of calls is secure, what a call returns and hides, two calls one after the other,
      and two processes one after the other.

  Constants and record fields have the names of the code, with a prefix where two classes
  share a name (\<open>sa_\<close> for the standard adapter, \<open>sp_\<close> for the simple protected stream, \<open>cb_\<close>
  for the cached block, \<open>bs_\<close> for the block-based stream, \<open>pr_\<close> and \<open>pw_\<close> for the header
  reader and writer, \<open>pp_\<close> for the protection policy).

  \<^bold>\<open>Interfaces.\<close> A provider is used through the locales of \<open>CryptoProvider\<close> and
  \<open>StreamReading\<close>, a stream through \<open>random_access_stream\<close>, \<open>readable_stream\<close> and
  \<open>appendable_stream\<close>. Each is interpreted on the model's own definitions where these are
  made: the three providers, the adapter of a standard stream, the stream over a device, and the
  pairs of a provider and a stream in \<open>StreamProperties\<close> and \<open>DeviceStream\<close>. A store of keys is used through \<open>key_storage\<close>, which
  is interpreted on that of POSIX and on that of Windows. A call for a token uses the network through
  \<open>secure_network\<close>, which is interpreted on the network of the model with its requests recorded, and
  a cache that lasts through \<open>persistent_cache\<close>, which is interpreted on both caches with a file.

  \<^bold>\<open>What the theorems show.\<close> Files: what is written through a protected stream in any
  chunks is what one call of the provider would have stored, and is read back from any
  offset, also through the header, the policy and the file functions; the length an
  application is told is the length it gets. The header: written, then read; any bytes
  are read without an unexpected outcome. Policies: what the list keeps, where, and when it
  answers, and what the application is told of rights, validity and type. The settings
  file is read back as it was written. Services: the policy of a publishing request survives
  the serializer and its reader, a challenge is read from the answer it came in, the token leaves
  only after a challenge and the discovery service is asked over https only; a consent to an
  address with a part behind a dot, and to no other, is found by the next process, and an answer of
  the application decides; of a document with markup exactly the elements of a name are extracted. Tokens: the state of the cache
  is read back from its file, an authority that is accepted is secure and so is every request
  made for it, and a token that is acquired for a tenant is used again until shortly before it
  expires, where nothing was cached for its authority, client and kind of subject, and by the next
  process where there was no encrypted file before. A number of theorems state what the code does where
  it does not do what it means to: checks that wrap, buffers that are overrun, a clean-up
  that deadlocks, a cache that never answers, times that cannot be read back, keys that are
  never read from an answer, a publication that never succeeds, consents that count for more
  than they were given for, tokens of another user, a refusal that is taken for a grant.

  \<^bold>\<open>Bounds and fuel.\<close> Streams are shorter than 2 GiB in the theorems, since the adapter
  counts sizes in an \<open>int\<close>. Every loop of the model ends by its own measure. The one
  recursion without a measure, a block-based stream that grows itself while it seeks or
  changes its size, takes fuel; one unit is enough for every seek inside the content, and
  the theorems say so by \<open>Suc f\<close> for any \<open>f\<close>.

  \<^bold>\<open>Parameters.\<close> OpenSSL, libsecret, SQLite, the calls of Windows, udns, libcurl, libxml2, iconv, the JSON library, the order of hash maps, the random
  numbers, the data streams of an application, the clock, the time zone, SHA-256, the resolver of DNS names, the callbacks of the
  application, the authentication dialog, if there is one, and the memory of variables that are
  read before they are written or after they are released. Their laws, where a theorem needs any, are named (\<open>evp_ok\<close>,
  \<open>secret_ok\<close>, \<open>sqlite_ok\<close>, \<open>windows_ok\<close>, \<open>digest_ok\<close>, \<open>device_ok\<close>, \<open>x509_ok\<close>, \<open>decode_block_ok\<close>, \<open>uninit_ok\<close>, \<open>json_lib_ok\<close>, \<open>hash_ok\<close>, \<open>key_env_ok\<close>), and every theorem that uses them has an
  instance in which they hold.

  \<^bold>\<open>Not modelled.\<close> An asynchronous call is modelled with the wait for its result, the way
  the library itself calls it; threads are modelled where they matter for a mutex. A stream
  and its clone share bytes in the code; here the clone has the bytes and the original is
  not used beside it. Logging is left out, and so are the vendored SQLite and the user interface. A data stream
  of an application that fails in the middle of a call is not modelled. The usage
  restrictions client takes its services as parameters, which \<open>RestHttp\<close>, \<open>JsonSerializer\<close> and
  \<open>ServiceDiscovery\<close> model on a state of their own. The jar of cookies is a copy of Qt's class
  behind a switch of the build that is off, and the files of the platform layer, the samples and the tests have no logic of their own.
\<close>

end
